(* ===== verification/Base.thy ===== *)
theory Base
  imports Main "HOL-Library.Word"
begin

text \<open>
  The prelude of the development: the widths of the program's integers, results that may
  be an error, the unsigned sixty-four bit \<open>size_t\<close> arithmetic, and the generic lemmas on
  words, lists and flags that the component theories share.
\<close>

unbundle bit_operations_syntax

type_synonym u8 = "8 word"
type_synonym u16 = "16 word"
type_synonym u32 = "32 word"
type_synonym u64 = "64 word"

named_theorems tc_flags \<open>facts about bit flags in machine words\<close>
named_theorems tc_bind \<open>facts about sequencing of fallible steps\<close>

section \<open>Results that may be an error\<close>

text \<open>
  A C++ function that may throw is a function into \<open>'e + 'a\<close>: \<open>Inl\<close> is the exception,
  \<open>Inr\<close> the returned value. \<open>sbind\<close> is the sequencing of two statements: the second does
  not run when the first throws.
\<close>

definition sbind :: "'e + 'a \<Rightarrow> ('a \<Rightarrow> 'e + 'b) \<Rightarrow> 'e + 'b" where
  "sbind m f = (case m of Inl e \<Rightarrow> Inl e | Inr x \<Rightarrow> f x)"

lemma sbind_simps [simp, tc_bind]:
  "sbind (Inl e) f = Inl e" "sbind (Inr x) f = f x"
  by (simp_all add: sbind_def)

lemma sbind_Inr [tc_bind]: "sbind m f = Inr y \<longleftrightarrow> (\<exists>x. m = Inr x \<and> f x = Inr y)"
  by (cases m) auto

lemma sbind_Inl [tc_bind]:
  "sbind m f = Inl e \<longleftrightarrow> m = Inl e \<or> (\<exists>x. m = Inr x \<and> f x = Inl e)"
  by (cases m) auto

lemma sbind_assoc: "sbind (sbind m f) g = sbind m (\<lambda>x. sbind (f x) g)"
  by (cases m) auto

lemma sbind_cong [fundef_cong]:
  "m = m' \<Longrightarrow> (\<And>x. m' = Inr x \<Longrightarrow> f x = f' x) \<Longrightarrow> sbind m f = sbind m' f'"
  by (cases m') auto

section \<open>The arithmetic of size_t\<close>

text \<open>
  Positions and lengths are \<open>size_t\<close>, sixty-four bits wide. They are natural numbers here,
  and every addition the code makes before a comparison wraps: \<open>sz_add\<close>.
\<close>

definition size_max :: nat where
  "size_max = 2 ^ 64"

definition sz_add :: "nat \<Rightarrow> nat \<Rightarrow> nat" where
  "sz_add a b = (a + b) mod size_max"

lemma sz_add_le: "sz_add a b \<le> a + b"
  by (simp add: sz_add_def)

lemma sz_add_less: "sz_add a b < size_max"
  by (simp add: sz_add_def size_max_def)

lemma sz_add_eq: "a + b < size_max \<Longrightarrow> sz_add a b = a + b"
  by (simp add: sz_add_def)

section \<open>Bit flags\<close>

text \<open>\<open>has_flag x f\<close> is the C++ test \<open>x & f\<close> used as a truth value.\<close>

definition has_flag :: "'a::len word \<Rightarrow> 'a word \<Rightarrow> bool" where
  "has_flag x f \<longleftrightarrow> x AND f \<noteq> 0"

lemma has_flag_0 [simp]: "\<not> has_flag 0 f"
  by (simp add: has_flag_def)

lemma has_flag_bit: "has_flag x (2 ^ n) \<longleftrightarrow> bit (x :: 'a::len word) n"
proof -
  have "x AND 2 ^ n = (if bit x n then 2 ^ n else 0)"
    by (rule bit_word_eqI) (auto simp: bit_simps)
  moreover have "bit x n \<Longrightarrow> (2 ^ n :: 'a word) \<noteq> 0"
    by (metis bit_imp_le_length exp_eq_zero_iff linorder_not_le)
  ultimately show ?thesis by (simp add: has_flag_def)
qed

text \<open>The bits of the flag constants that fit in a byte, as powers of two.\<close>

lemma flag_powers [tc_flags]:
  "(1 :: 'a::len word) = 2 ^ 0" "(2 :: 'a word) = 2 ^ 1" "(4 :: 'a word) = 2 ^ 2"
  "(8 :: 'a word) = 2 ^ 3" "(16 :: 'a word) = 2 ^ 4" "(32 :: 'a word) = 2 ^ 5"
  "(64 :: 'a word) = 2 ^ 6" "(128 :: 'a word) = 2 ^ 7"
  by simp_all

lemma has_flag_set_same: "f \<noteq> 0 \<Longrightarrow> has_flag (x OR f) f"
proof -
  assume "f \<noteq> 0"
  moreover have "(x OR f) AND f = f"
    by (rule bit_word_eqI) (auto simp: bit_simps)
  ultimately show ?thesis by (simp add: has_flag_def)
qed

lemma has_flag_clear_same [simp]: "\<not> has_flag (x AND NOT f) f"
  by (simp add: has_flag_def and.assoc)

lemma has_flag_set_other: "f AND g = 0 \<Longrightarrow> has_flag (x OR f) g = has_flag x g"
  by (simp add: has_flag_def bit.conj_disj_distrib2)

lemma has_flag_clear_other:
  assumes "f AND g = 0"
  shows "has_flag (x AND NOT f) g = has_flag x g"
proof -
  have "(x AND NOT f) AND g = x AND g"
  proof (rule bit_word_eqI)
    fix n
    assume n: "n < LENGTH('a)"
    from assms have "bit (f AND g) n = bit (0 :: 'a word) n" by simp
    with n show "bit ((x AND NOT f) AND g) n = bit (x AND g) n"
      by (auto simp: bit_simps)
  qed
  then show ?thesis by (simp add: has_flag_def)
qed

section \<open>Bytes of a word\<close>

text \<open>
  The little-endian bytes of a fixed-width value, and the value of a byte string:
  the object representation that \<open>(uint8*)&value\<close> gives on a little-endian host.
\<close>

definition word_le_bytes :: "'a::len word \<Rightarrow> u8 list" where
  "word_le_bytes w = map (\<lambda>i. ucast (drop_bit (8 * i) w)) [0..<LENGTH('a) div 8]"

fun word_of_le_bytes :: "u8 list \<Rightarrow> 'a::len word" where
  "word_of_le_bytes [] = 0"
| "word_of_le_bytes (b # bs) = ucast b OR push_bit 8 (word_of_le_bytes bs)"

lemma length_word_le_bytes [simp]: "length (word_le_bytes (w :: 'a::len word)) = LENGTH('a) div 8"
  by (simp add: word_le_bytes_def)

lemma bit_word_of_le_bytes:
  "bit (word_of_le_bytes bs :: 'a::len word) n \<longleftrightarrow>
     n < LENGTH('a) \<and> n div 8 < length bs \<and> bit (bs ! (n div 8)) (n mod 8)"
proof (induction bs arbitrary: n)
  case Nil
  then show ?case by simp
next
  case (Cons b bs)
  show ?case
  proof (cases "n < 8")
    case True
    then show ?thesis by (auto simp: bit_simps)
  next
    case False
    then have d: "n div 8 = Suc ((n - 8) div 8)" "n mod 8 = (n - 8) mod 8"
      by (simp_all add: le_div_geq le_mod_geq)
    from False have "\<not> bit b n"
      using bit_imp_le_length [of b n] by auto
    with False d Cons.IH [of "n - 8"] show ?thesis
      by (auto simp: bit_simps)
  qed
qed

text \<open>Every width the buffer stores is a whole number of bytes.\<close>

lemma word_of_le_bytes_inverse:
  assumes "8 dvd LENGTH('a::len)"
  shows "word_of_le_bytes (word_le_bytes (w :: 'a word)) = w"
proof (rule bit_word_eqI)
  fix n
  assume n: "n < LENGTH('a)"
  with assms have lt: "n div 8 < LENGTH('a) div 8"
    by (metis div_less_iff_less_mult dvd_div_mult_self zero_less_numeral)
  have "bit (word_le_bytes w ! (n div 8)) (n mod 8) \<longleftrightarrow> bit w n"
    using lt n by (simp add: word_le_bytes_def bit_simps)
  with n lt show "bit (word_of_le_bytes (word_le_bytes w) :: 'a word) n = bit w n"
    by (simp add: bit_word_of_le_bytes)
qed

lemma dvd_lengths [simp]:
  "8 dvd LENGTH(8)" "8 dvd LENGTH(16)" "8 dvd LENGTH(32)" "8 dvd LENGTH(64)"
  by simp_all

section \<open>Characters and bytes\<close>

definition byte_of_char :: "char \<Rightarrow> u8" where
  "byte_of_char c = of_nat (of_char c)"

definition char_of_byte :: "u8 \<Rightarrow> char" where
  "char_of_byte b = char_of (unat b)"

lemma char_of_byte_inverse [simp]: "char_of_byte (byte_of_char c) = c"
proof -
  have "(of_char c :: nat) < 256" by simp
  then show ?thesis
    by (simp add: char_of_byte_def byte_of_char_def unat_of_nat)
qed

lemma byte_of_char_0: "byte_of_char c = 0 \<longleftrightarrow> c = CHR 0x00"
proof
  assume "byte_of_char c = 0"
  then have "char_of_byte (byte_of_char c) = char_of_byte 0" by simp
  then have "c = char_of_byte 0" by simp
  also have "\<dots> = CHR 0x00"
    by (simp add: char_of_byte_def char_of_def)
  finally show "c = CHR 0x00" .
qed (simp add: byte_of_char_def)

end
