(* ===== verification/Std_Map.thy ===== *)
theory Std_Map
  imports Base
begin

text \<open>
  The ordered containers of the C++ standard library that the program uses: \<open>std::map\<close>
  (iterated in key order, unique keys) and \<open>std::multimap\<close> (equal keys in insertion
  order). The locale \<open>ordered_map\<close> is what the clients rely on; it is interpreted on the
  sorted association list at the end.
\<close>

section \<open>The interface\<close>

locale ordered_map =
  fixes find :: "'m \<Rightarrow> 'k::linorder \<Rightarrow> 'v option"
    and put :: "'k \<Rightarrow> 'v \<Rightarrow> 'm \<Rightarrow> 'm"
    and erase :: "'k \<Rightarrow> 'm \<Rightarrow> 'm"
    and keys :: "'m \<Rightarrow> 'k list"
    and wf :: "'m \<Rightarrow> bool"
  assumes find_put: "wf m \<Longrightarrow> find (put k v m) j = (if j = k then Some v else find m j)"
    and find_erase: "wf m \<Longrightarrow> find (erase k m) j = (if j = k then None else find m j)"
    and wf_put: "wf m \<Longrightarrow> wf (put k v m)"
    and wf_erase: "wf m \<Longrightarrow> wf (erase k m)"
    and in_keys: "wf m \<Longrightarrow> k \<in> set (keys m) \<longleftrightarrow> find m k \<noteq> None"
    and keys_sorted: "wf m \<Longrightarrow> sorted_wrt (<) (keys m)"
begin

lemma distinct_keys: "wf m \<Longrightarrow> distinct (keys m)"
  using keys_sorted [of m] by (simp add: strict_sorted_iff)

lemma set_keys_put: "wf m \<Longrightarrow> set (keys (put k v m)) = insert k (set (keys m))"
  by (auto simp: in_keys wf_put find_put split: if_splits)

lemma set_keys_erase: "wf m \<Longrightarrow> set (keys (erase k m)) = set (keys m) - {k}"
  by (auto simp: in_keys wf_erase find_erase split: if_splits)

text \<open>The size of the container is the number of its keys.\<close>

lemma size_put:
  "wf m \<Longrightarrow> length (keys (put k v m)) = length (keys m) + (if find m k = None then 1 else 0)"
proof -
  assume w: "wf m"
  have "length (keys (put k v m)) = card (insert k (set (keys m)))"
    using w by (metis distinct_card distinct_keys set_keys_put wf_put)
  also have "\<dots> = length (keys m) + (if find m k = None then 1 else 0)"
    using w by (simp add: distinct_card distinct_keys in_keys card_insert_if)
  finally show ?thesis .
qed

lemma size_erase:
  "wf m \<Longrightarrow> find m k \<noteq> None \<Longrightarrow> Suc (length (keys (erase k m))) = length (keys m)"
proof -
  assume w: "wf m" and k: "find m k \<noteq> None"
  then have "k \<in> set (keys m)" by (simp add: in_keys)
  then have "Suc (card (set (keys m) - {k})) = card (set (keys m))"
    by (simp only: card.remove [of "set (keys m)" k] finite_set)
  with w show ?thesis
    by (metis distinct_card distinct_keys set_keys_erase wf_erase)
qed

text \<open>The first key in iteration order is the least one.\<close>

lemma first_key_least:
  assumes w: "wf m" and e: "keys m = k # ks" and j: "find m j \<noteq> None"
  shows "k \<le> j"
proof -
  from j w have "j \<in> set (keys m)" by (simp add: in_keys)
  with e have "j = k \<or> j \<in> set ks" by simp
  with keys_sorted [OF w] e show ?thesis by auto
qed

lemma first_key_found: "wf m \<Longrightarrow> keys m = k # ks \<Longrightarrow> find m k \<noteq> None"
  using in_keys [of m k] by simp

text \<open>A predicate on entries survives an insertion of a good entry and any erasure.\<close>

lemma all_put:
  "wf m \<Longrightarrow> (\<And>j w. find m j = Some w \<Longrightarrow> P j w) \<Longrightarrow> P k v \<Longrightarrow>
   find (put k v m) j = Some w \<Longrightarrow> P j w"
  by (auto simp: find_put split: if_splits)

lemma all_erase:
  "wf m \<Longrightarrow> (\<And>j w. find m j = Some w \<Longrightarrow> P j w) \<Longrightarrow> find (erase k m) j = Some w \<Longrightarrow> P j w"
  by (auto simp: find_erase split: if_splits)

end

section \<open>std::map as a sorted association list\<close>

type_synonym ('k, 'v) smap = "('k \<times> 'v) list"

definition sm_wf :: "('k::linorder, 'v) smap \<Rightarrow> bool" where
  "sm_wf m \<longleftrightarrow> sorted_wrt (<) (map fst m)"

definition sm_find :: "('k::linorder, 'v) smap \<Rightarrow> 'k \<Rightarrow> 'v option" where
  "sm_find m k = map_of m k"

definition sm_put :: "'k::linorder \<Rightarrow> 'v \<Rightarrow> ('k, 'v) smap \<Rightarrow> ('k, 'v) smap" where
  "sm_put k v m = filter (\<lambda>e. fst e < k) m @ (k, v) # filter (\<lambda>e. k < fst e) m"

definition sm_erase :: "'k::linorder \<Rightarrow> ('k, 'v) smap \<Rightarrow> ('k, 'v) smap" where
  "sm_erase k m = filter (\<lambda>e. fst e \<noteq> k) m"

definition sm_keys :: "('k::linorder, 'v) smap \<Rightarrow> 'k list" where
  "sm_keys m = map fst m"

text \<open>A loop over the map that updates every mapped value in place.\<close>

definition sm_map :: "('k \<Rightarrow> 'v \<Rightarrow> 'v) \<Rightarrow> ('k::linorder, 'v) smap \<Rightarrow> ('k, 'v) smap" where
  "sm_map f m = map (\<lambda>e. (fst e, f (fst e) (snd e))) m"

lemmas sm_defs = sm_wf_def sm_find_def sm_put_def sm_erase_def sm_keys_def sm_map_def

lemma sm_wf_Nil [simp]: "sm_wf []"
  by (simp add: sm_wf_def)

lemma sm_find_Nil [simp]: "sm_find [] k = None"
  by (simp add: sm_find_def)

lemma sm_wf_distinct: "sm_wf m \<Longrightarrow> distinct (map fst m)"
  by (simp add: sm_wf_def strict_sorted_iff)

lemma sm_wf_filter: "sm_wf m \<Longrightarrow> sm_wf (filter P m)"
  by (induction m) (auto simp: sm_wf_def)

lemma sm_wf_put: "sm_wf m \<Longrightarrow> sm_wf (sm_put k v m)"
proof -
  assume "sm_wf m"
  then have "sm_wf (filter (\<lambda>e. fst e < k) m)" "sm_wf (filter (\<lambda>e. k < fst e) m)"
    by (simp_all add: sm_wf_filter)
  then show ?thesis
    by (auto simp: sm_wf_def sm_put_def sorted_wrt_append)
qed

lemma map_of_filter_fst: "map_of (filter (\<lambda>e. P (fst e)) m) j = (if P j then map_of m j else None)"
  by (induction m) auto

lemma sm_find_put: "sm_find (sm_put k v m) j = (if j = k then Some v else sm_find m j)"
  by (auto simp: sm_find_def sm_put_def map_add_def split: option.splits
      simp: map_of_filter_fst [of "\<lambda>x. x < k"] map_of_filter_fst [of "\<lambda>x. k < x"])

lemma sm_find_erase: "sm_find (sm_erase k m) j = (if j = k then None else sm_find m j)"
  by (simp add: sm_find_def sm_erase_def map_of_filter_fst [of "\<lambda>x. x \<noteq> k"])

lemma sm_find_map: "sm_find (sm_map f m) j = map_option (f j) (sm_find m j)"
  by (induction m) (auto simp: sm_find_def sm_map_def)

lemma sm_wf_map: "sm_wf (sm_map f m) = sm_wf m"
  by (simp add: sm_wf_def sm_map_def comp_def)

lemma sm_keys_map [simp]: "sm_keys (sm_map f m) = sm_keys m"
  by (simp add: sm_keys_def sm_map_def comp_def)

lemma in_sm_keys: "k \<in> set (sm_keys m) \<longleftrightarrow> sm_find m k \<noteq> None"
  by (simp add: sm_keys_def sm_find_def map_of_eq_None_iff)

interpretation smap: ordered_map sm_find sm_put sm_erase sm_keys sm_wf
proof unfold_locales
  show "sm_wf m \<Longrightarrow> sorted_wrt (<) (sm_keys m)" for m :: "('a, 'b) smap"
    by (simp add: sm_wf_def sm_keys_def)
  show "sm_wf m \<Longrightarrow> sm_wf (sm_erase k m)" for m :: "('a, 'b) smap" and k
    by (simp add: sm_erase_def sm_wf_filter)
qed (simp_all add: sm_find_put sm_find_erase sm_wf_put in_sm_keys)

text \<open>The facts of the interpretation that carry the client proofs, as one bundle.\<close>

lemmas smap_simps = sm_find_put sm_find_erase sm_wf_put smap.wf_erase smap.set_keys_put
  smap.set_keys_erase

lemma sm_find_Some_iff: "sm_wf m \<Longrightarrow> sm_find m k = Some v \<longleftrightarrow> (k, v) \<in> set m"
  using sm_wf_distinct [of m] by (simp add: sm_find_def)

lemma length_sm_keys [simp]: "length (sm_keys m) = length m"
  by (simp add: sm_keys_def)

lemma sm_put_neq_Nil [simp]: "sm_put k v m \<noteq> []"
  by (simp add: sm_put_def)

section \<open>std::multimap\<close>

text \<open>\<open>insert\<close> puts a new element after the elements with an equal key.\<close>

definition mm_insert :: "'k::linorder \<Rightarrow> 'v \<Rightarrow> ('k \<times> 'v) list \<Rightarrow> ('k \<times> 'v) list" where
  "mm_insert k v m = filter (\<lambda>e. fst e \<le> k) m @ (k, v) # filter (\<lambda>e. k < fst e) m"

definition mm_wf :: "('k::linorder \<times> 'v) list \<Rightarrow> bool" where
  "mm_wf m \<longleftrightarrow> sorted (map fst m)"

lemma mm_wf_filter: "mm_wf m \<Longrightarrow> mm_wf (filter P m)"
  by (induction m) (auto simp: mm_wf_def)

lemma mm_wf_insert: "mm_wf m \<Longrightarrow> mm_wf (mm_insert k v m)"
proof -
  assume "mm_wf m"
  then have "mm_wf (filter (\<lambda>e. fst e \<le> k) m)" "mm_wf (filter (\<lambda>e. k < fst e) m)"
    by (simp_all add: mm_wf_filter)
  then show ?thesis
    by (auto simp: mm_wf_def mm_insert_def sorted_append less_imp_le intro: order.trans)
qed

lemma set_mm_insert: "set (mm_insert k v m) = insert (k, v) (set m)"
  by (auto simp: mm_insert_def not_less)

lemma length_mm_insert [simp]: "length (mm_insert k v m) = Suc (length m)"
proof -
  have "length (filter (\<lambda>e. fst e \<le> k) m) + length (filter (\<lambda>e. \<not> fst e \<le> k) m) = length m"
    by (rule sum_length_filter_compl)
  then show ?thesis by (simp add: mm_insert_def not_le)
qed

end
