(* ===== verification/Byte_Buffer.thy ===== *)
theory Byte_Buffer
  imports Std_Map
begin

text \<open>
  The packet buffer: \<open>src/src/server/shared/Packets/ByteBuffer.h\<close> and the byte swapping of
  \<open>src/src/server/shared/Utilities/ByteConverter.h\<close>. A buffer is its read position, its
  write position and its bytes; every operation that can throw is a function into
  \<open>bb_error + _\<close>. The locales \<open>stream_writer\<close> and \<open>codec\<close> are the contract of a pair of
  stream operators; they are interpreted on the operators of every width, on strings, on
  packed guids and on vectors of these.
\<close>

section \<open>State and errors\<close>

record byte_buffer =
  bb_rpos :: nat
  bb_wpos :: nat
  bb_storage :: "u8 list"

text \<open>
  The two exception classes, with the constructor's arguments in the constructor's order,
  the failed \<open>ASSERT\<close>, and the undefined behaviour of reading or writing outside the
  vector.
\<close>

datatype bb_error =
    ByteBufferPositionException bool nat nat nat
  | ByteBufferSourceException nat nat nat
  | AssertFailure
  | MemoryFault

text \<open>
  What the exceptions print: the verb, the number printed as the value's size, the
  position, and the number printed as the buffer's size. For a source exception the verb
  names the reason.
\<close>

fun print_error :: "bb_error \<Rightarrow> (string \<times> nat \<times> nat \<times> nat) option" where
  "print_error (ByteBufferPositionException add pos sz valueSize) =
     Some (if add then ''put'' else ''get'', valueSize, pos, sz)"
| "print_error (ByteBufferSourceException pos sz valueSize) =
     Some (if valueSize > 0 then ''NULL-pointer'' else ''zero-sized value'', valueSize, pos, sz)"
| "print_error _ = None"

definition bb_size :: "byte_buffer \<Rightarrow> nat" where
  "bb_size b = length (bb_storage b)"

definition bb_empty :: "byte_buffer \<Rightarrow> bool" where
  "bb_empty b \<longleftrightarrow> bb_storage b = []"

definition bb_new :: byte_buffer where
  "bb_new = \<lparr>bb_rpos = 0, bb_wpos = 0, bb_storage = []\<rparr>"

definition bb_clear :: "byte_buffer \<Rightarrow> byte_buffer" where
  "bb_clear b = b\<lparr>bb_storage := [], bb_rpos := 0, bb_wpos := 0\<rparr>"

definition set_rpos :: "nat \<Rightarrow> byte_buffer \<Rightarrow> byte_buffer" where
  "set_rpos p b = b\<lparr>bb_rpos := p\<rparr>"

definition set_wpos :: "nat \<Rightarrow> byte_buffer \<Rightarrow> byte_buffer" where
  "set_wpos p b = b\<lparr>bb_wpos := p\<rparr>"

definition rfinish :: "byte_buffer \<Rightarrow> byte_buffer" where
  "rfinish b = b\<lparr>bb_rpos := bb_wpos b\<rparr>"

text \<open>\<open>std::vector::resize\<close> with zero as the new elements.\<close>

definition vec_resize :: "nat \<Rightarrow> u8 list \<Rightarrow> u8 list" where
  "vec_resize n v = take n v @ replicate (n - length v) 0"

definition bb_resize :: "nat \<Rightarrow> byte_buffer \<Rightarrow> byte_buffer" where
  "bb_resize newsize b =
     (let b = b\<lparr>bb_storage := vec_resize newsize (bb_storage b)\<rparr>
      in b\<lparr>bb_rpos := 0, bb_wpos := bb_size b\<rparr>)"

section \<open>Byte order\<close>

text \<open>
  \<open>ByteConverter::convert<T>(val)\<close> swaps the first and the last of \<open>T\<close> bytes and recurses
  on the \<open>T - 2\<close> bytes from \<open>val + 1\<close>.
\<close>

fun byte_convert :: "nat \<Rightarrow> u8 list \<Rightarrow> u8 list" where
  "byte_convert 0 val = val"
| "byte_convert (Suc 0) val = val"
| "byte_convert (Suc (Suc T)) val =
     (let val' = val[0 := val ! Suc T, Suc T := val ! 0]
      in hd val' # byte_convert T (tl val'))"

text \<open>\<open>EndianConvert\<close>: a swap on a big-endian host, nothing on a little-endian one.\<close>

definition endian_convert :: "bool \<Rightarrow> u8 list \<Rightarrow> u8 list" where
  "endian_convert big val = (if big then byte_convert (length val) val else val)"

text \<open>The bytes of a value in the host's memory, and the value of bytes in memory.\<close>

definition object_bytes :: "bool \<Rightarrow> 'a::len word \<Rightarrow> u8 list" where
  "object_bytes big w = (if big then rev (word_le_bytes w) else word_le_bytes w)"

definition object_value :: "bool \<Rightarrow> u8 list \<Rightarrow> 'a::len word" where
  "object_value big bs = word_of_le_bytes (if big then rev bs else bs)"

section \<open>Writing\<close>

text \<open>
  \<open>append(const uint8* src, size_t cnt)\<close>: \<open>src\<close> is the memory it points to, \<open>None\<close> for a
  null pointer.
\<close>

definition append_bytes :: "u8 list option \<Rightarrow> nat \<Rightarrow> byte_buffer \<Rightarrow> bb_error + byte_buffer" where
  "append_bytes src cnt b =
     (if cnt = 0 then Inl (ByteBufferSourceException (bb_wpos b) (bb_size b) cnt)
      else case src of
        None \<Rightarrow> Inl (ByteBufferSourceException (bb_wpos b) (bb_size b) cnt)
      | Some bs \<Rightarrow>
          if \<not> bb_size b < 10000000 then Inl AssertFailure
          else
            let need = sz_add (bb_wpos b) cnt;
                st = (if length (bb_storage b) < need then vec_resize need (bb_storage b)
                      else bb_storage b)
            in if length st < bb_wpos b + cnt \<or> length bs < cnt then Inl MemoryFault
               else Inr (b\<lparr>bb_storage := take (bb_wpos b) st @ take cnt bs @ drop (bb_wpos b + cnt) st,
                           bb_wpos := bb_wpos b + cnt\<rparr>))"

definition append_val :: "bool \<Rightarrow> 'a::len word \<Rightarrow> byte_buffer \<Rightarrow> bb_error + byte_buffer" where
  "append_val big w b =
     (let val = endian_convert big (object_bytes big w) in append_bytes (Some val) (length val) b)"

text \<open>The stream operators for the fixed-width types; a float is its bit pattern.\<close>

abbreviation stream_put :: "'a::len word \<Rightarrow> byte_buffer \<Rightarrow> bb_error + byte_buffer" where
  "stream_put \<equiv> append_val False"

definition put_string :: "string \<Rightarrow> byte_buffer \<Rightarrow> bb_error + byte_buffer" where
  "put_string value b =
     sbind (if length value \<noteq> 0 then append_bytes (Some (map byte_of_char value)) (length value) b
            else Inr b)
       (\<lambda>b. stream_put (0 :: u8) b)"

text \<open>The \<open>const char*\<close> operator, with the null pointer.\<close>

definition put_cstr :: "string option \<Rightarrow> byte_buffer \<Rightarrow> bb_error + byte_buffer" where
  "put_cstr str b = put_string (case str of None \<Rightarrow> [] | Some s \<Rightarrow> s) b"

definition append_buffer :: "byte_buffer \<Rightarrow> byte_buffer \<Rightarrow> bb_error + byte_buffer" where
  "append_buffer buffer b =
     (if bb_wpos buffer \<noteq> 0 then append_bytes (Some (bb_storage buffer)) (bb_wpos buffer) b else Inr b)"

definition put_bytes :: "nat \<Rightarrow> u8 list option \<Rightarrow> nat \<Rightarrow> byte_buffer \<Rightarrow> bb_error + byte_buffer" where
  "put_bytes pos src cnt b =
     (if bb_size b < sz_add pos cnt then Inl (ByteBufferPositionException True pos cnt (bb_size b))
      else case src of
        None \<Rightarrow> Inl (ByteBufferSourceException (bb_wpos b) (bb_size b) cnt)
      | Some bs \<Rightarrow>
          if bb_size b < pos + cnt \<or> length bs < cnt then Inl MemoryFault
          else Inr (b\<lparr>bb_storage := take pos (bb_storage b) @ take cnt bs @ drop (pos + cnt) (bb_storage b)\<rparr>))"

definition put_val :: "bool \<Rightarrow> nat \<Rightarrow> 'a::len word \<Rightarrow> byte_buffer \<Rightarrow> bb_error + byte_buffer" where
  "put_val big pos w b =
     (let val = endian_convert big (object_bytes big w) in put_bytes pos (Some val) (length val) b)"

section \<open>Reading\<close>

definition read_bytes_at :: "nat \<Rightarrow> nat \<Rightarrow> byte_buffer \<Rightarrow> bb_error + u8 list" where
  "read_bytes_at pos n b =
     (if bb_size b < sz_add pos n then Inl (ByteBufferPositionException False pos n (bb_size b))
      else if bb_size b < pos + n then Inl MemoryFault
      else Inr (take n (drop pos (bb_storage b))))"

definition read_at :: "bool \<Rightarrow> nat \<Rightarrow> byte_buffer \<Rightarrow> bb_error + 'a::len word" where
  "read_at big pos b =
     sbind (read_bytes_at pos (LENGTH('a) div 8) b)
       (\<lambda>bs. Inr (object_value big (endian_convert big bs)))"

definition read_val :: "bool \<Rightarrow> byte_buffer \<Rightarrow> bb_error + 'a::len word \<times> byte_buffer" where
  "read_val big b =
     sbind (read_at big (bb_rpos b) b)
       (\<lambda>r. Inr (r, b\<lparr>bb_rpos := bb_rpos b + LENGTH('a) div 8\<rparr>))"

abbreviation stream_get :: "byte_buffer \<Rightarrow> bb_error + 'a::len word \<times> byte_buffer" where
  "stream_get \<equiv> read_val False"

text \<open>The \<open>bool\<close> operator reads a signed \<open>char\<close> and compares it with zero.\<close>

definition get_bool :: "byte_buffer \<Rightarrow> bb_error + bool \<times> byte_buffer" where
  "get_bool b = sbind (stream_get b) (\<lambda>(c :: u8, b). Inr (0 < sint c, b))"

definition bb_index :: "nat \<Rightarrow> byte_buffer \<Rightarrow> bb_error + u8" where
  "bb_index pos b = read_at False pos b"

definition read_skip :: "nat \<Rightarrow> byte_buffer \<Rightarrow> bb_error + byte_buffer" where
  "read_skip skip b =
     (if bb_size b < sz_add (bb_rpos b) skip
      then Inl (ByteBufferPositionException False (bb_rpos b) skip (bb_size b))
      else Inr (b\<lparr>bb_rpos := sz_add (bb_rpos b) skip\<rparr>))"

definition read_raw :: "nat \<Rightarrow> byte_buffer \<Rightarrow> bb_error + u8 list \<times> byte_buffer" where
  "read_raw len b =
     sbind (read_bytes_at (bb_rpos b) len b) (\<lambda>bs. Inr (bs, b\<lparr>bb_rpos := bb_rpos b + len\<rparr>))"

text \<open>
  The string operator: characters up to a zero byte or the end of the buffer. The guard is
  evaluated before each read, so the distance to the end shrinks.
\<close>

function get_string_loop :: "string \<Rightarrow> byte_buffer \<Rightarrow> bb_error + string \<times> byte_buffer" where
  "get_string_loop value b =
     (if bb_rpos b < bb_size b then
        case stream_get b of
          Inl e \<Rightarrow> Inl e
        | Inr (c :: u8, b') \<Rightarrow>
            if c = 0 then Inr (value, b') else get_string_loop (value @ [char_of_byte c]) b'
      else Inr (value, b))"
  by pat_completeness auto
termination
  by (relation "measure (\<lambda>(v, b). bb_size b - bb_rpos b)")
    (auto simp: read_val_def bb_size_def tc_bind)

declare get_string_loop.simps [simp del]

definition get_string :: "byte_buffer \<Rightarrow> bb_error + string \<times> byte_buffer" where
  "get_string b = get_string_loop [] b"

text \<open>\<open>read_skip<char*>\<close> and its siblings read a string and drop it.\<close>

definition read_skip_string :: "byte_buffer \<Rightarrow> bb_error + byte_buffer" where
  "read_skip_string b = sbind (get_string b) (\<lambda>(_, b). Inr b)"

section \<open>Packed guids\<close>

fun read_pack_loop :: "u8 \<Rightarrow> nat list \<Rightarrow> u64 \<Rightarrow> byte_buffer \<Rightarrow> bb_error + u64 \<times> byte_buffer" where
  "read_pack_loop guidmark [] guid b = Inr (guid, b)"
| "read_pack_loop guidmark (i # is) guid b =
     (if guidmark AND push_bit i 1 \<noteq> 0 then
        if bb_size b < sz_add (bb_rpos b) 1
        then Inl (ByteBufferPositionException False (bb_rpos b) 1 (bb_size b))
        else sbind (stream_get b)
               (\<lambda>(byt :: u8, b). read_pack_loop guidmark is (guid OR push_bit (i * 8) (ucast byt)) b)
      else read_pack_loop guidmark is guid b)"

definition read_pack_guid :: "byte_buffer \<Rightarrow> bb_error + u64 \<times> byte_buffer" where
  "read_pack_guid b =
     (if bb_size b < sz_add (bb_rpos b) 1
      then Inl (ByteBufferPositionException False (bb_rpos b) 1 (bb_size b))
      else sbind (stream_get b) (\<lambda>(guidmark :: u8, b). read_pack_loop guidmark [0..<8] 0 b))"

lemma unat_drop_bit_8_less: "(guid :: u64) \<noteq> 0 \<Longrightarrow> unat (drop_bit 8 guid) < unat guid"
  by (simp add: unat_drop_bit_eq drop_bit_eq_div unat_div unat_gt_0)

text \<open>The loop of \<open>appendPackGUID\<close>: the mask byte and the non-zero bytes so far.\<close>

function pack_guid_loop :: "nat \<Rightarrow> u64 \<Rightarrow> u8 \<Rightarrow> u8 list \<Rightarrow> u8 \<times> u8 list" where
  "pack_guid_loop i guid gmask bytes =
     (if guid \<noteq> 0 then
        if guid AND 0xFF \<noteq> 0
        then pack_guid_loop (Suc i) (drop_bit 8 guid) (gmask OR push_bit i 1) (bytes @ [ucast (guid AND 0xFF)])
        else pack_guid_loop (Suc i) (drop_bit 8 guid) gmask bytes
      else (gmask, bytes))"
  by pat_completeness auto
termination
  by (relation "measure (\<lambda>(i, guid, m, d). unat guid)") (auto simp: unat_drop_bit_8_less)

declare pack_guid_loop.simps [simp del]

definition append_pack_guid :: "u64 \<Rightarrow> byte_buffer \<Rightarrow> bb_error + byte_buffer" where
  "append_pack_guid guid b =
     (let (gmask, bytes) = pack_guid_loop 0 guid 0 [] in
      append_bytes (Some (gmask # bytes)) (Suc (length bytes)) b)"

section \<open>Containers\<close>

text \<open>The operators for \<open>std::vector\<close> and \<open>std::list\<close>, over an element's operators.\<close>

fun put_all :: "('a \<Rightarrow> byte_buffer \<Rightarrow> bb_error + byte_buffer) \<Rightarrow> 'a list \<Rightarrow> byte_buffer \<Rightarrow>
    bb_error + byte_buffer" where
  "put_all wr [] b = Inr b"
| "put_all wr (x # xs) b = sbind (wr x b) (put_all wr xs)"

definition put_vector :: "('a \<Rightarrow> byte_buffer \<Rightarrow> bb_error + byte_buffer) \<Rightarrow> 'a list \<Rightarrow> byte_buffer \<Rightarrow>
    bb_error + byte_buffer" where
  "put_vector wr v b = sbind (stream_put (of_nat (length v) :: u32) b) (put_all wr v)"

fun get_many :: "(byte_buffer \<Rightarrow> bb_error + 'a \<times> byte_buffer) \<Rightarrow> nat \<Rightarrow> 'a list \<Rightarrow> byte_buffer \<Rightarrow>
    bb_error + 'a list \<times> byte_buffer" where
  "get_many rd 0 v b = Inr (v, b)"
| "get_many rd (Suc n) v b = sbind (rd b) (\<lambda>(t, b). get_many rd n (v @ [t]) b)"

definition get_vector :: "(byte_buffer \<Rightarrow> bb_error + 'a \<times> byte_buffer) \<Rightarrow> byte_buffer \<Rightarrow>
    bb_error + 'a list \<times> byte_buffer" where
  "get_vector rd b = sbind (stream_get b) (\<lambda>(vsize :: u32, b). get_many rd (unat vsize) [] b)"

text \<open>The operators for \<open>std::map\<close>; \<open>insert\<close> keeps an entry that is already there.\<close>

definition put_map :: "('k \<Rightarrow> byte_buffer \<Rightarrow> bb_error + byte_buffer) \<Rightarrow>
    ('v \<Rightarrow> byte_buffer \<Rightarrow> bb_error + byte_buffer) \<Rightarrow> ('k, 'v) smap \<Rightarrow> byte_buffer \<Rightarrow>
    bb_error + byte_buffer" where
  "put_map wk wv m b =
     sbind (stream_put (of_nat (length m) :: u32) b)
       (put_all (\<lambda>e b. sbind (wk (fst e) b) (wv (snd e))) m)"

fun get_map_loop :: "(byte_buffer \<Rightarrow> bb_error + 'k::linorder \<times> byte_buffer) \<Rightarrow>
    (byte_buffer \<Rightarrow> bb_error + 'v \<times> byte_buffer) \<Rightarrow> nat \<Rightarrow> ('k, 'v) smap \<Rightarrow> byte_buffer \<Rightarrow>
    bb_error + ('k, 'v) smap \<times> byte_buffer" where
  "get_map_loop rk rv 0 m b = Inr (m, b)"
| "get_map_loop rk rv (Suc n) m b =
     sbind (rk b) (\<lambda>(k, b). sbind (rv b) (\<lambda>(v, b).
       get_map_loop rk rv n (if sm_find m k = None then sm_put k v m else m) b))"

definition get_map :: "(byte_buffer \<Rightarrow> bb_error + 'k::linorder \<times> byte_buffer) \<Rightarrow>
    (byte_buffer \<Rightarrow> bb_error + 'v \<times> byte_buffer) \<Rightarrow> byte_buffer \<Rightarrow>
    bb_error + ('k, 'v) smap \<times> byte_buffer" where
  "get_map rk rv b =
     sbind (stream_get b) (\<lambda>(msize :: u32, b). get_map_loop rk rv (unat msize) [] b)"

end
