(* ===== verification/Wire_Codec.thy ===== *)
theory Wire_Codec
  imports Byte_Buffer
begin

text \<open>
  What the stream operators promise. \<open>stream_writer\<close>: a writer at the end of the buffer
  appends the value's encoding. \<open>codec\<close>: a reader positioned at an encoding returns the
  value and stops behind it. The round trips of values, strings, packed guids, vectors and
  maps are proved once from these contracts.
\<close>

section \<open>Appending at the end\<close>

definition at_end :: "byte_buffer \<Rightarrow> bool" where
  "at_end b \<longleftrightarrow> bb_wpos b = bb_size b"

definition bb_extend :: "u8 list \<Rightarrow> byte_buffer \<Rightarrow> byte_buffer" where
  "bb_extend bs b = b\<lparr>bb_storage := bb_storage b @ bs, bb_wpos := bb_wpos b + length bs\<rparr>"

text \<open>The buffer size below which \<open>append\<close>'s assertion holds, with room for \<open>n\<close> more bytes.\<close>

definition bb_room :: "nat \<Rightarrow> byte_buffer \<Rightarrow> bool" where
  "bb_room n b \<longleftrightarrow> bb_size b + n < 10000000"

lemma bb_extend_simps [simp]:
  "bb_size (bb_extend bs b) = bb_size b + length bs"
  "bb_storage (bb_extend bs b) = bb_storage b @ bs"
  "bb_wpos (bb_extend bs b) = bb_wpos b + length bs"
  "bb_rpos (bb_extend bs b) = bb_rpos b"
  "bb_extend ys (bb_extend xs b) = bb_extend (xs @ ys) b"
  "bb_extend [] b = b"
  by (simp_all add: bb_extend_def bb_size_def)

lemma at_end_extend [simp]: "at_end (bb_extend bs b) = at_end b"
  by (simp add: at_end_def)

lemma bb_room_extend [simp]: "bb_room n (bb_extend bs b) = bb_room (length bs + n) b"
  by (simp add: bb_room_def add.assoc)

lemma bb_room_mono: "bb_room n b \<Longrightarrow> m \<le> n \<Longrightarrow> bb_room m b"
  by (simp add: bb_room_def)

lemma append_bytes_at_end:
  assumes "at_end b" "bb_room (length bs) b" "bs \<noteq> []"
  shows "append_bytes (Some bs) (length bs) b = Inr (bb_extend bs b)"
  using assms
  by (simp add: append_bytes_def at_end_def bb_room_def bb_size_def bb_extend_def vec_resize_def
      sz_add_eq size_max_def)

section \<open>Byte order does not matter on the wire\<close>

lemma byte_convert_prefix:
  "T \<le> length val \<Longrightarrow> byte_convert T val = rev (take T val) @ drop T val"
proof (induction T val rule: byte_convert.induct)
  case (2 val)
  then show ?case by (cases val) simp_all
next
  case (3 T val)
  then obtain x rest where v: "val = x # rest" "Suc T \<le> length rest" by (cases val) auto
  define val' where "val' = val[0 := val ! Suc T, Suc T := val ! 0]"
  from v have v': "val' = rest ! T # rest[T := x]" by (simp add: val'_def)
  from "3.IH" [OF refl] v v' have
    "byte_convert T (tl val') = rev (take T (rest[T := x])) @ drop T (rest[T := x])"
    by (simp add: val'_def)
  also have "take T (rest[T := x]) = take T rest" by simp
  also have "drop T (rest[T := x]) = x # drop (Suc T) rest"
    using v(2) by (simp add: drop_update_swap Cons_nth_drop_Suc [symmetric])
  finally have "byte_convert (Suc (Suc T)) val = rest ! T # rev (take T rest) @ x # drop (Suc T) rest"
    using v' by (simp add: val'_def Let_def)
  also have "\<dots> = rev (take (Suc (Suc T)) val) @ drop (Suc (Suc T)) val"
    using v by (simp add: take_Suc_conv_app_nth)
  finally show ?case .
qed simp

lemma byte_convert_rev: "byte_convert (length val) val = rev val"
  by (simp add: byte_convert_prefix)

lemma endian_object_bytes [simp]: "endian_convert big (object_bytes big w) = word_le_bytes w"
proof (cases big)
  case True
  have "byte_convert (length (rev (word_le_bytes w))) (rev (word_le_bytes w)) = word_le_bytes w"
    by (simp only: byte_convert_rev rev_rev_ident)
  with True show ?thesis by (simp add: endian_convert_def object_bytes_def)
qed (simp add: endian_convert_def object_bytes_def)

lemma object_value_endian [simp]: "object_value big (endian_convert big bs) = word_of_le_bytes bs"
  by (simp add: endian_convert_def object_value_def byte_convert_rev)

lemma read_at_host: "read_at big pos b = read_at False pos b"
  by (simp add: read_at_def)

lemma append_val_host: "append_val big w b = append_val False w b"
  by (simp add: append_val_def)

lemma put_val_host: "put_val big pos w b = put_val False pos w b"
  by (simp add: put_val_def)

lemma read_val_host: "read_val big b = read_val False b"
  by (simp add: read_val_def read_at_host [of big])

section \<open>The contract of a writer\<close>

locale stream_writer =
  fixes wr :: "'a \<Rightarrow> byte_buffer \<Rightarrow> bb_error + byte_buffer"
    and enc :: "'a \<Rightarrow> u8 list"
  assumes wr_extends: "at_end b \<Longrightarrow> bb_room (length (enc x)) b \<Longrightarrow> wr x b = Inr (bb_extend (enc x) b)"
begin

lemma put_all_extends:
  "at_end b \<Longrightarrow> bb_room (length (concat (map enc xs))) b \<Longrightarrow>
   put_all wr xs b = Inr (bb_extend (concat (map enc xs)) b)"
proof (induction xs arbitrary: b)
  case Nil
  then show ?case by simp
next
  case (Cons x xs)
  from Cons.prems have "wr x b = Inr (bb_extend (enc x) b)"
    by (intro wr_extends) (auto elim: bb_room_mono)
  with Cons show ?case by simp
qed

end

section \<open>The contract of a writer and a reader\<close>

text \<open>\<open>reads_at\<close>: the buffer holds the bytes \<open>bs\<close> at its read position.\<close>

definition reads_at :: "u8 list \<Rightarrow> byte_buffer \<Rightarrow> bool" where
  "reads_at bs b \<longleftrightarrow> bb_size b < size_max \<and> bb_rpos b + length bs \<le> bb_size b \<and>
     take (length bs) (drop (bb_rpos b) (bb_storage b)) = bs"

definition bb_advance :: "nat \<Rightarrow> byte_buffer \<Rightarrow> byte_buffer" where
  "bb_advance n b = b\<lparr>bb_rpos := bb_rpos b + n\<rparr>"

lemma bb_advance_simps [simp]:
  "bb_advance n (bb_advance m b) = bb_advance (m + n) b" "bb_advance 0 b = b"
  "bb_size (bb_advance n b) = bb_size b" "bb_rpos (bb_advance n b) = bb_rpos b + n"
  "bb_storage (bb_advance n b) = bb_storage b"
  by (simp_all add: bb_advance_def bb_size_def)

lemma reads_at_append:
  "reads_at (xs @ ys) b \<longleftrightarrow> reads_at xs b \<and> reads_at ys (bb_advance (length xs) b)"
proof -
  have "take (length xs + length ys) zs = xs @ ys \<longleftrightarrow>
      take (length xs) zs = xs \<and> take (length ys) (drop (length xs) zs) = ys"
    if "length xs + length ys \<le> length zs" for zs :: "u8 list"
    using that by (auto simp: take_add append_eq_append_conv)
  from this [of "drop (bb_rpos b) (bb_storage b)"] show ?thesis
    by (auto simp: reads_at_def bb_size_def add.commute)
qed

lemma reads_at_extend:
  "bb_size (bb_extend bs b) < size_max \<Longrightarrow> reads_at bs (set_rpos (bb_size b) (bb_extend bs b))"
  by (simp add: reads_at_def set_rpos_def bb_size_def bb_extend_def)

lemma read_bytes_reads_at:
  "reads_at bs b \<Longrightarrow> read_bytes_at (bb_rpos b) (length bs) b = Inr bs"
  by (simp add: read_bytes_at_def reads_at_def sz_add_eq)

locale codec = stream_writer wr enc
  for wr :: "'a \<Rightarrow> byte_buffer \<Rightarrow> bb_error + byte_buffer" and enc :: "'a \<Rightarrow> u8 list" +
  fixes rd :: "byte_buffer \<Rightarrow> bb_error + 'a \<times> byte_buffer"
    and ok :: "'a \<Rightarrow> bool"
  assumes rd_enc: "ok x \<Longrightarrow> reads_at (enc x) b \<Longrightarrow> rd b = Inr (x, bb_advance (length (enc x)) b)"
begin

lemma roundtrip:
  assumes "at_end b" "bb_room (length (enc x)) b" "ok x"
  shows "\<exists>b'. wr x b = Inr b' \<and>
    rd (set_rpos (bb_size b) b') = Inr (x, set_rpos (bb_size b') b')"
proof (intro exI conjI)
  show "wr x b = Inr (bb_extend (enc x) b)"
    using assms(1,2) by (rule wr_extends)
  have "bb_size (bb_extend (enc x) b) < size_max"
    using assms(2) by (simp add: bb_room_def size_max_def)
  then have "reads_at (enc x) (set_rpos (bb_size b) (bb_extend (enc x) b))"
    by (rule reads_at_extend)
  with assms(3) show "rd (set_rpos (bb_size b) (bb_extend (enc x) b)) =
      Inr (x, set_rpos (bb_size (bb_extend (enc x) b)) (bb_extend (enc x) b))"
    by (subst rd_enc) (simp_all add: bb_advance_def set_rpos_def)
qed

lemma get_many_enc:
  "\<forall>x \<in> set xs. ok x \<Longrightarrow> reads_at (concat (map enc xs)) b \<Longrightarrow>
   get_many rd (length xs) v b = Inr (v @ xs, bb_advance (length (concat (map enc xs))) b)"
proof (induction xs arbitrary: v b)
  case Nil
  then show ?case by simp
next
  case (Cons x xs)
  from Cons.prems have "rd b = Inr (x, bb_advance (length (enc x)) b)"
    by (intro rd_enc) (auto simp: reads_at_append)
  with Cons show ?case by (simp add: reads_at_append)
qed

end

section \<open>The operators meet the contracts\<close>

lemma stream_get_reads_at:
  assumes "8 dvd LENGTH('a::len)" "reads_at (word_le_bytes (x :: 'a word)) b"
  shows "stream_get b = Inr (x, bb_advance (LENGTH('a) div 8) b)"
  using read_bytes_reads_at [OF assms(2)] assms(1)
  by (simp add: read_val_def read_at_def word_of_le_bytes_inverse bb_advance_def)

lemma word_codec:
  assumes "8 dvd LENGTH('a::len)"
  shows "codec (stream_put :: 'a word \<Rightarrow> _) word_le_bytes stream_get (\<lambda>_. True)"
proof
  fix b and x :: "'a word"
  from assms have "0 < LENGTH('a) div 8"
    by (metis dvd_div_eq_0_iff len_not_eq_0 neq0_conv)
  then have ne: "word_le_bytes x \<noteq> []" by (simp flip: length_greater_0_conv)
  show "at_end b \<Longrightarrow> bb_room (length (word_le_bytes x)) b \<Longrightarrow>
      stream_put x b = Inr (bb_extend (word_le_bytes x) b)"
    using ne append_bytes_at_end [of b "word_le_bytes x"] by (simp add: append_val_def)
  show "reads_at (word_le_bytes x) b \<Longrightarrow>
      stream_get b = Inr (x, bb_advance (length (word_le_bytes x)) b)"
    using assms by (simp add: stream_get_reads_at)
qed

interpretation c8: codec "stream_put :: u8 \<Rightarrow> _" word_le_bytes stream_get "\<lambda>_. True"
  by (rule word_codec) simp
interpretation c16: codec "stream_put :: u16 \<Rightarrow> _" word_le_bytes stream_get "\<lambda>_. True"
  by (rule word_codec) simp
interpretation c32: codec "stream_put :: u32 \<Rightarrow> _" word_le_bytes stream_get "\<lambda>_. True"
  by (rule word_codec) simp
interpretation c64: codec "stream_put :: u64 \<Rightarrow> _" word_le_bytes stream_get "\<lambda>_. True"
  by (rule word_codec) simp


section \<open>Strings\<close>

definition string_bytes :: "string \<Rightarrow> u8 list" where
  "string_bytes s = map byte_of_char s @ [0]"

lemma length_string_bytes [simp]: "length (string_bytes s) = Suc (length s)"
  by (simp add: string_bytes_def)

lemma word_le_bytes_u8 [simp]: "word_le_bytes (w :: u8) = [w]"
  by (simp add: word_le_bytes_def)

lemma put_string_extends:
  assumes "at_end b" "bb_room (length (string_bytes s)) b"
  shows "put_string s b = Inr (bb_extend (string_bytes s) b)"
proof -
  have 0: "stream_put (0 :: u8) b' = Inr (bb_extend [0] b')" if "at_end b'" "bb_room 1 b'" for b'
    using c8.wr_extends [of b' 0] that by simp
  show ?thesis
  proof (cases "s = []")
    case True
    with assms 0 [of b] show ?thesis by (simp add: put_string_def string_bytes_def)
  next
    case False
    let ?bs = "map byte_of_char s"
    from assms have "append_bytes (Some ?bs) (length s) b = Inr (bb_extend ?bs b)"
      using append_bytes_at_end [of b ?bs] bb_room_mono [OF assms(2), of "length s"] False by simp
    with False assms 0 [of "bb_extend ?bs b"] show ?thesis
      by (simp add: put_string_def string_bytes_def)
  qed
qed

lemma get_string_loop_reads_at:
  "CHR 0x00 \<notin> set s \<Longrightarrow> reads_at (string_bytes s) b \<Longrightarrow>
   get_string_loop v b = Inr (v @ s, bb_advance (Suc (length s)) b)"
proof (induction s arbitrary: v b)
  case Nil
  then have r: "reads_at (word_le_bytes (0 :: u8)) b" by (simp add: string_bytes_def)
  then have "bb_rpos b < bb_size b" by (simp add: reads_at_def)
  with stream_get_reads_at [OF _ r] show ?case
    by (subst get_string_loop.simps) simp
next
  case (Cons c s)
  then have r: "reads_at (word_le_bytes (byte_of_char c)) b"
    and rest: "reads_at (string_bytes s) (bb_advance 1 b)"
    using reads_at_append [of "[byte_of_char c]" "string_bytes s" b]
    by (simp_all add: string_bytes_def)
  from r have "bb_rpos b < bb_size b" by (simp add: reads_at_def)
  moreover from Cons.prems have "byte_of_char c \<noteq> 0" by (auto simp: byte_of_char_0)
  ultimately show ?case
    using stream_get_reads_at [OF _ r] Cons.IH [OF _ rest] Cons.prems
    by (subst get_string_loop.simps) simp
qed

interpretation cstr: codec put_string string_bytes get_string "\<lambda>s. CHR 0x00 \<notin> set s"
  by unfold_locales
    (simp_all add: put_string_extends get_string_def get_string_loop_reads_at)

section \<open>Packed guids\<close>

text \<open>Byte \<open>i\<close> of a guid, the mask that has a bit for each non-zero byte, and the encoding.\<close>

definition guid_byte :: "u64 \<Rightarrow> nat \<Rightarrow> u8" where
  "guid_byte g i = ucast (drop_bit (8 * i) g)"

definition guid_marks :: "u64 \<Rightarrow> nat list \<Rightarrow> u8 \<Rightarrow> u8" where
  "guid_marks g is m = foldl (\<lambda>m i. if guid_byte g i \<noteq> 0 then m OR push_bit i 1 else m) m is"

definition guid_data :: "u64 \<Rightarrow> nat list \<Rightarrow> u8 list" where
  "guid_data g is = map (guid_byte g) (filter (\<lambda>i. guid_byte g i \<noteq> 0) is)"

definition pack_guid_bytes :: "u64 \<Rightarrow> u8 list" where
  "pack_guid_bytes g = guid_marks g [0..<8] 0 # guid_data g [0..<8]"

lemma guid_marks_simps [simp]:
  "guid_marks g [] m = m"
  "guid_marks g (i # is) m = guid_marks g is (if guid_byte g i \<noteq> 0 then m OR push_bit i 1 else m)"
  by (simp_all add: guid_marks_def)

lemma guid_data_simps [simp]:
  "guid_data g [] = []"
  "guid_data g (i # is) = (if guid_byte g i \<noteq> 0 then guid_byte g i # guid_data g is else guid_data g is)"
  by (simp_all add: guid_data_def)

lemma byte_mask: "(0xFF :: u64) = mask 8"
  by (simp add: mask_eq_decr_exp)

lemma and_FF_ucast: "(ucast (g AND 0xFF) :: u8) = ucast (g :: u64)"
  unfolding byte_mask by (rule bit_word_eqI) (simp add: bit_simps)

lemma and_FF_zero: "(g :: u64) AND 0xFF = 0 \<longleftrightarrow> (ucast g :: u8) = 0"
  unfolding byte_mask by (auto simp: bit_eq_iff bit_simps) (drule_tac x = n in spec, simp)

lemma guid_bytes_zero:
  "drop_bit (8 * i) g = 0 \<Longrightarrow> \<forall>j \<in> set is. i \<le> j \<Longrightarrow> guid_marks g is m = m \<and> guid_data g is = []"
proof (induction "is" arbitrary: m)
  case (Cons j js)
  then have "8 * (j - i) + 8 * i = 8 * j" by auto
  then have "drop_bit (8 * j) g = drop_bit (8 * (j - i)) (drop_bit (8 * i) g)"
    by (simp only: drop_bit_drop_bit)
  with Cons show ?case by (simp add: guid_byte_def)
qed simp

lemma pack_guid_loop_eq:
  "i \<le> 8 \<Longrightarrow> pack_guid_loop i (drop_bit (8 * i) g) m d =
     (guid_marks g [i..<8] m, d @ guid_data g [i..<8])"
proof (induction "8 - i" arbitrary: i m d)
  case 0
  then have "i = 8" by simp
  moreover have "drop_bit 64 g = 0" by (rule bit_word_eqI) (simp add: bit_simps)
  ultimately show ?case by (subst pack_guid_loop.simps) simp
next
  case (Suc n)
  then have i: "i < 8" "[i..<8] = i # [Suc i..<8]" by (simp_all add: upt_conv_Cons)
  have d8: "drop_bit 8 (drop_bit (8 * i) g) = drop_bit (8 + 8 * i) g"
    by (simp add: drop_bit_drop_bit)
  have IH: "pack_guid_loop (Suc i) (drop_bit (8 + 8 * i) g) m' d' =
      (guid_marks g [Suc i..<8] m', d' @ guid_data g [Suc i..<8])" for m' d'
    using Suc.hyps(1) [of "Suc i" m' d'] Suc.hyps(2) i by simp
  show ?case
  proof (cases "drop_bit (8 * i) g = 0")
    case True
    then show ?thesis
      using guid_bytes_zero [of i g "[i..<8]" m] by (subst pack_guid_loop.simps) simp
  next
    case False
    then show ?thesis
      unfolding i(2)
      by (subst pack_guid_loop.simps)
        (simp add: d8 IH and_FF_zero and_FF_ucast guid_byte_def)
  qed
qed

lemma append_pack_guid_extends:
  "at_end b \<Longrightarrow> bb_room (length (pack_guid_bytes g)) b \<Longrightarrow>
   append_pack_guid g b = Inr (bb_extend (pack_guid_bytes g) b)"
  using pack_guid_loop_eq [of 0 g 0 "[]"] append_bytes_at_end [of b "pack_guid_bytes g"]
  by (simp add: append_pack_guid_def pack_guid_bytes_def)

lemma bit_guid_marks:
  "bit (guid_marks g is m) n \<longleftrightarrow> bit m n \<or> n < 8 \<and> n \<in> set is \<and> guid_byte g n \<noteq> 0"
  by (induction "is" arbitrary: m) (auto simp: bit_simps)

definition guid_sum :: "u64 \<Rightarrow> nat list \<Rightarrow> u64 \<Rightarrow> u64" where
  "guid_sum g is acc = foldl (\<lambda>a i. a OR push_bit (i * 8) (ucast (guid_byte g i))) acc is"

lemma bit_guid_sum:
  "bit (guid_sum g is acc) n \<longleftrightarrow> bit acc n \<or> n < 64 \<and> n div 8 \<in> set is \<and> bit g n"
proof (induction "is" arbitrary: acc)
  case (Cons i "is")
  have "bit (push_bit (i * 8) (ucast (guid_byte g i)) :: u64) n \<longleftrightarrow> n < 64 \<and> n div 8 = i \<and> bit g n"
    by (auto simp: guid_byte_def bit_simps)
  with Cons show ?case by (auto simp: guid_sum_def bit_or_iff)
qed (simp add: guid_sum_def)

lemma guid_sum_all: "guid_sum g [0..<8] 0 = g"
  by (rule bit_word_eqI) (auto simp: bit_guid_sum)

lemma read_pack_loop_reads_at:
  assumes "\<forall>i \<in> set is. i < 8 \<and> (bit gm i \<longleftrightarrow> guid_byte g i \<noteq> 0)"
    and "reads_at (guid_data g is) b"
  shows "read_pack_loop gm is acc b = Inr (guid_sum g is acc, bb_advance (length (guid_data g is)) b)"
  using assms
proof (induction "is" arbitrary: acc b)
  case Nil
  then show ?case by (simp add: guid_sum_def)
next
  case (Cons i "is")
  have flag: "gm AND push_bit i 1 \<noteq> 0 \<longleftrightarrow> guid_byte g i \<noteq> 0"
    using Cons.prems(1) has_flag_bit [of gm i] by (simp add: has_flag_def push_bit_eq_mult)
  show ?case
  proof (cases "guid_byte g i = 0")
    case True
    with Cons flag show ?thesis by (simp add: guid_sum_def)
  next
    case False
    with Cons.prems(2) have r: "reads_at (word_le_bytes (guid_byte g i)) b"
      and rest: "reads_at (guid_data g is) (bb_advance 1 b)"
      using reads_at_append [of "[guid_byte g i]" "guid_data g is" b] by simp_all
    from r have "sz_add (bb_rpos b) 1 \<le> bb_size b"
      by (simp add: reads_at_def sz_add_def)
    with False flag rest Cons show ?thesis
      using stream_get_reads_at [OF _ r] by (simp add: guid_sum_def not_less)
  qed
qed

lemma read_pack_guid_reads_at:
  assumes "reads_at (pack_guid_bytes g) b"
  shows "read_pack_guid b = Inr (g, bb_advance (length (pack_guid_bytes g)) b)"
proof -
  let ?m = "guid_marks g [0..<8] 0"
  have r: "reads_at (word_le_bytes ?m) b" and d: "reads_at (guid_data g [0..<8]) (bb_advance 1 b)"
    using assms reads_at_append [of "[?m]" "guid_data g [0..<8]" b]
    by (simp_all add: pack_guid_bytes_def)
  from r have "sz_add (bb_rpos b) 1 \<le> bb_size b"
    by (simp add: reads_at_def sz_add_def)
  moreover have "\<forall>i \<in> set [0..<8]. i < 8 \<and> (bit ?m i \<longleftrightarrow> guid_byte g i \<noteq> 0)"
    by (auto simp: bit_guid_marks)
  ultimately show ?thesis
    using stream_get_reads_at [OF _ r] read_pack_loop_reads_at [OF _ d, of ?m 0]
    by (simp add: read_pack_guid_def not_less guid_sum_all pack_guid_bytes_def del: upt_rec_numeral)
qed

interpretation cpack: codec append_pack_guid pack_guid_bytes read_pack_guid "\<lambda>_. True"
  by unfold_locales (simp_all add: append_pack_guid_extends read_pack_guid_reads_at)


section \<open>Vectors and maps\<close>

context codec begin

lemma vector_codec:
  "codec (put_vector wr) (\<lambda>v. word_le_bytes (of_nat (length v) :: u32) @ concat (map enc v))
     (get_vector rd) (\<lambda>v. length v < 2 ^ 32 \<and> (\<forall>x \<in> set v. ok x))"
proof
  fix b and v :: "'a list"
  let ?n = "of_nat (length v) :: u32"
  let ?enc = "word_le_bytes ?n @ concat (map enc v)"
  show "put_vector wr v b = Inr (bb_extend ?enc b)" if "at_end b" "bb_room (length ?enc) b"
  proof -
    from that have "stream_put ?n b = Inr (bb_extend (word_le_bytes ?n) b)"
      by (intro c32.wr_extends) (auto elim: bb_room_mono)
    with that put_all_extends [of "bb_extend (word_le_bytes ?n) b" v] show ?thesis
      by (simp add: put_vector_def)
  qed
  show "get_vector rd b = Inr (v, bb_advance (length ?enc) b)"
    if ok: "length v < 2 ^ 32 \<and> (\<forall>x \<in> set v. ok x)" and r: "reads_at ?enc b"
  proof -
    from r have r1: "reads_at (word_le_bytes ?n) b"
      and r2: "reads_at (concat (map enc v)) (bb_advance 4 b)"
      by (simp_all add: reads_at_append)
    from ok have "unat ?n = length v" by (simp add: unat_of_nat)
    with stream_get_reads_at [OF _ r1] ok get_many_enc [OF _ r2, of "[]"] show ?thesis
      by (simp add: get_vector_def)
  qed
qed

end

interpretation cvec_u64: codec "put_vector stream_put"
  "\<lambda>v. word_le_bytes (of_nat (length v) :: u32) @ concat (map word_le_bytes (v :: u64 list))"
  "get_vector stream_get" "\<lambda>v. length v < 2 ^ 32 \<and> (\<forall>x \<in> set v. True)"
  by (rule c64.vector_codec)

interpretation cvec_string: codec "put_vector put_string"
  "\<lambda>v. word_le_bytes (of_nat (length v) :: u32) @ concat (map string_bytes v)"
  "get_vector get_string" "\<lambda>v. length v < 2 ^ 32 \<and> (\<forall>s \<in> set v. CHR 0x00 \<notin> set s)"
  by (rule cstr.vector_codec)

locale map_codec = key: codec wk ek rk okk + val: codec wv ev rv okv
  for wk :: "'k::linorder \<Rightarrow> byte_buffer \<Rightarrow> bb_error + byte_buffer" and ek rk okk
    and wv :: "'v \<Rightarrow> byte_buffer \<Rightarrow> bb_error + byte_buffer" and ev rv okv
begin

lemma entry_writer:
  "stream_writer (\<lambda>e b. sbind (wk (fst e) b) (wv (snd e))) (\<lambda>e. ek (fst e) @ ev (snd e))"
proof
  fix b and e :: "'k \<times> 'v"
  assume a: "at_end b" "bb_room (length (ek (fst e) @ ev (snd e))) b"
  then have "wk (fst e) b = Inr (bb_extend (ek (fst e)) b)"
    by (intro key.wr_extends) (auto elim: bb_room_mono)
  with a val.wr_extends [of "bb_extend (ek (fst e)) b" "snd e"]
  show "sbind (wk (fst e) b) (wv (snd e)) = Inr (bb_extend (ek (fst e) @ ev (snd e)) b)"
    by simp
qed

lemma sm_put_last: "\<forall>j \<in> set (map fst m). j < k \<Longrightarrow> sm_put k v m = m @ [(k, v)]"
  by (induction m) (auto simp: sm_put_def)

lemma get_map_loop_enc:
  "sm_wf (m @ m') \<Longrightarrow> \<forall>e \<in> set m'. okk (fst e) \<and> okv (snd e) \<Longrightarrow>
   reads_at (concat (map (\<lambda>e. ek (fst e) @ ev (snd e)) m')) b \<Longrightarrow>
   get_map_loop rk rv (length m') m b =
     Inr (m @ m', bb_advance (length (concat (map (\<lambda>e. ek (fst e) @ ev (snd e)) m'))) b)"
proof (induction m' arbitrary: m b)
  case Nil
  then show ?case by simp
next
  case (Cons e m')
  from Cons.prems(3) have rdk: "rk b = Inr (fst e, bb_advance (length (ek (fst e))) b)"
    using Cons.prems(2) by (intro key.rd_enc) (auto simp: reads_at_append)
  from Cons.prems(3) have rdv: "rv (bb_advance (length (ek (fst e))) b) =
      Inr (snd e, bb_advance (length (ek (fst e)) + length (ev (snd e))) b)"
    using Cons.prems(2) by (subst val.rd_enc) (auto simp: reads_at_append)
  from Cons.prems(1) have lt: "\<forall>j \<in> set (map fst m). j < fst e"
    by (auto simp: sm_wf_def sorted_wrt_append)
  then have new: "sm_find m (fst e) = None"
    by (force simp: sm_find_def map_of_eq_None_iff)
  from Cons rdk rdv new sm_put_last [OF lt, of "snd e"] show ?case
    by (simp add: reads_at_append add.assoc)
qed

lemma map_codec:
  "codec (put_map wk wv)
     (\<lambda>m. word_le_bytes (of_nat (length m) :: u32) @ concat (map (\<lambda>e. ek (fst e) @ ev (snd e)) m))
     (get_map rk rv)
     (\<lambda>m. sm_wf m \<and> length m < 2 ^ 32 \<and> (\<forall>e \<in> set m. okk (fst e) \<and> okv (snd e)))"
proof
  fix b and m :: "('k, 'v) smap"
  let ?n = "of_nat (length m) :: u32"
  let ?body = "concat (map (\<lambda>e. ek (fst e) @ ev (snd e)) m)"
  let ?enc = "word_le_bytes ?n @ ?body"
  show "put_map wk wv m b = Inr (bb_extend ?enc b)" if "at_end b" "bb_room (length ?enc) b"
  proof -
    from that have "stream_put ?n b = Inr (bb_extend (word_le_bytes ?n) b)"
      by (intro c32.wr_extends) (auto elim: bb_room_mono)
    with that stream_writer.put_all_extends [OF entry_writer, of "bb_extend (word_le_bytes ?n) b" m]
    show ?thesis by (simp add: put_map_def)
  qed
  show "get_map rk rv b = Inr (m, bb_advance (length ?enc) b)"
    if ok: "sm_wf m \<and> length m < 2 ^ 32 \<and> (\<forall>e \<in> set m. okk (fst e) \<and> okv (snd e))"
      and r: "reads_at ?enc b"
  proof -
    from r have r1: "reads_at (word_le_bytes ?n) b" and r2: "reads_at ?body (bb_advance 4 b)"
      by (simp_all add: reads_at_append)
    from ok have "unat ?n = length m" by (simp add: unat_of_nat)
    with stream_get_reads_at [OF _ r1] ok get_map_loop_enc [of "[]" m, OF _ _ r2] show ?thesis
      by (simp add: get_map_def)
  qed
qed

end

interpretation mc_u32_string: map_codec "stream_put :: u32 \<Rightarrow> _" word_le_bytes stream_get "\<lambda>_. True"
  put_string string_bytes get_string "\<lambda>s. CHR 0x00 \<notin> set s"
  by unfold_locales

interpretation cmap_u32_string: codec "put_map (stream_put :: u32 \<Rightarrow> _) put_string"
  "\<lambda>m. word_le_bytes (of_nat (length m) :: u32) @
     concat (map (\<lambda>e. word_le_bytes (fst e :: u32) @ string_bytes (snd e)) m)"
  "get_map stream_get get_string"
  "\<lambda>m. sm_wf m \<and> length m < 2 ^ 32 \<and> (\<forall>e \<in> set m. True \<and> CHR 0x00 \<notin> set (snd e))"
  by (rule mc_u32_string.map_codec)


section \<open>Properties of the buffer\<close>

lemma length_guid_data: "length (guid_data g is) \<le> length is"
  by (simp add: guid_data_def)

text \<open>
  C2: a guid written with \<open>appendPackGUID\<close> is read back by \<open>readPackGUID\<close>, which stops
  behind it, and takes one byte and one more for each non-zero byte of the guid.
\<close>

theorem pack_guid_roundtrip:
  assumes "at_end b" and "bb_room 9 b"
  shows "\<exists>b'. append_pack_guid g b = Inr b' \<and>
    bb_size b' = bb_size b + 1 + length (filter (\<lambda>i. guid_byte g i \<noteq> 0) [0..<8]) \<and>
    read_pack_guid (set_rpos (bb_size b) b') = Inr (g, set_rpos (bb_size b') b')"
proof -
  have "length (pack_guid_bytes g) \<le> 9"
    using length_guid_data [of g "[0..<8]"] by (simp add: pack_guid_bytes_def del: upt_rec_numeral)
  with assms(2) have room: "bb_room (length (pack_guid_bytes g)) b" by (rule bb_room_mono)
  from cpack.roundtrip [OF assms(1) room TrueI] cpack.wr_extends [OF assms(1) room] show ?thesis
    by (auto simp: pack_guid_bytes_def guid_data_def simp del: upt_rec_numeral)
qed

lemma fresh_buffer: "at_end bb_new" "bb_size bb_new = 0"
  by (simp_all add: at_end_def bb_new_def bb_size_def)

theorem pack_guid_roundtrip_witness:
  "\<exists>b'. append_pack_guid 0x0000000300000001 bb_new = Inr b' \<and>
    bb_size b' = bb_size bb_new + 1 + length (filter (\<lambda>i. guid_byte 0x0000000300000001 i \<noteq> 0) [0..<8]) \<and>
    read_pack_guid (set_rpos (bb_size bb_new) b') = Inr (0x0000000300000001, set_rpos (bb_size b') b')"
  by (rule pack_guid_roundtrip) (simp_all add: fresh_buffer bb_room_def)

text \<open>
  A vector of strings written by its stream operator is read back: the strings, in
  order, provided none contains the terminating zero and the count fits the thirty-two bit
  prefix.
\<close>

theorem string_vector_roundtrip:
  assumes "at_end b" and "\<forall>s \<in> set v. CHR 0x00 \<notin> set s" and "length v < 2 ^ 32"
    and "bb_room (4 + sum_list (map (\<lambda>s. Suc (length s)) v)) b"
  shows "\<exists>b'. put_vector put_string v b = Inr b' \<and>
    get_vector get_string (set_rpos (bb_size b) b') = Inr (v, set_rpos (bb_size b') b')"
proof -
  have "length (concat (map string_bytes v)) = sum_list (map (\<lambda>s. Suc (length s)) v)"
    by (simp add: length_concat comp_def)
  with assms show ?thesis by (intro cvec_string.roundtrip) simp_all
qed

theorem string_vector_roundtrip_witness:
  "\<exists>b'. put_vector put_string [''ab'', [], ''c''] bb_new = Inr b' \<and>
    get_vector get_string (set_rpos (bb_size bb_new) b') = Inr ([''ab'', [], ''c''], set_rpos (bb_size b') b')"
  by (rule string_vector_roundtrip) (simp_all add: fresh_buffer bb_room_def)

text \<open>
  A \<open>std::map\<close> from thirty-two bit keys to strings is read back as the same map, in
  key order.
\<close>

theorem map_roundtrip:
  assumes "at_end b" and "sm_wf m" and "length m < 2 ^ 32"
    and "\<forall>e \<in> set m. CHR 0x00 \<notin> set (snd e)"
    and "bb_room (4 + sum_list (map (\<lambda>e. 5 + length (snd e)) m)) b"
  shows "\<exists>b'. put_map (stream_put :: u32 \<Rightarrow> _) put_string m b = Inr b' \<and>
    get_map stream_get get_string (set_rpos (bb_size b) b') = Inr (m, set_rpos (bb_size b') b')"
proof -
  have "length (concat (map (\<lambda>e. word_le_bytes (fst e :: u32) @ string_bytes (snd e)) m)) =
      sum_list (map (\<lambda>e. 5 + length (snd e)) m)"
    by (induction m) simp_all
  with assms show ?thesis by (intro cmap_u32_string.roundtrip) simp_all
qed

theorem map_roundtrip_witness:
  "\<exists>b'. put_map (stream_put :: u32 \<Rightarrow> _) put_string [(2, ''x''), (7, ''yz'')] bb_new = Inr b' \<and>
    get_map stream_get get_string (set_rpos (bb_size bb_new) b') =
      Inr ([(2 :: u32, ''x''), (7, ''yz'')], set_rpos (bb_size b') b')"
  by (rule map_roundtrip) (simp_all add: fresh_buffer bb_room_def sm_wf_def)

text \<open>
  A read is bounds checked as long as the position arithmetic does not wrap. The exception's
  last two fields are the size of the value and the size of the buffer, in this order.
\<close>

lemma read_at_bounds:
  assumes "pos + LENGTH('a::len) div 8 < size_max"
  shows "(read_at big pos b :: bb_error + 'a word) =
    (if pos + LENGTH('a) div 8 \<le> bb_size b
     then Inr (word_of_le_bytes (take (LENGTH('a) div 8) (drop pos (bb_storage b))))
     else Inl (ByteBufferPositionException False pos (LENGTH('a) div 8) (bb_size b)))"
  using assms by (auto simp: read_at_def read_bytes_at_def sz_add_eq)

text \<open>
  Overwriting a value in place, as the packet builders do with a count they only know at
  the end, keeps the size and both positions, changes no byte outside the value, and the
  value is what a read at that position returns.
\<close>

theorem put_val_overwrites:
  assumes "8 dvd LENGTH('a::len)" and "pos + LENGTH('a) div 8 \<le> bb_size b" and "bb_size b < size_max"
  shows "\<exists>b'. put_val big pos (w :: 'a word) b = Inr b' \<and>
    bb_size b' = bb_size b \<and> bb_rpos b' = bb_rpos b \<and> bb_wpos b' = bb_wpos b \<and>
    (\<forall>i. i < pos \<or> pos + LENGTH('a) div 8 \<le> i \<longrightarrow> i < bb_size b \<longrightarrow>
       bb_storage b' ! i = bb_storage b ! i) \<and>
    read_at big pos b' = Inr w"
proof -
  define n where "n = LENGTH('a) div 8"
  define b' where "b' = b\<lparr>bb_storage :=
    take pos (bb_storage b) @ word_le_bytes w @ drop (pos + n) (bb_storage b)\<rparr>"
  have pos: "pos + n \<le> length (bb_storage b)" "pos + n < size_max"
    using assms by (simp_all add: n_def bb_size_def)
  have "put_val big pos w b = Inr b'"
    using pos by (simp add: put_val_def put_bytes_def b'_def sz_add_eq bb_size_def flip: n_def)
  moreover have size: "bb_size b' = bb_size b"
    using pos by (simp add: b'_def bb_size_def flip: n_def)
  moreover have "bb_storage b' ! i = bb_storage b ! i"
    if "i < pos \<or> pos + n \<le> i" "i < bb_size b" for i
    using that pos by (auto simp: b'_def nth_append bb_size_def simp flip: n_def)
  moreover have "take n (drop pos (bb_storage b')) = word_le_bytes w"
    using pos by (simp add: b'_def n_def)
  then have "read_at big pos b' = Inr w"
    using pos size assms(1) by (subst read_at_bounds)
      (simp_all add: word_of_le_bytes_inverse bb_size_def flip: n_def)
  ultimately show ?thesis
    unfolding n_def by (intro exI [of _ b']) (simp add: b'_def)
qed

theorem put_val_overwrites_witness:
  "\<exists>b'. put_val False 1 (0x0102 :: u16) \<lparr>bb_rpos = 0, bb_wpos = 4, bb_storage = [9, 0, 0, 5]\<rparr> = Inr b' \<and>
    read_at False 1 b' = Inr (0x0102 :: u16)"
proof -
  let ?b = "\<lparr>bb_rpos = 0, bb_wpos = 4, bb_storage = [9, 0, 0, 5]\<rparr> :: byte_buffer"
  have "1 + LENGTH(16) div 8 \<le> bb_size ?b" "bb_size ?b < size_max"
    by (simp_all add: bb_size_def size_max_def)
  from put_val_overwrites [OF dvd_lengths(2) this, of False "0x0102"]
  show ?thesis by blast
qed

section \<open>Two hosts and one wire\<close>

text \<open>What a value written at the end, or over another, looks like on every host.\<close>

lemma le_bytes_nonempty: "8 dvd LENGTH('a::len) \<Longrightarrow> word_le_bytes (w :: 'a word) \<noteq> []"
  using length_word_le_bytes [of w] by (metis dvd_div_eq_0_iff len_not_eq_0 length_0_conv)

lemma append_val_at_end:
  assumes "8 dvd LENGTH('a::len)" and "at_end b" and "bb_room (LENGTH('a) div 8) b"
  shows "append_val big (w :: 'a word) b = Inr (bb_extend (word_le_bytes w) b)"
  using append_bytes_at_end [of b "word_le_bytes w"] le_bytes_nonempty [OF assms(1), of w] assms
  by (simp add: append_val_def)

lemma put_val_at_end:
  assumes "bb_size b + LENGTH('a::len) div 8 < size_max"
  shows "put_val big (bb_size b) (v :: 'a word) (bb_extend (word_le_bytes (w :: 'a word)) b) =
    Inr (bb_extend (word_le_bytes v) b)"
  using assms by (simp add: put_val_def put_bytes_def sz_add_eq bb_extend_def bb_size_def)

lemma read_val_extended:
  assumes "8 dvd LENGTH('a::len)" and "bb_size b + LENGTH('a) div 8 < size_max"
  shows "(read_val big (set_rpos (bb_size b) (bb_extend (word_le_bytes w) b)) ::
      bb_error + 'a word \<times> byte_buffer) =
    Inr (w, set_rpos (bb_size b + LENGTH('a) div 8) (bb_extend (word_le_bytes w) b))"
  using stream_get_reads_at [OF assms(1) reads_at_extend, of w b] assms(2)
  by (simp add: read_val_host [of big] bb_advance_def set_rpos_def)

text \<open>
  C1: the format of the wire does not depend on the host. A value that a host of either byte
  order writes at the end of a packet lies there as its bytes from the lowest to the highest;
  a host of either byte order that reads at that place gets the value back and stops behind it;
  and when the writer puts another value over it in place, as the packet builders do with a
  count they only know at the end, every reader gets that value instead, and nothing else of
  the packet has changed.
\<close>

theorem wire_format_host_independent:
  assumes "8 dvd LENGTH('a::len)" and "at_end b" and "bb_room (LENGTH('a) div 8) b"
  shows "\<exists>b1 b2. append_val writer (w :: 'a word) b = Inr b1 \<and>
    bb_storage b1 = bb_storage b @ map (\<lambda>i. ucast (drop_bit (8 * i) w)) [0..<LENGTH('a) div 8] \<and>
    read_val reader (set_rpos (bb_size b) b1) = Inr (w, set_rpos (bb_size b1) b1) \<and>
    put_val writer (bb_size b) v b1 = Inr b2 \<and>
    bb_storage b2 = bb_storage b @ map (\<lambda>i. ucast (drop_bit (8 * i) v)) [0..<LENGTH('a) div 8] \<and>
    bb_rpos b2 = bb_rpos b1 \<and> bb_wpos b2 = bb_wpos b1 \<and>
    read_val reader (set_rpos (bb_size b) b2) = Inr (v :: 'a word, set_rpos (bb_size b2) b2)"
proof -
  have "bb_size b + LENGTH('a) div 8 < size_max"
    using assms(3) by (simp add: bb_room_def size_max_def)
  with assms show ?thesis
    by (rule_tac exI [where x = "bb_extend (word_le_bytes w) b"],
        rule_tac exI [where x = "bb_extend (word_le_bytes v) b"])
      (simp add: append_val_at_end put_val_at_end read_val_extended flip: word_le_bytes_def)
qed

theorem wire_format_host_independent_witness:
  "\<exists>b1 b2. append_val True (0x11223344 :: u32) bb_new = Inr b1 \<and>
    bb_storage b1 = [0x44, 0x33, 0x22, 0x11] \<and>
    read_val False (set_rpos 0 b1) = Inr (0x11223344 :: u32, set_rpos (bb_size b1) b1) \<and>
    put_val True 0 (7 :: u32) b1 = Inr b2 \<and> bb_storage b2 = [7, 0, 0, 0] \<and>
    read_val False (set_rpos 0 b2) = Inr (7 :: u32, set_rpos (bb_size b2) b2)"
proof -
  have room: "bb_room (LENGTH(32) div 8) bb_new" by (simp add: bb_room_def fresh_buffer)
  have bytes: "bb_storage bb_new @ map (\<lambda>i. ucast (drop_bit (8 * i) (0x11223344 :: u32))) [0..<LENGTH(32) div 8] =
      [0x44, 0x33, 0x22, 0x11 :: u8]"
    "bb_storage bb_new @ map (\<lambda>i. ucast (drop_bit (8 * i) (7 :: u32))) [0..<LENGTH(32) div 8] = [7, 0, 0, 0 :: u8]"
    by code_simp+
  show ?thesis
    using wire_format_host_independent [OF dvd_lengths(3) fresh_buffer(1) room,
        of True "0x11223344" False 7]
    unfolding bytes fresh_buffer(2) by blast
qed

section \<open>Any sequence of reads\<close>

text \<open>
  What a handler does with the packet of a client: reads in some order, the first that throws
  ends the handler. The values are dropped, since only the buffer matters here.
\<close>

datatype read_op =
    ReadU8 | ReadU16 | ReadU32 | ReadU64 | ReadBool | ReadString | ReadSkipString | ReadPackGuid
  | ReadSkip nat
  | ReadRaw nat
  | ReadVectorU64 | ReadVectorString | ReadMapU32String

fun read_one :: "read_op \<Rightarrow> byte_buffer \<Rightarrow> bb_error + byte_buffer" where
  "read_one ReadU8 b = sbind (stream_get b) (\<lambda>(_ :: u8, b). Inr b)"
| "read_one ReadU16 b = sbind (stream_get b) (\<lambda>(_ :: u16, b). Inr b)"
| "read_one ReadU32 b = sbind (stream_get b) (\<lambda>(_ :: u32, b). Inr b)"
| "read_one ReadU64 b = sbind (stream_get b) (\<lambda>(_ :: u64, b). Inr b)"
| "read_one ReadBool b = sbind (get_bool b) (\<lambda>(_, b). Inr b)"
| "read_one ReadString b = sbind (get_string b) (\<lambda>(_, b). Inr b)"
| "read_one ReadSkipString b = read_skip_string b"
| "read_one ReadPackGuid b = sbind (read_pack_guid b) (\<lambda>(_, b). Inr b)"
| "read_one (ReadSkip n) b = read_skip n b"
| "read_one (ReadRaw n) b = sbind (read_raw n b) (\<lambda>(_, b). Inr b)"
| "read_one ReadVectorU64 b = sbind (get_vector stream_get b) (\<lambda>(_ :: u64 list, b). Inr b)"
| "read_one ReadVectorString b = sbind (get_vector get_string b) (\<lambda>(_, b). Inr b)"
| "read_one ReadMapU32String b =
     sbind (get_map stream_get get_string b) (\<lambda>(_ :: (u32, string) smap, b). Inr b)"

fun read_all :: "read_op list \<Rightarrow> byte_buffer \<Rightarrow> bb_error + byte_buffer" where
  "read_all [] b = Inr b"
| "read_all (r # rs) b = sbind (read_one r b) (read_all rs)"

text \<open>
  The contract of a reader on a buffer whose read position is inside: it changes nothing but
  that position, which stays inside, or throws the position exception because bytes it asked
  for are not there.
\<close>

definition same_bytes :: "byte_buffer \<Rightarrow> byte_buffer \<Rightarrow> bool" where
  "same_bytes b b' \<longleftrightarrow> bb_storage b' = bb_storage b \<and> bb_wpos b' = bb_wpos b \<and> bb_rpos b' \<le> bb_size b"

definition missing_bytes :: "byte_buffer \<Rightarrow> bb_error \<Rightarrow> bool" where
  "missing_bytes b e \<longleftrightarrow> (\<exists>pos n. e = ByteBufferPositionException False pos n (bb_size b) \<and>
     pos \<le> bb_size b \<and> bb_size b < pos + n)"

definition safe_result :: "byte_buffer \<Rightarrow> bb_error + 'a \<times> byte_buffer \<Rightarrow> bool" where
  "safe_result b r = (case r of Inl e \<Rightarrow> missing_bytes b e | Inr (_, b') \<Rightarrow> same_bytes b b')"

text \<open>The room between the size of a buffer and the end of the address arithmetic.\<close>

definition readable :: "byte_buffer \<Rightarrow> bool" where
  "readable b \<longleftrightarrow> bb_rpos b \<le> bb_size b \<and> bb_size b + 8 < size_max"

locale safe_reader =
  fixes rd :: "byte_buffer \<Rightarrow> bb_error + 'a \<times> byte_buffer"
  assumes safe: "readable b \<Longrightarrow> safe_result b (rd b)"

lemma same_bytes_readable: "readable b \<Longrightarrow> same_bytes b b' \<Longrightarrow> readable b' \<and> bb_size b' = bb_size b"
  by (auto simp: readable_def same_bytes_def bb_size_def)

lemma same_bytes_trans: "same_bytes b b' \<Longrightarrow> same_bytes b' b'' \<Longrightarrow> same_bytes b b''"
  by (auto simp: same_bytes_def bb_size_def)

lemma missing_bytes_same: "same_bytes b b' \<Longrightarrow> missing_bytes b' e \<Longrightarrow> missing_bytes b e"
  by (auto simp: same_bytes_def missing_bytes_def bb_size_def)

lemma safe_result_Inl [simp]: "safe_result b (Inl e) = missing_bytes b e"
  by (simp add: safe_result_def)

lemma safe_result_Inr [simp]: "safe_result b (Inr (x, b')) = same_bytes b b'"
  by (simp add: safe_result_def)

lemma same_bytes_refl: "readable b \<Longrightarrow> same_bytes b b"
  by (simp add: readable_def same_bytes_def)

text \<open>Sequencing keeps the contract.\<close>

lemma safe_sbind:
  assumes "readable b" and "safe_result b m"
    and "\<And>x b'. m = Inr (x, b') \<Longrightarrow> readable b' \<Longrightarrow> safe_result b' (f (x, b'))"
  shows "safe_result b (sbind m f)"
proof (cases m)
  case (Inl e)
  with assms(2) show ?thesis by simp
next
  case (Inr p)
  obtain x b' where p: "p = (x, b')" by (cases p)
  with assms(2) Inr have same: "same_bytes b b'" by simp
  with assms(1) have "readable b'" by (simp add: same_bytes_readable)
  with assms(3) [of x b'] Inr p have "safe_result b' (f (x, b'))" by simp
  with same Inr p show ?thesis
    by (cases "f (x, b')") (auto intro: same_bytes_trans missing_bytes_same)
qed

lemma safe_read_bytes:
  assumes "readable b" and "bb_size b + n < size_max"
  shows "safe_result b (sbind (read_bytes_at (bb_rpos b) n b) (\<lambda>bs. Inr (f bs, b\<lparr>bb_rpos := bb_rpos b + n\<rparr>)))"
proof -
  have "sz_add (bb_rpos b) n = bb_rpos b + n"
    using assms by (intro sz_add_eq) (simp add: readable_def)
  with assms show ?thesis
    by (simp add: read_bytes_at_def missing_bytes_def same_bytes_def readable_def bb_size_def)
qed

lemma safe_read_val:
  assumes "LENGTH('a::len) div 8 \<le> 8" and "readable b"
  shows "safe_result b (read_val big b :: bb_error + 'a word \<times> byte_buffer)"
  using safe_read_bytes [OF assms(2), of "LENGTH('a) div 8"] assms
  by (simp add: read_val_def read_at_def sbind_assoc readable_def)

interpretation r8: safe_reader "stream_get :: _ \<Rightarrow> bb_error + u8 \<times> _"
  by unfold_locales (simp add: safe_read_val)
interpretation r16: safe_reader "stream_get :: _ \<Rightarrow> bb_error + u16 \<times> _"
  by unfold_locales (simp add: safe_read_val)
interpretation r32: safe_reader "stream_get :: _ \<Rightarrow> bb_error + u32 \<times> _"
  by unfold_locales (simp add: safe_read_val)
interpretation r64: safe_reader "stream_get :: _ \<Rightarrow> bb_error + u64 \<times> _"
  by unfold_locales (simp add: safe_read_val)

lemma safe_get_string_loop: "readable b \<Longrightarrow> safe_result b (get_string_loop v b)"
proof (induction v b rule: get_string_loop.induct)
  case (1 v b)
  show ?case
  proof (cases "bb_rpos b < bb_size b")
    case True
    have s: "safe_result b (stream_get b :: bb_error + u8 \<times> _)" using "1.prems" by (rule r8.safe)
    show ?thesis
    proof (cases "stream_get b :: bb_error + u8 \<times> byte_buffer")
      case (Inl e)
      with s True show ?thesis by (subst get_string_loop.simps) simp
    next
      case (Inr p)
      obtain c b' where p: "p = (c, b')" by (cases p)
      with s Inr have same: "same_bytes b b'" by simp
      with "1.prems" have "readable b'" by (simp add: same_bytes_readable)
      with "1.IH" [OF True Inr p [symmetric]] have "safe_result b' (get_string_loop (v @ [char_of_byte c]) b')"
        if "c \<noteq> 0" using that by simp
      with same Inr p True show ?thesis
        by (subst get_string_loop.simps, cases "get_string_loop (v @ [char_of_byte c]) b'")
          (auto intro: same_bytes_trans missing_bytes_same)
    qed
  next
    case False
    with "1.prems" show ?thesis by (subst get_string_loop.simps) (simp add: same_bytes_refl)
  qed
qed

interpretation rstring: safe_reader get_string
  by unfold_locales (simp add: get_string_def safe_get_string_loop)

lemma safe_read_pack_loop: "readable b \<Longrightarrow> safe_result b (read_pack_loop m is g b)"
proof (induction "is" arbitrary: g b)
  case Nil
  then show ?case by (simp add: same_bytes_refl)
next
  case (Cons i "is")
  have "sz_add (bb_rpos b) 1 = bb_rpos b + 1"
    using Cons.prems by (intro sz_add_eq) (simp add: readable_def)
  then have "missing_bytes b (ByteBufferPositionException False (bb_rpos b) 1 (bb_size b))"
    if "bb_size b < sz_add (bb_rpos b) 1"
    using that Cons.prems by (simp add: missing_bytes_def readable_def)
  moreover have "safe_result b (sbind (stream_get b)
      (\<lambda>(byt :: u8, b). read_pack_loop m is (g OR push_bit (i * 8) (ucast byt)) b))"
    using Cons.prems by (rule safe_sbind) (auto simp: r8.safe Cons.prems Cons.IH)
  ultimately show ?case using Cons by simp
qed

interpretation rpack: safe_reader read_pack_guid
proof
  fix b assume r: "readable b"
  then have "sz_add (bb_rpos b) 1 = bb_rpos b + 1"
    by (intro sz_add_eq) (simp add: readable_def)
  then have "missing_bytes b (ByteBufferPositionException False (bb_rpos b) 1 (bb_size b))"
    if "bb_size b < sz_add (bb_rpos b) 1"
    using that r by (simp add: missing_bytes_def readable_def)
  moreover have "safe_result b (sbind (stream_get b)
      (\<lambda>(guidmark :: u8, b). read_pack_loop guidmark [0..<8] 0 b))"
    using r by (rule safe_sbind) (auto simp: r8.safe r safe_read_pack_loop simp del: upt_rec_numeral)
  ultimately show "safe_result b (read_pack_guid b)" by (simp add: read_pack_guid_def)
qed

text \<open>A container of elements with safe readers has a safe reader, whatever count it is given.\<close>

context safe_reader begin

lemma safe_get_many: "readable b \<Longrightarrow> safe_result b (get_many rd n v b)"
proof (induction n arbitrary: v b)
  case 0
  then show ?case by (simp add: same_bytes_refl)
next
  case (Suc n)
  have "safe_result b (sbind (rd b) (\<lambda>(t, b). get_many rd n (v @ [t]) b))"
    using Suc.prems by (rule safe_sbind) (auto simp: safe Suc.prems Suc.IH)
  then show ?case by simp
qed

lemma safe_get_vector: "readable b \<Longrightarrow> safe_result b (get_vector rd b)"
  unfolding get_vector_def by (rule safe_sbind) (auto simp: r32.safe safe_get_many)

lemma safe_dropped: "readable b \<Longrightarrow> safe_result b (sbind (rd b) (\<lambda>(_, b). Inr ((), b)))"
  by (rule safe_sbind) (auto simp: safe same_bytes_refl)

end

locale safe_pair = key: safe_reader rk + val: safe_reader rv
  for rk :: "byte_buffer \<Rightarrow> bb_error + 'k::linorder \<times> byte_buffer"
    and rv :: "byte_buffer \<Rightarrow> bb_error + 'v \<times> byte_buffer"
begin

lemma safe_get_map_loop: "readable b \<Longrightarrow> safe_result b (get_map_loop rk rv n m b)"
proof (induction n arbitrary: m b)
  case 0
  then show ?case by (simp add: same_bytes_refl)
next
  case (Suc n)
  have "safe_result b (sbind (rk b) (\<lambda>(k, b). sbind (rv b) (\<lambda>(v, b).
      get_map_loop rk rv n (if sm_find m k = None then sm_put k v m else m) b)))"
    using Suc.prems
  proof (rule safe_sbind)
    show "safe_result b (rk b)" using Suc.prems by (rule key.safe)
    fix k b' assume b': "readable b'"
    then have "safe_result b' (sbind (rv b') (\<lambda>(v, b).
        get_map_loop rk rv n (if sm_find m k = None then sm_put k v m else m) b))"
      by (rule safe_sbind) (auto simp: val.safe b' Suc.IH)
    then show "safe_result b' ((\<lambda>(k, b). sbind (rv b) (\<lambda>(v, b).
        get_map_loop rk rv n (if sm_find m k = None then sm_put k v m else m) b)) (k, b'))" by simp
  qed
  then show ?case by simp
qed

lemma safe_get_map: "readable b \<Longrightarrow> safe_result b (get_map rk rv b)"
  unfolding get_map_def by (rule safe_sbind) (auto simp: r32.safe safe_get_map_loop)

end

interpretation ru32_string: safe_pair "stream_get :: _ \<Rightarrow> bb_error + u32 \<times> _" get_string
  by unfold_locales

text \<open>One read, and any sequence of them, as readers that return nothing.\<close>

lemma safe_read_one:
  assumes "readable b" and "\<And>n. r = ReadRaw n \<Longrightarrow> bb_size b + n < size_max"
  shows "safe_result b (sbind (read_one r b) (\<lambda>b. Inr ((), b)))"
proof (cases r)
  case (ReadSkip n)
  with assms(1) show ?thesis
    using sz_add_le [of "bb_rpos b" n]
    by (auto simp: read_skip_def missing_bytes_def same_bytes_def readable_def bb_size_def)
next
  case (ReadRaw n)
  with safe_read_bytes [OF assms(1) assms(2) [OF ReadRaw], of "\<lambda>_. ()"] show ?thesis
    by (simp add: read_raw_def sbind_assoc)
next
  case ReadBool
  have "safe_result b (sbind (stream_get b) (\<lambda>(c :: u8, b). Inr ((), b)))"
    using assms(1) by (rule r8.safe_dropped)
  with ReadBool show ?thesis by (simp add: get_bool_def sbind_assoc case_prod_beta')
next
  case ReadSkipString
  with rstring.safe_dropped [OF assms(1)] show ?thesis
    by (simp add: read_skip_string_def sbind_assoc case_prod_beta')
next
  case ReadVectorU64
  have "safe_result b (sbind (get_vector stream_get b) (\<lambda>(_ :: u64 list, b). Inr ((), b)))"
    by (rule safe_sbind [OF assms(1) r64.safe_get_vector]) (auto simp: assms(1) same_bytes_refl)
  with ReadVectorU64 show ?thesis by (simp add: sbind_assoc case_prod_beta')
next
  case ReadVectorString
  have "safe_result b (sbind (get_vector get_string b) (\<lambda>(_, b). Inr ((), b)))"
    by (rule safe_sbind [OF assms(1) rstring.safe_get_vector]) (auto simp: assms(1) same_bytes_refl)
  with ReadVectorString show ?thesis by (simp add: sbind_assoc case_prod_beta')
next
  case ReadMapU32String
  have "safe_result b (sbind (get_map stream_get get_string b) (\<lambda>(_ :: (u32, string) smap, b). Inr ((), b)))"
    by (rule safe_sbind [OF assms(1) ru32_string.safe_get_map]) (auto simp: assms(1) same_bytes_refl)
  with ReadMapU32String show ?thesis by (simp add: sbind_assoc case_prod_beta')
qed (use r8.safe_dropped [OF assms(1)] r16.safe_dropped [OF assms(1)] r32.safe_dropped [OF assms(1)]
    r64.safe_dropped [OF assms(1)] rstring.safe_dropped [OF assms(1)] rpack.safe_dropped [OF assms(1)]
    in \<open>simp_all add: sbind_assoc case_prod_beta'\<close>)

lemma safe_read_all:
  assumes "readable b" and "\<And>n. ReadRaw n \<in> set rs \<Longrightarrow> bb_size b + n < size_max"
  shows "safe_result b (sbind (read_all rs b) (\<lambda>b. Inr ((), b)))"
  using assms
proof (induction rs arbitrary: b)
  case Nil
  then show ?case by (simp add: same_bytes_refl)
next
  case (Cons r rs)
  have "safe_result b (sbind (sbind (read_one r b) (\<lambda>b. Inr ((), b)))
      (\<lambda>(_, b). sbind (read_all rs b) (\<lambda>b. Inr ((), b))))"
  proof (rule safe_sbind)
    show "readable b" by (rule Cons.prems(1))
    show s: "safe_result b (sbind (read_one r b) (\<lambda>b. Inr ((), b)))"
      using Cons.prems by (intro safe_read_one) auto
    fix x b' assume b': "sbind (read_one r b) (\<lambda>b. Inr ((), b)) = Inr (x, b')" "readable b'"
    with s have "bb_size b' = bb_size b" by (simp add: same_bytes_def bb_size_def)
    with b'(2) Cons.prems(2) show "safe_result b' (case (x, b') of (_, b) \<Rightarrow> sbind (read_all rs b) (\<lambda>b. Inr ((), b)))"
      by (simp add: Cons.IH)
  qed
  then show ?case by (simp add: sbind_assoc)
qed

text \<open>
  C3: a packet can hold anything, and its handler still reads only the packet. Any sequence of
  reads (values of every width, booleans, strings, packed guids, vectors and maps with a
  count from the packet, skips and raw reads) on a buffer with its read position inside
  either changes nothing but that position, which stays inside, or ends with the position
  exception of a read whose bytes are not all there; no read touches memory outside the
  vector. The lengths of raw reads are the handler's own; they must not be so large that
  adding them to the position wraps around, which the check of the code does not see.
\<close>

theorem reads_stay_inside:
  assumes "bb_rpos b \<le> bb_size b" and "bb_size b + 8 < size_max"
    and "\<forall>n. ReadRaw n \<in> set ops \<longrightarrow> bb_size b + n < size_max"
  shows "case read_all ops b of
      Inr b' \<Rightarrow> bb_storage b' = bb_storage b \<and> bb_wpos b' = bb_wpos b \<and> bb_rpos b' \<le> bb_size b
    | Inl e \<Rightarrow> \<exists>pos n. e = ByteBufferPositionException False pos n (bb_size b) \<and>
        pos \<le> bb_size b \<and> bb_size b < pos + n"
proof -
  from assms(1,2) have "readable b" by (simp add: readable_def)
  from safe_read_all [OF this, of ops] assms(3) show ?thesis
    by (cases "read_all ops b") (auto simp: missing_bytes_def same_bytes_def)
qed

theorem reads_stay_inside_witness:
  "let b = \<lparr>bb_rpos = 0, bb_wpos = 6, bb_storage = [2, 0, 0, 0, 65, 0]\<rparr> in
   read_all [ReadU32, ReadU8, ReadSkip 1] b = Inr (b\<lparr>bb_rpos := 6\<rparr>) \<and>
   read_all [ReadVectorU64] b = Inl (ByteBufferPositionException False 4 8 6) \<and>
   (\<exists>pos n. ByteBufferPositionException False 4 8 6 = ByteBufferPositionException False pos n (bb_size b) \<and>
     pos \<le> bb_size b \<and> bb_size b < pos + n)"
proof -
  let ?b = "\<lparr>bb_rpos = 0, bb_wpos = 6, bb_storage = [2, 0, 0, 0, 65, 0]\<rparr> :: byte_buffer"
  have two: "get_many (rd :: byte_buffer \<Rightarrow> bb_error + u64 \<times> byte_buffer) 2 v b =
      sbind (rd b) (\<lambda>(t, b). get_many rd 1 (v @ [t]) b)" for rd v b
    by (subst numeral_2_eq_2, subst get_many.simps(2)) simp
  have r: "read_all [ReadU32, ReadU8, ReadSkip 1] ?b = Inr (?b\<lparr>bb_rpos := 6\<rparr>)"
    "read_all [ReadVectorU64] ?b = Inl (ByteBufferPositionException False 4 8 6)"
    by (simp_all add: read_val_def read_at_def read_bytes_at_def sz_add_def size_max_def bb_size_def
        read_skip_def get_vector_def two)
  have "bb_rpos ?b \<le> bb_size ?b" "bb_size ?b + 8 < size_max"
    by (simp_all add: bb_size_def size_max_def)
  from reads_stay_inside [OF this, of "[ReadVectorU64]"] r show ?thesis by simp
qed

end
