(* ===== verification/World_Packet.thy ===== *)
theory World_Packet
  imports Wire_Codec
begin

text \<open>
  \<open>src/src/server/shared/Packets/WorldPacket.h\<close>: a packet is a buffer with an opcode. The
  components that build packets describe one by the list of the values they stream into it;
  \<open>write_packet\<close> streams the list through the buffer's operators, and the interpretation of
  \<open>stream_writer\<close> gives the bytes on the wire.
\<close>

record world_packet =
  wp_opcode :: u16
  wp_buf :: byte_buffer

definition wp_default :: world_packet where
  "wp_default = \<lparr>wp_opcode = 0, wp_buf = bb_new\<rparr>"

definition wp_new :: "u16 \<Rightarrow> world_packet" where
  "wp_new opcode = \<lparr>wp_opcode = opcode, wp_buf = bb_new\<rparr>"

definition wp_initialize :: "u16 \<Rightarrow> world_packet \<Rightarrow> world_packet" where
  "wp_initialize opcode p = \<lparr>wp_opcode = opcode, wp_buf = bb_clear (wp_buf p)\<rparr>"

lemma wp_initialize_new [simp]: "wp_initialize opcode p = wp_new opcode"
  by (cases "wp_buf p") (simp add: wp_initialize_def wp_new_def bb_clear_def bb_new_def)

section \<open>Packets by their fields\<close>

text \<open>The values the program streams: the fixed widths, floats by their bits, strings and packed guids.\<close>

datatype field = F8 u8 | F16 u16 | F32 u32 | F64 u64 | FFloat u32 | FStr string | FPack u64

record packet =
  pk_opcode :: u16
  pk_fields :: "field list"

fun put_field :: "field \<Rightarrow> byte_buffer \<Rightarrow> bb_error + byte_buffer" where
  "put_field (F8 w) b = stream_put w b"
| "put_field (F16 w) b = stream_put w b"
| "put_field (F32 w) b = stream_put w b"
| "put_field (F64 w) b = stream_put w b"
| "put_field (FFloat w) b = stream_put w b"
| "put_field (FStr s) b = put_string s b"
| "put_field (FPack g) b = append_pack_guid g b"

fun field_bytes :: "field \<Rightarrow> u8 list" where
  "field_bytes (F8 w) = word_le_bytes w"
| "field_bytes (F16 w) = word_le_bytes w"
| "field_bytes (F32 w) = word_le_bytes w"
| "field_bytes (F64 w) = word_le_bytes w"
| "field_bytes (FFloat w) = word_le_bytes w"
| "field_bytes (FStr s) = string_bytes s"
| "field_bytes (FPack g) = pack_guid_bytes g"

interpretation cfield: stream_writer put_field field_bytes
proof
  fix b x
  assume "at_end b" "bb_room (length (field_bytes x)) b"
  then show "put_field x b = Inr (bb_extend (field_bytes x) b)"
    by (cases x) (simp_all add: c8.wr_extends c16.wr_extends c32.wr_extends c64.wr_extends
        cstr.wr_extends cpack.wr_extends del: word_le_bytes_u8 length_word_le_bytes length_string_bytes)
qed

definition write_packet :: "packet \<Rightarrow> bb_error + world_packet" where
  "write_packet p =
     sbind (put_all put_field (pk_fields p) (wp_buf (wp_new (pk_opcode p))))
       (\<lambda>b. Inr \<lparr>wp_opcode = pk_opcode p, wp_buf = b\<rparr>)"

definition packet_bytes :: "packet \<Rightarrow> u8 list" where
  "packet_bytes p = concat (map field_bytes (pk_fields p))"

lemma write_packet_bytes:
  assumes "length (packet_bytes p) < 10000000"
  shows "write_packet p = Inr \<lparr>wp_opcode = pk_opcode p, wp_buf = bb_extend (packet_bytes p) bb_new\<rparr>"
  using assms cfield.put_all_extends [of bb_new "pk_fields p"]
  by (simp add: write_packet_def packet_bytes_def wp_new_def fresh_buffer bb_room_def)

text \<open>A reader of the written packet starts at the first field.\<close>

lemma written_packet_reads:
  assumes "length (packet_bytes p) < 10000000"
  shows "\<exists>w. write_packet p = Inr w \<and> wp_opcode w = pk_opcode p \<and> reads_at (packet_bytes p) (wp_buf w)"
  using assms write_packet_bytes [OF assms]
  by (simp add: reads_at_def bb_new_def bb_size_def bb_extend_def size_max_def)

end
