(* ===== verification/Guid_Types.thy ===== *)
theory Guid_Types
  imports Base
begin

text \<open>
  Object guids: the packing macros of
  \<open>src/src/server/game/Entities/Object/ObjectDefines.h\<close>, and the account levels of
  \<open>src/src/server/shared/Common.h\<close> with their predicates of
  \<open>src/src/server/game/Accounts/AccountMgr.cpp\<close>.
\<close>

section \<open>Guids\<close>

definition HIGHGUID_ITEM :: u32 where "HIGHGUID_ITEM = 0x4000"
definition HIGHGUID_PLAYER :: u32 where "HIGHGUID_PLAYER = 0x0000"
definition HIGHGUID_GAMEOBJECT :: u32 where "HIGHGUID_GAMEOBJECT = 0xF110"
definition HIGHGUID_TRANSPORT :: u32 where "HIGHGUID_TRANSPORT = 0xF120"
definition HIGHGUID_UNIT :: u32 where "HIGHGUID_UNIT = 0xF130"
definition HIGHGUID_PET :: u32 where "HIGHGUID_PET = 0xF140"
definition HIGHGUID_VEHICLE :: u32 where "HIGHGUID_VEHICLE = 0xF150"
definition HIGHGUID_DYNAMICOBJECT :: u32 where "HIGHGUID_DYNAMICOBJECT = 0xF100"
definition HIGHGUID_CORPSE :: u32 where "HIGHGUID_CORPSE = 0xF101"
definition HIGHGUID_MO_TRANSPORT :: u32 where "HIGHGUID_MO_TRANSPORT = 0x1FC0"
definition HIGHGUID_GROUP :: u32 where "HIGHGUID_GROUP = 0x1F50"

lemmas highguid_defs = HIGHGUID_ITEM_def HIGHGUID_PLAYER_def HIGHGUID_GAMEOBJECT_def
  HIGHGUID_TRANSPORT_def HIGHGUID_UNIT_def HIGHGUID_PET_def HIGHGUID_VEHICLE_def
  HIGHGUID_DYNAMICOBJECT_def HIGHGUID_CORPSE_def HIGHGUID_MO_TRANSPORT_def HIGHGUID_GROUP_def

definition MAKE_NEW_GUID :: "u32 \<Rightarrow> u32 \<Rightarrow> u32 \<Rightarrow> u64" where
  "MAKE_NEW_GUID l e h = ucast l OR push_bit 24 (ucast e) OR push_bit 48 (ucast h)"

definition GUID_HIPART :: "u64 \<Rightarrow> u32" where
  "GUID_HIPART x = ucast (drop_bit 48 x AND 0x0000FFFF)"

definition GUID_ENPART_3 :: "u64 \<Rightarrow> u32" where
  "GUID_ENPART_3 x = ucast (drop_bit 24 x AND 0x0000000000FFFFFF)"

definition GUID_LOPART_2 :: "u64 \<Rightarrow> u32" where
  "GUID_LOPART_2 x = ucast (x AND 0x00000000FFFFFFFF)"

definition GUID_LOPART_3 :: "u64 \<Rightarrow> u32" where
  "GUID_LOPART_3 x = ucast (x AND 0x0000000000FFFFFF)"

definition IsGuidHaveEnPart :: "u64 \<Rightarrow> bool" where
  "IsGuidHaveEnPart guid =
     (GUID_HIPART guid \<notin> {HIGHGUID_ITEM, HIGHGUID_PLAYER, HIGHGUID_DYNAMICOBJECT,
        HIGHGUID_CORPSE, HIGHGUID_GROUP})"

definition GUID_ENPART :: "u64 \<Rightarrow> u32" where
  "GUID_ENPART x = (if IsGuidHaveEnPart x then GUID_ENPART_3 x else 0)"

definition GUID_LOPART :: "u64 \<Rightarrow> u32" where
  "GUID_LOPART x = (if IsGuidHaveEnPart x then GUID_LOPART_3 x else GUID_LOPART_2 x)"

lemma guid_masks:
  "(0xFFFF :: u64) = mask 16" "(0xFFFFFF :: u64) = mask 24" "(0xFFFFFFFF :: u64) = mask 32"
  by (simp_all add: mask_eq_decr_exp)

lemma small_word_bits:
  "(w :: u32) < 2 ^ n \<Longrightarrow> n < 32 \<Longrightarrow> bit w i \<Longrightarrow> i < n"
proof -
  assume w: "w < 2 ^ n" and n: "n < 32" and b: "bit w i"
  have "take_bit n w = w"
    using less_mask_eq [OF w] by (simp add: take_bit_eq_mask)
  with b show ?thesis by (metis bit_take_bit_iff)
qed

lemma hipart_make_new:
  assumes "l < 2 ^ 24 \<or> e = 0" and "e < 2 ^ 24" and "h < 2 ^ 16"
  shows "GUID_HIPART (MAKE_NEW_GUID l e h) = h"
proof (rule bit_word_eqI)
  fix n assume n: "n < LENGTH(32)"
  have "bit (MAKE_NEW_GUID l e h) (48 + n) \<longleftrightarrow> bit h n" if "n < 16"
    using that small_word_bits [OF assms(2), of "24 + n"] bit_imp_le_length [of l "48 + n"]
    by (auto simp: MAKE_NEW_GUID_def bit_simps)
  moreover have "bit h n \<Longrightarrow> n < 16"
    using small_word_bits [OF assms(3)] by simp
  ultimately show "bit (GUID_HIPART (MAKE_NEW_GUID l e h)) n = bit h n"
    unfolding GUID_HIPART_def guid_masks using n by (auto simp: bit_simps)
qed

lemma enpart3_make_new:
  assumes "l < 2 ^ 24" and "e < 2 ^ 24"
  shows "GUID_ENPART_3 (MAKE_NEW_GUID l e h) = e"
proof (rule bit_word_eqI)
  fix n assume n: "n < LENGTH(32)"
  have "\<not> bit l (24 + n)" using small_word_bits [OF assms(1), of "24 + n"] by auto
  moreover have "bit e n \<Longrightarrow> n < 24"
    using small_word_bits [OF assms(2)] by simp
  ultimately show "bit (GUID_ENPART_3 (MAKE_NEW_GUID l e h)) n = bit e n"
    unfolding GUID_ENPART_3_def guid_masks MAKE_NEW_GUID_def using n by (auto simp: bit_simps)
qed

lemma lopart3_make_new:
  assumes "l < 2 ^ 24"
  shows "GUID_LOPART_3 (MAKE_NEW_GUID l e h) = l"
proof (rule bit_word_eqI)
  fix n assume n: "n < LENGTH(32)"
  have "bit l n \<Longrightarrow> n < 24" using small_word_bits [OF assms] by simp
  then show "bit (GUID_LOPART_3 (MAKE_NEW_GUID l e h)) n = bit l n"
    unfolding GUID_LOPART_3_def guid_masks MAKE_NEW_GUID_def using n by (auto simp: bit_simps)
qed

lemma lopart2_make_new: "GUID_LOPART_2 (MAKE_NEW_GUID l 0 h) = l"
  unfolding GUID_LOPART_2_def guid_masks MAKE_NEW_GUID_def
  by (rule bit_word_eqI) (auto simp: bit_simps)

text \<open>
  The parts of a guid are recovered from it. For the kinds with an entry part (creatures,
  game objects, pets, vehicles, transports) the twenty-four bit counter and entry come back;
  for the kinds without one (players, items, corpses, groups, dynamic objects) the whole
  thirty-two bit counter does.
\<close>

theorem guid_parts_roundtrip:
  assumes "h < 2 ^ 16"
    and "if h \<in> {HIGHGUID_ITEM, HIGHGUID_PLAYER, HIGHGUID_DYNAMICOBJECT, HIGHGUID_CORPSE, HIGHGUID_GROUP}
      then e = 0 else l < 2 ^ 24 \<and> e < 2 ^ 24"
  shows "GUID_HIPART (MAKE_NEW_GUID l e h) = h \<and> GUID_ENPART (MAKE_NEW_GUID l e h) = e \<and>
    GUID_LOPART (MAKE_NEW_GUID l e h) = l"
proof -
  have "GUID_HIPART (MAKE_NEW_GUID l e h) = h"
    using assms by (intro hipart_make_new) (auto split: if_splits)
  with assms show ?thesis
    by (auto simp: IsGuidHaveEnPart_def GUID_ENPART_def GUID_LOPART_def
        lopart2_make_new lopart3_make_new enpart3_make_new split: if_splits)
qed

theorem guid_parts_roundtrip_witness:
  "GUID_HIPART (MAKE_NEW_GUID 0xFFFFFFFF 0 HIGHGUID_PLAYER) = HIGHGUID_PLAYER \<and>
   GUID_LOPART (MAKE_NEW_GUID 0xFFFFFFFF 0 HIGHGUID_PLAYER) = 0xFFFFFFFF \<and>
   GUID_ENPART (MAKE_NEW_GUID 77 1234 HIGHGUID_UNIT) = 1234 \<and>
   GUID_LOPART (MAKE_NEW_GUID 77 1234 HIGHGUID_UNIT) = 77"
  using guid_parts_roundtrip [of HIGHGUID_PLAYER 0 "0xFFFFFFFF"]
    guid_parts_roundtrip [of HIGHGUID_UNIT 1234 77]
  by (simp add: highguid_defs)

lemma player_guid_lopart: "GUID_LOPART (MAKE_NEW_GUID l 0 HIGHGUID_PLAYER) = l"
proof -
  have "GUID_HIPART (MAKE_NEW_GUID l 0 HIGHGUID_PLAYER) = HIGHGUID_PLAYER"
    by (rule hipart_make_new) (simp_all add: HIGHGUID_PLAYER_def)
  then show ?thesis by (simp add: GUID_LOPART_def IsGuidHaveEnPart_def lopart2_make_new)
qed

section \<open>Account levels\<close>

definition SEC_PLAYER :: u32 where "SEC_PLAYER = 0"
definition SEC_MODERATOR :: u32 where "SEC_MODERATOR = 1"
definition SEC_EVENT_MASTER :: u32 where "SEC_EVENT_MASTER = 2"
definition SEC_GAME_MASTER :: u32 where "SEC_GAME_MASTER = 3"
definition SEC_ADMINISTRATOR :: u32 where "SEC_ADMINISTRATOR = 4"
definition SEC_MAIN_ADMINISTRATOR :: u32 where "SEC_MAIN_ADMINISTRATOR = 5"
definition SEC_DEVELOPER :: u32 where "SEC_DEVELOPER = 6"
definition SEC_TECHNICAL_MASTER :: u32 where "SEC_TECHNICAL_MASTER = 7"

lemmas sec_defs = SEC_PLAYER_def SEC_MODERATOR_def SEC_EVENT_MASTER_def SEC_GAME_MASTER_def
  SEC_ADMINISTRATOR_def SEC_MAIN_ADMINISTRATOR_def SEC_DEVELOPER_def SEC_TECHNICAL_MASTER_def

definition IsPlayerAccount :: "u32 \<Rightarrow> bool" where
  "IsPlayerAccount gmlevel \<longleftrightarrow> gmlevel = SEC_PLAYER"

definition IsModeratorAccount :: "u32 \<Rightarrow> bool" where
  "IsModeratorAccount gmlevel \<longleftrightarrow> gmlevel \<ge> SEC_MODERATOR \<and> gmlevel \<le> SEC_TECHNICAL_MASTER"

definition IsEventMasterAccount :: "u32 \<Rightarrow> bool" where
  "IsEventMasterAccount gmlevel \<longleftrightarrow> gmlevel \<ge> SEC_EVENT_MASTER \<and> gmlevel \<le> SEC_TECHNICAL_MASTER"

definition IsGMAccount :: "u32 \<Rightarrow> bool" where
  "IsGMAccount gmlevel \<longleftrightarrow> gmlevel \<ge> SEC_GAME_MASTER \<and> gmlevel \<le> SEC_TECHNICAL_MASTER"

definition IsAdminAccount :: "u32 \<Rightarrow> bool" where
  "IsAdminAccount gmlevel \<longleftrightarrow> gmlevel \<ge> SEC_ADMINISTRATOR \<and> gmlevel \<le> SEC_TECHNICAL_MASTER"

definition IsMainAdministratorAccount :: "u32 \<Rightarrow> bool" where
  "IsMainAdministratorAccount gmlevel \<longleftrightarrow>
     gmlevel = SEC_MAIN_ADMINISTRATOR \<and> gmlevel \<le> SEC_TECHNICAL_MASTER"

definition IsDeveloperAccount :: "u32 \<Rightarrow> bool" where
  "IsDeveloperAccount gmlevel \<longleftrightarrow> gmlevel = SEC_DEVELOPER \<and> gmlevel \<le> SEC_TECHNICAL_MASTER"

definition IsTechSupportAccount :: "u32 \<Rightarrow> bool" where
  "IsTechSupportAccount gmlevel \<longleftrightarrow> gmlevel = SEC_TECHNICAL_MASTER"

lemmas account_defs = IsPlayerAccount_def IsModeratorAccount_def IsEventMasterAccount_def
  IsGMAccount_def IsAdminAccount_def IsMainAdministratorAccount_def IsDeveloperAccount_def
  IsTechSupportAccount_def

lemma gm_not_player [simp]: "IsGMAccount s \<Longrightarrow> \<not> IsPlayerAccount s"
  by (auto simp: account_defs sec_defs)

lemma player_level_not_gm [simp]: "\<not> IsGMAccount SEC_PLAYER"
  by (simp add: account_defs sec_defs)

end
