(* ===== verification/Text_Util.thy ===== *)
theory Text_Util
  imports Base
begin

text \<open>
  Text helpers of \<open>src/src/server/shared/Utilities/Util.cpp\<close> and of the C library that the
  components use: NUL-terminated views of strings, the \<open>Tokens\<close> splitter, decimal printing
  through a stream and \<open>atol\<close>.
\<close>

section \<open>C strings\<close>

definition NUL :: char where "NUL = CHR 0x00"

definition c_str :: "string \<Rightarrow> string" where
  "c_str s = takeWhile (\<lambda>c. c \<noteq> NUL) s"

lemma c_str_id: "NUL \<notin> set s \<Longrightarrow> c_str s = s"
  by (auto simp: c_str_def takeWhile_eq_all_conv)

lemma c_str_idem [simp]: "c_str (c_str s) = c_str s"
  by (simp add: c_str_def)

section \<open>Tokens\<close>

text \<open>
  The loop of \<open>Tokens::Tokens\<close>: \<open>cur\<close> is the text from \<open>posold\<close> up to \<open>posnew\<close>. A token
  that a separator ends is kept even when it is empty, a trailing empty one is not.
\<close>

fun Tokens_loop :: "char \<Rightarrow> string \<Rightarrow> string \<Rightarrow> string list" where
  "Tokens_loop sep cur [] = (if cur = [] then [] else [cur])"
| "Tokens_loop sep cur (c # s) =
     (if c = sep then cur # Tokens_loop sep [] s
      else if c = NUL then (if cur = [] then [] else [cur])
      else Tokens_loop sep (cur @ [c]) s)"

definition Tokens :: "string \<Rightarrow> char \<Rightarrow> string list" where
  "Tokens src sep = Tokens_loop sep [] src"

lemma Tokens_loop_word:
  "sep \<notin> set w \<Longrightarrow> NUL \<notin> set w \<Longrightarrow>
   Tokens_loop sep cur (w @ sep # s) = (cur @ w) # Tokens_loop sep [] s"
  by (induction w arbitrary: cur) auto

lemma Tokens_words:
  assumes "\<And>w. w \<in> set ws \<Longrightarrow> sep \<notin> set w \<and> NUL \<notin> set w"
  shows "Tokens (concat (map (\<lambda>w. w @ [sep]) ws)) sep = ws"
  using assms by (induction ws) (auto simp: Tokens_def Tokens_loop_word)

section \<open>Decimal numbers\<close>

definition digit_char :: "nat \<Rightarrow> char" where
  "digit_char d = char_of (48 + d)"

definition digit_value :: "char \<Rightarrow> nat" where
  "digit_value c = of_char c - 48"

definition is_digit :: "char \<Rightarrow> bool" where
  "is_digit c \<longleftrightarrow> 48 \<le> (of_char c :: nat) \<and> (of_char c :: nat) \<le> 57"

text \<open>\<open>std::ostream << n\<close> for an unsigned integer.\<close>

fun show_nat :: "nat \<Rightarrow> string" where
  "show_nat n = (if n < 10 then [digit_char n] else show_nat (n div 10) @ [digit_char (n mod 10)])"

declare show_nat.simps [simp del]

text \<open>\<open>atol\<close>: white space, an optional sign, digits; a value out of range saturates.\<close>

definition is_space :: "char \<Rightarrow> bool" where
  "is_space c \<longleftrightarrow> c = CHR '' '' \<or> (9 \<le> (of_char c :: nat) \<and> (of_char c :: nat) \<le> 13)"

definition parse_digits :: "string \<Rightarrow> nat" where
  "parse_digits s = fold (\<lambda>c a. a * 10 + digit_value c) (takeWhile is_digit s) 0"

definition clamp_long :: "int \<Rightarrow> int" where
  "clamp_long x = (if x < - (2 ^ 63) then - (2 ^ 63) else if 2 ^ 63 - 1 < x then 2 ^ 63 - 1 else x)"

definition atol :: "string \<Rightarrow> int" where
  "atol s = (case dropWhile is_space s of
       [] \<Rightarrow> 0
     | c # r \<Rightarrow>
         if c = CHR ''-'' then clamp_long (- int (parse_digits r))
         else if c = CHR ''+'' then clamp_long (int (parse_digits r))
         else clamp_long (int (parse_digits (c # r))))"

lemma of_char_digit [simp]: "d < 10 \<Longrightarrow> (of_char (digit_char d) :: nat) = 48 + d"
  by (simp add: digit_char_def)

lemma is_digit_digit_char [simp]: "d < 10 \<Longrightarrow> is_digit (digit_char d)"
  by (simp add: is_digit_def)

lemma digit_value_digit_char [simp]: "d < 10 \<Longrightarrow> digit_value (digit_char d) = d"
  by (simp add: digit_value_def)

lemma show_nat_digits: "c \<in> set (show_nat n) \<Longrightarrow> is_digit c"
proof (induction n rule: show_nat.induct)
  case (1 n)
  then show ?case by (subst (asm) (2) show_nat.simps) (auto split: if_splits)
qed

lemma show_nat_not_Nil [simp]: "show_nat n \<noteq> []"
  by (subst show_nat.simps) simp

lemma is_digit_plain: "is_digit c \<Longrightarrow> c \<noteq> CHR '' '' \<and> c \<noteq> NUL \<and> c \<noteq> CHR ''-'' \<and> c \<noteq> CHR ''+'' \<and> \<not> is_space c"
  by (auto simp: is_digit_def is_space_def NUL_def)

lemma parse_show_nat: "parse_digits (show_nat n) = n"
proof -
  have "fold (\<lambda>c a. a * 10 + digit_value c) (show_nat n) 0 = n"
  proof (induction n rule: show_nat.induct)
    case (1 n)
    then show ?case by (subst show_nat.simps) auto
  qed
  moreover have "takeWhile is_digit (show_nat n) = show_nat n"
    using show_nat_digits by (auto simp: takeWhile_eq_all_conv)
  ultimately show ?thesis by (simp only: parse_digits_def)
qed

lemma atol_show_nat:
  assumes "n < 2 ^ 63"
  shows "atol (show_nat n) = int n"
proof -
  obtain c r where cr: "show_nat n = c # r" by (cases "show_nat n") auto
  then have "is_digit c" using show_nat_digits [of c n] by simp
  then have "dropWhile is_space (show_nat n) = c # r" "c \<noteq> CHR ''-''" "c \<noteq> CHR ''+''"
    using cr is_digit_plain by auto
  then show ?thesis
    using assms parse_show_nat [of n] cr by (simp add: atol_def clamp_long_def)
qed

end
