(* ===== verification/Channel.thy ===== *)
theory Channel
  imports World_Packet Guid_Types Std_Map Text_Util
begin

text \<open>
  Chat channels: \<open>src/src/server/game/Chat/Channels/Channel.h\<close> and \<open>Channel.cpp\<close>. The state
  of a channel is the record \<open>channel\<close>; what it does to the outside (packets handed to a
  session, prepared statements executed, calls back into \<open>Player\<close>) is appended to the trace
  \<open>ch_out\<close>, in order. The rest of the server the channel looks at (who is online, the
  configuration, the client data stores, the database row) is the record \<open>chan_env\<close>.
\<close>

section \<open>Constants\<close>

datatype ChatNotify =
    CHAT_JOINED_NOTICE | CHAT_LEFT_NOTICE | CHAT_YOU_JOINED_NOTICE | CHAT_YOU_LEFT_NOTICE
  | CHAT_WRONG_PASSWORD_NOTICE | CHAT_NOT_MEMBER_NOTICE | CHAT_NOT_MODERATOR_NOTICE
  | CHAT_PASSWORD_CHANGED_NOTICE | CHAT_OWNER_CHANGED_NOTICE | CHAT_PLAYER_NOT_FOUND_NOTICE
  | CHAT_NOT_OWNER_NOTICE | CHAT_CHANNEL_OWNER_NOTICE | CHAT_MODE_CHANGE_NOTICE
  | CHAT_ANNOUNCEMENTS_ON_NOTICE | CHAT_ANNOUNCEMENTS_OFF_NOTICE | CHAT_MUTED_NOTICE
  | CHAT_PLAYER_KICKED_NOTICE | CHAT_BANNED_NOTICE | CHAT_PLAYER_BANNED_NOTICE
  | CHAT_PLAYER_UNBANNED_NOTICE | CHAT_PLAYER_NOT_BANNED_NOTICE
  | CHAT_PLAYER_ALREADY_MEMBER_NOTICE | CHAT_INVITE_NOTICE | CHAT_INVITE_WRONG_FACTION_NOTICE
  | CHAT_WRONG_FACTION_NOTICE | CHAT_INVALID_NAME_NOTICE | CHAT_NOT_MODERATED_NOTICE
  | CHAT_PLAYER_INVITED_NOTICE | CHAT_PLAYER_INVITE_BANNED_NOTICE | CHAT_THROTTLED_NOTICE
  | CHAT_NOT_IN_AREA_NOTICE | CHAT_NOT_IN_LFG_NOTICE | CHAT_VOICE_ON_NOTICE
  | CHAT_VOICE_OFF_NOTICE

fun chat_notify_code :: "ChatNotify \<Rightarrow> u8" where
  "chat_notify_code CHAT_JOINED_NOTICE = 0x00"
| "chat_notify_code CHAT_LEFT_NOTICE = 0x01"
| "chat_notify_code CHAT_YOU_JOINED_NOTICE = 0x02"
| "chat_notify_code CHAT_YOU_LEFT_NOTICE = 0x03"
| "chat_notify_code CHAT_WRONG_PASSWORD_NOTICE = 0x04"
| "chat_notify_code CHAT_NOT_MEMBER_NOTICE = 0x05"
| "chat_notify_code CHAT_NOT_MODERATOR_NOTICE = 0x06"
| "chat_notify_code CHAT_PASSWORD_CHANGED_NOTICE = 0x07"
| "chat_notify_code CHAT_OWNER_CHANGED_NOTICE = 0x08"
| "chat_notify_code CHAT_PLAYER_NOT_FOUND_NOTICE = 0x09"
| "chat_notify_code CHAT_NOT_OWNER_NOTICE = 0x0A"
| "chat_notify_code CHAT_CHANNEL_OWNER_NOTICE = 0x0B"
| "chat_notify_code CHAT_MODE_CHANGE_NOTICE = 0x0C"
| "chat_notify_code CHAT_ANNOUNCEMENTS_ON_NOTICE = 0x0D"
| "chat_notify_code CHAT_ANNOUNCEMENTS_OFF_NOTICE = 0x0E"
| "chat_notify_code CHAT_MUTED_NOTICE = 0x11"
| "chat_notify_code CHAT_PLAYER_KICKED_NOTICE = 0x12"
| "chat_notify_code CHAT_BANNED_NOTICE = 0x13"
| "chat_notify_code CHAT_PLAYER_BANNED_NOTICE = 0x14"
| "chat_notify_code CHAT_PLAYER_UNBANNED_NOTICE = 0x15"
| "chat_notify_code CHAT_PLAYER_NOT_BANNED_NOTICE = 0x16"
| "chat_notify_code CHAT_PLAYER_ALREADY_MEMBER_NOTICE = 0x17"
| "chat_notify_code CHAT_INVITE_NOTICE = 0x18"
| "chat_notify_code CHAT_INVITE_WRONG_FACTION_NOTICE = 0x19"
| "chat_notify_code CHAT_WRONG_FACTION_NOTICE = 0x1A"
| "chat_notify_code CHAT_INVALID_NAME_NOTICE = 0x1B"
| "chat_notify_code CHAT_NOT_MODERATED_NOTICE = 0x1C"
| "chat_notify_code CHAT_PLAYER_INVITED_NOTICE = 0x1D"
| "chat_notify_code CHAT_PLAYER_INVITE_BANNED_NOTICE = 0x1E"
| "chat_notify_code CHAT_THROTTLED_NOTICE = 0x1F"
| "chat_notify_code CHAT_NOT_IN_AREA_NOTICE = 0x20"
| "chat_notify_code CHAT_NOT_IN_LFG_NOTICE = 0x21"
| "chat_notify_code CHAT_VOICE_ON_NOTICE = 0x22"
| "chat_notify_code CHAT_VOICE_OFF_NOTICE = 0x23"

definition CHANNEL_FLAG_CUSTOM :: u8 where "CHANNEL_FLAG_CUSTOM = 0x01"
definition CHANNEL_FLAG_TRADE :: u8 where "CHANNEL_FLAG_TRADE = 0x04"
definition CHANNEL_FLAG_NOT_LFG :: u8 where "CHANNEL_FLAG_NOT_LFG = 0x08"
definition CHANNEL_FLAG_GENERAL :: u8 where "CHANNEL_FLAG_GENERAL = 0x10"
definition CHANNEL_FLAG_CITY :: u8 where "CHANNEL_FLAG_CITY = 0x20"
definition CHANNEL_FLAG_LFG :: u8 where "CHANNEL_FLAG_LFG = 0x40"

definition CHANNEL_DBC_FLAG_TRADE :: u32 where "CHANNEL_DBC_FLAG_TRADE = 0x00008"
definition CHANNEL_DBC_FLAG_CITY_ONLY2 :: u32 where "CHANNEL_DBC_FLAG_CITY_ONLY2 = 0x00020"
definition CHANNEL_DBC_FLAG_LFG :: u32 where "CHANNEL_DBC_FLAG_LFG = 0x40000"

definition MEMBER_FLAG_NONE :: u8 where "MEMBER_FLAG_NONE = 0x00"
definition MEMBER_FLAG_OWNER :: u8 where "MEMBER_FLAG_OWNER = 0x01"
definition MEMBER_FLAG_MODERATOR :: u8 where "MEMBER_FLAG_MODERATOR = 0x02"
definition MEMBER_FLAG_MUTED :: u8 where "MEMBER_FLAG_MUTED = 0x08"

lemmas channel_flag_defs = CHANNEL_FLAG_CUSTOM_def CHANNEL_FLAG_TRADE_def CHANNEL_FLAG_NOT_LFG_def
  CHANNEL_FLAG_GENERAL_def CHANNEL_FLAG_CITY_def CHANNEL_FLAG_LFG_def CHANNEL_DBC_FLAG_TRADE_def
  CHANNEL_DBC_FLAG_CITY_ONLY2_def CHANNEL_DBC_FLAG_LFG_def

lemmas member_flag_defs = MEMBER_FLAG_NONE_def MEMBER_FLAG_OWNER_def MEMBER_FLAG_MODERATOR_def
  MEMBER_FLAG_MUTED_def

definition SMSG_MESSAGECHAT :: u16 where "SMSG_MESSAGECHAT = 0x096"
definition SMSG_CHANNEL_NOTIFY :: u16 where "SMSG_CHANNEL_NOTIFY = 0x099"
definition SMSG_CHANNEL_LIST :: u16 where "SMSG_CHANNEL_LIST = 0x09B"
definition SMSG_USERLIST_ADD :: u16 where "SMSG_USERLIST_ADD = 0x3F0"
definition SMSG_USERLIST_REMOVE :: u16 where "SMSG_USERLIST_REMOVE = 0x3F1"
definition SMSG_USERLIST_UPDATE :: u16 where "SMSG_USERLIST_UPDATE = 0x3F2"
definition CHAT_MSG_CHANNEL :: u8 where "CHAT_MSG_CHANNEL = 0x11"
definition LANG_UNIVERSAL :: u32 where "LANG_UNIVERSAL = 0"

section \<open>State and surroundings\<close>

record PlayerInfo =
  pi_player :: u64
  pi_flags :: u8

definition IsOwner :: "PlayerInfo \<Rightarrow> bool" where
  "IsOwner i = has_flag (pi_flags i) MEMBER_FLAG_OWNER"

definition IsModerator :: "PlayerInfo \<Rightarrow> bool" where
  "IsModerator i = has_flag (pi_flags i) MEMBER_FLAG_MODERATOR"

definition IsMuted :: "PlayerInfo \<Rightarrow> bool" where
  "IsMuted i = has_flag (pi_flags i) MEMBER_FLAG_MUTED"

definition set_pi_flag :: "u8 \<Rightarrow> bool \<Rightarrow> PlayerInfo \<Rightarrow> PlayerInfo" where
  "set_pi_flag f state i = i\<lparr>pi_flags := (if state then pi_flags i OR f else pi_flags i AND NOT f)\<rparr>"

definition pi_SetOwner :: "bool \<Rightarrow> PlayerInfo \<Rightarrow> PlayerInfo" where
  "pi_SetOwner = set_pi_flag MEMBER_FLAG_OWNER"

definition pi_SetModerator :: "bool \<Rightarrow> PlayerInfo \<Rightarrow> PlayerInfo" where
  "pi_SetModerator = set_pi_flag MEMBER_FLAG_MODERATOR"

definition pi_SetMuted :: "bool \<Rightarrow> PlayerInfo \<Rightarrow> PlayerInfo" where
  "pi_SetMuted = set_pi_flag MEMBER_FLAG_MUTED"

text \<open>
  What a channel does to the outside: a packet given to the session of a player, the two
  callbacks into \<open>Player\<close>, and the statements it executes.
\<close>

datatype chan_effect =
    SendPacket u64 packet
  | JoinedChannel u64
  | LeftChannel u64
  | InsChannel string u32
  | UpdChannel bool bool string string string u32
  | UpdChannelUsage string u32
  | DelOldChannels u32

record channel =
  ch_players :: "(u64, PlayerInfo) smap"
  ch_banned :: "(u64, unit) smap"
  ch_announce :: bool
  ch_ownership :: bool
  ch_name :: string
  ch_password :: string
  ch_flags :: u8
  ch_channelId :: u32
  ch_ownerGUID :: u64
  ch_IsSaved :: bool
  ch_Team :: u32
  ch_out :: "chan_effect list"

text \<open>What the channel asks of a \<open>Player\<close> that is in the world.\<close>

record chan_player =
  pl_guid :: u64
  pl_name :: string
  pl_security :: u32
  pl_team :: u32
  pl_in_group :: bool
  pl_ignores :: "u32 list"
  pl_gm_visible :: bool
  pl_chat_tag :: u8
  pl_visible_for :: "u64 \<Rightarrow> bool"

record chan_env =
  FindPlayer :: "u64 \<Rightarrow> chan_player option"
  FindPlayerByName :: "string \<Rightarrow> chan_player option"
  GetPlayerNameByGUID :: "u64 \<Rightarrow> string option"
  two_side_channels :: bool
  silent_gm_join :: bool
  restricted_lfg :: bool
  preserve_channels :: bool
  gm_level_in_who :: u32
  chat_channels :: "u32 \<Rightarrow> u32 option"
  channel_row :: "string \<Rightarrow> u32 \<Rightarrow> (bool \<times> bool \<times> string \<times> string option) option"

text \<open>The accessor functions look up what they are asked for.\<close>

definition env_ok :: "chan_env \<Rightarrow> bool" where
  "env_ok e \<longleftrightarrow>
     (\<forall>g p. FindPlayer e g = Some p \<longrightarrow> pl_guid p = g) \<and>
     (\<forall>n p. FindPlayerByName e n = Some p \<longrightarrow> pl_guid p \<noteq> 0)"

definition HasIgnore :: "chan_player \<Rightarrow> u32 \<Rightarrow> bool" where
  "HasIgnore p low \<longleftrightarrow> low \<in> set (pl_ignores p)"

definition security_of :: "chan_env \<Rightarrow> u64 \<Rightarrow> u32" where
  "security_of e g = (case FindPlayer e g of Some p \<Rightarrow> pl_security p | None \<Rightarrow> SEC_PLAYER)"

definition emit :: "chan_effect list \<Rightarrow> channel \<Rightarrow> channel" where
  "emit es c = c\<lparr>ch_out := ch_out c @ es\<rparr>"

section \<open>The inline members\<close>

definition IsOn :: "channel \<Rightarrow> u64 \<Rightarrow> bool" where
  "IsOn c who \<longleftrightarrow> sm_find (ch_players c) who \<noteq> None"

definition IsBanned :: "channel \<Rightarrow> u64 \<Rightarrow> bool" where
  "IsBanned c guid \<longleftrightarrow> sm_find (ch_banned c) guid \<noteq> None"

definition IsConstant :: "channel \<Rightarrow> bool" where
  "IsConstant c \<longleftrightarrow> ch_channelId c \<noteq> 0"

definition ch_HasFlag :: "channel \<Rightarrow> u8 \<Rightarrow> bool" where
  "ch_HasFlag c f = has_flag (ch_flags c) f"

definition IsLFG :: "channel \<Rightarrow> bool" where
  "IsLFG c = has_flag (ch_flags c) CHANNEL_FLAG_LFG"

definition GetNumPlayers :: "channel \<Rightarrow> u32" where
  "GetNumPlayers c = of_nat (length (ch_players c))"

definition GetPlayerFlags :: "channel \<Rightarrow> u64 \<Rightarrow> u8" where
  "GetPlayerFlags c p = (case sm_find (ch_players c) p of None \<Rightarrow> 0 | Some i \<Rightarrow> pi_flags i)"

text \<open>
  \<open>players[k]\<close>: the entry of \<open>k\<close>, value-initialised (a zero guid and no flag) when there is
  none; an update through it inserts that entry.
\<close>

definition player_ref :: "channel \<Rightarrow> u64 \<Rightarrow> PlayerInfo" where
  "player_ref c k = (case sm_find (ch_players c) k of
      Some i \<Rightarrow> i | None \<Rightarrow> \<lparr>pi_player = 0, pi_flags = 0\<rparr>)"

definition player_upd :: "u64 \<Rightarrow> (PlayerInfo \<Rightarrow> PlayerInfo) \<Rightarrow> channel \<Rightarrow> channel" where
  "player_upd k f c = c\<lparr>ch_players := sm_put k (f (player_ref c k)) (ch_players c)\<rparr>"

definition SetOwnership :: "bool \<Rightarrow> channel \<Rightarrow> channel" where
  "SetOwnership b c = c\<lparr>ch_ownership := b\<rparr>"

section \<open>Sending\<close>

definition all_recipients :: "chan_env \<Rightarrow> u64 \<Rightarrow> channel \<Rightarrow> u64 list" where
  "all_recipients e p c = filter (\<lambda>k. case FindPlayer e k of
       None \<Rightarrow> False
     | Some pl \<Rightarrow> p = 0 \<or> \<not> HasIgnore pl (GUID_LOPART p)) (sm_keys (ch_players c))"

definition SendToAll :: "chan_env \<Rightarrow> packet \<Rightarrow> u64 \<Rightarrow> channel \<Rightarrow> channel" where
  "SendToAll e data p c = emit (map (\<lambda>k. SendPacket k data) (all_recipients e p c)) c"

definition SendToAllButOne :: "chan_env \<Rightarrow> packet \<Rightarrow> u64 \<Rightarrow> channel \<Rightarrow> channel" where
  "SendToAllButOne e data who c =
     emit (map (\<lambda>k. SendPacket k data)
       (filter (\<lambda>k. k \<noteq> who \<and> FindPlayer e k \<noteq> None) (sm_keys (ch_players c)))) c"

definition SendToOne :: "chan_env \<Rightarrow> packet \<Rightarrow> u64 \<Rightarrow> channel \<Rightarrow> channel" where
  "SendToOne e data who c =
     (case FindPlayer e who of None \<Rightarrow> c | Some _ \<Rightarrow> emit [SendPacket who data] c)"

section \<open>Packets\<close>

definition MakeNotifyPacket :: "ChatNotify \<Rightarrow> field list \<Rightarrow> channel \<Rightarrow> packet" where
  "MakeNotifyPacket t fs c =
     \<lparr>pk_opcode = SMSG_CHANNEL_NOTIFY, pk_fields = [F8 (chat_notify_code t), FStr (ch_name c)] @ fs\<rparr>"

definition MakeJoined :: "u64 \<Rightarrow> channel \<Rightarrow> packet" where
  "MakeJoined g = MakeNotifyPacket CHAT_JOINED_NOTICE [F64 g]"

definition MakeLeft :: "u64 \<Rightarrow> channel \<Rightarrow> packet" where
  "MakeLeft g = MakeNotifyPacket CHAT_LEFT_NOTICE [F64 g]"

definition MakeYouJoined :: "channel \<Rightarrow> packet" where
  "MakeYouJoined c =
     MakeNotifyPacket CHAT_YOU_JOINED_NOTICE [F8 (ch_flags c), F32 (ch_channelId c), F32 0] c"

definition MakeYouLeft :: "channel \<Rightarrow> packet" where
  "MakeYouLeft c =
     MakeNotifyPacket CHAT_YOU_LEFT_NOTICE [F32 (ch_channelId c), F8 (if IsConstant c then 1 else 0)] c"

definition MakeWrongPassword :: "channel \<Rightarrow> packet" where
  "MakeWrongPassword = MakeNotifyPacket CHAT_WRONG_PASSWORD_NOTICE []"

definition MakeNotMember :: "channel \<Rightarrow> packet" where
  "MakeNotMember = MakeNotifyPacket CHAT_NOT_MEMBER_NOTICE []"

definition MakeNotModerator :: "channel \<Rightarrow> packet" where
  "MakeNotModerator = MakeNotifyPacket CHAT_NOT_MODERATOR_NOTICE []"

definition MakePasswordChanged :: "u64 \<Rightarrow> channel \<Rightarrow> packet" where
  "MakePasswordChanged g = MakeNotifyPacket CHAT_PASSWORD_CHANGED_NOTICE [F64 g]"

definition MakeOwnerChanged :: "u64 \<Rightarrow> channel \<Rightarrow> packet" where
  "MakeOwnerChanged g = MakeNotifyPacket CHAT_OWNER_CHANGED_NOTICE [F64 g]"

definition MakePlayerNotFound :: "string \<Rightarrow> channel \<Rightarrow> packet" where
  "MakePlayerNotFound name = MakeNotifyPacket CHAT_PLAYER_NOT_FOUND_NOTICE [FStr name]"

definition MakeNotOwner :: "channel \<Rightarrow> packet" where
  "MakeNotOwner = MakeNotifyPacket CHAT_NOT_OWNER_NOTICE []"

definition MakeChannelOwner :: "chan_env \<Rightarrow> channel \<Rightarrow> packet" where
  "MakeChannelOwner e c =
     (let name = (case GetPlayerNameByGUID e (ch_ownerGUID c) of
          None \<Rightarrow> ''PLAYER_NOT_FOUND''
        | Some n \<Rightarrow> if n = [] then ''PLAYER_NOT_FOUND'' else n)
      in MakeNotifyPacket CHAT_CHANNEL_OWNER_NOTICE
           [FStr (if IsConstant c \<or> ch_ownerGUID c = 0 then ''Nobody'' else name)] c)"

definition MakeModeChange :: "u64 \<Rightarrow> u8 \<Rightarrow> channel \<Rightarrow> packet" where
  "MakeModeChange g oldflags c =
     MakeNotifyPacket CHAT_MODE_CHANGE_NOTICE [F64 g, F8 oldflags, F8 (GetPlayerFlags c g)] c"

definition MakeAnnouncementsOn :: "u64 \<Rightarrow> channel \<Rightarrow> packet" where
  "MakeAnnouncementsOn g = MakeNotifyPacket CHAT_ANNOUNCEMENTS_ON_NOTICE [F64 g]"

definition MakeAnnouncementsOff :: "u64 \<Rightarrow> channel \<Rightarrow> packet" where
  "MakeAnnouncementsOff g = MakeNotifyPacket CHAT_ANNOUNCEMENTS_OFF_NOTICE [F64 g]"

definition MakeMuted :: "channel \<Rightarrow> packet" where
  "MakeMuted = MakeNotifyPacket CHAT_MUTED_NOTICE []"

definition MakePlayerKicked :: "u64 \<Rightarrow> u64 \<Rightarrow> channel \<Rightarrow> packet" where
  "MakePlayerKicked bad good = MakeNotifyPacket CHAT_PLAYER_KICKED_NOTICE [F64 bad, F64 good]"

definition MakeBanned :: "channel \<Rightarrow> packet" where
  "MakeBanned = MakeNotifyPacket CHAT_BANNED_NOTICE []"

definition MakePlayerBanned :: "u64 \<Rightarrow> u64 \<Rightarrow> channel \<Rightarrow> packet" where
  "MakePlayerBanned bad good = MakeNotifyPacket CHAT_PLAYER_BANNED_NOTICE [F64 bad, F64 good]"

definition MakePlayerUnbanned :: "u64 \<Rightarrow> u64 \<Rightarrow> channel \<Rightarrow> packet" where
  "MakePlayerUnbanned bad good = MakeNotifyPacket CHAT_PLAYER_UNBANNED_NOTICE [F64 bad, F64 good]"

definition MakePlayerNotBanned :: "string \<Rightarrow> channel \<Rightarrow> packet" where
  "MakePlayerNotBanned name = MakeNotifyPacket CHAT_PLAYER_NOT_BANNED_NOTICE [FStr name]"

definition MakePlayerAlreadyMember :: "u64 \<Rightarrow> channel \<Rightarrow> packet" where
  "MakePlayerAlreadyMember g = MakeNotifyPacket CHAT_PLAYER_ALREADY_MEMBER_NOTICE [F64 g]"

definition MakeInvite :: "u64 \<Rightarrow> channel \<Rightarrow> packet" where
  "MakeInvite g = MakeNotifyPacket CHAT_INVITE_NOTICE [F64 g]"

definition MakeInviteWrongFaction :: "channel \<Rightarrow> packet" where
  "MakeInviteWrongFaction = MakeNotifyPacket CHAT_INVITE_WRONG_FACTION_NOTICE []"

definition MakeWrongFaction :: "channel \<Rightarrow> packet" where
  "MakeWrongFaction = MakeNotifyPacket CHAT_WRONG_FACTION_NOTICE []"

definition MakeInvalidName :: "channel \<Rightarrow> packet" where
  "MakeInvalidName = MakeNotifyPacket CHAT_INVALID_NAME_NOTICE []"

definition MakeNotModerated :: "channel \<Rightarrow> packet" where
  "MakeNotModerated = MakeNotifyPacket CHAT_NOT_MODERATED_NOTICE []"

definition MakePlayerInvited :: "string \<Rightarrow> channel \<Rightarrow> packet" where
  "MakePlayerInvited name = MakeNotifyPacket CHAT_PLAYER_INVITED_NOTICE [FStr name]"

definition MakePlayerInviteBanned :: "string \<Rightarrow> channel \<Rightarrow> packet" where
  "MakePlayerInviteBanned name = MakeNotifyPacket CHAT_PLAYER_INVITE_BANNED_NOTICE [FStr name]"

definition MakeThrottled :: "channel \<Rightarrow> packet" where
  "MakeThrottled = MakeNotifyPacket CHAT_THROTTLED_NOTICE []"

definition MakeNotInArea :: "channel \<Rightarrow> packet" where
  "MakeNotInArea = MakeNotifyPacket CHAT_NOT_IN_AREA_NOTICE []"

definition MakeNotInLfg :: "channel \<Rightarrow> packet" where
  "MakeNotInLfg = MakeNotifyPacket CHAT_NOT_IN_LFG_NOTICE []"

definition MakeVoiceOn :: "u64 \<Rightarrow> channel \<Rightarrow> packet" where
  "MakeVoiceOn g = MakeNotifyPacket CHAT_VOICE_ON_NOTICE [F64 g]"

definition MakeVoiceOff :: "u64 \<Rightarrow> channel \<Rightarrow> packet" where
  "MakeVoiceOff g = MakeNotifyPacket CHAT_VOICE_OFF_NOTICE [F64 g]"

definition userlist_packet :: "u16 \<Rightarrow> field list \<Rightarrow> channel \<Rightarrow> packet" where
  "userlist_packet opcode fs c = \<lparr>pk_opcode = opcode,
     pk_fields = fs @ [F8 (ch_flags c), F32 (GetNumPlayers c), FStr (ch_name c)]\<rparr>"

definition JoinNotify :: "chan_env \<Rightarrow> u64 \<Rightarrow> channel \<Rightarrow> channel" where
  "JoinNotify e guid c =
     (let fs = [F64 guid, F8 (GetPlayerFlags c guid)] in
      if IsConstant c then SendToAllButOne e (userlist_packet SMSG_USERLIST_ADD fs c) guid c
      else SendToAll e (userlist_packet SMSG_USERLIST_UPDATE fs c) 0 c)"

definition LeaveNotify :: "chan_env \<Rightarrow> u64 \<Rightarrow> channel \<Rightarrow> channel" where
  "LeaveNotify e guid c =
     (let data = userlist_packet SMSG_USERLIST_REMOVE [F64 guid] c in
      if IsConstant c then SendToAllButOne e data guid c else SendToAll e data 0 c)"

section \<open>The database\<close>

definition banlist_string :: "(u64, unit) smap \<Rightarrow> string" where
  "banlist_string b = concat (map (\<lambda>g. show_nat (unat g) @ '' '') (sm_keys b))"

definition UpdateChannelInDB :: "channel \<Rightarrow> channel" where
  "UpdateChannelInDB c =
     (if ch_IsSaved c then
        emit [UpdChannel (ch_announce c) (ch_ownership c) (ch_password c)
                (banlist_string (ch_banned c)) (ch_name c) (ch_Team c)] c
      else c)"

definition UpdateChannelUseageInDB :: "channel \<Rightarrow> channel" where
  "UpdateChannelUseageInDB c = emit [UpdChannelUsage (ch_name c) (ch_Team c)] c"

definition DAY :: u32 where "DAY = 86400"

definition CleanOldChannelsInDB :: "u32 \<Rightarrow> chan_effect list" where
  "CleanOldChannelsInDB duration = (if 0 < duration then [DelOldChannels (duration * DAY)] else [])"

definition load_banlist :: "string \<Rightarrow> (u64, unit) smap" where
  "load_banlist s = fold (\<lambda>tok b. let banned_guid = (word_of_int (atol tok) :: u64) in
       if banned_guid \<noteq> 0 then sm_put banned_guid () b else b) (Tokens s CHR '' '') []"

definition new_channel :: "chan_env \<Rightarrow> string \<Rightarrow> u32 \<Rightarrow> u32 \<Rightarrow> channel" where
  "new_channel e name channel_id Team =
     (let c = \<lparr>ch_players = [], ch_banned = [], ch_announce = True, ch_ownership = True,
         ch_name = name, ch_password = '''', ch_flags = 0, ch_channelId = channel_id,
         ch_ownerGUID = 0, ch_IsSaved = False, ch_Team = Team, ch_out = []\<rparr> in
      case chat_channels e channel_id of
        Some dbc \<Rightarrow>
          (let f0 = CHANNEL_FLAG_GENERAL;
               f1 = (if has_flag dbc CHANNEL_DBC_FLAG_TRADE then f0 OR CHANNEL_FLAG_TRADE else f0);
               f2 = (if has_flag dbc CHANNEL_DBC_FLAG_CITY_ONLY2 then f1 OR CHANNEL_FLAG_CITY else f1);
               f3 = (if has_flag dbc CHANNEL_DBC_FLAG_LFG then f2 OR CHANNEL_FLAG_LFG
                     else f2 OR CHANNEL_FLAG_NOT_LFG)
           in c\<lparr>ch_announce := False, ch_ownership := False, ch_flags := f3\<rparr>)
      | None \<Rightarrow>
          (let c1 = c\<lparr>ch_flags := CHANNEL_FLAG_CUSTOM\<rparr> in
           if preserve_channels e then
             (case channel_row e name Team of
                Some (announce, ownership, password, bannedList) \<Rightarrow>
                  c1\<lparr>ch_announce := announce, ch_ownership := ownership, ch_password := password,
                     ch_banned := (case bannedList of None \<Rightarrow> [] | Some s \<Rightarrow> load_banlist s),
                     ch_IsSaved := True\<rparr>
              | None \<Rightarrow> (emit [InsChannel name Team] c1)\<lparr>ch_IsSaved := True\<rparr>)
           else c1))"

section \<open>The operations\<close>

definition SetOwner :: "chan_env \<Rightarrow> u64 \<Rightarrow> bool \<Rightarrow> channel \<Rightarrow> channel" where
  "SetOwner e guid exclaim c =
     (let c1 = (if ch_ownerGUID c \<noteq> 0 \<and> sm_find (ch_players c) (ch_ownerGUID c) \<noteq> None
                then player_upd (ch_ownerGUID c) (pi_SetOwner False) c else c);
          c2 = c1\<lparr>ch_ownerGUID := guid\<rparr>
      in if guid = 0 then c2 else
         (let oldFlag = GetPlayerFlags c2 guid;
              c3 = player_upd guid (pi_SetOwner True) (player_upd guid (pi_SetModerator True) c2);
              c4 = SendToAll e (MakeModeChange guid oldFlag c3) 0 c3;
              c5 = (if exclaim then SendToAll e (MakeOwnerChanged guid c4) 0 c4 else c4)
          in UpdateChannelInDB c5))"

definition SetModeratorFlag :: "chan_env \<Rightarrow> u64 \<Rightarrow> bool \<Rightarrow> channel \<Rightarrow> channel" where
  "SetModeratorFlag e p state c =
     (let c0 = player_upd p id c in
      if IsModerator (player_ref c0 p) \<noteq> state then
        (let oldFlag = GetPlayerFlags c0 p;
             c1 = player_upd p (pi_SetModerator state) c0
         in SendToAll e (MakeModeChange p oldFlag c1) 0 c1)
      else c0)"

definition SetMuteFlag :: "chan_env \<Rightarrow> u64 \<Rightarrow> bool \<Rightarrow> channel \<Rightarrow> channel" where
  "SetMuteFlag e p state c =
     (let c0 = player_upd p id c in
      if IsMuted (player_ref c0 p) \<noteq> state then
        (let oldFlag = GetPlayerFlags c0 p;
             c1 = player_upd p (pi_SetMuted state) c0
         in SendToAll e (MakeModeChange p oldFlag c1) 0 c1)
      else c0)"

definition lfg_refused :: "chan_env \<Rightarrow> u64 \<Rightarrow> channel \<Rightarrow> bool" where
  "lfg_refused e p c = (case FindPlayer e p of
      None \<Rightarrow> False
    | Some player \<Rightarrow> ch_HasFlag c CHANNEL_FLAG_LFG \<and> restricted_lfg e \<and>
        IsPlayerAccount (pl_security player) \<and> pl_in_group player)"

definition announces_join :: "chan_env \<Rightarrow> u64 \<Rightarrow> channel \<Rightarrow> bool" where
  "announces_join e p c \<longleftrightarrow> ch_announce c \<and> FindPlayer e p \<noteq> None \<and>
     \<not> (IsGMAccount (security_of e p) \<and> silent_gm_join e)"

definition Join :: "chan_env \<Rightarrow> u64 \<Rightarrow> string \<Rightarrow> channel \<Rightarrow> channel" where
  "Join e p pass c =
     (if IsOn c p then
        (if \<not> IsConstant c then SendToOne e (MakePlayerAlreadyMember p c) p c else c)
      else if IsBanned c p then SendToOne e (MakeBanned c) p c
      else if 0 < length (ch_password c) \<and> c_str pass \<noteq> c_str (ch_password c)
      then SendToOne e (MakeWrongPassword c) p c
      else if lfg_refused e p c then SendToOne e (MakeNotInLfg c) p c
      else
        (let c1 = (if FindPlayer e p \<noteq> None then emit [JoinedChannel p] c else c);
             c2 = (if announces_join e p c1 then SendToAll e (MakeJoined p c1) 0 c1 else c1);
             c3 = c2\<lparr>ch_players := sm_put p \<lparr>pi_player = p, pi_flags = MEMBER_FLAG_NONE\<rparr> (ch_players c2)\<rparr>;
             c4 = SendToOne e (MakeYouJoined c3) p c3;
             c5 = JoinNotify e p c4
         in if IsConstant c5 then c5 else
            (let c6 = (if ch_players c5 \<noteq> [] then UpdateChannelUseageInDB c5 else c5) in
             if ch_ownerGUID c6 = 0 \<and> ch_ownership c6 then
               player_upd p (pi_SetModerator True) (SetOwner e p (1 < length (ch_players c6)) c6)
             else c6)))"

definition announces_leave :: "chan_env \<Rightarrow> u64 \<Rightarrow> channel \<Rightarrow> bool" where
  "announces_leave e p c \<longleftrightarrow> ch_announce c \<and>
     (FindPlayer e p = None \<or> \<not> IsGMAccount (security_of e p) \<or> \<not> silent_gm_join e)"

text \<open>\<open>hand_over\<close> is the choice of a new owner at the end of \<open>Leave\<close>.\<close>

definition hand_over :: "chan_env \<Rightarrow> channel \<Rightarrow> channel" where
  "hand_over e c = (case ch_players c of
      [] \<Rightarrow> c
    | (k, i) # _ \<Rightarrow>
        let newowner = pi_player i in
        SetOwner e newowner True (player_upd newowner (pi_SetModerator True) c))"

definition Leave :: "chan_env \<Rightarrow> u64 \<Rightarrow> bool \<Rightarrow> channel \<Rightarrow> channel" where
  "Leave e p send c =
     (if \<not> IsOn c p then (if send then SendToOne e (MakeNotMember c) p c else c)
      else
        (let c1 = (if send then
                     (let s = SendToOne e (MakeYouLeft c) p c in
                      if FindPlayer e p \<noteq> None then emit [LeftChannel p] s else s)
                   else c);
             changeowner = IsOwner (player_ref c1 p);
             c2 = c1\<lparr>ch_players := sm_erase p (ch_players c1)\<rparr>;
             c3 = (if announces_leave e p c2 then SendToAll e (MakeLeft p c2) 0 c2 else c2);
             c4 = LeaveNotify e p c3
         in if IsConstant c4 then c4 else
            (let c5 = UpdateChannelUseageInDB c4 in
             if changeowner \<and> ch_ownership c5 \<and> ch_players c5 \<noteq> [] then hand_over e c5 else c5)))"

definition KickOrBan :: "chan_env \<Rightarrow> u64 \<Rightarrow> string \<Rightarrow> bool \<Rightarrow> channel \<Rightarrow> channel" where
  "KickOrBan e good badname ban c =
     (let sec = security_of e good in
      if \<not> IsOn c good then SendToOne e (MakeNotMember c) good c
      else if \<not> IsModerator (player_ref c good) \<and> \<not> IsGMAccount sec
      then SendToOne e (MakeNotModerator c) good c
      else case FindPlayerByName e badname of
        None \<Rightarrow> SendToOne e (MakePlayerNotFound badname c) good c
      | Some bad \<Rightarrow>
          (let b = pl_guid bad in
           if \<not> IsOn c b then SendToOne e (MakePlayerNotFound badname c) good c
           else if \<not> IsGMAccount sec \<and> b = ch_ownerGUID c \<and> good \<noteq> ch_ownerGUID c
           then SendToOne e (MakeNotOwner c) good c
           else
             (let changeowner = (ch_ownerGUID c = b);
                  notify = (\<not> (IsGMAccount sec \<and> silent_gm_join e));
                  c1 = (if ban \<and> \<not> IsBanned c b
                        then UpdateChannelInDB (c\<lparr>ch_banned := sm_put b () (ch_banned c)\<rparr>) else c);
                  data = (if ban \<and> \<not> IsBanned c b then MakePlayerBanned b good c1
                          else MakePlayerKicked b good c1);
                  c2 = (if notify then SendToAll e data 0 c1 else c1);
                  c3 = emit [LeftChannel b] (c2\<lparr>ch_players := sm_erase b (ch_players c2)\<rparr>)
              in if changeowner \<and> ch_ownership c3 \<and> ch_players c3 \<noteq> []
                 then SetOwner e good True (player_upd good (pi_SetModerator True) c3)
                 else c3)))"

definition Kick :: "chan_env \<Rightarrow> u64 \<Rightarrow> string \<Rightarrow> channel \<Rightarrow> channel" where
  "Kick e good badname = KickOrBan e good badname False"

definition Ban :: "chan_env \<Rightarrow> u64 \<Rightarrow> string \<Rightarrow> channel \<Rightarrow> channel" where
  "Ban e good badname = KickOrBan e good badname True"

definition UnBan :: "chan_env \<Rightarrow> u64 \<Rightarrow> string \<Rightarrow> channel \<Rightarrow> channel" where
  "UnBan e good badname c =
     (if \<not> IsOn c good then SendToOne e (MakeNotMember c) good c
      else if \<not> IsModerator (player_ref c good) \<and> \<not> IsGMAccount (security_of e good)
      then SendToOne e (MakeNotModerator c) good c
      else case FindPlayerByName e badname of
        None \<Rightarrow> SendToOne e (MakePlayerNotFound badname c) good c
      | Some bad \<Rightarrow>
          if \<not> IsBanned c (pl_guid bad) then SendToOne e (MakePlayerNotFound badname c) good c
          else
            (let c1 = c\<lparr>ch_banned := sm_erase (pl_guid bad) (ch_banned c)\<rparr> in
             UpdateChannelInDB (SendToAll e (MakePlayerUnbanned (pl_guid bad) good c1) 0 c1)))"

definition Password :: "chan_env \<Rightarrow> u64 \<Rightarrow> string \<Rightarrow> channel \<Rightarrow> channel" where
  "Password e p pass c =
     (if \<not> IsOn c p then SendToOne e (MakeNotMember c) p c
      else if \<not> IsModerator (player_ref c p) \<and> \<not> IsGMAccount (security_of e p)
      then SendToOne e (MakeNotModerator c) p c
      else
        (let c1 = c\<lparr>ch_password := c_str pass\<rparr> in
         UpdateChannelInDB (SendToAll e (MakePasswordChanged p c1) 0 c1)))"

definition SetMode :: "chan_env \<Rightarrow> u64 \<Rightarrow> string \<Rightarrow> bool \<Rightarrow> bool \<Rightarrow> channel \<Rightarrow> channel" where
  "SetMode e p p2n md state c =
     (case FindPlayer e p of None \<Rightarrow> c | Some player \<Rightarrow>
      if \<not> IsOn c p then SendToOne e (MakeNotMember c) p c
      else if \<not> IsModerator (player_ref c p) \<and> \<not> IsGMAccount (pl_security player)
      then SendToOne e (MakeNotModerator c) p c
      else case FindPlayerByName e p2n of
        None \<Rightarrow> SendToOne e (MakePlayerNotFound p2n c) p c
      | Some newp \<Rightarrow>
          if p = ch_ownerGUID c \<and> pl_guid newp = ch_ownerGUID c \<and> md then c
          else if \<not> IsOn c (pl_guid newp) then SendToOne e (MakePlayerNotFound p2n c) p c
          else if (\<not> IsGMAccount (pl_security player) \<or> \<not> IsGMAccount (pl_security newp)) \<and>
                  pl_team player \<noteq> pl_team newp \<and> \<not> two_side_channels e
          then SendToOne e (MakePlayerNotFound p2n c) p c
          else if ch_ownerGUID c = pl_guid newp \<and> ch_ownerGUID c \<noteq> p
          then SendToOne e (MakeNotOwner c) p c
          else if md then SetModeratorFlag e (pl_guid newp) state c
          else SetMuteFlag e (pl_guid newp) state c)"

definition SetOwnerByName :: "chan_env \<Rightarrow> u64 \<Rightarrow> string \<Rightarrow> channel \<Rightarrow> channel" where
  "SetOwnerByName e p newname c =
     (case FindPlayer e p of None \<Rightarrow> c | Some player \<Rightarrow>
      if \<not> IsOn c p then SendToOne e (MakeNotMember c) p c
      else if \<not> IsGMAccount (pl_security player) \<and> p \<noteq> ch_ownerGUID c
      then SendToOne e (MakeNotOwner c) p c
      else case FindPlayerByName e newname of
        None \<Rightarrow> SendToOne e (MakePlayerNotFound newname c) p c
      | Some newp \<Rightarrow>
          if \<not> IsOn c (pl_guid newp) then SendToOne e (MakePlayerNotFound newname c) p c
          else if pl_team newp \<noteq> pl_team player \<and> \<not> two_side_channels e
          then SendToOne e (MakePlayerNotFound newname c) p c
          else SetOwner e (pl_guid newp) True
                 (player_upd (pl_guid newp) (pi_SetModerator True) c))"

definition SendWhoOwner :: "chan_env \<Rightarrow> u64 \<Rightarrow> channel \<Rightarrow> channel" where
  "SendWhoOwner e p c =
     (if \<not> IsOn c p then SendToOne e (MakeNotMember c) p c
      else SendToOne e (MakeChannelOwner e c) p c)"

definition listed :: "chan_env \<Rightarrow> chan_player \<Rightarrow> u64 \<Rightarrow> bool" where
  "listed e player k = (case FindPlayer e k of
      None \<Rightarrow> False
    | Some member \<Rightarrow>
        (\<not> IsPlayerAccount (pl_security player) \<or> pl_security member \<le> gm_level_in_who e) \<and>
        pl_visible_for member (pl_guid player))"

definition ch_List :: "chan_env \<Rightarrow> chan_player \<Rightarrow> channel \<Rightarrow> channel" where
  "ch_List e player c =
     (let p = pl_guid player in
      if \<not> IsOn c p then SendToOne e (MakeNotMember c) p c
      else
        (let shown = filter (\<lambda>(k, i). listed e player k) (ch_players c);
             count = (of_nat (length shown) :: u32)
         in SendToOne e \<lparr>pk_opcode = SMSG_CHANNEL_LIST,
              pk_fields = [F8 1, FStr (ch_name c), F8 (ch_flags c), F32 count] @
                concat (map (\<lambda>(k, i). [F64 k, F8 (pi_flags i)]) shown)\<rparr> p c))"

definition Announce :: "chan_env \<Rightarrow> u64 \<Rightarrow> channel \<Rightarrow> channel" where
  "Announce e p c =
     (if \<not> IsOn c p then SendToOne e (MakeNotMember c) p c
      else if \<not> IsModerator (player_ref c p) \<and> \<not> IsGMAccount (security_of e p)
      then SendToOne e (MakeNotModerator c) p c
      else
        (let c1 = c\<lparr>ch_announce := \<not> ch_announce c\<rparr>;
             data = (if ch_announce c1 then MakeAnnouncementsOn p c1 else MakeAnnouncementsOff p c1)
         in UpdateChannelInDB (SendToAll e data 0 c1)))"

definition chat_packet :: "chan_env \<Rightarrow> u64 \<Rightarrow> string \<Rightarrow> u32 \<Rightarrow> channel \<Rightarrow> packet" where
  "chat_packet e p what lang c = \<lparr>pk_opcode = SMSG_MESSAGECHAT,
     pk_fields = [F8 CHAT_MSG_CHANNEL, F32 lang, F64 p, F32 0, FStr (ch_name c), F64 p,
       F32 (of_nat (length (c_str what)) + 1), FStr (c_str what),
       F8 (case FindPlayer e p of Some player \<Rightarrow> pl_chat_tag player | None \<Rightarrow> 0)]\<rparr>"

definition Say :: "chan_env \<Rightarrow> u64 \<Rightarrow> string option \<Rightarrow> u32 \<Rightarrow> channel \<Rightarrow> channel" where
  "Say e p what lang c = (case what of None \<Rightarrow> c | Some w \<Rightarrow>
     (let lang' = (if two_side_channels e then LANG_UNIVERSAL else lang) in
      if \<not> IsOn c p then SendToOne e (MakeNotMember c) p c
      else if IsMuted (player_ref c p) then SendToOne e (MakeMuted c) p c
      else SendToAll e (chat_packet e p w lang' c)
             (if \<not> IsModerator (player_ref c p) then p else 0) c))"

definition Invite :: "chan_env \<Rightarrow> u64 \<Rightarrow> string \<Rightarrow> channel \<Rightarrow> channel" where
  "Invite e p newname c =
     (if \<not> IsOn c p then SendToOne e (MakeNotMember c) p c
      else case FindPlayerByName e newname of
        None \<Rightarrow> SendToOne e (MakePlayerNotFound newname c) p c
      | Some newp \<Rightarrow>
          if \<not> pl_gm_visible newp then SendToOne e (MakePlayerNotFound newname c) p c
          else if IsBanned c (pl_guid newp) then SendToOne e (MakePlayerInviteBanned newname c) p c
          else case FindPlayer e p of
            None \<Rightarrow> c
          | Some player \<Rightarrow>
              if pl_team newp \<noteq> pl_team player \<and> \<not> two_side_channels e
              then SendToOne e (MakeInviteWrongFaction c) p c
              else if IsOn c (pl_guid newp)
              then SendToOne e (MakePlayerAlreadyMember (pl_guid newp) c) p c
              else
                (let c1 = (if \<not> HasIgnore newp (GUID_LOPART p)
                           then SendToOne e (MakeInvite p c) (pl_guid newp) c else c)
                 in SendToOne e (MakePlayerInvited (pl_name newp) c1) p c1))"

definition Voice :: "u64 \<Rightarrow> u64 \<Rightarrow> channel \<Rightarrow> channel" where
  "Voice g1 g2 c = c"

definition DeVoice :: "u64 \<Rightarrow> u64 \<Rightarrow> channel \<Rightarrow> channel" where
  "DeVoice g1 g2 c = c"

end
