(* ===== verification/Channel_Inv.thy ===== *)
theory Channel_Inv
  imports Channel
begin

text \<open>
  What holds of a chat channel: the invariant of its member and ban lists and of its owner,
  preserved by every operation, and who may change what.
\<close>

named_theorems chan_simps \<open>how the operations act on the fields of a channel\<close>

section \<open>Steps that only send\<close>

locale silent_step =
  fixes f :: "channel \<Rightarrow> channel"
  assumes out_only: "\<exists>out. f c = c\<lparr>ch_out := ch_out c @ out\<rparr>"
begin

lemma silent_players [simp]: "ch_players (f c) = ch_players c" using out_only [of c] by auto
lemma silent_banned [simp]: "ch_banned (f c) = ch_banned c" using out_only [of c] by auto
lemma silent_announce [simp]: "ch_announce (f c) = ch_announce c" using out_only [of c] by auto
lemma silent_ownership [simp]: "ch_ownership (f c) = ch_ownership c" using out_only [of c] by auto
lemma silent_name [simp]: "ch_name (f c) = ch_name c" using out_only [of c] by auto
lemma silent_password [simp]: "ch_password (f c) = ch_password c" using out_only [of c] by auto
lemma silent_flags [simp]: "ch_flags (f c) = ch_flags c" using out_only [of c] by auto
lemma silent_channelId [simp]: "ch_channelId (f c) = ch_channelId c" using out_only [of c] by auto
lemma silent_owner [simp]: "ch_ownerGUID (f c) = ch_ownerGUID c" using out_only [of c] by auto
lemma silent_saved [simp]: "ch_IsSaved (f c) = ch_IsSaved c" using out_only [of c] by auto
lemma silent_team [simp]: "ch_Team (f c) = ch_Team c" using out_only [of c] by auto

lemma silent_derived [simp]:
  "IsOn (f c) = IsOn c" "IsBanned (f c) = IsBanned c" "IsConstant (f c) = IsConstant c"
  "player_ref (f c) = player_ref c" "GetPlayerFlags (f c) = GetPlayerFlags c"
  by (simp_all add: fun_eq_iff IsOn_def IsBanned_def IsConstant_def player_ref_def GetPlayerFlags_def)

lemma silent_out: "\<exists>out. ch_out (f c) = ch_out c @ out" using out_only [of c] by auto

end

lemma no_output: "\<exists>out. c = c\<lparr>ch_out := ch_out c @ out\<rparr>"
  by (rule exI [of _ "[]"]) simp

interpretation sil_emit: silent_step "emit es" for es
  by unfold_locales (auto simp: emit_def)

interpretation sil_all: silent_step "SendToAll e d p" for e d p
  by unfold_locales (auto simp: SendToAll_def emit_def)

interpretation sil_but: silent_step "SendToAllButOne e d p" for e d p
  by unfold_locales (auto simp: SendToAllButOne_def emit_def)

interpretation sil_one: silent_step "SendToOne e d p" for e d p
proof
  show "\<exists>out. SendToOne e d p c = c\<lparr>ch_out := ch_out c @ out\<rparr>" for c
    by (cases "FindPlayer e p") (simp_all add: SendToOne_def no_output sil_emit.out_only)
qed

interpretation sil_join: silent_step "JoinNotify e p" for e p
proof
  show "\<exists>out. JoinNotify e p c = c\<lparr>ch_out := ch_out c @ out\<rparr>" for c
    using sil_all.out_only sil_but.out_only by (auto simp: JoinNotify_def Let_def)
qed

interpretation sil_leave: silent_step "LeaveNotify e p" for e p
proof
  show "\<exists>out. LeaveNotify e p c = c\<lparr>ch_out := ch_out c @ out\<rparr>" for c
    using sil_all.out_only sil_but.out_only by (auto simp: LeaveNotify_def Let_def)
qed

interpretation sil_upd: silent_step UpdateChannelInDB
proof
  show "\<exists>out. UpdateChannelInDB c = c\<lparr>ch_out := ch_out c @ out\<rparr>" for c
    by (simp add: UpdateChannelInDB_def no_output sil_emit.out_only)
qed

interpretation sil_usage: silent_step UpdateChannelUseageInDB
  by unfold_locales (auto simp: UpdateChannelUseageInDB_def emit_def)

section \<open>Member flags\<close>

lemma member_flag_bits [simp]:
  "MEMBER_FLAG_OWNER \<noteq> 0" "MEMBER_FLAG_MODERATOR \<noteq> 0" "MEMBER_FLAG_MUTED \<noteq> 0"
  "MEMBER_FLAG_OWNER AND MEMBER_FLAG_MODERATOR = 0" "MEMBER_FLAG_MODERATOR AND MEMBER_FLAG_OWNER = 0"
  "MEMBER_FLAG_MUTED AND MEMBER_FLAG_OWNER = 0" "MEMBER_FLAG_OWNER AND MEMBER_FLAG_MUTED = 0"
  "MEMBER_FLAG_MUTED AND MEMBER_FLAG_MODERATOR = 0" "MEMBER_FLAG_MODERATOR AND MEMBER_FLAG_MUTED = 0"
  by (simp_all add: member_flag_defs)

lemma set_pi_flag_player [simp]:
  "pi_player (pi_SetOwner b i) = pi_player i" "pi_player (pi_SetModerator b i) = pi_player i"
  "pi_player (pi_SetMuted b i) = pi_player i"
  by (simp_all add: pi_SetOwner_def pi_SetModerator_def pi_SetMuted_def set_pi_flag_def)

lemma set_pi_flag_flags [simp]:
  "IsOwner (pi_SetOwner b i) = b" "IsModerator (pi_SetOwner b i) = IsModerator i"
  "IsMuted (pi_SetOwner b i) = IsMuted i"
  "IsOwner (pi_SetModerator b i) = IsOwner i" "IsModerator (pi_SetModerator b i) = b"
  "IsMuted (pi_SetModerator b i) = IsMuted i"
  "IsOwner (pi_SetMuted b i) = IsOwner i" "IsModerator (pi_SetMuted b i) = IsModerator i"
  "IsMuted (pi_SetMuted b i) = b"
  by (simp_all add: pi_SetOwner_def pi_SetModerator_def pi_SetMuted_def set_pi_flag_def IsOwner_def
      IsModerator_def IsMuted_def has_flag_set_same has_flag_set_other has_flag_clear_other)

lemma fresh_member [simp]:
  "\<not> IsOwner \<lparr>pi_player = p, pi_flags = MEMBER_FLAG_NONE\<rparr>"
  "\<not> IsModerator \<lparr>pi_player = p, pi_flags = MEMBER_FLAG_NONE\<rparr>"
  "\<not> IsMuted \<lparr>pi_player = p, pi_flags = MEMBER_FLAG_NONE\<rparr>"
  by (simp_all add: IsOwner_def IsModerator_def IsMuted_def MEMBER_FLAG_NONE_def)

section \<open>Updates of one member\<close>

lemma player_upd_fields [simp]:
  "ch_banned (player_upd k f c) = ch_banned c" "ch_announce (player_upd k f c) = ch_announce c"
  "ch_ownership (player_upd k f c) = ch_ownership c" "ch_name (player_upd k f c) = ch_name c"
  "ch_password (player_upd k f c) = ch_password c" "ch_flags (player_upd k f c) = ch_flags c"
  "ch_channelId (player_upd k f c) = ch_channelId c" "ch_ownerGUID (player_upd k f c) = ch_ownerGUID c"
  "ch_IsSaved (player_upd k f c) = ch_IsSaved c" "ch_Team (player_upd k f c) = ch_Team c"
  "ch_out (player_upd k f c) = ch_out c" "IsConstant (player_upd k f c) = IsConstant c"
  "IsBanned (player_upd k f c) = IsBanned c" "ch_players (player_upd k f c) \<noteq> []"
  by (simp_all add: player_upd_def IsConstant_def IsBanned_def fun_eq_iff)

lemma find_player_upd [chan_simps]:
  "sm_find (ch_players (player_upd k f c)) j =
     (if j = k then Some (f (player_ref c k)) else sm_find (ch_players c) j)"
  by (simp add: player_upd_def sm_find_put)

lemma player_ref_upd [chan_simps]:
  "player_ref (player_upd k f c) j = (if j = k then f (player_ref c k) else player_ref c j)"
  by (simp add: player_ref_def find_player_upd)

lemma player_ref_found [chan_simps]: "sm_find (ch_players c) k = Some i \<Longrightarrow> player_ref c k = i"
  by (simp add: player_ref_def)

lemma sm_wf_player_upd [chan_simps]:
  "sm_wf (ch_players c) \<Longrightarrow> sm_wf (ch_players (player_upd k f c))"
  by (simp add: player_upd_def sm_wf_put)

section \<open>The invariant\<close>

text \<open>
  \<open>ch_inv\<close>: both containers are ordered, every entry records its own key as the member's guid,
  which is not zero and not banned, and only the owner carries the owner flag.
  \<open>owner_ok\<close>: a custom channel with ownership has an owner among its members, with the owner and
  the moderator flag, as long as it has members at all.
\<close>

definition good_entry :: "channel \<Rightarrow> u64 \<Rightarrow> PlayerInfo \<Rightarrow> bool" where
  "good_entry c k i \<longleftrightarrow> pi_player i = k \<and> k \<noteq> 0 \<and> \<not> IsBanned c k \<and> (IsOwner i \<longrightarrow> k = ch_ownerGUID c)"

definition ch_inv :: "channel \<Rightarrow> bool" where
  "ch_inv c \<longleftrightarrow> sm_wf (ch_players c) \<and> sm_wf (ch_banned c) \<and>
     (\<forall>k i. sm_find (ch_players c) k = Some i \<longrightarrow> good_entry c k i)"

definition has_owner :: "channel \<Rightarrow> bool" where
  "has_owner c \<longleftrightarrow> (case sm_find (ch_players c) (ch_ownerGUID c) of
      None \<Rightarrow> False | Some i \<Rightarrow> IsOwner i \<and> IsModerator i)"

definition owner_ok :: "channel \<Rightarrow> bool" where
  "owner_ok c \<longleftrightarrow> (\<not> IsConstant c \<and> ch_ownership c \<longrightarrow>
     (if ch_players c = [] then ch_ownerGUID c = 0 else has_owner c))"

lemma ch_inv_wf: "ch_inv c \<Longrightarrow> sm_wf (ch_players c)" "ch_inv c \<Longrightarrow> sm_wf (ch_banned c)"
  by (simp_all add: ch_inv_def)

lemma ch_inv_entry: "ch_inv c \<Longrightarrow> sm_find (ch_players c) k = Some i \<Longrightarrow> good_entry c k i"
  by (simp add: ch_inv_def)

context silent_step
begin

lemma silent_inv [simp]: "ch_inv (f c) = ch_inv c"
  by (simp add: ch_inv_def good_entry_def)

lemma silent_has_owner [simp]: "has_owner (f c) = has_owner c"
  by (simp add: has_owner_def)

lemma silent_owner_ok [simp]: "owner_ok (f c) = owner_ok c"
  by (simp add: owner_ok_def)

end

text \<open>A member update that keeps guid and owner flag keeps the invariant.\<close>

lemma ch_inv_upd_flags:
  assumes "ch_inv c" "IsOn c k" "\<And>i. pi_player (f i) = pi_player i" "\<And>i. IsOwner (f i) = IsOwner i"
  shows "ch_inv (player_upd k f c)"
proof -
  have "good_entry (player_upd k f c) j i" if "sm_find (ch_players (player_upd k f c)) j = Some i" for j i
    using that assms ch_inv_entry [OF assms(1)]
    by (auto simp: chan_simps good_entry_def IsOn_def split: if_splits)
  with assms(1) show ?thesis unfolding ch_inv_def by (simp add: sm_wf_player_upd)
qed

lemma IsOn_player_upd [chan_simps]: "IsOn (player_upd k f c) j \<longleftrightarrow> j = k \<or> IsOn c j"
  by (simp add: IsOn_def find_player_upd)

section \<open>Setting the owner\<close>

lemma SetOwner_fields [simp]:
  "ch_ownerGUID (SetOwner e g x c) = g" "ch_banned (SetOwner e g x c) = ch_banned c"
  "ch_ownership (SetOwner e g x c) = ch_ownership c" "ch_channelId (SetOwner e g x c) = ch_channelId c"
  "ch_password (SetOwner e g x c) = ch_password c" "ch_name (SetOwner e g x c) = ch_name c"
  "IsConstant (SetOwner e g x c) = IsConstant c" "IsBanned (SetOwner e g x c) = IsBanned c"
  by (simp_all add: SetOwner_def Let_def IsConstant_def IsBanned_def fun_eq_iff)

lemma find_SetOwner:
  assumes "g \<noteq> 0"
  shows "sm_find (ch_players (SetOwner e g x c)) j =
    (if j = g then Some (pi_SetOwner True (pi_SetModerator True
        (if g = ch_ownerGUID c \<and> IsOn c g then pi_SetOwner False (player_ref c g) else player_ref c g)))
     else if j = ch_ownerGUID c \<and> j \<noteq> 0 then map_option (pi_SetOwner False) (sm_find (ch_players c) j)
     else sm_find (ch_players c) j)"
  using assms by (auto simp: SetOwner_def Let_def chan_simps IsOn_def player_ref_def
      split: option.splits if_splits)

lemma sm_wf_SetOwner: "sm_wf (ch_players c) \<Longrightarrow> sm_wf (ch_players (SetOwner e g x c))"
  by (simp add: SetOwner_def Let_def sm_wf_player_upd)

lemma SetOwner_nonempty: "g \<noteq> 0 \<Longrightarrow> ch_players (SetOwner e g x c) \<noteq> []"
  by (simp add: SetOwner_def Let_def)

lemma has_owner_SetOwner: "g \<noteq> 0 \<Longrightarrow> has_owner (SetOwner e g x c)"
  by (simp add: has_owner_def find_SetOwner)

lemma ch_inv_SetOwner:
  assumes i: "ch_inv c" and on: "IsOn c g"
  shows "ch_inv (SetOwner e g x c)"
proof -
  obtain m where m: "sm_find (ch_players c) g = Some m" using on by (auto simp: IsOn_def)
  with ch_inv_entry [OF i] have g: "g \<noteq> 0" "good_entry c g m" by (auto simp: good_entry_def)
  have "good_entry (SetOwner e g x c) j k" if "sm_find (ch_players (SetOwner e g x c)) j = Some k" for j k
    using that g m ch_inv_entry [OF i]
    by (auto simp: find_SetOwner good_entry_def player_ref_found split: if_splits option.splits)
  with i show ?thesis unfolding ch_inv_def by (simp add: sm_wf_SetOwner)
qed

section \<open>Entering and leaving\<close>

definition put_member :: "u64 \<Rightarrow> channel \<Rightarrow> channel" where
  "put_member p c = c\<lparr>ch_players := sm_put p \<lparr>pi_player = p, pi_flags = MEMBER_FLAG_NONE\<rparr> (ch_players c)\<rparr>"

definition drop_member :: "u64 \<Rightarrow> channel \<Rightarrow> channel" where
  "drop_member p c = c\<lparr>ch_players := sm_erase p (ch_players c)\<rparr>"

lemma member_fields [simp]:
  "ch_banned (put_member p c) = ch_banned c" "ch_banned (drop_member p c) = ch_banned c"
  "ch_ownership (put_member p c) = ch_ownership c" "ch_ownership (drop_member p c) = ch_ownership c"
  "ch_ownerGUID (put_member p c) = ch_ownerGUID c" "ch_ownerGUID (drop_member p c) = ch_ownerGUID c"
  "IsConstant (put_member p c) = IsConstant c" "IsConstant (drop_member p c) = IsConstant c"
  "IsBanned (put_member p c) = IsBanned c" "IsBanned (drop_member p c) = IsBanned c"
  "ch_players (put_member p c) \<noteq> []"
  by (simp_all add: put_member_def drop_member_def IsConstant_def IsBanned_def fun_eq_iff)

lemma find_put_member [chan_simps]:
  "sm_find (ch_players (put_member p c)) j =
     (if j = p then Some \<lparr>pi_player = p, pi_flags = MEMBER_FLAG_NONE\<rparr> else sm_find (ch_players c) j)"
  by (simp add: put_member_def sm_find_put)

lemma find_drop_member [chan_simps]:
  "sm_find (ch_players (drop_member p c)) j = (if j = p then None else sm_find (ch_players c) j)"
  by (simp add: drop_member_def sm_find_erase)

lemma IsOn_members [chan_simps]:
  "IsOn (put_member p c) j \<longleftrightarrow> j = p \<or> IsOn c j" "IsOn (drop_member p c) j \<longleftrightarrow> j \<noteq> p \<and> IsOn c j"
  by (simp_all add: IsOn_def chan_simps)

lemma good_entry_members [simp]:
  "good_entry (put_member p c) = good_entry c" "good_entry (drop_member p c) = good_entry c"
  by (simp_all add: fun_eq_iff good_entry_def)

lemma players_put_member:
  "ch_players (put_member p c) = sm_put p \<lparr>pi_player = p, pi_flags = MEMBER_FLAG_NONE\<rparr> (ch_players c)"
  by (simp add: put_member_def)

lemma sm_wf_members [chan_simps]:
  "sm_wf (ch_players c) \<Longrightarrow> sm_wf (ch_players (put_member p c))"
  "sm_wf (ch_players c) \<Longrightarrow> sm_wf (ch_players (drop_member p c))"
  by (simp_all add: put_member_def drop_member_def sm_wf_put smap.wf_erase)

lemma ch_inv_put_member: "ch_inv c \<Longrightarrow> p \<noteq> 0 \<Longrightarrow> \<not> IsBanned c p \<Longrightarrow> ch_inv (put_member p c)"
  unfolding ch_inv_def by (auto simp: chan_simps good_entry_def split: if_splits)

lemma ch_inv_drop_member: "ch_inv c \<Longrightarrow> ch_inv (drop_member p c)"
  unfolding ch_inv_def by (auto simp: chan_simps split: if_splits)

text \<open>The checks of \<open>Join\<close>, and its effect on the member list.\<close>

definition join_admits :: "chan_env \<Rightarrow> u64 \<Rightarrow> string \<Rightarrow> channel \<Rightarrow> bool" where
  "join_admits e p pass c \<longleftrightarrow> \<not> IsOn c p \<and> \<not> IsBanned c p \<and>
     (ch_password c = '''' \<or> c_str pass = c_str (ch_password c)) \<and> \<not> lfg_refused e p c"

definition takes_ownership :: "channel \<Rightarrow> bool" where
  "takes_ownership c \<longleftrightarrow> \<not> IsConstant c \<and> ch_ownerGUID c = 0 \<and> ch_ownership c"

lemma Join_refused: "\<not> join_admits e p pass c \<Longrightarrow> \<exists>out. Join e p pass c = c\<lparr>ch_out := ch_out c @ out\<rparr>"
  by (auto simp: join_admits_def Join_def no_output intro: sil_one.out_only)

text \<open>\<open>enter e p c\<close> is the part of \<open>Join\<close> up to the choice of an owner.\<close>

definition enter :: "chan_env \<Rightarrow> u64 \<Rightarrow> channel \<Rightarrow> channel" where
  "enter e p c =
     (let c1 = (if FindPlayer e p \<noteq> None then emit [JoinedChannel p] c else c);
          c2 = (if announces_join e p c1 then SendToAll e (MakeJoined p c1) 0 c1 else c1);
          c3 = put_member p c2
      in JoinNotify e p (SendToOne e (MakeYouJoined c3) p c3))"

lemma Join_admitted:
  assumes "join_admits e p pass c"
  shows "Join e p pass c =
    (let c5 = enter e p c; c6 = UpdateChannelUseageInDB c5 in
     if IsConstant c then c5
     else if takes_ownership c
     then player_upd p (pi_SetModerator True) (SetOwner e p (1 < length (ch_players c5)) c6)
     else c6)"
  using assms
  by (auto simp: Join_def join_admits_def enter_def takes_ownership_def Let_def simp flip: put_member_def)

lemma enter_fields [simp]:
  "ch_banned (enter e p c) = ch_banned c" "ch_ownership (enter e p c) = ch_ownership c"
  "ch_ownerGUID (enter e p c) = ch_ownerGUID c" "IsConstant (enter e p c) = IsConstant c"
  "ch_players (enter e p c) = ch_players (put_member p c)" "IsBanned (enter e p c) = IsBanned c"
  by (simp_all add: enter_def Let_def players_put_member)

lemma IsOn_enter [chan_simps]: "IsOn (enter e p c) j \<longleftrightarrow> j = p \<or> IsOn c j"
  by (simp add: IsOn_def find_put_member)

lemma ch_inv_enter: "ch_inv c \<Longrightarrow> p \<noteq> 0 \<Longrightarrow> \<not> IsBanned c p \<Longrightarrow> ch_inv (enter e p c)"
  by (simp add: enter_def Let_def ch_inv_put_member)

text \<open>Two channels that differ in nothing but their trace.\<close>

definition same_state :: "channel \<Rightarrow> channel \<Rightarrow> bool" where
  "same_state c d \<longleftrightarrow> d = c\<lparr>ch_out := ch_out d\<rparr>"

lemma same_stateI: "\<exists>out. d = c\<lparr>ch_out := ch_out c @ out\<rparr> \<Longrightarrow> same_state c d"
  by (auto simp: same_state_def)

lemma same_state_inv: "same_state c d \<Longrightarrow> ch_inv d = ch_inv c \<and> owner_ok d = owner_ok c"
  unfolding same_state_def
  by (erule ssubst) (simp add: ch_inv_def good_entry_def owner_ok_def has_owner_def IsBanned_def IsConstant_def)

lemma Join_inv:
  assumes "ch_inv c" "p \<noteq> 0"
  shows "ch_inv (Join e p pass c)"
proof (cases "join_admits e p pass c")
  case False
  then show ?thesis using assms same_state_inv [OF same_stateI, OF Join_refused] by simp
next
  case True
  have e: "ch_inv (enter e p c)"
    using assms True by (simp add: ch_inv_enter join_admits_def)
  have "IsOn (enter e p c) p" by (simp add: IsOn_def chan_simps)
  with e have s: "ch_inv (SetOwner e p x (UpdateChannelUseageInDB (enter e p c)))" for x
    by (simp add: ch_inv_SetOwner)
  moreover have "IsOn (SetOwner e p x (UpdateChannelUseageInDB (enter e p c))) p" for x
    using assms(2) by (simp add: IsOn_def find_SetOwner)
  ultimately show ?thesis
    using e by (simp add: Join_admitted [OF True] Let_def ch_inv_upd_flags)
qed

lemma Join_owner_ok:
  assumes "owner_ok c" "p \<noteq> 0"
  shows "owner_ok (Join e p pass c)"
proof (cases "join_admits e p pass c")
  case False
  then show ?thesis using assms same_state_inv [OF same_stateI, OF Join_refused] by simp
next
  case True
  then have "\<not> IsOn c p" by (simp add: join_admits_def)
  then show ?thesis
    using assms
    by (auto simp: Join_admitted [OF True] Let_def owner_ok_def takes_ownership_def has_owner_def
        chan_simps find_SetOwner IsOn_def split: option.splits if_splits)
qed

text \<open>\<open>Leave\<close>: the part before a new owner is chosen is \<open>depart\<close>.\<close>

definition depart :: "chan_env \<Rightarrow> u64 \<Rightarrow> bool \<Rightarrow> channel \<Rightarrow> channel" where
  "depart e p send c =
     (let c1 = (if send then
                  (let s = SendToOne e (MakeYouLeft c) p c in
                   if FindPlayer e p \<noteq> None then emit [LeftChannel p] s else s)
                else c);
          c2 = drop_member p c1;
          c3 = (if announces_leave e p c2 then SendToAll e (MakeLeft p c2) 0 c2 else c2)
      in LeaveNotify e p c3)"

lemma players_drop_member: "ch_players (drop_member p c) = sm_erase p (ch_players c)"
  by (simp add: drop_member_def)

lemma depart_fields [simp]:
  "ch_banned (depart e p s c) = ch_banned c" "ch_ownership (depart e p s c) = ch_ownership c"
  "ch_ownerGUID (depart e p s c) = ch_ownerGUID c" "IsConstant (depart e p s c) = IsConstant c"
  "ch_players (depart e p s c) = ch_players (drop_member p c)"
  by (simp_all add: depart_def Let_def players_drop_member)

lemma ch_inv_depart: "ch_inv c \<Longrightarrow> ch_inv (depart e p s c)"
  by (simp add: depart_def Let_def ch_inv_drop_member)

lemma Leave_not_on: "\<not> IsOn c p \<Longrightarrow> \<exists>out. Leave e p send c = c\<lparr>ch_out := ch_out c @ out\<rparr>"
  by (simp add: Leave_def no_output sil_one.out_only)

lemma Leave_on:
  assumes "IsOn c p"
  shows "Leave e p send c =
    (let c4 = depart e p send c; c5 = UpdateChannelUseageInDB c4 in
     if IsConstant c then c4
     else if IsOwner (player_ref c p) \<and> ch_ownership c \<and> ch_players c4 \<noteq> [] then hand_over e c5 else c5)"
  using assms by (simp add: Leave_def depart_def Let_def flip: drop_member_def)

lemma first_entry:
  "sm_wf (ch_players c) \<Longrightarrow> ch_players c = (k, i) # r \<Longrightarrow> sm_find (ch_players c) k = Some i"
  by (simp add: sm_find_def)

text \<open>The new owner is the member with the least guid.\<close>

lemma hand_over_least:
  assumes "ch_inv c" "ch_players c \<noteq> []"
  obtains k i where "sm_find (ch_players c) k = Some i" "k \<noteq> 0"
    "\<And>j. IsOn c j \<Longrightarrow> k \<le> j"
    "hand_over e c = SetOwner e k True (player_upd k (pi_SetModerator True) c)"
proof -
  obtain k i r where c: "ch_players c = (k, i) # r" using assms(2) by (metis list.exhaust surj_pair)
  have f: "sm_find (ch_players c) k = Some i" by (simp add: c sm_find_def)
  with assms(1) have g: "pi_player i = k" "k \<noteq> 0" by (auto dest: ch_inv_entry simp: good_entry_def)
  have "k \<le> j" if "IsOn c j" for j
    using smap.first_key_least [OF ch_inv_wf(1) [OF assms(1)], of k "map fst r" j] that
    by (simp add: c sm_keys_def IsOn_def)
  with f g show thesis by (intro that [of k i]) (auto simp: hand_over_def c Let_def)
qed

lemma ch_inv_hand_over:
  assumes "ch_inv c" "ch_players c \<noteq> []"
  shows "ch_inv (hand_over e c) \<and> has_owner (hand_over e c)"
proof -
  obtain k i where k: "sm_find (ch_players c) k = Some i" "k \<noteq> 0"
    and h: "hand_over e c = SetOwner e k True (player_upd k (pi_SetModerator True) c)"
    using hand_over_least [OF assms] by metis
  have "IsOn c k" using k by (simp add: IsOn_def)
  with assms k show ?thesis
    by (simp add: h ch_inv_SetOwner ch_inv_upd_flags IsOn_player_upd has_owner_SetOwner)
qed

lemma Leave_inv:
  assumes "ch_inv c"
  shows "ch_inv (Leave e p send c)"
proof (cases "IsOn c p")
  case False
  then show ?thesis using assms same_state_inv [OF same_stateI, OF Leave_not_on] by simp
next
  case True
  then show ?thesis
    using assms ch_inv_hand_over [of "UpdateChannelUseageInDB (depart e p send c)" e]
    by (simp add: Leave_on Let_def ch_inv_depart)
qed

lemma hand_over_fields [simp]:
  "IsConstant (hand_over e c) = IsConstant c" "ch_ownership (hand_over e c) = ch_ownership c"
  by (simp_all add: hand_over_def Let_def split: list.split prod.split)

lemma hand_over_nonempty: "ch_inv c \<Longrightarrow> ch_players c \<noteq> [] \<Longrightarrow> ch_players (hand_over e c) \<noteq> []"
  using hand_over_least [of c e] SetOwner_nonempty by metis

lemma Leave_owner_ok:
  assumes i: "ch_inv c" and o: "owner_ok c" and ne: "ch_players (Leave e p send c) \<noteq> []"
  shows "owner_ok (Leave e p send c)"
proof (cases "IsOn c p")
  case False
  then show ?thesis using o same_state_inv [OF same_stateI, OF Leave_not_on] by simp
next
  case True
  let ?d = "UpdateChannelUseageInDB (depart e p send c)"
  have d: "ch_inv ?d" using i by (simp add: ch_inv_depart)
  have own: "p = ch_ownerGUID c" if "IsOwner (player_ref c p)"
    using that True ch_inv_entry [OF i] by (auto simp: IsOn_def player_ref_def good_entry_def split: option.splits)
  have keep: "has_owner ?d" if "has_owner c" "\<not> IsOwner (player_ref c p)"
    using that by (auto simp: has_owner_def chan_simps player_ref_def split: option.splits)
  have ne': "ch_players c \<noteq> []" using True by (auto simp: IsOn_def)
  show ?thesis
    using o ne ne' keep ch_inv_hand_over [OF d, of e] hand_over_nonempty [OF d, of e]
    by (auto simp: Leave_on [OF True] Let_def owner_ok_def split: if_splits)
qed

section \<open>The moderation operations\<close>

text \<open>A caller that is neither a moderator of the channel nor a game master has no authority.\<close>

definition authority :: "chan_env \<Rightarrow> u64 \<Rightarrow> channel \<Rightarrow> bool" where
  "authority e p c \<longleftrightarrow> IsOn c p \<and> (IsModerator (player_ref c p) \<or> IsGMAccount (security_of e p))"

lemma security_of_found: "FindPlayer e p = Some pl \<Longrightarrow> security_of e p = pl_security pl"
  by (simp add: security_of_def)

text \<open>The ban entered by \<open>KickOrBan\<close>, before the member is erased.\<close>

definition add_ban :: "bool \<Rightarrow> u64 \<Rightarrow> channel \<Rightarrow> channel" where
  "add_ban ban b c = (if ban \<and> \<not> IsBanned c b
     then UpdateChannelInDB (c\<lparr>ch_banned := sm_put b () (ch_banned c)\<rparr>) else c)"

lemma add_ban_fields [simp]:
  "ch_players (add_ban ban b c) = ch_players c" "ch_ownerGUID (add_ban ban b c) = ch_ownerGUID c"
  "ch_ownership (add_ban ban b c) = ch_ownership c" "IsConstant (add_ban ban b c) = IsConstant c"
  by (simp_all add: add_ban_def IsConstant_def)

lemma IsBanned_add_ban [chan_simps]: "IsBanned (add_ban ban b c) k \<longleftrightarrow> IsBanned c k \<or> (ban \<and> k = b)"
  by (auto simp: add_ban_def IsBanned_def sm_find_put)

definition expel :: "chan_env \<Rightarrow> u64 \<Rightarrow> u64 \<Rightarrow> bool \<Rightarrow> channel \<Rightarrow> channel" where
  "expel e good b ban c =
     (let c1 = add_ban ban b c;
          data = (if ban \<and> \<not> IsBanned c b then MakePlayerBanned b good c1 else MakePlayerKicked b good c1);
          c2 = (if \<not> (IsGMAccount (security_of e good) \<and> silent_gm_join e)
                then SendToAll e data 0 c1 else c1)
      in emit [LeftChannel b] (drop_member b c2))"

text \<open>The member that \<open>KickOrBan\<close> removes, if it removes one.\<close>

definition kick_target :: "chan_env \<Rightarrow> u64 \<Rightarrow> string \<Rightarrow> channel \<Rightarrow> u64 option" where
  "kick_target e good badname c =
     (if authority e good c then
        (case FindPlayerByName e badname of
           None \<Rightarrow> None
         | Some bad \<Rightarrow>
             if IsOn c (pl_guid bad) \<and>
                (IsGMAccount (security_of e good) \<or> pl_guid bad \<noteq> ch_ownerGUID c \<or> good = ch_ownerGUID c)
             then Some (pl_guid bad) else None)
      else None)"

lemma KickOrBan_notice:
  assumes "kick_target e good n c = None"
  shows "\<exists>data. KickOrBan e good n ban c = SendToOne e data good c"
proof (cases "FindPlayerByName e n")
  case None
  then show ?thesis by (auto simp: KickOrBan_def Let_def)
next
  case (Some bad)
  with assms have "\<not> IsOn c good \<or> \<not> IsModerator (player_ref c good) \<and> \<not> IsGMAccount (security_of e good) \<or>
      \<not> IsOn c (pl_guid bad) \<or>
      \<not> IsGMAccount (security_of e good) \<and> pl_guid bad = ch_ownerGUID c \<and> good \<noteq> ch_ownerGUID c"
    unfolding kick_target_def authority_def by (auto split: if_splits)
  then show ?thesis
    by (elim disjE) (auto simp: KickOrBan_def Let_def Some)
qed

lemma KickOrBan_refused:
  "kick_target e good n c = None \<Longrightarrow> \<exists>out. KickOrBan e good n ban c = c\<lparr>ch_out := ch_out c @ out\<rparr>"
  using KickOrBan_notice [of e good n c ban] sil_one.out_only by metis

lemma KickOrBan_done:
  assumes "kick_target e good n c = Some b"
  shows "KickOrBan e good n ban c =
    (let c3 = expel e good b ban c in
     if ch_ownerGUID c = b \<and> ch_ownership c \<and> ch_players c3 \<noteq> []
     then SetOwner e good True (player_upd good (pi_SetModerator True) c3) else c3)"
proof -
  obtain bad where bad: "FindPlayerByName e n = Some bad" "pl_guid bad = b" "IsOn c b"
    and a: "IsOn c good" "IsModerator (player_ref c good) \<or> IsGMAccount (security_of e good)"
    and o: "\<not> (\<not> IsGMAccount (security_of e good) \<and> b = ch_ownerGUID c \<and> good \<noteq> ch_ownerGUID c)"
    using assms unfolding kick_target_def authority_def by (auto split: option.splits if_splits)
  have c1: "(if ban \<and> \<not> IsBanned c b then UpdateChannelInDB (c\<lparr>ch_banned := sm_put b () (ch_banned c)\<rparr>)
      else c) = add_ban ban b c" by (simp only: add_ban_def)
  have own: "ch_ownership (expel e good b ban c) = ch_ownership c"
    by (simp add: expel_def Let_def drop_member_def)
  from a have "\<not> (\<not> IsModerator (player_ref c good) \<and> \<not> IsGMAccount (security_of e good))" by blast
  then show ?thesis
    using own unfolding KickOrBan_def bad option.case Let_def c1
    by (simp only: a(1) bad o not_True_eq_False if_False) (simp only: expel_def Let_def drop_member_def)
qed

lemma expel_fields [simp]:
  "ch_ownerGUID (expel e g b ban c) = ch_ownerGUID c" "ch_ownership (expel e g b ban c) = ch_ownership c"
  "IsConstant (expel e g b ban c) = IsConstant c"
  "ch_players (expel e g b ban c) = sm_erase b (ch_players c)"
  by (simp_all add: expel_def Let_def players_drop_member)

lemma IsBanned_expel [chan_simps]: "IsBanned (expel e g b ban c) k \<longleftrightarrow> IsBanned c k \<or> (ban \<and> k = b)"
  by (simp add: expel_def Let_def IsBanned_add_ban)

lemma find_expel [chan_simps]:
  "sm_find (ch_players (expel e g b ban c)) j = (if j = b then None else sm_find (ch_players c) j)"
  by (simp add: sm_find_erase)

lemma sm_wf_banned_expel:
  "sm_wf (ch_banned c) \<Longrightarrow> sm_wf (ch_banned (expel e g b ban c))"
  by (simp add: expel_def Let_def add_ban_def sm_wf_put)

lemma ch_inv_expel:
  assumes "ch_inv c"
  shows "ch_inv (expel e g b ban c)"
proof -
  have "good_entry (expel e g b ban c) j i" if "sm_find (ch_players (expel e g b ban c)) j = Some i" for j i
    using that ch_inv_entry [OF assms]
    by (auto simp: good_entry_def IsBanned_expel sm_find_erase split: if_splits)
  with ch_inv_wf [OF assms] show ?thesis
    unfolding ch_inv_def by (simp add: sm_wf_banned_expel smap.wf_erase)
qed

text \<open>
  \<open>KickOrBan\<close> keeps the invariant unless the owner names himself: see
  \<open>owner_self_kick\<close> below for that call.
\<close>

lemma KickOrBan_inv:
  assumes i: "ch_inv c" and not_self: "kick_target e good n c = Some good \<Longrightarrow> good \<noteq> ch_ownerGUID c"
  shows "ch_inv (KickOrBan e good n ban c)"
proof (cases "kick_target e good n c")
  case None
  then show ?thesis using i same_state_inv [OF same_stateI, OF KickOrBan_refused] by simp
next
  case (Some b)
  have on: "IsOn c good" using Some by (auto simp: kick_target_def authority_def split: if_splits)
  have "IsOn (expel e good b ban c) good" if "ch_ownerGUID c = b"
    using on that not_self Some by (auto simp: IsOn_def sm_find_erase)
  with i show ?thesis
    by (simp add: KickOrBan_done [OF Some] Let_def ch_inv_expel ch_inv_SetOwner ch_inv_upd_flags
        IsOn_player_upd)
qed

lemma KickOrBan_owner_ok:
  assumes i: "ch_inv c" and o: "owner_ok c"
    and not_self: "kick_target e good n c = Some good \<Longrightarrow> good \<noteq> ch_ownerGUID c"
  shows "owner_ok (KickOrBan e good n ban c)"
proof (cases "kick_target e good n c")
  case None
  then show ?thesis using o same_state_inv [OF same_stateI, OF KickOrBan_refused] by simp
next
  case (Some b)
  have on: "IsOn c good" using Some by (auto simp: kick_target_def authority_def split: if_splits)
  then have g0: "good \<noteq> 0" using ch_inv_entry [OF i] by (auto simp: IsOn_def good_entry_def)
  have ne: "ch_players c \<noteq> []" using on by (auto simp: IsOn_def)
  show ?thesis
  proof (cases "ch_ownerGUID c = b")
    case True
    with on not_self Some have "IsOn (expel e good b ban c) good"
      by (auto simp: IsOn_def sm_find_erase)
    then have "ch_players (expel e good b ban c) \<noteq> []" by (auto simp: IsOn_def)
    with True g0 show ?thesis
      by (simp add: KickOrBan_done [OF Some] Let_def owner_ok_def has_owner_SetOwner SetOwner_nonempty)
  next
    case False
    have "ch_players (expel e good b ban c) \<noteq> []" if "has_owner c"
    proof -
      from that False have "sm_find (sm_erase b (ch_players c)) (ch_ownerGUID c) \<noteq> None"
        by (auto simp: has_owner_def sm_find_erase split: option.splits)
      then show ?thesis by auto
    qed
    with False o ne show ?thesis
      by (auto simp: KickOrBan_done [OF Some] Let_def owner_ok_def has_owner_def sm_find_erase
          split: option.splits)
  qed
qed

text \<open>The operations a moderator or game master may do change nothing for anybody else.\<close>

lemma UnBan_refused: "\<not> authority e p c \<Longrightarrow> \<exists>out. UnBan e p n c = c\<lparr>ch_out := ch_out c @ out\<rparr>"
  by (auto simp: authority_def UnBan_def sil_one.out_only)

lemma Password_refused: "\<not> authority e p c \<Longrightarrow> \<exists>out. Password e p w c = c\<lparr>ch_out := ch_out c @ out\<rparr>"
  by (auto simp: authority_def Password_def sil_one.out_only)

lemma Announce_refused: "\<not> authority e p c \<Longrightarrow> \<exists>out. Announce e p c = c\<lparr>ch_out := ch_out c @ out\<rparr>"
  by (auto simp: authority_def Announce_def sil_one.out_only)

lemma SetMode_refused:
  "\<not> authority e p c \<Longrightarrow> \<exists>out. SetMode e p n md st c = c\<lparr>ch_out := ch_out c @ out\<rparr>"
  by (auto simp: authority_def SetMode_def sil_one.out_only no_output security_of_found split: option.splits)

lemma SetOwnerByName_refused:
  "\<not> (IsOn c p \<and> (p = ch_ownerGUID c \<or> IsGMAccount (security_of e p))) \<Longrightarrow>
   \<exists>out. SetOwnerByName e p n c = c\<lparr>ch_out := ch_out c @ out\<rparr>"
  by (auto simp: SetOwnerByName_def sil_one.out_only no_output security_of_found split: option.splits)

lemma ch_inv_unban:
  assumes "ch_inv c"
  shows "ch_inv (c\<lparr>ch_banned := sm_erase b (ch_banned c)\<rparr>)"
proof -
  have "IsBanned (c\<lparr>ch_banned := sm_erase b (ch_banned c)\<rparr>) k \<Longrightarrow> IsBanned c k" for k
    by (simp add: IsBanned_def sm_find_erase split: if_splits)
  with assms show ?thesis
    unfolding ch_inv_def good_entry_def by (auto simp: smap.wf_erase)
qed

lemma field_update_inv [simp]:
  "ch_inv (c\<lparr>ch_password := w\<rparr>) = ch_inv c" "ch_inv (c\<lparr>ch_announce := a\<rparr>) = ch_inv c"
  "ch_inv (c\<lparr>ch_ownership := b'\<rparr>) = ch_inv c"
  "owner_ok (c\<lparr>ch_password := w\<rparr>) = owner_ok c" "owner_ok (c\<lparr>ch_announce := a\<rparr>) = owner_ok c"
  "owner_ok (c\<lparr>ch_banned := b\<rparr>) = owner_ok c"
  by (simp_all add: ch_inv_def good_entry_def IsBanned_def owner_ok_def has_owner_def IsConstant_def)

lemma UnBan_inv: "ch_inv c \<Longrightarrow> ch_inv (UnBan e p n c)"
  by (simp add: UnBan_def Let_def ch_inv_unban split: option.split)

lemma UnBan_owner_ok: "owner_ok c \<Longrightarrow> owner_ok (UnBan e p n c)"
  by (simp add: UnBan_def Let_def split: option.split)

lemma Password_inv: "ch_inv (Password e p w c) = ch_inv c"
  by (simp add: Password_def Let_def)

lemma Password_owner_ok: "owner_ok (Password e p w c) = owner_ok c"
  by (simp add: Password_def Let_def)

lemma Announce_inv: "ch_inv (Announce e p c) = ch_inv c"
  by (simp add: Announce_def Let_def)

lemma Announce_owner_ok: "owner_ok (Announce e p c) = owner_ok c"
  by (simp add: Announce_def Let_def)

lemma mode_flag_inv:
  assumes "ch_inv c" "IsOn c k"
  shows "ch_inv (SetModeratorFlag e k st c)" "ch_inv (SetMuteFlag e k st c)"
  using assms by (simp_all add: SetModeratorFlag_def SetMuteFlag_def Let_def ch_inv_upd_flags IsOn_player_upd)

lemma SetMode_inv: "ch_inv c \<Longrightarrow> ch_inv (SetMode e p n md st c)"
  by (simp add: SetMode_def mode_flag_inv split: option.split)

lemma player_upd_has_owner:
  assumes "has_owner c" "k \<noteq> ch_ownerGUID c \<or> (\<forall>i. IsOwner i \<longrightarrow> IsModerator i \<longrightarrow> IsOwner (f i) \<and> IsModerator (f i))"
  shows "has_owner (player_upd k f c)"
  using assms by (auto simp: has_owner_def chan_simps player_ref_def split: option.splits)

lemma upd_owner_ok:
  assumes "owner_ok c" "IsOn c k"
    "k \<noteq> ch_ownerGUID c \<or> (\<forall>i. IsOwner i \<longrightarrow> IsModerator i \<longrightarrow> IsOwner (f i) \<and> IsModerator (f i))"
  shows "owner_ok (player_upd k f c)"
proof -
  have "ch_players c \<noteq> []" using assms(2) by (auto simp: IsOn_def)
  with assms player_upd_has_owner [of c k f] show ?thesis by (simp add: owner_ok_def)
qed

lemma SetMuteFlag_owner_ok: "owner_ok c \<Longrightarrow> IsOn c k \<Longrightarrow> owner_ok (SetMuteFlag e k st c)"
  by (simp add: SetMuteFlag_def Let_def upd_owner_ok IsOn_player_upd)

lemma SetModeratorFlag_owner_ok:
  "owner_ok c \<Longrightarrow> IsOn c k \<Longrightarrow> k \<noteq> ch_ownerGUID c \<Longrightarrow> owner_ok (SetModeratorFlag e k st c)"
  by (simp add: SetModeratorFlag_def Let_def upd_owner_ok IsOn_player_upd)

lemma SetMode_owner_ok: "owner_ok c \<Longrightarrow> owner_ok (SetMode e p n md st c)"
  by (auto simp: SetMode_def SetMuteFlag_owner_ok SetModeratorFlag_owner_ok split: option.split)

lemma SetOwnerByName_inv: "ch_inv c \<Longrightarrow> ch_inv (SetOwnerByName e p n c)"
  by (simp add: SetOwnerByName_def ch_inv_SetOwner ch_inv_upd_flags IsOn_player_upd split: option.split)

lemma SetOwnerByName_owner_ok:
  assumes "env_ok e" "owner_ok c"
  shows "owner_ok (SetOwnerByName e p n c)"
proof -
  have "owner_ok (SetOwner e g True c')" if "g \<noteq> 0" for g c'
    using that by (simp add: owner_ok_def has_owner_SetOwner SetOwner_nonempty)
  with assms show ?thesis
    by (auto simp: SetOwnerByName_def env_ok_def split: option.split)
qed

interpretation sil_who: silent_step "SendWhoOwner e p" for e p
  by unfold_locales (simp add: SendWhoOwner_def sil_one.out_only)

interpretation sil_list: silent_step "ch_List e pl" for e pl
  by unfold_locales (simp add: ch_List_def Let_def sil_one.out_only)

interpretation sil_say: silent_step "Say e p what lang" for e p what lang
  by unfold_locales
    (simp add: Say_def Let_def sil_one.out_only sil_all.out_only no_output split: option.split)

interpretation sil_invite: silent_step "Invite e p n" for e p n
proof
  have two: "\<exists>out. SendToOne e d p (SendToOne e d' p' c) = c\<lparr>ch_out := ch_out c @ out\<rparr>" for d p d' p' c
  proof -
    obtain o1 where o1: "SendToOne e d' p' c = c\<lparr>ch_out := ch_out c @ o1\<rparr>"
      using sil_one.out_only [of e d' p' c] by blast
    obtain o2 where "SendToOne e d p (c\<lparr>ch_out := ch_out c @ o1\<rparr>) =
        c\<lparr>ch_out := ch_out c @ o1\<rparr>\<lparr>ch_out := ch_out (c\<lparr>ch_out := ch_out c @ o1\<rparr>) @ o2\<rparr>"
      using sil_one.out_only [of e d p "c\<lparr>ch_out := ch_out c @ o1\<rparr>"] by blast
    with o1 show ?thesis by (intro exI [of _ "o1 @ o2"]) simp
  qed
  show "\<exists>out. Invite e p n c = c\<lparr>ch_out := ch_out c @ out\<rparr>" for c
    by (simp add: Invite_def Let_def sil_one.out_only no_output two split: option.split)
qed

section \<open>What even a broken channel keeps\<close>

text \<open>
  The owner who kicks himself leaves an entry with a zero guid behind (\<open>owner_self_kick\<close>), and
  from then on the hand-over of \<open>Leave\<close> may make guid zero the owner. \<open>ch_weak\<close> is what every call,
  that one included, preserves without any condition.
\<close>

definition weak_entry :: "channel \<Rightarrow> u64 \<Rightarrow> PlayerInfo \<Rightarrow> bool" where
  "weak_entry c k i \<longleftrightarrow> (pi_player i = k \<or> pi_player i = 0) \<and> (IsBanned c k \<longrightarrow> pi_player i = 0) \<and>
     (IsOwner i \<longrightarrow> k = ch_ownerGUID c \<and> k \<noteq> 0)"

definition ch_weak :: "channel \<Rightarrow> bool" where
  "ch_weak c \<longleftrightarrow> sm_wf (ch_players c) \<and> sm_wf (ch_banned c) \<and>
     (\<forall>k i. sm_find (ch_players c) k = Some i \<longrightarrow> weak_entry c k i)"

lemma ch_weak_entry: "ch_weak c \<Longrightarrow> sm_find (ch_players c) k = Some i \<Longrightarrow> weak_entry c k i"
  by (simp add: ch_weak_def)

lemma ch_weakD:
  assumes "ch_weak c" "sm_find (ch_players c) k = Some i"
  shows "pi_player i \<noteq> 0 \<Longrightarrow> pi_player i = k" "IsBanned c k \<Longrightarrow> pi_player i = 0"
    "IsOwner i \<Longrightarrow> k = ch_ownerGUID c" "IsOwner i \<Longrightarrow> k \<noteq> 0"
  using ch_weak_entry [OF assms] by (auto simp: weak_entry_def)

lemma ch_inv_weak: "ch_inv c \<Longrightarrow> ch_weak c"
  by (auto simp: ch_inv_def ch_weak_def good_entry_def weak_entry_def)

lemma ch_weak_cong:
  "ch_players d = ch_players c \<Longrightarrow> ch_banned d = ch_banned c \<Longrightarrow> ch_ownerGUID d = ch_ownerGUID c \<Longrightarrow>
   ch_weak d = ch_weak c"
  by (simp add: ch_weak_def weak_entry_def IsBanned_def)

context silent_step
begin

lemma silent_weak [simp]: "ch_weak (f c) = ch_weak c"
  by (rule ch_weak_cong) simp_all

end

lemma ch_weak_fields [simp]:
  "ch_weak (c\<lparr>ch_password := w\<rparr>) = ch_weak c" "ch_weak (c\<lparr>ch_announce := a\<rparr>) = ch_weak c"
  "ch_weak (c\<lparr>ch_ownership := b\<rparr>) = ch_weak c"
  by (rule ch_weak_cong; simp)+

lemma same_state_weak: "same_state c d \<Longrightarrow> ch_weak d = ch_weak c"
  unfolding same_state_def by (erule ssubst) (rule ch_weak_cong; simp)

text \<open>\<open>operator[]\<close> of a guid without an entry makes one with a zero guid, which is allowed here.\<close>

lemma ch_weak_upd:
  assumes "ch_weak c" "\<And>i. pi_player (f i) = pi_player i" "\<And>i. IsOwner (f i) = IsOwner i"
  shows "ch_weak (player_upd k f c)"
proof -
  have "\<not> IsOwner \<lparr>pi_player = 0, pi_flags = 0\<rparr>" by (simp add: IsOwner_def)
  then have "weak_entry (player_upd k f c) j i" if "sm_find (ch_players (player_upd k f c)) j = Some i" for j i
    using that assms(2,3)
    by (cases "sm_find (ch_players c) k")
      (auto simp: chan_simps weak_entry_def player_ref_def split: if_splits dest: ch_weakD [OF assms(1)])
  with assms(1) show ?thesis unfolding ch_weak_def by (simp add: sm_wf_player_upd)
qed

lemma ch_weak_SetOwner:
  assumes w: "ch_weak c"
  shows "ch_weak (SetOwner e g x c)"
proof (cases "g = 0")
  case False
  have "weak_entry (SetOwner e g x c) j k" if "sm_find (ch_players (SetOwner e g x c)) j = Some k" for j k
    using that False
    by (cases "sm_find (ch_players c) g")
      (auto simp: find_SetOwner weak_entry_def player_ref_def split: if_splits dest: ch_weakD [OF w])
  with w show ?thesis unfolding ch_weak_def by (simp add: sm_wf_SetOwner)
next
  case True
  let ?c1 = "if ch_ownerGUID c \<noteq> 0 \<and> sm_find (ch_players c) (ch_ownerGUID c) \<noteq> None
     then player_upd (ch_ownerGUID c) (pi_SetOwner False) c else c"
  have own: "\<not> IsOwner i" if "sm_find (ch_players c) j = Some i" "j \<noteq> ch_ownerGUID c \<or> j = 0" for j i
    using that ch_weakD(3,4) [OF w that(1)] by auto
  have b: "IsBanned (d\<lparr>ch_ownerGUID := 0\<rparr>) = IsBanned d" for d :: channel
    by (simp add: IsBanned_def fun_eq_iff)
  have s: "SetOwner e g x c = ?c1\<lparr>ch_ownerGUID := 0\<rparr>" using True by (simp add: SetOwner_def Let_def)
  have "weak_entry (?c1\<lparr>ch_ownerGUID := 0\<rparr>) j i" if "sm_find (ch_players ?c1) j = Some i" for j i
    using that b own [of j i]
    by (cases "j = ch_ownerGUID c"; cases "ch_ownerGUID c = 0")
      (auto simp: weak_entry_def chan_simps split: if_splits dest: ch_weakD(1,2) [OF w])
  with w show ?thesis unfolding s ch_weak_def by (simp add: sm_wf_player_upd)
qed

lemma ch_weak_put_member: "ch_weak c \<Longrightarrow> \<not> IsBanned c p \<Longrightarrow> ch_weak (put_member p c)"
  unfolding ch_weak_def by (auto simp: chan_simps weak_entry_def split: if_splits)

lemma ch_weak_drop_member: "ch_weak c \<Longrightarrow> ch_weak (drop_member p c)"
  unfolding ch_weak_def by (auto simp: chan_simps weak_entry_def split: if_splits)

lemma Join_weak: "ch_weak c \<Longrightarrow> ch_weak (Join e p pass c)"
proof (cases "join_admits e p pass c")
  case True
  moreover assume "ch_weak c"
  ultimately have "ch_weak (enter e p c)"
    by (simp add: enter_def Let_def ch_weak_put_member join_admits_def)
  then show ?thesis by (simp add: Join_admitted [OF True] Let_def ch_weak_upd ch_weak_SetOwner)
qed (simp add: same_state_weak [OF same_stateI, OF Join_refused])

lemma Leave_weak: "ch_weak c \<Longrightarrow> ch_weak (Leave e p send c)"
proof (cases "IsOn c p")
  case True
  moreover assume "ch_weak c"
  then have "ch_weak (depart e p send c)" by (simp add: depart_def Let_def ch_weak_drop_member)
  ultimately show ?thesis
    by (simp add: Leave_on Let_def hand_over_def ch_weak_upd ch_weak_SetOwner split: list.split)
qed (simp add: same_state_weak [OF same_stateI, OF Leave_not_on])

lemma ch_weak_expel:
  assumes "ch_weak c"
  shows "ch_weak (expel e g b ban c)"
proof -
  have "weak_entry (expel e g b ban c) j i" if "sm_find (ch_players (expel e g b ban c)) j = Some i" for j i
    using that ch_weak_entry [OF assms]
    by (auto simp: weak_entry_def IsBanned_expel sm_find_erase split: if_splits)
  with assms show ?thesis
    unfolding ch_weak_def by (simp add: sm_wf_banned_expel smap.wf_erase)
qed

lemma KickOrBan_weak: "ch_weak c \<Longrightarrow> ch_weak (KickOrBan e good n ban c)"
proof (cases "kick_target e good n c")
  case None
  then show "ch_weak c \<Longrightarrow> ?thesis" by (simp add: same_state_weak [OF same_stateI, OF KickOrBan_refused])
next
  case (Some b)
  then show "ch_weak c \<Longrightarrow> ?thesis"
    by (simp add: KickOrBan_done [OF Some] Let_def ch_weak_expel ch_weak_upd ch_weak_SetOwner)
qed

lemma ch_weak_unban: "ch_weak c \<Longrightarrow> ch_weak (c\<lparr>ch_banned := sm_erase b (ch_banned c)\<rparr>)"
  by (auto simp: ch_weak_def weak_entry_def IsBanned_def smap.wf_erase sm_find_erase split: if_splits)

lemma UnBan_weak: "ch_weak c \<Longrightarrow> ch_weak (UnBan e p n c)"
  by (simp add: UnBan_def Let_def ch_weak_unban split: option.split)

lemma Password_weak: "ch_weak c \<Longrightarrow> ch_weak (Password e p w c)"
  by (simp add: Password_def Let_def)

lemma Announce_weak: "ch_weak c \<Longrightarrow> ch_weak (Announce e p c)"
  by (simp add: Announce_def Let_def)

lemma SetMode_weak: "ch_weak c \<Longrightarrow> ch_weak (SetMode e p n md st c)"
  by (simp add: SetMode_def SetModeratorFlag_def SetMuteFlag_def Let_def ch_weak_upd split: option.split)

lemma SetOwnerByName_weak: "ch_weak c \<Longrightarrow> ch_weak (SetOwnerByName e p n c)"
  by (simp add: SetOwnerByName_def ch_weak_upd ch_weak_SetOwner split: option.split)

lemma SetOwnership_inv: "ch_inv (SetOwnership b c) = ch_inv c" "ch_weak (SetOwnership b c) = ch_weak c"
  by (simp_all add: SetOwnership_def)

lemma SetOwnership_off: "owner_ok (SetOwnership False c)"
  by (simp add: SetOwnership_def owner_ok_def)

section \<open>The life of a channel\<close>

text \<open>
  A channel starts from the constructor and lives through the calls of the packet handlers and
  the ownership command of the administrators (\<open>cs_message.cpp\<close>), in any order and with any state
  of the rest of the server. Two calls are told apart: an owner who kicks or bans himself, and
  switching the ownership on. \<open>chan_reach E c\<close> says that \<open>c\<close> has come about by calls whose kinds
  are \<open>E\<close>. The manager deletes a custom channel that \<open>Leave\<close> has emptied (see \<open>Channel_Mgr\<close>), so
  \<open>leave\<close> keeps either a member or a constant channel.
\<close>

datatype chan_event = Ordinary | OwnerNamesHimself | OwnershipSwitchedOn

inductive chan_step :: "channel \<Rightarrow> chan_event \<Rightarrow> channel \<Rightarrow> bool" where
  join: "p \<noteq> 0 \<Longrightarrow> chan_step c Ordinary (Join e p pass c)"
| leave: "ch_players (Leave e p send c) \<noteq> [] \<or> IsConstant c \<Longrightarrow> chan_step c Ordinary (Leave e p send c)"
| kick: "chan_step c
    (if kick_target e good n c = Some good \<and> good = ch_ownerGUID c then OwnerNamesHimself else Ordinary)
    (KickOrBan e good n ban c)"
| unban: "chan_step c Ordinary (UnBan e good n c)"
| pass: "chan_step c Ordinary (Password e p w c)"
| mode: "chan_step c Ordinary (SetMode e p n md st c)"
| owner: "env_ok e \<Longrightarrow> chan_step c Ordinary (SetOwnerByName e p n c)"
| who: "chan_step c Ordinary (SendWhoOwner e p c)"
| listing: "chan_step c Ordinary (ch_List e pl c)"
| announce: "chan_step c Ordinary (Announce e p c)"
| say: "chan_step c Ordinary (Say e p what lang c)"
| invite: "chan_step c Ordinary (Invite e p n c)"
| ownership: "chan_step c (if on then OwnershipSwitchedOn else Ordinary) (SetOwnership on c)"

inductive chan_reach :: "chan_event set \<Rightarrow> channel \<Rightarrow> bool" where
  created: "chan_reach {} (new_channel e name channel_id team)"
| step: "chan_reach E c \<Longrightarrow> chan_step c ev d \<Longrightarrow> chan_reach (insert ev E) d"

lemma step_weak: "chan_step c ev d \<Longrightarrow> ch_weak c \<Longrightarrow> ch_weak d"
  by (induction rule: chan_step.induct)
    (simp_all add: Join_weak Leave_weak KickOrBan_weak UnBan_weak Password_weak SetMode_weak
      SetOwnerByName_weak Announce_weak SetOwnership_inv)

lemma step_inv: "chan_step c ev d \<Longrightarrow> ev \<noteq> OwnerNamesHimself \<Longrightarrow> ch_inv c \<Longrightarrow> ch_inv d"
  by (induction rule: chan_step.induct)
    (simp_all add: Join_inv Leave_inv KickOrBan_inv UnBan_inv Password_inv SetMode_inv
      SetOwnerByName_inv Announce_inv SetOwnership_inv split: if_splits)

lemma Leave_constant_owner_ok: "IsConstant c \<Longrightarrow> owner_ok (Leave e p send c)"
proof (cases "IsOn c p")
  case True
  then show "IsConstant c \<Longrightarrow> ?thesis" by (simp add: Leave_on Let_def owner_ok_def)
qed (simp add: Leave_def owner_ok_def)

lemma step_owner_ok:
  "chan_step c ev d \<Longrightarrow> ev = Ordinary \<Longrightarrow> ch_inv c \<Longrightarrow> owner_ok c \<Longrightarrow> owner_ok d"
  by (induction rule: chan_step.induct)
    (auto simp: Join_owner_ok Leave_owner_ok Leave_constant_owner_ok KickOrBan_owner_ok UnBan_owner_ok
      Password_owner_ok SetMode_owner_ok SetOwnerByName_owner_ok Announce_owner_ok SetOwnership_off
      split: if_splits)

lemma sm_wf_load_banlist: "sm_wf (load_banlist s)"
proof -
  have "sm_wf b \<Longrightarrow> sm_wf (fold (\<lambda>tok b. let banned_guid = (word_of_int (atol tok) :: u64) in
       if banned_guid \<noteq> 0 then sm_put banned_guid () b else b) ts b)" for ts b
    by (induction ts arbitrary: b) (simp_all add: Let_def sm_wf_put)
  then show ?thesis unfolding load_banlist_def by simp
qed

lemma new_channel_fields [simp]:
  "ch_players (new_channel e n i t) = []" "ch_ownerGUID (new_channel e n i t) = 0"
  "ch_name (new_channel e n i t) = n" "ch_channelId (new_channel e n i t) = i"
  by (simp_all add: new_channel_def Let_def split: option.split)

lemma new_channel_inv: "ch_inv (new_channel e n i t)"
  unfolding ch_inv_def
  by (simp add: new_channel_def Let_def sm_wf_load_banlist split: option.split)

lemma new_channel_owner_ok: "owner_ok (new_channel e n i t)"
  by (simp add: owner_ok_def)

lemma reach_weak: "chan_reach E c \<Longrightarrow> ch_weak c"
  by (induction rule: chan_reach.induct)
    (auto intro: step_weak ch_inv_weak new_channel_inv)

lemma reach_inv: "chan_reach E c \<Longrightarrow> OwnerNamesHimself \<notin> E \<Longrightarrow> ch_inv c"
  by (induction rule: chan_reach.induct) (auto simp: new_channel_inv intro: step_inv)

lemma reach_owner_ok: "chan_reach E c \<Longrightarrow> E \<subseteq> {Ordinary} \<Longrightarrow> owner_ok c"
proof (induction rule: chan_reach.induct)
  case (step E c ev d)
  then have "ch_inv c" by (intro reach_inv) auto
  with step show ?case by (auto intro: step_owner_ok)
qed (simp add: new_channel_owner_ok)

end
