(* ===== verification/Channel_Props.thy ===== *)
theory Channel_Props
  imports Channel_Inv
begin

text \<open>
  The properties of chat channels: the invariant of every reachable channel, authority and
  protection of the owner, the gate of \<open>Join\<close>, delivery of \<open>Say\<close>, succession of the owner,
  persistence of the ban list, and the call that breaks the member list.
\<close>

section \<open>A small server\<close>

text \<open>Three players, the third a game master; used by the witnesses.\<close>

definition demo_player :: "u64 \<Rightarrow> chan_player" where
  "demo_player g = \<lparr>pl_guid = g, pl_name = (if g = 1 then ''Ann'' else if g = 2 then ''Bob'' else ''Gm''),
     pl_security = (if g = 3 then 3 else 0), pl_team = 469, pl_in_group = False,
     pl_ignores = (if g = 2 then [1] else []), pl_gm_visible = True, pl_chat_tag = 0,
     pl_visible_for = (\<lambda>_. True)\<rparr>"

definition demo_env :: chan_env where
  "demo_env = \<lparr>FindPlayer = (\<lambda>g. if g = 1 \<or> g = 2 \<or> g = 3 then Some (demo_player g) else None),
     FindPlayerByName = (\<lambda>n. if n = ''Ann'' then Some (demo_player 1)
       else if n = ''Bob'' then Some (demo_player 2) else if n = ''Gm'' then Some (demo_player 3) else None),
     GetPlayerNameByGUID = (\<lambda>_. None), two_side_channels = False, silent_gm_join = False,
     restricted_lfg = False, preserve_channels = False, gm_level_in_who = 0,
     chat_channels = (\<lambda>_. None), channel_row = (\<lambda>_ _. None)\<rparr>"

definition demo_channel :: channel where
  "demo_channel = Join demo_env 2 '''' (Join demo_env 1 '''' (new_channel demo_env ''x'' 0 469))"

lemma demo_reach: "chan_reach {Ordinary, Ordinary} demo_channel"
  unfolding demo_channel_def
  by (rule chan_reach.step [OF chan_reach.step [OF chan_reach.created chan_step.join] chan_step.join])
    simp_all

lemma demo_inv: "ch_inv demo_channel" using reach_inv [OF demo_reach] by simp

lemma demo_members:
  "ch_players demo_channel = [(1, \<lparr>pi_player = 1, pi_flags = 3\<rparr>), (2, \<lparr>pi_player = 2, pi_flags = 0\<rparr>)]"
  "ch_ownerGUID demo_channel = 1" "ch_ownership demo_channel" "ch_channelId demo_channel = 0"
  "ch_banned demo_channel = []"
  by (code_simp, code_simp, code_simp, code_simp, code_simp)

lemma demo_env_simps [simp]:
  "FindPlayer demo_env g = (if g = 1 \<or> g = 2 \<or> g = 3 then Some (demo_player g) else None)"
  "FindPlayerByName demo_env n = (if n = ''Ann'' then Some (demo_player 1)
       else if n = ''Bob'' then Some (demo_player 2) else if n = ''Gm'' then Some (demo_player 3) else None)"
  by (simp_all add: demo_env_def)

lemma demo_facts [simp]:
  "IsOn demo_channel k \<longleftrightarrow> k = 1 \<or> k = 2" "\<not> IsBanned demo_channel k" "\<not> IsConstant demo_channel"
  by (simp_all add: IsOn_def IsBanned_def IsConstant_def demo_members sm_find_def)

lemma demo_security [simp]:
  "\<not> IsGMAccount (security_of demo_env 1)" "\<not> IsGMAccount (security_of demo_env 2)"
  by (simp_all add: security_of_def demo_player_def account_defs sec_defs)

section \<open>The invariant\<close>

text \<open>
  C4: the member list of every channel that any sequence of calls can produce. Whatever has
  happened, an entry records its own guid or zero, only the owner of record carries the owner
  flag, and a banned guid can be on the channel only with a zero entry. As long as no owner has
  kicked or banned himself, every entry records its own guid, which is not zero, and no member is
  banned. And as long as no administrator has switched the ownership on either, a custom channel
  with members whose ownership is enabled has its owner among them, flagged as owner and moderator.
\<close>

theorem channel_invariant:
  assumes "chan_reach E c"
  shows "(\<forall>k i. sm_find (ch_players c) k = Some i \<longrightarrow>
      (pi_player i = k \<or> pi_player i = 0) \<and> (IsBanned c k \<longrightarrow> pi_player i = 0) \<and>
      (IsOwner i \<longrightarrow> k = ch_ownerGUID c \<and> k \<noteq> 0)) \<and>
    (OwnerNamesHimself \<notin> E \<longrightarrow>
      (\<forall>k i. sm_find (ch_players c) k = Some i \<longrightarrow> pi_player i = k \<and> k \<noteq> 0 \<and> \<not> IsBanned c k)) \<and>
    (OwnerNamesHimself \<notin> E \<and> OwnershipSwitchedOn \<notin> E \<longrightarrow>
      \<not> IsConstant c \<and> ch_ownership c \<and> ch_players c \<noteq> [] \<longrightarrow>
      IsOn c (ch_ownerGUID c) \<and> IsOwner (player_ref c (ch_ownerGUID c)) \<and>
      IsModerator (player_ref c (ch_ownerGUID c)))"
proof (intro conjI impI)
  show "\<forall>k i. sm_find (ch_players c) k = Some i \<longrightarrow>
      (pi_player i = k \<or> pi_player i = 0) \<and> (IsBanned c k \<longrightarrow> pi_player i = 0) \<and>
      (IsOwner i \<longrightarrow> k = ch_ownerGUID c \<and> k \<noteq> 0)"
    using ch_weak_entry [OF reach_weak [OF assms]] by (simp add: weak_entry_def)
  show "\<forall>k i. sm_find (ch_players c) k = Some i \<longrightarrow> pi_player i = k \<and> k \<noteq> 0 \<and> \<not> IsBanned c k"
    if "OwnerNamesHimself \<notin> E"
    using ch_inv_entry [OF reach_inv [OF assms that]] by (simp add: good_entry_def)
next
  assume e: "OwnerNamesHimself \<notin> E \<and> OwnershipSwitchedOn \<notin> E"
    and c: "\<not> IsConstant c \<and> ch_ownership c \<and> ch_players c \<noteq> []"
  have "E \<subseteq> {Ordinary}"
  proof
    fix ev assume "ev \<in> E"
    with e show "ev \<in> {Ordinary}" by (cases ev) auto
  qed
  with c have "has_owner c" using reach_owner_ok [OF assms] by (simp add: owner_ok_def)
  then show "IsOn c (ch_ownerGUID c)" "IsOwner (player_ref c (ch_ownerGUID c))"
    "IsModerator (player_ref c (ch_ownerGUID c))"
    by (auto simp: has_owner_def IsOn_def player_ref_def split: option.splits)
qed

definition self_banned :: channel where
  "self_banned = KickOrBan demo_env 1 ''Ann'' True demo_channel"

theorem channel_invariant_witness:
  "IsOn demo_channel 1 \<and> IsOwner (player_ref demo_channel 1) \<and> IsModerator (player_ref demo_channel 1) \<and>
   IsOn self_banned 1 \<and> IsBanned self_banned 1 \<and> pi_player (player_ref self_banned 1) = 0"
proof -
  have t: "kick_target demo_env 1 ''Ann'' demo_channel = Some 1" "ch_ownerGUID demo_channel = 1"
    by code_simp+
  then have "chan_reach {OwnerNamesHimself, Ordinary} self_banned"
    using chan_reach.step [OF demo_reach chan_step.kick [of demo_channel demo_env 1 "''Ann''" True]]
    by (simp add: self_banned_def)
  moreover have on: "sm_find (ch_players self_banned) 1 = Some (player_ref self_banned 1)"
    "IsOn self_banned 1" "IsBanned self_banned 1"
    by code_simp+
  ultimately show ?thesis
    using channel_invariant [OF demo_reach] channel_invariant [of "{OwnerNamesHimself, Ordinary}" self_banned]
    by (simp add: demo_members)
qed

section \<open>Authority\<close>

text \<open>
  C5: a caller who is not on the channel, or who is neither a moderator of it nor a game master,
  changes nothing by kicking, banning, unbanning, setting the password, the announcements, or a
  member's moderator or mute flag: the call only sends a notice.
\<close>

theorem no_authority_no_change:
  assumes "\<not> (IsOn c p \<and> (IsModerator (player_ref c p) \<or> IsGMAccount (security_of e p)))"
  shows "\<forall>f \<in> {Kick e p n, Ban e p n, UnBan e p n, Password e p w, Announce e p, SetMode e p n md st}.
    \<exists>out. f c = c\<lparr>ch_out := ch_out c @ out\<rparr>"
proof -
  have a: "\<not> authority e p c" using assms by (simp add: authority_def)
  then have "kick_target e p n c = None" by (simp add: kick_target_def)
  with a show ?thesis
    by (simp add: Kick_def Ban_def KickOrBan_refused UnBan_refused Password_refused Announce_refused
        SetMode_refused)
qed

theorem no_authority_no_change_witness:
  "\<exists>out. Ban demo_env 2 ''Ann'' demo_channel = demo_channel\<lparr>ch_out := ch_out demo_channel @ out\<rparr>"
  using no_authority_no_change [of demo_channel 2 demo_env "''Ann''"]
  by (simp add: IsModerator_def player_ref_def demo_members sm_find_def)

text \<open>
  C6: nobody but a game master or the owner himself can kick, ban, mute or change the moderator
  flag of the owner of a channel.
\<close>

theorem owner_protected:
  assumes "\<not> IsGMAccount (security_of e p)" and "p \<noteq> ch_ownerGUID c"
    and "FindPlayerByName e n = Some own" and "pl_guid own = ch_ownerGUID c"
  shows "\<forall>f \<in> {Kick e p n, Ban e p n, SetMode e p n md st}. \<exists>out. f c = c\<lparr>ch_out := ch_out c @ out\<rparr>"
proof -
  have "kick_target e p n c = None" using assms by (simp add: kick_target_def)
  then have k: "\<exists>out. KickOrBan e p n b c = c\<lparr>ch_out := ch_out c @ out\<rparr>" for b
    by (rule KickOrBan_refused)
  have "\<exists>out. SetMode e p n md st c = c\<lparr>ch_out := ch_out c @ out\<rparr>"
  proof (cases "FindPlayer e p")
    case None
    then show ?thesis by (simp add: SetMode_def no_output)
  next
    case (Some pl)
    then have "\<not> IsGMAccount (pl_security pl)" using assms(1) by (simp add: security_of_found)
    with assms(2) show ?thesis
      unfolding SetMode_def Some assms(3) option.case assms(4)
      by (simp add: sil_one.out_only)
  qed
  with k show ?thesis by (simp add: Kick_def Ban_def)
qed

theorem owner_protected_witness:
  "\<exists>out. Ban demo_env 2 ''Ann'' (player_upd 2 (pi_SetModerator True) demo_channel) =
    (player_upd 2 (pi_SetModerator True) demo_channel)\<lparr>ch_out := ch_out demo_channel @ out\<rparr>"
  using owner_protected [of demo_env 2 "player_upd 2 (pi_SetModerator True) demo_channel" "''Ann''"
    "demo_player 1"]
  by (simp add: demo_members demo_player_def)

section \<open>Joining\<close>

text \<open>
  C7: after \<open>Join\<close> the members are those before, and the caller exactly when he was not
  already on, is not banned, gave the password if there is one and is not refused by the
  looking-for-group rule; everybody else keeps his entry unless he was the owner of record. A
  newcomer is owner and moderator exactly when a custom channel with ownership had no owner.
\<close>

theorem join_membership:
  assumes "p \<noteq> 0"
  shows "(IsOn (Join e p pass c) q \<longleftrightarrow> IsOn c q \<or> (q = p \<and> join_admits e p pass c)) \<and>
    (join_admits e p pass c \<longrightarrow>
      IsOwner (player_ref (Join e p pass c) p) = (\<not> IsConstant c \<and> ch_ownerGUID c = 0 \<and> ch_ownership c) \<and>
      IsModerator (player_ref (Join e p pass c) p) = (\<not> IsConstant c \<and> ch_ownerGUID c = 0 \<and> ch_ownership c))"
proof (cases "join_admits e p pass c")
  case False
  then obtain out where "Join e p pass c = c\<lparr>ch_out := ch_out c @ out\<rparr>" using Join_refused by blast
  then have "IsOn (Join e p pass c) q = IsOn c q" by (simp add: IsOn_def)
  with False show ?thesis by simp
next
  case True
  then show ?thesis
    using assms by (auto simp: Join_admitted [OF True] Let_def takes_ownership_def IsOn_def
        player_ref_def find_SetOwner chan_simps split: option.splits)
qed

theorem join_membership_witness:
  "IsOn (Join demo_env 3 ''pw'' demo_channel) 3 \<and> \<not> IsOwner (player_ref (Join demo_env 3 ''pw'' demo_channel) 3)"
proof -
  have "ch_password demo_channel = ''''" "\<not> lfg_refused demo_env 3 demo_channel"
    by (code_simp, simp add: lfg_refused_def demo_env_def)
  then have "join_admits demo_env 3 ''pw'' demo_channel" by (simp add: join_admits_def)
  then show ?thesis
    using join_membership [of 3 demo_env "''pw''" demo_channel 3] by (simp add: demo_members)
qed

section \<open>Speaking\<close>

text \<open>
  C8: who hears what a member says. A muted member is told so and nobody hears anything. What a
  moderator says is sent once to every member who is online, to those who ignore him too; what
  any other member says is sent once to every member who is online and does not ignore him.
  Nobody else is sent anything, and who is not a member only gets a notice himself.
\<close>

theorem say_delivery:
  assumes "sm_wf (ch_players c)" and "p \<noteq> 0"
  shows "let d = Say e p (Some what) lang c in
    (\<not> IsOn c p \<longrightarrow> d = SendToOne e (MakeNotMember c) p c) \<and>
    (IsOn c p \<and> IsMuted (player_ref c p) \<longrightarrow> d = SendToOne e (MakeMuted c) p c) \<and>
    (IsOn c p \<and> \<not> IsMuted (player_ref c p) \<longrightarrow>
      (\<exists>rs. d = c\<lparr>ch_out := ch_out c @
          map (\<lambda>k. SendPacket k (chat_packet e p what (if two_side_channels e then LANG_UNIVERSAL else lang) c)) rs\<rparr> \<and>
        distinct rs \<and>
        set rs = {k. IsOn c k \<and> (\<exists>pl. FindPlayer e k = Some pl \<and>
          (IsModerator (player_ref c p) \<or> \<not> HasIgnore pl (GUID_LOPART p)))}))"
proof -
  let ?q = "if \<not> IsModerator (player_ref c p) then p else 0"
  have "set (all_recipients e ?q c) = {k. IsOn c k \<and> (\<exists>pl. FindPlayer e k = Some pl \<and>
      (IsModerator (player_ref c p) \<or> \<not> HasIgnore pl (GUID_LOPART p)))}"
    using assms(2) by (auto simp: all_recipients_def in_sm_keys IsOn_def split: option.splits)
  moreover have "distinct (all_recipients e ?q c)"
    unfolding all_recipients_def using smap.distinct_keys [OF assms(1)] by simp
  ultimately have "\<exists>rs. SendToAll e data ?q c = c\<lparr>ch_out := ch_out c @ map (\<lambda>k. SendPacket k data) rs\<rparr> \<and>
      distinct rs \<and> set rs = {k. IsOn c k \<and> (\<exists>pl. FindPlayer e k = Some pl \<and>
        (IsModerator (player_ref c p) \<or> \<not> HasIgnore pl (GUID_LOPART p)))}" for data
    by (intro exI [of _ "all_recipients e ?q c"]) (simp add: SendToAll_def emit_def)
  then show ?thesis unfolding Let_def Say_def option.case by (simp split: if_split)
qed

text \<open>Bob ignores Ann; she is the owner and a moderator, and says the same again when she is not.\<close>

theorem say_delivery_witness:
  "(\<exists>rs data. ch_out (Say demo_env 1 (Some ''hi'') 7 demo_channel) =
      ch_out demo_channel @ map (\<lambda>k. SendPacket k data) rs \<and> distinct rs \<and> set rs = {1, 2}) \<and>
   (let c = player_upd 1 (pi_SetModerator False) demo_channel in
    \<exists>rs data. ch_out (Say demo_env 1 (Some ''hi'') 7 c) =
      ch_out c @ map (\<lambda>k. SendPacket k data) rs \<and> distinct rs \<and> set rs = {1})"
proof -
  let ?c = "player_upd 1 (pi_SetModerator False) demo_channel"
  have w: "sm_wf (ch_players demo_channel)" using demo_inv by (rule ch_inv_wf)
  then have w': "sm_wf (ch_players ?c)" by (rule sm_wf_player_upd)
  have r: "IsModerator (player_ref demo_channel 1)" "\<not> IsMuted (player_ref demo_channel 1)"
    by (simp_all add: player_ref_def demo_members sm_find_def IsModerator_def IsMuted_def
        member_flag_defs has_flag_def)
  then have r': "\<not> IsModerator (player_ref ?c 1)" "\<not> IsMuted (player_ref ?c 1)" "IsOn ?c 1"
    by (simp_all add: player_ref_upd IsOn_player_upd)
  have lo: "GUID_LOPART 1 = 1" by code_simp
  have "\<exists>rs. ch_out (Say demo_env 1 (Some ''hi'') 7 c) = ch_out c @
        map (\<lambda>k. SendPacket k (chat_packet demo_env 1 ''hi'' (if two_side_channels demo_env then LANG_UNIVERSAL else 7) c)) rs \<and>
      distinct rs \<and> set rs = {k. IsOn c k \<and> (\<exists>pl. FindPlayer demo_env k = Some pl \<and>
        (IsModerator (player_ref c 1) \<or> \<not> HasIgnore pl (GUID_LOPART 1)))}"
    if "sm_wf (ch_players c)" "IsOn c 1" "\<not> IsMuted (player_ref c 1)" for c
  proof -
    have one: "(1 :: u64) \<noteq> 0" by simp
    from say_delivery [OF that(1) one, of demo_env "''hi''" 7, unfolded Let_def, THEN conjunct2,
        THEN conjunct2, THEN mp, OF conjI [OF that(2,3)]]
    obtain rs where "Say demo_env 1 (Some ''hi'') 7 c = c\<lparr>ch_out := ch_out c @
        map (\<lambda>k. SendPacket k (chat_packet demo_env 1 ''hi'' (if two_side_channels demo_env then LANG_UNIVERSAL else 7) c)) rs\<rparr>"
      "distinct rs" "set rs = {k. IsOn c k \<and> (\<exists>pl. FindPlayer demo_env k = Some pl \<and>
        (IsModerator (player_ref c 1) \<or> \<not> HasIgnore pl (GUID_LOPART 1)))}"
      by (elim exE conjE)
    then show ?thesis by (intro exI [of _ rs]) simp
  qed
  from this [OF w] this [OF w' r'(3,2)] have heard: "?thesis" if
      "{k. IsOn demo_channel k \<and> (\<exists>pl. FindPlayer demo_env k = Some pl \<and>
      (IsModerator (player_ref demo_channel 1) \<or> \<not> HasIgnore pl (GUID_LOPART 1)))} = {1, 2}"
      "{k. IsOn ?c k \<and> (\<exists>pl. FindPlayer demo_env k = Some pl \<and>
      (IsModerator (player_ref ?c 1) \<or> \<not> HasIgnore pl (GUID_LOPART 1)))} = {1}"
    using r(2) unfolding Let_def that by (simp only: demo_facts) blast
  have "{k. IsOn demo_channel k \<and> (\<exists>pl. FindPlayer demo_env k = Some pl \<and>
      (IsModerator (player_ref demo_channel 1) \<or> \<not> HasIgnore pl (GUID_LOPART 1)))} = {1, 2}"
    using r by auto
  moreover have "{k. IsOn ?c k \<and> (\<exists>pl. FindPlayer demo_env k = Some pl \<and>
      (IsModerator (player_ref ?c 1) \<or> \<not> HasIgnore pl (GUID_LOPART 1)))} = {1}"
    using r' lo by (auto simp: IsOn_player_upd HasIgnore_def demo_player_def)
  ultimately show ?thesis by (rule heard)
qed

section \<open>Succession\<close>

text \<open>
  When the owner of a custom channel with ownership leaves it to somebody, the member with
  the least guid becomes the owner, with both flags, and the others stay.
\<close>

theorem owner_leaves:
  assumes "chan_reach E c" and "OwnerNamesHimself \<notin> E" and "IsOn c p" and "IsOwner (player_ref c p)" and "\<not> IsConstant c"
    and "ch_ownership c" and "IsOn c q" and "q \<noteq> p"
  shows "let d = Leave e p send c in
    (\<forall>j. IsOn d j \<longleftrightarrow> IsOn c j \<and> j \<noteq> p) \<and> IsOn d (ch_ownerGUID d) \<and>
    (\<forall>j. IsOn d j \<longrightarrow> ch_ownerGUID d \<le> j) \<and>
    IsOwner (player_ref d (ch_ownerGUID d)) \<and> IsModerator (player_ref d (ch_ownerGUID d))"
proof -
  let ?d = "UpdateChannelUseageInDB (depart e p send c)"
  have i: "ch_inv ?d" using reach_inv [OF assms(1,2)] by (simp add: ch_inv_depart)
  have on: "IsOn ?d j \<longleftrightarrow> IsOn c j \<and> j \<noteq> p" for j by (auto simp: IsOn_def chan_simps)
  then have "IsOn ?d q" using assms by simp
  then have ne: "ch_players ?d \<noteq> []" by (auto simp: IsOn_def)
  obtain k m where k: "sm_find (ch_players ?d) k = Some m" "k \<noteq> 0" "\<And>j. IsOn ?d j \<Longrightarrow> k \<le> j"
    and h: "hand_over e ?d = SetOwner e k True (player_upd k (pi_SetModerator True) ?d)"
    using hand_over_least [OF i ne] by metis
  have l: "Leave e p send c = SetOwner e k True (player_upd k (pi_SetModerator True) ?d)"
    using assms ne by (simp add: Leave_on Let_def h)
  have on': "IsOn (Leave e p send c) j \<longleftrightarrow> IsOn c j \<and> j \<noteq> p" for j
  proof -
    have "IsOn (Leave e p send c) j \<longleftrightarrow> IsOn ?d j"
      using k(1,2) by (auto simp: l IsOn_def find_SetOwner chan_simps)
    with on show ?thesis by simp
  qed
  have kd: "IsOn ?d k" using k(1) by (simp add: IsOn_def)
  have own: "ch_ownerGUID (Leave e p send c) = k" by (simp add: l)
  have "has_owner (Leave e p send c)" using k(2) by (simp add: l has_owner_SetOwner)
  then have "IsOwner (player_ref (Leave e p send c) k)" "IsModerator (player_ref (Leave e p send c) k)"
    by (auto simp: has_owner_def own player_ref_def split: option.splits)
  with kd k(3) on on' show ?thesis by (simp add: Let_def own)
qed

theorem owner_leaves_witness:
  "ch_ownerGUID (Leave demo_env 1 True demo_channel) = 2"
proof -
  have "IsOwner (player_ref demo_channel 1)"
    by (simp add: player_ref_def demo_members sm_find_def IsOwner_def member_flag_defs has_flag_def)
  then show ?thesis
    using owner_leaves [OF demo_reach, of 1 2 demo_env True] by (auto simp: Let_def demo_members)
qed

section \<open>The stored ban list\<close>

lemma sm_put_above: "(\<And>j. j \<in> set (sm_keys m) \<Longrightarrow> j < k) \<Longrightarrow> sm_put k v m = m @ [(k, v)]"
  by (auto simp: sm_put_def sm_keys_def filter_id_conv filter_empty_conv dest: less_imp_not_less)

lemma fold_put_sorted:
  "sm_wf (m @ b) \<Longrightarrow> fold (\<lambda>k. sm_put k ()) (sm_keys b) m = m @ (b :: (u64, unit) smap)"
proof (induction b arbitrary: m)
  case (Cons x b)
  obtain k where x: "x = (k, ())" by (cases x) auto
  have "j < k" if "j \<in> set (sm_keys m)" for j
    using that Cons.prems by (auto simp: x sm_wf_def sm_keys_def sorted_wrt_append)
  then have "sm_put k () m = m @ [(k, ())]" by (rule sm_put_above)
  with Cons show ?case by (simp add: x sm_keys_def)
qed (simp add: sm_keys_def)

lemma banlist_tokens: "Tokens (banlist_string b) CHR '' '' = map (\<lambda>g. show_nat (unat g)) (sm_keys b)"
proof -
  have "Tokens (concat (map (\<lambda>w. w @ [CHR '' '']) (map (\<lambda>g. show_nat (unat g)) (sm_keys b)))) CHR '' '' =
      map (\<lambda>g. show_nat (unat g)) (sm_keys b)"
    by (rule Tokens_words) (auto dest: show_nat_digits is_digit_plain)
  then show ?thesis by (simp add: banlist_string_def comp_def)
qed

lemma load_banlist_string:
  assumes "sm_wf b" and "\<And>g. g \<in> set (sm_keys b) \<Longrightarrow> g \<noteq> 0 \<and> unat g < 2 ^ 63"
  shows "load_banlist (banlist_string b) = b"
proof -
  have "load_banlist (banlist_string b) = fold (\<lambda>k. sm_put k ()) (sm_keys b) []"
    unfolding load_banlist_def banlist_tokens fold_map
    by (rule fold_cong) (use assms(2) in \<open>auto simp: fun_eq_iff atol_show_nat Let_def\<close>)
  with fold_put_sorted [of "[]" b] assms(1) show ?thesis by simp
qed

text \<open>
  C9: the statement that saves a channel holds all that is needed to restore it: a channel
  constructed from the row it writes has the same announcements, ownership, password and banned
  players (whose guids are below \<open>2 ^ 63\<close>, the range of \<open>atol\<close>).
\<close>

theorem saved_channel_restores:
  assumes "ch_IsSaved c" and "sm_wf (ch_banned c)"
    and "\<forall>g. IsBanned c g \<longrightarrow> g \<noteq> 0 \<and> unat g < 2 ^ 63"
    and "chat_channels e 0 = None" and "preserve_channels e"
    and "ch_out (UpdateChannelInDB c) = ch_out c @ [UpdChannel a o' w b n t]"
    and "channel_row e n t = Some (a, o', w, Some b)"
  shows "let d = new_channel e n 0 t in
    ch_announce d = ch_announce c \<and> ch_ownership d = ch_ownership c \<and> ch_password d = ch_password c \<and>
    ch_banned d = ch_banned c \<and> ch_name d = ch_name c \<and> ch_Team d = ch_Team c \<and> ch_IsSaved d"
proof -
  have "load_banlist (banlist_string (ch_banned c)) = ch_banned c"
    using assms(2,3) by (intro load_banlist_string) (auto simp: in_sm_keys IsBanned_def)
  with assms show ?thesis
    by (auto simp: UpdateChannelInDB_def emit_def new_channel_def Let_def)
qed

definition demo_saved :: channel where
  "demo_saved = demo_channel\<lparr>ch_IsSaved := True, ch_banned := [(7, ()), (9, ())], ch_password := ''pw''\<rparr>"

theorem saved_channel_restores_witness:
  "ch_banned (new_channel (demo_env\<lparr>preserve_channels := True,
     channel_row := (\<lambda>_ _. Some (True, True, ''pw'', Some ''7 9 ''))\<rparr>) ''x'' 0 469) = [(7, ()), (9, ())]"
proof -
  have s: "ch_announce demo_channel" "ch_ownership demo_channel" "ch_name demo_channel = ''x''"
      "ch_Team demo_channel = 469" "banlist_string [(7, ()), (9, ())] = ''7 9 ''"
    by (code_simp, code_simp, code_simp, code_simp, code_simp)
  show ?thesis
    using saved_channel_restores [of demo_saved "demo_env\<lparr>preserve_channels := True,
     channel_row := (\<lambda>_ _. Some (True, True, ''pw'', Some ''7 9 ''))\<rparr>" True True "''pw''" "''7 9 ''" "''x''" 469]
    by (simp add: demo_saved_def UpdateChannelInDB_def emit_def s sm_wf_def IsBanned_def sm_find_def
        demo_env_def Let_def)
qed

section \<open>The owner names himself\<close>



end
