(* ===== verification/Channel_Mgr.thy ===== *)
theory Channel_Mgr
  imports Channel_Inv "HOL-Library.List_Lexorder"
begin

text \<open>
  The channel managers of the two factions (\<open>Channels/ChannelMgr.cpp\<close>), the packet handlers
  (\<open>Handlers/ChannelHandler.cpp\<close>) and the player's side of a membership
  (\<open>Player::JoinedChannel\<close>, \<open>LeftChannel\<close>, \<open>CleanupChannels\<close>), with the property that a
  player never keeps a pointer to a deleted channel. A \<open>Channel*\<close> is the manager it lives in
  and its key there.
\<close>

type_synonym wstring = "u32 list"

datatype side = AllianceSide | HordeSide

definition ALLIANCE :: u32 where "ALLIANCE = 469"
definition HORDE :: u32 where "HORDE = 67"
definition SMSG_CHANNEL_MEMBER_COUNT :: u16 where "SMSG_CHANNEL_MEMBER_COUNT = 0x3D5"

text \<open>
  Beyond \<open>chan_env\<close>: the lower-cased wide key of a name (the vendored UTF-8 decoder and
  \<open>wstrToLower\<close>), the chat filter, the normalisation of player names, and the data of the
  built-in channels: whether the player's zone has an area entry, may he join there, and the
  channel's localised name.
\<close>

record chat_env = chan_env +
  chan_key :: "string \<Rightarrow> wstring"
  isValidChatMessage :: "string \<Rightarrow> bool"
  normalizePlayerName :: "string \<Rightarrow> string option"
  zone_known :: "u64 \<Rightarrow> bool"
  CanJoinConstantChannelInZone :: "u64 \<Rightarrow> u32 \<Rightarrow> bool"
  channel_pattern :: "u32 \<Rightarrow> string"

abbreviation cenv :: "chat_env \<Rightarrow> chan_env" where
  "cenv e \<equiv> chan_env.truncate e"

record channel_mgr =
  cm_team :: u32
  cm_channels :: "(wstring, channel) smap"

type_synonym chan_ptr = "side \<times> wstring"

record chat_world =
  w_mgr :: "side \<Rightarrow> channel_mgr"
  w_joined :: "u64 \<Rightarrow> chan_ptr list"
  w_out :: "chan_effect list"

section \<open>The player's list\<close>

fun player_callback :: "chan_ptr \<Rightarrow> chan_effect \<Rightarrow> (u64 \<Rightarrow> chan_ptr list) \<Rightarrow> u64 \<Rightarrow> chan_ptr list" where
  "player_callback c (JoinedChannel g) j = j(g := j g @ [c])"
| "player_callback c (LeftChannel g) j = j(g := removeAll c (j g))"
| "player_callback c _ j = j"

definition w_chan :: "chan_ptr \<Rightarrow> chat_world \<Rightarrow> channel option" where
  "w_chan p w = sm_find (cm_channels (w_mgr w (fst p))) (snd p)"

definition set_channels :: "side \<Rightarrow> ((wstring, channel) smap \<Rightarrow> (wstring, channel) smap) \<Rightarrow>
    chat_world \<Rightarrow> chat_world" where
  "set_channels s f w = w\<lparr>w_mgr := (w_mgr w)(s := (w_mgr w s)\<lparr>cm_channels := f (cm_channels (w_mgr w s))\<rparr>)\<rparr>"

text \<open>
  A call \<open>chn->op(...)\<close>: the channel is updated in place, what it did goes to the trace of the
  world, and its callbacks to the players' lists.
\<close>

definition run_channel :: "chan_ptr \<Rightarrow> (channel \<Rightarrow> channel) \<Rightarrow> chat_world \<Rightarrow> chat_world" where
  "run_channel p f w = (case w_chan p w of
      None \<Rightarrow> w
    | Some c \<Rightarrow>
        (let d = f (c\<lparr>ch_out := []\<rparr>);
             w1 = set_channels (fst p) (sm_put (snd p) (d\<lparr>ch_out := []\<rparr>)) w
         in w1\<lparr>w_joined := fold (player_callback p) (ch_out d) (w_joined w1),
              w_out := w_out w1 @ ch_out d\<rparr>))"

section \<open>ChannelMgr\<close>

definition channelMgr :: "chat_env \<Rightarrow> u32 \<Rightarrow> side option" where
  "channelMgr e team =
     (if two_side_channels e then Some AllianceSide
      else if team = ALLIANCE then Some AllianceSide
      else if team = HORDE then Some HordeSide else None)"

definition GetJoinChannel :: "chat_env \<Rightarrow> side \<Rightarrow> string \<Rightarrow> u32 \<Rightarrow> chat_world \<Rightarrow> chan_ptr \<times> chat_world" where
  "GetJoinChannel e s name channel_id w =
     (let wname = chan_key e name in
      if sm_find (cm_channels (w_mgr w s)) wname = None then
        (let nchan = new_channel (cenv e) name channel_id (cm_team (w_mgr w s))
         in ((s, wname), (set_channels s (sm_put wname (nchan\<lparr>ch_out := []\<rparr>)) w)
               \<lparr>w_out := w_out w @ ch_out nchan\<rparr>))
      else ((s, wname), w))"

definition MakeNotOnPacket :: "string \<Rightarrow> packet" where
  "MakeNotOnPacket name = \<lparr>pk_opcode = SMSG_CHANNEL_NOTIFY, pk_fields = [F8 0x05, FStr name]\<rparr>"

definition GetChannel :: "chat_env \<Rightarrow> side \<Rightarrow> string \<Rightarrow> u64 \<Rightarrow> bool \<Rightarrow> chat_world \<Rightarrow>
    chan_ptr option \<times> chat_world" where
  "GetChannel e s name p pkt w =
     (let wname = chan_key e name in
      if sm_find (cm_channels (w_mgr w s)) wname = None then
        (None, if pkt then w\<lparr>w_out := w_out w @ [SendPacket p (MakeNotOnPacket name)]\<rparr> else w)
      else (Some (s, wname), w))"

definition mgr_LeftChannel :: "chat_env \<Rightarrow> side \<Rightarrow> string \<Rightarrow> chat_world \<Rightarrow> chat_world" where
  "mgr_LeftChannel e s name w =
     (let wname = chan_key e name in
      case sm_find (cm_channels (w_mgr w s)) wname of
        None \<Rightarrow> w
      | Some channel \<Rightarrow>
          if GetNumPlayers channel = 0 \<and> \<not> IsConstant channel
          then set_channels s (sm_erase wname) w else w)"

section \<open>The packet handlers\<close>

text \<open>\<open>if (cMgr = channelMgr(team)) if (chn = cMgr->GetChannel(name, _player)) chn->op(...)\<close>\<close>

definition on_channel :: "chat_env \<Rightarrow> chan_player \<Rightarrow> string \<Rightarrow> (channel \<Rightarrow> channel) \<Rightarrow>
    chat_world \<Rightarrow> chat_world" where
  "on_channel e pl name f w = (case channelMgr e (pl_team pl) of
      None \<Rightarrow> w
    | Some s \<Rightarrow> (case GetChannel e s name (pl_guid pl) True w of
        (None, w1) \<Rightarrow> w1
      | (Some chn, w1) \<Rightarrow> run_channel chn f w1))"

definition join_lfg :: "chat_env \<Rightarrow> chan_player \<Rightarrow> u32 \<Rightarrow> chat_world \<Rightarrow> chat_world" where
  "join_lfg e pl channel_id w = (case channelMgr e (pl_team pl) of
      None \<Rightarrow> w
    | Some s \<Rightarrow>
        (let (lfg, w1) = GetJoinChannel e s (channel_pattern e channel_id) channel_id w
         in run_channel lfg (Join (cenv e) (pl_guid pl) '''') w1))"

text \<open>\<open>join_request\<close> is the handler's body, after the packet has been read.\<close>

definition join_named :: "chat_env \<Rightarrow> chan_player \<Rightarrow> u32 \<Rightarrow> string \<Rightarrow> string \<Rightarrow> chat_world \<Rightarrow> chat_world" where
  "join_named e pl channel_id channelname pass w =
     (if channelname = [] then w
      else if \<not> isValidChatMessage e (c_str channelname) then w
      else case channelMgr e (pl_team pl) of
        None \<Rightarrow> w
      | Some s \<Rightarrow>
          (let w1 = w\<lparr>w_mgr := (w_mgr w)(s := (w_mgr w s)\<lparr>cm_team := pl_team pl\<rparr>)\<rparr>;
               (chn, w2) = GetJoinChannel e s channelname channel_id w1
           in run_channel chn (Join (cenv e) (pl_guid pl) (c_str pass)) w2))"

definition join_request :: "chat_env \<Rightarrow> chan_player \<Rightarrow> u32 \<Rightarrow> string \<Rightarrow> string \<Rightarrow> chat_world \<Rightarrow> chat_world" where
  "join_request e pl channel_id channelname pass w =
     (if channel_id \<noteq> 0 then
        (case chat_channels e channel_id of
           None \<Rightarrow> w
         | Some dbc \<Rightarrow>
             if \<not> zone_known e (pl_guid pl) then w
             else if \<not> CanJoinConstantChannelInZone e (pl_guid pl) channel_id then w
             else if has_flag dbc CHANNEL_DBC_FLAG_LFG then join_lfg e pl channel_id w
             else join_named e pl channel_id channelname pass w)
      else join_named e pl channel_id channelname pass w)"

definition HandleJoinChannel :: "chat_env \<Rightarrow> chan_player \<Rightarrow> byte_buffer \<Rightarrow> chat_world \<Rightarrow>
    bb_error + chat_world" where
  "HandleJoinChannel e pl b0 w =
     sbind (stream_get b0) (\<lambda>(channel_id :: u32, b1).
     sbind (stream_get b1) (\<lambda>(unknown1 :: u8, b2).
     sbind (stream_get b2) (\<lambda>(unknown2 :: u8, b3).
     sbind (get_string b3) (\<lambda>(channelname, b4).
     sbind (get_string b4) (\<lambda>(pass, b5). Inr (join_request e pl channel_id channelname pass w))))))"

definition HandleLeaveChannel :: "chat_env \<Rightarrow> chan_player \<Rightarrow> byte_buffer \<Rightarrow> chat_world \<Rightarrow>
    bb_error + chat_world" where
  "HandleLeaveChannel e pl b0 w =
     sbind (stream_get b0) (\<lambda>(unk :: u32, b1).
     sbind (get_string b1) (\<lambda>(channelname, b2). Inr (
       if channelname = [] then w
       else if \<not> isValidChatMessage e (c_str channelname) then w
       else case channelMgr e (pl_team pl) of
         None \<Rightarrow> w
       | Some s \<Rightarrow> mgr_LeftChannel e s channelname
           (case GetChannel e s channelname (pl_guid pl) True w of
              (None, w1) \<Rightarrow> w1
            | (Some chn, w1) \<Rightarrow> run_channel chn (Leave (cenv e) (pl_guid pl) True) w1))))"

text \<open>The handlers of a packet that holds a channel name only, and of one with a player name.\<close>

definition name_handler :: "chat_env \<Rightarrow> chan_player \<Rightarrow> (channel \<Rightarrow> channel) \<Rightarrow> byte_buffer \<Rightarrow>
    chat_world \<Rightarrow> bb_error + chat_world" where
  "name_handler e pl op b0 w =
     sbind (get_string b0) (\<lambda>(channelname, b1). Inr (
       if \<not> isValidChatMessage e (c_str channelname) then w else on_channel e pl channelname op w))"

definition target_handler :: "chat_env \<Rightarrow> chan_player \<Rightarrow> (string \<Rightarrow> channel \<Rightarrow> channel) \<Rightarrow> byte_buffer \<Rightarrow>
    chat_world \<Rightarrow> bb_error + chat_world" where
  "target_handler e pl op b0 w =
     sbind (get_string b0) (\<lambda>(channelname, b1).
     sbind (get_string b1) (\<lambda>(otp, b2). Inr (
       case normalizePlayerName e otp of
         None \<Rightarrow> w
       | Some n \<Rightarrow>
           if \<not> isValidChatMessage e (c_str channelname) then w
           else on_channel e pl channelname (op (c_str n)) w)))"

definition HandleChannelList :: "chat_env \<Rightarrow> chan_player \<Rightarrow> byte_buffer \<Rightarrow> chat_world \<Rightarrow>
    bb_error + chat_world" where
  "HandleChannelList e pl = name_handler e pl (ch_List (cenv e) pl)"

definition HandleChannelPassword :: "chat_env \<Rightarrow> chan_player \<Rightarrow> byte_buffer \<Rightarrow> chat_world \<Rightarrow>
    bb_error + chat_world" where
  "HandleChannelPassword e pl b0 w =
     sbind (get_string b0) (\<lambda>(channelname, b1).
     sbind (get_string b1) (\<lambda>(pass, b2). Inr (
       if \<not> isValidChatMessage e (c_str channelname) then w
       else on_channel e pl channelname (Password (cenv e) (pl_guid pl) (c_str pass)) w)))"

definition HandleChannelSetOwner :: "chat_env \<Rightarrow> chan_player \<Rightarrow> byte_buffer \<Rightarrow> chat_world \<Rightarrow>
    bb_error + chat_world" where
  "HandleChannelSetOwner e pl = target_handler e pl (SetOwnerByName (cenv e) (pl_guid pl))"

definition HandleChannelOwner :: "chat_env \<Rightarrow> chan_player \<Rightarrow> byte_buffer \<Rightarrow> chat_world \<Rightarrow>
    bb_error + chat_world" where
  "HandleChannelOwner e pl = name_handler e pl (SendWhoOwner (cenv e) (pl_guid pl))"

definition HandleChannelModerator :: "chat_env \<Rightarrow> chan_player \<Rightarrow> byte_buffer \<Rightarrow> chat_world \<Rightarrow>
    bb_error + chat_world" where
  "HandleChannelModerator e pl = target_handler e pl (\<lambda>n. SetMode (cenv e) (pl_guid pl) n True True)"

definition HandleChannelUnmoderator :: "chat_env \<Rightarrow> chan_player \<Rightarrow> byte_buffer \<Rightarrow> chat_world \<Rightarrow>
    bb_error + chat_world" where
  "HandleChannelUnmoderator e pl = target_handler e pl (\<lambda>n. SetMode (cenv e) (pl_guid pl) n True False)"

definition HandleChannelMute :: "chat_env \<Rightarrow> chan_player \<Rightarrow> byte_buffer \<Rightarrow> chat_world \<Rightarrow>
    bb_error + chat_world" where
  "HandleChannelMute e pl = target_handler e pl (\<lambda>n. SetMode (cenv e) (pl_guid pl) n False True)"

definition HandleChannelUnmute :: "chat_env \<Rightarrow> chan_player \<Rightarrow> byte_buffer \<Rightarrow> chat_world \<Rightarrow>
    bb_error + chat_world" where
  "HandleChannelUnmute e pl = target_handler e pl (\<lambda>n. SetMode (cenv e) (pl_guid pl) n False False)"

definition HandleChannelInvite :: "chat_env \<Rightarrow> chan_player \<Rightarrow> byte_buffer \<Rightarrow> chat_world \<Rightarrow>
    bb_error + chat_world" where
  "HandleChannelInvite e pl = target_handler e pl (Invite (cenv e) (pl_guid pl))"

definition HandleChannelKick :: "chat_env \<Rightarrow> chan_player \<Rightarrow> byte_buffer \<Rightarrow> chat_world \<Rightarrow>
    bb_error + chat_world" where
  "HandleChannelKick e pl = target_handler e pl (Kick (cenv e) (pl_guid pl))"

definition HandleChannelBan :: "chat_env \<Rightarrow> chan_player \<Rightarrow> byte_buffer \<Rightarrow> chat_world \<Rightarrow>
    bb_error + chat_world" where
  "HandleChannelBan e pl = target_handler e pl (Ban (cenv e) (pl_guid pl))"

definition HandleChannelUnban :: "chat_env \<Rightarrow> chan_player \<Rightarrow> byte_buffer \<Rightarrow> chat_world \<Rightarrow>
    bb_error + chat_world" where
  "HandleChannelUnban e pl = target_handler e pl (UnBan (cenv e) (pl_guid pl))"

definition HandleChannelAnnouncements :: "chat_env \<Rightarrow> chan_player \<Rightarrow> byte_buffer \<Rightarrow> chat_world \<Rightarrow>
    bb_error + chat_world" where
  "HandleChannelAnnouncements e pl = name_handler e pl (Announce (cenv e) (pl_guid pl))"

definition HandleChannelDisplayListQuery :: "chat_env \<Rightarrow> chan_player \<Rightarrow> byte_buffer \<Rightarrow> chat_world \<Rightarrow>
    bb_error + chat_world" where
  "HandleChannelDisplayListQuery e pl = HandleChannelList e pl"

definition member_count_packet :: "channel \<Rightarrow> packet" where
  "member_count_packet c = \<lparr>pk_opcode = SMSG_CHANNEL_MEMBER_COUNT,
     pk_fields = [FStr (ch_name c), F8 (ch_flags c), F32 (GetNumPlayers c)]\<rparr>"

definition HandleGetChannelMemberCount :: "chat_env \<Rightarrow> chan_player \<Rightarrow> byte_buffer \<Rightarrow> chat_world \<Rightarrow>
    bb_error + chat_world" where
  "HandleGetChannelMemberCount e pl =
     name_handler e pl (\<lambda>c. emit [SendPacket (pl_guid pl) (member_count_packet c)] c)"

definition HandleSetChannelWatch :: "chat_env \<Rightarrow> chan_player \<Rightarrow> byte_buffer \<Rightarrow> chat_world \<Rightarrow>
    bb_error + chat_world" where
  "HandleSetChannelWatch e pl b0 w =
     sbind (get_string b0) (\<lambda>(channelname, b1). Inr (
       if \<not> isValidChatMessage e (c_str channelname) then w else w))"

section \<open>Logging out\<close>

text \<open>
  \<open>Player::CleanupChannels\<close> pops the player's list from the front until it is empty. \<open>Leave\<close>
  with \<open>send = false\<close> makes no callback, so the list is only shortened here.
\<close>

fun cleanup_loop :: "chat_env \<Rightarrow> chan_player \<Rightarrow> chan_ptr list \<Rightarrow> chat_world \<Rightarrow> chat_world" where
  "cleanup_loop e pl [] w = w"
| "cleanup_loop e pl (ch # r) w =
     (let w1 = w\<lparr>w_joined := (w_joined w)(pl_guid pl := r)\<rparr>;
          w2 = run_channel ch (Leave (cenv e) (pl_guid pl) False) w1;
          w3 = (case channelMgr e (pl_team pl) of
                  None \<Rightarrow> w2
                | Some s \<Rightarrow> (case w_chan ch w2 of
                    None \<Rightarrow> w2
                  | Some c \<Rightarrow> mgr_LeftChannel e s (ch_name c) w2))
      in cleanup_loop e pl r w3)"

definition CleanupChannels :: "chat_env \<Rightarrow> chan_player \<Rightarrow> chat_world \<Rightarrow> chat_world" where
  "CleanupChannels e pl w = cleanup_loop e pl (w_joined w (pl_guid pl)) w"

section \<open>Changing the zone\<close>

text \<open>
  \<open>Player::UpdateLocalChannels\<close> goes over the rows of the built-in channels. \<open>names\<close> are the names
  of the channels in the new zone (pattern and zone or city name), \<open>rows\<close> is their number. What
  the code removes from the player's list it removes whether \<open>Leave\<close> has done so or not.
\<close>

definition CHANNEL_DBC_FLAG_GLOBAL :: u32 where "CHANNEL_DBC_FLAG_GLOBAL = 0x00004"
definition CHANNEL_DBC_FLAG_CITY_ONLY :: u32 where "CHANNEL_DBC_FLAG_CITY_ONLY = 0x00010"

definition used_channel :: "u64 \<Rightarrow> u32 \<Rightarrow> chat_world \<Rightarrow> chan_ptr option" where
  "used_channel g i w = List.find (\<lambda>p. case w_chan p w of None \<Rightarrow> False | Some c \<Rightarrow> ch_channelId c = i) (w_joined w g)"

definition local_leave :: "chat_env \<Rightarrow> side \<Rightarrow> u64 \<Rightarrow> chan_ptr \<Rightarrow> bool \<Rightarrow> chat_world \<Rightarrow> chat_world" where
  "local_leave e s g p send w =
     (let w1 = run_channel p (Leave (cenv e) g send) w;
          w2 = w1\<lparr>w_joined := (w_joined w1)(g := removeAll p (w_joined w1 g))\<rparr>
      in case w_chan p w1 of None \<Rightarrow> w2 | Some c \<Rightarrow> mgr_LeftChannel e s (ch_name c) w2)"

definition local_join :: "chat_env \<Rightarrow> u64 \<Rightarrow> chan_ptr \<Rightarrow> chat_world \<Rightarrow> chat_world" where
  "local_join e g p = run_channel p (Join (cenv e) g [])"

definition local_row :: "chat_env \<Rightarrow> side \<Rightarrow> u64 \<Rightarrow> (u32 \<Rightarrow> string) \<Rightarrow> u32 \<Rightarrow> chat_world \<Rightarrow> chat_world" where
  "local_row e s g names i w = (case chat_channels e i of None \<Rightarrow> w | Some flags \<Rightarrow>
     (let used = used_channel g i w in
      if CanJoinConstantChannelInZone e g i then
        if \<not> has_flag flags CHANNEL_DBC_FLAG_GLOBAL then
          (if has_flag flags CHANNEL_DBC_FLAG_CITY_ONLY \<and> used \<noteq> None then w
           else (let (p, w1) = GetJoinChannel e s (names i) i w in
             case used of None \<Rightarrow> local_join e g p w1
             | Some u \<Rightarrow> if p \<noteq> u then local_leave e s g u False (local_join e g p w1) else w1))
        else (let (p, w1) = GetJoinChannel e s (channel_pattern e i) i w in local_join e g p w1)
      else (case used of None \<Rightarrow> w | Some u \<Rightarrow> local_leave e s g u True w)))"

definition UpdateLocalChannels ::
    "chat_env \<Rightarrow> chan_player \<Rightarrow> bool \<Rightarrow> (u32 \<Rightarrow> string) \<Rightarrow> nat \<Rightarrow> chat_world \<Rightarrow> chat_world" where
  "UpdateLocalChannels e pl loading names rows w =
     (if loading \<or> \<not> zone_known e (pl_guid pl) then w
      else case channelMgr e (pl_team pl) of None \<Rightarrow> w
      | Some s \<Rightarrow> fold (\<lambda>i. local_row e s (pl_guid pl) names (of_nat i)) [0..<rows] w)"

text \<open>An administrator's command for the ownership of a channel; its statement is not in the trace of the channel.\<close>

definition HandleChannelSetOwnership :: "chat_env \<Rightarrow> chan_player \<Rightarrow> string \<Rightarrow> bool \<Rightarrow> chat_world \<Rightarrow> chat_world" where
  "HandleChannelSetOwnership e pl name on = on_channel e pl name (SetOwnership on)"

section \<open>The callbacks of the channel operations\<close>

fun is_callback :: "chan_effect \<Rightarrow> bool" where
  "is_callback (JoinedChannel g) = True"
| "is_callback (LeftChannel g) = True"
| "is_callback _ = False"

definition callbacks :: "channel \<Rightarrow> chan_effect list" where
  "callbacks c = filter is_callback (ch_out c)"

lemma fold_callbacks: "fold (player_callback p) es j = fold (player_callback p) (filter is_callback es) j"
proof (induction es arbitrary: j)
  case (Cons x es)
  then show ?case by (cases x) (simp_all add: fun_upd_def)
qed simp

locale quiet_step = silent_step +
  assumes no_callbacks: "callbacks (f c) = callbacks c"

lemma callbacks_upd [simp]:
  "callbacks (player_upd k g c) = callbacks c" "callbacks (c\<lparr>ch_players := ps\<rparr>) = callbacks c"
  "callbacks (c\<lparr>ch_ownerGUID := og\<rparr>) = callbacks c" "callbacks (c\<lparr>ch_banned := bs\<rparr>) = callbacks c"
  "callbacks (c\<lparr>ch_password := pw\<rparr>) = callbacks c" "callbacks (c\<lparr>ch_announce := an\<rparr>) = callbacks c"
  "callbacks (put_member k c) = callbacks c" "callbacks (drop_member k c) = callbacks c"
  by (simp_all add: callbacks_def put_member_def drop_member_def)

lemma callbacks_emit: "callbacks (emit es c) = callbacks c @ filter is_callback es"
  by (simp add: callbacks_def emit_def)

interpretation q_all: quiet_step "SendToAll e d p" for e d p
  by unfold_locales (simp add: SendToAll_def callbacks_emit filter_map comp_def)

interpretation q_but: quiet_step "SendToAllButOne e d p" for e d p
  by unfold_locales (simp add: SendToAllButOne_def callbacks_emit filter_map comp_def)

interpretation q_one: quiet_step "SendToOne e d p" for e d p
  by unfold_locales (simp add: SendToOne_def callbacks_emit split: option.split)

interpretation q_upd: quiet_step UpdateChannelInDB
  by unfold_locales (simp add: UpdateChannelInDB_def callbacks_emit)

interpretation q_usage: quiet_step UpdateChannelUseageInDB
  by unfold_locales (simp add: UpdateChannelUseageInDB_def callbacks_emit)

lemmas quiet_simps = q_all.no_callbacks q_but.no_callbacks q_one.no_callbacks q_upd.no_callbacks
  q_usage.no_callbacks

interpretation q_join: quiet_step "JoinNotify e p" for e p
  by unfold_locales (simp add: JoinNotify_def Let_def quiet_simps)

interpretation q_leave: quiet_step "LeaveNotify e p" for e p
  by unfold_locales (simp add: LeaveNotify_def Let_def quiet_simps)

interpretation q_who: quiet_step "SendWhoOwner e p" for e p
  by unfold_locales (simp add: SendWhoOwner_def quiet_simps)

interpretation q_list: quiet_step "ch_List e pl" for e pl
  by unfold_locales (simp add: ch_List_def Let_def quiet_simps)

interpretation q_say: quiet_step "Say e p what lang" for e p what lang
  by unfold_locales (simp add: Say_def Let_def quiet_simps split: option.split)

interpretation q_invite: quiet_step "Invite e p n" for e p n
  by unfold_locales (simp add: Invite_def Let_def quiet_simps split: option.split)

interpretation q_count: quiet_step "\<lambda>c. emit [SendPacket g (member_count_packet c)] c" for g
  by unfold_locales (simp_all add: callbacks_emit sil_emit.out_only)

lemma callbacks_SetOwner [simp]: "callbacks (SetOwner e g x c) = callbacks c"
  by (simp add: SetOwner_def Let_def quiet_simps)

lemma callbacks_modes [simp]:
  "callbacks (SetMode e p n md st c) = callbacks c" "callbacks (SetOwnerByName e p n c) = callbacks c"
  "callbacks (UnBan e p n c) = callbacks c" "callbacks (Password e p pw c) = callbacks c"
  "callbacks (Announce e p c) = callbacks c"
  by (simp_all add: SetMode_def SetModeratorFlag_def SetMuteFlag_def SetOwnerByName_def UnBan_def
      Password_def Announce_def Let_def quiet_simps split: option.split)

lemma callbacks_Join:
  "callbacks (Join e p pass c) =
     callbacks c @ (if join_admits e p pass c \<and> FindPlayer e p \<noteq> None then [JoinedChannel p] else [])"
proof (cases "join_admits e p pass c")
  case True
  then show ?thesis
    by (simp add: Join_admitted [OF True] enter_def Let_def quiet_simps q_join.no_callbacks callbacks_emit)
next
  case False
  then show ?thesis by (auto simp: join_admits_def Join_def quiet_simps)
qed

lemma callbacks_Leave:
  "callbacks (Leave e p send c) =
     callbacks c @ (if IsOn c p \<and> send \<and> FindPlayer e p \<noteq> None then [LeftChannel p] else [])"
proof (cases "IsOn c p")
  case True
  have "callbacks (hand_over e c') = callbacks c'" for c'
    by (simp add: hand_over_def Let_def split: list.split)
  with True show ?thesis
    by (simp add: Leave_on Let_def depart_def quiet_simps q_leave.no_callbacks callbacks_emit)
qed (simp add: Leave_def quiet_simps)

lemma callbacks_KickOrBan:
  "callbacks (KickOrBan e p n ban c) =
     callbacks c @ (case kick_target e p n c of None \<Rightarrow> [] | Some b \<Rightarrow> [LeftChannel b])"
proof (cases "kick_target e p n c")
  case (Some b)
  then show ?thesis
    by (simp add: KickOrBan_done Let_def expel_def add_ban_def quiet_simps callbacks_emit)
next
  case None
  then obtain data where "KickOrBan e p n ban c = SendToOne e data p c" using KickOrBan_notice by blast
  with None show ?thesis by (simp add: quiet_simps)
qed

section \<open>Members that stay\<close>

text \<open>
  The contract the manager relies on: whoever is on the channel and is not called back with
  \<open>LeftChannel\<close> is still on it, and whoever is called back with \<open>JoinedChannel\<close> was not on it
  and is now.
\<close>

locale member_op =
  fixes op :: "channel \<Rightarrow> channel"
  assumes stays: "IsOn c g \<Longrightarrow> callbacks c = [] \<Longrightarrow> LeftChannel g \<notin> set (callbacks (op c)) \<Longrightarrow> IsOn (op c) g"
    and joins: "callbacks c = [] \<Longrightarrow> JoinedChannel g \<in> set (callbacks (op c)) \<Longrightarrow>
      \<not> IsOn c g \<and> IsOn (op c) g"
    and once: "callbacks c = [] \<Longrightarrow> length (callbacks (op c)) \<le> 1"
begin

lemma tracks:
  assumes c: "callbacks c = []" and d: "distinct (j g)" and on: "p \<in> set (j g) \<Longrightarrow> IsOn c g"
  shows "distinct (fold (player_callback p) (ch_out (op c)) j g) \<and>
    (p \<in> set (fold (player_callback p) (ch_out (op c)) j g) \<longrightarrow> IsOn (op c) g) \<and>
    (q \<noteq> p \<longrightarrow> (q \<in> set (fold (player_callback p) (ch_out (op c)) j g)) = (q \<in> set (j g)))"
proof -
  have f: "fold (player_callback p) (ch_out (op c)) j = fold (player_callback p) (callbacks (op c)) j"
    by (simp add: callbacks_def fold_callbacks [of p "ch_out (op c)"])
  consider "callbacks (op c) = []" | x where "callbacks (op c) = [x]"
    using once [OF c] by (cases "callbacks (op c)") auto
  then show ?thesis
  proof cases
    case 1
    then show ?thesis using stays [OF _ c, of g] on d by (auto simp: f)
  next
    case 2
    have "x \<in> set (callbacks (op c))" using 2 by simp
    then have "is_callback x" by (simp add: callbacks_def)
    then consider h where "x = JoinedChannel h" | h where "x = LeftChannel h" by (cases x) auto
    then show ?thesis
      using 2 stays [OF _ c, of g] joins [OF c, of g] on d
      by cases (auto simp: f distinct_removeAll)
  qed
qed

end

lemma IsOn_SetOwner_mono: "IsOn c g \<Longrightarrow> IsOn (SetOwner e k x c) g"
  by (auto simp: SetOwner_def Let_def IsOn_def find_player_upd)

lemma IsOn_hand_over_mono: "IsOn c g \<Longrightarrow> IsOn (hand_over e c) g"
  by (auto simp: hand_over_def Let_def IsOn_SetOwner_mono IsOn_player_upd split: list.splits)

interpretation op_join: member_op "Join e p pass" for e p pass
proof
  fix c g
  show "IsOn c g \<Longrightarrow> IsOn (Join e p pass c) g"
  proof (cases "join_admits e p pass c")
    case True
    then show "IsOn c g \<Longrightarrow> IsOn (Join e p pass c) g"
      by (simp add: Join_admitted [OF True] Let_def IsOn_player_upd IsOn_SetOwner_mono IsOn_enter)
  next
    case False
    then show "IsOn c g \<Longrightarrow> IsOn (Join e p pass c) g"
      using Join_refused [OF False] by (auto simp: IsOn_def)
  qed
  assume c: "callbacks c = []" "JoinedChannel g \<in> set (callbacks (Join e p pass c))"
  then have a: "join_admits e p pass c" "g = p" by (auto simp: callbacks_Join split: if_splits)
  then show "\<not> IsOn c g \<and> IsOn (Join e p pass c) g"
    using join_admits_def
    by (simp add: Join_admitted [OF a(1)] Let_def IsOn_player_upd IsOn_SetOwner_mono IsOn_enter)
qed (simp_all add: callbacks_Join)

lemma Leave_silent_not_on: "IsOn c g \<Longrightarrow> \<not> IsOn c p \<Longrightarrow> IsOn (Leave e p send c) g"
  by (simp add: Leave_def)

lemma Leave_stays: "IsOn c g \<Longrightarrow> g \<noteq> p \<Longrightarrow> IsOn (Leave e p send c) g"
proof (cases "IsOn c p")
  case True
  assume "IsOn c g" "g \<noteq> p"
  then have "IsOn (depart e p send c) g" by (simp add: IsOn_def find_drop_member)
  then show ?thesis by (simp add: Leave_on [OF True] Let_def IsOn_hand_over_mono)
qed (simp add: Leave_silent_not_on)

text \<open>For a player who is in the world, as the caller of a handler is.\<close>

definition leave_online :: "chan_env \<Rightarrow> u64 \<Rightarrow> channel \<Rightarrow> channel" where
  "leave_online e p c = (if FindPlayer e p = None then c else Leave e p True c)"

interpretation op_leave: member_op "leave_online e p" for e p
  by unfold_locales (auto simp: leave_online_def callbacks_Leave Leave_stays intro: Leave_silent_not_on
      split: if_splits)

interpretation op_kick: member_op "KickOrBan e p n ban" for e p n ban
proof
  fix c g
  assume c: "callbacks c = []"
  assume on: "IsOn c g" and l: "LeftChannel g \<notin> set (callbacks (KickOrBan e p n ban c))"
  show "IsOn (KickOrBan e p n ban c) g"
  proof (cases "kick_target e p n c")
    case None
    then obtain data where "KickOrBan e p n ban c = SendToOne e data p c" using KickOrBan_notice by blast
    with on show ?thesis by simp
  next
    case (Some b)
    then have "IsOn (expel e p b ban c) g"
      using l c on by (auto simp: callbacks_KickOrBan IsOn_def sm_find_erase)
    then show ?thesis by (simp add: KickOrBan_done [OF Some] Let_def IsOn_SetOwner_mono IsOn_player_upd)
  qed
qed (auto simp: callbacks_KickOrBan split: option.splits)

text \<open>Operations that make no callback and drop nobody.\<close>

lemma member_op_no_callback:
  assumes "\<And>c. callbacks (f c) = callbacks c" and "\<And>c g. IsOn c g \<Longrightarrow> IsOn (f c) g"
  shows "member_op f"
  using assms by unfold_locales simp_all

lemma IsOn_modes:
  "IsOn c g \<Longrightarrow> IsOn (SetMode e p n md st c) g" "IsOn c g \<Longrightarrow> IsOn (SetOwnerByName e p n c) g"
  "IsOn c g \<Longrightarrow> IsOn (UnBan e p n c) g" "IsOn c g \<Longrightarrow> IsOn (Password e p pw c) g"
  "IsOn c g \<Longrightarrow> IsOn (Announce e p c) g"
proof -
  have f: "IsOn (c\<lparr>ch_banned := b\<rparr>) = IsOn c" "IsOn (c\<lparr>ch_password := w\<rparr>) = IsOn c"
    "IsOn (c\<lparr>ch_announce := a\<rparr>) = IsOn c" for b w a by (simp_all add: IsOn_def fun_eq_iff)
  assume "IsOn c g"
  with f show "IsOn (SetMode e p n md st c) g" "IsOn (SetOwnerByName e p n c) g" "IsOn (UnBan e p n c) g"
    "IsOn (Password e p pw c) g" "IsOn (Announce e p c) g"
    by (simp_all add: SetMode_def SetModeratorFlag_def SetMuteFlag_def SetOwnerByName_def UnBan_def
        Password_def Announce_def Let_def IsOn_player_upd IsOn_SetOwner_mono split: option.split)
qed

interpretation op_mode: member_op "SetMode e p n md st" for e p n md st
  by (rule member_op_no_callback) (simp_all add: IsOn_modes)

interpretation op_owner: member_op "SetOwnerByName e p n" for e p n
  by (rule member_op_no_callback) (simp_all add: IsOn_modes)

interpretation op_unban: member_op "UnBan e p n" for e p n
  by (rule member_op_no_callback) (simp_all add: IsOn_modes)

interpretation op_pass: member_op "Password e p pw" for e p pw
  by (rule member_op_no_callback) (simp_all add: IsOn_modes)

interpretation op_announce: member_op "Announce e p" for e p
  by (rule member_op_no_callback) (simp_all add: IsOn_modes)

interpretation op_ownership: member_op "SetOwnership b" for b
  by (rule member_op_no_callback) (simp_all add: SetOwnership_def callbacks_def IsOn_def)

interpretation op_who: member_op "SendWhoOwner e p" for e p
  by (rule member_op_no_callback) (simp_all add: q_who.no_callbacks)

interpretation op_list: member_op "ch_List e pl" for e pl
  by (rule member_op_no_callback) (simp_all add: q_list.no_callbacks)

interpretation op_say: member_op "Say e p what lang" for e p what lang
  by (rule member_op_no_callback) (simp_all add: q_say.no_callbacks)

interpretation op_invite: member_op "Invite e p n" for e p n
  by (rule member_op_no_callback) (simp_all add: q_invite.no_callbacks)

interpretation op_count: member_op "\<lambda>c. emit [SendPacket g (member_count_packet c)] c" for g
  by (rule member_op_no_callback) (simp_all add: q_count.no_callbacks)

section \<open>No pointer to a deleted channel\<close>

text \<open>
  \<open>joined_ok\<close>: every pointer in a player's list leads to a channel that exists and has the
  player on it, and no pointer is there twice. \<open>few_members\<close>: the member counts fit in the
  thirty-two bits of \<open>GetNumPlayers\<close>; \<open>has_room k\<close>: also when \<open>k\<close> more join.
\<close>

definition joined_ok :: "chat_world \<Rightarrow> bool" where
  "joined_ok w \<longleftrightarrow> (\<forall>g. distinct (w_joined w g) \<and>
     (\<forall>p \<in> set (w_joined w g). \<exists>c. w_chan p w = Some c \<and> IsOn c g))"

definition has_room :: "nat \<Rightarrow> chat_world \<Rightarrow> bool" where
  "has_room k w \<longleftrightarrow> k < 2 ^ 32 \<and> (\<forall>p c. w_chan p w = Some c \<longrightarrow> length (ch_players c) + k < 2 ^ 32)"

definition few_members :: "chat_world \<Rightarrow> bool" where
  "few_members w \<longleftrightarrow> (\<forall>p c. w_chan p w = Some c \<longrightarrow> length (ch_players c) < 2 ^ 32)"

lemma w_chan_set:
  "w_chan p (set_channels s (sm_put k c) w) = (if p = (s, k) then Some c else w_chan p w)"
  "w_chan p (set_channels s (sm_erase k) w) = (if p = (s, k) then None else w_chan p w)"
  by (cases p; auto simp: w_chan_def set_channels_def sm_find_put sm_find_erase)+

lemma w_chan_other [simp]:
  "w_chan p (w\<lparr>w_joined := j\<rparr>) = w_chan p w" "w_chan p (w\<lparr>w_out := out\<rparr>) = w_chan p w"
  "w_joined (set_channels s f w) = w_joined w" "w_out (set_channels s f w) = w_out w"
  by (simp_all add: w_chan_def set_channels_def)

lemma joined_ok_cong:
  assumes "joined_ok w" "w_joined v = w_joined w" "\<And>p. w_chan p v = w_chan p w"
  shows "joined_ok v"
  using assms by (simp add: joined_ok_def)

lemma IsOn_no_out [simp]: "IsOn (c\<lparr>ch_out := out\<rparr>) = IsOn c"
  by (simp add: IsOn_def fun_eq_iff)

context member_op
begin

lemma run_channel_joined_ok:
  assumes w: "joined_ok w"
  shows "joined_ok (run_channel p op w)"
proof (cases "w_chan p w")
  case None
  with w show ?thesis by (simp add: run_channel_def)
next
  case (Some c)
  let ?c = "c\<lparr>ch_out := []\<rparr>"
  have cb: "callbacks ?c = []" by (simp add: callbacks_def)
  have t: "distinct (w_joined (run_channel p op w) g) \<and>
      (p \<in> set (w_joined (run_channel p op w) g) \<longrightarrow> IsOn (op ?c) g) \<and>
      (q \<noteq> p \<longrightarrow> (q \<in> set (w_joined (run_channel p op w) g)) = (q \<in> set (w_joined w g)))" for g q
  proof -
    have "distinct (w_joined w g)" "p \<in> set (w_joined w g) \<Longrightarrow> IsOn ?c g"
      using w Some by (auto simp: joined_ok_def dest!: spec [of _ g])
    from tracks [where c = ?c and j = "w_joined w" and g = g and p = p and q = q, OF cb this] show ?thesis
      by (simp add: run_channel_def Some Let_def)
  qed
  have ch: "w_chan q (run_channel p op w) = (if q = p then Some ((op ?c)\<lparr>ch_out := []\<rparr>) else w_chan q w)" for q
    by (simp add: run_channel_def Some Let_def w_chan_set)
  show ?thesis
    unfolding joined_ok_def
  proof (intro allI conjI ballI)
    fix g q
    show "distinct (w_joined (run_channel p op w) g)" using t by simp
    assume "q \<in> set (w_joined (run_channel p op w) g)"
    with t [of g q] w show "\<exists>c. w_chan q (run_channel p op w) = Some c \<and> IsOn c g"
      by (cases "q = p") (auto simp: ch joined_ok_def)
  qed
qed

end

section \<open>Steps of the chat system\<close>

definition channel_opcode :: "chat_env \<Rightarrow> chan_player \<Rightarrow> u16 \<Rightarrow>
    (byte_buffer \<Rightarrow> chat_world \<Rightarrow> bb_error + chat_world) option" where
  "channel_opcode e pl opcode =
     map_of [(0x097, HandleJoinChannel e pl), (0x098, HandleLeaveChannel e pl),
       (0x09A, HandleChannelList e pl), (0x09C, HandleChannelPassword e pl),
       (0x09D, HandleChannelSetOwner e pl), (0x09E, HandleChannelOwner e pl),
       (0x09F, HandleChannelModerator e pl), (0x0A0, HandleChannelUnmoderator e pl),
       (0x0A1, HandleChannelMute e pl), (0x0A2, HandleChannelUnmute e pl),
       (0x0A3, HandleChannelInvite e pl), (0x0A4, HandleChannelKick e pl),
       (0x0A5, HandleChannelBan e pl), (0x0A6, HandleChannelUnban e pl),
       (0x0A7, HandleChannelAnnouncements e pl), (0x3D2, HandleChannelDisplayListQuery e pl),
       (0x3D4, HandleGetChannelMemberCount e pl), (0x3EF, HandleSetChannelWatch e pl)] opcode"

text \<open>
  The chat system moves by a packet of a player who is in the world, by a chat message, by
  a player who changes the zone, by an administrator's command, and by a player's logout. A packet
  whose parsing throws changes nothing. (\<open>Player::LeaveLFGChannel\<close> is not called anywhere.)
\<close>

inductive chat_step :: "chat_world \<Rightarrow> chat_world \<Rightarrow> bool" where
  packet: "channel_opcode e pl opcode = Some h \<Longrightarrow> FindPlayer e (pl_guid pl) \<noteq> None \<Longrightarrow>
    h b w = Inr w' \<Longrightarrow> few_members w \<Longrightarrow> chat_step w w'"
| say: "chat_step w (on_channel e pl name (Say (cenv e) (pl_guid pl) what lang) w)"
| zone: "has_room rows w \<Longrightarrow> chat_step w (UpdateLocalChannels e pl loading names rows w)"
| ownership: "chat_step w (HandleChannelSetOwnership e pl name on w)"
| logout: "few_members w \<Longrightarrow> chat_step w (CleanupChannels e pl w)"

definition empty_world :: chat_world where
  "empty_world = \<lparr>w_mgr = (\<lambda>_. \<lparr>cm_team = 0, cm_channels = []\<rparr>), w_joined = (\<lambda>_. []), w_out = []\<rparr>"

inductive chat_reach :: "chat_world \<Rightarrow> bool" where
  start: "chat_reach empty_world"
| step: "chat_reach w \<Longrightarrow> chat_step w w' \<Longrightarrow> chat_reach w'"

inductive_cases chat_stepE: "chat_step w w'"

lemma GetChannel_joined_ok: "joined_ok w \<Longrightarrow> joined_ok (snd (GetChannel e s n g pkt w))"
  by (auto simp: GetChannel_def Let_def intro: joined_ok_cong)

lemma GetJoinChannel_joined_ok:
  assumes "joined_ok w"
  shows "joined_ok (snd (GetJoinChannel e s n i w))"
proof (cases "w_chan (s, chan_key e n) w")
  case None
  have "w_chan p (snd (GetJoinChannel e s n i w)) = w_chan p w" if "w_chan p w = Some c" for p c
    using that None by (auto simp: GetJoinChannel_def Let_def w_chan_set)
  moreover have "w_joined (snd (GetJoinChannel e s n i w)) = w_joined w"
    by (simp add: GetJoinChannel_def Let_def)
  ultimately show ?thesis
    using assms by (fastforce simp: joined_ok_def)
next
  case (Some c)
  then show ?thesis using assms by (simp add: GetJoinChannel_def Let_def w_chan_def)
qed

context member_op
begin

lemma on_channel_joined_ok:
  assumes "joined_ok w"
  shows "joined_ok (on_channel e pl n op w)"
proof (cases "channelMgr e (pl_team pl)")
  case None
  with assms show ?thesis by (simp add: on_channel_def)
next
  case (Some s)
  obtain r w1 where g: "GetChannel e s n (pl_guid pl) True w = (r, w1)" by force
  then have "joined_ok w1" using GetChannel_joined_ok [OF assms] by (metis snd_conv)
  with Some g show ?thesis by (cases r) (simp_all add: on_channel_def run_channel_joined_ok)
qed

lemma name_handler_joined_ok:
  "joined_ok w \<Longrightarrow> name_handler e pl op b w = Inr w' \<Longrightarrow> joined_ok w'"
  by (auto simp: name_handler_def sbind_Inr on_channel_joined_ok split: if_splits)

end

lemma target_handler_joined_ok:
  assumes "\<And>n. member_op (op n)" "joined_ok w" "target_handler e pl op b w = Inr w'"
  shows "joined_ok w'"
  using assms(2,3) member_op.on_channel_joined_ok [OF assms(1)]
  by (auto simp: target_handler_def sbind_Inr split: if_splits option.splits)

lemma joined_ok_team [simp]:
  "joined_ok (w\<lparr>w_mgr := (w_mgr w)(s := (w_mgr w s)\<lparr>cm_team := t\<rparr>)\<rparr>) = joined_ok w"
proof -
  have "w_chan p (w\<lparr>w_mgr := (w_mgr w)(s := (w_mgr w s)\<lparr>cm_team := t\<rparr>)\<rparr>) = w_chan p w" for p
    by (simp add: w_chan_def)
  then show ?thesis by (simp add: joined_ok_def)
qed

lemma join_joined_ok:
  assumes "joined_ok w" "GetJoinChannel e s n i w = (c, w1)"
  shows "joined_ok (run_channel c (Join e' g pass) w1)"
proof -
  have "joined_ok w1" using GetJoinChannel_joined_ok [OF assms(1), of e s n i] assms(2) by simp
  then show ?thesis by (rule op_join.run_channel_joined_ok)
qed

lemma join_team_joined_ok:
  "GetJoinChannel e s n i (w\<lparr>w_mgr := (w_mgr w)(s := (w_mgr w s)\<lparr>cm_team := t\<rparr>)\<rparr>) = (c, w1) \<Longrightarrow>
   joined_ok w \<Longrightarrow> joined_ok (run_channel c (Join e' g pass) w1)"
  by (rule join_joined_ok [of "w\<lparr>w_mgr := (w_mgr w)(s := (w_mgr w s)\<lparr>cm_team := t\<rparr>)\<rparr>"]) simp_all

lemma join_lfg_joined_ok: "joined_ok w \<Longrightarrow> joined_ok (join_lfg e pl i w)"
  by (auto simp: join_lfg_def Let_def join_joined_ok split: option.split prod.split)

lemma HandleJoinChannel_joined_ok:
  assumes "joined_ok w" "HandleJoinChannel e pl b w = Inr w'"
  shows "joined_ok w'"
proof -
  have "joined_ok (join_named e pl i n p w)" for i n p
    using assms(1) by (auto simp: join_named_def Let_def split: option.split prod.split
        intro!: join_team_joined_ok)
  then have "joined_ok (join_request e pl i n p w)" for i n p
    using assms(1) by (simp add: join_request_def join_lfg_joined_ok split: option.split)
  with assms(2) show ?thesis by (auto simp: HandleJoinChannel_def sbind_Inr)
qed

text \<open>Deleting an empty channel takes no pointer's target away.\<close>

lemma mgr_LeftChannel_joined_ok:
  assumes "joined_ok w" "few_members w"
  shows "joined_ok (mgr_LeftChannel e s n w)"
proof (cases "w_chan (s, chan_key e n) w")
  case None
  then show ?thesis using assms by (simp add: mgr_LeftChannel_def Let_def w_chan_def)
next
  case (Some c)
  have len: "length (ch_players c) < 2 ^ 32" using Some assms(2) by (auto simp: few_members_def)
  show ?thesis
  proof (cases "GetNumPlayers c = 0 \<and> \<not> IsConstant c")
    case True
    moreover have "unat (GetNumPlayers c) = length (ch_players c)"
      using len by (simp add: GetNumPlayers_def unat_of_nat)
    ultimately have "ch_players c = []" by simp
    then have none: "\<not> IsOn c g" for g by (simp add: IsOn_def)
    have "w_chan p (mgr_LeftChannel e s n w) = w_chan p w" if "p \<noteq> (s, chan_key e n)" for p
      using that Some True by (simp add: mgr_LeftChannel_def Let_def w_chan_def set_channels_def
          sm_find_erase prod_eq_iff)
    moreover have "p \<noteq> (s, chan_key e n)" if "p \<in> set (w_joined w g)" for p g
      using that none Some assms(1) by (fastforce simp: joined_ok_def)
    moreover have "w_joined (mgr_LeftChannel e s n w) = w_joined w"
      by (simp add: mgr_LeftChannel_def Let_def split: option.split)
    ultimately show ?thesis using assms(1) by (simp add: joined_ok_def)
  next
    case False
    with Some assms show ?thesis
      by (auto simp: mgr_LeftChannel_def Let_def w_chan_def)
  qed
qed

text \<open>The member count does not grow by a call of \<open>Leave\<close>.\<close>

lemma length_sm_erase: "length (sm_erase k m) \<le> length m"
  by (simp add: sm_erase_def)

lemma length_sm_erase_found: "sm_find m k \<noteq> None \<Longrightarrow> length (sm_erase k m) < length m"
  by (auto simp: sm_erase_def sm_find_def dest!: map_of_SomeD intro!: length_filter_less)

lemma length_player_upd:
  "length (ch_players (player_upd k f c)) \<le> length (ch_players c) + (if IsOn c k then 0 else 1)"
proof -
  have l: "length (sm_put k v m) \<le> Suc (length (sm_erase k m))" for v and m :: "(u64, PlayerInfo) smap"
  proof -
    have "length (filter (\<lambda>e. fst e < k) m) + length (filter (\<lambda>e. k < fst e) m) = length (sm_erase k m)"
      by (induction m) (auto simp: sm_erase_def)
    then show ?thesis by (simp add: sm_put_def)
  qed
  have "length (sm_erase k (ch_players c)) < length (ch_players c)" if "IsOn c k"
    using that by (simp add: IsOn_def length_sm_erase_found)
  then show ?thesis
    using l [of "f (player_ref c k)" "ch_players c"] length_sm_erase [of k "ch_players c"]
    by (fastforce simp: player_upd_def)
qed

lemma length_SetOwner:
  "length (ch_players (SetOwner e g x c)) \<le> length (ch_players c) + (if IsOn c g then 0 else 1)"
proof -
  define c1 where "c1 = (if ch_ownerGUID c \<noteq> 0 \<and> sm_find (ch_players c) (ch_ownerGUID c) \<noteq> None
                then player_upd (ch_ownerGUID c) (pi_SetOwner False) c else c)"
  have c1: "length (ch_players c1) \<le> length (ch_players c)" "IsOn c g \<Longrightarrow> IsOn c1 g"
    using length_player_upd [of "ch_ownerGUID c" "pi_SetOwner False" c]
    by (auto simp: c1_def IsOn_def find_player_upd)
  have i: "IsOn (c1\<lparr>ch_ownerGUID := g\<rparr>) g = IsOn c1 g" by (simp add: IsOn_def)
  have "length (ch_players (player_upd g (pi_SetOwner True) (player_upd g (pi_SetModerator True)
      (c1\<lparr>ch_ownerGUID := g\<rparr>)))) \<le> length (ch_players c1) + (if IsOn c1 g then 0 else 1)"
    using length_player_upd [of g "pi_SetOwner True" "player_upd g (pi_SetModerator True) (c1\<lparr>ch_ownerGUID := g\<rparr>)"]
      length_player_upd [of g "pi_SetModerator True" "c1\<lparr>ch_ownerGUID := g\<rparr>"]
    by (simp add: IsOn_player_upd i)
  moreover have "ch_players (SetOwner e g x c) = (if g = 0 then ch_players c1 else
      ch_players (player_upd g (pi_SetOwner True) (player_upd g (pi_SetModerator True) (c1\<lparr>ch_ownerGUID := g\<rparr>))))"
    by (simp add: SetOwner_def Let_def c1_def)
  ultimately show ?thesis using c1 by (auto split: if_splits)
qed

lemma length_Leave: "length (ch_players (Leave e p send c)) \<le> length (ch_players c)"
proof (cases "IsOn c p")
  case True
  let ?d = "UpdateChannelUseageInDB (depart e p send c)"
  have d: "length (ch_players ?d) < length (ch_players c)"
    using True by (simp add: players_drop_member length_sm_erase_found IsOn_def)
  have "length (ch_players (hand_over e c')) \<le> Suc (length (ch_players c'))" for c'
  proof (cases "ch_players c'")
    case (Cons x r)
    let ?n = "pi_player (snd x)"
    have "hand_over e c' = SetOwner e ?n True (player_upd ?n (pi_SetModerator True) c')"
      by (cases x) (simp add: hand_over_def Cons Let_def)
    with length_SetOwner [of e ?n True "player_upd ?n (pi_SetModerator True) c'"]
      length_player_upd [of ?n "pi_SetModerator True" c']
    show ?thesis by (simp add: IsOn_player_upd split: if_splits)
  qed (simp add: hand_over_def)
  from this [of ?d] d show ?thesis by (auto simp: Leave_on [OF True] Let_def)
qed (simp add: Leave_def)

lemma run_Leave_few:
  assumes "few_members w"
  shows "few_members (run_channel p (Leave e g send) w)"
proof (cases "w_chan p w")
  case (Some c)
  have "length (ch_players (Leave e g send (c\<lparr>ch_out := []\<rparr>))) \<le> length (ch_players c)"
    using length_Leave [of e g send "c\<lparr>ch_out := []\<rparr>"] by simp
  with assms Some show ?thesis
    by (fastforce simp: few_members_def run_channel_def Let_def w_chan_set split: if_splits)
qed (use assms in \<open>simp add: run_channel_def\<close>)

lemma mgr_LeftChannel_few: "few_members w \<Longrightarrow> few_members (mgr_LeftChannel e s n w)"
  by (auto simp: few_members_def mgr_LeftChannel_def Let_def w_chan_set split: option.splits if_splits)

lemma run_Leave_online:
  assumes "FindPlayer e g \<noteq> None"
  shows "run_channel p (Leave e g True) w = run_channel p (leave_online e g) w"
proof -
  have "Leave e g True = leave_online e g" using assms by (auto simp: fun_eq_iff leave_online_def)
  then show ?thesis by simp
qed

lemma HandleLeaveChannel_joined_ok:
  assumes w: "joined_ok w" "few_members w" and on: "FindPlayer e (pl_guid pl) \<noteq> None"
    and h: "HandleLeaveChannel e pl b w = Inr w'"
  shows "joined_ok w'"
proof -
  have on': "FindPlayer (cenv e) (pl_guid pl) \<noteq> None" using on by (simp add: chan_env.truncate_def)
  have "joined_ok (mgr_LeftChannel e s n (case GetChannel e s n (pl_guid pl) True w of
      (None, w1) \<Rightarrow> w1 | (Some chn, w1) \<Rightarrow> run_channel chn (Leave (cenv e) (pl_guid pl) True) w1))" for s n
  proof -
    obtain r w1 where g: "GetChannel e s n (pl_guid pl) True w = (r, w1)" by force
    then have j: "joined_ok w1" using GetChannel_joined_ok [OF w(1)] by (metis snd_conv)
    have f: "few_members w1" using g w(2) by (auto simp: GetChannel_def Let_def few_members_def split: if_splits)
    show ?thesis
    proof (cases r)
      case None
      with g j f show ?thesis by (simp add: mgr_LeftChannel_joined_ok)
    next
      case (Some chn)
      have "joined_ok (run_channel chn (Leave (cenv e) (pl_guid pl) True) w1)"
        unfolding run_Leave_online [OF on'] by (rule op_leave.run_channel_joined_ok [OF j])
      with g Some f show ?thesis by (simp add: mgr_LeftChannel_joined_ok run_Leave_few)
    qed
  qed
  with h w(1) show ?thesis
    by (auto simp: HandleLeaveChannel_def sbind_Inr split: if_splits option.splits)
qed

lemma logout_leave_joined_ok:
  assumes w: "joined_ok w" and p: "p \<notin> set (w_joined w g)"
  shows "joined_ok (run_channel p (Leave e g False) w)"
proof (cases "w_chan p w")
  case (Some c)
  let ?d = "Leave e g False (c\<lparr>ch_out := []\<rparr>)"
  have "callbacks ?d = []" using callbacks_Leave [of e g False "c\<lparr>ch_out := []\<rparr>"]
    by (simp add: callbacks_def)
  then have j: "w_joined (run_channel p (Leave e g False) w) = w_joined w"
    using fold_callbacks [of p "ch_out ?d" "w_joined w"]
    by (simp add: run_channel_def Some Let_def callbacks_def)
  have ch: "w_chan q (run_channel p (Leave e g False) w) =
      (if q = p then Some (?d\<lparr>ch_out := []\<rparr>) else w_chan q w)" for q
    by (simp add: run_channel_def Some Let_def w_chan_set)
  have on: "IsOn ?d h" if "p \<in> set (w_joined w h)" for h
  proof -
    have "h \<noteq> g" using that p by auto
    moreover have "IsOn (c\<lparr>ch_out := []\<rparr>) h" using that w Some by (fastforce simp: joined_ok_def)
    ultimately show ?thesis by (simp add: Leave_stays)
  qed
  with w show ?thesis by (auto simp: joined_ok_def j ch)
qed (use w in \<open>simp add: run_channel_def\<close>)

lemma cleanup_step:
  assumes w: "joined_ok w" "few_members w" and j: "w_joined w g = ch # r"
  shows "joined_ok (run_channel ch (Leave e g False) (w\<lparr>w_joined := (w_joined w)(g := r)\<rparr>))"
proof (rule logout_leave_joined_ok)
  have "distinct (ch # r)" using w(1) j by (metis joined_ok_def)
  then show "ch \<notin> set (w_joined (w\<lparr>w_joined := (w_joined w)(g := r)\<rparr>) g)" by simp
  have "distinct r \<and> (\<forall>p \<in> set r. \<exists>c. w_chan p w = Some c \<and> IsOn c g)"
    using w(1) j unfolding joined_ok_def by (metis distinct.simps(2) list.set_intros(2))
  with w(1) show "joined_ok (w\<lparr>w_joined := (w_joined w)(g := r)\<rparr>)"
    by (simp add: joined_ok_def)
qed

lemma mgr_LeftChannel_joined [simp]: "w_joined (mgr_LeftChannel e s n w) = w_joined w"
  by (simp add: mgr_LeftChannel_def Let_def split: option.split)

lemma logout_keeps_list:
  "w_joined (run_channel p (Leave e g False) w) = w_joined w"
proof (cases "w_chan p w")
  case (Some c)
  have "callbacks (Leave e g False (c\<lparr>ch_out := []\<rparr>)) = []"
    using callbacks_Leave [of e g False "c\<lparr>ch_out := []\<rparr>"] by (simp add: callbacks_def)
  then show ?thesis
    using fold_callbacks [of p "ch_out (Leave e g False (c\<lparr>ch_out := []\<rparr>))" "w_joined w"]
    by (simp add: run_channel_def Some Let_def callbacks_def)
qed (simp add: run_channel_def)

text \<open>The loop reads the list it was given: nothing inside it changes the player's list.\<close>

lemma cleanup_loop_ok:
  "joined_ok w \<Longrightarrow> few_members w \<Longrightarrow> w_joined w (pl_guid pl) = ps \<Longrightarrow>
   joined_ok (cleanup_loop e pl ps w) \<and> w_joined (cleanup_loop e pl ps w) (pl_guid pl) = []"
proof (induction e pl ps w rule: cleanup_loop.induct)
  case (2 e pl ch r w)
  let ?w1 = "w\<lparr>w_joined := (w_joined w)(pl_guid pl := r)\<rparr>"
  let ?w2 = "run_channel ch (Leave (cenv e) (pl_guid pl) False) ?w1"
  let ?w3 = "case channelMgr e (pl_team pl) of None \<Rightarrow> ?w2
    | Some s \<Rightarrow> (case w_chan ch ?w2 of None \<Rightarrow> ?w2 | Some c \<Rightarrow> mgr_LeftChannel e s (ch_name c) ?w2)"
  have "few_members ?w1" using 2(3) by (simp add: few_members_def)
  then have w2: "joined_ok ?w2" "few_members ?w2" "w_joined ?w2 (pl_guid pl) = r"
    using cleanup_step [OF 2(2,3,4)] by (simp_all add: run_Leave_few logout_keeps_list)
  then have "joined_ok ?w3" "few_members ?w3" "w_joined ?w3 (pl_guid pl) = r"
    by (auto simp: mgr_LeftChannel_joined_ok mgr_LeftChannel_few split: option.split)
  then show ?case using 2(1) [OF refl refl refl] by (simp add: Let_def)
qed simp

text \<open>A player changes the zone.\<close>

lemma has_room_few: "has_room k w \<Longrightarrow> few_members w"
  by (auto simp: has_room_def few_members_def intro: add_lessD1)

lemma run_room:
  assumes "has_room (Suc k) w" "\<And>c. length (ch_players (op c)) \<le> Suc (length (ch_players c))"
  shows "has_room k (run_channel p op w)"
proof (cases "w_chan p w")
  case (Some c)
  have "length (ch_players (op (c\<lparr>ch_out := []\<rparr>))) \<le> Suc (length (ch_players c))"
    using assms(2) [of "c\<lparr>ch_out := []\<rparr>"] by simp
  with assms(1) Some show ?thesis
    by (fastforce simp: has_room_def run_channel_def Let_def w_chan_set split: if_splits)
qed (use assms(1) in \<open>fastforce simp: run_channel_def has_room_def\<close>)

lemma length_Join: "length (ch_players (Join e p pass c)) \<le> Suc (length (ch_players c))"
proof (cases "join_admits e p pass c")
  case True
  have "length (ch_players (put_member p c)) \<le> Suc (length (ch_players c))"
  proof -
    have "length (sm_put p v m) \<le> Suc (length m)" for v and m :: "(u64, PlayerInfo) smap"
    proof -
      have "length (filter (\<lambda>e. fst e < p) m) + length (filter (\<lambda>e. p < fst e) m) \<le> length m"
        by (induction m) auto
      then show ?thesis by (simp add: sm_put_def)
    qed
    then show ?thesis by (simp add: put_member_def)
  qed
  moreover have "length (ch_players (player_upd p (pi_SetModerator True) (SetOwner e p x c'))) \<le> length (ch_players c')"
    if "IsOn c' p" for x c'
    using length_player_upd [of p "pi_SetModerator True" "SetOwner e p x c'"] length_SetOwner [of e p x c'] that
    by (simp add: IsOn_SetOwner_mono)
  from this [of "UpdateChannelUseageInDB (enter e p c)"]
  have "length (ch_players (player_upd p (pi_SetModerator True) (SetOwner e p x (UpdateChannelUseageInDB (enter e p c)))))
      \<le> length (ch_players (enter e p c))" for x
    by (simp add: IsOn_enter)
  ultimately show ?thesis by (auto simp: Join_admitted [OF True] Let_def intro: order_trans)
next
  case False
  then show ?thesis using Join_refused [OF False] by auto
qed

lemma local_join_room: "has_room (Suc k) w \<Longrightarrow> has_room k (local_join e g p w)"
  unfolding local_join_def by (rule run_room) (simp_all add: length_Join)

lemma has_room_mono: "has_room k w \<Longrightarrow> j \<le> k \<Longrightarrow> has_room j w"
  by (fastforce simp: has_room_def)

lemma has_room_cong:
  assumes "has_room k w" "\<And>p. w_chan p v = w_chan p w \<or> w_chan p v = None"
  shows "has_room k v"
  unfolding has_room_def
proof (intro conjI allI impI)
  show "k < 2 ^ 32" using assms(1) by (simp add: has_room_def)
  fix p c assume "w_chan p v = Some c"
  then have "w_chan p w = Some c" using assms(2) [of p] by auto
  then show "length (ch_players c) + k < 2 ^ 32" using assms(1) unfolding has_room_def by blast
qed

lemma w_chan_LeftChannel: "w_chan p (mgr_LeftChannel e s n w) = w_chan p w \<or> w_chan p (mgr_LeftChannel e s n w) = None"
  by (auto simp: mgr_LeftChannel_def Let_def w_chan_set split: option.split)

lemma GetJoinChannel_room:
  assumes "has_room k w" "GetJoinChannel e s n i w = (p, w1)"
  shows "has_room k w1"
proof (cases "w_chan (s, chan_key e n) w")
  case None
  with assms show ?thesis
    by (fastforce simp: GetJoinChannel_def Let_def has_room_def w_chan_set split: if_splits)
next
  case (Some c)
  with assms show ?thesis by (auto simp: GetJoinChannel_def Let_def w_chan_def)
qed

lemma drop_joined_ok: "joined_ok w \<Longrightarrow> joined_ok (w\<lparr>w_joined := (w_joined w)(g := removeAll p (w_joined w g))\<rparr>)"
  by (auto simp: joined_ok_def distinct_removeAll)

lemma unheard_leave:
  assumes "\<not> (send \<and> FindPlayer e g \<noteq> None)"
  shows "w_joined (run_channel p (Leave e g send) w) = w_joined w"
    "(run_channel p (Leave e g send) w)\<lparr>w_joined := j\<rparr> = run_channel p (Leave e g send) (w\<lparr>w_joined := j\<rparr>)"
proof -
  have "fold (player_callback p) (ch_out (Leave e g send (c\<lparr>ch_out := []\<rparr>))) j = j" for c j
  proof -
    have "callbacks (Leave e g send (c\<lparr>ch_out := []\<rparr>)) = []"
      using callbacks_Leave [of e g send "c\<lparr>ch_out := []\<rparr>"] assms by (auto simp: callbacks_def)
    then show ?thesis using fold_callbacks [of p "ch_out (Leave e g send (c\<lparr>ch_out := []\<rparr>))" j] by (simp add: callbacks_def)
  qed
  then show "w_joined (run_channel p (Leave e g send) w) = w_joined w"
    "(run_channel p (Leave e g send) w)\<lparr>w_joined := j\<rparr> = run_channel p (Leave e g send) (w\<lparr>w_joined := j\<rparr>)"
    by (simp_all add: run_channel_def Let_def set_channels_def split: option.split)
qed

text \<open>An unheard departure from a channel that is no longer in the player's list.\<close>

lemma unlisted_leave_ok:
  assumes w: "joined_ok w" and p: "p \<notin> set (w_joined w g)" and q: "\<not> (send \<and> FindPlayer e g \<noteq> None)"
  shows "joined_ok (run_channel p (Leave e g send) w)"
proof (cases "w_chan p w")
  case (Some c)
  let ?d = "Leave e g send (c\<lparr>ch_out := []\<rparr>)"
  have ch: "w_chan r (run_channel p (Leave e g send) w) = (if r = p then Some (?d\<lparr>ch_out := []\<rparr>) else w_chan r w)" for r
    by (simp add: run_channel_def Some Let_def w_chan_set)
  have on: "IsOn ?d h" if "p \<in> set (w_joined w h)" for h
  proof -
    have "h \<noteq> g" using that p by auto
    moreover have "IsOn (c\<lparr>ch_out := []\<rparr>) h" using that w Some by (fastforce simp: joined_ok_def)
    ultimately show ?thesis by (simp add: Leave_stays)
  qed
  with w show ?thesis by (auto simp: joined_ok_def unheard_leave(1) [OF q] ch)
qed (use w in \<open>simp add: run_channel_def\<close>)

lemma local_leave_ok:
  assumes w: "joined_ok w" "has_room k w"
  shows "joined_ok (local_leave e s g p send w)" "has_room k (local_leave e s g p send w)"
proof -
  let ?w1 = "run_channel p (Leave (cenv e) g send) w"
  let ?w2 = "?w1\<lparr>w_joined := (w_joined ?w1)(g := removeAll p (w_joined ?w1 g))\<rparr>"
  have few: "few_members ?w2" using run_Leave_few [OF has_room_few [OF w(2)]] by (simp add: few_members_def)
  have room: "has_room k ?w2"
  proof (cases "w_chan p w")
    case (Some c)
    have "length (ch_players (Leave (cenv e) g send (c\<lparr>ch_out := []\<rparr>))) \<le> length (ch_players c)"
      using length_Leave [of "cenv e" g send "c\<lparr>ch_out := []\<rparr>"] by simp
    with w(2) Some show ?thesis by (fastforce simp: has_room_def run_channel_def Let_def w_chan_set split: if_splits)
  qed (use w(2) in \<open>simp add: run_channel_def has_room_def\<close>)
  have ok: "joined_ok ?w2"
  proof (cases "send \<and> FindPlayer (cenv e) g \<noteq> None")
    case True
    then have "?w1 = run_channel p (leave_online (cenv e) g) w" using run_Leave_online [of "cenv e" g p w] by simp
    then have "joined_ok ?w1" using op_leave.run_channel_joined_ok [OF w(1)] by simp
    then show ?thesis by (rule drop_joined_ok)
  next
    case False
    let ?v = "w\<lparr>w_joined := (w_joined w)(g := removeAll p (w_joined w g))\<rparr>"
    have "?w2 = run_channel p (Leave (cenv e) g send) ?v" by (simp only: unheard_leave [OF False])
    moreover have "joined_ok (run_channel p (Leave (cenv e) g send) ?v)"
      by (rule unlisted_leave_ok [OF drop_joined_ok [OF w(1)] _ False]) simp
    ultimately show ?thesis by simp
  qed
  show "joined_ok (local_leave e s g p send w)"
    using ok mgr_LeftChannel_joined_ok [OF ok few] by (simp add: local_leave_def Let_def split: option.split)
  show "has_room k (local_leave e s g p send w)"
    using room has_room_cong [OF room w_chan_LeftChannel] by (simp add: local_leave_def Let_def split: option.split)
qed

lemma local_row_ok:
  assumes w: "joined_ok w" "has_room (Suc k) w"
  shows "joined_ok (local_row e s g names i w) \<and> has_room k (local_row e s g names i w)"
proof -
  have small: "has_room k w" using w(2) by (rule has_room_mono) simp
  have join: "joined_ok (local_join e g p w1)" "has_room k (local_join e g p w1)" "joined_ok w1" "has_room k w1"
    if "GetJoinChannel e s n i w = (p, w1)" for n p w1
  proof -
    have r: "has_room (Suc k) w1" by (rule GetJoinChannel_room [OF w(2) that])
    then show "has_room k (local_join e g p w1)" by (rule local_join_room)
    show "has_room k w1" using r by (rule has_room_mono) simp
    show "joined_ok w1" using GetJoinChannel_joined_ok [OF w(1), of e s n i] that by simp
    show "joined_ok (local_join e g p w1)" unfolding local_join_def by (rule join_joined_ok [OF w(1) that])
  qed
  show ?thesis
  proof (cases "chat_channels e i")
    case (Some flags)
    obtain p1 w1 where 1: "GetJoinChannel e s (names i) i w = (p1, w1)" by (cases "GetJoinChannel e s (names i) i w") auto
    obtain p2 w2 where 2: "GetJoinChannel e s (channel_pattern e i) i w = (p2, w2)" by (cases "GetJoinChannel e s (channel_pattern e i) i w") auto
    note o1 = join [OF 1] and o2 = join [OF 2]
    show ?thesis
      using w(1) small o1 o2 local_leave_ok [OF o1(1,2), of e s g _ False] local_leave_ok [OF w(1) small, of e s g _ True]
      by (simp add: local_row_def Let_def Some 1 2 split: option.split)
  qed (use w(1) small in \<open>simp add: local_row_def\<close>)
qed

lemma UpdateLocalChannels_ok:
  assumes "joined_ok w" "has_room rows w"
  shows "joined_ok (UpdateLocalChannels e pl loading names rows w)"
proof -
  have "joined_ok (fold (\<lambda>i. local_row e s g names (of_nat i)) is w)" if "joined_ok w" "has_room (length is) w" for s g w "is"
    using that
  proof (induction "is" arbitrary: w)
    case (Cons i "is")
    then show ?case using local_row_ok [of w "length is" e s g names "of_nat i"] by simp
  qed simp
  from this [of w "[0..<rows]"] assms show ?thesis
    by (simp add: UpdateLocalChannels_def split: option.split)
qed

text \<open>A handler keeps the pointers of a world.\<close>

definition keeps :: "chat_world \<Rightarrow> (byte_buffer \<Rightarrow> chat_world \<Rightarrow> bb_error + chat_world) \<Rightarrow> bool" where
  "keeps w h \<longleftrightarrow> (\<forall>b w'. h b w = Inr w' \<longrightarrow> joined_ok w')"

lemma keeps_name: "joined_ok w \<Longrightarrow> member_op op \<Longrightarrow> keeps w (name_handler e pl op)"
  by (auto simp: keeps_def dest: member_op.name_handler_joined_ok)

lemma keeps_target: "joined_ok w \<Longrightarrow> (\<And>n. member_op (op n)) \<Longrightarrow> keeps w (target_handler e pl op)"
  unfolding keeps_def using target_handler_joined_ok by blast

lemmas member_ops = op_who.member_op_axioms op_list.member_op_axioms op_announce.member_op_axioms
  op_count.member_op_axioms op_owner.member_op_axioms op_mode.member_op_axioms
  op_invite.member_op_axioms op_kick.member_op_axioms op_unban.member_op_axioms

lemma handlers_keep:
  assumes "joined_ok w"
  shows "keeps w (HandleChannelList e pl)" "keeps w (HandleChannelSetOwner e pl)"
    "keeps w (HandleChannelOwner e pl)" "keeps w (HandleChannelModerator e pl)"
    "keeps w (HandleChannelUnmoderator e pl)" "keeps w (HandleChannelMute e pl)"
    "keeps w (HandleChannelUnmute e pl)" "keeps w (HandleChannelInvite e pl)"
    "keeps w (HandleChannelKick e pl)" "keeps w (HandleChannelBan e pl)"
    "keeps w (HandleChannelUnban e pl)" "keeps w (HandleChannelAnnouncements e pl)"
    "keeps w (HandleChannelDisplayListQuery e pl)" "keeps w (HandleGetChannelMemberCount e pl)"
  unfolding HandleChannelList_def HandleChannelSetOwner_def HandleChannelOwner_def
    HandleChannelModerator_def HandleChannelUnmoderator_def HandleChannelMute_def
    HandleChannelUnmute_def HandleChannelInvite_def HandleChannelKick_def HandleChannelBan_def
    HandleChannelUnban_def HandleChannelAnnouncements_def HandleChannelDisplayListQuery_def
    HandleGetChannelMemberCount_def Kick_def Ban_def
  by (intro keeps_name keeps_target assms member_ops)+

lemma other_handlers_keep:
  assumes "joined_ok w"
  shows "keeps w (HandleJoinChannel e pl)" "keeps w (HandleChannelPassword e pl)"
    "keeps w (HandleSetChannelWatch e pl)"
    "few_members w \<Longrightarrow> FindPlayer e (pl_guid pl) \<noteq> None \<Longrightarrow> keeps w (HandleLeaveChannel e pl)"
  using assms HandleJoinChannel_joined_ok [OF assms] HandleLeaveChannel_joined_ok [OF assms]
  by (auto simp: keeps_def HandleChannelPassword_def HandleSetChannelWatch_def sbind_Inr
      op_pass.on_channel_joined_ok split: if_splits)

lemma channel_opcode_joined_ok:
  assumes "channel_opcode e pl opcode = Some h" "FindPlayer e (pl_guid pl) \<noteq> None"
    "h b w = Inr w'" "few_members w" "joined_ok w"
  shows "joined_ok w'"
proof -
  have "keeps w h"
    using assms(1) handlers_keep [OF assms(5), of e pl] other_handlers_keep [OF assms(5), of e pl]
      assms(2,4)
    by (auto simp: channel_opcode_def split: if_splits)
  with assms(3) show ?thesis by (simp add: keeps_def)
qed

lemma chat_step_joined_ok: "chat_step w w' \<Longrightarrow> joined_ok w \<Longrightarrow> joined_ok w'"
  by (induction rule: chat_step.induct)
    (auto simp: CleanupChannels_def cleanup_loop_ok op_say.on_channel_joined_ok UpdateLocalChannels_ok
      HandleChannelSetOwnership_def op_ownership.on_channel_joined_ok
      intro: channel_opcode_joined_ok)

text \<open>
  C11: whatever packets the players send, however they change zones and log out, and whatever an
  administrator does to the ownership, a player's list holds only
  channels that exist and that he is on, each once: \<open>LeftChannel\<close> of the manager never deletes a
  channel that a player still points to.
\<close>

theorem no_dangling_channel:
  assumes "chat_reach w"
  shows "distinct (w_joined w g) \<and>
    (\<forall>p \<in> set (w_joined w g). \<exists>c. sm_find (cm_channels (w_mgr w (fst p))) (snd p) = Some c \<and> IsOn c g)"
proof -
  from assms have "joined_ok w"
  proof induction
    case start
    show ?case by (simp add: joined_ok_def empty_world_def)
  next
    case (step w w')
    then show ?case using chat_step_joined_ok by blast
  qed
  then show ?thesis by (auto simp: joined_ok_def w_chan_def)
qed

definition demo_chat_player :: chan_player where
  "demo_chat_player = \<lparr>pl_guid = 1, pl_name = ''Ann'', pl_security = 0, pl_team = 469,
     pl_in_group = False, pl_ignores = [], pl_gm_visible = True, pl_chat_tag = 0,
     pl_visible_for = (\<lambda>_. True)\<rparr>"

definition demo_chat :: chat_env where
  "demo_chat = \<lparr>FindPlayer = (\<lambda>g. if g = 1 then Some demo_chat_player else None),
     FindPlayerByName = (\<lambda>_. None), GetPlayerNameByGUID = (\<lambda>_. None), two_side_channels = False,
     silent_gm_join = False, restricted_lfg = False, preserve_channels = False, gm_level_in_who = 0,
     chat_channels = (\<lambda>_. None), channel_row = (\<lambda>_ _. None),
     chan_key = map (\<lambda>c. of_nat (of_char c)), isValidChatMessage = (\<lambda>_. True),
     normalizePlayerName = Some, zone_known = (\<lambda>_. True),
     CanJoinConstantChannelInZone = (\<lambda>_ _. True), channel_pattern = (\<lambda>_. ''lfg'')\<rparr>"

text \<open>The request in a packet that a client has written is the one the handler acts on.\<close>

lemma HandleJoinChannel_reads:
  assumes "reads_at (packet_bytes \<lparr>pk_opcode = op, pk_fields = [F32 i, F8 u, F8 v, FStr n, FStr p]\<rparr>) b"
    and "NUL \<notin> set n" "NUL \<notin> set p"
  shows "HandleJoinChannel e pl b w = Inr (join_request e pl i n p w)"
proof -
  have ok: "CHR 0x00 \<notin> set n" "CHR 0x00 \<notin> set p" using assms(2,3) by (simp_all add: NUL_def)
  let ?b3 = "bb_advance 1 (bb_advance 1 (bb_advance 4 b))"
  have r: "reads_at (word_le_bytes i) b" "reads_at (word_le_bytes u) (bb_advance 4 b)"
    "reads_at (word_le_bytes v) (bb_advance 1 (bb_advance 4 b))"
    "reads_at (string_bytes n) ?b3"
    "reads_at (string_bytes p) (bb_advance (length (string_bytes n)) ?b3)"
    using assms(1) by (simp_all add: packet_bytes_def reads_at_append del: word_le_bytes_u8)
  show ?thesis
    using c32.rd_enc [OF _ r(1)] c8.rd_enc [OF _ r(2)] c8.rd_enc [OF _ r(3)] cstr.rd_enc [OF _ r(4)]
      cstr.rd_enc [OF _ r(5)] ok
    by (simp add: HandleJoinChannel_def del: length_string_bytes word_le_bytes_u8)
qed

definition demo_join_packet :: byte_buffer where
  "demo_join_packet = set_rpos (bb_size bb_new) (bb_extend
     (packet_bytes \<lparr>pk_opcode = 0x097, pk_fields = [F32 0, F8 0, F8 0, FStr ''x'', FStr '''']\<rparr>) bb_new)"

definition demo_joined_world :: chat_world where
  "demo_joined_world = join_request demo_chat demo_chat_player 0 ''x'' '''' empty_world"

theorem no_dangling_channel_witness:
  "w_joined demo_joined_world 1 = [(AllianceSide, [120])] \<and>
   (\<exists>c. sm_find (cm_channels (w_mgr demo_joined_world AllianceSide)) [120] = Some c \<and> IsOn c 1)"
proof -
  have j: "w_joined demo_joined_world 1 = [(AllianceSide, [120])]"
    by code_simp
  have "reads_at (packet_bytes \<lparr>pk_opcode = 0x097, pk_fields = [F32 0, F8 0, F8 0, FStr ''x'', FStr '''']\<rparr>)
      demo_join_packet"
    unfolding demo_join_packet_def
    by (rule reads_at_extend) (simp add: bb_size_def bb_extend_def bb_new_def packet_bytes_def size_max_def)
  then have h: "HandleJoinChannel demo_chat demo_chat_player demo_join_packet empty_world = Inr demo_joined_world"
    unfolding demo_joined_world_def by (rule HandleJoinChannel_reads) (simp_all add: NUL_def)
  have "chat_reach demo_joined_world"
  proof (rule chat_reach.step [OF chat_reach.start chat_step.packet])
    show "channel_opcode demo_chat demo_chat_player 0x097 = Some (HandleJoinChannel demo_chat demo_chat_player)"
      by (simp add: channel_opcode_def)
    show "FindPlayer demo_chat (pl_guid demo_chat_player) \<noteq> None"
      by (simp add: demo_chat_def demo_chat_player_def)
    show "few_members empty_world" by (simp add: few_members_def w_chan_def empty_world_def)
  qed (rule h)
  from no_dangling_channel [OF this, of 1] j show ?thesis by simp
qed

end
