(* ===== verification/Group_Loot.thy ===== *)
theory Group_Loot
  imports World_Packet Guid_Types Std_Map
begin

text \<open>
  The loot rolls of a group, \<open>src/src/server/game/Groups/Group.cpp\<close>: starting the rolls for a
  looted object, counting the votes, ending a roll and giving the item away. The dice are a
  stream of numbers; templates, distances, inventories and sessions are the fields of an
  environment.
\<close>

section \<open>Data\<close>

datatype RollVote = PASS | NEED | GREED | DISENCHANT | NOT_EMITED_YET | NOT_VALID

primrec vote_code :: "RollVote \<Rightarrow> u8" where
  "vote_code PASS = 0"
| "vote_code NEED = 1"
| "vote_code GREED = 2"
| "vote_code DISENCHANT = 3"
| "vote_code NOT_EMITED_YET = 4"
| "vote_code NOT_VALID = 5"

definition ROLL_PASS :: u8 where "ROLL_PASS = 0"
definition ROLL_NEED :: u8 where "ROLL_NEED = 1"
definition ROLL_GREED :: u8 where "ROLL_GREED = 2"
definition ROLL_DISENCHANT :: u8 where "ROLL_DISENCHANT = 3"
definition MAX_ROLL_TYPE :: u8 where "MAX_ROLL_TYPE = 4"

definition ROLL_FLAG_TYPE_NEED :: u8 where "ROLL_FLAG_TYPE_NEED = 0x02"
definition ROLL_FLAG_TYPE_DISENCHANT :: u8 where "ROLL_FLAG_TYPE_DISENCHANT = 0x08"
definition ROLL_ALL_TYPE_NO_DISENCHANT :: u8 where "ROLL_ALL_TYPE_NO_DISENCHANT = 0x07"

definition ITEM_FLAGS_EXTRA_NEED_ROLL_DISABLED :: u32 where
  "ITEM_FLAGS_EXTRA_NEED_ROLL_DISABLED = 0x00000100"

definition SMSG_LOOT_ALL_PASSED :: u16 where "SMSG_LOOT_ALL_PASSED = 0x29E"
definition SMSG_LOOT_ROLL_WON :: u16 where "SMSG_LOOT_ROLL_WON = 0x29F"
definition SMSG_LOOT_START_ROLL :: u16 where "SMSG_LOOT_START_ROLL = 0x2A1"
definition SMSG_LOOT_ROLL :: u16 where "SMSG_LOOT_ROLL = 0x2A2"

record loot_item =
  li_itemid :: u32
  li_randomSuffix :: u32
  li_randomPropertyId :: u32
  li_allowed :: "u64 list"
  li_count :: u8
  li_is_looted :: bool
  li_is_blocked :: bool
  li_freeforall :: bool
  li_is_underthreshold :: bool
  li_follow_loot_rules :: bool

record loot =
  lt_items :: "loot_item list"
  lt_quest_items :: "loot_item list"
  lt_unlootedCount :: u8
  lt_PlayersLooting :: "(u64, unit) smap"

text \<open>A roll names its loot by address; \<open>None\<close> is a roll whose loot has been destroyed.\<close>

record roll =
  r_loot :: "nat option"
  r_itemGUID :: u64
  r_itemid :: u32
  r_itemRandomPropId :: u32
  r_itemRandomSuffix :: u32
  r_itemCount :: u8
  r_playerVote :: "(u64, RollVote) smap"
  r_totalPlayersRolling :: u8
  r_totalNeed :: u8
  r_totalGreed :: u8
  r_totalPass :: u8
  r_itemSlot :: u8
  r_rollVoteMask :: u8

definition new_roll :: "u64 \<Rightarrow> loot_item \<Rightarrow> roll" where
  "new_roll guid li = \<lparr>r_loot = None, r_itemGUID = guid, r_itemid = li_itemid li,
     r_itemRandomPropId = li_randomPropertyId li, r_itemRandomSuffix = li_randomSuffix li,
     r_itemCount = li_count li, r_playerVote = [], r_totalPlayersRolling = 0, r_totalNeed = 0,
     r_totalGreed = 0, r_totalPass = 0, r_itemSlot = 0,
     r_rollVoteMask = ROLL_ALL_TYPE_NO_DISENCHANT\<rparr>"

definition roll_isValid :: "roll \<Rightarrow> bool" where
  "roll_isValid r \<longleftrightarrow> r_loot r \<noteq> None"

record item_proto =
  ip_Quality :: u32
  ip_DisenchantID :: u32
  ip_RequiredDisenchantSkill :: u32
  ip_Flags2 :: u32

record loot_env =
  le_player :: "u64 \<Rightarrow> bool"
  le_session :: "u64 \<Rightarrow> bool"
  le_proto :: "u32 \<Rightarrow> item_proto option"
  le_allowed :: "loot_item \<Rightarrow> u64 \<Rightarrow> bool"
  le_near :: "u64 \<Rightarrow> bool"
  le_pass :: "u64 \<Rightarrow> bool"
  le_can_roll :: "u64 \<Rightarrow> u32 \<Rightarrow> bool"
  le_can_store :: "u64 \<Rightarrow> u32 \<Rightarrow> u8 \<Rightarrow> u8"
  le_map :: u32

datatype loot_event =
    SendTo u64 packet
  | AchievementNeed u64 u32 u8 | AchievementGreed u64 u32 u8
  | StoreNewItem u64 loot_item | SendEquipError u64 u8 u32
  | AutoStoreDisenchant u64 u32 | AchievementCastSpell u64 u32
  | AchievementRollNeed u64 | AchievementRollGreed u64
  | LootItemRemoved u64 u8
  | LootTimerStarted

record roll_state =
  rs_rolls :: "roll list"
  rs_loots :: "nat \<Rightarrow> loot option"
  rs_dice :: "nat \<Rightarrow> u8"
  rs_thrown :: nat
  rs_nextItem :: u32
  rs_out :: "loot_event list"

datatype loot_error = BadLootSlot | DanglingLoot | NoTemplate

definition rs_emit :: "loot_event list \<Rightarrow> roll_state \<Rightarrow> roll_state" where
  "rs_emit es s = s\<lparr>rs_out := rs_out s @ es\<rparr>"

definition put_roll :: "nat \<Rightarrow> roll \<Rightarrow> roll_state \<Rightarrow> roll_state" where
  "put_roll i r s = s\<lparr>rs_rolls := (rs_rolls s)[i := r]\<rparr>"

definition list_erase :: "nat \<Rightarrow> 'a list \<Rightarrow> 'a list" where
  "list_erase i xs = take i xs @ drop (Suc i) xs"

section \<open>Packets\<close>

definition roll_receivers :: "loot_env \<Rightarrow> roll \<Rightarrow> u64 list" where
  "roll_receivers e r = map fst (filter (\<lambda>(g, v). le_player e g \<and> le_session e g \<and> v \<noteq> NOT_VALID) (r_playerVote r))"

definition StartRollPacket :: "u32 \<Rightarrow> u32 \<Rightarrow> u8 \<Rightarrow> roll \<Rightarrow> packet" where
  "StartRollPacket CountDown mapid vmask r = \<lparr>pk_opcode = SMSG_LOOT_START_ROLL,
     pk_fields = [F64 (r_itemGUID r), F32 mapid, F32 (ucast (r_itemSlot r)), F32 (r_itemid r),
       F32 (r_itemRandomSuffix r), F32 (r_itemRandomPropId r), F32 (ucast (r_itemCount r)), F32 CountDown,
       F8 vmask]\<rparr>"

definition SendLootStartRoll :: "loot_env \<Rightarrow> u32 \<Rightarrow> u32 \<Rightarrow> roll \<Rightarrow> roll_state \<Rightarrow> roll_state" where
  "SendLootStartRoll e CountDown mapid r =
     rs_emit (map (\<lambda>(g, v). SendTo g (StartRollPacket CountDown mapid (r_rollVoteMask r) r))
       (filter (\<lambda>(g, v). le_player e g \<and> le_session e g \<and> v = NOT_EMITED_YET) (r_playerVote r)))"

definition SendLootStartRollToPlayer ::
    "loot_env \<Rightarrow> u32 \<Rightarrow> u32 \<Rightarrow> u64 \<Rightarrow> bool \<Rightarrow> roll \<Rightarrow> roll_state \<Rightarrow> roll_state" where
  "SendLootStartRollToPlayer e countDown mapId p canNeed r =
     (if \<not> le_player e p \<or> \<not> le_session e p then (\<lambda>s. s)
      else rs_emit [SendTo p (StartRollPacket countDown mapId
        (if canNeed then r_rollVoteMask r else r_rollVoteMask r AND NOT ROLL_FLAG_TYPE_NEED) r)])"

definition LootRollPacket :: "u64 \<Rightarrow> u64 \<Rightarrow> u8 \<Rightarrow> u8 \<Rightarrow> roll \<Rightarrow> packet" where
  "LootRollPacket sourceGuid targetGuid rollNumber rollType r = \<lparr>pk_opcode = SMSG_LOOT_ROLL,
     pk_fields = [F64 sourceGuid, F32 (ucast (r_itemSlot r)), F64 targetGuid, F32 (r_itemid r),
       F32 (r_itemRandomSuffix r), F32 (r_itemRandomPropId r), F8 rollNumber, F8 rollType, F8 0]\<rparr>"

definition SendLootRoll ::
    "loot_env \<Rightarrow> u64 \<Rightarrow> u64 \<Rightarrow> u8 \<Rightarrow> u8 \<Rightarrow> roll \<Rightarrow> roll_state \<Rightarrow> roll_state" where
  "SendLootRoll e src tgt num typ r =
     rs_emit (map (\<lambda>g. SendTo g (LootRollPacket src tgt num typ r)) (roll_receivers e r))"

definition LootRollWonPacket :: "u64 \<Rightarrow> u64 \<Rightarrow> u8 \<Rightarrow> u8 \<Rightarrow> roll \<Rightarrow> packet" where
  "LootRollWonPacket sourceGuid targetGuid rollNumber rollType r = \<lparr>pk_opcode = SMSG_LOOT_ROLL_WON,
     pk_fields = [F64 sourceGuid, F32 (ucast (r_itemSlot r)), F32 (r_itemid r),
       F32 (r_itemRandomSuffix r), F32 (r_itemRandomPropId r), F64 targetGuid, F8 rollNumber, F8 rollType]\<rparr>"

definition SendLootRollWon ::
    "loot_env \<Rightarrow> u64 \<Rightarrow> u64 \<Rightarrow> u8 \<Rightarrow> u8 \<Rightarrow> roll \<Rightarrow> roll_state \<Rightarrow> roll_state" where
  "SendLootRollWon e src tgt num typ r =
     rs_emit (map (\<lambda>g. SendTo g (LootRollWonPacket src tgt num typ r)) (roll_receivers e r))"

definition LootAllPassedPacket :: "roll \<Rightarrow> packet" where
  "LootAllPassedPacket r = \<lparr>pk_opcode = SMSG_LOOT_ALL_PASSED,
     pk_fields = [F64 (r_itemGUID r), F32 (ucast (r_itemSlot r)), F32 (r_itemid r),
       F32 (r_itemRandomPropId r), F32 (r_itemRandomSuffix r)]\<rparr>"

definition SendLootAllPassed :: "loot_env \<Rightarrow> roll \<Rightarrow> roll_state \<Rightarrow> roll_state" where
  "SendLootAllPassed e r =
     rs_emit (map (\<lambda>g. SendTo g (LootAllPassedPacket r)) (roll_receivers e r))"

section \<open>Giving the item away\<close>

text \<open>\<open>roll->itemSlot\<close> counts the loot's items first and its quest items after them.\<close>

definition roll_item :: "loot \<Rightarrow> u8 \<Rightarrow> loot_error + loot_item" where
  "roll_item lt slot =
     (let k = unat slot; n = length (lt_items lt) in
      if k \<ge> n then (if k - n < length (lt_quest_items lt) then Inr (lt_quest_items lt ! (k - n)) else Inl BadLootSlot)
      else Inr (lt_items lt ! k))"

definition upd_roll_item :: "u8 \<Rightarrow> (loot_item \<Rightarrow> loot_item) \<Rightarrow> loot \<Rightarrow> loot" where
  "upd_roll_item slot f lt =
     (let k = unat slot; n = length (lt_items lt) in
      if k \<ge> n then lt\<lparr>lt_quest_items := (lt_quest_items lt)[k - n := f (lt_quest_items lt ! (k - n))]\<rparr>
      else lt\<lparr>lt_items := (lt_items lt)[k := f (lt_items lt ! k)]\<rparr>)"

text \<open>\<open>Loot::NotifyItemRemoved\<close>: players that are gone are dropped from the set of looters.\<close>

definition NotifyItemRemoved :: "loot_env \<Rightarrow> u8 \<Rightarrow> loot \<Rightarrow> loot_event list \<times> loot" where
  "NotifyItemRemoved e lootIndex lt =
     (let here = filter (\<lambda>(g, u). le_player e g) (lt_PlayersLooting lt) in
      (map (\<lambda>(g, u). LootItemRemoved g lootIndex) here, lt\<lparr>lt_PlayersLooting := here\<rparr>))"

text \<open>The three statements that take the rolled item out of the loot.\<close>

definition take_item :: "loot_env \<Rightarrow> u8 \<Rightarrow> loot \<Rightarrow> loot_event list \<times> loot" where
  "take_item e slot lt =
     (let lt1 = upd_roll_item slot (\<lambda>i. i\<lparr>li_is_looted := True\<rparr>) lt;
          (es, lt2) = NotifyItemRemoved e slot lt1
      in (es, lt2\<lparr>lt_unlootedCount := lt_unlootedCount lt2 - 1\<rparr>))"

definition set_loot :: "nat \<Rightarrow> loot \<Rightarrow> roll_state \<Rightarrow> roll_state" where
  "set_loot a lt s = s\<lparr>rs_loots := (rs_loots s)(a := Some lt)\<rparr>"

definition unblock :: "u8 \<Rightarrow> loot \<Rightarrow> loot" where
  "unblock slot = upd_roll_item slot (\<lambda>i. i\<lparr>li_is_blocked := False\<rparr>)"

text \<open>The winner stores the item, or cannot.\<close>

definition store_rolled :: "loot_env \<Rightarrow> u64 \<Rightarrow> roll \<Rightarrow> nat \<Rightarrow> loot \<Rightarrow> loot_item \<Rightarrow> roll_state \<Rightarrow> roll_state" where
  "store_rolled e p r a lt item s =
     (let msg = le_can_store e p (r_itemid r) (li_count item) in
      if msg = 0 then
        (let (es, lt') = take_item e (r_itemSlot r) lt in
         rs_emit (es @ [StoreNewItem p item]) (set_loot a lt' s))
      else rs_emit [SendEquipError p msg (r_itemid r)] (set_loot a (unblock (r_itemSlot r) lt) s))"

definition loot_of :: "roll \<Rightarrow> roll_state \<Rightarrow> loot_error + nat \<times> loot" where
  "loot_of r s = (case r_loot r of None \<Rightarrow> Inl DanglingLoot
     | Some a \<Rightarrow> (case rs_loots s a of None \<Rightarrow> Inl DanglingLoot | Some lt \<Rightarrow> Inr (a, lt)))"

section \<open>Ending a roll\<close>

definition urand100 :: "roll_state \<Rightarrow> u8 \<times> roll_state" where
  "urand100 s = (rs_dice s (rs_thrown s), s\<lparr>rs_thrown := Suc (rs_thrown s)\<rparr>)"

text \<open>
  The loop over the votes: every player whose vote counts throws a die, and the first highest
  one is the best. \<open>(maxresul, maxguid, rollvote)\<close> are the loop's variables.
\<close>

fun throw_dice :: "loot_env \<Rightarrow> roll \<Rightarrow> (RollVote \<Rightarrow> bool) \<Rightarrow> (u64 \<times> RollVote) list \<Rightarrow> u8 \<times> u64 \<times> RollVote \<Rightarrow>
    roll_state \<Rightarrow> (u8 \<times> u64 \<times> RollVote) \<times> roll_state" where
  "throw_dice e r P [] best s = (best, s)"
| "throw_dice e r P ((g, v) # vs) best s =
     (if \<not> P v then throw_dice e r P vs best s
      else
        (let (n, s1) = urand100 s;
             s2 = SendLootRoll e 0 g n (vote_code v) r s1
         in throw_dice e r P vs (if fst best < n then (n, g, v) else best) s2))"

definition need_branch :: "loot_env \<Rightarrow> roll \<Rightarrow> roll_state \<Rightarrow> loot_error + roll_state" where
  "need_branch e r s = (case r_playerVote r of [] \<Rightarrow> Inr s | (g0, v0) # _ \<Rightarrow>
     (let ((maxresul, maxguid, v), s1) = throw_dice e r (\<lambda>v. v = NEED) (r_playerVote r) (0, g0, NOT_VALID) s;
          s2 = SendLootRollWon e 0 maxguid maxresul ROLL_NEED r s1
      in if le_player e maxguid \<and> le_session e maxguid then
           (let s3 = rs_emit [AchievementNeed maxguid (r_itemid r) maxresul] s2 in
            sbind (loot_of r s3) (\<lambda>(a, lt). sbind (roll_item lt (r_itemSlot r)) (\<lambda>item.
              Inr (store_rolled e maxguid r a lt item s3))))
         else Inr s2))"

definition greed_branch :: "loot_env \<Rightarrow> roll \<Rightarrow> roll_state \<Rightarrow> loot_error + roll_state" where
  "greed_branch e r s = (case r_playerVote r of [] \<Rightarrow> Inr s | (g0, v0) # _ \<Rightarrow>
     (let ((maxresul, maxguid, rollvote), s1) =
            throw_dice e r (\<lambda>v. v = GREED \<or> v = DISENCHANT) (r_playerVote r) (0, g0, NOT_VALID) s;
          s2 = SendLootRollWon e 0 maxguid maxresul (vote_code rollvote) r s1
      in if le_player e maxguid \<and> le_session e maxguid then
           (let s3 = rs_emit [AchievementGreed maxguid (r_itemid r) maxresul] s2 in
            sbind (loot_of r s3) (\<lambda>(a, lt). sbind (roll_item lt (r_itemSlot r)) (\<lambda>item.
              if rollvote = GREED then Inr (store_rolled e maxguid r a lt item s3)
              else if rollvote = DISENCHANT then
                (let (es, lt') = take_item e (r_itemSlot r) lt in
                 case le_proto e (r_itemid r) of None \<Rightarrow> Inl NoTemplate
                 | Some p \<Rightarrow> Inr (rs_emit (es @ [AutoStoreDisenchant maxguid (ip_DisenchantID p), AchievementCastSpell maxguid 13262])
                     (set_loot a lt' s3)))
              else Inr s3)))
         else Inr s2))"

definition pass_branch :: "loot_env \<Rightarrow> roll \<Rightarrow> roll_state \<Rightarrow> loot_error + roll_state" where
  "pass_branch e r s =
     (let s1 = SendLootAllPassed e r s in
      sbind (loot_of r s1) (\<lambda>(a, lt). sbind (roll_item lt (r_itemSlot r)) (\<lambda>item.
        Inr (set_loot a (unblock (r_itemSlot r) lt) s1))))"

definition erase_roll :: "nat \<Rightarrow> roll_state \<Rightarrow> roll_state" where
  "erase_roll i s = s\<lparr>rs_rolls := list_erase i (rs_rolls s)\<rparr>"

definition CountTheRoll :: "loot_env \<Rightarrow> nat \<Rightarrow> roll_state \<Rightarrow> loot_error + roll_state" where
  "CountTheRoll e i s =
     (let r = rs_rolls s ! i in
      if \<not> roll_isValid r then Inr (erase_roll i s)
      else sbind (if r_totalNeed r > 0 then need_branch e r s
                  else if r_totalGreed r > 0 then greed_branch e r s
                  else pass_branch e r s)
             (\<lambda>s. Inr (erase_roll i s)))"

section \<open>Votes\<close>

fun find_roll :: "u64 \<Rightarrow> roll list \<Rightarrow> nat \<Rightarrow> nat option" where
  "find_roll g [] k = None"
| "find_roll g (r # rs) k = (if r_itemGUID r = g \<and> roll_isValid r then Some k else find_roll g rs (Suc k))"

definition GetRoll :: "u64 \<Rightarrow> roll_state \<Rightarrow> nat option" where
  "GetRoll g s = find_roll g (rs_rolls s) 0"

definition votes_cast :: "roll \<Rightarrow> nat" where
  "votes_cast r = unat (r_totalPass r) + unat (r_totalNeed r) + unat (r_totalGreed r)"

text \<open>The \<open>switch\<close> of \<open>CountRollVote\<close>.\<close>

definition cast_vote :: "loot_env \<Rightarrow> u64 \<Rightarrow> u8 \<Rightarrow> nat \<Rightarrow> roll \<Rightarrow> roll_state \<Rightarrow> roll_state" where
  "cast_vote e p choice i r s =
     (let vote = (\<lambda>v r. r\<lparr>r_playerVote := sm_put p v (r_playerVote r)\<rparr>) in
      if choice = ROLL_PASS then
        put_roll i (vote PASS (r\<lparr>r_totalPass := r_totalPass r + 1\<rparr>)) (SendLootRoll e 0 p 128 ROLL_PASS r s)
      else if choice = ROLL_NEED then
        put_roll i (vote NEED (r\<lparr>r_totalNeed := r_totalNeed r + 1\<rparr>)) (SendLootRoll e 0 p 0 0 r s)
      else if choice = ROLL_GREED then
        put_roll i (vote GREED (r\<lparr>r_totalGreed := r_totalGreed r + 1\<rparr>)) (SendLootRoll e 0 p 128 ROLL_GREED r s)
      else if choice = ROLL_DISENCHANT then
        put_roll i (vote DISENCHANT (r\<lparr>r_totalGreed := r_totalGreed r + 1\<rparr>)) (SendLootRoll e 0 p 128 ROLL_DISENCHANT r s)
      else s)"

definition CountRollVote :: "loot_env \<Rightarrow> u64 \<Rightarrow> u64 \<Rightarrow> u8 \<Rightarrow> roll_state \<Rightarrow> loot_error + roll_state" where
  "CountRollVote e playerGUID Guid choice s =
     (case GetRoll Guid s of None \<Rightarrow> Inr s | Some i \<Rightarrow>
       (let r = rs_rolls s ! i in
        case sm_find (r_playerVote r) playerGUID of None \<Rightarrow> Inr s | Some v \<Rightarrow>
          sbind (loot_of r s) (\<lambda>(a, lt).
            if lt_items lt = [] then Inr s
            else
              (let s1 = cast_vote e playerGUID choice i r s; r1 = rs_rolls s1 ! i in
               if votes_cast r1 \<ge> unat (r_totalPlayersRolling r1) then CountTheRoll e i s1 else Inr s1))))"

text \<open>\<open>WorldSession::HandleLootRoll\<close>: \<open>grouped\<close> is whether the player has a group.\<close>

definition HandleLootRoll :: "loot_env \<Rightarrow> bool \<Rightarrow> u64 \<Rightarrow> u64 \<Rightarrow> u8 \<Rightarrow> roll_state \<Rightarrow> loot_error + roll_state" where
  "HandleLootRoll e grouped p guid rollType s =
     (if \<not> grouped then Inr s
      else sbind (CountRollVote e p guid rollType s) (\<lambda>s1.
        Inr (if rollType = ROLL_NEED then rs_emit [AchievementRollNeed p] s1
             else if rollType = ROLL_GREED then rs_emit [AchievementRollGreed p] s1
             else s1)))"

text \<open>The timer of the looted object: every roll of the loot ends.\<close>

fun end_roll_loop :: "nat \<Rightarrow> loot_env \<Rightarrow> nat \<Rightarrow> nat \<Rightarrow> roll_state \<Rightarrow> (loot_error + roll_state) option" where
  "end_roll_loop n e a i s =
     (if i < length (rs_rolls s) then
        (case n of 0 \<Rightarrow> None | Suc n' \<Rightarrow>
          if r_loot (rs_rolls s ! i) = Some a
          then (case CountTheRoll e i s of Inl err \<Rightarrow> Some (Inl err) | Inr s' \<Rightarrow> end_roll_loop n' e a 0 s')
          else end_roll_loop n' e a (Suc i) s)
      else Some (Inr s))"

declare end_roll_loop.simps [simp del]

definition EndRoll :: "nat \<Rightarrow> loot_env \<Rightarrow> nat \<Rightarrow> roll_state \<Rightarrow> (loot_error + roll_state) option" where
  "EndRoll n e a s = end_roll_loop n e a 0 s"

text \<open>The loop of \<open>RemoveMember\<close> over the rolls: the vote of a player who leaves is withdrawn.\<close>

definition withdraw :: "u64 \<Rightarrow> RollVote \<Rightarrow> roll \<Rightarrow> roll" where
  "withdraw guid v r =
     (let r1 = (if v = GREED \<or> v = DISENCHANT then r\<lparr>r_totalGreed := r_totalGreed r - 1\<rparr>
                else if v = NEED then r\<lparr>r_totalNeed := r_totalNeed r - 1\<rparr>
                else if v = PASS then r\<lparr>r_totalPass := r_totalPass r - 1\<rparr> else r);
          r2 = (if v \<noteq> NOT_VALID then r1\<lparr>r_totalPlayersRolling := r_totalPlayersRolling r1 - 1\<rparr> else r1)
      in r2\<lparr>r_playerVote := sm_erase guid (r_playerVote r2)\<rparr>)"

function leave_rolls :: "loot_env \<Rightarrow> u64 \<Rightarrow> nat \<Rightarrow> nat \<Rightarrow> roll_state \<Rightarrow> loot_error + roll_state" where
  "leave_rolls e guid 0 i s = Inr s"
| "leave_rolls e guid (Suc k) i s =
     (if i < length (rs_rolls s) then
        (let r = rs_rolls s ! i in
         case sm_find (r_playerVote r) guid of
           None \<Rightarrow> leave_rolls e guid k (Suc i) s
         | Some v \<Rightarrow>
             sbind (CountRollVote e guid (r_itemGUID r) MAX_ROLL_TYPE (put_roll i (withdraw guid v r) s))
               (leave_rolls e guid k (Suc i)))
      else Inr s)"
  by pat_completeness auto
termination by (relation "measure (\<lambda>(e, g, k, i, s). k)") auto

section \<open>Starting the rolls of a looted object\<close>

text \<open>The players near the object that may have the item; some pass on all rolls.\<close>

fun collect_voters :: "loot_env \<Rightarrow> bool \<Rightarrow> loot_item \<Rightarrow> u64 list \<Rightarrow> roll \<Rightarrow> roll" where
  "collect_voters e autopass li [] r = r"
| "collect_voters e autopass li (m # ms) r =
     (if le_session e m \<and> le_allowed e li m \<and> le_near e m then
        (let r1 = r\<lparr>r_totalPlayersRolling := r_totalPlayersRolling r + 1\<rparr>;
             r2 = (if autopass \<and> le_pass e m
                   then r1\<lparr>r_playerVote := sm_put m PASS (r_playerVote r1), r_totalPass := r_totalPass r1 + 1\<rparr>
                   else r1\<lparr>r_playerVote := sm_put m NOT_EMITED_YET (r_playerVote r1)\<rparr>)
         in collect_voters e autopass li ms r2)
      else collect_voters e autopass li ms r)"

definition fresh_item_guid :: "roll_state \<Rightarrow> u64 \<times> roll_state" where
  "fresh_item_guid s =
     (MAKE_NEW_GUID (rs_nextItem s) 0 HIGHGUID_ITEM, s\<lparr>rs_nextItem := rs_nextItem s + 1\<rparr>)"

definition upd_loot :: "nat \<Rightarrow> (loot \<Rightarrow> loot) \<Rightarrow> roll_state \<Rightarrow> roll_state" where
  "upd_loot a f s = (case rs_loots s a of None \<Rightarrow> s | Some lt \<Rightarrow> set_loot a (f lt) s)"

definition block_slot :: "u8 \<Rightarrow> loot \<Rightarrow> loot" where
  "block_slot slot = upd_roll_item slot (\<lambda>i. i\<lparr>li_is_blocked := True\<rparr>)"

definition push_roll :: "roll \<Rightarrow> roll_state \<Rightarrow> roll_state" where
  "push_roll r s = rs_emit [LootTimerStarted] (s\<lparr>rs_rolls := rs_rolls s @ [r]\<rparr>)"

text \<open>\<open>for (votes) if (vote == PASS) SendLootRoll(newitemGUID, p, 128, ROLL_PASS, *r)\<close>\<close>

fun broadcast_passes :: "loot_env \<Rightarrow> roll \<Rightarrow> (u64 \<times> RollVote) list \<Rightarrow> roll_state \<Rightarrow> roll_state" where
  "broadcast_passes e r [] s = s"
| "broadcast_passes e r ((g, v) # vs) s =
     broadcast_passes e r vs
       (if le_player e g \<and> le_session e g \<and> v = PASS then SendLootRoll e (r_itemGUID r) g 128 ROLL_PASS r s else s)"

fun broadcast_starts :: "loot_env \<Rightarrow> roll \<Rightarrow> (u64 \<times> RollVote) list \<Rightarrow> roll_state \<Rightarrow> roll_state" where
  "broadcast_starts e r [] s = s"
| "broadcast_starts e r ((g, v) # vs) s =
     broadcast_starts e r vs
       (if le_player e g \<and> le_session e g then
          if v = PASS then SendLootRoll e (r_itemGUID r) g 128 ROLL_PASS r s
          else SendLootStartRollToPlayer e 60000 (le_map e) g (le_can_roll e g (r_itemid r)) r s
        else s)"

definition allow_disenchant :: "u32 \<Rightarrow> item_proto \<Rightarrow> roll \<Rightarrow> roll" where
  "allow_disenchant maxEnch p r =
     (if ip_DisenchantID p \<noteq> 0 \<and> maxEnch \<ge> ip_RequiredDisenchantSkill p
      then r\<lparr>r_rollVoteMask := r_rollVoteMask r OR ROLL_FLAG_TYPE_DISENCHANT\<rparr> else r)"

definition forbid_need :: "item_proto \<Rightarrow> roll \<Rightarrow> roll" where
  "forbid_need p r =
     (if has_flag (ip_Flags2 p) ITEM_FLAGS_EXTRA_NEED_ROLL_DISABLED
      then r\<lparr>r_rollVoteMask := r_rollVoteMask r AND NOT ROLL_FLAG_TYPE_NEED\<rparr> else r)"

text \<open>One item of \<open>GroupLoot\<close>: \<open>th\<close> is the loot threshold, \<open>me\<close> the best enchanter's level.\<close>

definition group_item :: "loot_env \<Rightarrow> u32 \<Rightarrow> u32 \<Rightarrow> u64 list \<Rightarrow> nat \<Rightarrow> u8 \<Rightarrow> loot_item \<Rightarrow> roll_state \<Rightarrow> roll_state" where
  "group_item e th me members a slot li s =
     (if li_freeforall li then s
      else case le_proto e (li_itemid li) of None \<Rightarrow> s | Some p \<Rightarrow>
        if ip_Quality p \<ge> th then
          (let (g, s1) = fresh_item_guid s;
               r = collect_voters e True li members (new_roll g li)
           in if r_totalPlayersRolling r > 0 then
                (let r1 = allow_disenchant me p (r\<lparr>r_loot := Some a, r_itemSlot := slot\<rparr>);
                     s2 = upd_loot a (block_slot slot) s1;
                     s3 = (if r_totalPass r1 > 0 then broadcast_passes e r1 (r_playerVote r1) s2 else s2)
                 in push_roll r1 (SendLootStartRoll e 60000 (le_map e) r1 s3))
              else s1)
        else upd_loot a (upd_roll_item slot (\<lambda>i. i\<lparr>li_is_underthreshold := True\<rparr>)) s)"

definition group_quest_item :: "loot_env \<Rightarrow> u64 list \<Rightarrow> nat \<Rightarrow> u8 \<Rightarrow> loot_item \<Rightarrow> roll_state \<Rightarrow> roll_state" where
  "group_quest_item e members a slot li s =
     (if \<not> li_follow_loot_rules li then s
      else case le_proto e (li_itemid li) of None \<Rightarrow> s | Some p \<Rightarrow>
        (let (g, s1) = fresh_item_guid s;
             r = collect_voters e False li members (new_roll g li)
         in if r_totalPlayersRolling r > 0 then
              (let r1 = r\<lparr>r_loot := Some a, r_itemSlot := slot\<rparr>
               in push_roll r1 (SendLootStartRoll e 60000 (le_map e) r1 (upd_loot a (block_slot slot) s1)))
            else s1))"

definition need_item ::
    "loot_env \<Rightarrow> u32 \<Rightarrow> u32 \<Rightarrow> u64 list \<Rightarrow> nat \<Rightarrow> u8 \<Rightarrow> loot_item \<Rightarrow> roll_state \<Rightarrow> loot_error + roll_state" where
  "need_item e th me members a slot li s =
     (if li_freeforall li then Inr s
      else case le_proto e (li_itemid li) of None \<Rightarrow> Inl NoTemplate | Some p \<Rightarrow>
        if ip_Quality p \<ge> th then
          (let (g, s1) = fresh_item_guid s;
               r = collect_voters e True li members (new_roll g li)
           in if r_totalPlayersRolling r > 0 then
                (let r1 = forbid_need p (allow_disenchant me p (r\<lparr>r_loot := Some a, r_itemSlot := slot\<rparr>))
                 in Inr (push_roll r1 (broadcast_starts e r1 (r_playerVote r1) (upd_loot a (block_slot slot) s1))))
              else Inr s1)
        else Inr (upd_loot a (upd_roll_item slot (\<lambda>i. i\<lparr>li_is_underthreshold := True\<rparr>)) s))"

definition need_quest_item :: "loot_env \<Rightarrow> u64 list \<Rightarrow> nat \<Rightarrow> u8 \<Rightarrow> loot_item \<Rightarrow> roll_state \<Rightarrow> roll_state" where
  "need_quest_item e members a slot li s =
     (if \<not> li_follow_loot_rules li then s
      else
        (let (g, s1) = fresh_item_guid s;
             r = collect_voters e False li members (new_roll g li)
         in if r_totalPlayersRolling r > 0 then
              (let r1 = r\<lparr>r_loot := Some a, r_itemSlot := slot\<rparr>
               in push_roll r1 (broadcast_starts e r1 (r_playerVote r1) (upd_loot a (block_slot slot) s1)))
            else s1))"

fun each_item :: "(u8 \<Rightarrow> loot_item \<Rightarrow> roll_state \<Rightarrow> loot_error + roll_state) \<Rightarrow> u8 \<Rightarrow> loot_item list \<Rightarrow> roll_state \<Rightarrow>
    loot_error + roll_state" where
  "each_item f slot [] s = Inr s"
| "each_item f slot (li # lis) s = sbind (f slot li s) (each_item f (slot + 1) lis)"

definition GroupLoot :: "loot_env \<Rightarrow> u32 \<Rightarrow> u32 \<Rightarrow> u64 list \<Rightarrow> nat \<Rightarrow> roll_state \<Rightarrow> loot_error + roll_state" where
  "GroupLoot e th me members a s = (case rs_loots s a of None \<Rightarrow> Inl DanglingLoot | Some lt \<Rightarrow>
     sbind (each_item (\<lambda>k li s. Inr (group_item e th me members a k li s)) 0 (lt_items lt) s)
       (each_item (\<lambda>k li s. Inr (group_quest_item e members a k li s)) (of_nat (length (lt_items lt))) (lt_quest_items lt)))"

definition NeedBeforeGreed :: "loot_env \<Rightarrow> u32 \<Rightarrow> u32 \<Rightarrow> u64 list \<Rightarrow> nat \<Rightarrow> roll_state \<Rightarrow> loot_error + roll_state" where
  "NeedBeforeGreed e th me members a s = (case rs_loots s a of None \<Rightarrow> Inl DanglingLoot | Some lt \<Rightarrow>
     sbind (each_item (need_item e th me members a) 0 (lt_items lt) s)
       (each_item (\<lambda>k li s. Inr (need_quest_item e members a k li s)) (of_nat (length (lt_items lt))) (lt_quest_items lt)))"

end
