(* ===== verification/Group_Loot_Props.thy ===== *)
theory Group_Loot_Props
  imports Group_Loot
begin

text \<open>
  The properties of the loot rolls: who wins, when a roll ends, and where the votes are not
  counted as they should be.
\<close>

section \<open>The dice\<close>

text \<open>\<open>first_highest d n j\<close>: of the \<open>n\<close> dice \<open>d\<close>, the \<open>j\<close>-th is the first highest.\<close>

definition first_highest :: "(nat \<Rightarrow> u8) \<Rightarrow> nat \<Rightarrow> nat \<Rightarrow> bool" where
  "first_highest d n j \<longleftrightarrow> j < n \<and> (\<forall>k<n. d k \<le> d j) \<and> (\<forall>k<j. d k < d j)"

definition dice_from :: "roll_state \<Rightarrow> nat \<Rightarrow> u8" where
  "dice_from s k = rs_dice s (rs_thrown s + k)"

lemma first_highest_shift:
  assumes "first_highest (\<lambda>k. d (Suc k)) n j" "d 0 < d (Suc j)"
  shows "first_highest d (Suc n) (Suc j)"
  using assms by (auto simp: first_highest_def less_Suc_eq_0_disj)

lemma first_highest_0: "(\<And>k. k < n \<Longrightarrow> d (Suc k) \<le> d 0) \<Longrightarrow> first_highest d (Suc n) 0"
  by (auto simp: first_highest_def less_Suc_eq_0_disj)

text \<open>What a loop over the votes leaves alone.\<close>

definition only_sends :: "roll_state \<Rightarrow> roll_state \<Rightarrow> bool" where
  "only_sends s s' \<longleftrightarrow> rs_rolls s' = rs_rolls s \<and> rs_loots s' = rs_loots s \<and> rs_dice s' = rs_dice s
     \<and> (\<exists>ms. rs_out s' = rs_out s @ map (\<lambda>(g, p). SendTo g p) ms)"

lemma only_sends_refl: "only_sends s s"
  unfolding only_sends_def by (intro conjI refl exI [of _ "[]"]) simp

lemma only_sends_trans: "only_sends s s' \<Longrightarrow> only_sends s' s'' \<Longrightarrow> only_sends s s''"
  unfolding only_sends_def by (metis append.assoc map_append)

lemma only_sends_emit: "only_sends s (rs_emit (map (\<lambda>g. SendTo g p) gs) s)"
  unfolding only_sends_def rs_emit_def
  by (intro conjI exI [of _ "map (\<lambda>g. (g, p)) gs"]) simp_all

lemma only_sends_throw: "only_sends s (s\<lparr>rs_thrown := k\<rparr>)"
  unfolding only_sends_def by (intro conjI exI [of _ "[]"]) simp_all

lemma throw_dice_spec:
  fixes P :: "RollVote \<Rightarrow> bool"
  assumes "throw_dice e r P vs best s = (b, s')"
  defines "ws \<equiv> filter (\<lambda>(g, v). P v) vs"
  shows "only_sends s s'"
    and "b = best \<and> (\<forall>k<length ws. dice_from s k \<le> fst best) \<or>
      (\<exists>j. first_highest (dice_from s) (length ws) j \<and> fst best < dice_from s j \<and> b = (dice_from s j, ws ! j))"
proof -
  have "only_sends s s' \<and> (b = best \<and> (\<forall>k<length ws. dice_from s k \<le> fst best) \<or>
      (\<exists>j. first_highest (dice_from s) (length ws) j \<and> fst best < dice_from s j \<and> b = (dice_from s j, ws ! j)))"
    using assms(1) unfolding ws_def
  proof (induction e r P vs best s rule: throw_dice.induct)
    case (1 e r P best s)
    then show ?case by (simp add: only_sends_refl)
  next
    case (2 e r P g v vs best s)
    show ?case
    proof (cases "P v")
      case False
      with 2 show ?thesis by simp
    next
      case True
      let ?n = "dice_from s 0"
      let ?s2 = "SendLootRoll e 0 g ?n (vote_code v) r (s\<lparr>rs_thrown := Suc (rs_thrown s)\<rparr>)"
      let ?best = "if fst best < ?n then (?n, g, v) else best"
      let ?ws = "filter (\<lambda>(g, v). P v) vs"
      have u: "urand100 s = (?n, s\<lparr>rs_thrown := Suc (rs_thrown s)\<rparr>)"
        by (simp add: urand100_def dice_from_def)
      have step: "throw_dice e r P vs ?best ?s2 = (b, s')"
        using 2(3) True u by (simp add: Let_def)
      have d: "dice_from ?s2 = (\<lambda>k. dice_from s (Suc k))"
        by (simp add: dice_from_def SendLootRoll_def rs_emit_def fun_eq_iff)
      have sends: "only_sends s ?s2"
        unfolding SendLootRoll_def by (rule only_sends_trans [OF only_sends_throw only_sends_emit])
      from 2(2) [OF _ refl u [symmetric] refl step] True
      have ih: "only_sends ?s2 s'"
        "b = ?best \<and> (\<forall>k<length ?ws. dice_from s (Suc k) \<le> fst ?best) \<or>
         (\<exists>j. first_highest (\<lambda>k. dice_from s (Suc k)) (length ?ws) j \<and> fst ?best < dice_from s (Suc j)
            \<and> b = (dice_from s (Suc j), ?ws ! j))"
        by (simp_all add: d)
      have all: "(\<forall>k<Suc n. d k \<le> m) \<longleftrightarrow> d 0 \<le> m \<and> (\<forall>k<n. d (Suc k) \<le> m)" for d :: "nat \<Rightarrow> u8" and n m
        by (auto simp: less_Suc_eq_0_disj)
      have ws: "length (filter (\<lambda>(g, v). P v) ((g, v) # vs)) = Suc (length ?ws)"
        "filter (\<lambda>(g, v). P v) ((g, v) # vs) = (g, v) # ?ws" using True by simp_all
      from ih(2) have "b = best \<and> (\<forall>k<Suc (length ?ws). dice_from s k \<le> fst best) \<or>
        (\<exists>j. first_highest (dice_from s) (Suc (length ?ws)) j \<and> fst best < dice_from s j
           \<and> b = (dice_from s j, ((g, v) # ?ws) ! j))"
      proof (elim disjE exE conjE)
        assume b: "b = ?best" and le: "\<forall>k<length ?ws. dice_from s (Suc k) \<le> fst ?best"
        show ?thesis
        proof (cases "fst best < ?n")
          case True
          with le have "first_highest (dice_from s) (Suc (length ?ws)) 0" by (intro first_highest_0) simp
          with True b show ?thesis by (intro disjI2 exI [of _ 0]) simp
        next
          case False
          with b le show ?thesis by (simp add: all not_less)
        qed
      next
        fix j
        assume j: "first_highest (\<lambda>k. dice_from s (Suc k)) (length ?ws) j" "fst ?best < dice_from s (Suc j)"
          and b: "b = (dice_from s (Suc j), ?ws ! j)"
        have "dice_from s 0 < dice_from s (Suc j)" "fst best < dice_from s (Suc j)"
          using j(2) by (auto split: if_splits)
        with first_highest_shift [OF j(1)] b show ?thesis by (intro disjI2 exI [of _ "Suc j"]) simp
      qed
      then have "b = best \<and> (\<forall>k<length (filter (\<lambda>(g, v). P v) ((g, v) # vs)). dice_from s k \<le> fst best) \<or>
        (\<exists>j. first_highest (dice_from s) (length (filter (\<lambda>(g, v). P v) ((g, v) # vs))) j
           \<and> fst best < dice_from s j \<and> b = (dice_from s j, filter (\<lambda>(g, v). P v) ((g, v) # vs) ! j))"
        by (simp only: ws length_Cons)
      with only_sends_trans [OF sends ih(1)] show ?thesis by blast
    qed
  qed
  then show "only_sends s s'"
    and "b = best \<and> (\<forall>k<length ws. dice_from s k \<le> fst best) \<or>
      (\<exists>j. first_highest (dice_from s) (length ws) j \<and> fst best < dice_from s j \<and> b = (dice_from s j, ws ! j))"
    by auto
qed

section \<open>Who wins a roll\<close>

text \<open>The players who voted \<open>NEED\<close>, in the order of the votes' map.\<close>

definition needers :: "roll \<Rightarrow> u64 list" where
  "needers r = map fst (filter (\<lambda>(g, v). v = NEED) (r_playerVote r))"

text \<open>The player an event gives the item to.\<close>

fun given_to :: "loot_event \<Rightarrow> u64 option" where
  "given_to (StoreNewItem p li) = Some p"
| "given_to (AutoStoreDisenchant p k) = Some p"
| "given_to ev = None"

definition receivers_of :: "loot_event list \<Rightarrow> u64 list" where
  "receivers_of es = List.map_filter given_to es"

lemma receivers_append [simp]: "receivers_of (xs @ ys) = receivers_of xs @ receivers_of ys"
  by (simp add: receivers_of_def map_filter_def)

lemma receivers_Nil [simp]: "receivers_of [] = []"
  by (simp add: receivers_of_def map_filter_def)

lemma receivers_Cons [simp]:
  "receivers_of (ev # es) = (case given_to ev of None \<Rightarrow> receivers_of es | Some p \<Rightarrow> p # receivers_of es)"
  by (simp add: receivers_of_def map_filter_def split: option.split)

lemma receivers_sends [simp]: "receivers_of (map (\<lambda>(g, p). SendTo g p) ms) = []"
  by (induction ms) auto

lemma receivers_sends_same [simp]: "receivers_of (map (\<lambda>g. SendTo g p) gs) = []"
  by (induction gs) auto

lemma receivers_removed [simp]: "receivers_of (map (\<lambda>(g, u). LootItemRemoved g k) ns) = []"
  by (induction ns) auto

definition won_by :: "loot_env \<Rightarrow> roll \<Rightarrow> u64 \<Rightarrow> u8 \<Rightarrow> u8 \<Rightarrow> loot_event list" where
  "won_by e r p n typ = map (\<lambda>g. SendTo g (LootRollWonPacket 0 p n typ r)) (roll_receivers e r)"

text \<open>
  C20: when the loot is there and somebody has voted \<open>NEED\<close>, the roll ends: every player who
  needs the item throws a die, the first highest throw in the order of the map wins and is
  announced to all, and nobody else can receive the item; the winner receives it when online
  and able to store it.
\<close>

theorem need_roll_winner:
  assumes i: "i < length (rs_rolls s)" and r: "r = rs_rolls s ! i"
    and loot: "r_loot r = Some a" "rs_loots s a = Some lt" "roll_item lt (r_itemSlot r) = Inr item"
    and need: "r_totalNeed r > 0" "needers r \<noteq> []" and dice: "\<And>k. rs_dice s k \<noteq> 0"
  shows "\<exists>j s' es. first_highest (dice_from s) (length (needers r)) j \<and> CountTheRoll e i s = Inr s'
    \<and> rs_rolls s' = list_erase i (rs_rolls s) \<and> rs_out s' = rs_out s @ es
    \<and> set (won_by e r (needers r ! j) (dice_from s j) ROLL_NEED) \<subseteq> set es
    \<and> receivers_of es = (if le_player e (needers r ! j) \<and> le_session e (needers r ! j)
         \<and> le_can_store e (needers r ! j) (r_itemid r) (li_count item) = 0 then [needers r ! j] else [])"
proof -
  let ?N = "\<lambda>v. v = NEED" and ?ws = "filter (\<lambda>(g, v). v = NEED) (r_playerVote r)"
  obtain g0 v0 vs where votes: "r_playerVote r = (g0, v0) # vs"
    using need(2) by (cases "r_playerVote r") (auto simp: needers_def)
  obtain m g v s1 where t: "throw_dice e r ?N (r_playerVote r) (0, g0, NOT_VALID) s = ((m, g, v), s1)"
    by (metis prod_cases4 surj_pair)
  have len: "length ?ws = length (needers r)" by (simp add: needers_def)
  note spec = throw_dice_spec [OF t]
  have "\<not> (\<forall>k<length ?ws. dice_from s k \<le> 0)"
    using need(2) dice len by (auto simp: dice_from_def)
  with spec(2) obtain j where j: "first_highest (dice_from s) (length ?ws) j" "m = dice_from s j"
      "(g, v) = ?ws ! j"
    by auto
  have g: "g = needers r ! j" using j by (simp add: needers_def first_highest_def flip: j(3))
  let ?s2 = "rs_emit (won_by e r g m ROLL_NEED) s1"
  let ?s3 = "rs_emit [AchievementNeed g (r_itemid r) m] ?s2"
  obtain ms where s1: "rs_rolls s1 = rs_rolls s" "rs_loots s1 = rs_loots s"
      "rs_out s1 = rs_out s @ map (\<lambda>(g, p). SendTo g p) ms"
    using spec(1) by (auto simp: only_sends_def)
  have lo: "loot_of r ?s3 = Inr (a, lt)" using loot s1 by (simp add: loot_of_def rs_emit_def)
  have nb: "need_branch e r s = Inr (if le_player e g \<and> le_session e g
      then store_rolled e g r a lt item ?s3 else ?s2)"
    using t lo loot(3) votes by (simp add: need_branch_def Let_def SendLootRollWon_def won_by_def)
  have ctr: "CountTheRoll e i s = Inr (erase_roll i (if le_player e g \<and> le_session e g
      then store_rolled e g r a lt item ?s3 else ?s2))"
    using need(1) nb loot(1) by (simp add: CountTheRoll_def roll_isValid_def flip: r)
  have out: "\<exists>es. rs_out (store_rolled e g r a lt item ?s3) = rs_out s @ es \<and>
      set (won_by e r g m ROLL_NEED) \<subseteq> set es \<and>
      receivers_of es = (if le_can_store e g (r_itemid r) (li_count item) = 0 then [g] else [])"
    by (auto simp: store_rolled_def Let_def rs_emit_def set_loot_def take_item_def NotifyItemRemoved_def s1
        won_by_def)
  have rolls: "rs_rolls (store_rolled e g r a lt item ?s3) = rs_rolls s" "rs_rolls ?s2 = rs_rolls s"
    by (simp_all add: store_rolled_def Let_def rs_emit_def set_loot_def take_item_def NotifyItemRemoved_def s1)
  have out2: "rs_out ?s2 = rs_out s @ (map (\<lambda>(g, p). SendTo g p) ms @ won_by e r g m ROLL_NEED)"
    by (simp add: rs_emit_def s1)
  have "\<exists>s' es. CountTheRoll e i s = Inr s'
    \<and> rs_rolls s' = list_erase i (rs_rolls s) \<and> rs_out s' = rs_out s @ es
    \<and> set (won_by e r g m ROLL_NEED) \<subseteq> set es
    \<and> receivers_of es = (if le_player e g \<and> le_session e g
         \<and> le_can_store e g (r_itemid r) (li_count item) = 0 then [g] else [])"
  proof (cases "le_player e g \<and> le_session e g")
    case True
    with out obtain es where "rs_out (store_rolled e g r a lt item ?s3) = rs_out s @ es"
      "set (won_by e r g m ROLL_NEED) \<subseteq> set es"
      "receivers_of es = (if le_can_store e g (r_itemid r) (li_count item) = 0 then [g] else [])" by blast
    with True ctr rolls show ?thesis
      by (intro exI [of _ "erase_roll i (store_rolled e g r a lt item ?s3)"] exI [of _ es])
        (simp add: erase_roll_def)
  next
    case False
    with ctr rolls out2 show ?thesis
      by (intro exI [of _ "erase_roll i ?s2"]
          exI [of _ "map (\<lambda>(g, p). SendTo g p) ms @ won_by e r g m ROLL_NEED"])
        (auto simp: erase_roll_def won_by_def)
  qed
  then show ?thesis unfolding g j(2) using j(1) unfolding len by blast
qed


section \<open>The rolls a step leaves\<close>

lemma rolls_frame [simp]:
  "rs_rolls (rs_emit es s) = rs_rolls s"
  "rs_rolls (set_loot a lt s) = rs_rolls s"
  "rs_rolls (SendLootRoll e g p n t r s) = rs_rolls s"
  "rs_rolls (SendLootRollWon e g p n t r s) = rs_rolls s"
  "rs_rolls (SendLootAllPassed e r s) = rs_rolls s"
  "rs_rolls (SendLootStartRoll e c k r s) = rs_rolls s"
  "rs_rolls (SendLootStartRollToPlayer e c k p b r s) = rs_rolls s"
  "rs_rolls (put_roll i r s) = (rs_rolls s)[i := r]"
  "rs_rolls (upd_loot a f s) = rs_rolls s"
  by (simp_all add: rs_emit_def set_loot_def SendLootRoll_def SendLootRollWon_def SendLootAllPassed_def
      SendLootStartRoll_def SendLootStartRollToPlayer_def put_roll_def upd_loot_def split: option.split)

lemma store_rolled_rolls [simp]: "rs_rolls (store_rolled e p r a lt item s) = rs_rolls s"
  by (simp add: store_rolled_def Let_def split: prod.split)

lemma throw_dice_rolls: "throw_dice e r P vs best s = (b, s') \<Longrightarrow> rs_rolls s' = rs_rolls s"
  using throw_dice_spec(1) by (auto simp: only_sends_def)

declare throw_dice.simps [simp del]

lemma need_branch_rolls: "need_branch e r s = Inr s' \<Longrightarrow> rs_rolls s' = rs_rolls s"
  by (auto simp: need_branch_def sbind_Inr Let_def throw_dice_rolls
      split: list.splits prod.splits if_splits)

lemma greed_branch_rolls: "greed_branch e r s = Inr s' \<Longrightarrow> rs_rolls s' = rs_rolls s"
  by (auto simp: greed_branch_def sbind_Inr Let_def throw_dice_rolls
      split: list.splits prod.splits if_splits option.splits)

lemma pass_branch_rolls: "pass_branch e r s = Inr s' \<Longrightarrow> rs_rolls s' = rs_rolls s"
  by (auto simp: pass_branch_def sbind_Inr Let_def split: prod.splits)

lemma CountTheRoll_rolls: "CountTheRoll e i s = Inr s' \<Longrightarrow> rs_rolls s' = list_erase i (rs_rolls s)"
  by (auto simp: CountTheRoll_def Let_def erase_roll_def sbind_Inr
      dest: need_branch_rolls greed_branch_rolls pass_branch_rolls split: if_splits)

lemma set_list_erase: "set (list_erase i xs) \<subseteq> set xs"
  by (auto simp: list_erase_def dest: in_set_takeD in_set_dropD)

section \<open>The counters of a roll\<close>

definition votes_for :: "(RollVote \<Rightarrow> bool) \<Rightarrow> roll \<Rightarrow> nat" where
  "votes_for P r = length (filter (\<lambda>(g, v). P v) (r_playerVote r))"

definition roll_ok :: "roll \<Rightarrow> bool" where
  "roll_ok r \<longleftrightarrow> sm_wf (r_playerVote r)
     \<and> unat (r_totalNeed r) = votes_for (\<lambda>v. v = NEED) r
     \<and> unat (r_totalGreed r) = votes_for (\<lambda>v. v = GREED \<or> v = DISENCHANT) r
     \<and> unat (r_totalPass r) = votes_for (\<lambda>v. v = PASS) r
     \<and> unat (r_totalPlayersRolling r) = votes_for (\<lambda>v. v \<noteq> NOT_VALID) r"

text \<open>
  What survives even a player's second vote: every player of the map rolls, and is counted once.
  \<open>tw\<close> is the set of the items on whose rolls a player has voted twice.
\<close>

definition roll_players :: "roll \<Rightarrow> bool" where
  "roll_players r \<longleftrightarrow> sm_wf (r_playerVote r) \<and> (\<forall>v\<in>set (r_playerVote r). snd v \<noteq> NOT_VALID)
     \<and> unat (r_totalPlayersRolling r) = length (r_playerVote r)"

definition roll_inv :: "u64 set \<Rightarrow> roll \<Rightarrow> bool" where
  "roll_inv tw r \<longleftrightarrow> roll_players r \<and> (r_itemGUID r \<in> tw \<or> roll_ok r)"

definition rolls_ok :: "u64 set \<Rightarrow> roll_state \<Rightarrow> bool" where
  "rolls_ok tw s \<longleftrightarrow> (\<forall>r\<in>set (rs_rolls s). roll_inv tw r)"

text \<open>A vote moves one unit from one count to another.\<close>

lemma filter_put:
  assumes "sm_wf m"
  shows "length (filter (\<lambda>(g, v). P v) (sm_put p v m)) + (case sm_find m p of None \<Rightarrow> 0 | Some w \<Rightarrow> of_bool (P w))
    = length (filter (\<lambda>(g, v). P v) m) + of_bool (P v)"
  using assms
proof (induction m)
  case Nil
  then show ?case by (simp add: sm_put_def)
next
  case (Cons x m)
  obtain g w where x: "x = (g, w)" by (cases x)
  from Cons.prems have wf: "sm_wf m" and gt: "\<And>k u. (k, u) \<in> set m \<Longrightarrow> g < k"
    by (auto simp: x sm_wf_def)
  have all: "filter (\<lambda>e. g < fst e) m = m" "filter (\<lambda>e. fst e < g) m = []"
    by (auto simp: filter_id_conv filter_empty_conv dest!: gt)
  have lower: "filter (\<lambda>e. p < fst e) m = m" "filter (\<lambda>e. fst e < p) m = []" "sm_find m p = None" if "p < g"
    using gt that by (force simp: filter_id_conv filter_empty_conv sm_find_def map_of_eq_None_iff)+
  consider "p < g" | "p = g" | "g < p" by (meson linorder_neqE)
  then show ?case
  proof cases
    case 1
    have "sm_put p v (x # m) = (p, v) # x # m" using 1 lower by (simp add: x sm_put_def)
    moreover have "sm_find (x # m) p = None" using 1 lower by (simp add: x sm_find_def)
    ultimately show ?thesis by simp
  next
    case 2
    then show ?thesis by (simp add: x sm_put_def all sm_find_def)
  next
    case 3
    then have "sm_put p v (x # m) = x # sm_put p v m" "sm_find (x # m) p = sm_find m p"
      by (auto simp: x sm_put_def sm_find_def)
    then show ?thesis using Cons.IH [OF wf] by (simp add: x)
  qed
qed

lemma filter_erase:
  assumes "sm_wf m" "sm_find m p = Some w"
  shows "length (filter (\<lambda>(g, v). P v) m) = length (filter (\<lambda>(g, v). P v) (sm_erase p m)) + of_bool (P w)"
  using assms
proof (induction m)
  case (Cons x m)
  obtain g u where x: "x = (g, u)" by (cases x)
  from Cons.prems have wf: "sm_wf m" and gt: "\<And>k u. (k, u) \<in> set m \<Longrightarrow> g < k"
    by (auto simp: x sm_wf_def)
  have "filter (\<lambda>e. fst e \<noteq> g \<and> Q e) m = filter Q m" for Q using gt by (intro filter_cong) force+
  with Cons wf show ?case by (auto simp: x sm_erase_def sm_find_def)
qed simp

lemma votes_put:
  assumes "sm_wf (r_playerVote r)" "sm_find (r_playerVote r) p = Some w"
  shows "length (filter (\<lambda>(g, v). P v) (sm_put p v (r_playerVote r))) + of_bool (P w) = votes_for P r + of_bool (P v)"
  using filter_put [OF assms(1), of P p v] assms(2) by (simp add: votes_for_def)

lemma votes_le: "(\<And>v. P v \<Longrightarrow> Q v) \<Longrightarrow> votes_for P r \<le> votes_for Q r"
proof -
  assume "\<And>v. P v \<Longrightarrow> Q v"
  then have "length (filter (\<lambda>(g, v). P v) m) \<le> length (filter (\<lambda>(g, v). Q v) m)" for m :: "(u64, RollVote) smap"
    by (induction m) (auto simp: le_SucI)
  then show ?thesis by (simp only: votes_for_def)
qed

text \<open>The counts of the four kinds of cast votes and of the missing ones add up.\<close>

lemma votes_total:
  "votes_for (\<lambda>v. v \<noteq> NOT_VALID) r = votes_for (\<lambda>v. v = NEED) r
     + votes_for (\<lambda>v. v = GREED \<or> v = DISENCHANT) r + votes_for (\<lambda>v. v = PASS) r
     + votes_for (\<lambda>v. v = NOT_EMITED_YET) r"
proof -
  have "length (filter (\<lambda>(g, v). v \<noteq> NOT_VALID) m) = length (filter (\<lambda>(g, v). v = NEED) m)
     + length (filter (\<lambda>(g, v). v = GREED \<or> v = DISENCHANT) m) + length (filter (\<lambda>(g, v). v = PASS) m)
     + length (filter (\<lambda>(g, v). v = NOT_EMITED_YET) m)" for m :: "(u64, RollVote) smap"
  proof (induction m)
    case (Cons x m)
    then show ?case by (cases x; cases "snd x") auto
  qed simp
  then show ?thesis by (simp only: votes_for_def)
qed

lemma all_cast_iff:
  assumes "roll_ok r"
  shows "votes_cast r \<ge> unat (r_totalPlayersRolling r) \<longleftrightarrow> (\<forall>(g, v)\<in>set (r_playerVote r). v \<noteq> NOT_EMITED_YET)"
proof -
  have "votes_for (\<lambda>v. v = NOT_EMITED_YET) r = 0 \<longleftrightarrow> (\<forall>(g, v)\<in>set (r_playerVote r). v \<noteq> NOT_EMITED_YET)"
    by (auto simp: votes_for_def filter_empty_conv)
  then show ?thesis
    using assms votes_total [of r] by (simp add: roll_ok_def votes_cast_def)
qed

text \<open>What the switch writes into the roll.\<close>

fun vote_of :: "u8 \<Rightarrow> RollVote" where
  "vote_of c = (if c = ROLL_PASS then PASS else if c = ROLL_NEED then NEED else if c = ROLL_GREED then GREED
     else DISENCHANT)"

definition voted :: "u64 \<Rightarrow> u8 \<Rightarrow> roll \<Rightarrow> roll" where
  "voted p c r = r\<lparr>r_totalPass := r_totalPass r + of_bool (c = ROLL_PASS),
     r_totalNeed := r_totalNeed r + of_bool (c = ROLL_NEED),
     r_totalGreed := r_totalGreed r + of_bool (c = ROLL_GREED \<or> c = ROLL_DISENCHANT),
     r_playerVote := sm_put p (vote_of c) (r_playerVote r)\<rparr>"

lemmas roll_codes = ROLL_PASS_def ROLL_NEED_def ROLL_GREED_def ROLL_DISENCHANT_def MAX_ROLL_TYPE_def

lemma choice_cases:
  assumes "c < MAX_ROLL_TYPE"
  shows "c = ROLL_PASS \<or> c = ROLL_NEED \<or> c = ROLL_GREED \<or> c = ROLL_DISENCHANT"
proof -
  have "unat c < 4" using assms by (simp add: MAX_ROLL_TYPE_def word_less_nat_alt)
  then have "unat c = 0 \<or> unat c = 1 \<or> unat c = 2 \<or> unat c = 3" by auto
  moreover have "c = of_nat (unat c)" by simp
  ultimately show ?thesis by (elim disjE) (simp_all add: roll_codes)
qed

lemma cast_vote_voted:
  assumes "c < MAX_ROLL_TYPE" "i < length (rs_rolls s)"
  shows "rs_rolls (cast_vote e p c i r s) = (rs_rolls s)[i := voted p c r]"
  using choice_cases [OF assms(1)] by (auto simp: cast_vote_def voted_def Let_def roll_codes)

lemma unat_plus_bool: "unat (x :: u8) + of_bool b < 256 \<Longrightarrow> unat (x + of_bool b) = unat x + of_bool b"
  by (cases b) (simp_all add: unat_word_ariths)

lemma roll_ok_voted:
  assumes ok: "roll_ok r" and new: "sm_find (r_playerVote r) p = Some NOT_EMITED_YET" and c: "c < MAX_ROLL_TYPE"
  shows "roll_ok (voted p c r)"
proof -
  have wf: "sm_wf (r_playerVote r)" using ok by (simp add: roll_ok_def)
  have pv: "r_playerVote (voted p c r) = sm_put p (vote_of c) (r_playerVote r)" by (simp add: voted_def)
  have cnt: "votes_for P (voted p c r) + of_bool (P NOT_EMITED_YET) = votes_for P r + of_bool (P (vote_of c))" for P
    using votes_put [OF wf new, of P] by (simp add: votes_for_def pv)
  have lim: "votes_for (\<lambda>v. v \<noteq> NOT_VALID) (voted p c r) < 256"
    using cnt [of "\<lambda>v. v \<noteq> NOT_VALID"] ok unsigned_less [of "r_totalPlayersRolling r", where 'a = nat]
    by (auto simp: roll_ok_def split: if_splits)
  have small: "votes_for P (voted p c r) < 256" if "\<And>v. P v \<Longrightarrow> v \<noteq> NOT_VALID" for P
    using votes_le [of P "\<lambda>v. v \<noteq> NOT_VALID" "voted p c r"] lim that by simp
  have n: "votes_for (\<lambda>v. v = NEED) (voted p c r) = unat (r_totalNeed r) + of_bool (c = ROLL_NEED)"
    using cnt [of "\<lambda>v. v = NEED"] ok choice_cases [OF c] by (auto simp: roll_ok_def roll_codes)
  have g: "votes_for (\<lambda>v. v = GREED \<or> v = DISENCHANT) (voted p c r)
      = unat (r_totalGreed r) + of_bool (c = ROLL_GREED \<or> c = ROLL_DISENCHANT)"
    using cnt [of "\<lambda>v. v = GREED \<or> v = DISENCHANT"] ok choice_cases [OF c] by (auto simp: roll_ok_def roll_codes)
  have ps: "votes_for (\<lambda>v. v = PASS) (voted p c r) = unat (r_totalPass r) + of_bool (c = ROLL_PASS)"
    using cnt [of "\<lambda>v. v = PASS"] ok choice_cases [OF c] by (auto simp: roll_ok_def roll_codes)
  have t: "votes_for (\<lambda>v. v \<noteq> NOT_VALID) (voted p c r) = unat (r_totalPlayersRolling r)"
    using cnt [of "\<lambda>v. v \<noteq> NOT_VALID"] ok by (auto simp: roll_ok_def split: if_splits)
  have flds: "r_totalNeed (voted p c r) = r_totalNeed r + of_bool (c = ROLL_NEED)"
    "r_totalGreed (voted p c r) = r_totalGreed r + of_bool (c = ROLL_GREED \<or> c = ROLL_DISENCHANT)"
    "r_totalPass (voted p c r) = r_totalPass r + of_bool (c = ROLL_PASS)"
    "r_totalPlayersRolling (voted p c r) = r_totalPlayersRolling r"
    by (simp_all add: voted_def)
  have u: "unat (r_totalNeed r + of_bool (c = ROLL_NEED)) = unat (r_totalNeed r) + of_bool (c = ROLL_NEED)"
    "unat (r_totalGreed r + of_bool (c = ROLL_GREED \<or> c = ROLL_DISENCHANT))
      = unat (r_totalGreed r) + of_bool (c = ROLL_GREED \<or> c = ROLL_DISENCHANT)"
    "unat (r_totalPass r + of_bool (c = ROLL_PASS)) = unat (r_totalPass r) + of_bool (c = ROLL_PASS)"
    by (rule unat_plus_bool, simp only: n [symmetric] g [symmetric] ps [symmetric], rule small, blast)+
  show ?thesis
    unfolding roll_ok_def flds u n g ps t by (simp add: pv sm_wf_put wf)
qed

section \<open>Every operation keeps the counters\<close>

lemma roll_ok_irrelevant [simp]:
  "roll_ok (r\<lparr>r_loot := x\<rparr>) = roll_ok r" "roll_ok (r\<lparr>r_itemSlot := k\<rparr>) = roll_ok r"
  "roll_ok (r\<lparr>r_rollVoteMask := m\<rparr>) = roll_ok r"
  by (simp_all add: roll_ok_def votes_for_def)

lemma roll_ok_masks [simp]:
  "roll_ok (allow_disenchant me p r) = roll_ok r" "roll_ok (forbid_need p r) = roll_ok r"
  by (simp_all add: allow_disenchant_def forbid_need_def)

lemma roll_ok_new [simp]: "roll_ok (new_roll g li)"
  by (simp add: roll_ok_def new_roll_def votes_for_def)

lemma unat_Suc: "unat (x :: u8) < 255 \<Longrightarrow> unat (x + 1) = Suc (unat x)"
  using unat_plus_bool [of x True] by simp

lemma unat_pred: "0 < unat (x :: u8) \<Longrightarrow> unat (x - 1) = unat x - 1"
  by (metis diff_0_eq_0 less_numeral_extra(3) unat_eq_zero unat_minus_one)

definition join_roll :: "u64 \<Rightarrow> bool \<Rightarrow> roll \<Rightarrow> roll" where
  "join_roll m b r = (let r1 = r\<lparr>r_totalPlayersRolling := r_totalPlayersRolling r + 1\<rparr> in
     if b then r1\<lparr>r_playerVote := sm_put m PASS (r_playerVote r1), r_totalPass := r_totalPass r1 + 1\<rparr>
     else r1\<lparr>r_playerVote := sm_put m NOT_EMITED_YET (r_playerVote r1)\<rparr>)"

lemma collect_voters_join:
  "collect_voters e ap li (m # ms) r = (if le_session e m \<and> le_allowed e li m \<and> le_near e m
     then collect_voters e ap li ms (join_roll m (ap \<and> le_pass e m) r) else collect_voters e ap li ms r)"
  by (simp add: join_roll_def Let_def)

lemma votes_le_length: "votes_for P r \<le> length (r_playerVote r)"
  by (simp add: votes_for_def)

lemma roll_ok_join:
  assumes "roll_ok r" "sm_find (r_playerVote r) m = None" "length (r_playerVote r) < 255"
  shows "roll_ok (join_roll m b r)" "length (r_playerVote (join_roll m b r)) = Suc (length (r_playerVote r))"
    "r_playerVote (join_roll m b r) = sm_put m (if b then PASS else NOT_EMITED_YET) (r_playerVote r)"
proof -
  have wf: "sm_wf (r_playerVote r)" using assms(1) by (simp add: roll_ok_def)
  show pv: "r_playerVote (join_roll m b r) = sm_put m (if b then PASS else NOT_EMITED_YET) (r_playerVote r)"
    by (simp add: join_roll_def Let_def)
  have cnt: "votes_for P (join_roll m b r) = votes_for P r + of_bool (P (if b then PASS else NOT_EMITED_YET))" for P
    using filter_put [OF wf, of P m] assms(2) by (simp add: votes_for_def pv)
  have lim: "votes_for P r < 255" for P using votes_le_length [of P r] assms(3) by simp
  have u: "unat (r_totalPass r) < 255" "unat (r_totalPlayersRolling r) < 255"
    using assms(1) lim by (simp_all add: roll_ok_def)
  have flds: "r_totalNeed (join_roll m b r) = r_totalNeed r" "r_totalGreed (join_roll m b r) = r_totalGreed r"
    "r_totalPass (join_roll m b r) = (if b then r_totalPass r + 1 else r_totalPass r)"
    "r_totalPlayersRolling (join_roll m b r) = r_totalPlayersRolling r + 1"
    by (simp_all add: join_roll_def Let_def)
  show "roll_ok (join_roll m b r)"
    unfolding roll_ok_def flds cnt
    using assms(1) u by (simp add: pv sm_wf_put wf roll_ok_def unat_Suc)
  show "length (r_playerVote (join_roll m b r)) = Suc (length (r_playerVote r))"
    using smap.size_put [OF wf, of m] assms(2) by (simp add: pv)
qed

lemma roll_ok_collect:
  assumes "roll_ok r" "distinct ms" "\<forall>m\<in>set ms. sm_find (r_playerVote r) m = None"
    "length (r_playerVote r) + length ms < 256"
  shows "roll_ok (collect_voters e ap li ms r)"
  using assms
proof (induction ms arbitrary: r)
  case (Cons m ms)
  note j = roll_ok_join [of r m "ap \<and> le_pass e m"]
  have jn: "roll_ok (join_roll m (ap \<and> le_pass e m) r)"
    "length (r_playerVote (join_roll m (ap \<and> le_pass e m) r)) = Suc (length (r_playerVote r))"
    using Cons.prems j by simp_all
  have "\<forall>k\<in>set ms. sm_find (r_playerVote (join_roll m (ap \<and> le_pass e m) r)) k = None"
    using Cons.prems j(3) by (auto simp: sm_find_put)
  with Cons jn show ?case by (simp only: collect_voters_join) simp
qed simp

lemma roll_ok_members:
  "distinct ms \<Longrightarrow> length ms < 256 \<Longrightarrow> roll_ok (collect_voters e ap li ms (new_roll g li))"
  by (rule roll_ok_collect [OF roll_ok_new]) (simp_all add: new_roll_def)

text \<open>A member who leaves takes the vote along.\<close>

lemma roll_ok_withdraw:
  assumes ok: "roll_ok r" and v: "sm_find (r_playerVote r) g = Some v"
  shows "roll_ok (withdraw g v r)"
proof -
  have wf: "sm_wf (r_playerVote r)" using ok by (simp add: roll_ok_def)
  have pv: "r_playerVote (withdraw g v r) = sm_erase g (r_playerVote r)"
    by (simp add: withdraw_def Let_def)
  have cnt: "votes_for P r = votes_for P (withdraw g v r) + of_bool (P v)" for P
    using filter_erase [OF wf v, of P] by (simp add: votes_for_def pv)
  have wf': "sm_wf (r_playerVote (withdraw g v r))" using wf by (simp add: pv smap.wf_erase)
  show ?thesis
    using ok wf' cnt [of "\<lambda>v. v = NEED"] cnt [of "\<lambda>v. v = GREED \<or> v = DISENCHANT"] cnt [of "\<lambda>v. v = PASS"]
      cnt [of "\<lambda>v. v \<noteq> NOT_VALID"]
    unfolding roll_ok_def by (cases v) (simp_all add: withdraw_def Let_def unat_pred)
qed

text \<open>The players of a roll, whatever the votes.\<close>

lemma set_sm_put: "set (sm_put k v m) \<subseteq> insert (k, v) (set m)"
  by (auto simp: sm_put_def)

lemma roll_playersI:
  assumes "roll_ok r" "\<forall>v\<in>set (r_playerVote r). snd v \<noteq> NOT_VALID"
  shows "roll_players r"
proof -
  have "filter (\<lambda>(g, v). v \<noteq> NOT_VALID) (r_playerVote r) = r_playerVote r"
    using assms(2) by (auto simp: filter_id_conv)
  then show ?thesis using assms by (simp add: roll_players_def roll_ok_def votes_for_def)
qed

lemma roll_players_voted:
  assumes "roll_players r" "sm_find (r_playerVote r) p \<noteq> None"
  shows "roll_players (voted p c r)"
proof -
  have wf: "sm_wf (r_playerVote r)" using assms(1) by (simp add: roll_players_def)
  have "length (sm_put p (vote_of c) (r_playerVote r)) = length (r_playerVote r)"
    using smap.size_put [OF wf, of p] assms(2) by (simp add: sm_keys_def)
  moreover have "vote_of c \<noteq> NOT_VALID" by simp
  ultimately show ?thesis
    using assms(1) set_sm_put [of p "vote_of c" "r_playerVote r"]
    by (auto simp: roll_players_def voted_def sm_wf_put simp del: vote_of.simps)
qed

lemma roll_players_withdraw:
  assumes "roll_players r" "sm_find (r_playerVote r) g = Some v"
  shows "roll_players (withdraw g v r)"
proof -
  have wf: "sm_wf (r_playerVote r)" using assms(1) by (simp add: roll_players_def)
  have v: "v \<noteq> NOT_VALID" using assms by (auto simp: roll_players_def sm_find_def dest!: map_of_SomeD)
  have n: "Suc (length (sm_erase g (r_playerVote r))) = length (r_playerVote r)"
    using smap.size_erase [OF wf, of g] assms(2) by (simp add: sm_keys_def)
  have "r_playerVote (withdraw g v r) = sm_erase g (r_playerVote r)"
    "r_totalPlayersRolling (withdraw g v r) = r_totalPlayersRolling r - 1"
    using v by (simp_all add: withdraw_def Let_def)
  moreover have "unat (r_totalPlayersRolling r - 1) = length (sm_erase g (r_playerVote r))"
  proof -
    have u: "unat (r_totalPlayersRolling r) = length (r_playerVote r)" using assms(1) by (simp add: roll_players_def)
    then have "0 < unat (r_totalPlayersRolling r)" using n by linarith
    from unat_pred [OF this] u n show ?thesis by linarith
  qed
  moreover have "set (sm_erase g (r_playerVote r)) \<subseteq> set (r_playerVote r)" by (auto simp: sm_erase_def)
  ultimately show ?thesis
    using assms(1) smap.wf_erase [OF wf, of g] by (auto simp: roll_players_def)
qed

lemma collect_votes_valid:
  "\<forall>v\<in>set (r_playerVote r). snd v \<noteq> NOT_VALID \<Longrightarrow>
   \<forall>v\<in>set (r_playerVote (collect_voters e ap li ms r)). snd v \<noteq> NOT_VALID"
proof (induction ms arbitrary: r)
  case (Cons m ms)
  have "\<forall>v\<in>set (r_playerVote (join_roll m b r)). snd v \<noteq> NOT_VALID" for b
    using Cons.prems set_sm_put [of m _ "r_playerVote r"] by (auto simp: join_roll_def Let_def dest!: subsetD [OF set_sm_put])
  with Cons show ?case by (simp only: collect_voters_join split: if_split) blast
qed simp

lemma item_guid_kept [simp]:
  "r_itemGUID (voted p c r) = r_itemGUID r" "r_itemGUID (withdraw g v r) = r_itemGUID r"
  by (simp_all add: voted_def withdraw_def Let_def)

lemma roll_inv_members:
  "distinct ms \<Longrightarrow> length ms < 256 \<Longrightarrow> roll_inv tw (collect_voters e ap li ms (new_roll g li))"
proof -
  assume "distinct ms" "length ms < 256"
  then have "roll_ok (collect_voters e ap li ms (new_roll g li))" by (rule roll_ok_members)
  moreover have "\<forall>v\<in>set (r_playerVote (collect_voters e ap li ms (new_roll g li))). snd v \<noteq> NOT_VALID"
    by (rule collect_votes_valid) (simp add: new_roll_def)
  ultimately show ?thesis by (simp add: roll_inv_def roll_playersI)
qed

lemma roll_inv_irrelevant [simp]:
  "roll_inv tw (r\<lparr>r_loot := x\<rparr>) = roll_inv tw r" "roll_inv tw (r\<lparr>r_itemSlot := k\<rparr>) = roll_inv tw r"
  "roll_inv tw (r\<lparr>r_rollVoteMask := m\<rparr>) = roll_inv tw r"
  by (simp_all add: roll_inv_def roll_players_def)

lemma roll_inv_masks [simp]:
  "roll_inv tw (allow_disenchant me p r) = roll_inv tw r" "roll_inv tw (forbid_need p r) = roll_inv tw r"
  by (simp_all add: allow_disenchant_def forbid_need_def)

lemma roll_inv_withdraw:
  "roll_inv tw r \<Longrightarrow> sm_find (r_playerVote r) g = Some v \<Longrightarrow> roll_inv tw (withdraw g v r)"
  by (auto simp: roll_inv_def roll_players_withdraw roll_ok_withdraw)

lemma roll_inv_voted:
  assumes "roll_inv tw r" "sm_find (r_playerVote r) p = Some v" "c < MAX_ROLL_TYPE"
    and "v = NOT_EMITED_YET \<or> r_itemGUID r \<in> tw"
  shows "roll_inv tw (voted p c r)"
  using assms roll_ok_voted [of r p c] roll_players_voted [of r p c] by (auto simp: roll_inv_def)

lemma rolls_ok_mono: "rolls_ok tw s \<Longrightarrow> tw \<subseteq> tw' \<Longrightarrow> rolls_ok tw' s"
  by (auto simp: rolls_ok_def roll_inv_def)

lemma rolls_ok_subset: "rolls_ok tw s \<Longrightarrow> set (rs_rolls s') \<subseteq> set (rs_rolls s) \<Longrightarrow> rolls_ok tw s'"
  by (auto simp: rolls_ok_def)

lemma rolls_ok_count: "rolls_ok tw s \<Longrightarrow> CountTheRoll e i s = Inr s' \<Longrightarrow> rolls_ok tw s'"
  by (rule rolls_ok_subset) (auto simp: CountTheRoll_rolls dest: subsetD [OF set_list_erase])

lemma rolls_ok_update:
  "rolls_ok tw s \<Longrightarrow> roll_inv tw r \<Longrightarrow> rs_rolls s' = (rs_rolls s)[i := r] \<Longrightarrow> rolls_ok tw s'"
  using set_update_subset_insert [of "rs_rolls s" i r] by (auto simp: rolls_ok_def)

lemma rolls_ok_nth: "rolls_ok tw s \<Longrightarrow> i < length (rs_rolls s) \<Longrightarrow> roll_inv tw (rs_rolls s ! i)"
  by (simp add: rolls_ok_def)

lemma find_roll_bounds:
  "find_roll g rs k = Some i \<Longrightarrow> k \<le> i \<and> i - k < length rs \<and> r_itemGUID (rs ! (i - k)) = g \<and> roll_isValid (rs ! (i - k))"
proof (induction rs arbitrary: k)
  case (Cons r rs)
  then show ?case by (cases "r_itemGUID r = g \<and> roll_isValid r") (auto simp: Suc_le_eq nth_Cons' dest!: Cons.IH)
qed simp

lemma GetRoll_bounds: "GetRoll g s = Some i \<Longrightarrow> i < length (rs_rolls s) \<and> r_itemGUID (rs_rolls s ! i) = g \<and> roll_isValid (rs_rolls s ! i)"
  using find_roll_bounds [of g "rs_rolls s" 0 i] by (simp add: GetRoll_def)

text \<open>The first vote of a player: the roll ends with the last missing vote, and only then.\<close>

lemma first_vote:
  assumes i: "GetRoll G s = Some i" and new: "sm_find (r_playerVote (rs_rolls s ! i)) p = Some NOT_EMITED_YET"
    and c: "c < MAX_ROLL_TYPE" and l: "loot_of (rs_rolls s ! i) s = Inr (a, lt)" "lt_items lt \<noteq> []"
    and ok: "roll_ok (rs_rolls s ! i)"
  shows "CountRollVote e p G c s = (let s1 = cast_vote e p c i (rs_rolls s ! i) s in
    if \<forall>(q, v)\<in>set (r_playerVote (voted p c (rs_rolls s ! i))). v \<noteq> NOT_EMITED_YET then CountTheRoll e i s1 else Inr s1)"
proof -
  have lt: "i < length (rs_rolls s)" using GetRoll_bounds [OF i] by simp
  have r1: "rs_rolls (cast_vote e p c i (rs_rolls s ! i) s) ! i = voted p c (rs_rolls s ! i)"
    using cast_vote_voted [OF c lt] lt by simp
  show ?thesis
    using i new l all_cast_iff [OF roll_ok_voted [OF ok new c]]
    by (simp add: CountRollVote_def Let_def r1)
qed

lemma CountRollVote_other:
  assumes "CountRollVote e p G c s = Inr s'"
  obtains "s' = s" | i where "i < length (rs_rolls s)" "GetRoll G s = Some i"
    "sm_find (r_playerVote (rs_rolls s ! i)) p \<noteq> None"
    "s' = cast_vote e p c i (rs_rolls s ! i) s \<or> CountTheRoll e i (cast_vote e p c i (rs_rolls s ! i) s) = Inr s'"
  using assms GetRoll_bounds [of G s]
  by (auto simp: CountRollVote_def Let_def sbind_Inr split: option.splits if_splits)

text \<open>
  A vote is a repeated one when the player has already been heard; then the roll is one of those
  on which the counters are no longer the votes.
\<close>

definition repeats_vote :: "u64 \<Rightarrow> u64 \<Rightarrow> u8 \<Rightarrow> roll_state \<Rightarrow> bool" where
  "repeats_vote p G c s \<longleftrightarrow> c < MAX_ROLL_TYPE \<and> (case GetRoll G s of None \<Rightarrow> False
     | Some i \<Rightarrow> (case sm_find (r_playerVote (rs_rolls s ! i)) p of None \<Rightarrow> False
       | Some v \<Rightarrow> v \<noteq> NOT_EMITED_YET))"

lemma cast_vote_none: "\<not> c < MAX_ROLL_TYPE \<Longrightarrow> cast_vote e p c i r s = s"
  by (auto simp: cast_vote_def Let_def roll_codes)

lemma rolls_ok_vote:
  assumes ok: "rolls_ok tw s" and rep: "repeats_vote p G c s \<Longrightarrow> G \<in> tw"
    and st: "CountRollVote e p G c s = Inr s'"
  shows "rolls_ok tw s'"
  using st
proof (cases rule: CountRollVote_other)
  case 1
  then show ?thesis using ok by simp
next
  case (2 j)
  have g: "r_itemGUID (rs_rolls s ! j) = G" using GetRoll_bounds [OF 2(2)] by simp
  have "rolls_ok tw (cast_vote e p c j (rs_rolls s ! j) s)"
  proof (cases "c < MAX_ROLL_TYPE")
    case c: True
    obtain v where v: "sm_find (r_playerVote (rs_rolls s ! j)) p = Some v" using 2(3) by blast
    have "v = NOT_EMITED_YET \<or> r_itemGUID (rs_rolls s ! j) \<in> tw"
      using rep c v 2(2) g by (auto simp: repeats_vote_def)
    from roll_inv_voted [OF rolls_ok_nth [OF ok 2(1)] v c this] cast_vote_voted [OF c 2(1)]
    show ?thesis by (intro rolls_ok_update [OF ok]) auto
  qed (use ok in \<open>simp add: cast_vote_none\<close>)
  with 2(4) show ?thesis by (auto intro: rolls_ok_count)
qed

lemma max_type_no_vote: "\<not> repeats_vote p G MAX_ROLL_TYPE s"
  by (simp add: repeats_vote_def)

lemma rolls_ok_leave: "leave_rolls e g k i s = Inr s' \<Longrightarrow> rolls_ok tw s \<Longrightarrow> rolls_ok tw s'"
proof (induction k arbitrary: i s)
  case (Suc k)
  show ?case
  proof (cases "i < length (rs_rolls s) \<and> sm_find (r_playerVote (rs_rolls s ! i)) g \<noteq> None")
    case True
    then obtain v where v: "i < length (rs_rolls s)" "sm_find (r_playerVote (rs_rolls s ! i)) g = Some v" by auto
    let ?s1 = "put_roll i (withdraw g v (rs_rolls s ! i)) s"
    from v Suc.prems(1) obtain s2 where s2: "CountRollVote e g (r_itemGUID (rs_rolls s ! i)) MAX_ROLL_TYPE ?s1 = Inr s2"
        "leave_rolls e g k (Suc i) s2 = Inr s'"
      by (auto simp: Let_def sbind_Inr)
    have "rolls_ok tw ?s1"
      using v Suc.prems(2) by (intro rolls_ok_update [OF Suc.prems(2) roll_inv_withdraw]) (auto simp: rolls_ok_nth)
    from rolls_ok_vote [OF this _ s2(1)] have "rolls_ok tw s2" by (simp add: max_type_no_vote)
    with s2(2) show ?thesis by (rule Suc.IH)
  next
    case False
    with Suc show ?thesis by (auto simp: Let_def split: if_splits)
  qed
qed simp

lemma rolls_ok_timer: "end_roll_loop n e a i s = Some (Inr s') \<Longrightarrow> rolls_ok tw s \<Longrightarrow> rolls_ok tw s'"
proof (induction n arbitrary: i s)
  case (Suc n)
  then show ?case
    by (subst (asm) end_roll_loop.simps)
      (auto split: if_splits sum.splits dest: rolls_ok_count)
qed (subst (asm) end_roll_loop.simps, auto split: if_splits)

lemma broadcast_rolls [simp]:
  "rs_rolls (broadcast_passes e r vs s) = rs_rolls s" "rs_rolls (broadcast_starts e r vs s) = rs_rolls s"
  by (induction vs arbitrary: s) auto

lemma rolls_ok_push:
  "rolls_ok tw s \<Longrightarrow> rs_rolls s' = rs_rolls s \<Longrightarrow> roll_inv tw r \<Longrightarrow> rolls_ok tw (push_roll r s')"
  by (simp add: rolls_ok_def push_roll_def)

lemma fresh_item_rolls: "fresh_item_guid s = (g, s1) \<Longrightarrow> rs_rolls s1 = rs_rolls s"
  by (auto simp: fresh_item_guid_def)

lemma rolls_ok_same: "rs_rolls s' = rs_rolls s \<Longrightarrow> rolls_ok tw s \<Longrightarrow> rolls_ok tw s'"
  by (simp add: rolls_ok_def)

text \<open>The members a roll is started for.\<close>

definition party :: "u64 list \<Rightarrow> bool" where
  "party ms \<longleftrightarrow> distinct ms \<and> length ms < 256"

lemma roll_inv_party: "party ms \<Longrightarrow> roll_inv tw (collect_voters e ap li ms (new_roll g li))"
  by (simp add: party_def roll_inv_members)

lemma rolls_ok_group_item: "party ms \<Longrightarrow> rolls_ok tw s \<Longrightarrow> rolls_ok tw (group_item e th me ms a k li s)"
  by (auto simp: group_item_def Let_def fresh_item_rolls intro!: rolls_ok_push roll_inv_party
      intro: rolls_ok_same split: option.split prod.split)

lemma rolls_ok_group_quest: "party ms \<Longrightarrow> rolls_ok tw s \<Longrightarrow> rolls_ok tw (group_quest_item e ms a k li s)"
  by (auto simp: group_quest_item_def Let_def fresh_item_rolls intro!: rolls_ok_push roll_inv_party
      intro: rolls_ok_same split: option.split prod.split)

lemma rolls_ok_need_item: "party ms \<Longrightarrow> need_item e th me ms a k li s = Inr s' \<Longrightarrow> rolls_ok tw s \<Longrightarrow> rolls_ok tw s'"
  by (auto simp: need_item_def Let_def fresh_item_rolls intro!: rolls_ok_push roll_inv_party
      intro: rolls_ok_same split: option.splits prod.splits if_splits)

lemma rolls_ok_need_quest: "party ms \<Longrightarrow> rolls_ok tw s \<Longrightarrow> rolls_ok tw (need_quest_item e ms a k li s)"
  by (auto simp: need_quest_item_def Let_def fresh_item_rolls intro!: rolls_ok_push roll_inv_party
      intro: rolls_ok_same split: prod.split)

lemma rolls_ok_each:
  "(\<And>k li s s'. f k li s = Inr s' \<Longrightarrow> rolls_ok tw s \<Longrightarrow> rolls_ok tw s') \<Longrightarrow> each_item f k lis s = Inr s' \<Longrightarrow>
   rolls_ok tw s \<Longrightarrow> rolls_ok tw s'"
  by (induction lis arbitrary: k s) (auto simp: sbind_Inr)

lemma rolls_ok_GroupLoot:
  assumes "party ms" "GroupLoot e th me ms a s = Inr s'" "rolls_ok tw s"
  shows "rolls_ok tw s'"
proof -
  obtain lt where lt: "rs_loots s a = Some lt" using assms(2) by (cases "rs_loots s a") (auto simp: GroupLoot_def)
  with assms(2) obtain s1 where
    1: "each_item (\<lambda>k li s. Inr (group_item e th me ms a k li s)) 0 (lt_items lt) s = Inr s1" and
    2: "each_item (\<lambda>k li s. Inr (group_quest_item e ms a k li s)) (of_nat (length (lt_items lt))) (lt_quest_items lt) s1 = Inr s'"
    by (simp add: GroupLoot_def sbind_Inr) (elim exE conjE)
  have s1: "rolls_ok tw s1" by (rule rolls_ok_each [OF _ 1 assms(3)]) (auto intro: rolls_ok_group_item assms(1))
  show ?thesis by (rule rolls_ok_each [OF _ 2 s1]) (auto intro: rolls_ok_group_quest assms(1))
qed

lemma rolls_ok_NeedBeforeGreed:
  assumes "party ms" "NeedBeforeGreed e th me ms a s = Inr s'" "rolls_ok tw s"
  shows "rolls_ok tw s'"
proof -
  obtain lt where lt: "rs_loots s a = Some lt" using assms(2) by (cases "rs_loots s a") (auto simp: NeedBeforeGreed_def)
  with assms(2) obtain s1 where
    1: "each_item (need_item e th me ms a) 0 (lt_items lt) s = Inr s1" and
    2: "each_item (\<lambda>k li s. Inr (need_quest_item e ms a k li s)) (of_nat (length (lt_items lt))) (lt_quest_items lt) s1 = Inr s'"
    by (simp add: NeedBeforeGreed_def sbind_Inr) (elim exE conjE)
  have s1: "rolls_ok tw s1" by (rule rolls_ok_each [OF _ 1 assms(3)]) (rule rolls_ok_need_item [OF assms(1)])
  show ?thesis by (rule rolls_ok_each [OF _ 2 s1]) (auto intro: rolls_ok_need_quest assms(1))
qed

section \<open>The life of the rolls\<close>

text \<open>
  What happens to the rolls of a group, for any dice and any environment, which may change
  between two steps: loot is rolled for, a client votes (any player, any item and any byte as
  the vote, as often as it likes), a timer runs out, a member leaves, a looted object is
  destroyed, the group is disbanded, the rest of the world moves. A step is labelled with the
  items on whose roll it repeats a vote.
\<close>

definition forget_loot :: "nat \<Rightarrow> roll \<Rightarrow> roll" where
  "forget_loot a r = (if r_loot r = Some a then r\<lparr>r_loot := None\<rparr> else r)"

inductive loot_step :: "roll_state \<Rightarrow> u64 set \<Rightarrow> roll_state \<Rightarrow> bool" where
  StartGroup: "party ms \<Longrightarrow> GroupLoot e th me ms a s = Inr s' \<Longrightarrow> loot_step s {} s'"
| StartNeed: "party ms \<Longrightarrow> NeedBeforeGreed e th me ms a s = Inr s' \<Longrightarrow> loot_step s {} s'"
| Vote: "HandleLootRoll e grouped p G c s = Inr s' \<Longrightarrow> loot_step s (if repeats_vote p G c s then {G} else {}) s'"
| Timer: "EndRoll n e a s = Some (Inr s') \<Longrightarrow> loot_step s {} s'"
| Leave: "leave_rolls e g (length (rs_rolls s)) 0 s = Inr s' \<Longrightarrow> loot_step s {} s'"
| Destroyed: "rs_rolls s' = map (forget_loot a) (rs_rolls s) \<Longrightarrow> loot_step s {} s'"
| Disbanded: "rs_rolls s' = [] \<Longrightarrow> loot_step s {} s'"
| World: "rs_rolls s' = rs_rolls s \<Longrightarrow> loot_step s {} s'"

inductive_simps loot_step_iff: "loot_step s R s'"

inductive loot_life :: "roll_state \<Rightarrow> u64 set \<Rightarrow> roll_state \<Rightarrow> bool" for s0 where
  Begin: "loot_life s0 {} s0"
| Next: "loot_life s0 tw s \<Longrightarrow> loot_step s R s' \<Longrightarrow> loot_life s0 (tw \<union> R) s'"

lemma rolls_ok_handler:
  assumes "rolls_ok tw s" "repeats_vote p G c s \<Longrightarrow> G \<in> tw" "HandleLootRoll e grouped p G c s = Inr s'"
  shows "rolls_ok tw s'"
proof (cases grouped)
  case True
  then obtain s1 where 1: "CountRollVote e p G c s = Inr s1" and "rs_rolls s' = rs_rolls s1"
    using assms(3) by (auto simp: HandleLootRoll_def sbind_Inr rs_emit_def)
  with rolls_ok_vote [OF assms(1,2) 1] show ?thesis by (auto intro: rolls_ok_same)
qed (use assms in \<open>simp add: HandleLootRoll_def\<close>)

lemma rolls_ok_step: "loot_step s R s' \<Longrightarrow> rolls_ok tw s \<Longrightarrow> rolls_ok (tw \<union> R) s'"
proof (induction rule: loot_step.induct)
  case (Vote e grouped p G c s s')
  then show ?case
    using rolls_ok_mono [of tw s "tw \<union> (if repeats_vote p G c s then {G} else {})"]
    by (intro rolls_ok_handler [OF _ _ Vote.hyps]) auto
next
  case (Destroyed s' a s)
  then show ?case by (auto simp: rolls_ok_def forget_loot_def)
next
  case (Disbanded s' s)
  then show ?case by (simp add: rolls_ok_def)
qed (auto intro: rolls_ok_GroupLoot rolls_ok_NeedBeforeGreed rolls_ok_leave rolls_ok_same
      simp: EndRoll_def dest: rolls_ok_timer)

lemma rolls_ok_life: "loot_life s0 tw s \<Longrightarrow> rs_rolls s0 = [] \<Longrightarrow> rolls_ok tw s"
  by (induction rule: loot_life.induct) (simp_all add: rolls_ok_def [of _ s0] rolls_ok_step)

text \<open>
  C21: whatever loot is rolled for, whoever votes, leaves or runs out of time, every player in
  the map of a pending roll rolls and is counted once. On a roll on which nobody has voted
  twice, the three counters are the numbers of the votes in its map, and no more votes are
  counted than players roll: the bytes never wrap around.
\<close>

theorem roll_counters:
  assumes "rs_rolls s0 = []" "loot_life s0 tw s" "r \<in> set (rs_rolls s)"
  shows "unat (r_totalPlayersRolling r) = length (r_playerVote r)
    \<and> (r_itemGUID r \<notin> tw \<longrightarrow>
        unat (r_totalNeed r) = votes_for (\<lambda>v. v = NEED) r
      \<and> unat (r_totalGreed r) = votes_for (\<lambda>v. v = GREED \<or> v = DISENCHANT) r
      \<and> unat (r_totalPass r) = votes_for (\<lambda>v. v = PASS) r
      \<and> unat (r_totalPlayersRolling r) = votes_cast r + votes_for (\<lambda>v. v = NOT_EMITED_YET) r)"
proof -
  have "roll_inv tw r" using rolls_ok_life [OF assms(2,1)] assms(3) by (simp add: rolls_ok_def)
  then show ?thesis using votes_total [of r] by (auto simp: roll_inv_def roll_players_def roll_ok_def votes_cast_def)
qed

text \<open>
  The first vote of a player is recorded under the player's guid and nothing else of the
  roll changes hands; the roll is resolved if this was the last missing vote, and only then.
\<close>

theorem first_vote_counts:
  assumes "GetRoll G s = Some i" "sm_find (r_playerVote (rs_rolls s ! i)) p = Some NOT_EMITED_YET"
    "c < MAX_ROLL_TYPE" "loot_of (rs_rolls s ! i) s = Inr (a, lt)" "lt_items lt \<noteq> []" "roll_ok (rs_rolls s ! i)"
  shows "\<exists>s1. rs_rolls s1 = (rs_rolls s)[i := voted p c (rs_rolls s ! i)] \<and> roll_ok (voted p c (rs_rolls s ! i))
    \<and> sm_find (r_playerVote (voted p c (rs_rolls s ! i))) q
        = (if q = p then Some (vote_of c) else sm_find (r_playerVote (rs_rolls s ! i)) q)
    \<and> CountRollVote e p G c s =
        (if \<forall>k v. sm_find (r_playerVote (voted p c (rs_rolls s ! i))) k = Some v \<longrightarrow> v \<noteq> NOT_EMITED_YET
         then CountTheRoll e i s1 else Inr s1)"
proof -
  have lt: "i < length (rs_rolls s)" using GetRoll_bounds [OF assms(1)] by simp
  have ok: "roll_ok (voted p c (rs_rolls s ! i))" by (rule roll_ok_voted [OF assms(6,2,3)])
  then have "sm_wf (r_playerVote (voted p c (rs_rolls s ! i)))" by (simp add: roll_ok_def)
  then have "(\<forall>(q, v)\<in>set (r_playerVote (voted p c (rs_rolls s ! i))). v \<noteq> NOT_EMITED_YET) \<longleftrightarrow>
      (\<forall>k v. sm_find (r_playerVote (voted p c (rs_rolls s ! i))) k = Some v \<longrightarrow> v \<noteq> NOT_EMITED_YET)"
    by (auto simp: sm_find_Some_iff)
  moreover have "sm_find (r_playerVote (voted p c (rs_rolls s ! i))) q
      = (if q = p then Some (vote_of c) else sm_find (r_playerVote (rs_rolls s ! i)) q)"
    by (simp add: voted_def sm_find_put del: vote_of.simps)
  ultimately show ?thesis
    using first_vote [OF assms(1-6), of e] cast_vote_voted [OF assms(3) lt] ok
    by (intro exI [of _ "cast_vote e p c i (rs_rolls s ! i) s"]) (simp add: Let_def del: vote_of.simps)
qed





section \<open>A member who leaves\<close>

definition without_vote :: "u64 \<Rightarrow> roll \<Rightarrow> roll" where
  "without_vote g r = (case sm_find (r_playerVote r) g of None \<Rightarrow> r | Some v \<Rightarrow> withdraw g v r)"

lemma GetRoll_unique:
  assumes "distinct (map r_itemGUID (rs_rolls s))" "GetRoll (r_itemGUID (rs_rolls s ! i)) s = Some j" "i < length (rs_rolls s)"
  shows "j = i"
  using GetRoll_bounds [OF assms(2)] assms(1,3) by (auto simp: distinct_conv_nth)

lemma withdraw_simps [simp]:
  "r_itemGUID (withdraw g v r) = r_itemGUID r" "r_playerVote (withdraw g v r) = sm_erase g (r_playerVote r)"
  "r_itemGUID (without_vote g r) = r_itemGUID r"
  by (simp_all add: withdraw_def Let_def without_vote_def split: option.split)

lemma vote_of_absent:
  assumes "distinct (map r_itemGUID (rs_rolls s))" "i < length (rs_rolls s)"
    "sm_find (r_playerVote (rs_rolls s ! i)) g = None"
  shows "CountRollVote e g (r_itemGUID (rs_rolls s ! i)) c s = Inr s"
  using GetRoll_unique [OF assms(1) _ assms(2)] assms(3)
  by (auto simp: CountRollVote_def Let_def split: option.split)

lemma leave_rolls_maps:
  "distinct (map r_itemGUID (rs_rolls s)) \<Longrightarrow> i + k = length (rs_rolls s) \<Longrightarrow>
   leave_rolls e g k i s = Inr (s\<lparr>rs_rolls := take i (rs_rolls s) @ map (without_vote g) (drop i (rs_rolls s))\<rparr>)"
proof (induction k arbitrary: i s)
  case 0
  then show ?case by simp
next
  case (Suc k)
  let ?r = "rs_rolls s ! i" and ?s1 = "put_roll i (without_vote g (rs_rolls s ! i)) s"
  have i: "i < length (rs_rolls s)" using Suc.prems by simp
  have guids: "map r_itemGUID (rs_rolls ?s1) = map r_itemGUID (rs_rolls s)"
    using i by (simp add: map_update list_update_same_conv)
  have step: "leave_rolls e g (Suc k) i s = leave_rolls e g k (Suc i) ?s1"
  proof (cases "sm_find (r_playerVote ?r) g")
    case None
    then show ?thesis using i by (simp add: without_vote_def put_roll_def)
  next
    case (Some v)
    have "CountRollVote e g (r_itemGUID (rs_rolls ?s1 ! i)) MAX_ROLL_TYPE ?s1 = Inr ?s1"
    proof (rule vote_of_absent)
      show "distinct (map r_itemGUID (rs_rolls ?s1))" using Suc.prems(1) by (simp only: guids)
    qed (use i Some in \<open>simp_all add: without_vote_def sm_find_erase\<close>)
    with i Some show ?thesis by (simp add: without_vote_def Let_def)
  qed
  have "leave_rolls e g k (Suc i) ?s1 = Inr (?s1\<lparr>rs_rolls := take (Suc i) (rs_rolls ?s1)
      @ map (without_vote g) (drop (Suc i) (rs_rolls ?s1))\<rparr>)"
    using Suc.prems guids i by (intro Suc.IH) (simp_all del: map_update)
  moreover have "take (Suc i) (rs_rolls ?s1) @ map (without_vote g) (drop (Suc i) (rs_rolls ?s1))
      = take i (rs_rolls s) @ map (without_vote g) (drop i (rs_rolls s))"
    using i by (simp add: take_Suc_conv_app_nth Cons_nth_drop_Suc [symmetric])
  ultimately show ?case using step by (simp add: put_roll_def)
qed

text \<open>
  C23: the vote of a member who leaves is erased before \<open>CountRollVote\<close> looks it up, so the
  departure never resolves a roll: all that happens is that every roll loses the vote, even if
  all who still roll have voted by then.
\<close>

theorem leaving_never_resolves:
  assumes "distinct (map r_itemGUID (rs_rolls s))"
  shows "leave_rolls e g (length (rs_rolls s)) 0 s = Inr (s\<lparr>rs_rolls := map (without_vote g) (rs_rolls s)\<rparr>)"
  using leave_rolls_maps [OF assms, of 0 "length (rs_rolls s)"] by simp

section \<open>The timer\<close>

definition slot_ok :: "loot \<Rightarrow> roll \<Rightarrow> bool" where
  "slot_ok lt r \<longleftrightarrow> unat (r_itemSlot r) < length (lt_items lt) + length (lt_quest_items lt)"

definition same_shape :: "loot \<Rightarrow> loot \<Rightarrow> bool" where
  "same_shape lt lt' \<longleftrightarrow> length (lt_items lt') = length (lt_items lt) \<and> length (lt_quest_items lt') = length (lt_quest_items lt)"

lemma same_shape_simps [simp]:
  "same_shape lt lt" "same_shape lt (upd_roll_item k f lt)" "same_shape lt (unblock k lt)"
  by (simp_all add: same_shape_def upd_roll_item_def unblock_def Let_def)

lemma take_item_shape: "take_item e k lt = (es, lt') \<Longrightarrow> same_shape lt lt'"
  by (auto simp: same_shape_def upd_roll_item_def take_item_def NotifyItemRemoved_def Let_def)

lemma slot_ok_shape: "same_shape lt lt' \<Longrightarrow> slot_ok lt' r = slot_ok lt r"
  by (simp add: same_shape_def slot_ok_def)

lemma roll_item_ok: "slot_ok lt r \<Longrightarrow> \<exists>li. roll_item lt (r_itemSlot r) = Inr li"
  by (auto simp: slot_ok_def roll_item_def Let_def)

definition loot_kept :: "nat \<Rightarrow> loot \<Rightarrow> roll_state \<Rightarrow> bool" where
  "loot_kept a lt s \<longleftrightarrow> (\<exists>lt'. rs_loots s a = Some lt' \<and> same_shape lt lt')"

lemma loot_kept_simps [simp]:
  "loot_kept a lt (rs_emit es s) = loot_kept a lt s"
  "loot_kept a lt (SendLootRollWon e g p n t r s) = loot_kept a lt s"
  "loot_kept a lt (SendLootAllPassed e r s) = loot_kept a lt s"
  "loot_kept a lt (erase_roll i s) = loot_kept a lt s"
  "same_shape lt lt' \<Longrightarrow> loot_kept a lt (set_loot a lt' s)"
  by (auto simp: loot_kept_def rs_emit_def SendLootRollWon_def SendLootAllPassed_def erase_roll_def set_loot_def)

lemma loot_kept_store [simp]: "loot_kept a lt (store_rolled e p r a lt item s)"
  by (auto simp: store_rolled_def Let_def take_item_shape split: prod.split)

lemma throw_dice_loots: "throw_dice e r P vs b s = (b', s') \<Longrightarrow> rs_loots s' = rs_loots s"
  using throw_dice_spec(1) by (auto simp: only_sends_def)

lemma loot_of_ok: "r_loot r = Some a \<Longrightarrow> rs_loots s a = Some lt \<Longrightarrow> loot_of r s = Inr (a, lt)"
  by (simp add: loot_of_def)

lemma loots_frame [simp]: "rs_loots (rs_emit es s) = rs_loots s" "rs_loots (SendLootRollWon e g p n t r s) = rs_loots s"
  "rs_loots (SendLootAllPassed e r s) = rs_loots s"
  by (simp_all add: rs_emit_def SendLootRollWon_def SendLootAllPassed_def)

text \<open>Ending a roll succeeds as long as the loot and the template are there.\<close>

lemma CountTheRoll_ok:
  assumes "r = rs_rolls s ! i" "r_loot r = Some a" "rs_loots s a = Some lt" "slot_ok lt r" "\<And>k. le_proto e k \<noteq> None"
  shows "\<exists>s'. CountTheRoll e i s = Inr s' \<and> loot_kept a lt s'"
proof -
  obtain li where li: "roll_item lt (r_itemSlot r) = Inr li" using roll_item_ok [OF assms(4)] by auto
  obtain pr where pr: "le_proto e (r_itemid r) = Some pr" using assms(5) by blast
  note ok = loot_of_ok [OF assms(2)] assms(3) li pr throw_dice_loots
  have kept: "loot_kept a lt s" using assms(3) by (simp add: loot_kept_def)
  have keep1: "loot_kept a lt s1" if "throw_dice e r P vs b s = (b', s1)" for P vs b b' s1
    using throw_dice_loots [OF that] assms(3) by (simp add: loot_kept_def)
  have n: "\<exists>s'. need_branch e r s = Inr s' \<and> loot_kept a lt s'"
    using kept by (auto simp: need_branch_def Let_def ok keep1 split: list.split prod.split)
  have g: "\<exists>s'. greed_branch e r s = Inr s' \<and> loot_kept a lt s'"
    using kept by (auto simp: greed_branch_def Let_def ok keep1 take_item_shape split: list.split prod.split)
  have p: "\<exists>s'. pass_branch e r s = Inr s' \<and> loot_kept a lt s'"
    by (simp add: pass_branch_def Let_def ok)
  show ?thesis
    using n g p assms(2) by (auto simp: CountTheRoll_def Let_def roll_isValid_def simp flip: assms(1))
qed


lemma filter_list_erase: "i < length xs \<Longrightarrow> \<not> P (xs ! i) \<Longrightarrow> filter P (list_erase i xs) = filter P xs"
  by (subst (2) id_take_nth_drop [of i xs]) (simp_all add: list_erase_def)

lemma length_list_erase [simp]: "i < length xs \<Longrightarrow> length (list_erase i xs) = length xs - 1"
  by (simp add: list_erase_def)

definition rolls_for :: "nat \<Rightarrow> roll_state \<Rightarrow> nat" where
  "rolls_for a s = length (filter (\<lambda>r. r_loot r = Some a) (rs_rolls s))"

lemma rolls_for_erase:
  assumes "i < length (rs_rolls s)" "r_loot (rs_rolls s ! i) = Some a" "rs_rolls s' = list_erase i (rs_rolls s)"
  shows "rolls_for a s = Suc (rolls_for a s')"
  using assms
  by (subst rolls_for_def, subst id_take_nth_drop [of i "rs_rolls s"]) (simp_all add: rolls_for_def list_erase_def)

text \<open>Every restart of the loop has one roll less; between restarts it moves on.\<close>

lemma end_roll_loop_ends:
  assumes "\<And>k. le_proto e k \<noteq> None"
  shows "loot_kept a lt s \<Longrightarrow> \<forall>r\<in>set (rs_rolls s). r_loot r = Some a \<longrightarrow> slot_ok lt r \<Longrightarrow>
    \<forall>j<i. j < length (rs_rolls s) \<longrightarrow> r_loot (rs_rolls s ! j) \<noteq> Some a \<Longrightarrow> i \<le> length (rs_rolls s) \<Longrightarrow>
    n \<ge> rolls_for a s * Suc (length (rs_rolls s)) + (length (rs_rolls s) - i) \<Longrightarrow>
    \<exists>s'. end_roll_loop n e a i s = Some (Inr s')
      \<and> rs_rolls s' = filter (\<lambda>r. r_loot r \<noteq> Some a) (rs_rolls s)"
proof (induction n arbitrary: i s)
  case 0
  then have i: "i = length (rs_rolls s)" "rolls_for a s = 0" by auto
  then have "filter (\<lambda>r. r_loot r \<noteq> Some a) (rs_rolls s) = rs_rolls s"
    by (simp add: rolls_for_def filter_empty_conv filter_id_conv)
  with i show ?case by (simp add: end_roll_loop.simps)
next
  case (Suc n)
  let ?rs = "rs_rolls s"
  consider "i = length ?rs" | "i < length ?rs" "r_loot (?rs ! i) = Some a" | "i < length ?rs" "r_loot (?rs ! i) \<noteq> Some a"
    using Suc.prems(4) by linarith
  then show ?case
  proof cases
    case 1
    with Suc.prems(3) have "filter (\<lambda>r. r_loot r \<noteq> Some a) ?rs = ?rs"
      by (auto simp: filter_id_conv in_set_conv_nth)
    with 1 show ?thesis by (simp add: end_roll_loop.simps)
  next
    case 2
    obtain lt' where lt': "rs_loots s a = Some lt'" "same_shape lt lt'" using Suc.prems(1) by (auto simp: loot_kept_def)
    have "slot_ok lt' (?rs ! i)" using 2 Suc.prems(2) lt' by (simp add: slot_ok_shape)
    from CountTheRoll_ok [OF refl 2(2) lt'(1) this assms]
    obtain s1 where s1: "CountTheRoll e i s = Inr s1" "loot_kept a lt' s1" by blast
    have kept: "loot_kept a lt s1" using s1(2) lt'(2) by (auto simp: loot_kept_def same_shape_def)
    note rolls = CountTheRoll_rolls [OF s1(1)]
    have less: "rolls_for a s = Suc (rolls_for a s1)" by (rule rolls_for_erase [OF 2 rolls])
    have len: "length ?rs = Suc (length (rs_rolls s1))" using 2(1) by (simp add: rolls)
    have "\<exists>s'. end_roll_loop n e a 0 s1 = Some (Inr s')
        \<and> rs_rolls s' = filter (\<lambda>r. r_loot r \<noteq> Some a) (rs_rolls s1)"
    proof (rule Suc.IH [OF kept])
      show "\<forall>r\<in>set (rs_rolls s1). r_loot r = Some a \<longrightarrow> slot_ok lt r"
        using Suc.prems(2) set_list_erase [of i ?rs] by (auto simp: rolls)
      show "rolls_for a s1 * Suc (length (rs_rolls s1)) + (length (rs_rolls s1) - 0) \<le> n"
        using Suc.prems(5) by (simp add: less len)
    qed simp_all
    moreover have "filter (\<lambda>r. r_loot r \<noteq> Some a) (rs_rolls s1) = filter (\<lambda>r. r_loot r \<noteq> Some a) ?rs"
      using 2 by (simp add: rolls filter_list_erase)
    ultimately show ?thesis using 2 s1(1) by (simp add: end_roll_loop.simps [of "Suc n"])
  next
    case 3
    have "\<exists>s'. end_roll_loop n e a (Suc i) s = Some (Inr s') \<and> rs_rolls s' = filter (\<lambda>r. r_loot r \<noteq> Some a) ?rs"
      using Suc.prems 3 by (intro Suc.IH) (auto simp: less_Suc_eq)
    with 3 show ?thesis by (simp add: end_roll_loop.simps [of "Suc n"])
  qed
qed

text \<open>
  C24: when the timer of a looted object expires, the loop over the rolls ends although it
  starts over after every roll it resolves, every roll for that object is resolved, and the
  rolls for other objects stay pending in their order.
\<close>

theorem end_roll_resolves_all:
  assumes "rs_loots s a = Some lt" "\<forall>r\<in>set (rs_rolls s). r_loot r = Some a \<longrightarrow> slot_ok lt r" "\<And>k. le_proto e k \<noteq> None"
    and "n \<ge> Suc (length (rs_rolls s)) * Suc (length (rs_rolls s))"
  shows "\<exists>s'. EndRoll n e a s = Some (Inr s') \<and> rs_rolls s' = filter (\<lambda>r. r_loot r \<noteq> Some a) (rs_rolls s)"
  unfolding EndRoll_def
proof (rule end_roll_loop_ends [OF assms(3)])
  show "loot_kept a lt s" using assms(1) by (simp add: loot_kept_def)
  have "rolls_for a s \<le> length (rs_rolls s)" by (simp add: rolls_for_def)
  then have "rolls_for a s * Suc (length (rs_rolls s)) \<le> length (rs_rolls s) * Suc (length (rs_rolls s))"
    by (rule mult_le_mono1)
  with assms(4) show "rolls_for a s * Suc (length (rs_rolls s)) + (length (rs_rolls s) - 0) \<le> n" by simp
qed (use assms(2) in simp_all)

section \<open>A sample group\<close>

text \<open>Three players who are online and near; an object with one item and one quest item.\<close>

definition sample_env :: loot_env where
  "sample_env = \<lparr>le_player = (\<lambda>g. g \<in> {1, 2, 3}), le_session = (\<lambda>g. g \<in> {1, 2, 3}),
     le_proto = (\<lambda>k. Some \<lparr>ip_Quality = 3, ip_DisenchantID = 0, ip_RequiredDisenchantSkill = 0, ip_Flags2 = 0\<rparr>),
     le_allowed = (\<lambda>_ _. True), le_near = (\<lambda>_. True), le_pass = (\<lambda>_. False), le_can_roll = (\<lambda>_ _. True),
     le_can_store = (\<lambda>_ _ _. 0), le_map = 571\<rparr>"

definition sample_item :: "u32 \<Rightarrow> loot_item" where
  "sample_item k = \<lparr>li_itemid = k, li_randomSuffix = 0, li_randomPropertyId = 0, li_allowed = [], li_count = 1,
     li_is_looted = False, li_is_blocked = False, li_freeforall = False, li_is_underthreshold = False,
     li_follow_loot_rules = True\<rparr>"

definition sample_loot :: loot where
  "sample_loot = \<lparr>lt_items = [sample_item 4000], lt_quest_items = [sample_item 4001], lt_unlootedCount = 2,
     lt_PlayersLooting = [(1, ())]\<rparr>"

definition sample_rolls :: "roll list \<Rightarrow> roll_state" where
  "sample_rolls rs = \<lparr>rs_rolls = rs, rs_loots = [9 \<mapsto> sample_loot], rs_dice = (\<lambda>k. if k = 1 then 90 else 10),
     rs_thrown = 0, rs_nextItem = 50, rs_out = []\<rparr>"

definition sample_roll :: "u64 \<Rightarrow> (u64, RollVote) smap \<Rightarrow> u8 \<Rightarrow> u8 \<Rightarrow> u8 \<Rightarrow> roll" where
  "sample_roll guid votes need greed pass = (new_roll guid (sample_item 4000))
     \<lparr>r_loot := Some 9, r_playerVote := votes, r_totalNeed := need, r_totalGreed := greed, r_totalPass := pass,
       r_totalPlayersRolling := of_nat (length votes)\<rparr>"

lemmas sample_defs = sample_env_def sample_item_def sample_loot_def sample_rolls_def sample_roll_def new_roll_def

lemma need_roll_winner_witness:
  "\<exists>s' es. CountTheRoll sample_env 0 (sample_rolls [sample_roll 70 [(1, NEED), (2, GREED), (3, NEED)] 2 1 0]) = Inr s'
     \<and> rs_rolls s' = [] \<and> rs_out s' = es \<and> receivers_of es = [3]"
proof -
  let ?r = "sample_roll 70 [(1, NEED), (2, GREED), (3, NEED)] 2 1 0"
  have n: "needers ?r = [1, 3]" by (simp add: needers_def sample_defs)
  have l: "r_loot ?r = Some 9" "rs_loots (sample_rolls [?r]) 9 = Some sample_loot"
    "roll_item sample_loot (r_itemSlot ?r) = Inr (sample_item 4000)" "r_totalNeed ?r > 0" "needers ?r \<noteq> []"
    by (simp_all add: sample_defs roll_item_def needers_def)
  have "0 < length (rs_rolls (sample_rolls [?r]))" "?r = rs_rolls (sample_rolls [?r]) ! 0"
    "\<And>k. rs_dice (sample_rolls [?r]) k \<noteq> 0" by (simp_all add: sample_rolls_def)
  from need_roll_winner [OF this(1,2) l this(3), of sample_env]
  obtain j s' es where j: "first_highest (dice_from (sample_rolls [?r])) (length (needers ?r)) j"
    and c: "CountTheRoll sample_env 0 (sample_rolls [?r]) = Inr s'" "rs_rolls s' = list_erase 0 (rs_rolls (sample_rolls [?r]))"
      "rs_out s' = rs_out (sample_rolls [?r]) @ es"
      "receivers_of es = (if le_player sample_env (needers ?r ! j) \<and> le_session sample_env (needers ?r ! j)
         \<and> le_can_store sample_env (needers ?r ! j) (r_itemid ?r) (li_count (sample_item 4000)) = 0 then [needers ?r ! j] else [])"
    by blast
  have "j = 1" using j by (auto simp: first_highest_def n dice_from_def sample_rolls_def less_Suc_eq_0_disj)
  with c show ?thesis by (simp add: n sample_env_def sample_rolls_def list_erase_def)
qed

lemma roll_counters_witness:
  "\<exists>s. GroupLoot sample_env 2 0 [1, 2, 3] 9 (sample_rolls []) = Inr s \<and> rs_rolls s \<noteq> []
     \<and> unat (r_totalPlayersRolling (hd (rs_rolls s))) = 3 \<and> votes_cast (hd (rs_rolls s)) = 0"
proof -
  have "\<exists>s. GroupLoot sample_env 2 0 [1, 2, 3] 9 (sample_rolls []) = Inr s \<and> rs_rolls s \<noteq> []
      \<and> r_playerVote (hd (rs_rolls s)) = [(1, NOT_EMITED_YET), (2, NOT_EMITED_YET), (3, NOT_EMITED_YET)]"
    by (simp add: sample_defs GroupLoot_def group_item_def group_quest_item_def fresh_item_guid_def push_roll_def
        upd_loot_def Let_def sm_put_def rs_emit_def set_loot_def SendLootStartRoll_def allow_disenchant_def)
  then obtain s where s: "GroupLoot sample_env 2 0 [1, 2, 3] 9 (sample_rolls []) = Inr s" "rs_rolls s \<noteq> []"
    "r_playerVote (hd (rs_rolls s)) = [(1, NOT_EMITED_YET), (2, NOT_EMITED_YET), (3, NOT_EMITED_YET)]" by blast
  have "loot_step (sample_rolls []) {} s" by (rule StartGroup [OF _ s(1)]) (simp add: party_def)
  from loot_life.Next [OF loot_life.Begin this] have "loot_life (sample_rolls []) {} s" by simp
  from roll_counters [OF _ this, of "hd (rs_rolls s)"] s show ?thesis
    by (simp add: sample_rolls_def votes_for_def votes_cast_def)
qed

lemma first_vote_counts_witness:
  "\<exists>s1. CountRollVote sample_env 1 70 ROLL_NEED (sample_rolls [sample_roll 70 [(1, NOT_EMITED_YET), (2, PASS)] 0 0 1])
     = CountTheRoll sample_env 0 s1
     \<and> rs_rolls s1 = [voted 1 ROLL_NEED (sample_roll 70 [(1, NOT_EMITED_YET), (2, PASS)] 0 0 1)]"
proof -
  let ?r = "sample_roll 70 [(1, NOT_EMITED_YET), (2, PASS)] 0 0 1"
  have ok: "roll_ok ?r" by (simp add: roll_ok_def sample_defs sm_wf_def votes_for_def)
  have get: "GetRoll 70 (sample_rolls [?r]) = Some 0" by (simp add: GetRoll_def roll_isValid_def sample_defs)
  have pv: "\<forall>k v. sm_find (r_playerVote (voted 1 ROLL_NEED ?r)) k = Some v \<longrightarrow> v \<noteq> NOT_EMITED_YET"
    by (auto simp: voted_def sm_put_def sample_defs roll_codes sm_find_def split: if_splits)
  have "ROLL_NEED < MAX_ROLL_TYPE" by (simp add: roll_codes)
  from first_vote_counts [OF get _ this, of 1 9 sample_loot 1 sample_env] ok pv show ?thesis
    by (simp add: sample_rolls_def) (auto simp: sample_defs sm_find_def loot_of_def)
qed


lemma leaving_never_resolves_witness:
  "leave_rolls sample_env 2 1 0 (sample_rolls [sample_roll 70 [(1, NEED), (2, NOT_EMITED_YET)] 1 0 0])
     = Inr (sample_rolls [sample_roll 70 [(1, NEED)] 1 0 0])"
proof -
  let ?s = "sample_rolls [sample_roll 70 [(1, NEED), (2, NOT_EMITED_YET)] 1 0 0]"
  have "without_vote 2 (sample_roll 70 [(1, NEED), (2, NOT_EMITED_YET)] 1 0 0) = sample_roll 70 [(1, NEED)] 1 0 0"
    by (simp add: without_vote_def sm_find_def withdraw_def Let_def sm_erase_def sample_defs)
  then have "?s\<lparr>rs_rolls := map (without_vote 2) (rs_rolls ?s)\<rparr> = sample_rolls [sample_roll 70 [(1, NEED)] 1 0 0]"
    by (simp add: sample_rolls_def)
  moreover have "distinct (map r_itemGUID (rs_rolls ?s))" "length (rs_rolls ?s) = 1" by (simp_all add: sample_rolls_def)
  ultimately show ?thesis using leaving_never_resolves [of ?s sample_env 2] by (simp only:)
qed

lemma end_roll_resolves_all_witness:
  "\<exists>s'. EndRoll 9 sample_env 9 (sample_rolls [sample_roll 70 [(1, NEED), (2, NOT_EMITED_YET)] 1 0 0,
      sample_roll 71 [(1, PASS), (2, NOT_EMITED_YET)] 0 0 1]) = Some (Inr s') \<and> rs_rolls s' = []"
  using end_roll_resolves_all [of "sample_rolls [sample_roll 70 [(1, NEED), (2, NOT_EMITED_YET)] 1 0 0,
      sample_roll 71 [(1, PASS), (2, NOT_EMITED_YET)] 0 0 1]" 9 sample_loot sample_env 9]
  by (simp add: sample_defs slot_ok_def)

end
