(* ===== verification/Group_Mgr.thy ===== *)
theory Group_Mgr
  imports Base
begin

text \<open>
  The ids of the group manager, \<open>src/src/server/game/Groups/GroupMgr.cpp\<close>: the group guids,
  which count up, and the storage ids of the table \<open>groups\<close>, which are reused. A group is named
  by its address, a number; \<open>None\<close> in the store is a null pointer.
\<close>

record group_mgr =
  gm_nextGroupId :: u32
  gm_nextDbStoreId :: u32
  gm_dbStore :: "nat option list"
  gm_store :: "u32 \<Rightarrow> nat option"

datatype mgr_error = StopNow | StoreOutOfRange

definition new_group_mgr :: group_mgr where
  "new_group_mgr = \<lparr>gm_nextGroupId = 1, gm_nextDbStoreId = 1, gm_dbStore = [], gm_store = Map.empty\<rparr>"

definition store_free :: "nat option list \<Rightarrow> u32 \<Rightarrow> bool" where
  "store_free st i \<longleftrightarrow> (unat i < length st \<and> st ! unat i = None) \<or> unat i \<ge> length st"

text \<open>The loop of \<open>GenerateNewGroupDbStoreId\<close>: the next free id, if there is one below the limit.\<close>

function next_store_id :: "nat option list \<Rightarrow> u32 \<Rightarrow> u32 option" where
  "next_store_id st i =
     (if i < 0xFFFFFFFF then (if store_free st i then Some i else next_store_id st (i + 1)) else None)"
  by pat_completeness auto
termination
proof (relation "measure (\<lambda>(st, i). 0xFFFFFFFF - unat i)")
  fix st :: "nat option list" and i :: u32
  assume "i < 0xFFFFFFFF"
  then have i: "unat i < 0xFFFFFFFF" by (simp add: word_less_nat_alt)
  then have "unat (i + 1) = Suc (unat i)" by (simp add: unat_word_ariths)
  with i show "((st, i + 1), (st, i)) \<in> measure (\<lambda>(st, i). 0xFFFFFFFF - unat i)" by simp
qed simp

declare next_store_id.simps [simp del]

definition GenerateNewGroupDbStoreId :: "group_mgr \<Rightarrow> mgr_error + u32 \<times> group_mgr" where
  "GenerateNewGroupDbStoreId m =
     (let newStorageId = gm_nextDbStoreId m;
          next = newStorageId + 1;
          next' = (case next_store_id (gm_dbStore m) next of None \<Rightarrow> next | Some i \<Rightarrow> i)
      in if newStorageId = next' then Inl StopNow
         else Inr (newStorageId, m\<lparr>gm_nextDbStoreId := next'\<rparr>))"

definition RegisterGroupDbStoreId :: "u32 \<Rightarrow> nat \<Rightarrow> group_mgr \<Rightarrow> group_mgr" where
  "RegisterGroupDbStoreId storageId g m =
     (let st = gm_dbStore m;
          st' = (if unat storageId \<ge> length st then st @ replicate (unat (storageId + 1) - length st) None else st)
      in m\<lparr>gm_dbStore := st'[unat storageId := Some g]\<rparr>)"

definition FreeGroupDbStoreId :: "u32 \<Rightarrow> group_mgr \<Rightarrow> mgr_error + group_mgr" where
  "FreeGroupDbStoreId storageId m =
     (let m1 = (if storageId < gm_nextDbStoreId m then m\<lparr>gm_nextDbStoreId := storageId\<rparr> else m) in
      if unat storageId < length (gm_dbStore m1)
      then Inr (m1\<lparr>gm_dbStore := (gm_dbStore m1)[unat storageId := None]\<rparr>)
      else Inl StoreOutOfRange)"

definition GetGroupByDbStoreId :: "u32 \<Rightarrow> group_mgr \<Rightarrow> nat option" where
  "GetGroupByDbStoreId storageId m =
     (if unat storageId < length (gm_dbStore m) then gm_dbStore m ! unat storageId else None)"

definition GenerateGroupId :: "group_mgr \<Rightarrow> mgr_error + u32 \<times> group_mgr" where
  "GenerateGroupId m =
     (if gm_nextGroupId m \<ge> 0xFFFFFFFE then Inl StopNow
      else Inr (gm_nextGroupId m, m\<lparr>gm_nextGroupId := gm_nextGroupId m + 1\<rparr>))"

definition GetGroupByGUID :: "u32 \<Rightarrow> group_mgr \<Rightarrow> nat option" where
  "GetGroupByGUID groupId m = gm_store m groupId"

definition AddGroup :: "u32 \<Rightarrow> nat \<Rightarrow> group_mgr \<Rightarrow> group_mgr" where
  "AddGroup lowguid g m = m\<lparr>gm_store := (gm_store m)(lowguid \<mapsto> g)\<rparr>"

definition RemoveGroup :: "u32 \<Rightarrow> group_mgr \<Rightarrow> group_mgr" where
  "RemoveGroup lowguid m = m\<lparr>gm_store := (gm_store m)(lowguid := None)\<rparr>"

text \<open>The loop of \<open>LoadGroups\<close> over the rows of \<open>groups\<close>: storage ids and the new groups.\<close>

fun load_groups :: "(u32 \<times> nat) list \<Rightarrow> group_mgr \<Rightarrow> mgr_error + group_mgr" where
  "load_groups [] m = Inr m"
| "load_groups ((storageId, g) # rows) m =
     sbind (GenerateGroupId m) (\<lambda>(lowguid, m1).
       let m2 = RegisterGroupDbStoreId storageId g (AddGroup lowguid g m1)
       in load_groups rows
            (if storageId = gm_nextDbStoreId m2 then m2\<lparr>gm_nextDbStoreId := gm_nextDbStoreId m2 + 1\<rparr> else m2))"

section \<open>A fresh id is free\<close>

text \<open>
  The id handed out next is always free. A store never has the \<open>2^32 - 1\<close> entries for which the
  counter would wrap.
\<close>

definition store_ok :: "group_mgr \<Rightarrow> bool" where
  "store_ok m \<longleftrightarrow> store_free (gm_dbStore m) (gm_nextDbStoreId m) \<and> length (gm_dbStore m) < 0xFFFFFFFD
     \<and> unat (gm_nextDbStoreId m) \<le> Suc (length (gm_dbStore m))"

lemma unat_next: "unat (i :: u32) < 0xFFFFFFFF \<Longrightarrow> unat (i + 1) = Suc (unat i)"
  by (simp add: unat_word_ariths)

lemma next_store_id_free:
  assumes "length st < 0xFFFFFFFD" "unat i \<le> Suc (Suc (length st))" "unat i < 0xFFFFFFFF"
  shows "\<exists>j. next_store_id st i = Some j \<and> store_free st j \<and> i \<le> j \<and> unat j \<le> max (unat i) (length st)"
  using assms
proof (induction st i rule: next_store_id.induct)
  case (1 st i)
  have lt: "i < 0xFFFFFFFF" using 1(4) by (simp add: word_less_nat_alt)
  show ?case
  proof (cases "store_free st i")
    case True
    with lt show ?thesis by (simp add: next_store_id.simps [of st i])
  next
    case False
    then have i: "unat i < length st" by (auto simp: store_free_def)
    then have s: "unat (i + 1) = Suc (unat i)" using 1(2) by (intro unat_next) simp
    have "\<exists>j. next_store_id st (i + 1) = Some j \<and> store_free st j \<and> i + 1 \<le> j
        \<and> unat j \<le> max (unat (i + 1)) (length st)"
      using 1(2) i s by (intro 1(1) [OF lt False]) simp_all
    with lt False i s show ?thesis
      by (auto simp: next_store_id.simps [of st i] word_le_nat_alt)
  qed
qed

lemma store_free_update_none: "store_free st i \<Longrightarrow> store_free (st[k := None]) i"
  by (cases "unat i = k") (auto simp: store_free_def)

lemma register_store:
  assumes "unat k < 0xFFFFFFFF"
  shows "length (gm_dbStore (RegisterGroupDbStoreId k g m)) = max (length (gm_dbStore m)) (Suc (unat k))"
    "GetGroupByDbStoreId j (RegisterGroupDbStoreId k g m) = (if j = k then Some g else GetGroupByDbStoreId j m)"
proof -
  have s: "unat (k + 1) = Suc (unat k)" using assms by (rule unat_next)
  show "length (gm_dbStore (RegisterGroupDbStoreId k g m)) = max (length (gm_dbStore m)) (Suc (unat k))"
    by (simp add: RegisterGroupDbStoreId_def Let_def s)
  show "GetGroupByDbStoreId j (RegisterGroupDbStoreId k g m) = (if j = k then Some g else GetGroupByDbStoreId j m)"
  proof (cases "j = k")
    case False
    then have "unat k \<noteq> unat j" by (simp add: word_unat_eq_iff)
    with s False show ?thesis
      by (auto simp: RegisterGroupDbStoreId_def Let_def GetGroupByDbStoreId_def nth_append)
  qed (simp add: RegisterGroupDbStoreId_def Let_def GetGroupByDbStoreId_def s)
qed

lemma store_free_get: "store_free (gm_dbStore m) i \<longleftrightarrow> GetGroupByDbStoreId i m = None"
  by (auto simp: store_free_def GetGroupByDbStoreId_def)


lemma Generate_ok:
  assumes "store_ok m"
  shows "\<exists>i m1. GenerateNewGroupDbStoreId m = Inr (i, m1) \<and> i = gm_nextDbStoreId m
    \<and> GetGroupByDbStoreId i m = None \<and> gm_dbStore m1 = gm_dbStore m \<and> gm_nextDbStoreId m1 \<noteq> i
    \<and> store_free (gm_dbStore m) (gm_nextDbStoreId m1)
    \<and> unat (gm_nextDbStoreId m1) \<le> Suc (max (unat i) (length (gm_dbStore m)))"
proof -
  let ?i = "gm_nextDbStoreId m"
  have i: "unat (?i + 1) = Suc (unat ?i)" using assms by (intro unat_next) (simp add: store_ok_def)
  obtain j where j: "next_store_id (gm_dbStore m) (?i + 1) = Some j" "store_free (gm_dbStore m) j" "?i + 1 \<le> j"
      "unat j \<le> max (unat (?i + 1)) (length (gm_dbStore m))"
    using next_store_id_free [of "gm_dbStore m" "?i + 1"] assms i by (auto simp: store_ok_def)
  have "?i \<noteq> j" using j(3) i by (auto simp: word_le_nat_alt)
  with j i assms show ?thesis
    by (auto simp: GenerateNewGroupDbStoreId_def Let_def store_ok_def store_free_get)
qed

text \<open>Creating a group takes an id and registers it.\<close>

definition take_store_id :: "nat \<Rightarrow> group_mgr \<Rightarrow> mgr_error + u32 \<times> group_mgr" where
  "take_store_id g m = sbind (GenerateNewGroupDbStoreId m) (\<lambda>(i, m1). Inr (i, RegisterGroupDbStoreId i g m1))"

text \<open>
  What happens to the ids while the server runs: the groups are loaded in the order of their ids,
  then groups are created and disbanded.
\<close>

inductive ids_reachable :: "group_mgr \<Rightarrow> bool" where
  Loaded: "sorted_wrt (<) (0 # map fst rows) \<Longrightarrow> load_groups rows new_group_mgr = Inr m \<Longrightarrow>
    \<forall>k\<in>set (map fst rows). k < 0xFFFFFFFC \<Longrightarrow> ids_reachable m"
| Created: "ids_reachable m \<Longrightarrow> take_store_id g m = Inr (i, m') \<Longrightarrow> length (gm_dbStore m') < 0xFFFFFFFD \<Longrightarrow>
    ids_reachable m'"
| Disbanded: "ids_reachable m \<Longrightarrow> GetGroupByDbStoreId i m \<noteq> None \<Longrightarrow> FreeGroupDbStoreId i m = Inr m' \<Longrightarrow>
    ids_reachable m'"

lemma store_ok_take:
  assumes "store_ok m" "take_store_id g m = Inr (i, m')" "length (gm_dbStore m') < 0xFFFFFFFD"
  shows "store_ok m'"
proof -
  obtain m1 where m1: "GenerateNewGroupDbStoreId m = Inr (i, m1)" "gm_dbStore m1 = gm_dbStore m" "gm_nextDbStoreId m1 \<noteq> i"
      "store_free (gm_dbStore m) (gm_nextDbStoreId m1)" "i = gm_nextDbStoreId m" "m' = RegisterGroupDbStoreId i g m1"
      "unat (gm_nextDbStoreId m1) \<le> Suc (max (unat i) (length (gm_dbStore m)))"
    using Generate_ok [OF assms(1)] assms(2) by (auto simp: take_store_id_def)
  have lim: "unat i < 0xFFFFFFFF" using assms(1) m1(5) by (simp add: store_ok_def)
  have nx: "gm_nextDbStoreId m' = gm_nextDbStoreId m1" using m1(6) by (simp add: RegisterGroupDbStoreId_def Let_def)
  have "store_free (gm_dbStore m') (gm_nextDbStoreId m1)"
    unfolding store_free_get m1(6) register_store(2) [OF lim] using m1(2-4)
    by (simp add: store_free_get [of m1, symmetric])
  with m1(6,7) nx assms(3) register_store(1) [OF lim, of g m1] m1(2) show ?thesis
    by (auto simp: store_ok_def)
qed

lemma store_ok_free:
  assumes "store_ok m" "FreeGroupDbStoreId i m = Inr m'"
  shows "store_ok m'"
  using assms by (auto simp: FreeGroupDbStoreId_def Let_def store_ok_def store_free_update_none word_less_nat_alt
      split: if_splits) (auto simp: store_free_def)

text \<open>While the groups are loaded in ascending order, the counter is the first gap.\<close>

lemma load_step:
  fixes m :: group_mgr and k :: u32 and g :: nat
  assumes "store_ok m" "gm_nextDbStoreId m \<le> k" "length (gm_dbStore m) \<le> unat k" "k < 0xFFFFFFFC"
  defines "m2 \<equiv> RegisterGroupDbStoreId k g m"
  defines "m3 \<equiv> if k = gm_nextDbStoreId m2 then m2\<lparr>gm_nextDbStoreId := gm_nextDbStoreId m2 + 1\<rparr> else m2"
  shows "store_ok m3" "length (gm_dbStore m3) = Suc (unat k)" "unat (gm_nextDbStoreId m3) \<le> Suc (unat k)"
proof -
  have k: "unat k < 0xFFFFFFFC" using assms(4) by (simp add: word_less_nat_alt)
  then have lim: "unat k < 0xFFFFFFFF" by simp
  have len: "length (gm_dbStore m2) = Suc (unat k)" using register_store(1) [OF lim, of g m] assms(3) by (simp add: m2_def)
  have nx: "gm_nextDbStoreId m2 = gm_nextDbStoreId m" by (simp add: m2_def RegisterGroupDbStoreId_def Let_def)
  have ge: "unat (gm_nextDbStoreId m) \<le> unat k" using assms(2) by (simp add: word_le_nat_alt)
  show l3: "length (gm_dbStore m3) = Suc (unat k)" using len by (simp add: m3_def)
  show n3: "unat (gm_nextDbStoreId m3) \<le> Suc (unat k)" using ge nx unat_next [OF lim] by (auto simp: m3_def)
  have "store_free (gm_dbStore m3) (gm_nextDbStoreId m3)"
  proof (cases "k = gm_nextDbStoreId m")
    case True
    then show ?thesis using len nx unat_next [OF lim] by (simp add: m3_def store_free_def)
  next
    case False
    then have "GetGroupByDbStoreId (gm_nextDbStoreId m) m2 = None"
      using assms(1) by (auto simp: m2_def register_store(2) [OF lim] store_ok_def store_free_get)
    with False nx show ?thesis by (simp add: m3_def store_free_get)
  qed
  with l3 n3 k show "store_ok m3" by (simp add: store_ok_def)
qed

lemma store_ok_load:
  assumes "load_groups rows m = Inr m'" "sorted_wrt (<) (map fst rows)" "store_ok m"
    "\<forall>k\<in>set (map fst rows). gm_nextDbStoreId m \<le> k \<and> length (gm_dbStore m) \<le> unat k \<and> k < 0xFFFFFFFC"
  shows "store_ok m'"
  using assms
proof (induction rows m rule: load_groups.induct)
  case (2 k g rows m)
  obtain lg m1 where g: "GenerateGroupId m = Inr (lg, m1)" "gm_dbStore m1 = gm_dbStore m" "gm_nextDbStoreId m1 = gm_nextDbStoreId m"
    using 2(2) by (cases "GenerateGroupId m") (auto simp: GenerateGroupId_def split: if_splits)
  let ?m0 = "AddGroup lg g m1"
  let ?m2 = "RegisterGroupDbStoreId k g ?m0"
  let ?m3 = "if k = gm_nextDbStoreId ?m2 then ?m2\<lparr>gm_nextDbStoreId := gm_nextDbStoreId ?m2 + 1\<rparr> else ?m2"
  have m0: "store_ok ?m0" using 2(4) g by (simp add: store_ok_def AddGroup_def)
  have k: "gm_nextDbStoreId ?m0 \<le> k" "length (gm_dbStore ?m0) \<le> unat k" "k < 0xFFFFFFFC"
    using 2(5) g by (simp_all add: AddGroup_def)
  note st = load_step [OF m0 k, where g = g]
  have rest: "gm_nextDbStoreId ?m3 \<le> j \<and> length (gm_dbStore ?m3) \<le> unat j \<and> j < 0xFFFFFFFC"
    if "j \<in> set (map fst rows)" for j
  proof -
    have "k < j" using 2(3) that by auto
    then have lt: "Suc (unat k) \<le> unat j" by (simp add: word_less_nat_alt)
    have j: "j < 0xFFFFFFFC" using 2(5) that by auto
    show ?thesis
      unfolding word_le_nat_alt [of "gm_nextDbStoreId ?m3"] st(2)
      by (intro conjI order.trans [OF st(3) lt] lt j)
  qed
  show ?case
  proof (rule 2(1) [OF g(1) refl refl])
    show "load_groups rows ?m3 = Inr m'" using 2(2) g(1) by (simp add: Let_def)
    show "store_ok ?m3" by (rule st(1))
  qed (use 2(3) rest in auto)
qed simp

lemma ids_reachable_ok: "ids_reachable m \<Longrightarrow> store_ok m"
proof (induction rule: ids_reachable.induct)
  case (Loaded rows m)
  have pos: "0 < k \<Longrightarrow> 1 \<le> k" for k :: u32 by (simp add: word_less_nat_alt word_le_nat_alt)
  have n: "store_ok new_group_mgr" by (simp add: store_ok_def new_group_mgr_def store_free_def)
  have "\<forall>k\<in>set (map fst rows). gm_nextDbStoreId new_group_mgr \<le> k \<and> length (gm_dbStore new_group_mgr) \<le> unat k \<and> k < 0xFFFFFFFC"
    using Loaded(1,3) pos by (auto simp: new_group_mgr_def)
  with Loaded n show ?case by (intro store_ok_load [OF Loaded(2)]) simp_all
qed (auto intro: store_ok_take store_ok_free)

text \<open>
  C26: whatever groups were loaded, created and disbanded before, creating a group gets a storage
  id that no living group has, and registering it leaves every other group where it was.
\<close>

theorem group_store_ids_fresh:
  assumes "ids_reachable m"
  shows "\<exists>i m'. take_store_id g m = Inr (i, m') \<and> GetGroupByDbStoreId i m = None
    \<and> (\<forall>j. GetGroupByDbStoreId j m' = (if j = i then Some g else GetGroupByDbStoreId j m))"
proof -
  have ok: "store_ok m" by (rule ids_reachable_ok [OF assms])
  obtain i m1 where g: "GenerateNewGroupDbStoreId m = Inr (i, m1)" "i = gm_nextDbStoreId m"
      "GetGroupByDbStoreId i m = None" "gm_dbStore m1 = gm_dbStore m"
    using Generate_ok [OF ok] by blast
  have "unat i < 0xFFFFFFFF" using ok g(2) by (simp add: store_ok_def)
  from register_store(2) [OF this, of _ g m1] g show ?thesis
    by (simp add: take_store_id_def GetGroupByDbStoreId_def)
qed

lemma group_store_ids_fresh_witness:
  "\<exists>i m'. take_store_id 7 (case load_groups [(1, 5), (3, 6)] new_group_mgr of Inr m \<Rightarrow> m) = Inr (i, m') \<and> i = 2"
proof -
  have "case load_groups [(1, 5), (3, 6)] new_group_mgr of Inl err \<Rightarrow> False | Inr m \<Rightarrow> gm_nextDbStoreId m = 2"
    by code_simp
  then obtain m where m: "load_groups [(1, 5), (3, 6)] new_group_mgr = Inr m" "gm_nextDbStoreId m = 2"
    by (auto split: sum.splits)
  have "sorted_wrt (<) (0 # map fst [(1 :: u32, 5 :: nat), (3, 6)])" by simp
  from Loaded [OF this m(1)] have "ids_reachable m" by simp
  from group_store_ids_fresh [OF this, of 7] m show ?thesis
    by (auto simp: take_store_id_def GenerateNewGroupDbStoreId_def sbind_Inr Let_def split: if_splits option.splits)
qed

end
