(* ===== verification/Group.thy ===== *)
theory Group
  imports Group_Loot Group_Mgr
begin

text \<open>
  The groups of players, \<open>src/src/server/game/Groups/Group.cpp\<close>, with the references by which a
  player points to them. Groups are objects named by an address; the members who are online are
  the references linked into a group's list, the newest first. What the operations need to know
  about players, instances and the dungeon finder is the environment.
\<close>

section \<open>Data\<close>

definition MAX_GROUP_SIZE :: nat where "MAX_GROUP_SIZE = 5"
definition MAX_RAID_SIZE :: nat where "MAX_RAID_SIZE = 40"
definition MAX_RAID_SUBGROUPS :: nat where "MAX_RAID_SUBGROUPS = MAX_RAID_SIZE div MAX_GROUP_SIZE"
definition TARGET_ICON_COUNT :: nat where "TARGET_ICON_COUNT = 8"

definition MEMBER_FLAG_ASSISTANT :: u8 where "MEMBER_FLAG_ASSISTANT = 0x01"
definition MEMBER_FLAG_MAIN_TANK :: u8 where "MEMBER_FLAG_MAIN_TANK = 0x02"
definition MEMBER_FLAG_MAIN_ASSIST :: u8 where "MEMBER_FLAG_MAIN_ASSIST = 0x04"

definition GROUP_TYPE_NORMAL :: u8 where "GROUP_TYPE_NORMAL = 0x00"
definition GROUP_TYPE_BG :: u8 where "GROUP_TYPE_BG = 0x01"
definition GROUP_TYPE_RAID :: u8 where "GROUP_TYPE_RAID = 0x02"
definition GROUP_TYPE_BGRAID :: u8 where "GROUP_TYPE_BGRAID = GROUP_TYPE_BG OR GROUP_TYPE_RAID"
definition GROUP_TYPE_LFG_RESTRICTED :: u8 where "GROUP_TYPE_LFG_RESTRICTED = 0x04"
definition GROUP_TYPE_LFG :: u8 where "GROUP_TYPE_LFG = 0x08"

definition FREE_FOR_ALL :: u8 where "FREE_FOR_ALL = 0"
definition MASTER_LOOT :: u8 where "MASTER_LOOT = 2"
definition GROUP_LOOT :: u8 where "GROUP_LOOT = 3"
definition NEED_BEFORE_GREED :: u8 where "NEED_BEFORE_GREED = 4"
definition ITEM_QUALITY_UNCOMMON :: u8 where "ITEM_QUALITY_UNCOMMON = 2"
definition RAID_DIFFICULTY_10MAN_HEROIC :: u8 where "RAID_DIFFICULTY_10MAN_HEROIC = 2"
definition LEVELREQUIREMENT_HEROIC :: u8 where "LEVELREQUIREMENT_HEROIC = 70"

definition MEMBER_STATUS_OFFLINE :: u8 where "MEMBER_STATUS_OFFLINE = 0"
definition MEMBER_STATUS_ONLINE :: u8 where "MEMBER_STATUS_ONLINE = 1"
definition MEMBER_STATUS_PVP :: u8 where "MEMBER_STATUS_PVP = 2"

definition SMSG_GROUP_UNINVITE :: u16 where "SMSG_GROUP_UNINVITE = 0x077"
definition SMSG_GROUP_SET_LEADER :: u16 where "SMSG_GROUP_SET_LEADER = 0x079"
definition SMSG_GROUP_DESTROYED :: u16 where "SMSG_GROUP_DESTROYED = 0x07C"
definition SMSG_GROUP_LIST :: u16 where "SMSG_GROUP_LIST = 0x07D"
definition MSG_RAID_TARGET_UPDATE :: u16 where "MSG_RAID_TARGET_UPDATE = 0x321"
definition SMSG_LOOT_LIST :: u16 where "SMSG_LOOT_LIST = 0x3F9"
definition SMSG_LOOT_MASTER_LIST :: u16 where "SMSG_LOOT_MASTER_LIST = 0x2A4"
definition MSG_RAID_READY_CHECK_CONFIRM :: u16 where "MSG_RAID_READY_CHECK_CONFIRM = 0x3AE"

datatype RemoveMethod = REMOVE_DEFAULT | REMOVE_KICK | REMOVE_LEAVE

record member_slot =
  ms_guid :: u64
  ms_name :: string
  ms_group :: u8
  ms_flags :: u8
  ms_roles :: u8

text \<open>A player holds two references, to the group the player plays in and to the original one.\<close>

datatype ref_kind = MainRef | OriginalRef

record group =
  g_memberSlots :: "member_slot list"
  g_members :: "(u64 \<times> ref_kind) list"
  g_invitees :: "u64 list"
  g_leaderGuid :: u64
  g_leaderName :: string
  g_groupType :: u8
  g_dungeonDifficulty :: u8
  g_raidDifficulty :: u8
  g_bgGroup :: "nat option"
  g_targetIcons :: "u64 list"
  g_lootMethod :: u8
  g_lootThreshold :: u8
  g_looterGuid :: u64
  g_rolls :: "roll list"
  g_subGroupsCounts :: "u8 list option"
  g_guid :: u64
  g_counter :: u32
  g_maxEnchantingLevel :: u32
  g_dbStoreId :: u32

record gplayer =
  p_group :: "nat option"
  p_subGroup :: u8
  p_original :: "nat option"
  p_originalSub :: u8
  p_invite :: "nat option"

text \<open>\<open>ge_online\<close> is \<open>ObjectAccessor::FindPlayer\<close>: the player is found by guid.\<close>

record group_env =
  ge_online :: "u64 \<Rightarrow> bool"
  ge_session :: "u64 \<Rightarrow> bool"
  ge_in_world :: "u64 \<Rightarrow> bool"
  ge_name :: "u64 \<Rightarrow> string"
  ge_enchanting :: "u64 \<Rightarrow> u32"
  ge_level :: "u64 \<Rightarrow> u8"
  ge_dungeonDifficulty :: "u64 \<Rightarrow> u8"
  ge_raidDifficulty :: "u64 \<Rightarrow> u8"
  ge_near :: "u64 \<Rightarrow> bool"
  ge_bound_here :: "u64 \<Rightarrow> bool"
  ge_to_homebind :: "u64 \<Rightarrow> bool"
  ge_alive :: "u64 \<Rightarrow> bool"
  ge_map :: "u64 \<Rightarrow> u32"
  ge_lfg_map :: "u64 \<Rightarrow> u32 option"
  ge_lfg_finished :: "u64 \<Rightarrow> bool"
  ge_lfg_dungeon :: "u64 \<Rightarrow> u32"
  ge_kicks_left :: "u64 \<Rightarrow> nat"
  ge_votes_needed :: "u64 \<Rightarrow> nat"
  ge_lfg_boot :: "u64 \<Rightarrow> bool"
  ge_in_combat :: "u64 \<Rightarrow> bool"
  ge_in_battleground :: "u64 \<Rightarrow> bool"
  ge_loot :: loot_env

datatype group_stmt =
    InsGroup u32 u32 u8 u32 u8 "u32 list" u8 u8 u8
  | InsGroupMember u32 u32 u8 u8 u8
  | DelGroupMember u32
  | DelPermBinding u32 u32
  | UpdGroupLeader u32 u32
  | UpdGroupType u8 u32
  | UpdMemberSubgroup u8 u32
  | UpdMemberFlag u8 u32
  | UpdGroupDifficulty u8 u32
  | UpdGroupRaidDifficulty u8 u32
  | DelGroup u32
  | DelGroupMemberAll u32
  | DelLfgData u32

datatype group_event =
    GSend u64 packet
  | GSql group_stmt
  | GAddHook u64 | GRemoveHook u64 RemoveMethod u64 | GLeaderHook u64 u64 | GDisbandHook | GInviteHook u64
  | GForceUpdate u64 | GQuestObjects u64 | GVisibility u64 | GUpdateFull u64 | GOutOfRange u64 | GPartyFields u64
  | GInstanceValid u64 bool | GResetInstances u64 bool | GGroupResetInstances bool | GConvertInstances u64 bool
  | GDropPermBinds
  | GDungeonDifficulty u64 u8 | GRaidDifficulty u64 u8
  | GBgRaidCleared nat

record gworld =
  gw_groups :: "nat \<Rightarrow> group option"
  gw_players :: "u64 \<Rightarrow> gplayer"
  gw_fresh :: nat
  gw_mgr :: group_mgr
  gw_rolls :: roll_state
  gw_out :: "group_event list"

datatype group_error =
    DeadGroup | SubGroupOutOfRange | AssertFailed | MgrError mgr_error | LootError loot_error

definition gemit :: "group_event list \<Rightarrow> gworld \<Rightarrow> gworld" where
  "gemit es w = w\<lparr>gw_out := gw_out w @ es\<rparr>"

definition put_group :: "nat \<Rightarrow> group \<Rightarrow> gworld \<Rightarrow> gworld" where
  "put_group gid g w = w\<lparr>gw_groups := (gw_groups w)(gid := Some g)\<rparr>"

definition upd_group :: "nat \<Rightarrow> (group \<Rightarrow> group) \<Rightarrow> gworld \<Rightarrow> gworld" where
  "upd_group gid f w = (case gw_groups w gid of None \<Rightarrow> w | Some g \<Rightarrow> put_group gid (f g) w)"

definition upd_player :: "u64 \<Rightarrow> (gplayer \<Rightarrow> gplayer) \<Rightarrow> gworld \<Rightarrow> gworld" where
  "upd_player p f w = w\<lparr>gw_players := (gw_players w)(p := f (gw_players w p))\<rparr>"

definition the_group :: "nat \<Rightarrow> gworld \<Rightarrow> group_error + group" where
  "the_group gid w = (case gw_groups w gid of None \<Rightarrow> Inl DeadGroup | Some g \<Rightarrow> Inr g)"

section \<open>Queries\<close>

definition isLFGGroup :: "group \<Rightarrow> bool" where "isLFGGroup g = has_flag (g_groupType g) GROUP_TYPE_LFG"
definition isRaidGroup :: "group \<Rightarrow> bool" where "isRaidGroup g = has_flag (g_groupType g) GROUP_TYPE_RAID"
definition isBGGroup :: "group \<Rightarrow> bool" where "isBGGroup g \<longleftrightarrow> g_bgGroup g \<noteq> None"

definition GetMembersCount :: "group \<Rightarrow> nat" where
  "GetMembersCount g = length (g_memberSlots g)"

definition IsCreated :: "group \<Rightarrow> bool" where
  "IsCreated g \<longleftrightarrow> GetMembersCount g > 0"

definition IsFull :: "group \<Rightarrow> bool" where
  "IsFull g \<longleftrightarrow> (if isRaidGroup g then GetMembersCount g \<ge> MAX_RAID_SIZE else GetMembersCount g \<ge> MAX_GROUP_SIZE)"

definition getMemberSlot :: "u64 \<Rightarrow> group \<Rightarrow> member_slot option" where
  "getMemberSlot guid g = List.find (\<lambda>m. ms_guid m = guid) (g_memberSlots g)"

definition IsMember :: "u64 \<Rightarrow> group \<Rightarrow> bool" where
  "IsMember guid g \<longleftrightarrow> getMemberSlot guid g \<noteq> None"

definition IsLeader :: "u64 \<Rightarrow> group \<Rightarrow> bool" where
  "IsLeader guid g \<longleftrightarrow> g_leaderGuid g = guid"

definition IsAssistant :: "u64 \<Rightarrow> group \<Rightarrow> bool" where
  "IsAssistant guid g = (case getMemberSlot guid g of None \<Rightarrow> False | Some m \<Rightarrow> has_flag (ms_flags m) MEMBER_FLAG_ASSISTANT)"

definition GetMemberGUID :: "string \<Rightarrow> group \<Rightarrow> u64" where
  "GetMemberGUID name g = (case List.find (\<lambda>m. ms_name m = name) (g_memberSlots g) of None \<Rightarrow> 0 | Some m \<Rightarrow> ms_guid m)"

definition GetMemberGroup :: "u64 \<Rightarrow> group \<Rightarrow> u8" where
  "GetMemberGroup guid g = (case getMemberSlot guid g of None \<Rightarrow> of_nat (MAX_RAID_SUBGROUPS + 1) | Some m \<Rightarrow> ms_group m)"

definition SameSubGroup :: "u64 \<Rightarrow> u64 \<Rightarrow> group \<Rightarrow> bool" where
  "SameSubGroup guid1 guid2 g = (case getMemberSlot guid2 g of None \<Rightarrow> False | Some m2 \<Rightarrow>
     (case getMemberSlot guid1 g of None \<Rightarrow> False | Some m1 \<Rightarrow> ms_group m1 = ms_group m2))"

definition HasFreeSlotSubGroup :: "u8 \<Rightarrow> group \<Rightarrow> group_error + bool" where
  "HasFreeSlotSubGroup sg g = (case g_subGroupsCounts g of None \<Rightarrow> Inr False
     | Some cs \<Rightarrow> if unat sg < length cs then Inr (unat (cs ! unat sg) < MAX_GROUP_SIZE) else Inl SubGroupOutOfRange)"

definition GetInvited :: "u64 \<Rightarrow> group \<Rightarrow> u64 option" where
  "GetInvited guid g = (if guid \<in> set (g_invitees g) then Some guid else None)"

definition isRollLootActive :: "group \<Rightarrow> bool" where
  "isRollLootActive g \<longleftrightarrow> g_rolls g \<noteq> []"

section \<open>The slots\<close>

text \<open>A change of the first slot with the guid, which \<open>_getMemberWSlot\<close> returns.\<close>

fun upd_slot :: "u64 \<Rightarrow> (member_slot \<Rightarrow> member_slot) \<Rightarrow> member_slot list \<Rightarrow> member_slot list" where
  "upd_slot guid f [] = []"
| "upd_slot guid f (m # ms) = (if ms_guid m = guid then f m # ms else m # upd_slot guid f ms)"

fun erase_slot :: "u64 \<Rightarrow> member_slot list \<Rightarrow> member_slot list" where
  "erase_slot guid [] = []"
| "erase_slot guid (m # ms) = (if ms_guid m = guid then ms else m # erase_slot guid ms)"

definition bump :: "u8 \<Rightarrow> u8 \<Rightarrow> u8 list \<Rightarrow> group_error + u8 list" where
  "bump d sg cs = (if unat sg < length cs then Inr (cs[unat sg := cs ! unat sg + d]) else Inl SubGroupOutOfRange)"

definition count_by :: "u8 \<Rightarrow> u8 \<Rightarrow> group \<Rightarrow> group_error + group" where
  "count_by d sg g = (case g_subGroupsCounts g of None \<Rightarrow> Inr g
     | Some cs \<Rightarrow> sbind (bump d sg cs) (\<lambda>cs'. Inr (g\<lparr>g_subGroupsCounts := Some cs'\<rparr>)))"

definition SubGroupCounterIncrease :: "u8 \<Rightarrow> group \<Rightarrow> group_error + group" where
  "SubGroupCounterIncrease = count_by 1"

definition SubGroupCounterDecrease :: "u8 \<Rightarrow> group \<Rightarrow> group_error + group" where
  "SubGroupCounterDecrease = count_by (- 1)"

fun count_slots :: "member_slot list \<Rightarrow> u8 list \<Rightarrow> group_error + u8 list" where
  "count_slots [] cs = Inr cs"
| "count_slots (m # ms) cs = sbind (bump 1 (ms_group m) cs) (count_slots ms)"

definition initRaidSubGroupsCounter :: "group \<Rightarrow> group_error + group" where
  "initRaidSubGroupsCounter g =
     sbind (count_slots (g_memberSlots g) (replicate MAX_RAID_SUBGROUPS 0))
       (\<lambda>cs. Inr (g\<lparr>g_subGroupsCounts := Some cs\<rparr>))"

text \<open>The first raid group with a free place.\<close>

fun first_free :: "u8 list \<Rightarrow> nat \<Rightarrow> nat option" where
  "first_free [] i = None"
| "first_free (c # cs) i = (if unat c < MAX_GROUP_SIZE then Some i else first_free cs (Suc i))"

definition RemoveUniqueGroupMemberFlag :: "u8 \<Rightarrow> group \<Rightarrow> group" where
  "RemoveUniqueGroupMemberFlag f g = g\<lparr>g_memberSlots :=
     map (\<lambda>m. if has_flag (ms_flags m) f then m\<lparr>ms_flags := ms_flags m AND NOT f\<rparr> else m) (g_memberSlots g)\<rparr>"

definition ToggleGroupMemberFlag :: "u8 \<Rightarrow> bool \<Rightarrow> member_slot \<Rightarrow> member_slot" where
  "ToggleGroupMemberFlag f apply m =
     m\<lparr>ms_flags := (if apply then ms_flags m OR f else ms_flags m AND NOT f)\<rparr>"

section \<open>References\<close>

fun ref_target :: "ref_kind \<Rightarrow> gplayer \<Rightarrow> nat option" where
  "ref_target MainRef pl = p_group pl"
| "ref_target OriginalRef pl = p_original pl"

fun set_ref :: "ref_kind \<Rightarrow> nat option \<Rightarrow> gplayer \<Rightarrow> gplayer" where
  "set_ref MainRef t pl = pl\<lparr>p_group := t\<rparr>"
| "set_ref OriginalRef t pl = pl\<lparr>p_original := t\<rparr>"

definition GetGroup :: "u64 \<Rightarrow> gworld \<Rightarrow> nat option" where
  "GetGroup p w = p_group (gw_players w p)"

definition GetOriginalGroup :: "u64 \<Rightarrow> gworld \<Rightarrow> nat option" where
  "GetOriginalGroup p w = p_original (gw_players w p)"

definition unlink :: "ref_kind \<Rightarrow> u64 \<Rightarrow> gworld \<Rightarrow> gworld" where
  "unlink k p w =
     (let w1 = (case ref_target k (gw_players w p) of None \<Rightarrow> w
                | Some gid \<Rightarrow> upd_group gid (\<lambda>g. g\<lparr>g_members := remove1 (p, k) (g_members g)\<rparr>) w)
      in upd_player p (set_ref k None) w1)"

definition link :: "ref_kind \<Rightarrow> nat \<Rightarrow> u64 \<Rightarrow> gworld \<Rightarrow> gworld" where
  "link k gid p w =
     (let w1 = (if ref_target k (gw_players w p) \<noteq> None then unlink k p w else w);
          w2 = upd_player p (set_ref k (Some gid)) w1
      in upd_group gid (\<lambda>g. g\<lparr>g_members := (p, k) # g_members g\<rparr>) w2)"

definition SetGroup :: "nat option \<Rightarrow> u8 \<Rightarrow> u64 \<Rightarrow> gworld \<Rightarrow> gworld" where
  "SetGroup t sub p w = gemit [GVisibility p]
     (case t of None \<Rightarrow> unlink MainRef p w
      | Some gid \<Rightarrow> upd_player p (\<lambda>pl. pl\<lparr>p_subGroup := sub\<rparr>) (link MainRef gid p w))"

definition SetOriginalGroup :: "nat option \<Rightarrow> u8 \<Rightarrow> u64 \<Rightarrow> gworld \<Rightarrow> gworld" where
  "SetOriginalGroup t sub p w =
     (case t of None \<Rightarrow> unlink OriginalRef p w
      | Some gid \<Rightarrow> upd_player p (\<lambda>pl. pl\<lparr>p_originalSub := sub\<rparr>) (link OriginalRef gid p w))"

definition SetBattlegroundRaid :: "nat \<Rightarrow> u8 \<Rightarrow> u64 \<Rightarrow> gworld \<Rightarrow> gworld" where
  "SetBattlegroundRaid gid sub p w =
     (let w1 = SetOriginalGroup (GetGroup p w) (p_subGroup (gw_players w p)) p w;
          w2 = link MainRef gid p (unlink MainRef p w1)
      in upd_player p (\<lambda>pl. pl\<lparr>p_subGroup := sub\<rparr>) w2)"

definition RemoveFromBattlegroundRaid :: "u64 \<Rightarrow> gworld \<Rightarrow> gworld" where
  "RemoveFromBattlegroundRaid p w =
     (let w1 = unlink MainRef p w;
          w2 = (case GetOriginalGroup p w1 of None \<Rightarrow> w1
                | Some gid \<Rightarrow> upd_player p (\<lambda>pl. pl\<lparr>p_subGroup := p_originalSub pl\<rparr>) (link MainRef gid p w1))
      in SetOriginalGroup None 0 p w2)"

text \<open>\<open>DelinkMember\<close>: the first reference of the player in the list is unlinked.\<close>

definition DelinkMember :: "nat \<Rightarrow> u64 \<Rightarrow> gworld \<Rightarrow> gworld" where
  "DelinkMember gid p w = (case gw_groups w gid of None \<Rightarrow> w | Some g \<Rightarrow>
     (case List.find (\<lambda>(q, k). q = p) (g_members g) of None \<Rightarrow> w | Some (q, k) \<Rightarrow> unlink k p w))"

text \<open>\<open>delete group\<close>: the destructor of the reference manager invalidates the references.\<close>

fun invalidate_all :: "(u64 \<times> ref_kind) list \<Rightarrow> gworld \<Rightarrow> gworld" where
  "invalidate_all [] w = w"
| "invalidate_all ((p, k) # rs) w = invalidate_all rs (upd_player p (set_ref k None) w)"

definition delete_group :: "nat \<Rightarrow> gworld \<Rightarrow> gworld" where
  "delete_group gid w = (case gw_groups w gid of None \<Rightarrow> w | Some g \<Rightarrow>
     (let w1 = invalidate_all (g_members g) w;
          w2 = (case g_bgGroup g of None \<Rightarrow> w1 | Some bg \<Rightarrow> gemit [GBgRaidCleared bg] w1)
      in w2\<lparr>gw_groups := (gw_groups w2)(gid := None)\<rparr>))"

section \<open>Telling the members\<close>

definition member_guids :: "group \<Rightarrow> u64 list" where
  "member_guids g = map fst (g_members g)"

text \<open>The loop of \<open>BroadcastPacket\<close> over the references; \<open>sub\<close> is \<open>None\<close> for \<open>-1\<close>.\<close>

definition ref_sub :: "u64 \<times> ref_kind \<Rightarrow> gworld \<Rightarrow> u8" where
  "ref_sub r w = (case snd r of MainRef \<Rightarrow> p_subGroup (gw_players w (fst r)) | OriginalRef \<Rightarrow> p_originalSub (gw_players w (fst r)))"

definition BroadcastPacket ::
    "group_env \<Rightarrow> nat \<Rightarrow> packet \<Rightarrow> bool \<Rightarrow> u8 option \<Rightarrow> u64 \<Rightarrow> gworld \<Rightarrow> gworld" where
  "BroadcastPacket e gid pkt ignoreBG sub ignore w = (case gw_groups w gid of None \<Rightarrow> w | Some g \<Rightarrow>
     gemit (map (\<lambda>r. GSend (fst r) pkt)
       (filter (\<lambda>r. \<not> (ignore \<noteq> 0 \<and> fst r = ignore) \<and> \<not> (ignoreBG \<and> GetGroup (fst r) w \<noteq> Some gid)
          \<and> ge_session e (fst r) \<and> (case sub of None \<Rightarrow> True | Some k \<Rightarrow> ref_sub r w = k)) (g_members g))) w)"

definition slot_fields :: "group_env \<Rightarrow> group \<Rightarrow> member_slot \<Rightarrow> field list" where
  "slot_fields e g m =
     (let online = (if ge_online e (ms_guid m) then MEMBER_STATUS_ONLINE else MEMBER_STATUS_OFFLINE) in
      [FStr (ms_name m), F64 (ms_guid m), F8 (online OR (if isBGGroup g then MEMBER_STATUS_PVP else 0)),
       F8 (ms_group m), F8 (ms_flags m), F8 (ms_roles m)])"

definition GroupListPacket :: "group_env \<Rightarrow> group \<Rightarrow> member_slot \<Rightarrow> packet" where
  "GroupListPacket e g slot =
     (let n = GetMembersCount g - 1 in \<lparr>pk_opcode = SMSG_GROUP_LIST, pk_fields =
       [F8 (g_groupType g), F8 (ms_group slot), F8 (ms_flags slot), F8 (ms_roles slot)]
       @ (if isLFGGroup g then [F8 (if ge_lfg_finished e (g_guid g) then 2 else 0), F32 (ge_lfg_dungeon e (g_guid g))] else [])
       @ [F64 (g_guid g), F32 (g_counter g), F32 (of_nat n)]
       @ concat (map (slot_fields e g) (filter (\<lambda>m. ms_guid m \<noteq> ms_guid slot) (g_memberSlots g)))
       @ [F64 (g_leaderGuid g)]
       @ (if n > 0 then [F8 (g_lootMethod g), F64 (g_looterGuid g), F8 (g_lootThreshold g), F8 (g_dungeonDifficulty g),
            F8 (g_raidDifficulty g), F8 (if g_raidDifficulty g \<ge> RAID_DIFFICULTY_10MAN_HEROIC then 1 else 0)] else [])\<rparr>)"

definition SendUpdateToPlayer :: "group_env \<Rightarrow> nat \<Rightarrow> u64 \<Rightarrow> member_slot option \<Rightarrow> gworld \<Rightarrow> gworld" where
  "SendUpdateToPlayer e gid p slot w = (case gw_groups w gid of None \<Rightarrow> w | Some g \<Rightarrow>
     if \<not> ge_online e p \<or> \<not> ge_session e p \<or> GetGroup p w \<noteq> Some gid then w
     else (case (case slot of Some m \<Rightarrow> Some m | None \<Rightarrow> getMemberSlot p g) of None \<Rightarrow> w
       | Some m \<Rightarrow> gemit [GSend p (GroupListPacket e g m)] (put_group gid (g\<lparr>g_counter := g_counter g + 1\<rparr>) w)))"

fun send_updates :: "group_env \<Rightarrow> nat \<Rightarrow> member_slot list \<Rightarrow> gworld \<Rightarrow> gworld" where
  "send_updates e gid [] w = w"
| "send_updates e gid (m # ms) w = send_updates e gid ms (SendUpdateToPlayer e gid (ms_guid m) (Some m) w)"

definition SendUpdate :: "group_env \<Rightarrow> nat \<Rightarrow> gworld \<Rightarrow> gworld" where
  "SendUpdate e gid w = (case gw_groups w gid of None \<Rightarrow> w | Some g \<Rightarrow> send_updates e gid (g_memberSlots g) w)"

text \<open>The packet for a player who has no group any more.\<close>

definition NoGroupPacket :: "group \<Rightarrow> packet" where
  "NoGroupPacket g = \<lparr>pk_opcode = SMSG_GROUP_LIST,
     pk_fields = [F8 0x10, F8 0, F8 0, F8 0, F64 (g_guid g), F32 (g_counter g), F32 0, F64 0]\<rparr>"

definition BroadcastGroupUpdate :: "group_env \<Rightarrow> nat \<Rightarrow> gworld \<Rightarrow> gworld" where
  "BroadcastGroupUpdate e gid w = (case gw_groups w gid of None \<Rightarrow> w | Some g \<Rightarrow>
     gemit (map (\<lambda>m. GForceUpdate (ms_guid m))
       (filter (\<lambda>m. ge_online e (ms_guid m) \<and> ge_in_world e (ms_guid m)) (g_memberSlots g))) w)"

definition SendLooter :: "group_env \<Rightarrow> nat \<Rightarrow> u64 \<Rightarrow> u64 option \<Rightarrow> (u64 \<Rightarrow> field list) \<Rightarrow> gworld \<Rightarrow> gworld" where
  "SendLooter e gid creature looter pack w = BroadcastPacket e gid
     \<lparr>pk_opcode = SMSG_LOOT_LIST,
      pk_fields = [F64 creature, F8 0] @ (case looter of None \<Rightarrow> [F8 0] | Some p \<Rightarrow> pack p)\<rparr> False None 0 w"

text \<open>\<open>data.put<uint8>(0, real_count)\<close> overwrites the first byte of the packet.\<close>

definition MasterLoot :: "group_env \<Rightarrow> nat \<Rightarrow> gworld \<Rightarrow> gworld" where
  "MasterLoot e gid w = (case gw_groups w gid of None \<Rightarrow> w | Some g \<Rightarrow>
     (let looters = filter (\<lambda>p. ge_in_world e p \<and> ge_near e p) (member_guids g);
          pkt = \<lparr>pk_opcode = SMSG_LOOT_MASTER_LIST,
                 pk_fields = F8 (of_nat (length looters)) # map F64 looters\<rparr>
      in gemit (map (\<lambda>p. GSend p pkt) (filter (ge_near e) (member_guids g))) w))"

definition BroadcastReadyCheck :: "group_env \<Rightarrow> nat \<Rightarrow> packet \<Rightarrow> gworld \<Rightarrow> gworld" where
  "BroadcastReadyCheck e gid pkt w = (case gw_groups w gid of None \<Rightarrow> w | Some g \<Rightarrow>
     gemit (map (\<lambda>p. GSend p pkt)
       (filter (\<lambda>p. ge_session e p \<and> (IsLeader p g \<or> IsAssistant p g)) (member_guids g))) w)"

fun ready_checks :: "group_env \<Rightarrow> nat \<Rightarrow> member_slot list \<Rightarrow> gworld \<Rightarrow> gworld" where
  "ready_checks e gid [] w = w"
| "ready_checks e gid (m # ms) w = ready_checks e gid ms
     (if \<not> ge_online e (ms_guid m) \<or> \<not> ge_session e (ms_guid m)
      then BroadcastReadyCheck e gid \<lparr>pk_opcode = MSG_RAID_READY_CHECK_CONFIRM, pk_fields = [F64 (ms_guid m), F8 0]\<rparr> w
      else w)"

definition OfflineReadyCheck :: "group_env \<Rightarrow> nat \<Rightarrow> gworld \<Rightarrow> gworld" where
  "OfflineReadyCheck e gid w = (case gw_groups w gid of None \<Rightarrow> w | Some g \<Rightarrow> ready_checks e gid (g_memberSlots g) w)"

section \<open>Joining\<close>

definition ResetMaxEnchantingLevel :: "group_env \<Rightarrow> group \<Rightarrow> group" where
  "ResetMaxEnchantingLevel e g = g\<lparr>g_maxEnchantingLevel :=
     foldl (\<lambda>n m. if ge_online e (ms_guid m) \<and> n < ge_enchanting e (ms_guid m) then ge_enchanting e (ms_guid m) else n)
       0 (g_memberSlots g)\<rparr>"

definition new_slot :: "group_env \<Rightarrow> u64 \<Rightarrow> u8 \<Rightarrow> member_slot" where
  "new_slot e p sub = \<lparr>ms_guid = p, ms_name = ge_name e p, ms_group = sub, ms_flags = 0, ms_roles = 0\<rparr>"

text \<open>What a new member gets: the leader's difficulties and an update of the group's fields.\<close>

definition adopt_difficulty :: "group_env \<Rightarrow> group \<Rightarrow> u64 \<Rightarrow> group_event list" where
  "adopt_difficulty e g p =
     (if \<not> IsLeader p g \<and> \<not> isBGGroup g then
        [GResetInstances p False, GResetInstances p True]
        @ (if ge_level e p \<ge> LEVELREQUIREMENT_HEROIC then
             (if ge_dungeonDifficulty e p \<noteq> g_dungeonDifficulty g then [GDungeonDifficulty p (g_dungeonDifficulty g)] else [])
             @ (if ge_raidDifficulty e p \<noteq> g_raidDifficulty g then [GRaidDifficulty p (g_raidDifficulty g)] else [])
           else [])
      else [])"

definition place_for :: "group \<Rightarrow> nat option" where
  "place_for g = (case g_subGroupsCounts g of None \<Rightarrow> Some 0 | Some cs \<Rightarrow> first_free cs 0)"

text \<open>The three ways in which a new member is linked to the group.\<close>

definition link_member :: "nat \<Rightarrow> group \<Rightarrow> u8 \<Rightarrow> u64 \<Rightarrow> gworld \<Rightarrow> gworld" where
  "link_member gid g sub p w =
     (let w1 = upd_player p (\<lambda>pl. pl\<lparr>p_invite := None\<rparr>) w in
      if GetGroup p w1 \<noteq> None \<and> isBGGroup g then SetBattlegroundRaid gid sub p w1
      else if GetGroup p w1 \<noteq> None then SetOriginalGroup (Some gid) sub p w1
      else SetGroup (Some gid) sub p w1)"

definition AddMember :: "group_env \<Rightarrow> nat \<Rightarrow> u64 \<Rightarrow> gworld \<Rightarrow> group_error + bool \<times> gworld" where
  "AddMember e gid p w = sbind (the_group gid w) (\<lambda>g.
     case place_for g of None \<Rightarrow> Inr (False, w)
     | Some k \<Rightarrow>
       (let sub = of_nat k; m = new_slot e p sub in
        sbind (SubGroupCounterIncrease sub (g\<lparr>g_memberSlots := g_memberSlots g @ [m]\<rparr>)) (\<lambda>g1.
        let w1 = link_member gid g1 sub p (put_group gid g1 w);
            w2 = (if ge_bound_here e p then gemit [GInstanceValid p True] w1 else w1);
            w3 = (if \<not> isRaidGroup g then upd_group gid (\<lambda>g. g\<lparr>g_targetIcons := replicate TARGET_ICON_COUNT 0\<rparr>) w2 else w2);
            w4 = (if \<not> isBGGroup g then gemit [GSql (InsGroupMember (g_dbStoreId g) (GUID_LOPART p) 0 sub 0)] w3 else w3);
            w5 = gemit [GAddHook p] (SendUpdate e gid w4);
            w6 = gemit (adopt_difficulty e g p @ [GUpdateFull p, GOutOfRange p]
                   @ (if isRaidGroup g then [GQuestObjects p] else []) @ [GPartyFields p]) w5;
            w7 = upd_group gid (\<lambda>g. if g_maxEnchantingLevel g < ge_enchanting e p
                   then g\<lparr>g_maxEnchantingLevel := ge_enchanting e p\<rparr> else g) w6
        in Inr (True, w7))))"

definition new_group :: group where
  "new_group = \<lparr>g_memberSlots = [], g_members = [], g_invitees = [], g_leaderGuid = 0, g_leaderName = [],
     g_groupType = GROUP_TYPE_NORMAL, g_dungeonDifficulty = 0, g_raidDifficulty = 0, g_bgGroup = None,
     g_targetIcons = replicate TARGET_ICON_COUNT 0, g_lootMethod = FREE_FOR_ALL,
     g_lootThreshold = ITEM_QUALITY_UNCOMMON, g_looterGuid = 0, g_rolls = [], g_subGroupsCounts = None, g_guid = 0,
     g_counter = 0, g_maxEnchantingLevel = 0, g_dbStoreId = 0\<rparr>"

text \<open>\<open>new Group\<close>\<close>

definition alloc_group :: "gworld \<Rightarrow> nat \<times> gworld" where
  "alloc_group w = (gw_fresh w, put_group (gw_fresh w) new_group (w\<lparr>gw_fresh := Suc (gw_fresh w)\<rparr>))"

definition lift_mgr :: "mgr_error + 'a \<Rightarrow> group_error + 'a" where
  "lift_mgr r = (case r of Inl err \<Rightarrow> Inl (MgrError err) | Inr x \<Rightarrow> Inr x)"

text \<open>What \<open>Create\<close> sets before the sub-group counters, and after them.\<close>

definition base_group :: "group_env \<Rightarrow> u64 \<Rightarrow> u32 \<Rightarrow> group \<Rightarrow> group" where
  "base_group e leader lowguid g = g\<lparr>g_guid := MAKE_NEW_GUID lowguid 0 HIGHGUID_GROUP, g_leaderGuid := leader,
     g_leaderName := ge_name e leader, g_groupType := (if isBGGroup g then GROUP_TYPE_BGRAID else GROUP_TYPE_NORMAL)\<rparr>"

definition loot_defaults :: "u64 \<Rightarrow> group \<Rightarrow> group" where
  "loot_defaults leader g = g\<lparr>g_lootMethod := GROUP_LOOT, g_lootThreshold := ITEM_QUALITY_UNCOMMON, g_looterGuid := leader,
     g_dungeonDifficulty := 0, g_raidDifficulty := 0\<rparr>"

definition stored_group :: "group_env \<Rightarrow> u64 \<Rightarrow> u32 \<Rightarrow> group \<Rightarrow> group" where
  "stored_group e leader sid g = g\<lparr>g_dungeonDifficulty := ge_dungeonDifficulty e leader,
     g_raidDifficulty := ge_raidDifficulty e leader, g_dbStoreId := sid\<rparr>"

definition insert_stmt :: "group \<Rightarrow> group_stmt" where
  "insert_stmt g = InsGroup (g_dbStoreId g) (GUID_LOPART (g_leaderGuid g)) (g_lootMethod g) (GUID_LOPART (g_looterGuid g))
     (g_lootThreshold g) (map ucast (g_targetIcons g)) (g_groupType g) (g_dungeonDifficulty g) (g_raidDifficulty g)"

definition Create :: "group_env \<Rightarrow> nat \<Rightarrow> u64 \<Rightarrow> gworld \<Rightarrow> group_error + bool \<times> gworld" where
  "Create e gid leader w = sbind (the_group gid w) (\<lambda>g.
     sbind (lift_mgr (GenerateGroupId (gw_mgr w))) (\<lambda>(lowguid, mgr1).
     let g1 = base_group e leader lowguid g
     in sbind (if isRaidGroup g1 then initRaidSubGroupsCounter g1 else Inr g1) (\<lambda>g2.
     let g3 = loot_defaults leader g2
     in if \<not> isBGGroup g then
          sbind (lift_mgr (take_store_id gid mgr1)) (\<lambda>(sid, mgr2).
          let g4 = stored_group e leader sid g3
          in sbind (AddMember e gid leader (gemit [GSql (insert_stmt g4)] (put_group gid g4 (w\<lparr>gw_mgr := mgr2\<rparr>))))
               (\<lambda>(ok, w3). if ok then Inr (True, gemit [GConvertInstances leader False] w3) else Inl AssertFailed))
        else AddMember e gid leader (put_group gid g3 (w\<lparr>gw_mgr := mgr1\<rparr>)))))"

section \<open>Leaving\<close>

definition ChangeLeader :: "group_env \<Rightarrow> nat \<Rightarrow> u64 \<Rightarrow> gworld \<Rightarrow> gworld" where
  "ChangeLeader e gid guid w = (case gw_groups w gid of None \<Rightarrow> w | Some g \<Rightarrow>
     (case getMemberSlot guid g of None \<Rightarrow> w | Some slot \<Rightarrow>
       if \<not> ge_online e guid then w
       else
         (let w1 = gemit (GLeaderHook (g_leaderGuid g) guid #
                (if \<not> isBGGroup g then [GDropPermBinds, GSql (DelPermBinding (g_dbStoreId g) (GUID_LOPART guid)),
                   GConvertInstances guid True, GSql (UpdGroupLeader (GUID_LOPART guid) (g_dbStoreId g))] else [])) w;
              w2 = upd_group gid (\<lambda>g. g\<lparr>g_leaderGuid := guid, g_leaderName := ge_name e guid,
                g_memberSlots := upd_slot guid (ToggleGroupMemberFlag MEMBER_FLAG_ASSISTANT False) (g_memberSlots g)\<rparr>) w1
          in BroadcastPacket e gid \<lparr>pk_opcode = SMSG_GROUP_SET_LEADER, pk_fields = [FStr (ms_name slot)]\<rparr> True None 0 w2)))"

definition RemoveAllInvites :: "nat \<Rightarrow> gworld \<Rightarrow> gworld" where
  "RemoveAllInvites gid w = (case gw_groups w gid of None \<Rightarrow> w | Some g \<Rightarrow>
     upd_group gid (\<lambda>g. g\<lparr>g_invitees := []\<rparr>)
       (foldl (\<lambda>w p. upd_player p (\<lambda>pl. pl\<lparr>p_invite := None\<rparr>) w) w (g_invitees g)))"

definition homebind :: "group_env \<Rightarrow> u64 \<Rightarrow> group_event list" where
  "homebind e p = (if ge_to_homebind e p then [GInstanceValid p False] else [])"

text \<open>One member of a group that is disbanded.\<close>

definition unseat :: "nat \<Rightarrow> bool \<Rightarrow> u64 \<Rightarrow> gworld \<Rightarrow> gworld" where
  "unseat gid bg p w =
     (if bg then RemoveFromBattlegroundRaid p w
      else if GetOriginalGroup p w = Some gid then SetOriginalGroup None 0 p w
      else SetGroup None 0 p w)"

definition disband_member :: "group_env \<Rightarrow> nat \<Rightarrow> bool \<Rightarrow> u64 \<Rightarrow> gworld \<Rightarrow> gworld" where
  "disband_member e gid hide p w = (case gw_groups w gid of None \<Rightarrow> w | Some g \<Rightarrow>
     if \<not> ge_online e p then w
     else
       (let w1 = unseat gid (isBGGroup g) p w;
            w2 = (if isRaidGroup g then gemit [GQuestObjects p] w1 else w1)
        in if \<not> ge_session e p then w2
           else
             (let w3 = (if hide then w2 else gemit [GSend p \<lparr>pk_opcode = SMSG_GROUP_DESTROYED, pk_fields = []\<rparr>] w2);
                  w4 = (case GetGroup p w3 of Some other \<Rightarrow> SendUpdate e other w3
                        | None \<Rightarrow> (case gw_groups w3 gid of None \<Rightarrow> w3 | Some g' \<Rightarrow> gemit [GSend p (NoGroupPacket g')] w3))
              in gemit (homebind e p) w4)))"

fun disband_members :: "group_env \<Rightarrow> nat \<Rightarrow> bool \<Rightarrow> member_slot list \<Rightarrow> gworld \<Rightarrow> gworld" where
  "disband_members e gid hide [] w = w"
| "disband_members e gid hide (m # ms) w = disband_members e gid hide ms (disband_member e gid hide (ms_guid m) w)"

definition Disband :: "group_env \<Rightarrow> nat \<Rightarrow> bool \<Rightarrow> gworld \<Rightarrow> group_error + gworld" where
  "Disband e gid hide w = sbind (the_group gid w) (\<lambda>g.
     (let w1 = disband_members e gid hide (g_memberSlots g) (gemit [GDisbandHook] w);
          w2 = upd_group gid (\<lambda>g. g\<lparr>g_rolls := [], g_memberSlots := []\<rparr>) w1;
          w3 = RemoveAllInvites gid w2
      in sbind (if \<not> isBGGroup g then
                  sbind (lift_mgr (FreeGroupDbStoreId (g_dbStoreId g) (gw_mgr w3))) (\<lambda>mgr.
                    Inr (gemit [GSql (DelGroup (g_dbStoreId g)), GSql (DelGroupMemberAll (g_dbStoreId g)),
                      GGroupResetInstances False, GGroupResetInstances True, GSql (DelLfgData (g_dbStoreId g))]
                      (w3\<lparr>gw_mgr := mgr\<rparr>)))
                else Inr w3)
           (\<lambda>w4. Inr (delete_group gid (w4\<lparr>gw_mgr := RemoveGroup (GUID_LOPART (g_guid g)) (gw_mgr w4)\<rparr>)))))"

text \<open>The rolls of the group, run on the loot and dice of the world.\<close>

definition with_rolls :: "nat \<Rightarrow> (roll_state \<Rightarrow> loot_error + roll_state) \<Rightarrow> gworld \<Rightarrow> group_error + gworld" where
  "with_rolls gid f w = sbind (the_group gid w) (\<lambda>g.
     (case f ((gw_rolls w)\<lparr>rs_rolls := g_rolls g\<rparr>) of Inl err \<Rightarrow> Inl (LootError err)
      | Inr s \<Rightarrow> Inr (put_group gid (g\<lparr>g_rolls := rs_rolls s\<rparr>) (w\<lparr>gw_rolls := s\<rparr>))))"

text \<open>The part of \<open>RemoveMember\<close> that concerns the player, when online.\<close>

definition part_player :: "group_env \<Rightarrow> nat \<Rightarrow> RemoveMethod \<Rightarrow> u64 \<Rightarrow> gworld \<Rightarrow> gworld" where
  "part_player e gid method p w = (case gw_groups w gid of None \<Rightarrow> w | Some g \<Rightarrow>
     if \<not> ge_online e p then w
     else
       (let w1 = (if isBGGroup g then RemoveFromBattlegroundRaid p w else gemit [GQuestObjects p] (unseat gid False p w));
            w2 = (if method = REMOVE_KICK then gemit [GSend p \<lparr>pk_opcode = SMSG_GROUP_UNINVITE, pk_fields = []\<rparr>] w1 else w1)
        in gemit (GSend p (NoGroupPacket g) # homebind e p) w2))"

text \<open>The first member in the order of the slots who is online becomes the leader.\<close>

definition elect_leader :: "group_env \<Rightarrow> nat \<Rightarrow> u64 \<Rightarrow> gworld \<Rightarrow> gworld" where
  "elect_leader e gid guid w = (case gw_groups w gid of None \<Rightarrow> w | Some g \<Rightarrow>
     if g_leaderGuid g = guid then
       (case List.find (\<lambda>m. ge_online e (ms_guid m)) (g_memberSlots g) of None \<Rightarrow> w
        | Some m \<Rightarrow> ChangeLeader e gid (ms_guid m) w)
     else w)"

definition drop_slot :: "u64 \<Rightarrow> group \<Rightarrow> group_error + group" where
  "drop_slot guid g = (case getMemberSlot guid g of None \<Rightarrow> Inr g
     | Some m \<Rightarrow> sbind (SubGroupCounterDecrease (ms_group m) g) (\<lambda>g1.
         Inr (g1\<lparr>g_memberSlots := erase_slot guid (g_memberSlots g1)\<rparr>)))"

definition on_group :: "nat \<Rightarrow> (group \<Rightarrow> group_error + group) \<Rightarrow> gworld \<Rightarrow> group_error + gworld" where
  "on_group gid f w = sbind (the_group gid w) (\<lambda>g. sbind (f g) (\<lambda>g'. Inr (put_group gid g' w)))"

text \<open>A dungeon finder group of one player outside of the dungeon is disbanded.\<close>

definition lfg_left_over :: "group_env \<Rightarrow> group \<Rightarrow> bool" where
  "lfg_left_over e g = (isLFGGroup g \<and> GetMembersCount g = 1 \<and>
     (case ge_lfg_map e (g_guid g) of None \<Rightarrow> True
      | Some mp \<Rightarrow> ge_online e (g_leaderGuid g) \<and> ge_alive e (g_leaderGuid g) \<and> ge_map e (g_leaderGuid g) \<noteq> mp))"

definition RemoveMember :: "group_env \<Rightarrow> nat \<Rightarrow> u64 \<Rightarrow> RemoveMethod \<Rightarrow> u64 \<Rightarrow> gworld \<Rightarrow> group_error + bool \<times> gworld" where
  "RemoveMember e gid guid method kicker w = sbind (the_group gid w) (\<lambda>g.
     let w0 = gemit [GRemoveHook guid method kicker] (BroadcastGroupUpdate e gid w);
         small = (if isBGGroup g \<or> isLFGGroup g then 1 else 2)
     in if isLFGGroup g \<and> method = REMOVE_KICK then Inr (GetMembersCount g \<noteq> 0, w0)
        else if GetMembersCount g > small then
          (let w1 = gemit [GSql (DelGroupMember (GUID_LOPART guid))] (part_player e gid method guid w0);
               w2 = DelinkMember gid guid w1;
               w3 = (if (ge_online e guid \<and> ge_enchanting e guid \<noteq> 0) \<or> \<not> ge_online e guid
                     then upd_group gid (ResetMaxEnchantingLevel e) w2 else w2)
           in sbind (with_rolls gid (\<lambda>s. leave_rolls (ge_loot e) guid (length (rs_rolls s)) 0 s) w3) (\<lambda>w4.
              sbind (on_group gid (drop_slot guid) w4) (\<lambda>w5.
              let w6 = SendUpdate e gid (elect_leader e gid guid w5) in
              sbind (the_group gid w6) (\<lambda>g6.
              if lfg_left_over e g6 then sbind (Disband e gid False w6) (\<lambda>w7. Inr (False, w7))
              else if length (g_members g6) < small then sbind (Disband e gid False w6) (\<lambda>w7. Inr (True, w7))
              else Inr (True, w6)))))
        else sbind (Disband e gid False w0) (\<lambda>w1. Inr (False, w1)))"

section \<open>Conversions and settings\<close>

definition ConvertToLFG :: "group_env \<Rightarrow> nat \<Rightarrow> gworld \<Rightarrow> group_error + gworld" where
  "ConvertToLFG e gid w = sbind (the_group gid w) (\<lambda>g.
     let g1 = g\<lparr>g_groupType := g_groupType g OR GROUP_TYPE_LFG OR GROUP_TYPE_LFG_RESTRICTED, g_lootMethod := NEED_BEFORE_GREED\<rparr>;
         w1 = (if \<not> isBGGroup g then gemit [GSql (UpdGroupType (g_groupType g1) (g_dbStoreId g))] w else w)
     in Inr (SendUpdate e gid (put_group gid g1 w1)))"

definition ConvertToRaid :: "group_env \<Rightarrow> nat \<Rightarrow> gworld \<Rightarrow> group_error + gworld" where
  "ConvertToRaid e gid w = sbind (the_group gid w) (\<lambda>g.
     sbind (initRaidSubGroupsCounter (g\<lparr>g_groupType := g_groupType g OR GROUP_TYPE_RAID\<rparr>)) (\<lambda>g1.
     let w1 = put_group gid g1 w;
         w2 = (if \<not> isBGGroup g then gemit [GSql (UpdGroupType (g_groupType g1) (g_dbStoreId g))] w1 else w1)
     in Inr (gemit (map (\<lambda>m. GQuestObjects (ms_guid m)) (filter (\<lambda>m. ge_online e (ms_guid m)) (g_memberSlots g)))
          (SendUpdate e gid w2))))"

definition ChangeMembersGroup :: "group_env \<Rightarrow> nat \<Rightarrow> u64 \<Rightarrow> u8 \<Rightarrow> gworld \<Rightarrow> group_error + gworld" where
  "ChangeMembersGroup e gid guid sub w = sbind (the_group gid w) (\<lambda>g.
     if \<not> isRaidGroup g \<or> \<not> IsMember guid g \<or> GetMemberGroup guid g = sub then Inr w
     else
       sbind (SubGroupCounterIncrease sub (g\<lparr>g_memberSlots := upd_slot guid (\<lambda>m. m\<lparr>ms_group := sub\<rparr>) (g_memberSlots g)\<rparr>)) (\<lambda>g1.
       sbind (SubGroupCounterDecrease (GetMemberGroup guid g) g1) (\<lambda>g2.
       let w1 = put_group gid g2 w;
           w2 = (if \<not> isBGGroup g then gemit [GSql (UpdMemberSubgroup sub (GUID_LOPART guid))] w1 else w1);
           w3 = (if ge_online e guid then
                   upd_player guid (\<lambda>pl. if p_group pl = Some gid then pl\<lparr>p_subGroup := sub\<rparr> else pl\<lparr>p_originalSub := sub\<rparr>) w2
                 else w2)
       in Inr (SendUpdate e gid w3))))"

definition setMembersGroup :: "u64 \<Rightarrow> u8 \<Rightarrow> nat \<Rightarrow> gworld \<Rightarrow> group_error + bool \<times> gworld" where
  "setMembersGroup guid sub gid w = sbind (the_group gid w) (\<lambda>g.
     if \<not> IsMember guid g then Inr (False, w)
     else sbind (SubGroupCounterIncrease sub (g\<lparr>g_memberSlots := upd_slot guid (\<lambda>m. m\<lparr>ms_group := sub\<rparr>) (g_memberSlots g)\<rparr>)) (\<lambda>g1.
       Inr (True, (if \<not> isBGGroup g then gemit [GSql (UpdMemberSubgroup sub (GUID_LOPART guid))] else id) (put_group gid g1 w))))"

definition SetGroupMemberFlag :: "group_env \<Rightarrow> nat \<Rightarrow> u64 \<Rightarrow> bool \<Rightarrow> u8 \<Rightarrow> gworld \<Rightarrow> gworld" where
  "SetGroupMemberFlag e gid guid apply f w = (case gw_groups w gid of None \<Rightarrow> w | Some g \<Rightarrow>
     if \<not> isRaidGroup g \<or> \<not> IsMember guid g
        \<or> f \<notin> {MEMBER_FLAG_MAIN_ASSIST, MEMBER_FLAG_MAIN_TANK, MEMBER_FLAG_ASSISTANT} then w
     else
       (let g1 = (if f = MEMBER_FLAG_ASSISTANT then g else RemoveUniqueGroupMemberFlag f g);
            g2 = g1\<lparr>g_memberSlots := upd_slot guid (ToggleGroupMemberFlag f apply) (g_memberSlots g1)\<rparr>;
            fl = (case getMemberSlot guid g2 of None \<Rightarrow> 0 | Some m \<Rightarrow> ms_flags m)
        in SendUpdate e gid (gemit [GSql (UpdMemberFlag fl (GUID_LOPART guid))] (put_group gid g2 w))))"

definition icon_packet :: "u64 \<Rightarrow> u8 \<Rightarrow> u64 \<Rightarrow> packet" where
  "icon_packet who i target = \<lparr>pk_opcode = MSG_RAID_TARGET_UPDATE, pk_fields = [F8 0, F64 who, F8 i, F64 target]\<rparr>"

text \<open>\<open>SetTargetIcon\<close> calls itself with target 0 to clear the other icons of the target.\<close>

definition put_icon :: "group_env \<Rightarrow> nat \<Rightarrow> u8 \<Rightarrow> u64 \<Rightarrow> u64 \<Rightarrow> gworld \<Rightarrow> gworld" where
  "put_icon e gid i who target w = BroadcastPacket e gid (icon_packet who i target) True None 0
     (upd_group gid (\<lambda>g. g\<lparr>g_targetIcons := (g_targetIcons g)[unat i := target]\<rparr>) w)"

fun clear_icons :: "group_env \<Rightarrow> nat \<Rightarrow> u64 \<Rightarrow> nat list \<Rightarrow> gworld \<Rightarrow> gworld" where
  "clear_icons e gid target [] w = w"
| "clear_icons e gid target (i # is) w = clear_icons e gid target is
     (case gw_groups w gid of None \<Rightarrow> w | Some g \<Rightarrow>
       if g_targetIcons g ! i = target then put_icon e gid (of_nat i) 0 0 w else w)"

definition SetTargetIcon :: "group_env \<Rightarrow> nat \<Rightarrow> u8 \<Rightarrow> u64 \<Rightarrow> u64 \<Rightarrow> gworld \<Rightarrow> gworld" where
  "SetTargetIcon e gid i who target w =
     (if unat i \<ge> TARGET_ICON_COUNT then w
      else put_icon e gid i who target
        (if target \<noteq> 0 then clear_icons e gid target [0..<TARGET_ICON_COUNT] w else w))"

definition SendTargetIconList :: "nat \<Rightarrow> u64 \<Rightarrow> gworld \<Rightarrow> gworld" where
  "SendTargetIconList gid p w = (case gw_groups w gid of None \<Rightarrow> w | Some g \<Rightarrow>
     gemit [GSend p \<lparr>pk_opcode = MSG_RAID_TARGET_UPDATE, pk_fields = F8 1 #
       concat (map (\<lambda>i. if g_targetIcons g ! i = 0 then [] else [F8 (of_nat i), F64 (g_targetIcons g ! i)])
         [0..<TARGET_ICON_COUNT])\<rparr>] w)"

section \<open>The round robin\<close>

definition search_looter :: "group_env \<Rightarrow> member_slot list \<Rightarrow> u64 option" where
  "search_looter e ms = map_option ms_guid (List.find (\<lambda>m. ge_online e (ms_guid m) \<and> ge_near e (ms_guid m)) ms)"

text \<open>\<open>split_at guid ms\<close>: what comes before the slot with the guid, and from it on.\<close>

fun split_at :: "u64 \<Rightarrow> member_slot list \<Rightarrow> member_slot list \<times> member_slot list" where
  "split_at guid [] = ([], [])"
| "split_at guid (m # ms) = (if ms_guid m = guid then ([], m # ms)
     else (let (xs, ys) = split_at guid ms in (m # xs, ys)))"

definition UpdateLooterGuid :: "group_env \<Rightarrow> nat \<Rightarrow> bool \<Rightarrow> gworld \<Rightarrow> gworld" where
  "UpdateLooterGuid e gid ifneed w = (case gw_groups w gid of None \<Rightarrow> w | Some g \<Rightarrow>
     if g_lootMethod g = MASTER_LOOT \<or> g_lootMethod g = FREE_FOR_ALL then w
     else
       (let oldLooter = g_looterGuid g; (xs, ys) = split_at oldLooter (g_memberSlots g) in
        if ys \<noteq> [] \<and> ifneed \<and> ge_online e oldLooter \<and> ge_near e oldLooter then w
        else
          (let before = (if ys = [] then xs else xs @ [hd ys]);
               after = (if ys = [] then [] else tl ys);
               new = (case search_looter e after of Some p \<Rightarrow> Some p | None \<Rightarrow> search_looter e before)
           in case new of
                Some p \<Rightarrow> if oldLooter \<noteq> p then SendUpdate e gid (put_group gid (g\<lparr>g_looterGuid := p\<rparr>) w) else w
              | None \<Rightarrow> SendUpdate e gid (put_group gid (g\<lparr>g_looterGuid := 0\<rparr>) w))))"

section \<open>Settings and loading\<close>

definition SetLootMethod :: "u8 \<Rightarrow> group \<Rightarrow> group" where "SetLootMethod v g = g\<lparr>g_lootMethod := v\<rparr>"
definition SetLooterGuid :: "u64 \<Rightarrow> group \<Rightarrow> group" where "SetLooterGuid v g = g\<lparr>g_looterGuid := v\<rparr>"
definition SetLootThreshold :: "u8 \<Rightarrow> group \<Rightarrow> group" where "SetLootThreshold v g = g\<lparr>g_lootThreshold := v\<rparr>"
definition SetBattlegroundGroup :: "nat option \<Rightarrow> group \<Rightarrow> group" where "SetBattlegroundGroup bg g = g\<lparr>g_bgGroup := bg\<rparr>"

definition SetLfgRoles :: "group_env \<Rightarrow> nat \<Rightarrow> u64 \<Rightarrow> u8 \<Rightarrow> gworld \<Rightarrow> gworld" where
  "SetLfgRoles e gid guid roles w = (case gw_groups w gid of None \<Rightarrow> w | Some g \<Rightarrow>
     if \<not> IsMember guid g then w
     else SendUpdate e gid
       (put_group gid (g\<lparr>g_memberSlots := upd_slot guid (\<lambda>m. m\<lparr>ms_roles := roles\<rparr>) (g_memberSlots g)\<rparr>) w))"

definition SetDungeonDifficulty :: "group_env \<Rightarrow> nat \<Rightarrow> u8 \<Rightarrow> gworld \<Rightarrow> gworld" where
  "SetDungeonDifficulty e gid d w = (case gw_groups w gid of None \<Rightarrow> w | Some g \<Rightarrow>
     (let w1 = put_group gid (g\<lparr>g_dungeonDifficulty := d\<rparr>) w;
          w2 = (if \<not> isBGGroup g then gemit [GSql (UpdGroupDifficulty d (g_dbStoreId g))] w1 else w1)
      in gemit (map (\<lambda>p. GDungeonDifficulty p d) (filter (ge_session e) (member_guids g))) w2))"

definition SetRaidDifficulty :: "group_env \<Rightarrow> nat \<Rightarrow> u8 \<Rightarrow> gworld \<Rightarrow> gworld" where
  "SetRaidDifficulty e gid d w = (case gw_groups w gid of None \<Rightarrow> w | Some g \<Rightarrow>
     (let w1 = put_group gid (g\<lparr>g_raidDifficulty := d\<rparr>) w;
          w2 = (if \<not> isBGGroup g then gemit [GSql (UpdGroupRaidDifficulty d (g_dbStoreId g))] w1 else w1)
      in gemit (map (\<lambda>p. GRaidDifficulty p d) (filter (ge_session e) (member_guids g))) w2))"

text \<open>A row of \<open>groups\<close> and a row of \<open>group_member\<close>, with the names the object manager knows.\<close>

record group_row =
  gr_leader :: u32
  gr_lootMethod :: u8
  gr_looter :: u32
  gr_threshold :: u8
  gr_icons :: "u32 list"
  gr_type :: u8
  gr_difficulty :: u8
  gr_raidDifficulty :: u8
  gr_storeId :: u32

definition LoadGroupFromDB :: "(u32 \<Rightarrow> string option) \<Rightarrow> u32 \<Rightarrow> group_row \<Rightarrow> group \<Rightarrow> group_error + group" where
  "LoadGroupFromDB names lowguid row g =
     (let g1 = g\<lparr>g_dbStoreId := gr_storeId row, g_guid := MAKE_NEW_GUID lowguid 0 HIGHGUID_GROUP,
                 g_leaderGuid := MAKE_NEW_GUID (gr_leader row) 0 HIGHGUID_PLAYER\<rparr>
      in case names (gr_leader row) of None \<Rightarrow> Inr g1
         | Some name \<Rightarrow>
           (let g2 = g1\<lparr>g_leaderName := name, g_lootMethod := gr_lootMethod row,
                  g_looterGuid := MAKE_NEW_GUID (gr_looter row) 0 HIGHGUID_PLAYER, g_lootThreshold := gr_threshold row,
                  g_targetIcons := map ucast (gr_icons row), g_groupType := gr_type row\<rparr>
            in sbind (if isRaidGroup g2 then initRaidSubGroupsCounter g2 else Inr g2) (\<lambda>g3.
               Inr (g3\<lparr>g_dungeonDifficulty := (if gr_difficulty row \<ge> 3 then 0 else gr_difficulty row),
                       g_raidDifficulty := (if gr_raidDifficulty row \<ge> 4 then 0 else gr_raidDifficulty row)\<rparr>))))"

definition LoadMemberFromDB :: "(u64 \<Rightarrow> string option) \<Rightarrow> u32 \<Rightarrow> u8 \<Rightarrow> u8 \<Rightarrow> u8 \<Rightarrow> group \<Rightarrow> group_error + group_event list \<times> group" where
  "LoadMemberFromDB names guidLow memberFlags sub roles g =
     (let guid = MAKE_NEW_GUID guidLow 0 HIGHGUID_PLAYER in
      case names guid of None \<Rightarrow> Inr ([GSql (DelGroupMember guidLow)], g)
      | Some name \<Rightarrow>
        sbind (SubGroupCounterIncrease sub (g\<lparr>g_memberSlots := g_memberSlots g @
            [\<lparr>ms_guid = guid, ms_name = name, ms_group = sub, ms_flags = memberFlags, ms_roles = roles\<rparr>]\<rparr>))
          (\<lambda>g1. Inr ([], g1)))"

section \<open>Invitations\<close>

definition RemoveInvite :: "nat \<Rightarrow> u64 \<Rightarrow> gworld \<Rightarrow> gworld" where
  "RemoveInvite gid p w = upd_player p (\<lambda>pl. pl\<lparr>p_invite := None\<rparr>)
     (upd_group gid (\<lambda>g. g\<lparr>g_invitees := removeAll p (g_invitees g)\<rparr>) w)"

text \<open>The group that counts for an invitation: the original one of a player in a battleground.\<close>

definition own_group :: "u64 \<Rightarrow> gworld \<Rightarrow> nat option" where
  "own_group p w = (case GetGroup p w of None \<Rightarrow> None | Some gid \<Rightarrow>
     (case gw_groups w gid of None \<Rightarrow> Some gid | Some g \<Rightarrow> if isBGGroup g then GetOriginalGroup p w else Some gid))"

definition AddInvite :: "nat \<Rightarrow> u64 \<Rightarrow> gworld \<Rightarrow> bool \<times> gworld" where
  "AddInvite gid p w =
     (if p_invite (gw_players w p) \<noteq> None then (False, w)
      else if own_group p w \<noteq> None then (False, w)
      else (True, gemit [GInviteHook p] (upd_player p (\<lambda>pl. pl\<lparr>p_invite := Some gid\<rparr>)
             (upd_group gid (\<lambda>g. g\<lparr>g_invitees := List.insert p (g_invitees g)\<rparr>) (RemoveInvite gid p w)))))"

definition AddLeaderInvite :: "group_env \<Rightarrow> nat \<Rightarrow> u64 \<Rightarrow> gworld \<Rightarrow> bool \<times> gworld" where
  "AddLeaderInvite e gid p w = (case AddInvite gid p w of
     (False, w1) \<Rightarrow> (False, w1)
   | (True, w1) \<Rightarrow> (True, upd_group gid (\<lambda>g. g\<lparr>g_leaderGuid := p, g_leaderName := ge_name e p\<rparr>) w1))"

text \<open>\<open>Player::UninviteFromGroup\<close>\<close>

definition UninviteFromGroup :: "group_env \<Rightarrow> u64 \<Rightarrow> gworld \<Rightarrow> group_error + gworld" where
  "UninviteFromGroup e p w = (case p_invite (gw_players w p) of None \<Rightarrow> Inr w
     | Some gid \<Rightarrow>
       (let w1 = RemoveInvite gid p w in
        sbind (the_group gid w1) (\<lambda>g.
          if GetMembersCount g \<le> 1 then
            (if IsCreated g then Disband e gid True w1
             else Inr (delete_group gid (RemoveAllInvites gid w1)))
          else Inr w1)))"

end
