(* ===== verification/Group_Handlers.thy ===== *)
theory Group_Handlers
  imports Group Text_Util
begin

text \<open>
  The packet handlers of a session that concern groups, \<open>src/src/server/game/Handlers/GroupHandler.cpp\<close>.
  \<open>me\<close> is the player of the session. Name lookups and the relations between two players are the
  environment.
\<close>

section \<open>Data\<close>

definition PARTY_OP_INVITE :: u32 where "PARTY_OP_INVITE = 0"
definition PARTY_OP_UNINVITE :: u32 where "PARTY_OP_UNINVITE = 1"
definition PARTY_OP_LEAVE :: u32 where "PARTY_OP_LEAVE = 2"

datatype PartyResult =
    ERR_PARTY_RESULT_OK | ERR_BAD_PLAYER_NAME_S | ERR_TARGET_NOT_IN_GROUP_S | ERR_TARGET_NOT_IN_INSTANCE_S
  | ERR_GROUP_FULL | ERR_ALREADY_IN_GROUP_S | ERR_NOT_IN_GROUP | ERR_NOT_LEADER | ERR_PLAYER_WRONG_FACTION
  | ERR_IGNORING_YOU_S | ERR_INVITE_RESTRICTED | ERR_PARTY_LFG_BOOT_LIMIT | ERR_PARTY_LFG_BOOT_IN_PROGRESS
  | ERR_PARTY_LFG_BOOT_TOO_FEW_PLAYERS | ERR_PARTY_LFG_BOOT_DUNGEON_COMPLETE | ERR_PARTY_LFG_BOOT_LOOT_ROLLS
  | ERR_PARTY_LFG_BOOT_IN_COMBAT

fun party_code :: "PartyResult \<Rightarrow> u32" where
  "party_code ERR_PARTY_RESULT_OK = 0"
| "party_code ERR_BAD_PLAYER_NAME_S = 1"
| "party_code ERR_TARGET_NOT_IN_GROUP_S = 2"
| "party_code ERR_TARGET_NOT_IN_INSTANCE_S = 3"
| "party_code ERR_GROUP_FULL = 4"
| "party_code ERR_ALREADY_IN_GROUP_S = 5"
| "party_code ERR_NOT_IN_GROUP = 6"
| "party_code ERR_NOT_LEADER = 7"
| "party_code ERR_PLAYER_WRONG_FACTION = 8"
| "party_code ERR_IGNORING_YOU_S = 9"
| "party_code ERR_INVITE_RESTRICTED = 13"
| "party_code ERR_PARTY_LFG_BOOT_LIMIT = 20"
| "party_code ERR_PARTY_LFG_BOOT_IN_PROGRESS = 22"
| "party_code ERR_PARTY_LFG_BOOT_TOO_FEW_PLAYERS = 23"
| "party_code ERR_PARTY_LFG_BOOT_DUNGEON_COMPLETE = 28"
| "party_code ERR_PARTY_LFG_BOOT_LOOT_ROLLS = 29"
| "party_code ERR_PARTY_LFG_BOOT_IN_COMBAT = 26"

definition SMSG_GROUP_INVITE :: u16 where "SMSG_GROUP_INVITE = 0x06F"
definition SMSG_GROUP_DECLINE :: u16 where "SMSG_GROUP_DECLINE = 0x074"
definition SMSG_PARTY_COMMAND_RESULT :: u16 where "SMSG_PARTY_COMMAND_RESULT = 0x07F"
definition MSG_MINIMAP_PING :: u16 where "MSG_MINIMAP_PING = 0x1D5"
definition MSG_RANDOM_ROLL :: u16 where "MSG_RANDOM_ROLL = 0x1FB"
definition MSG_RAID_READY_CHECK :: u16 where "MSG_RAID_READY_CHECK = 0x322"

record party_env =
  pe_normalize :: "string \<Rightarrow> string option"
  pe_find_name :: "string \<Rightarrow> u64 option"
  pe_guid_by_name :: "string \<Rightarrow> u64"
  pe_gm :: "u64 \<Rightarrow> bool"
  pe_allow_gm :: bool
  pe_two_sides :: bool
  pe_team :: "u64 \<Rightarrow> u32"
  pe_instance :: "u64 \<Rightarrow> u32"
  pe_ignores :: "u64 \<Rightarrow> u64 \<Rightarrow> bool"
  pe_outdoor_pvp :: "u64 \<Rightarrow> bool"

definition SendPartyResult :: "u64 \<Rightarrow> u32 \<Rightarrow> string \<Rightarrow> PartyResult \<Rightarrow> gworld \<Rightarrow> gworld" where
  "SendPartyResult me operation member res = gemit [GSend me \<lparr>pk_opcode = SMSG_PARTY_COMMAND_RESULT,
     pk_fields = [F32 operation, FStr member, F32 (party_code res), F32 0]\<rparr>]"

definition GroupInvitePacket :: "u8 \<Rightarrow> string \<Rightarrow> packet" where
  "GroupInvitePacket flag name = \<lparr>pk_opcode = SMSG_GROUP_INVITE, pk_fields = [F8 flag, FStr name, F32 0, F8 0, F32 0]\<rparr>"

section \<open>Inviting\<close>

text \<open>The checks of \<open>HandleGroupInviteOpcode\<close> on the two players, in order.\<close>

definition invite_refused :: "group_env \<Rightarrow> party_env \<Rightarrow> u64 \<Rightarrow> u64 \<Rightarrow> PartyResult option" where
  "invite_refused e h me p =
     (if \<not> pe_allow_gm h \<and> \<not> pe_gm h me \<and> pe_gm h p then Some ERR_BAD_PLAYER_NAME_S
      else if \<not> pe_gm h me \<and> \<not> pe_two_sides h \<and> pe_team h me \<noteq> pe_team h p then Some ERR_PLAYER_WRONG_FACTION
      else if pe_instance h me \<noteq> 0 \<and> pe_instance h p \<noteq> 0 \<and> pe_instance h me \<noteq> pe_instance h p \<and> ge_map e me = ge_map e p
        then Some ERR_TARGET_NOT_IN_INSTANCE_S
      else if pe_instance h p \<noteq> 0 \<and> ge_dungeonDifficulty e p \<noteq> ge_dungeonDifficulty e me then Some ERR_IGNORING_YOU_S
      else if pe_ignores h p me then Some ERR_IGNORING_YOU_S
      else None)"

text \<open>The invitation itself; a new group is made for an inviter who has none.\<close>

definition send_invite :: "group_env \<Rightarrow> u64 \<Rightarrow> u64 \<Rightarrow> string \<Rightarrow> gworld \<Rightarrow> gworld" where
  "send_invite e me p membername w = SendPartyResult me PARTY_OP_INVITE membername ERR_PARTY_RESULT_OK
     (gemit [GSend p (GroupInvitePacket 1 (ge_name e me))] w)"

definition invite_to :: "group_env \<Rightarrow> u64 \<Rightarrow> u64 \<Rightarrow> string \<Rightarrow> nat option \<Rightarrow> gworld \<Rightarrow> gworld" where
  "invite_to e me p membername grp w = (case grp of
     None \<Rightarrow>
       (let (gid, w1) = alloc_group w in
        case AddLeaderInvite e gid me w1 of
          (False, w2) \<Rightarrow> delete_group gid w2
        | (True, w2) \<Rightarrow> (case AddInvite gid p w2 of
            (False, w3) \<Rightarrow> delete_group gid w3
          | (True, w3) \<Rightarrow> send_invite e me p membername w3))
   | Some gid \<Rightarrow> (case AddInvite gid p w of
       (False, w1) \<Rightarrow> w1
     | (True, w1) \<Rightarrow> send_invite e me p membername w1))"

definition HandleGroupInviteOpcode :: "group_env \<Rightarrow> party_env \<Rightarrow> u64 \<Rightarrow> string \<Rightarrow> gworld \<Rightarrow> group_error + gworld" where
  "HandleGroupInviteOpcode e h me name w = (case pe_normalize h name of
     None \<Rightarrow> Inr (SendPartyResult me PARTY_OP_INVITE name ERR_BAD_PLAYER_NAME_S w)
   | Some membername \<Rightarrow> (case pe_find_name h membername of
       None \<Rightarrow> Inr (SendPartyResult me PARTY_OP_INVITE membername ERR_BAD_PLAYER_NAME_S w)
     | Some p \<Rightarrow> (case invite_refused e h me p of
         Some res \<Rightarrow> Inr (SendPartyResult me PARTY_OP_INVITE membername res w)
       | None \<Rightarrow>
         if own_group p w \<noteq> None \<or> p_invite (gw_players w p) \<noteq> None then
           Inr ((if own_group p w \<noteq> None then gemit [GSend p (GroupInvitePacket 0 (ge_name e me))] else id)
             (SendPartyResult me PARTY_OP_INVITE membername ERR_ALREADY_IN_GROUP_S w))
         else (case own_group me w of
             None \<Rightarrow> Inr (invite_to e me p membername None w)
           | Some gid \<Rightarrow> sbind (the_group gid w) (\<lambda>g.
               if \<not> IsLeader me g \<and> \<not> IsAssistant me g then Inr (SendPartyResult me PARTY_OP_INVITE [] ERR_NOT_LEADER w)
               else if IsFull g then Inr (SendPartyResult me PARTY_OP_INVITE [] ERR_GROUP_FULL w)
               else Inr (invite_to e me p membername (Some gid) w))))))"

definition HandleGroupAcceptOpcode :: "group_env \<Rightarrow> u64 \<Rightarrow> gworld \<Rightarrow> group_error + gworld" where
  "HandleGroupAcceptOpcode e me w = (case p_invite (gw_players w me) of None \<Rightarrow> Inr w
   | Some gid \<Rightarrow> sbind (the_group gid w) (\<lambda>g.
       let w1 = RemoveInvite gid me w in
       if g_leaderGuid g = me then Inr w1
       else if IsFull g then Inr (SendPartyResult me PARTY_OP_INVITE [] ERR_GROUP_FULL w1)
       else if \<not> IsCreated g \<and> \<not> ge_online e (g_leaderGuid g) then Inr (RemoveAllInvites gid w1)
       else
         sbind (if IsCreated g then Inr w1
                else sbind (Create e gid (g_leaderGuid g) (RemoveInvite gid (g_leaderGuid g) w1)) (\<lambda>(ok, w2).
                  sbind (the_group gid w2) (\<lambda>g2.
                  Inr (w2\<lparr>gw_mgr := AddGroup (GUID_LOPART (g_guid g2)) gid (gw_mgr w2)\<rparr>))))
           (\<lambda>w3. sbind (AddMember e gid me w3) (\<lambda>(ok, w4).
             if ok then Inr (BroadcastGroupUpdate e gid w4) else Inr w4))))"

definition HandleGroupDeclineOpcode :: "group_env \<Rightarrow> u64 \<Rightarrow> gworld \<Rightarrow> group_error + gworld" where
  "HandleGroupDeclineOpcode e me w = (case p_invite (gw_players w me) of None \<Rightarrow> Inr w
   | Some gid \<Rightarrow> sbind (the_group gid w) (\<lambda>g.
       sbind (UninviteFromGroup e me w) (\<lambda>w1.
       if \<not> ge_online e (g_leaderGuid g) \<or> \<not> ge_session e (g_leaderGuid g) then Inr w1
       else Inr (gemit [GSend (g_leaderGuid g) \<lparr>pk_opcode = SMSG_GROUP_DECLINE, pk_fields = [FStr (ge_name e me)]\<rparr>] w1))))"

section \<open>Removing\<close>

definition CanUninviteFromGroup :: "group_env \<Rightarrow> u64 \<Rightarrow> gworld \<Rightarrow> group_error + PartyResult" where
  "CanUninviteFromGroup e me w = (case GetGroup me w of None \<Rightarrow> Inr ERR_NOT_IN_GROUP
   | Some gid \<Rightarrow> sbind (the_group gid w) (\<lambda>g. Inr
       (if isLFGGroup g then
          (if ge_kicks_left e (g_guid g) = 0 then ERR_PARTY_LFG_BOOT_LIMIT
           else if ge_lfg_boot e (g_guid g) then ERR_PARTY_LFG_BOOT_IN_PROGRESS
           else if GetMembersCount g \<le> ge_votes_needed e (g_guid g) then ERR_PARTY_LFG_BOOT_TOO_FEW_PLAYERS
           else if ge_lfg_finished e (g_guid g) then ERR_PARTY_LFG_BOOT_DUNGEON_COMPLETE
           else if isRollLootActive g then ERR_PARTY_LFG_BOOT_LOOT_ROLLS
           else if (\<exists>p\<in>set (member_guids g). ge_in_combat e p) then ERR_PARTY_LFG_BOOT_IN_COMBAT
           else ERR_PARTY_RESULT_OK)
        else if \<not> IsLeader me g \<and> \<not> IsAssistant me g then ERR_NOT_LEADER
        else if ge_in_battleground e me then ERR_INVITE_RESTRICTED
        else ERR_PARTY_RESULT_OK)))"

definition HandleGroupUninviteGuidOpcode :: "group_env \<Rightarrow> u64 \<Rightarrow> u64 \<Rightarrow> gworld \<Rightarrow> group_error + gworld" where
  "HandleGroupUninviteGuidOpcode e me guid w =
     (if guid = me then Inr w
      else sbind (CanUninviteFromGroup e me w) (\<lambda>res.
        if res \<noteq> ERR_PARTY_RESULT_OK then Inr (SendPartyResult me PARTY_OP_UNINVITE [] res w)
        else (case GetGroup me w of None \<Rightarrow> Inr w | Some gid \<Rightarrow> sbind (the_group gid w) (\<lambda>g.
          if IsLeader guid g then Inr (SendPartyResult me PARTY_OP_UNINVITE [] ERR_NOT_LEADER w)
          else if IsMember guid g then sbind (RemoveMember e gid guid REMOVE_KICK me w) (\<lambda>(b, w1). Inr w1)
          else (case GetInvited guid g of Some p \<Rightarrow> UninviteFromGroup e p w
            | None \<Rightarrow> Inr (SendPartyResult me PARTY_OP_UNINVITE [] ERR_TARGET_NOT_IN_GROUP_S w))))))"

definition HandleGroupUninviteOpcode :: "group_env \<Rightarrow> party_env \<Rightarrow> u64 \<Rightarrow> string \<Rightarrow> gworld \<Rightarrow> group_error + gworld" where
  "HandleGroupUninviteOpcode e h me name w = (case pe_normalize h name of None \<Rightarrow> Inr w
   | Some membername \<Rightarrow>
     if ge_name e me = membername then Inr w
     else sbind (CanUninviteFromGroup e me w) (\<lambda>res.
       if res \<noteq> ERR_PARTY_RESULT_OK then Inr (SendPartyResult me PARTY_OP_UNINVITE [] res w)
       else (case GetGroup me w of None \<Rightarrow> Inr w | Some gid \<Rightarrow> sbind (the_group gid w) (\<lambda>g.
         let guid = GetMemberGUID membername g in
         if guid \<noteq> 0 then sbind (RemoveMember e gid guid REMOVE_KICK me w) (\<lambda>(b, w1). Inr w1)
         else (case List.find (\<lambda>p. ge_name e p = membername) (g_invitees g) of Some p \<Rightarrow> UninviteFromGroup e p w
           | None \<Rightarrow> Inr (SendPartyResult me PARTY_OP_UNINVITE membername ERR_TARGET_NOT_IN_GROUP_S w))))))"

definition HandleGroupDisbandOpcode :: "group_env \<Rightarrow> party_env \<Rightarrow> u64 \<Rightarrow> gworld \<Rightarrow> group_error + gworld" where
  "HandleGroupDisbandOpcode e h me w = (case GetGroup me w of None \<Rightarrow> Inr w
   | Some gid \<Rightarrow>
     if ge_in_battleground e me \<or> pe_outdoor_pvp h me
     then Inr (SendPartyResult me PARTY_OP_INVITE [] ERR_INVITE_RESTRICTED w)
     else sbind (RemoveMember e gid me REMOVE_LEAVE 0
            (SendPartyResult me PARTY_OP_LEAVE (ge_name e me) ERR_PARTY_RESULT_OK w)) (\<lambda>(b, w1). Inr w1))"

section \<open>Leading\<close>

definition may_lead :: "u64 \<Rightarrow> group \<Rightarrow> bool" where
  "may_lead me g \<longleftrightarrow> IsLeader me g \<or> IsAssistant me g"

text \<open>The handlers below do nothing for a player without a group.\<close>

definition in_group :: "u64 \<Rightarrow> gworld \<Rightarrow> (nat \<Rightarrow> group \<Rightarrow> group_error + gworld) \<Rightarrow> group_error + gworld" where
  "in_group me w f = (case GetGroup me w of None \<Rightarrow> Inr w | Some gid \<Rightarrow> sbind (the_group gid w) (f gid))"

definition HandleGroupSetLeaderOpcode :: "group_env \<Rightarrow> u64 \<Rightarrow> u64 \<Rightarrow> gworld \<Rightarrow> group_error + gworld" where
  "HandleGroupSetLeaderOpcode e me guid w = in_group me w (\<lambda>gid g. Inr
     (if \<not> ge_online e guid \<or> \<not> IsLeader me g \<or> GetGroup guid w \<noteq> Some gid then w
      else SendUpdate e gid (ChangeLeader e gid guid w)))"

definition HandleLootMethodOpcode :: "group_env \<Rightarrow> u64 \<Rightarrow> u32 \<Rightarrow> u64 \<Rightarrow> u32 \<Rightarrow> gworld \<Rightarrow> group_error + gworld" where
  "HandleLootMethodOpcode e me lootMethod lootMaster lootThreshold w = in_group me w (\<lambda>gid g. Inr
     (if \<not> IsLeader me g \<or> isLFGGroup g then w
      else SendUpdate e gid (put_group gid
        (SetLootThreshold (ucast lootThreshold) (SetLooterGuid lootMaster (SetLootMethod (ucast lootMethod) g))) w)))"

definition HandleRaidTargetUpdateOpcode :: "group_env \<Rightarrow> u64 \<Rightarrow> u8 \<Rightarrow> u64 \<Rightarrow> gworld \<Rightarrow> group_error + gworld" where
  "HandleRaidTargetUpdateOpcode e me x guid w = in_group me w (\<lambda>gid g. Inr
     (if x = 0xFF then SendTargetIconList gid me w
      else if \<not> may_lead me g then w
      else SetTargetIcon e gid x me guid w))"

definition HandleGroupRaidConvertOpcode :: "group_env \<Rightarrow> u64 \<Rightarrow> gworld \<Rightarrow> group_error + gworld" where
  "HandleGroupRaidConvertOpcode e me w = in_group me w (\<lambda>gid g.
     if ge_in_battleground e me then Inr w
     else if \<not> IsLeader me g \<or> GetMembersCount g < 2 then Inr w
     else ConvertToRaid e gid (SendPartyResult me PARTY_OP_INVITE [] ERR_PARTY_RESULT_OK w))"

definition HandleGroupChangeSubGroupOpcode ::
    "group_env \<Rightarrow> party_env \<Rightarrow> u64 \<Rightarrow> string \<Rightarrow> u8 \<Rightarrow> gworld \<Rightarrow> group_error + gworld" where
  "HandleGroupChangeSubGroupOpcode e h me name groupNr w = in_group me w (\<lambda>gid g.
     if unat groupNr \<ge> MAX_RAID_SUBGROUPS then Inr w
     else if \<not> may_lead me g then Inr w
     else sbind (HasFreeSlotSubGroup groupNr g) (\<lambda>free.
       if \<not> free then Inr w
       else ChangeMembersGroup e gid
         (case pe_find_name h name of Some p \<Rightarrow> p | None \<Rightarrow> pe_guid_by_name h name) groupNr w))"

definition HandleGroupAssistantLeaderOpcode :: "group_env \<Rightarrow> u64 \<Rightarrow> u64 \<Rightarrow> bool \<Rightarrow> gworld \<Rightarrow> group_error + gworld" where
  "HandleGroupAssistantLeaderOpcode e me guid apply w = in_group me w (\<lambda>gid g. Inr
     (if \<not> IsLeader me g then w
      else SendUpdate e gid (SetGroupMemberFlag e gid guid apply MEMBER_FLAG_ASSISTANT w)))"

definition GROUP_ASSIGN_MAIN_TANK :: u8 where "GROUP_ASSIGN_MAIN_TANK = 0"
definition GROUP_ASSIGN_MAIN_ASSIST :: u8 where "GROUP_ASSIGN_MAIN_ASSIST = 1"

definition assign_flag :: "group_env \<Rightarrow> nat \<Rightarrow> u64 \<Rightarrow> bool \<Rightarrow> u8 \<Rightarrow> gworld \<Rightarrow> gworld" where
  "assign_flag e gid guid apply f w =
     SetGroupMemberFlag e gid guid apply f (upd_group gid (RemoveUniqueGroupMemberFlag f) w)"

definition HandlePartyAssignmentOpcode :: "group_env \<Rightarrow> u64 \<Rightarrow> u8 \<Rightarrow> bool \<Rightarrow> u64 \<Rightarrow> gworld \<Rightarrow> group_error + gworld" where
  "HandlePartyAssignmentOpcode e me assignment apply guid w = in_group me w (\<lambda>gid g. Inr
     (if \<not> may_lead me g then w
      else SendUpdate e gid
        (if assignment = GROUP_ASSIGN_MAIN_ASSIST then assign_flag e gid guid apply MEMBER_FLAG_MAIN_ASSIST w
         else if assignment = GROUP_ASSIGN_MAIN_TANK then assign_flag e gid guid apply MEMBER_FLAG_MAIN_TANK w
         else w)))"

text \<open>A ready check is a question without payload, or the state a member answers.\<close>

definition HandleRaidReadyCheckOpcode :: "group_env \<Rightarrow> u64 \<Rightarrow> u8 option \<Rightarrow> gworld \<Rightarrow> group_error + gworld" where
  "HandleRaidReadyCheckOpcode e me answer w = in_group me w (\<lambda>gid g. Inr
     (case answer of
        None \<Rightarrow>
          if \<not> may_lead me g then w
          else OfflineReadyCheck e gid
            (BroadcastPacket e gid \<lparr>pk_opcode = MSG_RAID_READY_CHECK, pk_fields = [F64 me]\<rparr> False None 0 w)
      | Some state \<Rightarrow> BroadcastReadyCheck e gid
          \<lparr>pk_opcode = MSG_RAID_READY_CHECK_CONFIRM, pk_fields = [F64 me, F8 state]\<rparr> w))"

definition HandleMinimapPingOpcode :: "group_env \<Rightarrow> u64 \<Rightarrow> u32 \<Rightarrow> u32 \<Rightarrow> gworld \<Rightarrow> group_error + gworld" where
  "HandleMinimapPingOpcode e me x y w = in_group me w (\<lambda>gid g. Inr
     (BroadcastPacket e gid \<lparr>pk_opcode = MSG_MINIMAP_PING, pk_fields = [F64 me, FFloat x, FFloat y]\<rparr> True None me w))"

text \<open>\<open>roll\<close> is \<open>urand(minimum, maximum)\<close>.\<close>

definition HandleRandomRollOpcode :: "group_env \<Rightarrow> u64 \<Rightarrow> u32 \<Rightarrow> u32 \<Rightarrow> u32 \<Rightarrow> gworld \<Rightarrow> gworld" where
  "HandleRandomRollOpcode e me minimum maximum roll w =
     (if minimum > maximum \<or> maximum > 10000 then w
      else
        (let pkt = \<lparr>pk_opcode = MSG_RANDOM_ROLL, pk_fields = [F32 minimum, F32 maximum, F32 roll, F64 me]\<rparr> in
         case GetGroup me w of Some gid \<Rightarrow> BroadcastPacket e gid pkt False None 0 w
         | None \<Rightarrow> gemit [GSend me pkt] w))"

end
