(* ===== verification/Group_Inv.thy ===== *)
theory Group_Inv
  imports Group_Handlers
begin

text \<open>
  The shape of the groups: which raid group each member is in, and the counters of the raid
  groups. Most operations leave it alone (\<open>same_shapes\<close>); those that move members keep the
  counters exact and every raid group within its five places (\<open>shape_ok\<close>).
\<close>

section \<open>The shape\<close>

definition shape :: "group \<Rightarrow> u8 list \<times> bool \<times> u8 list option" where
  "shape g = (map ms_group (g_memberSlots g), isRaidGroup g, g_subGroupsCounts g)"

text \<open>Groups may be deleted on the way, none appears and none changes its shape.\<close>

definition same_shapes :: "gworld \<Rightarrow> gworld \<Rightarrow> bool" where
  "same_shapes w w' \<longleftrightarrow> (\<forall>gid g'. gw_groups w' gid = Some g' \<longrightarrow> (\<exists>g. gw_groups w gid = Some g \<and> shape g' = shape g))"

named_theorems shapes \<open>operations that leave the shape of every group alone\<close>

lemma same_shapes_refl [shapes]: "same_shapes w w"
  by (simp add: same_shapes_def)

lemma same_shapes_trans: "same_shapes w w1 \<Longrightarrow> same_shapes w1 w2 \<Longrightarrow> same_shapes w w2"
  unfolding same_shapes_def by metis

lemma same_shapesD:
  assumes "same_shapes w w'" "gw_groups w' gid = Some g'" "gw_groups w gid = Some g"
  shows "shape g' = shape g"
proof -
  obtain g0 where "gw_groups w gid = Some g0" "shape g' = shape g0"
    using assms(1,2) unfolding same_shapes_def by blast
  with assms(3) show ?thesis by simp
qed

lemma same_shapes_groups: "gw_groups w' = gw_groups w1 \<Longrightarrow> same_shapes w w' = same_shapes w w1"
  by (simp add: same_shapes_def)

lemma groups_simps [simp]:
  "gw_groups (gemit es w) = gw_groups w" "gw_groups (upd_player p f w) = gw_groups w"
  "gw_groups (put_group gid g w) = (gw_groups w)(gid := Some g)"
  "gw_groups (SendPartyResult me op m res w) = gw_groups w"
  by (simp_all add: gemit_def upd_player_def put_group_def SendPartyResult_def)

lemma same_shapes_simps [simp]:
  "same_shapes w (gemit es w1) = same_shapes w w1" "same_shapes w (upd_player p f w1) = same_shapes w w1"
  "same_shapes w (SendPartyResult me op nm res w1) = same_shapes w w1"
  "same_shapes w (w1\<lparr>gw_mgr := mgr\<rparr>) = same_shapes w w1"
  by (simp_all add: same_shapes_def)

lemma same_shapes_put:
  "same_shapes w w1 \<Longrightarrow> gw_groups w1 gid = Some g \<Longrightarrow> shape g' = shape g \<Longrightarrow> same_shapes w (put_group gid g' w1)"
  unfolding same_shapes_def by (auto split: if_splits)

lemma same_shapes_upd:
  "same_shapes w w1 \<Longrightarrow> (\<And>g. shape (f g) = shape g) \<Longrightarrow> same_shapes w (upd_group gid f w1)"
  by (auto simp: upd_group_def same_shapes_put split: option.split)

lemma shape_simps [simp]:
  "shape (g\<lparr>g_members := x1\<rparr>) = shape g" "shape (g\<lparr>g_invitees := x2\<rparr>) = shape g"
  "shape (g\<lparr>g_leaderGuid := x3\<rparr>) = shape g" "shape (g\<lparr>g_leaderName := x4\<rparr>) = shape g"
  "shape (g\<lparr>g_dungeonDifficulty := x5\<rparr>) = shape g" "shape (g\<lparr>g_raidDifficulty := x6\<rparr>) = shape g"
  "shape (g\<lparr>g_targetIcons := x7\<rparr>) = shape g" "shape (g\<lparr>g_lootMethod := x8\<rparr>) = shape g"
  "shape (g\<lparr>g_lootThreshold := x9\<rparr>) = shape g" "shape (g\<lparr>g_looterGuid := x10\<rparr>) = shape g"
  "shape (g\<lparr>g_rolls := x11\<rparr>) = shape g" "shape (g\<lparr>g_counter := x12\<rparr>) = shape g"
  "shape (g\<lparr>g_maxEnchantingLevel := x13\<rparr>) = shape g" "shape (g\<lparr>g_guid := x14\<rparr>) = shape g"
  "shape (g\<lparr>g_dbStoreId := x15\<rparr>) = shape g" "shape (ResetMaxEnchantingLevel e g) = shape g"
  by (simp_all add: shape_def isRaidGroup_def ResetMaxEnchantingLevel_def)

lemma upd_slot_group: "(\<And>m. ms_group (f m) = ms_group m) \<Longrightarrow> map ms_group (upd_slot p f ms) = map ms_group ms"
  by (induction ms) auto

lemma toggle_group [simp]: "ms_group (ToggleGroupMemberFlag f b m) = ms_group m"
  by (simp add: ToggleGroupMemberFlag_def)

lemma shape_slots:
  "map ms_group ms = map ms_group (g_memberSlots g) \<Longrightarrow> shape (g\<lparr>g_memberSlots := ms\<rparr>) = shape g"
  by (simp add: shape_def isRaidGroup_def)

lemma shape_unique_flag [simp]: "shape (RemoveUniqueGroupMemberFlag f g) = shape g"
  unfolding RemoveUniqueGroupMemberFlag_def by (rule shape_slots) simp

section \<open>References and messages\<close>

lemma unlink_shapes [shapes]: "same_shapes w (unlink k p w)"
  by (auto simp: unlink_def Let_def shapes intro!: same_shapes_upd split: option.split)

lemma link_shapes [shapes]: "same_shapes w (link k gid p w)"
  by (auto simp: link_def Let_def shapes intro!: same_shapes_upd)

lemma SetGroup_shapes [shapes]: "same_shapes w (SetGroup t sub p w)"
  by (auto simp: SetGroup_def shapes split: option.split)

lemma SetOriginalGroup_shapes [shapes]: "same_shapes w (SetOriginalGroup t sub p w)"
  by (auto simp: SetOriginalGroup_def shapes split: option.split)

lemma SetBattlegroundRaid_shapes [shapes]: "same_shapes w (SetBattlegroundRaid gid sub p w)"
  unfolding SetBattlegroundRaid_def Let_def same_shapes_simps
  by (rule same_shapes_trans [OF same_shapes_trans [OF SetOriginalGroup_shapes unlink_shapes] link_shapes])

lemma RemoveFromBattlegroundRaid_shapes [shapes]: "same_shapes w (RemoveFromBattlegroundRaid p w)"
proof -
  let ?w1 = "unlink MainRef p w"
  let ?w2 = "case GetOriginalGroup p ?w1 of None \<Rightarrow> ?w1
    | Some gid \<Rightarrow> upd_player p (\<lambda>pl. pl\<lparr>p_subGroup := p_originalSub pl\<rparr>) (link MainRef gid p ?w1)"
  have "same_shapes ?w1 ?w2" by (auto simp: shapes split: option.split)
  then have "same_shapes w ?w2" by (rule same_shapes_trans [OF unlink_shapes])
  then show ?thesis
    unfolding RemoveFromBattlegroundRaid_def Let_def by (rule same_shapes_trans) (rule shapes)
qed

lemma DelinkMember_shapes [shapes]: "same_shapes w (DelinkMember gid p w)"
  by (auto simp: DelinkMember_def shapes split: option.split)

lemma BroadcastPacket_shapes [shapes]: "same_shapes w (BroadcastPacket e gid pkt b sub ig w)"
  by (auto simp: BroadcastPacket_def shapes split: option.split)

lemma SendUpdateToPlayer_shapes [shapes]: "same_shapes w (SendUpdateToPlayer e gid p slot w)"
  by (auto simp: SendUpdateToPlayer_def shapes intro: same_shapes_put split: option.split)

lemma send_updates_shapes [shapes]: "same_shapes w (send_updates e gid ms w)"
  by (induction ms arbitrary: w) (auto simp: shapes intro: same_shapes_trans shapes)

lemma SendUpdate_shapes [shapes]: "same_shapes w (SendUpdate e gid w)"
  by (auto simp: SendUpdate_def shapes split: option.split)

lemma BroadcastGroupUpdate_shapes [shapes]: "same_shapes w (BroadcastGroupUpdate e gid w)"
  by (auto simp: BroadcastGroupUpdate_def shapes split: option.split)

lemma ready_shapes [shapes]:
  "same_shapes w (BroadcastReadyCheck e gid pkt w)" "same_shapes w (ready_checks e gid ms w)"
  "same_shapes w (OfflineReadyCheck e gid w)"
proof -
  show b: "same_shapes w (BroadcastReadyCheck e gid pkt w)" for pkt w
    by (auto simp: BroadcastReadyCheck_def shapes split: option.split)
  show r: "same_shapes w (ready_checks e gid ms w)" for ms
    by (induction ms arbitrary: w) (auto simp: shapes intro: same_shapes_trans b)
  show "same_shapes w (OfflineReadyCheck e gid w)"
    by (auto simp: OfflineReadyCheck_def shapes r split: option.split)
qed

lemma invalidate_groups [simp]: "gw_groups (invalidate_all rs w) = gw_groups w"
  by (induction rs w rule: invalidate_all.induct) simp_all

lemma delete_group_shapes [shapes]: "same_shapes w (delete_group gid w)"
  by (auto simp: delete_group_def same_shapes_def Let_def split: option.splits if_splits)

lemma RemoveAllInvites_shapes [shapes]: "same_shapes w (RemoveAllInvites gid w)"
proof -
  let ?f = "\<lambda>ps. foldl (\<lambda>w p. upd_player p (\<lambda>pl. pl\<lparr>p_invite := None\<rparr>) w) w ps"
  have "gw_groups (?f ps) = gw_groups w" for ps by (induction ps arbitrary: w) simp_all
  then have "same_shapes w (?f ps)" for ps by (simp add: same_shapes_def)
  then show ?thesis
    by (cases "gw_groups w gid") (simp_all add: RemoveAllInvites_def same_shapes_refl same_shapes_upd)
qed

lemma ChangeLeader_shapes [shapes]: "same_shapes w (ChangeLeader e gid guid w)"
proof -
  have "shape (g\<lparr>g_leaderGuid := a, g_leaderName := b,
      g_memberSlots := upd_slot guid (ToggleGroupMemberFlag f x) (g_memberSlots g)\<rparr>) = shape g" for g a b f x
    by (simp add: shape_def isRaidGroup_def upd_slot_group)
  then show ?thesis
    by (auto simp: ChangeLeader_def Let_def intro!: same_shapes_trans [OF _ BroadcastPacket_shapes] same_shapes_upd
        shapes split: option.split)
qed

lemma elect_leader_shapes [shapes]: "same_shapes w (elect_leader e gid guid w)"
  by (auto simp: elect_leader_def shapes split: option.split)

section \<open>Counting\<close>

definition members_in :: "nat \<Rightarrow> u8 list \<Rightarrow> nat" where
  "members_in k gs = length (filter (\<lambda>s. unat s = k) gs)"

lemma members_in_simps [simp]:
  "members_in k [] = 0" "members_in k (s # gs) = of_bool (unat s = k) + members_in k gs"
  "members_in k (gs @ hs) = members_in k gs + members_in k hs"
  by (simp_all add: members_in_def)

lemma members_in_le: "members_in k gs \<le> length gs"
  by (simp add: members_in_def)

definition shape_fit :: "group \<Rightarrow> bool" where
  "shape_fit g \<longleftrightarrow> (case shape g of (gs, raid, counts) \<Rightarrow> (\<forall>s\<in>set gs. unat s < 8) \<and>
     (case counts of None \<Rightarrow> \<not> raid \<and> length gs \<le> 5
      | Some cs \<Rightarrow> raid \<and> length cs = 8 \<and> (\<forall>k<8. unat (cs ! k) = members_in k gs \<and> members_in k gs \<le> 5)))"

text \<open>A raid group always has a member, except while it is being created.\<close>

definition shape_ok :: "group \<Rightarrow> bool" where
  "shape_ok g \<longleftrightarrow> shape_fit g \<and> (isRaidGroup g \<longrightarrow> g_memberSlots g \<noteq> [])"

definition shapes_ok :: "gworld \<Rightarrow> bool" where
  "shapes_ok w \<longleftrightarrow> (\<forall>gid g. gw_groups w gid = Some g \<longrightarrow> shape_ok g)"

lemma shapes_ok_same: "same_shapes w w' \<Longrightarrow> shapes_ok w \<Longrightarrow> shapes_ok w'"
  unfolding shapes_ok_def
proof (intro allI impI)
  fix gid g'
  assume w: "same_shapes w w'" "\<forall>gid g. gw_groups w gid = Some g \<longrightarrow> shape_ok g" "gw_groups w' gid = Some g'"
  from w(1,3) obtain g where "gw_groups w gid = Some g" "shape g' = shape g" unfolding same_shapes_def by blast
  with w(2) show "shape_ok g'" by (auto simp: shape_ok_def shape_fit_def shape_def)
qed

lemma shapes_ok_put: "shapes_ok w \<Longrightarrow> shape_ok g \<Longrightarrow> shapes_ok (put_group gid g w)"
  by (auto simp: shapes_ok_def)

lemma shapes_okD: "shapes_ok w \<Longrightarrow> gw_groups w gid = Some g \<Longrightarrow> shape_ok g"
  by (simp add: shapes_ok_def)

lemma the_group_Inr [simp]: "the_group gid w = Inr g \<longleftrightarrow> gw_groups w gid = Some g"
  by (auto simp: the_group_def split: option.split)

lemma bump_Inr: "bump d s cs = Inr cs' \<longleftrightarrow> unat s < length cs \<and> cs' = cs[unat s := cs ! unat s + d]"
  by (auto simp: bump_def)

lemma unat_inc: "unat (c :: u8) \<le> 5 \<Longrightarrow> unat (c + 1) = Suc (unat c)"
  by (simp add: unat_word_ariths)

lemma unat_dec: "0 < unat (c :: u8) \<Longrightarrow> unat (c - 1) = unat c - 1"
  by (metis diff_0_eq_0 less_numeral_extra(3) unat_eq_zero unat_minus_one)

text \<open>The counters of a list of members.\<close>

definition counts_for :: "u8 list \<Rightarrow> u8 list \<Rightarrow> bool" where
  "counts_for cs gs \<longleftrightarrow> length cs = 8 \<and> (\<forall>k<8. unat (cs ! k) = members_in k gs)"

lemma counts_for_inc:
  assumes "counts_for cs gs" "unat s < 8" "members_in (unat s) gs \<le> 5"
    "\<And>k. members_in k hs = members_in k gs + of_bool (unat s = k)"
  shows "bump 1 s cs = Inr (cs[unat s := cs ! unat s + 1])" "counts_for (cs[unat s := cs ! unat s + 1]) hs"
  using assms by (auto simp: counts_for_def bump_def nth_list_update unat_inc)

lemma counts_for_dec:
  assumes "counts_for cs gs" "unat s < 8" "\<And>k. members_in k gs = members_in k hs + of_bool (unat s = k)"
  shows "bump (- 1) s cs = Inr (cs[unat s := cs ! unat s + - 1])" "counts_for (cs[unat s := cs ! unat s + - 1]) hs"
  using assms by (auto simp: counts_for_def bump_def nth_list_update unat_dec)

text \<open>Recounting a raid gives the counters it has.\<close>

lemma count_slots_raid:
  assumes "counts_for cs gs" "\<forall>m\<in>set ms. unat (ms_group m) < 8"
    "\<And>k. k < 8 \<Longrightarrow> members_in k gs + members_in k (map ms_group ms) \<le> 5"
  shows "\<exists>cs'. count_slots ms cs = Inr cs' \<and> counts_for cs' (gs @ map ms_group ms)"
  using assms
proof (induction ms arbitrary: cs gs)
  case (Cons m ms)
  from Cons.prems have m: "unat (ms_group m) < 8" by simp
  have small: "members_in (unat (ms_group m)) gs \<le> 5" using Cons.prems(3) [OF m] by simp
  note b = counts_for_inc [OF Cons.prems(1) m small, of "gs @ [ms_group m]"]
  have "\<And>k. k < 8 \<Longrightarrow> members_in k (gs @ [ms_group m]) + members_in k (map ms_group ms) \<le> 5"
    using Cons.prems(3) by (simp add: add.assoc)
  with b Cons.IH [OF b(2)] Cons.prems show ?case by auto
qed simp

lemma zeros_counts: "counts_for (replicate MAX_RAID_SUBGROUPS 0) []"
  by (simp add: counts_for_def MAX_RAID_SUBGROUPS_def MAX_RAID_SIZE_def MAX_GROUP_SIZE_def)

lemma shape_fit_iff: "shape_fit g \<longleftrightarrow> (\<forall>m\<in>set (g_memberSlots g). unat (ms_group m) < 8) \<and>
  (case g_subGroupsCounts g of None \<Rightarrow> \<not> isRaidGroup g \<and> length (g_memberSlots g) \<le> 5
   | Some cs \<Rightarrow> isRaidGroup g \<and> counts_for cs (map ms_group (g_memberSlots g))
       \<and> (\<forall>k<8. members_in k (map ms_group (g_memberSlots g)) \<le> 5))"
  by (auto simp: shape_fit_def shape_def counts_for_def split: option.splits)

lemma members_in_erase:
  "List.find (\<lambda>m. ms_guid m = p) ms = Some m \<Longrightarrow>
   members_in k (map ms_group ms) = members_in k (map ms_group (erase_slot p ms)) + of_bool (unat (ms_group m) = k)"
  by (induction ms) (auto split: if_splits)

lemma members_in_upd:
  "List.find (\<lambda>m. ms_guid m = p) ms = Some m \<Longrightarrow>
   members_in k (map ms_group (upd_slot p f ms)) + of_bool (unat (ms_group m) = k)
     = members_in k (map ms_group ms) + of_bool (unat (ms_group (f m)) = k)"
  by (induction ms) (auto split: if_splits)

lemma erase_slot_subset: "set (erase_slot p ms) \<subseteq> set ms" "length (erase_slot p ms) \<le> length ms"
  by (induction ms) auto

lemma upd_slot_groups: "m \<in> set (upd_slot p f ms) \<Longrightarrow> m \<in> set ms \<or> (\<exists>m0\<in>set ms. m = f m0)"
  by (induction ms) (auto split: if_splits)

lemma upd_slot_length [simp]: "length (upd_slot p f ms) = length ms"
  by (induction ms) auto

lemma find_in_set: "List.find P xs = Some x \<Longrightarrow> x \<in> set xs \<and> P x"
  by (induction xs) (auto split: if_splits)

section \<open>Joining\<close>

lemma link_member_shapes [shapes]: "same_shapes w (link_member gid g sub p w)"
proof -
  let ?w1 = "upd_player p (\<lambda>pl. pl\<lparr>p_invite := None\<rparr>) w"
  have "same_shapes ?w1 (link_member gid g sub p w)" by (simp add: link_member_def Let_def shapes)
  moreover have "same_shapes w ?w1" by (simp add: shapes)
  ultimately show ?thesis by (rule same_shapes_trans [rotated])
qed

lemma shape_ok_new [simp]: "shape_ok new_group"
  by (simp add: shape_ok_def shape_fit_iff new_group_def isRaidGroup_def has_flag_def GROUP_TYPE_NORMAL_def)

lemma first_free_spec: "first_free cs i = Some k \<Longrightarrow> i \<le> k \<and> k - i < length cs \<and> unat (cs ! (k - i)) < 5"
  by (induction cs i rule: first_free.induct)
    (auto simp: MAX_GROUP_SIZE_def Suc_diff_le nth_Cons' Suc_le_eq split: if_splits)

lemma shape_ok_fit: "shape_ok g \<Longrightarrow> shape_fit g"
  by (simp add: shape_ok_def)

lemma place_for_ok:
  assumes ok: "shape_fit g" and room: "isRaidGroup g \<or> length (g_memberSlots g) < 5" and k: "place_for g = Some k"
  shows "\<exists>g1. SubGroupCounterIncrease (of_nat k) (g\<lparr>g_memberSlots := g_memberSlots g @ [new_slot e p (of_nat k)]\<rparr>) = Inr g1
    \<and> shape_ok g1"
proof (cases "g_subGroupsCounts g")
  case None
  with k have "k = 0" by (simp add: place_for_def)
  with None ok room show ?thesis
    by (auto simp: SubGroupCounterIncrease_def count_by_def shape_ok_def shape_fit_iff isRaidGroup_def new_slot_def)
next
  case (Some cs)
  then have c: "counts_for cs (map ms_group (g_memberSlots g))" "isRaidGroup g"
    and le: "\<forall>k<8. members_in k (map ms_group (g_memberSlots g)) \<le> 5" using ok by (auto simp: shape_ok_def shape_fit_iff)
  have k8: "k < 8" "unat (cs ! k) < 5"
    using first_free_spec [of cs 0 k] k Some c(1) by (auto simp: place_for_def counts_for_def)
  then have u: "unat (of_nat k :: u8) = k" by (simp add: unat_word_ariths unat_of_nat)
  have small: "members_in k (map ms_group (g_memberSlots g)) < 5" using c(1) k8 by (simp add: counts_for_def)
  let ?gs = "map ms_group (g_memberSlots g)"
  have b: "bump 1 (of_nat k) cs = Inr (cs[unat (of_nat k :: u8) := cs ! unat (of_nat k :: u8) + 1])"
    "counts_for (cs[unat (of_nat k :: u8) := cs ! unat (of_nat k :: u8) + 1]) (?gs @ [of_nat k])"
    using counts_for_inc [OF c(1), of "of_nat k" "?gs @ [of_nat k]"] k8 u small by simp_all
  have "\<forall>j<8. members_in j (?gs @ [of_nat k]) \<le> 5" using le small by (auto simp: u)
  with Some b ok c(2) u k8 show ?thesis
    by (auto simp: SubGroupCounterIncrease_def count_by_def shape_ok_def shape_fit_iff isRaidGroup_def new_slot_def)
qed

lemma AddMember_cases:
  assumes "AddMember e gid p w = Inr (b, w')"
  obtains "w' = w" "\<not> b" "\<And>g. gw_groups w gid = Some g \<Longrightarrow> place_for g = None"
  | g k g1 where "b" "gw_groups w gid = Some g" "place_for g = Some k"
    "SubGroupCounterIncrease (of_nat k) (g\<lparr>g_memberSlots := g_memberSlots g @ [new_slot e p (of_nat k)]\<rparr>) = Inr g1"
    "same_shapes (put_group gid g1 w) w'"
proof -
  from assms obtain g where g: "gw_groups w gid = Some g"
    by (auto simp: AddMember_def sbind_Inr)
  show thesis
  proof (cases "place_for g")
    case None
    with assms g show ?thesis by (intro that(1)) (auto simp: AddMember_def the_group_def)
  next
    case (Some k)
    let ?sub = "of_nat k"
    obtain g1 where g1: "SubGroupCounterIncrease ?sub (g\<lparr>g_memberSlots := g_memberSlots g @ [new_slot e p ?sub]\<rparr>) = Inr g1"
      using assms g Some by (auto simp: AddMember_def the_group_def sbind_Inr Let_def)
    have icons: "\<And>g. shape (g\<lparr>g_targetIcons := replicate TARGET_ICON_COUNT 0\<rparr>) = shape g" by simp
    have ench: "\<And>g. shape (if c g then g\<lparr>g_maxEnchantingLevel := n\<rparr> else g) = shape g" for c n by simp
    have "same_shapes (put_group gid g1 w) w'"
      using assms g Some g1
      by (auto simp: AddMember_def the_group_def sbind_Inr Let_def icons ench shapes
          intro!: same_shapes_upd same_shapes_trans [OF _ SendUpdate_shapes] split: if_splits)
    moreover have b using assms g Some g1 by (auto simp: AddMember_def the_group_def sbind_Inr Let_def)
    ultimately show ?thesis using g Some g1 by (intro that(2)) auto
  qed
qed

lemma AddMember_ok:
  assumes "AddMember e gid p w = Inr (b, w')" "shapes_ok w"
    "\<And>g. gw_groups w gid = Some g \<Longrightarrow> isRaidGroup g \<or> length (g_memberSlots g) < 5"
  shows "shapes_ok w'"
  using assms(1)
proof (cases rule: AddMember_cases)
  case 1
  with assms(2) show ?thesis by simp
next
  case (2 g k g1)
  from place_for_ok [OF shape_ok_fit [OF shapes_okD [OF assms(2) 2(2)]] assms(3) [OF 2(2)] 2(3), of e p] 2(4) have "shape_ok g1" by auto
  with 2(5) assms(2) show ?thesis by (auto intro: shapes_ok_same shapes_ok_put)
qed

lemma AddMember_length:
  assumes "AddMember e gid p w = Inr (b, w')" "gw_groups w gid = Some g" "gw_groups w' gid = Some g'"
  shows "length (g_memberSlots g') \<le> Suc (length (g_memberSlots g))"
  using assms(1)
proof (cases rule: AddMember_cases)
  case (2 g0 k g1)
  have "shape g' = shape g1" using same_shapesD [OF 2(5) assms(3)] by simp
  then have "length (g_memberSlots g') = length (g_memberSlots g1)"
    by (auto simp: shape_def dest: map_eq_imp_length_eq)
  moreover have "length (g_memberSlots g1) = Suc (length (g_memberSlots g0))"
    using 2(4) by (auto simp: SubGroupCounterIncrease_def count_by_def sbind_Inr split: option.splits)
  ultimately show ?thesis using 2(2) assms(2) by simp
qed (use assms in simp)

lemma shapes_ok_mgr [simp]: "shapes_ok (w\<lparr>gw_mgr := mgr\<rparr>) = shapes_ok w"
  "shapes_ok (gemit es w) = shapes_ok w" "shapes_ok (upd_player p f w) = shapes_ok w"
  "shapes_ok (SendPartyResult me op nm res w) = shapes_ok w" "shapes_ok (w\<lparr>gw_rolls := rs\<rparr>) = shapes_ok w"
  by (simp_all add: shapes_ok_def)

text \<open>Adding a member to a group that is being set up.\<close>

definition fits_at :: "nat \<Rightarrow> gworld \<Rightarrow> bool" where
  "fits_at gid w \<longleftrightarrow> (\<forall>i g. gw_groups w i = Some g \<longrightarrow>
     (if i = gid then shape_fit g \<and> (isRaidGroup g \<or> length (g_memberSlots g) < 5) else shape_ok g))"

lemma AddMember_fits:
  assumes "AddMember e gid p w = Inr (True, w')" "fits_at gid w"
  shows "shapes_ok w'"
  using assms(1)
proof (cases rule: AddMember_cases)
  case 1
  then show ?thesis by simp
next
  case (2 g k g1)
  with assms(2) have "shape_fit g" "isRaidGroup g \<or> length (g_memberSlots g) < 5" by (auto simp: fits_at_def)
  with 2 place_for_ok [OF this, of k e p] have "shape_ok g1" by auto
  then have "shapes_ok (put_group gid g1 w)" using assms(2) by (auto simp: shapes_ok_def fits_at_def)
  with 2(5) show ?thesis by (rule shapes_ok_same)
qed

lemma fits_at_simps [simp]: "fits_at gid (gemit es w) = fits_at gid w" "fits_at gid (w\<lparr>gw_mgr := m\<rparr>) = fits_at gid w"
  by (simp_all add: fits_at_def)

lemma fits_at_put:
  "shapes_ok w \<Longrightarrow> shape_fit g \<Longrightarrow> isRaidGroup g \<or> length (g_memberSlots g) < 5 \<Longrightarrow> fits_at gid (put_group gid g w)"
  by (auto simp: fits_at_def shapes_ok_def)

lemma first_of_zeros: "first_free (replicate MAX_RAID_SUBGROUPS 0) 0 = Some 0"
  by code_simp

lemma initRaid_fits:
  assumes "g_memberSlots g = []" "isRaidGroup g"
  shows "\<exists>g1. initRaidSubGroupsCounter g = Inr g1 \<and> shape_fit g1 \<and> g_memberSlots g1 = [] \<and> isRaidGroup g1
    \<and> g_bgGroup g1 = g_bgGroup g \<and> place_for g1 = Some 0"
  using assms zeros_counts
  by (simp add: initRaidSubGroupsCounter_def shape_fit_iff isRaidGroup_def place_for_def first_of_zeros)

lemma group_type_bits [simp]:
  "has_flag GROUP_TYPE_BGRAID GROUP_TYPE_RAID" "\<not> has_flag GROUP_TYPE_NORMAL GROUP_TYPE_RAID"
  by (simp_all add: has_flag_def GROUP_TYPE_BGRAID_def GROUP_TYPE_BG_def GROUP_TYPE_RAID_def GROUP_TYPE_NORMAL_def)

lemma shape_fit_cong: "shape g = shape g' \<Longrightarrow> shape_fit g = shape_fit g'"
  by (simp add: shape_fit_def)

lemma lift_mgr_Inr [simp]: "lift_mgr r = Inr x \<longleftrightarrow> r = Inr x"
  by (auto simp: lift_mgr_def split: sum.split)

lemma lift_mgr_simps [simp]: "lift_mgr (Inr x) = Inr x" "lift_mgr (Inl err) = Inl (MgrError err)"
  by (simp_all add: lift_mgr_def)

lemma setup_shapes [simp]:
  "shape (loot_defaults leader g) = shape g" "shape (stored_group e leader sid g) = shape g"
  by (simp_all add: loot_defaults_def stored_group_def shape_def isRaidGroup_def)

lemma shape_parts:
  "shape g = shape g' \<Longrightarrow> isRaidGroup g = isRaidGroup g' \<and> length (g_memberSlots g) = length (g_memberSlots g')
     \<and> place_for g = place_for g' \<and> shape_fit g = shape_fit g'"
  by (auto simp: shape_def shape_fit_def place_for_def dest: map_eq_imp_length_eq)

lemma AddMember_first: "AddMember e gid p w = Inr (b, w') \<Longrightarrow> gw_groups w gid = Some g \<Longrightarrow> place_for g = Some k \<Longrightarrow> b"
  by (erule AddMember_cases) auto

lemma Create_ok:
  assumes st: "Create e gid leader w = Inr (b, w')" and ok: "shapes_ok w" and g: "gw_groups w gid = Some g"
    and e: "g_memberSlots g = []"
  shows "shapes_ok w'"
proof -
  have "shape_ok g" using ok g by (rule shapes_okD)
  then have nr: "\<not> isRaidGroup g" "g_subGroupsCounts g = None"
    using e by (auto simp: shape_ok_def shape_fit_iff split: option.splits)
  obtain lowguid mgr1 where m: "GenerateGroupId (gw_mgr w) = Inr (lowguid, mgr1)"
    using st g by (auto simp: Create_def the_group_def sbind_Inr)
  let ?g1 = "base_group e leader lowguid g"
  have slots: "g_memberSlots ?g1 = []" "g_subGroupsCounts ?g1 = None" "isRaidGroup ?g1 = isBGGroup g"
    using nr e by (simp_all add: base_group_def isRaidGroup_def)
  show ?thesis
  proof (cases "isBGGroup g")
    case False
    then have "shape_fit ?g1" using slots by (simp add: shape_fit_iff)
    moreover have "shape (stored_group e leader sid (loot_defaults leader ?g1)) = shape ?g1" for sid by simp
    ultimately have fit: "fits_at gid (put_group gid (stored_group e leader sid (loot_defaults leader ?g1)) (w\<lparr>gw_mgr := x\<rparr>))"
      for sid x
      using shape_parts [of "stored_group e leader sid (loot_defaults leader ?g1)" ?g1] slots ok
      by (intro fits_at_put) simp_all
    show ?thesis
      using st g m False slots fit
      by (auto simp: Create_def the_group_def Let_def sbind_Inr split: if_splits dest!: AddMember_fits)
  next
    case True
    obtain g2 where g2: "initRaidSubGroupsCounter ?g1 = Inr g2" "shape_fit g2" "g_memberSlots g2 = []" "isRaidGroup g2"
        "place_for g2 = Some 0"
      using initRaid_fits [of ?g1] True slots by auto
    have g3: "shape_fit (loot_defaults leader g2)" "isRaidGroup (loot_defaults leader g2)" "place_for (loot_defaults leader g2) = Some 0"
      using shape_parts [of "loot_defaults leader g2" g2] g2 by simp_all
    have add: "AddMember e gid leader (put_group gid (loot_defaults leader g2) (w\<lparr>gw_mgr := mgr1\<rparr>)) = Inr (b, w')"
      using st g m True slots g2(1) by (simp add: Create_def the_group_def Let_def)
    have b using AddMember_first [OF add _ g3(3)] by simp
    with add have "AddMember e gid leader (put_group gid (loot_defaults leader g2) (w\<lparr>gw_mgr := mgr1\<rparr>)) = Inr (True, w')" by simp
    then show ?thesis by (rule AddMember_fits) (use g3 ok in \<open>simp add: fits_at_put\<close>)
  qed
qed

lemma initRaid_slots: "initRaidSubGroupsCounter g = Inr g1 \<Longrightarrow> g_memberSlots g1 = g_memberSlots g"
  by (auto simp: initRaidSubGroupsCounter_def sbind_Inr)

lemma setup_slots [simp]:
  "g_memberSlots (base_group e leader low g) = g_memberSlots g" "g_memberSlots (loot_defaults leader g) = g_memberSlots g"
  "g_memberSlots (stored_group e leader sid g) = g_memberSlots g"
  by (simp_all add: base_group_def loot_defaults_def stored_group_def)

text \<open>A created group has its leader.\<close>

lemma Create_adds:
  assumes st: "Create e gid leader w = Inr (b, w')" and g: "gw_groups w gid = Some g"
  shows "\<exists>w0 g0 w1 b1. AddMember e gid leader w0 = Inr (b1, w1) \<and> gw_groups w0 gid = Some g0
    \<and> g_memberSlots g0 = g_memberSlots g \<and> gw_groups w' = gw_groups w1"
proof -
  obtain low mgr1 where m: "GenerateGroupId (gw_mgr w) = Inr (low, mgr1)"
    using st g by (auto simp: Create_def the_group_def sbind_Inr)
  define fin where "fin g2 = (if \<not> isBGGroup g then sbind (lift_mgr (take_store_id gid mgr1)) (\<lambda>(sid, mgr2).
        sbind (AddMember e gid leader (gemit [GSql (insert_stmt (stored_group e leader sid (loot_defaults leader g2)))]
          (put_group gid (stored_group e leader sid (loot_defaults leader g2)) (w\<lparr>gw_mgr := mgr2\<rparr>))))
        (\<lambda>(ok, w3). if ok then Inr (True, gemit [GConvertInstances leader False] w3) else Inl AssertFailed))
      else AddMember e gid leader (put_group gid (loot_defaults leader g2) (w\<lparr>gw_mgr := mgr1\<rparr>)))" for g2
  have "sbind (if isRaidGroup (base_group e leader low g) then initRaidSubGroupsCounter (base_group e leader low g)
      else Inr (base_group e leader low g)) fin = Inr (b, w')"
    using st [unfolded Create_def the_group_def Let_def] g m by (simp add: fin_def [abs_def])
  then have "\<exists>g2. fin g2 = Inr (b, w') \<and> g_memberSlots g2 = g_memberSlots g"
    by (cases "isRaidGroup (base_group e leader low g)") (force simp: sbind_Inr dest: initRaid_slots)+
  then obtain g2 where g2: "g_memberSlots g2 = g_memberSlots g" and st2: "fin g2 = Inr (b, w')" by blast
  note st2 = st2 [unfolded fin_def]
  show ?thesis
  proof (cases "isBGGroup g")
    case True
    with st2 have "AddMember e gid leader (put_group gid (loot_defaults leader g2) (w\<lparr>gw_mgr := mgr1\<rparr>)) = Inr (b, w')" by simp
    with g2 show ?thesis by (intro exI conjI) (assumption, simp, simp, simp)
  next
    case False
    with st2 obtain sid mgr2 w3 where
      "AddMember e gid leader (gemit [GSql (insert_stmt (stored_group e leader sid (loot_defaults leader g2)))]
          (put_group gid (stored_group e leader sid (loot_defaults leader g2)) (w\<lparr>gw_mgr := mgr2\<rparr>))) = Inr (True, w3)"
      "w' = gemit [GConvertInstances leader False] w3"
      by (auto simp: sbind_Inr split: if_splits)
    with g2 show ?thesis by (intro exI conjI) (assumption, simp, simp, simp)
  qed
qed

section \<open>Leaving\<close>

lemma unseat_shapes [shapes]: "same_shapes w (unseat gid bg p w)"
  by (simp add: unseat_def shapes)

lemma part_player_shapes [shapes]: "same_shapes w (part_player e gid m p w)"
  by (auto simp: part_player_def Let_def shapes split: option.split)

lemma disband_member_shapes [shapes]: "same_shapes w (disband_member e gid hide p w)"
  by (auto simp: disband_member_def Let_def shapes intro!: same_shapes_trans [OF _ SendUpdate_shapes] split: option.split)

lemma disband_members_shapes [shapes]: "same_shapes w (disband_members e gid hide ms w)"
proof (induction ms arbitrary: w)
  case (Cons m ms)
  show ?case by (simp, rule same_shapes_trans [OF disband_member_shapes Cons.IH])
qed (simp add: shapes)

text \<open>A disbanded group is gone, and the others are as they were.\<close>

definition same_but :: "nat \<Rightarrow> gworld \<Rightarrow> gworld \<Rightarrow> bool" where
  "same_but gid w w' \<longleftrightarrow> (\<forall>i g'. i \<noteq> gid \<longrightarrow> gw_groups w' i = Some g' \<longrightarrow>
     (\<exists>g. gw_groups w i = Some g \<and> shape g' = shape g))"

lemma same_butI: "same_shapes w w' \<Longrightarrow> same_but gid w w'"
  by (simp add: same_but_def same_shapes_def)

lemma same_but_trans: "same_but gid w w1 \<Longrightarrow> same_but gid w1 w2 \<Longrightarrow> same_but gid w w2"
  unfolding same_but_def by metis

lemma same_but_upd: "same_but gid w w1 \<Longrightarrow> same_but gid w (upd_group gid f w1)"
  by (auto simp: same_but_def upd_group_def split: option.split)

lemma same_but_simps [simp]: "same_but gid w (gemit es w1) = same_but gid w w1"
  "same_but gid w (w1\<lparr>gw_mgr := m\<rparr>) = same_but gid w w1"
  by (simp_all add: same_but_def)

lemma same_but_gone: "same_but gid w w' \<Longrightarrow> gw_groups w' gid = None \<Longrightarrow> same_shapes w w'"
  unfolding same_but_def same_shapes_def by (metis option.distinct(1))

lemma delete_group_gone [simp]: "gw_groups (delete_group gid w) gid = None"
  by (auto simp: delete_group_def Let_def split: option.split)

lemma Disband_shapes: "Disband e gid hide w = Inr w' \<Longrightarrow> same_shapes w w'"
proof -
  assume st: "Disband e gid hide w = Inr w'"
  then obtain g where g: "gw_groups w gid = Some g" by (auto simp: Disband_def sbind_Inr)
  define w1 where "w1 = disband_members e gid hide (g_memberSlots g) (gemit [GDisbandHook] w)"
  define w3 where "w3 = RemoveAllInvites gid (upd_group gid (\<lambda>g. g\<lparr>g_rolls := [], g_memberSlots := []\<rparr>) w1)"
  have "same_shapes (gemit [GDisbandHook] w) w1" unfolding w1_def by (rule shapes)
  then have s1: "same_shapes w w1" by (simp add: same_shapes_def)
  have w3: "same_but gid w w3"
    unfolding w3_def by (rule same_but_trans [OF same_but_upd [OF same_butI [OF s1]] same_butI [OF RemoveAllInvites_shapes]])
  have "\<exists>w4. w' = delete_group gid w4 \<and> same_but gid w w4"
    using st g w3 unfolding Disband_def the_group_def Let_def
    by (auto simp: sbind_Inr simp flip: w1_def w3_def split: if_splits)
  then obtain w4 where w4: "w' = delete_group gid w4" "same_but gid w w4" by blast
  have "same_but gid w w'" unfolding w4(1) by (rule same_but_trans [OF w4(2) same_butI [OF delete_group_shapes]])
  then show ?thesis by (rule same_but_gone) (simp add: w4(1))
qed

lemma with_rolls_shapes: "with_rolls gid f w = Inr w' \<Longrightarrow> same_shapes w w'"
  by (auto simp: with_rolls_def the_group_def same_shapes_def shape_def isRaidGroup_def
      split: option.splits sum.splits if_splits)

lemma erase_slot_length: "List.find (\<lambda>m. ms_guid m = p) ms = Some m \<Longrightarrow> Suc (length (erase_slot p ms)) = length ms"
  by (induction ms) (auto split: if_splits)

lemma drop_slot_ok:
  assumes ok: "shape_ok g" and n: "GetMembersCount g > 1" and d: "drop_slot guid g = Inr g'"
  shows "shape_ok g'"
proof (cases "getMemberSlot guid g")
  case None
  with d ok show ?thesis by (simp add: drop_slot_def)
next
  case (Some m)
  then have f: "List.find (\<lambda>m. ms_guid m = guid) (g_memberSlots g) = Some m" by (simp add: getMemberSlot_def)
  let ?ms = "erase_slot guid (g_memberSlots g)"
  have sub: "\<forall>m\<in>set ?ms. unat (ms_group m) < 8" and m8: "unat (ms_group m) < 8"
    using ok erase_slot_subset(1) [of guid "g_memberSlots g"] find_in_set [OF f] by (auto simp: shape_ok_def shape_fit_iff)
  note len = erase_slot_length [OF f]
  have ne: "?ms \<noteq> []" using n len by (auto simp: GetMembersCount_def)
  note cnt = members_in_erase [OF f]
  show ?thesis
  proof (cases "g_subGroupsCounts g")
    case None
    with d Some have "g' = g\<lparr>g_memberSlots := ?ms\<rparr>"
      by (simp add: drop_slot_def SubGroupCounterDecrease_def count_by_def)
    with None ok sub len show ?thesis by (simp add: shape_ok_def shape_fit_iff isRaidGroup_def)
  next
    case c: (Some cs)
    have cf: "counts_for cs (map ms_group (g_memberSlots g))" "isRaidGroup g"
      "\<forall>k<8. members_in k (map ms_group (g_memberSlots g)) \<le> 5" using ok c by (auto simp: shape_ok_def shape_fit_iff)
    note dec = counts_for_dec [OF cf(1) m8 cnt]
    have "g' = g\<lparr>g_subGroupsCounts := Some (cs[unat (ms_group m) := cs ! unat (ms_group m) + - 1]), g_memberSlots := ?ms\<rparr>"
      using d Some c dec(1) by (simp add: drop_slot_def SubGroupCounterDecrease_def count_by_def)
    moreover have "\<forall>k<8. members_in k (map ms_group ?ms) \<le> 5" using cf(3) cnt by (metis add_leE)
    ultimately show ?thesis using dec(2) cf(2) sub ne by (simp add: shape_ok_def shape_fit_iff isRaidGroup_def)
  qed
qed

lemma shape_count: "shape g = shape g' \<Longrightarrow> GetMembersCount g = GetMembersCount g'"
  by (drule shape_parts) (simp add: GetMembersCount_def)

lemma RemoveMember_ok:
  assumes st: "RemoveMember e gid guid m kicker w = Inr (b, w')" and ok: "shapes_ok w"
  shows "shapes_ok w'"
proof -
  obtain g where g: "gw_groups w gid = Some g" using st by (auto simp: RemoveMember_def sbind_Inr)
  let ?w0 = "gemit [GRemoveHook guid m kicker] (BroadcastGroupUpdate e gid w)"
  let ?small = "if isBGGroup g \<or> isLFGGroup g then 1 else (2 :: nat)"
  have w0: "same_shapes w ?w0" by (simp add: shapes)
  consider "w' = ?w0" | "Disband e gid False ?w0 = Inr w'"
    | "GetMembersCount g > ?small" "\<not> (isLFGGroup g \<and> m = REMOVE_KICK)"
    using st g by (auto simp: RemoveMember_def the_group_def Let_def sbind_Inr split: if_splits)
  then show ?thesis
  proof cases
    case 1
    with w0 ok show ?thesis by (auto intro: shapes_ok_same)
  next
    case 2
    with w0 ok show ?thesis by (blast intro: shapes_ok_same same_shapes_trans Disband_shapes)
  next
    case 3
    let ?w1 = "gemit [GSql (DelGroupMember (GUID_LOPART guid))] (part_player e gid m guid ?w0)"
    let ?w2 = "DelinkMember gid guid ?w1"
    let ?w3 = "if (ge_online e guid \<and> ge_enchanting e guid \<noteq> 0) \<or> \<not> ge_online e guid
      then upd_group gid (ResetMaxEnchantingLevel e) ?w2 else ?w2"
    obtain w4 w5 where w4: "with_rolls gid (\<lambda>s. leave_rolls (ge_loot e) guid (length (rs_rolls s)) 0 s) ?w3 = Inr w4"
      and w5: "on_group gid (drop_slot guid) w4 = Inr w5"
      and fin: "w' = SendUpdate e gid (elect_leader e gid guid w5) \<or>
        Disband e gid False (SendUpdate e gid (elect_leader e gid guid w5)) = Inr w'"
      using st g 3 by (auto simp: RemoveMember_def the_group_def [of gid w] Let_def sbind_Inr split: if_splits)
    have "same_shapes w ?w1" using same_shapes_trans [OF w0 part_player_shapes] by simp
    then have "same_shapes w ?w2" by (rule same_shapes_trans [OF _ DelinkMember_shapes])
    then have "same_shapes w ?w3" by (auto intro: same_shapes_upd)
    then have s4: "same_shapes w w4" by (rule same_shapes_trans [OF _ with_rolls_shapes [OF w4]])
    obtain g4 g5 where g5: "gw_groups w4 gid = Some g4" "drop_slot guid g4 = Inr g5" "w5 = put_group gid g5 w4"
      using w5 by (auto simp: on_group_def sbind_Inr)
    have "shape g4 = shape g" by (rule same_shapesD [OF s4 g5(1) g])
    then have "GetMembersCount g4 = GetMembersCount g" by (rule shape_count)
    then have "GetMembersCount g4 > 1" using 3(1) by (simp split: if_splits)
    moreover have ok4: "shapes_ok w4" using ok s4 by (rule shapes_ok_same [rotated])
    ultimately have "shape_ok g5" using drop_slot_ok [OF shapes_okD [OF ok4 g5(1)] _ g5(2)] by simp
    then have "shapes_ok w5" using ok4 g5(3) by (simp add: shapes_ok_put)
    then have "shapes_ok (SendUpdate e gid (elect_leader e gid guid w5))"
      by (rule shapes_ok_same [OF same_shapes_trans [OF elect_leader_shapes SendUpdate_shapes]])
    with fin show ?thesis by (auto dest: Disband_shapes intro: shapes_ok_same)
  qed
qed

section \<open>Conversions, settings and invitations\<close>

lemma lfg_raid_bit: "has_flag (t OR GROUP_TYPE_LFG OR GROUP_TYPE_LFG_RESTRICTED) GROUP_TYPE_RAID = has_flag t GROUP_TYPE_RAID"
  by (simp add: has_flag_def bit.conj_disj_distrib2 GROUP_TYPE_LFG_def GROUP_TYPE_LFG_RESTRICTED_def GROUP_TYPE_RAID_def)

lemma raid_bit: "has_flag (t OR GROUP_TYPE_RAID) GROUP_TYPE_RAID"
proof -
  have "(t OR GROUP_TYPE_RAID) AND GROUP_TYPE_RAID = GROUP_TYPE_RAID"
    by (simp add: bit.conj_disj_distrib2 bit_eq_iff bit_simps)
  then show ?thesis by (simp add: has_flag_def GROUP_TYPE_RAID_def)
qed

lemma SendUpdate_after: "same_shapes w w1 \<Longrightarrow> same_shapes w (SendUpdate e gid w1)"
  by (rule same_shapes_trans [OF _ SendUpdate_shapes])

lemma ConvertToLFG_shapes: "ConvertToLFG e gid w = Inr w' \<Longrightarrow> same_shapes w w'"
proof -
  assume st: "ConvertToLFG e gid w = Inr w'"
  then obtain g where g: "gw_groups w gid = Some g" by (auto simp: ConvertToLFG_def sbind_Inr)
  have "shape (g\<lparr>g_groupType := g_groupType g OR GROUP_TYPE_LFG OR GROUP_TYPE_LFG_RESTRICTED, g_lootMethod := x\<rparr>) = shape g" for x
    by (simp add: shape_def isRaidGroup_def lfg_raid_bit)
  with st g show ?thesis
    by (auto simp: ConvertToLFG_def the_group_def Let_def
        intro!: SendUpdate_after same_shapes_put shapes)
qed

lemma initRaid_ok:
  assumes ok: "shape_ok g" and ne: "g_memberSlots g \<noteq> []"
    and init: "initRaidSubGroupsCounter (g\<lparr>g_groupType := g_groupType g OR GROUP_TYPE_RAID\<rparr>) = Inr g1"
  shows "shape_ok g1"
proof -
  let ?ms = "g_memberSlots g"
  have lt: "\<forall>m\<in>set ?ms. unat (ms_group m) < 8" using ok by (simp add: shape_ok_def shape_fit_iff)
  have le: "members_in k (map ms_group ?ms) \<le> 5" if "k < 8" for k
    using ok that members_in_le [of k "map ms_group ?ms"] by (auto simp: shape_ok_def shape_fit_iff split: option.splits)
  obtain cs where cs: "count_slots ?ms (replicate MAX_RAID_SUBGROUPS 0) = Inr cs" "counts_for cs (map ms_group ?ms)"
    using count_slots_raid [OF zeros_counts lt] le by auto
  then have "g1 = g\<lparr>g_groupType := g_groupType g OR GROUP_TYPE_RAID, g_subGroupsCounts := Some cs\<rparr>"
    using init by (simp add: initRaidSubGroupsCounter_def)
  then show ?thesis using lt le cs(2) ne by (simp add: shape_ok_def shape_fit_iff isRaidGroup_def raid_bit)
qed

lemma ConvertToRaid_ok:
  assumes st: "ConvertToRaid e gid w = Inr w'" and ok: "shapes_ok w"
    and ne: "\<And>g. gw_groups w gid = Some g \<Longrightarrow> g_memberSlots g \<noteq> []"
  shows "shapes_ok w'"
proof -
  obtain g g1 where g: "gw_groups w gid = Some g"
    "initRaidSubGroupsCounter (g\<lparr>g_groupType := g_groupType g OR GROUP_TYPE_RAID\<rparr>) = Inr g1"
    using st by (auto simp: ConvertToRaid_def sbind_Inr)
  have ok1: "shapes_ok (put_group gid g1 w)"
    using initRaid_ok [OF shapes_okD [OF ok g(1)] ne [OF g(1)] g(2)] ok by (simp add: shapes_ok_put)
  have "same_shapes (put_group gid g1 w) w'"
    using st g by (auto simp: ConvertToRaid_def the_group_def Let_def intro!: SendUpdate_after shapes)
  then show ?thesis using ok1 by (rule shapes_ok_same)
qed

lemma move_member_ok:
  assumes ok: "shape_ok g" and m: "getMemberSlot guid g = Some m" and raid: "isRaidGroup g" and sub: "unat sub < 8"
    and free: "HasFreeSlotSubGroup sub g = Inr True" and diff: "ms_group m \<noteq> sub"
    and inc: "SubGroupCounterIncrease sub (g\<lparr>g_memberSlots := upd_slot guid (\<lambda>m. m\<lparr>ms_group := sub\<rparr>) (g_memberSlots g)\<rparr>) = Inr g1"
    and dec: "SubGroupCounterDecrease (ms_group m) g1 = Inr g2"
  shows "shape_ok g2"
proof -
  let ?ms = "g_memberSlots g" and ?hs = "upd_slot guid (\<lambda>m. m\<lparr>ms_group := sub\<rparr>) (g_memberSlots g)"
  have f: "List.find (\<lambda>m. ms_guid m = guid) ?ms = Some m" using m by (simp add: getMemberSlot_def)
  obtain cs where cs: "g_subGroupsCounts g = Some cs" "counts_for cs (map ms_group ?ms)"
      "\<forall>k<8. members_in k (map ms_group ?ms) \<le> 5" "\<forall>m\<in>set ?ms. unat (ms_group m) < 8"
    using ok raid by (auto simp: shape_ok_def shape_fit_iff split: option.splits)
  have room: "members_in (unat sub) (map ms_group ?ms) < 5"
    using free cs(1,2) sub by (auto simp: HasFreeSlotSubGroup_def counts_for_def MAX_GROUP_SIZE_def split: if_splits)
  have m8: "unat (ms_group m) < 8" using cs(4) find_in_set [OF f] by auto
  have cnt: "members_in k (map ms_group ?hs) + of_bool (unat (ms_group m) = k)
      = members_in k (map ms_group ?ms) + of_bool (unat sub = k)" for k
    using members_in_upd [OF f, of k "\<lambda>m. m\<lparr>ms_group := sub\<rparr>"] by simp
  let ?c1 = "cs[unat sub := cs ! unat sub + 1]"
  note b1 = counts_for_inc [OF cs(2) sub, of "sub # map ms_group ?ms"]
  have b1: "bump 1 sub cs = Inr ?c1" "counts_for ?c1 (sub # map ms_group ?ms)" using b1 room by simp_all
  have "members_in k (sub # map ms_group ?ms) = members_in k (map ms_group ?hs) + of_bool (unat (ms_group m) = k)" for k
    using cnt [of k] by simp
  note b2 = counts_for_dec [OF b1(2) m8 this]
  have g1: "g1 = g\<lparr>g_memberSlots := ?hs, g_subGroupsCounts := Some ?c1\<rparr>"
    using inc cs(1) b1(1) by (simp add: SubGroupCounterIncrease_def count_by_def)
  then have g2: "g2 = g\<lparr>g_memberSlots := ?hs, g_subGroupsCounts := Some (?c1[unat (ms_group m) := ?c1 ! unat (ms_group m) + - 1])\<rparr>"
    using dec b2(1) by (simp add: SubGroupCounterDecrease_def count_by_def)
  have le: "\<forall>k<8. members_in k (map ms_group ?hs) \<le> 5"
  proof (intro allI impI)
    fix k :: nat
    assume "k < 8"
    then show "members_in k (map ms_group ?hs) \<le> 5"
      using cnt [of k] cs(3) room by (cases "unat sub = k"; cases "unat (ms_group m) = k") auto
  qed
  have "\<forall>m\<in>set ?hs. unat (ms_group m) < 8" using cs(4) sub by (auto dest: upd_slot_groups)
  moreover have "?hs \<noteq> []" using f by (cases ?ms) auto
  ultimately show ?thesis using g2 b2(2) le raid by (simp add: shape_ok_def shape_fit_iff isRaidGroup_def)
qed

lemma ChangeMembersGroup_ok:
  assumes st: "ChangeMembersGroup e gid guid sub w = Inr w'" and ok: "shapes_ok w" and sub: "unat sub < 8"
    and free: "\<And>g. gw_groups w gid = Some g \<Longrightarrow> HasFreeSlotSubGroup sub g = Inr True"
  shows "shapes_ok w'"
proof -
  obtain g where g: "gw_groups w gid = Some g" using st by (auto simp: ChangeMembersGroup_def sbind_Inr)
  show ?thesis
  proof (cases "\<not> isRaidGroup g \<or> \<not> IsMember guid g \<or> GetMemberGroup guid g = sub")
    case True
    with st g ok show ?thesis by (auto simp: ChangeMembersGroup_def the_group_def split: if_splits)
  next
    case False
    then obtain m where m: "getMemberSlot guid g = Some m" by (auto simp: IsMember_def)
    then have prev: "GetMemberGroup guid g = ms_group m" by (simp add: GetMemberGroup_def)
    have "\<exists>g1 g2. SubGroupCounterIncrease sub (g\<lparr>g_memberSlots := upd_slot guid (\<lambda>m. m\<lparr>ms_group := sub\<rparr>) (g_memberSlots g)\<rparr>) = Inr g1
      \<and> SubGroupCounterDecrease (ms_group m) g1 = Inr g2 \<and> same_shapes (put_group gid g2 w) w'"
      using st g False prev
      by (auto simp: ChangeMembersGroup_def the_group_def sbind_Inr Let_def intro!: SendUpdate_after shapes)
    then obtain g1 g2 where g12:
      "SubGroupCounterIncrease sub (g\<lparr>g_memberSlots := upd_slot guid (\<lambda>m. m\<lparr>ms_group := sub\<rparr>) (g_memberSlots g)\<rparr>) = Inr g1"
      "SubGroupCounterDecrease (ms_group m) g1 = Inr g2" "same_shapes (put_group gid g2 w) w'" by blast
    have "shape_ok g2"
      using move_member_ok [OF shapes_okD [OF ok g] m _ sub free [OF g] _ g12(1,2)] False prev by simp
    then have "shapes_ok (put_group gid g2 w)" using ok by (simp add: shapes_ok_put)
    with g12(3) show ?thesis by (rule shapes_ok_same)
  qed
qed

lemma SetGroupMemberFlag_shapes [shapes]: "same_shapes w (SetGroupMemberFlag e gid guid b f w)"
proof -
  have "shape (g\<lparr>g_memberSlots := upd_slot guid (ToggleGroupMemberFlag f b) (g_memberSlots g)\<rparr>) = shape g" for g
    by (rule shape_slots) (simp add: upd_slot_group)
  moreover have "shape (g'\<lparr>g_memberSlots := upd_slot guid (ToggleGroupMemberFlag f b) (g_memberSlots g')\<rparr>) = shape g'" for g'
    by (rule shape_slots) (simp add: upd_slot_group)
  ultimately show ?thesis
    by (cases "gw_groups w gid")
      (auto simp: SetGroupMemberFlag_def Let_def shapes intro!: SendUpdate_after same_shapes_put)
qed

lemma assign_flag_shapes [shapes]: "same_shapes w (assign_flag e gid guid b f w)"
  unfolding assign_flag_def
  by (rule same_shapes_trans [OF same_shapes_upd SetGroupMemberFlag_shapes]) (simp_all add: shapes)

lemma put_icon_shapes [shapes]: "same_shapes w (put_icon e gid i who t w)"
  unfolding put_icon_def
  by (rule same_shapes_trans [OF same_shapes_upd BroadcastPacket_shapes]) (simp_all add: shapes)

lemma clear_icons_shapes [shapes]: "same_shapes w (clear_icons e gid t is w)"
proof (induction "is" arbitrary: w)
  case (Cons i "is")
  show ?case
    by (simp, rule same_shapes_trans [OF _ Cons.IH]) (auto simp: shapes split: option.split)
qed (simp add: shapes)

lemma SetTargetIcon_shapes [shapes]: "same_shapes w (SetTargetIcon e gid i who t w)"
  by (auto simp: SetTargetIcon_def shapes intro: same_shapes_trans [OF clear_icons_shapes put_icon_shapes])

lemma SendTargetIconList_shapes [shapes]: "same_shapes w (SendTargetIconList gid p w)"
  by (auto simp: SendTargetIconList_def shapes split: option.split)

lemma UpdateLooterGuid_shapes [shapes]: "same_shapes w (UpdateLooterGuid e gid b w)"
  by (auto simp: UpdateLooterGuid_def Let_def shapes intro!: SendUpdate_after intro: same_shapes_put
      split: option.split prod.split)

lemma difficulty_shapes [shapes]:
  "same_shapes w (SetDungeonDifficulty e gid d w)" "same_shapes w (SetRaidDifficulty e gid d w)"
  by (auto simp: SetDungeonDifficulty_def SetRaidDifficulty_def Let_def shapes intro: same_shapes_put split: option.split)

lemma SetLfgRoles_shapes [shapes]: "same_shapes w (SetLfgRoles e gid guid r w)"
proof -
  have "shape (g\<lparr>g_memberSlots := upd_slot guid (\<lambda>m. m\<lparr>ms_roles := r\<rparr>) (g_memberSlots g)\<rparr>) = shape g" for g
    by (rule shape_slots) (simp add: upd_slot_group)
  then show ?thesis
    by (auto simp: SetLfgRoles_def shapes intro!: SendUpdate_after intro: same_shapes_put split: option.split)
qed

lemma RemoveInvite_shapes [shapes]: "same_shapes w (RemoveInvite gid p w)"
  by (auto simp: RemoveInvite_def intro!: same_shapes_upd shapes)

lemma AddInvite_shapes: "AddInvite gid p w = (b, w') \<Longrightarrow> same_shapes w w'"
  by (auto simp: AddInvite_def shapes intro!: same_shapes_upd split: if_splits)

lemma AddLeaderInvite_shapes: "AddLeaderInvite e gid p w = (b, w') \<Longrightarrow> same_shapes w w'"
  by (auto simp: AddLeaderInvite_def dest: AddInvite_shapes intro!: same_shapes_upd split: prod.splits bool.splits)

lemma UninviteFromGroup_shapes: "UninviteFromGroup e p w = Inr w' \<Longrightarrow> same_shapes w w'"
proof -
  assume st: "UninviteFromGroup e p w = Inr w'"
  show "same_shapes w w'"
  proof (cases "p_invite (gw_players w p)")
    case None
    with st show ?thesis by (simp add: UninviteFromGroup_def shapes)
  next
    case (Some gid)
    let ?w1 = "RemoveInvite gid p w"
    from st Some have "Disband e gid True ?w1 = Inr w' \<or> w' = delete_group gid (RemoveAllInvites gid ?w1) \<or> w' = ?w1"
      by (auto simp: UninviteFromGroup_def Let_def sbind_Inr split: if_splits)
    moreover have "same_shapes ?w1 (delete_group gid (RemoveAllInvites gid ?w1))"
      by (rule same_shapes_trans [OF RemoveAllInvites_shapes delete_group_shapes])
    ultimately have "same_shapes ?w1 w'" by (auto simp: shapes dest: Disband_shapes)
    then show ?thesis by (rule same_shapes_trans [OF RemoveInvite_shapes])
  qed
qed

lemma alloc_group_ok: "alloc_group w = (gid, w') \<Longrightarrow> shapes_ok w \<Longrightarrow> shapes_ok w'"
  by (auto simp: alloc_group_def shapes_ok_def split: if_splits)

section \<open>The handlers\<close>

lemma send_invite_shapes [shapes]: "same_shapes w (send_invite e me p n w)"
  by (simp add: send_invite_def shapes)

lemma invite_to_ok:
  assumes "shapes_ok w"
  shows "shapes_ok (invite_to e me p n grp w)"
proof (cases grp)
  case (Some gid)
  then show ?thesis
    using assms by (auto simp: invite_to_def send_invite_def dest: AddInvite_shapes intro: shapes_ok_same split: prod.split bool.split)
next
  case None
  obtain gid w1 where w1: "alloc_group w = (gid, w1)" by force
  obtain b2 w2 where w2: "AddLeaderInvite e gid me w1 = (b2, w2)" by force
  obtain b3 w3 where w3: "AddInvite gid p w2 = (b3, w3)" by force
  have ok2: "shapes_ok w2" using alloc_group_ok [OF w1 assms] AddLeaderInvite_shapes [OF w2] by (rule shapes_ok_same [rotated])
  have ok3: "shapes_ok w3" using ok2 AddInvite_shapes [OF w3] by (rule shapes_ok_same [rotated])
  show ?thesis
    using ok2 ok3 shapes_ok_same [OF delete_group_shapes]
    by (simp add: None invite_to_def w1 w2 w3 send_invite_def split: bool.split)
qed

lemma HandleGroupInviteOpcode_ok: "HandleGroupInviteOpcode e h me n w = Inr w' \<Longrightarrow> shapes_ok w \<Longrightarrow> shapes_ok w'"
  by (auto simp: HandleGroupInviteOpcode_def sbind_Inr invite_to_ok split: option.splits if_splits)

lemma HandleGroupAcceptOpcode_ok:
  assumes st: "HandleGroupAcceptOpcode e me w = Inr w'" and ok: "shapes_ok w"
  shows "shapes_ok w'"
proof (cases "p_invite (gw_players w me)")
  case None
  with st ok show ?thesis by (simp add: HandleGroupAcceptOpcode_def)
next
  case (Some gid)
  obtain g where g: "gw_groups w gid = Some g" using st Some by (auto simp: HandleGroupAcceptOpcode_def sbind_Inr)
  let ?w1 = "RemoveInvite gid me w"
  have ok1: "shapes_ok ?w1" using RemoveInvite_shapes ok by (rule shapes_ok_same)
  have "w' = ?w1 \<or> w' = SendPartyResult me PARTY_OP_INVITE [] ERR_GROUP_FULL ?w1 \<or> w' = RemoveAllInvites gid ?w1
    \<or> \<not> IsFull g" using st Some g by (auto simp: HandleGroupAcceptOpcode_def the_group_def Let_def split: if_splits)
  moreover have "shapes_ok (RemoveAllInvites gid ?w1)" using RemoveAllInvites_shapes ok1 by (rule shapes_ok_same)
  moreover have "shapes_ok w'" if nf: "\<not> IsFull g" and "w' \<noteq> ?w1" "w' \<noteq> RemoveAllInvites gid ?w1"
  proof -
    let ?create = "sbind (Create e gid (g_leaderGuid g) (RemoveInvite gid (g_leaderGuid g) ?w1)) (\<lambda>(ok, w2).
        sbind (the_group gid w2) (\<lambda>g2. Inr (w2\<lparr>gw_mgr := AddGroup (GUID_LOPART (g_guid g2)) gid (gw_mgr w2)\<rparr>)))"
    from st Some g that obtain w3 b w4 where
      w3: "(if IsCreated g then Inr ?w1 else ?create) = Inr w3" and
      w4: "AddMember e gid me w3 = Inr (b, w4)" "w' = BroadcastGroupUpdate e gid w4 \<or> w' = w4"
      by (auto simp: HandleGroupAcceptOpcode_def the_group_def [of gid w] Let_def sbind_Inr split: if_splits)
    have room: "isRaidGroup g \<or> length (g_memberSlots g) < 5"
      using nf by (auto simp: IsFull_def GetMembersCount_def MAX_GROUP_SIZE_def split: if_splits)
    have "shapes_ok w3 \<and> (\<forall>g3. gw_groups w3 gid = Some g3 \<longrightarrow> isRaidGroup g3 \<or> length (g_memberSlots g3) < 5)"
    proof (cases "IsCreated g")
      case True
      with w3 have "w3 = ?w1" by simp
      then show ?thesis using ok1 room shape_parts same_shapesD [OF RemoveInvite_shapes _ g] by metis
    next
      case False
      let ?w2 = "RemoveInvite gid (g_leaderGuid g) ?w1"
      from w3 False obtain b2 w2 mgr where w2: "Create e gid (g_leaderGuid g) ?w2 = Inr (b2, w2)" "w3 = w2\<lparr>gw_mgr := mgr\<rparr>"
        by (auto simp: sbind_Inr split: if_splits)
      have sh: "same_shapes w ?w2" by (rule same_shapes_trans [OF RemoveInvite_shapes RemoveInvite_shapes])
      obtain g2 where g2: "gw_groups ?w2 gid = Some g2" using w2(1) by (auto simp: Create_def sbind_Inr)
      have "g_memberSlots g = []" using False by (simp add: IsCreated_def GetMembersCount_def)
      moreover have "shape g2 = shape g" by (rule same_shapesD [OF sh g2 g])
      ultimately have e2: "g_memberSlots g2 = []" by (simp add: shape_def)
      have "shapes_ok ?w2" using sh ok by (rule shapes_ok_same)
      from Create_ok [OF w2(1) this g2 e2] have "shapes_ok w2" .
      moreover have "length (g_memberSlots g3) \<le> 1" if g3: "gw_groups w2 gid = Some g3" for g3
        using Create_adds [OF w2(1) g2] e2 g3 AddMember_length by (fastforce simp: g3)
      ultimately show ?thesis using w2(2) by force
    qed
    then have "shapes_ok w4" using AddMember_ok [OF w4(1)] by blast
    with w4(2) show ?thesis using shapes_ok_same [OF BroadcastGroupUpdate_shapes] by auto
  qed
  ultimately show ?thesis using ok1 by auto
qed

end
