(* ===== verification/Group_Props.thy ===== *)
theory Group_Props
  imports Group_Inv
begin

text \<open>
  What the groups promise: the counters of the raid groups are exact in every state the server
  can reach, the round robin is fair, and where the code breaks what it means to do.
\<close>

section \<open>The other handlers keep the counters\<close>

lemma in_group_Inr: "in_group me w f = Inr w' \<longleftrightarrow>
  (GetGroup me w = None \<and> w' = w) \<or> (\<exists>gid g. GetGroup me w = Some gid \<and> gw_groups w gid = Some g \<and> f gid g = Inr w')"
  by (auto simp: in_group_def sbind_Inr split: option.split)

lemma HandleGroupDeclineOpcode_ok: "HandleGroupDeclineOpcode e me w = Inr w' \<Longrightarrow> shapes_ok w \<Longrightarrow> shapes_ok w'"
  by (auto simp: HandleGroupDeclineOpcode_def sbind_Inr shapes_ok_def split: option.splits if_splits
      dest!: UninviteFromGroup_shapes dest: shapes_ok_same [unfolded shapes_ok_def])

lemma HandleGroupUninviteGuidOpcode_ok:
  "HandleGroupUninviteGuidOpcode e me guid w = Inr w' \<Longrightarrow> shapes_ok w \<Longrightarrow> shapes_ok w'"
  by (auto simp: HandleGroupUninviteGuidOpcode_def sbind_Inr split: option.splits if_splits
      dest: RemoveMember_ok UninviteFromGroup_shapes intro: shapes_ok_same)

lemma HandleGroupUninviteOpcode_ok:
  "HandleGroupUninviteOpcode e h me name w = Inr w' \<Longrightarrow> shapes_ok w \<Longrightarrow> shapes_ok w'"
  by (auto simp: HandleGroupUninviteOpcode_def Let_def sbind_Inr split: option.splits if_splits
      dest: RemoveMember_ok UninviteFromGroup_shapes intro: shapes_ok_same)

lemma HandleGroupDisbandOpcode_ok:
  "HandleGroupDisbandOpcode e h me w = Inr w' \<Longrightarrow> shapes_ok w \<Longrightarrow> shapes_ok w'"
  by (auto simp: HandleGroupDisbandOpcode_def sbind_Inr split: option.splits if_splits intro: RemoveMember_ok)

lemma HandleGroupRaidConvertOpcode_ok:
  assumes "HandleGroupRaidConvertOpcode e me w = Inr w'" "shapes_ok w"
  shows "shapes_ok w'"
proof -
  let ?w = "SendPartyResult me PARTY_OP_INVITE [] ERR_PARTY_RESULT_OK w"
  from assms(1) consider "w' = w" | gid g where "gw_groups w gid = Some g" "g_memberSlots g \<noteq> []" "ConvertToRaid e gid ?w = Inr w'"
    by (force simp: HandleGroupRaidConvertOpcode_def in_group_Inr GetMembersCount_def split: if_splits)
  then show ?thesis
  proof cases
    case 2
    from 2(3) show ?thesis by (rule ConvertToRaid_ok) (use 2 assms(2) in simp_all)
  qed (use assms(2) in simp)
qed

lemma HandleGroupChangeSubGroupOpcode_ok:
  assumes "HandleGroupChangeSubGroupOpcode e h me name k w = Inr w'" "shapes_ok w"
  shows "shapes_ok w'"
proof -
  from assms(1) consider "w' = w" | gid g p where "gw_groups w gid = Some g" "unat k < 8"
      "HasFreeSlotSubGroup k g = Inr True" "ChangeMembersGroup e gid p k w = Inr w'"
    by (auto simp: HandleGroupChangeSubGroupOpcode_def in_group_Inr sbind_Inr MAX_RAID_SUBGROUPS_def MAX_RAID_SIZE_def
        MAX_GROUP_SIZE_def split: if_splits)
  then show ?thesis
  proof cases
    case 2
    from 2(4) show ?thesis by (rule ChangeMembersGroup_ok) (use 2 assms(2) in simp_all)
  qed (use assms(2) in simp)
qed

lemma HandleGroupSetLeaderOpcode_shapes: "HandleGroupSetLeaderOpcode e me guid w = Inr w' \<Longrightarrow> same_shapes w w'"
  by (auto simp: HandleGroupSetLeaderOpcode_def in_group_Inr shapes intro!: SendUpdate_after)

lemma HandleLootMethodOpcode_shapes: "HandleLootMethodOpcode e me a guid c w = Inr w' \<Longrightarrow> same_shapes w w'"
  by (auto simp: HandleLootMethodOpcode_def in_group_Inr SetLootThreshold_def SetLooterGuid_def SetLootMethod_def shapes
      intro!: SendUpdate_after same_shapes_put)

lemma HandleRaidTargetUpdateOpcode_shapes: "HandleRaidTargetUpdateOpcode e me x guid w = Inr w' \<Longrightarrow> same_shapes w w'"
  by (auto simp: HandleRaidTargetUpdateOpcode_def in_group_Inr shapes)

lemma HandleGroupAssistantLeaderOpcode_shapes:
  "HandleGroupAssistantLeaderOpcode e me guid b w = Inr w' \<Longrightarrow> same_shapes w w'"
  by (auto simp: HandleGroupAssistantLeaderOpcode_def in_group_Inr shapes intro!: SendUpdate_after)

lemma HandlePartyAssignmentOpcode_shapes:
  "HandlePartyAssignmentOpcode e me x b guid w = Inr w' \<Longrightarrow> same_shapes w w'"
  by (auto simp: HandlePartyAssignmentOpcode_def in_group_Inr shapes intro!: SendUpdate_after)

lemma HandleRaidReadyCheckOpcode_shapes: "HandleRaidReadyCheckOpcode e me answer w = Inr w' \<Longrightarrow> same_shapes w w'"
  by (cases answer)
    (auto simp: HandleRaidReadyCheckOpcode_def in_group_Inr shapes
      intro: same_shapes_trans [OF BroadcastPacket_shapes ready_shapes(3)])

lemma HandleMinimapPingOpcode_shapes: "HandleMinimapPingOpcode e me y z w = Inr w' \<Longrightarrow> same_shapes w w'"
  by (auto simp: HandleMinimapPingOpcode_def in_group_Inr shapes)

lemma HandleRandomRollOpcode_shapes: "same_shapes w (HandleRandomRollOpcode e me a b r w)"
  by (auto simp: HandleRandomRollOpcode_def Let_def shapes split: option.split)

section \<open>Reachable states\<close>

text \<open>
  What the server does with groups: the packets of the sessions, the calls of the battlegrounds
  and the dungeon finder, and whatever changes players, loot or managers only. A battleground
  adds to its raid, the dungeon finder to a party of at most five.
\<close>

inductive group_step :: "gworld \<Rightarrow> gworld \<Rightarrow> bool" where
  Invite: "HandleGroupInviteOpcode e h me name w = Inr w' \<Longrightarrow> group_step w w'"
| Accept: "HandleGroupAcceptOpcode e me w = Inr w' \<Longrightarrow> group_step w w'"
| Decline: "HandleGroupDeclineOpcode e me w = Inr w' \<Longrightarrow> group_step w w'"
| UninviteGuid: "HandleGroupUninviteGuidOpcode e me guid w = Inr w' \<Longrightarrow> group_step w w'"
| UninviteName: "HandleGroupUninviteOpcode e h me name w = Inr w' \<Longrightarrow> group_step w w'"
| Leave: "HandleGroupDisbandOpcode e h me w = Inr w' \<Longrightarrow> group_step w w'"
| SetLeader: "HandleGroupSetLeaderOpcode e me guid w = Inr w' \<Longrightarrow> group_step w w'"
| LootMethod: "HandleLootMethodOpcode e me method guid threshold w = Inr w' \<Longrightarrow> group_step w w'"
| TargetIcon: "HandleRaidTargetUpdateOpcode e me x guid w = Inr w' \<Longrightarrow> group_step w w'"
| RaidConvert: "HandleGroupRaidConvertOpcode e me w = Inr w' \<Longrightarrow> group_step w w'"
| ChangeSubGroup: "HandleGroupChangeSubGroupOpcode e h me name k w = Inr w' \<Longrightarrow> group_step w w'"
| Assistant: "HandleGroupAssistantLeaderOpcode e me guid b w = Inr w' \<Longrightarrow> group_step w w'"
| Assignment: "HandlePartyAssignmentOpcode e me x b guid w = Inr w' \<Longrightarrow> group_step w w'"
| ReadyCheck: "HandleRaidReadyCheckOpcode e me answer w = Inr w' \<Longrightarrow> group_step w w'"
| Ping: "HandleMinimapPingOpcode e me y z w = Inr w' \<Longrightarrow> group_step w w'"
| RandomRoll: "group_step w (HandleRandomRollOpcode e me lo hi roll w)"
| ServerCreate: "alloc_group w = (gid, w1) \<Longrightarrow>
    Create e gid leader (upd_group gid (SetBattlegroundGroup bg) w1) = Inr (b, w') \<Longrightarrow> group_step w w'"
| ServerAdd: "AddMember e gid p w = Inr (b, w') \<Longrightarrow>
    (\<And>g. gw_groups w gid = Some g \<Longrightarrow> isRaidGroup g \<or> GetMembersCount g < MAX_GROUP_SIZE) \<Longrightarrow> group_step w w'"
| ServerRemove: "RemoveMember e gid p m kicker w = Inr (b, w') \<Longrightarrow> group_step w w'"
| ServerDisband: "Disband e gid hide w = Inr w' \<Longrightarrow> group_step w w'"
| ServerLfg: "ConvertToLFG e gid w = Inr w' \<Longrightarrow> group_step w w'"
| Roles: "group_step w (SetLfgRoles e gid guid r w)"
| Looter: "group_step w (UpdateLooterGuid e gid b w)"
| Dungeon: "group_step w (SetDungeonDifficulty e gid d w)"
| Raid: "group_step w (SetRaidDifficulty e gid d w)"
| Other: "gw_groups w' = gw_groups w \<Longrightarrow> group_step w w'"

inductive_cases group_stepE: "group_step w w'"

lemma server_create_ok:
  assumes "alloc_group w = (gid, w1)" "Create e gid leader (upd_group gid (SetBattlegroundGroup bg) w1) = Inr (b, w')"
    "shapes_ok w"
  shows "shapes_ok w'"
proof -
  let ?w2 = "upd_group gid (SetBattlegroundGroup bg) w1"
  have new: "gw_groups w1 gid = Some new_group" using assms(1) by (auto simp: alloc_group_def)
  then have g2: "gw_groups ?w2 gid = Some (SetBattlegroundGroup bg new_group)" by (simp add: upd_group_def)
  have "same_shapes w1 ?w2"
    by (rule same_shapes_upd) (simp_all add: shapes SetBattlegroundGroup_def shape_def isRaidGroup_def)
  then have ok2: "shapes_ok ?w2" using alloc_group_ok [OF assms(1,3)] by (rule shapes_ok_same)
  have "g_memberSlots (SetBattlegroundGroup bg new_group) = []"
    unfolding SetBattlegroundGroup_def by (simp add: new_group_def)
  with Create_ok [OF assms(2) ok2 g2] show ?thesis by blast
qed

lemmas settings_shapes = HandleGroupSetLeaderOpcode_shapes HandleLootMethodOpcode_shapes HandleRaidTargetUpdateOpcode_shapes
  HandleGroupAssistantLeaderOpcode_shapes HandlePartyAssignmentOpcode_shapes HandleRaidReadyCheckOpcode_shapes
  HandleMinimapPingOpcode_shapes HandleRandomRollOpcode_shapes Disband_shapes ConvertToLFG_shapes SetLfgRoles_shapes
  UpdateLooterGuid_shapes difficulty_shapes

lemmas membership_ok = HandleGroupInviteOpcode_ok HandleGroupAcceptOpcode_ok HandleGroupDeclineOpcode_ok
  HandleGroupUninviteGuidOpcode_ok HandleGroupUninviteOpcode_ok HandleGroupDisbandOpcode_ok
  HandleGroupRaidConvertOpcode_ok HandleGroupChangeSubGroupOpcode_ok RemoveMember_ok server_create_ok

lemma group_step_ok:
  assumes "group_step w w'" and ok: "shapes_ok w"
  shows "shapes_ok w'"
  using assms(1)
proof cases
  case (ServerAdd e gid p b)
  from ServerAdd(1) ok show ?thesis
    by (rule AddMember_ok) (use ServerAdd(2) in \<open>simp add: GetMembersCount_def MAX_GROUP_SIZE_def\<close>)
next
  case Other
  with ok show ?thesis by (simp add: shapes_ok_def)
qed (blast intro: ok shapes_ok_same settings_shapes dest: membership_ok)+

lemma reached_shapes_ok: "group_step\<^sup>*\<^sup>* w0 w \<Longrightarrow> gw_groups w0 = Map.empty \<Longrightarrow> shapes_ok w"
  by (induction rule: rtranclp_induct) (auto simp: shapes_ok_def [of w0] intro: group_step_ok)

text \<open>A small world for the witnesses: every player is online, in the world and near.\<close>

definition sample_group_env :: group_env where
  "sample_group_env = \<lparr>ge_online = (\<lambda>p. True), ge_session = (\<lambda>p. True), ge_in_world = (\<lambda>p. True),
     ge_name = (\<lambda>p. if p = 1 then ''Ann'' else if p = 2 then ''Bob'' else ''Cid''), ge_enchanting = (\<lambda>p. 0),
     ge_level = (\<lambda>p. 80), ge_dungeonDifficulty = (\<lambda>p. 0), ge_raidDifficulty = (\<lambda>p. 0), ge_near = (\<lambda>p. True),
     ge_bound_here = (\<lambda>p. False), ge_to_homebind = (\<lambda>p. False), ge_alive = (\<lambda>p. True), ge_map = (\<lambda>p. 0),
     ge_lfg_map = (\<lambda>p. None), ge_lfg_finished = (\<lambda>p. False), ge_lfg_dungeon = (\<lambda>p. 0), ge_kicks_left = (\<lambda>p. 0),
     ge_votes_needed = (\<lambda>p. 0), ge_lfg_boot = (\<lambda>p. False), ge_in_combat = (\<lambda>p. False),
     ge_in_battleground = (\<lambda>p. False),
     ge_loot = \<lparr>le_player = (\<lambda>p. True), le_session = (\<lambda>p. True), le_proto = (\<lambda>i. None), le_allowed = (\<lambda>i p. True),
       le_near = (\<lambda>p. True), le_pass = (\<lambda>p. False), le_can_roll = (\<lambda>p i. True), le_can_store = (\<lambda>p i n. 0), le_map = 0\<rparr>\<rparr>"

definition sample_party_env :: party_env where
  "sample_party_env = \<lparr>pe_normalize = Some,
     pe_find_name = (\<lambda>n. if n = ''Ann'' then Some 1 else if n = ''Bob'' then Some 2 else None),
     pe_guid_by_name = (\<lambda>n. 0), pe_gm = (\<lambda>p. False), pe_allow_gm = False, pe_two_sides = False, pe_team = (\<lambda>p. 469),
     pe_instance = (\<lambda>p. 0), pe_ignores = (\<lambda>p q. False), pe_outdoor_pvp = (\<lambda>p. False)\<rparr>"

definition no_groups :: gworld where
  "no_groups = \<lparr>gw_groups = Map.empty,
     gw_players = (\<lambda>p. \<lparr>p_group = None, p_subGroup = 0, p_original = None, p_originalSub = 0, p_invite = None\<rparr>),
     gw_fresh = 0, gw_mgr = new_group_mgr,
     gw_rolls = \<lparr>rs_rolls = [], rs_loots = (\<lambda>i. None), rs_dice = (\<lambda>n. 1), rs_thrown = 0, rs_nextItem = 1, rs_out = []\<rparr>,
     gw_out = []\<rparr>"

text \<open>Ann invites Bob, Bob accepts, and Ann makes the group a raid.\<close>

definition sample_raid :: "group_error + gworld" where
  "sample_raid = sbind (HandleGroupInviteOpcode sample_group_env sample_party_env 1 ''Bob'' no_groups) (\<lambda>w1.
     sbind (HandleGroupAcceptOpcode sample_group_env 2 w1) (\<lambda>w2.
     HandleGroupRaidConvertOpcode sample_group_env 1 w2))"

lemma sample_raid_runs:
  "\<exists>w g. sample_raid = Inr w \<and> gw_groups w 0 = Some g \<and> isRaidGroup g \<and> length (g_memberSlots g) = 2"
proof -
  have "case sample_raid of Inl err \<Rightarrow> False
    | Inr w \<Rightarrow> (case gw_groups w 0 of None \<Rightarrow> False | Some g \<Rightarrow> isRaidGroup g \<and> length (g_memberSlots g) = 2)"
    by code_simp
  then show ?thesis by (auto split: sum.splits option.splits)
qed

lemma sample_raid_steps: "sample_raid = Inr w \<Longrightarrow> group_step\<^sup>*\<^sup>* no_groups w"
  unfolding sample_raid_def sbind_Inr
  by (blast intro: rtranclp.rtrancl_into_rtrancl group_step.Invite group_step.Accept group_step.RaidConvert)

text \<open>
  C25: in every state the server can reach from one without groups, the counter of each raid
  sub-group is the number of its members and at most five, a raid has at least one member, and a
  party has at most five and no counters.
\<close>

theorem group_counters_exact:
  assumes "group_step\<^sup>*\<^sup>* w0 w" "gw_groups w0 = Map.empty" "gw_groups w gid = Some g"
  shows "if isRaidGroup g
    then g_memberSlots g \<noteq> [] \<and> (\<exists>cs. g_subGroupsCounts g = Some cs \<and> length cs = 8 \<and>
        (\<forall>k<8. unat (cs ! k) = length (filter (\<lambda>m. unat (ms_group m) = k) (g_memberSlots g)) \<and> unat (cs ! k) \<le> 5)) \<and>
        (\<forall>m\<in>set (g_memberSlots g). unat (ms_group m) < 8)
    else g_subGroupsCounts g = None \<and> GetMembersCount g \<le> 5"
proof -
  have "members_in k (map ms_group ms) = length (filter (\<lambda>m. unat (ms_group m) = k) ms)" for k ms
    by (induction ms) simp_all
  moreover have "shape_ok g" using reached_shapes_ok [OF assms(1,2)] assms(3) by (simp add: shapes_ok_def)
  ultimately show ?thesis
    by (auto simp: shape_ok_def shape_fit_iff counts_for_def GetMembersCount_def split: option.splits)
qed

lemma group_counters_exact_witness:
  "\<exists>w g cs. sample_raid = Inr w \<and> gw_groups w 0 = Some g \<and> g_subGroupsCounts g = Some cs \<and> length cs = 8
    \<and> length (g_memberSlots g) = 2
    \<and> (\<forall>k<8. unat (cs ! k) = length (filter (\<lambda>m. unat (ms_group m) = k) (g_memberSlots g)))"
proof -
  obtain w g where w: "sample_raid = Inr w" "gw_groups w 0 = Some g" "isRaidGroup g" "length (g_memberSlots g) = 2"
    using sample_raid_runs by blast
  have "gw_groups no_groups = Map.empty" by (simp add: no_groups_def)
  from group_counters_exact [OF sample_raid_steps [OF w(1)] this w(2)] w show ?thesis by auto
qed

section \<open>The round robin\<close>

text \<open>The members who can be given the next turn, in the order of the slots.\<close>

definition takers :: "group_env \<Rightarrow> group \<Rightarrow> u64 list" where
  "takers e g = filter (\<lambda>p. ge_online e p \<and> ge_near e p) (map ms_guid (g_memberSlots g))"

text \<open>What an update leaves alone.\<close>

definition same_table :: "nat \<Rightarrow> gworld \<Rightarrow> gworld \<Rightarrow> bool" where
  "same_table gid w w' \<longleftrightarrow> (\<forall>g. gw_groups w gid = Some g \<longrightarrow> (\<exists>g'. gw_groups w' gid = Some g'
     \<and> g_memberSlots g' = g_memberSlots g \<and> g_lootMethod g' = g_lootMethod g \<and> g_looterGuid g' = g_looterGuid g))"

lemma same_table_trans: "same_table gid w w1 \<Longrightarrow> same_table gid w1 w2 \<Longrightarrow> same_table gid w w2"
  unfolding same_table_def by metis

lemma SendUpdateToPlayer_table: "same_table gid w (SendUpdateToPlayer e i p slot w)"
  by (auto simp: same_table_def SendUpdateToPlayer_def split: option.splits)

lemma send_updates_table: "same_table gid w (send_updates e i ms w)"
proof (induction ms arbitrary: w)
  case (Cons m ms)
  show ?case by (simp, rule same_table_trans [OF SendUpdateToPlayer_table Cons.IH])
qed (simp add: same_table_def)

lemma SendUpdate_table: "same_table gid w (SendUpdate e i w)"
  using send_updates_table by (auto simp: SendUpdate_def same_table_def split: option.split)

text \<open>The first taker after the looter, or the first one up to and including the looter.\<close>

lemma search_looter_hd:
  "search_looter e ms = (case filter (\<lambda>p. ge_online e p \<and> ge_near e p) (map ms_guid ms) of [] \<Rightarrow> None | p # ps \<Rightarrow> Some p)"
  by (induction ms) (auto simp: search_looter_def)

lemma split_at_split: "p \<in> set (map ms_guid ms) \<Longrightarrow> \<exists>xs m ys. split_at p ms = (xs, m # ys) \<and> ms = xs @ m # ys \<and> ms_guid m = p"
  by (induction ms) (auto split: prod.split)

lemma distinct_nth_split:
  assumes "distinct (as @ p # bs)" "j < length (as @ p # bs)" "(as @ p # bs) ! j = p"
  shows "j = length as"
  using assms by (metis length_append nth_append_length nth_eq_iff_index_eq length_Cons add_Suc_right less_add_Suc1)

lemma next_in_turn: "(as @ p # bs) ! (Suc (length as) mod length (as @ p # bs))
  = (case bs of q # qs \<Rightarrow> q | [] \<Rightarrow> (case as of q # qs \<Rightarrow> q | [] \<Rightarrow> p))"
  by (cases bs; cases as) (simp_all add: nth_append)

lemma round_robin_next:
  assumes g: "gw_groups w gid = Some g" and m: "g_lootMethod g \<noteq> MASTER_LOOT" "g_lootMethod g \<noteq> FREE_FOR_ALL"
    and d: "distinct (map ms_guid (g_memberSlots g))" and j: "j < length (takers e g)" "g_looterGuid g = takers e g ! j"
  shows "\<exists>g'. gw_groups (UpdateLooterGuid e gid False w) gid = Some g' \<and> g_memberSlots g' = g_memberSlots g
    \<and> g_lootMethod g' = g_lootMethod g \<and> g_looterGuid g' = takers e g ! (Suc j mod length (takers e g))"
proof -
  let ?t = "\<lambda>ms. filter (\<lambda>p. ge_online e p \<and> ge_near e p) (map ms_guid ms)" and ?p = "g_looterGuid g"
  have "?p \<in> set (takers e g)" using j by simp
  then have p: "ge_online e ?p \<and> ge_near e ?p" "?p \<in> set (map ms_guid (g_memberSlots g))" by (auto simp: takers_def)
  then obtain xs s ys where s: "split_at ?p (g_memberSlots g) = (xs, s # ys)" "g_memberSlots g = xs @ s # ys" "ms_guid s = ?p"
    using split_at_split by blast
  have L: "takers e g = ?t xs @ ?p # ?t ys" using s p by (simp add: takers_def)
  have "j = length (?t xs)"
    using distinct_nth_split [of "?t xs" ?p "?t ys" j] j d L by (metis distinct_filter takers_def)
  then have nxt: "takers e g ! (Suc j mod length (takers e g))
      = (case ?t ys of q # qs \<Rightarrow> q | [] \<Rightarrow> (case ?t xs of q # qs \<Rightarrow> q | [] \<Rightarrow> ?p))" (is "_ = ?q")
    unfolding L by (simp only: next_in_turn)
  have q: "(case search_looter e ys of Some q \<Rightarrow> Some q | None \<Rightarrow> search_looter e (xs @ [hd (s # ys)])) = Some ?q"
    using p s by (auto simp: search_looter_hd split: list.split)
  let ?w = "put_group gid (g\<lparr>g_looterGuid := ?q\<rparr>) w"
  have "UpdateLooterGuid e gid False w = (if ?p \<noteq> ?q then SendUpdate e gid ?w else w)"
    using g m s q by (simp add: UpdateLooterGuid_def)
  moreover have "same_table gid ?w (SendUpdate e gid ?w)" by (rule SendUpdate_table)
  ultimately show ?thesis unfolding nxt using g by (auto simp: same_table_def)
qed

text \<open>
  C27: while the members who are online and near stay the same, the turns go round all of them in
  the order of the slots: after \<open>k\<close> updates it is the turn of the \<open>k\<close>-th one after the current
  looter, so in as many updates as there are takers each has exactly one turn.
\<close>

theorem round_robin_fair:
  assumes "gw_groups w gid = Some g" "g_lootMethod g \<noteq> MASTER_LOOT" "g_lootMethod g \<noteq> FREE_FOR_ALL"
    "distinct (map ms_guid (g_memberSlots g))" "j < length (takers e g)" "g_looterGuid g = takers e g ! j"
  shows "\<exists>g'. gw_groups ((UpdateLooterGuid e gid False ^^ k) w) gid = Some g' \<and> g_memberSlots g' = g_memberSlots g
    \<and> g_lootMethod g' = g_lootMethod g \<and> g_looterGuid g' = takers e g ! ((j + k) mod length (takers e g))"
proof (induction k)
  case 0
  with assms show ?case by simp
next
  case (Suc k)
  then obtain g1 where g1: "gw_groups ((UpdateLooterGuid e gid False ^^ k) w) gid = Some g1"
    "g_memberSlots g1 = g_memberSlots g" "g_lootMethod g1 = g_lootMethod g"
    "g_looterGuid g1 = takers e g ! ((j + k) mod length (takers e g))" by blast
  have t: "takers e g1 = takers e g" using g1(2) by (simp add: takers_def)
  have lt: "(j + k) mod length (takers e g) < length (takers e g)" using assms(5) by (intro mod_less_divisor) linarith
  from round_robin_next [OF g1(1), of "(j + k) mod length (takers e g)" e] g1 t lt assms(2-4)
  show ?case by (simp add: mod_Suc_eq)
qed

lemma round_robin_fair_witness:
  "\<exists>w g. sample_raid = Inr w \<and> gw_groups w 0 = Some g \<and> g_looterGuid g = 1
    \<and> (\<exists>g'. gw_groups ((UpdateLooterGuid sample_group_env 0 False ^^ 5) w) 0 = Some g' \<and> g_looterGuid g' = 2)"
proof -
  have "case sample_raid of Inl err \<Rightarrow> False
    | Inr w \<Rightarrow> (case gw_groups w 0 of None \<Rightarrow> False | Some g \<Rightarrow> g_lootMethod g = 3 \<and> g_looterGuid g = 1
        \<and> map ms_guid (g_memberSlots g) = [1, 2])"
    by code_simp
  then obtain w g where w: "sample_raid = Inr w" "gw_groups w 0 = Some g" "g_lootMethod g = 3" "g_looterGuid g = 1"
      "map ms_guid (g_memberSlots g) = [1, 2]"
    by (auto split: sum.splits option.splits)
  have t: "takers sample_group_env g = [1, 2]" using w(5) by (simp add: takers_def sample_group_env_def)
  have "[1, 2] ! ((0 + 5) mod length [1 :: u64, 2]) = (2 :: u64)" by code_simp
  with round_robin_fair [OF w(2), of 0 sample_group_env 5] w t
  have "\<exists>g'. gw_groups ((UpdateLooterGuid sample_group_env 0 False ^^ 5) w) 0 = Some g' \<and> g_looterGuid g' = 2"
    by (force simp: MASTER_LOOT_def FREE_FOR_ALL_def)
  with w show ?thesis by blast
qed

section \<open>Where the code breaks its promises\<close>

lemma upd_player_same [simp]: "gw_players (upd_player p f w) q = (if q = p then f (gw_players w p) else gw_players w q)"
  by (simp add: upd_player_def)

lemma upd_group_players [simp]: "gw_players (upd_group gid f w) = gw_players w"
  by (simp add: upd_group_def put_group_def split: option.split)

lemma gemit_players [simp]: "gw_players (gemit es w) = gw_players w"
  by (simp add: gemit_def)

lemma upd_group_groups [simp]: "gw_groups (upd_group gid f w) = (gw_groups w)(gid := map_option f (gw_groups w gid))"
  by (auto simp: upd_group_def fun_eq_iff split: option.split)

lemma own_group_only:
  assumes "own_group p w = None" "gw_players w' p = gw_players w p"
    "\<And>gid. map_option isBGGroup (gw_groups w' gid) = map_option isBGGroup (gw_groups w gid) \<or> p_group (gw_players w p) \<noteq> Some gid"
  shows "own_group p w' = None"
  using assms(1,2) assms(3) [of "the (p_group (gw_players w p))"]
  by (auto simp: own_group_def GetGroup_def GetOriginalGroup_def split: option.splits if_splits)

text \<open>
  C28: a player without a group who invites the own name makes a new group that is deleted at
  once, because the leader's invitation already counts as one; but the player keeps the pointer to
  it. Accepting or declining then reads a deleted group.
\<close>

theorem self_invite_dangles:
  assumes "pe_normalize h name = Some n" "pe_find_name h n = Some me" "invite_refused e h me me = None"
    "own_group me w = None" "p_invite (gw_players w me) = None" "gw_groups w (gw_fresh w) = None"
    "p_group (gw_players w me) \<noteq> Some (gw_fresh w)"
  shows "\<exists>w'. HandleGroupInviteOpcode e h me name w = Inr w' \<and> gw_groups w' = gw_groups w
    \<and> p_invite (gw_players w' me) = Some (gw_fresh w)
    \<and> HandleGroupAcceptOpcode e me w' = Inl DeadGroup \<and> HandleGroupDeclineOpcode e me w' = Inl DeadGroup"
proof -
  let ?gid = "gw_fresh w"
  obtain w1 where w1: "alloc_group w = (?gid, w1)" "gw_groups w1 = (gw_groups w)(?gid := Some new_group)"
      "gw_players w1 = gw_players w"
    by (simp add: alloc_group_def put_group_def)
  define w2 where "w2 = RemoveInvite ?gid me w1"
  have w2: "gw_groups w2 = (gw_groups w)(?gid := Some new_group)"
    "gw_players w2 me = gw_players w me" "p_invite (gw_players w2 me) = None"
    using assms(5) by (auto simp: w2_def RemoveInvite_def w1 new_group_def)
  have "own_group me w1 = None"
    by (rule own_group_only [OF assms(4)]) (use w1 assms(6,7) in auto)
  then obtain w3 where w3: "AddLeaderInvite e ?gid me w1 = (True, w3)"
    "p_invite (gw_players w3 me) = Some ?gid" "\<exists>g. g_members g = [] \<and> g_bgGroup g = None \<and> gw_groups w3 = (gw_groups w)(?gid := Some g)"
    using assms(5) w1 by (force simp: AddLeaderInvite_def AddInvite_def RemoveInvite_def new_group_def)
  obtain g where g: "g_members g = []" "g_bgGroup g = None" "gw_groups w3 = (gw_groups w)(?gid := Some g)"
    using w3(3) by blast
  have "HandleGroupInviteOpcode e h me name w = Inr (delete_group ?gid w3)"
    using assms w1 w3(1,2) by (simp add: HandleGroupInviteOpcode_def invite_to_def AddInvite_def)
  moreover have "gw_groups (delete_group ?gid w3) = gw_groups w" "gw_players (delete_group ?gid w3) = gw_players w3"
    using g assms(6) by (auto simp: delete_group_def fun_eq_iff)
  ultimately show ?thesis
    using w3(2) assms(6)
    by (auto simp: HandleGroupAcceptOpcode_def HandleGroupDeclineOpcode_def the_group_def)
qed

lemma self_invite_dangles_witness:
  "\<exists>w'. HandleGroupInviteOpcode sample_group_env sample_party_env 1 ''Ann'' no_groups = Inr w'
    \<and> HandleGroupAcceptOpcode sample_group_env 1 w' = Inl DeadGroup"
proof -
  have "invite_refused sample_group_env sample_party_env 1 1 = None" by code_simp
  from self_invite_dangles [of sample_party_env "''Ann''" "''Ann''" 1 sample_group_env no_groups, OF _ _ this]
  show ?thesis by (auto simp: sample_party_env_def no_groups_def own_group_def GetGroup_def)
qed

text \<open>An assistant can remove the leader by name, though not by guid.\<close>

lemma uninvite_leader_by_name:
  assumes "CanUninviteFromGroup e me w = Inr ERR_PARTY_RESULT_OK" "GetGroup me w = Some gid" "gw_groups w gid = Some g"
    "pe_normalize h name = Some n" "ge_name e me \<noteq> n" "GetMemberGUID n g = g_leaderGuid g"
    "g_leaderGuid g \<noteq> 0" "g_leaderGuid g \<noteq> me"
  shows "HandleGroupUninviteOpcode e h me name w
      = sbind (RemoveMember e gid (g_leaderGuid g) REMOVE_KICK me w) (\<lambda>(b, w1). Inr w1)"
    "HandleGroupUninviteGuidOpcode e me (g_leaderGuid g) w = Inr (SendPartyResult me PARTY_OP_UNINVITE [] ERR_NOT_LEADER w)"
  using assms
  by (simp_all add: HandleGroupUninviteOpcode_def HandleGroupUninviteGuidOpcode_def the_group_def IsLeader_def)

text \<open>
  When the main tank changes, the former one loses the flag in memory, but only the row of the new
  one is written.
\<close>

definition flag_stmts :: "group_event list \<Rightarrow> group_event list" where
  "flag_stmts = filter (\<lambda>ev. case ev of GSql (UpdMemberFlag f low) \<Rightarrow> True | _ \<Rightarrow> False)"

lemma main_tank_row_stale:
  "\<exists>w g. sbind sample_raid (\<lambda>w1. sbind (HandlePartyAssignmentOpcode sample_group_env 1 GROUP_ASSIGN_MAIN_TANK True 1 w1)
        (HandlePartyAssignmentOpcode sample_group_env 1 GROUP_ASSIGN_MAIN_TANK True 2)) = Inr w
    \<and> gw_groups w 0 = Some g \<and> map ms_flags (g_memberSlots g) = [0, MEMBER_FLAG_MAIN_TANK]
    \<and> flag_stmts (gw_out w) = [GSql (UpdMemberFlag MEMBER_FLAG_MAIN_TANK 1), GSql (UpdMemberFlag MEMBER_FLAG_MAIN_TANK 2)]"
proof -
  have "case sbind sample_raid (\<lambda>w1. sbind (HandlePartyAssignmentOpcode sample_group_env 1 GROUP_ASSIGN_MAIN_TANK True 1 w1)
      (HandlePartyAssignmentOpcode sample_group_env 1 GROUP_ASSIGN_MAIN_TANK True 2)) of Inl err \<Rightarrow> False
    | Inr w \<Rightarrow> (case gw_groups w 0 of None \<Rightarrow> False | Some g \<Rightarrow>
        map ms_flags (g_memberSlots g) = [0, MEMBER_FLAG_MAIN_TANK]
        \<and> flag_stmts (gw_out w) = [GSql (UpdMemberFlag MEMBER_FLAG_MAIN_TANK 1), GSql (UpdMemberFlag MEMBER_FLAG_MAIN_TANK 2)])"
    by code_simp
  then show ?thesis by (auto split: sum.splits option.splits)
qed

end
