(* ===== verification/Social.thy ===== *)
theory Social
  imports World_Packet Guid_Types Std_Map Text_Util
begin

text \<open>
  Friend and ignore lists: \<open>src/src/server/game/Entities/Player/SocialMgr.cpp\<close> and \<open>.h\<close>, and
  their packet handlers in \<open>src/src/server/game/Handlers/MiscHandler.cpp\<close>, with what the deletion
  and the change of faction of a character do to them (\<open>Player.cpp\<close>, \<open>CharacterHandler.cpp\<close>). A player's list is the
  record \<open>PlayerSocial\<close>; the statements the lists execute are values, with their meaning on the
  table \<open>character_social\<close> given by the SQL text of \<open>CharacterDatabase.cpp\<close>.
\<close>

section \<open>Constants\<close>

definition SOCIAL_FLAG_FRIEND :: u8 where "SOCIAL_FLAG_FRIEND = 0x01"
definition SOCIAL_FLAG_IGNORED :: u8 where "SOCIAL_FLAG_IGNORED = 0x02"
definition FRIEND_STATUS_OFFLINE :: u8 where "FRIEND_STATUS_OFFLINE = 0x00"
definition FRIEND_STATUS_ONLINE :: u8 where "FRIEND_STATUS_ONLINE = 0x01"
definition FRIEND_STATUS_AFK :: u8 where "FRIEND_STATUS_AFK = 0x02"
definition FRIEND_STATUS_DND :: u8 where "FRIEND_STATUS_DND = 0x04"
definition SOCIALMGR_FRIEND_LIMIT :: nat where "SOCIALMGR_FRIEND_LIMIT = 50"
definition SOCIALMGR_IGNORE_LIMIT :: nat where "SOCIALMGR_IGNORE_LIMIT = 50"
definition SMSG_CONTACT_LIST :: u16 where "SMSG_CONTACT_LIST = 0x067"
definition SMSG_FRIEND_STATUS :: u16 where "SMSG_FRIEND_STATUS = 0x068"

lemmas social_flag_defs = SOCIAL_FLAG_FRIEND_def SOCIAL_FLAG_IGNORED_def

datatype FriendsResult =
    FRIEND_LIST_FULL | FRIEND_ONLINE | FRIEND_OFFLINE | FRIEND_NOT_FOUND | FRIEND_REMOVED
  | FRIEND_ADDED_ONLINE | FRIEND_ADDED_OFFLINE | FRIEND_ALREADY | FRIEND_SELF | FRIEND_ENEMY
  | FRIEND_IGNORE_FULL | FRIEND_IGNORE_SELF | FRIEND_IGNORE_NOT_FOUND | FRIEND_IGNORE_ALREADY
  | FRIEND_IGNORE_ADDED | FRIEND_IGNORE_REMOVED

fun friends_result_code :: "FriendsResult \<Rightarrow> u8" where
  "friends_result_code FRIEND_LIST_FULL = 0x01"
| "friends_result_code FRIEND_ONLINE = 0x02"
| "friends_result_code FRIEND_OFFLINE = 0x03"
| "friends_result_code FRIEND_NOT_FOUND = 0x04"
| "friends_result_code FRIEND_REMOVED = 0x05"
| "friends_result_code FRIEND_ADDED_ONLINE = 0x06"
| "friends_result_code FRIEND_ADDED_OFFLINE = 0x07"
| "friends_result_code FRIEND_ALREADY = 0x08"
| "friends_result_code FRIEND_SELF = 0x09"
| "friends_result_code FRIEND_ENEMY = 0x0A"
| "friends_result_code FRIEND_IGNORE_FULL = 0x0B"
| "friends_result_code FRIEND_IGNORE_SELF = 0x0C"
| "friends_result_code FRIEND_IGNORE_NOT_FOUND = 0x0D"
| "friends_result_code FRIEND_IGNORE_ALREADY = 0x0E"
| "friends_result_code FRIEND_IGNORE_ADDED = 0x0F"
| "friends_result_code FRIEND_IGNORE_REMOVED = 0x10"

section \<open>State and surroundings\<close>

record FriendInfo =
  fi_Status :: u8
  fi_Flags :: u8
  fi_Area :: u32
  fi_Level :: u8
  fi_Class :: u8
  fi_Note :: string

definition new_FriendInfo :: "u8 \<Rightarrow> string \<Rightarrow> FriendInfo" where
  "new_FriendInfo flags note = \<lparr>fi_Status = FRIEND_STATUS_OFFLINE, fi_Flags = flags, fi_Area = 0,
     fi_Level = 0, fi_Class = 0, fi_Note = note\<rparr>"

record PlayerSocial =
  ps_map :: "(u32, FriendInfo) smap"
  ps_guid :: u32

definition new_PlayerSocial :: PlayerSocial where
  "new_PlayerSocial = \<lparr>ps_map = [], ps_guid = 0\<rparr>"

text \<open>The statements, with the parameters they bind.\<close>

datatype social_stmt =
    AddFlags u8 u32 u32
  | RemFlags u8 u32 u32
  | InsSocial u32 u32 u8
  | DelSocial u32 u32
  | SetNote string u32 u32
  | DelByGuid u32
  | DelByFriend u32

text \<open>A row of \<open>character_social\<close> under its primary key \<open>(guid, friend)\<close>: flags and note.\<close>

type_synonym social_table = "u32 \<times> u32 \<Rightarrow> (u8 \<times> string) option"

fun run_stmt :: "social_stmt \<Rightarrow> social_table \<Rightarrow> social_table" where
  "run_stmt (AddFlags fl g f) t = t((g, f) := map_option (\<lambda>(a, n). (a OR fl, n)) (t (g, f)))"
| "run_stmt (RemFlags fl g f) t = t((g, f) := map_option (\<lambda>(a, n). (a AND NOT fl, n)) (t (g, f)))"
| "run_stmt (InsSocial g f fl) t = (if t (g, f) = None then t((g, f) := Some (fl, '''')) else t)"
| "run_stmt (DelSocial g f) t = t((g, f) := None)"
| "run_stmt (SetNote n g f) t = t((g, f) := map_option (\<lambda>(a, _). (a, n)) (t (g, f)))"
| "run_stmt (DelByGuid g) t = (\<lambda>k. if fst k = g then None else t k)"
| "run_stmt (DelByFriend f) t = (\<lambda>k. if snd k = f then None else t k)"

text \<open>
  The query of a login, \<open>CHAR_SEL_CHARACTER_SOCIALLIST\<close>: the player's rows whose friend still has
  a row in \<open>characters\<close> that is not marked as deleted (\<open>live\<close>), in any order, and no more than 255.
\<close>

definition all_rows :: "(u32 \<Rightarrow> bool) \<Rightarrow> social_table \<Rightarrow> u32 \<Rightarrow> (u32 \<times> u8 \<times> string) list \<Rightarrow> bool" where
  "all_rows live t g rows \<longleftrightarrow> distinct (map fst rows) \<and>
     (\<forall>f. map_of rows f = (if live f then t (g, f) else None))"

definition query_limit :: nat where "query_limit = 255"

section \<open>One player's list\<close>

definition GetNumberOfSocialsWithFlag :: "u8 \<Rightarrow> PlayerSocial \<Rightarrow> nat" where
  "GetNumberOfSocialsWithFlag flag s = length (filter (\<lambda>e. has_flag (fi_Flags (snd e)) flag) (ps_map s))"

definition social_flag :: "bool \<Rightarrow> u8" where
  "social_flag ignore = (if ignore then SOCIAL_FLAG_IGNORED else SOCIAL_FLAG_FRIEND)"

definition AddToSocialList :: "u32 \<Rightarrow> bool \<Rightarrow> PlayerSocial \<Rightarrow> bool \<times> social_stmt list \<times> PlayerSocial" where
  "AddToSocialList friendGuid ignore s =
     (if ignore \<and> SOCIALMGR_IGNORE_LIMIT \<le> GetNumberOfSocialsWithFlag SOCIAL_FLAG_IGNORED s
      then (False, [], s)
      else if \<not> ignore \<and> SOCIALMGR_FRIEND_LIMIT \<le> GetNumberOfSocialsWithFlag SOCIAL_FLAG_FRIEND s
      then (False, [], s)
      else
        (let flag = social_flag ignore in
         case sm_find (ps_map s) friendGuid of
           Some fi \<Rightarrow> (True, [AddFlags flag (ps_guid s) friendGuid],
             s\<lparr>ps_map := sm_put friendGuid (fi\<lparr>fi_Flags := fi_Flags fi OR flag\<rparr>) (ps_map s)\<rparr>)
         | None \<Rightarrow> (True, [InsSocial (ps_guid s) friendGuid flag],
             s\<lparr>ps_map := sm_put friendGuid (new_FriendInfo (0 OR flag) '''') (ps_map s)\<rparr>)))"

definition RemoveFromSocialList :: "u32 \<Rightarrow> bool \<Rightarrow> PlayerSocial \<Rightarrow> social_stmt list \<times> PlayerSocial" where
  "RemoveFromSocialList friendGuid ignore s =
     (case sm_find (ps_map s) friendGuid of
        None \<Rightarrow> ([], s)
      | Some fi \<Rightarrow>
          (let flag = social_flag ignore;
               fi' = fi\<lparr>fi_Flags := fi_Flags fi AND NOT flag\<rparr>
           in if fi_Flags fi' = 0
              then ([DelSocial (ps_guid s) friendGuid], s\<lparr>ps_map := sm_erase friendGuid (ps_map s)\<rparr>)
              else ([RemFlags flag (ps_guid s) friendGuid],
                    s\<lparr>ps_map := sm_put friendGuid fi' (ps_map s)\<rparr>)))"

text \<open>\<open>trunc\<close> is \<open>utf8truncate\<close> to 48 characters, of the vendored UTF-8 library.\<close>

definition SetFriendNote :: "(string \<Rightarrow> string) \<Rightarrow> u32 \<Rightarrow> string \<Rightarrow> PlayerSocial \<Rightarrow>
    social_stmt list \<times> PlayerSocial" where
  "SetFriendNote trunc friendGuid note s =
     (case sm_find (ps_map s) friendGuid of
        None \<Rightarrow> ([], s)
      | Some fi \<Rightarrow>
          (let n = trunc note in
           ([SetNote n (ps_guid s) friendGuid],
            s\<lparr>ps_map := sm_put friendGuid (fi\<lparr>fi_Note := n\<rparr>) (ps_map s)\<rparr>)))"

definition HasFriend :: "u32 \<Rightarrow> PlayerSocial \<Rightarrow> bool" where
  "HasFriend g s = (case sm_find (ps_map s) g of
     Some fi \<Rightarrow> has_flag (fi_Flags fi) SOCIAL_FLAG_FRIEND | None \<Rightarrow> False)"

definition HasIgnored :: "u32 \<Rightarrow> PlayerSocial \<Rightarrow> bool" where
  "HasIgnored g s = (case sm_find (ps_map s) g of
     Some fi \<Rightarrow> has_flag (fi_Flags fi) SOCIAL_FLAG_IGNORED | None \<Rightarrow> False)"

text \<open>
  \<open>LoadFromDB\<close>: the rows of the player in result order, until the client's limit of both lists
  together is reached. The entry of the manager's map is reused when there is one.
\<close>

fun load_rows :: "(u32 \<times> u8 \<times> string) list \<Rightarrow> PlayerSocial \<Rightarrow> PlayerSocial" where
  "load_rows [] s = s"
| "load_rows ((friend, flags, note) # rows) s =
     (let s' = s\<lparr>ps_map := sm_put friend (new_FriendInfo flags note) (ps_map s)\<rparr>
      in if SOCIALMGR_FRIEND_LIMIT + SOCIALMGR_IGNORE_LIMIT \<le> length (ps_map s') then s'
         else load_rows rows s')"

section \<open>The manager\<close>

record soc_player =
  sp_guid :: u64
  sp_team :: u32
  sp_security :: u32
  sp_in_world :: bool
  sp_visible_for :: "u64 \<Rightarrow> bool"
  sp_afk :: bool
  sp_dnd :: bool
  sp_zone :: u32
  sp_level :: u8
  sp_class :: u8

record soc_env =
  SocFindPlayer :: "u64 \<Rightarrow> soc_player option"
  two_side_who :: bool
  two_side_friend :: bool
  allow_gm_friend :: bool
  gm_who_level :: u32
  note_trunc :: "string \<Rightarrow> string"

datatype soc_effect = SocSend u64 packet | SocStmt social_stmt

record soc_world =
  sw_social :: "(u32, PlayerSocial) smap"
  sw_out :: "soc_effect list"

definition soc_emit :: "soc_effect list \<Rightarrow> soc_world \<Rightarrow> soc_world" where
  "soc_emit es w = w\<lparr>sw_out := sw_out w @ es\<rparr>"

definition sp_low :: "soc_player \<Rightarrow> u32" where
  "sp_low p = GUID_LOPART (sp_guid p)"

text \<open>\<open>player->GetSocial()\<close>: the entry of the player in the manager's map.\<close>

definition GetSocial :: "soc_player \<Rightarrow> soc_world \<Rightarrow> PlayerSocial" where
  "GetSocial p w = (case sm_find (sw_social w) (sp_low p) of Some s \<Rightarrow> s | None \<Rightarrow> new_PlayerSocial)"

definition put_social :: "soc_player \<Rightarrow> PlayerSocial \<Rightarrow> soc_world \<Rightarrow> soc_world" where
  "put_social p s w = w\<lparr>sw_social := sm_put (sp_low p) s (sw_social w)\<rparr>"

definition LoadFromDB :: "(u32 \<times> u8 \<times> string) list \<Rightarrow> u32 \<Rightarrow> soc_world \<Rightarrow> soc_world" where
  "LoadFromDB rows guid w =
     (let s = (case sm_find (sw_social w) guid of Some s \<Rightarrow> s | None \<Rightarrow> new_PlayerSocial)
      in w\<lparr>sw_social := sm_put guid (load_rows rows (s\<lparr>ps_guid := guid\<rparr>)) (sw_social w)\<rparr>)"

definition RemovePlayerSocial :: "u32 \<Rightarrow> soc_world \<Rightarrow> soc_world" where
  "RemovePlayerSocial guid w = w\<lparr>sw_social := sm_erase guid (sw_social w)\<rparr>"

text \<open>What \<open>player\<close> may see of a friend who is online.\<close>

definition friend_shown :: "soc_env \<Rightarrow> soc_player \<Rightarrow> soc_player \<Rightarrow> bool" where
  "friend_shown e player f \<longleftrightarrow>
     (\<not> IsPlayerAccount (sp_security player) \<or>
      ((sp_team f = sp_team player \<or> two_side_who e) \<and> sp_security f \<le> gm_who_level e)) \<and>
     sp_visible_for f (sp_guid player)"

definition GetFriendInfo :: "soc_env \<Rightarrow> soc_world \<Rightarrow> soc_player \<Rightarrow> u32 \<Rightarrow> FriendInfo \<Rightarrow> FriendInfo" where
  "GetFriendInfo e w player friendGUID fi =
     (let fi0 = fi\<lparr>fi_Status := FRIEND_STATUS_OFFLINE, fi_Area := 0, fi_Level := 0, fi_Class := 0\<rparr> in
      case SocFindPlayer e (ucast friendGUID) of
        None \<Rightarrow> fi0
      | Some f \<Rightarrow>
          (let fi1 = (case sm_find (ps_map (GetSocial player w)) friendGUID of
                 Some it \<Rightarrow> fi0\<lparr>fi_Note := fi_Note it\<rparr> | None \<Rightarrow> fi0)
           in if friend_shown e player f then
                fi1\<lparr>fi_Status := (if sp_dnd f then FRIEND_STATUS_DND
                       else if sp_afk f then FRIEND_STATUS_AFK else FRIEND_STATUS_ONLINE),
                    fi_Area := sp_zone f, fi_Level := sp_level f, fi_Class := sp_class f\<rparr>
              else fi1))"

definition contact_fields :: "u32 \<times> FriendInfo \<Rightarrow> field list" where
  "contact_fields x = (let fi = snd x in
     [F64 (ucast (fst x)), F32 (ucast (fi_Flags fi)), FStr (fi_Note fi)] @
     (if has_flag (fi_Flags fi) SOCIAL_FLAG_FRIEND then
        F8 (fi_Status fi) #
        (if fi_Status fi \<noteq> 0
         then [F32 (fi_Area fi), F32 (ucast (fi_Level fi)), F32 (ucast (fi_Class fi))] else [])
      else []))"

text \<open>\<open>SendSocialList\<close> refreshes every entry of the list it is called on before it writes it.\<close>

definition refreshed :: "soc_env \<Rightarrow> soc_player \<Rightarrow> soc_world \<Rightarrow> PlayerSocial \<Rightarrow> PlayerSocial" where
  "refreshed e player w s = s\<lparr>ps_map := sm_map (GetFriendInfo e w player) (ps_map s)\<rparr>"

definition SendSocialList :: "soc_env \<Rightarrow> soc_player \<Rightarrow> soc_world \<Rightarrow> soc_world" where
  "SendSocialList e player w =
     (let s = refreshed e player w (GetSocial player w);
          data = \<lparr>pk_opcode = SMSG_CONTACT_LIST,
            pk_fields = [F32 7, F32 (of_nat (length (ps_map s)))] @ concat (map contact_fields (ps_map s))\<rparr>
      in soc_emit [SocSend (sp_guid player) data] (put_social player s w))"

definition MakeFriendStatusPacket :: "FriendsResult \<Rightarrow> u32 \<Rightarrow> field list \<Rightarrow> packet" where
  "MakeFriendStatusPacket result guid fs = \<lparr>pk_opcode = SMSG_FRIEND_STATUS,
     pk_fields = [F8 (friends_result_code result), F64 (ucast guid)] @ fs\<rparr>"

definition listener_ok :: "soc_env \<Rightarrow> soc_player \<Rightarrow> soc_player \<Rightarrow> bool" where
  "listener_ok e player f \<longleftrightarrow> sp_in_world f \<and>
     (\<not> IsPlayerAccount (sp_security f) \<or>
      ((sp_team f = sp_team player \<or> two_side_who e) \<and> sp_security player \<le> gm_who_level e)) \<and>
     sp_visible_for player (sp_guid f)"

definition broadcast_recipients :: "soc_env \<Rightarrow> soc_player \<Rightarrow> soc_world \<Rightarrow> u64 list" where
  "broadcast_recipients e player w =
     concat (map (\<lambda>(g, s).
       if HasFriend (sp_low player) s then
         (case SocFindPlayer e (MAKE_NEW_GUID g 0 HIGHGUID_PLAYER) of
            None \<Rightarrow> []
          | Some f \<Rightarrow> if listener_ok e player f then [sp_guid f] else [])
       else []) (sw_social w))"

definition BroadcastToFriendListers :: "soc_env \<Rightarrow> soc_player \<Rightarrow> packet \<Rightarrow> soc_world \<Rightarrow> soc_world" where
  "BroadcastToFriendListers e player data w =
     soc_emit (map (\<lambda>g. SocSend g data) (broadcast_recipients e player w)) w"

definition status_fields :: "FriendsResult \<Rightarrow> FriendInfo \<Rightarrow> field list" where
  "status_fields result fi =
     (if result = FRIEND_ADDED_OFFLINE \<or> result = FRIEND_ADDED_ONLINE then [FStr (fi_Note fi)] else []) @
     (if result = FRIEND_ADDED_ONLINE \<or> result = FRIEND_ONLINE
      then [F8 (fi_Status fi), F32 (fi_Area fi), F32 (ucast (fi_Level fi)), F32 (ucast (fi_Class fi))]
      else [])"

definition SendFriendStatus :: "soc_env \<Rightarrow> soc_player \<Rightarrow> FriendsResult \<Rightarrow> u32 \<Rightarrow> bool \<Rightarrow>
    soc_world \<Rightarrow> soc_world" where
  "SendFriendStatus e player result friend_guid broadcast w =
     (let fi = GetFriendInfo e w player friend_guid (new_FriendInfo 0 '''');
          data = MakeFriendStatusPacket result friend_guid (status_fields result fi)
      in if broadcast then BroadcastToFriendListers e player data w
         else soc_emit [SocSend (sp_guid player) data] w)"

section \<open>The packet handlers\<close>

text \<open>A change of the caller's own list, with the statements it executes.\<close>

definition on_list :: "soc_player \<Rightarrow> (PlayerSocial \<Rightarrow> social_stmt list \<times> PlayerSocial) \<Rightarrow>
    soc_world \<Rightarrow> soc_world" where
  "on_list p f w = (let (st, s) = f (GetSocial p w) in soc_emit (map SocStmt st) (put_social p s w))"

definition HandleContactListOpcode :: "soc_env \<Rightarrow> soc_player \<Rightarrow> byte_buffer \<Rightarrow> soc_world \<Rightarrow>
    bb_error + soc_world" where
  "HandleContactListOpcode e p b w =
     sbind (stream_get b) (\<lambda>(unk :: u32, b1). Inr (SendSocialList e p w))"

text \<open>
  The names are resolved by an asynchronous query; the handler runs on when its answer is in.
  The answer for a friend is the low guid, the team of the race and the security of the account.
\<close>

definition add_friend_result :: "soc_env \<Rightarrow> soc_player \<Rightarrow> u64 \<Rightarrow> u32 \<Rightarrow> soc_world \<Rightarrow>
    FriendsResult \<times> soc_world" where
  "add_friend_result e p friendGuid team w =
     (if friendGuid = sp_guid p then (FRIEND_SELF, w)
      else if sp_team p \<noteq> team \<and> \<not> two_side_friend e \<and> IsPlayerAccount (sp_security p)
      then (FRIEND_ENEMY, w)
      else if HasFriend (GUID_LOPART friendGuid) (GetSocial p w) then (FRIEND_ALREADY, w)
      else
        (let r = (case SocFindPlayer e friendGuid of
               None \<Rightarrow> FRIEND_ADDED_OFFLINE
             | Some f \<Rightarrow> if sp_in_world f \<and> sp_visible_for f (sp_guid p) then FRIEND_ADDED_ONLINE
                 else FRIEND_ADDED_OFFLINE);
             (ok, st, s) = AddToSocialList (GUID_LOPART friendGuid) False (GetSocial p w)
         in (if ok then r else FRIEND_LIST_FULL, soc_emit (map SocStmt st) (put_social p s w))))"

definition HandleAddFriendOpcodeCallBack :: "soc_env \<Rightarrow> soc_player \<Rightarrow> (u32 \<times> u32 \<times> u32) option \<Rightarrow>
    string \<Rightarrow> soc_world \<Rightarrow> soc_world" where
  "HandleAddFriendOpcodeCallBack e p result friendNote w =
     (case result of
        None \<Rightarrow> SendFriendStatus e p FRIEND_NOT_FOUND (GUID_LOPART 0) False w
      | Some (low, team, friend_security) \<Rightarrow>
          (let friendGuid = MAKE_NEW_GUID low 0 HIGHGUID_PLAYER in
           if (\<not> IsPlayerAccount (sp_security p) \<or> allow_gm_friend e \<or> IsPlayerAccount friend_security) \<and>
              friendGuid \<noteq> 0
           then
             (let (r, w1) = add_friend_result e p friendGuid team w;
                  w2 = on_list p (SetFriendNote (note_trunc e) (GUID_LOPART friendGuid) friendNote) w1
              in SendFriendStatus e p r (GUID_LOPART friendGuid) False w2)
           else SendFriendStatus e p FRIEND_NOT_FOUND (GUID_LOPART friendGuid) False w))"

definition HandleDelFriendOpcode :: "soc_env \<Rightarrow> soc_player \<Rightarrow> byte_buffer \<Rightarrow> soc_world \<Rightarrow>
    bb_error + soc_world" where
  "HandleDelFriendOpcode e p b w =
     sbind (stream_get b) (\<lambda>(FriendGUID :: u64, b1). Inr
       (SendFriendStatus e p FRIEND_REMOVED (GUID_LOPART FriendGUID) False
         (on_list p (RemoveFromSocialList (GUID_LOPART FriendGUID) False) w)))"

definition HandleAddIgnoreOpcodeCallBack :: "soc_env \<Rightarrow> soc_player \<Rightarrow> u32 option \<Rightarrow> soc_world \<Rightarrow> soc_world" where
  "HandleAddIgnoreOpcodeCallBack e p result w =
     (case result of
        None \<Rightarrow> SendFriendStatus e p FRIEND_IGNORE_NOT_FOUND (GUID_LOPART 0) False w
      | Some low \<Rightarrow>
          (let g = MAKE_NEW_GUID low 0 HIGHGUID_PLAYER in
           if g = 0 then SendFriendStatus e p FRIEND_IGNORE_NOT_FOUND (GUID_LOPART g) False w
           else if g = sp_guid p then SendFriendStatus e p FRIEND_IGNORE_SELF (GUID_LOPART g) False w
           else if HasIgnored (GUID_LOPART g) (GetSocial p w)
           then SendFriendStatus e p FRIEND_IGNORE_ALREADY (GUID_LOPART g) False w
           else
             (let (ok, st, s) = AddToSocialList (GUID_LOPART g) True (GetSocial p w)
              in SendFriendStatus e p (if ok then FRIEND_IGNORE_ADDED else FRIEND_IGNORE_FULL)
                   (GUID_LOPART g) False (soc_emit (map SocStmt st) (put_social p s w)))))"

definition HandleDelIgnoreOpcode :: "soc_env \<Rightarrow> soc_player \<Rightarrow> byte_buffer \<Rightarrow> soc_world \<Rightarrow>
    bb_error + soc_world" where
  "HandleDelIgnoreOpcode e p b w =
     sbind (stream_get b) (\<lambda>(IgnoreGUID :: u64, b1). Inr
       (SendFriendStatus e p FRIEND_IGNORE_REMOVED (GUID_LOPART IgnoreGUID) False
         (on_list p (RemoveFromSocialList (GUID_LOPART IgnoreGUID) True) w)))"

definition HandleSetContactNotesOpcode :: "soc_env \<Rightarrow> soc_player \<Rightarrow> byte_buffer \<Rightarrow> soc_world \<Rightarrow>
    bb_error + soc_world" where
  "HandleSetContactNotesOpcode e p b w =
     sbind (stream_get b) (\<lambda>(guid :: u64, b1).
     sbind (get_string b1) (\<lambda>(note, b2). Inr
       (on_list p (SetFriendNote (note_trunc e) (GUID_LOPART guid) note) w)))"

section \<open>Deleted characters\<close>

text \<open>
  \<open>Player::DeleteFromDB\<close>, where it deletes for good: everybody in the world who lists the
  character loses him as a friend and is told so, then the rows of both directions go.
  \<open>listers\<close> is the answer of \<open>CHAR_SEL_CHAR_SOCIAL\<close>. A character that is only unlinked from its
  account keeps its rows.
\<close>

definition unfriend_lister :: "soc_env \<Rightarrow> u32 \<Rightarrow> u32 \<Rightarrow> soc_world \<Rightarrow> soc_world" where
  "unfriend_lister e guid lister w =
     (case SocFindPlayer e (MAKE_NEW_GUID lister 0 HIGHGUID_PLAYER) of
        None \<Rightarrow> w
      | Some pFriend \<Rightarrow>
          if sp_in_world pFriend
          then SendFriendStatus e pFriend FRIEND_REMOVED guid False
                 (on_list pFriend (RemoveFromSocialList guid False) w)
          else w)"

definition delete_character :: "soc_env \<Rightarrow> u32 \<Rightarrow> u32 list \<Rightarrow> soc_world \<Rightarrow> soc_world" where
  "delete_character e guid listers w =
     soc_emit [SocStmt (DelByFriend guid), SocStmt (DelByGuid guid)]
       (fold (unfriend_lister e guid) listers w)"

text \<open>\<open>WorldSession::HandleCharFactionOrRaceChange\<close>, the friend lists of the changed character.\<close>

definition change_faction :: "soc_env \<Rightarrow> u32 \<Rightarrow> soc_world \<Rightarrow> soc_world" where
  "change_faction e lowGuid w =
     (if \<not> two_side_friend e then soc_emit [SocStmt (DelByGuid lowGuid), SocStmt (DelByFriend lowGuid)] w
      else w)"

end
