(* ===== verification/Social_Props.thy ===== *)
theory Social_Props
  imports Social
begin

text \<open>
  The properties of the friend and ignore lists: they implement two bounded sets, and the table
  of the database always holds what the lists in memory hold.
\<close>

section \<open>Two bounded sets\<close>

definition friends :: "PlayerSocial \<Rightarrow> u32 set" where
  "friends s = {g. HasFriend g s}"

definition ignored :: "PlayerSocial \<Rightarrow> u32 set" where
  "ignored s = {g. HasIgnored g s}"

lemma social_flags_distinct [simp]:
  "SOCIAL_FLAG_FRIEND \<noteq> 0" "SOCIAL_FLAG_IGNORED \<noteq> 0" "SOCIAL_FLAG_FRIEND AND SOCIAL_FLAG_IGNORED = 0"
  "SOCIAL_FLAG_IGNORED AND SOCIAL_FLAG_FRIEND = 0"
  by (simp_all add: social_flag_defs)

lemma social_flags_own [simp]:
  "has_flag SOCIAL_FLAG_FRIEND SOCIAL_FLAG_FRIEND" "has_flag SOCIAL_FLAG_IGNORED SOCIAL_FLAG_IGNORED"
  "\<not> has_flag SOCIAL_FLAG_FRIEND SOCIAL_FLAG_IGNORED" "\<not> has_flag SOCIAL_FLAG_IGNORED SOCIAL_FLAG_FRIEND"
  by (simp_all add: has_flag_def)

lemma has_flag_OR:
  "has_flag (x OR SOCIAL_FLAG_FRIEND) SOCIAL_FLAG_FRIEND" "has_flag (x OR SOCIAL_FLAG_IGNORED) SOCIAL_FLAG_IGNORED"
  "has_flag (x OR SOCIAL_FLAG_FRIEND) SOCIAL_FLAG_IGNORED = has_flag x SOCIAL_FLAG_IGNORED"
  "has_flag (x OR SOCIAL_FLAG_IGNORED) SOCIAL_FLAG_FRIEND = has_flag x SOCIAL_FLAG_FRIEND"
  by (simp_all add: has_flag_set_same has_flag_set_other)

lemma has_flag_ANDN:
  "has_flag (x AND NOT SOCIAL_FLAG_FRIEND) SOCIAL_FLAG_IGNORED = has_flag x SOCIAL_FLAG_IGNORED"
  "has_flag (x AND NOT SOCIAL_FLAG_IGNORED) SOCIAL_FLAG_FRIEND = has_flag x SOCIAL_FLAG_FRIEND"
  by (simp_all add: has_flag_clear_other)

lemma new_FriendInfo_flags [simp]: "fi_Flags (new_FriendInfo a n) = a" "fi_Note (new_FriendInfo a n) = n"
  by (simp_all add: new_FriendInfo_def)

text \<open>The counter of a flag is the size of the set of those who carry it.\<close>

lemma card_flagged:
  assumes "sm_wf m"
  shows "length (filter (\<lambda>e. P (snd e)) m) = card {g. \<exists>v. sm_find m g = Some v \<and> P v}"
proof -
  let ?f = "filter (\<lambda>e. P (snd e)) m"
  have "distinct (map fst ?f)" using sm_wf_distinct [OF sm_wf_filter [OF assms]] .
  then have "card (fst ` set ?f) = length ?f" by (metis distinct_card length_map set_map)
  moreover have "fst ` set ?f = {g. \<exists>v. sm_find m g = Some v \<and> P v}"
    using sm_find_Some_iff [OF assms] by (auto simp: image_iff)
  ultimately show ?thesis by simp
qed

lemma number_of_friends:
  assumes "sm_wf (ps_map s)"
  shows "GetNumberOfSocialsWithFlag SOCIAL_FLAG_FRIEND s = card (friends s)"
    and "GetNumberOfSocialsWithFlag SOCIAL_FLAG_IGNORED s = card (ignored s)"
  using card_flagged [OF assms, of "\<lambda>v. has_flag (fi_Flags v) SOCIAL_FLAG_FRIEND"]
    card_flagged [OF assms, of "\<lambda>v. has_flag (fi_Flags v) SOCIAL_FLAG_IGNORED"]
  by (auto simp: GetNumberOfSocialsWithFlag_def friends_def ignored_def HasFriend_def HasIgnored_def
      intro!: arg_cong [where f = card] split: option.splits)

lemma finite_flagged: "finite (friends s)" "finite (ignored s)"
proof -
  have "{g. sm_find (ps_map s) g \<noteq> None} = set (sm_keys (ps_map s))" using in_sm_keys by auto
  then have "finite {g. sm_find (ps_map s) g \<noteq> None}" by simp
  then show "finite (friends s)" "finite (ignored s)"
    by (auto simp: friends_def ignored_def HasFriend_def HasIgnored_def elim!: rev_finite_subset
        split: option.splits)
qed

text \<open>The abstract list: a set with a capacity; an addition to a full set is refused.\<close>

definition bounded_add :: "nat \<Rightarrow> 'a \<Rightarrow> 'a set \<Rightarrow> bool \<times> 'a set" where
  "bounded_add n x A = (if n \<le> card A then (False, A) else (True, insert x A))"

text \<open>
  C12: the two lists behave as two independent sets of fifty. Adding a friend is a bounded
  addition to the friends and leaves the ignored alone, adding an ignored player the other way
  round; removing takes the player from the one set; a note changes neither.
\<close>

theorem social_refines_sets:
  assumes "sm_wf (ps_map s)"
  shows "(let (ok, st, s') = AddToSocialList g False s in
      (ok, friends s') = bounded_add 50 g (friends s) \<and> ignored s' = ignored s) \<and>
    (let (ok, st, s') = AddToSocialList g True s in
      (ok, ignored s') = bounded_add 50 g (ignored s) \<and> friends s' = friends s) \<and>
    (let (st, s') = RemoveFromSocialList g False s in
      friends s' = friends s - {g} \<and> ignored s' = ignored s) \<and>
    (let (st, s') = RemoveFromSocialList g True s in
      ignored s' = ignored s - {g} \<and> friends s' = friends s) \<and>
    (let (st, s') = SetFriendNote tr g note s in friends s' = friends s \<and> ignored s' = ignored s)"
proof -
  have zero: "x AND NOT f = 0 \<Longrightarrow> f AND h = 0 \<Longrightarrow> \<not> has_flag x h" for x f h :: u8
    using has_flag_clear_other [of f h x] by simp
  have addF: "let (ok, st, s') = AddToSocialList g False s in
      (ok, friends s') = bounded_add 50 g (friends s) \<and> ignored s' = ignored s"
    using number_of_friends [OF assms]
    by (auto simp: AddToSocialList_def Let_def bounded_add_def SOCIALMGR_FRIEND_LIMIT_def social_flag_def
        friends_def ignored_def HasFriend_def HasIgnored_def sm_find_put has_flag_OR
        split: option.splits if_splits)
  have addI: "let (ok, st, s') = AddToSocialList g True s in
      (ok, ignored s') = bounded_add 50 g (ignored s) \<and> friends s' = friends s"
    using number_of_friends [OF assms]
    by (auto simp: AddToSocialList_def Let_def bounded_add_def SOCIALMGR_IGNORE_LIMIT_def social_flag_def
        friends_def ignored_def HasFriend_def HasIgnored_def sm_find_put has_flag_OR
        split: option.splits if_splits)
  have rem: "let (st, s') = RemoveFromSocialList g False s in
      friends s' = friends s - {g} \<and> ignored s' = ignored s"
    "let (st, s') = RemoveFromSocialList g True s in
      ignored s' = ignored s - {g} \<and> friends s' = friends s"
    by (auto simp: RemoveFromSocialList_def Let_def social_flag_def friends_def ignored_def
        HasFriend_def HasIgnored_def sm_find_put sm_find_erase has_flag_ANDN zero
        split: option.splits if_splits)
  have nt: "let (st, s') = SetFriendNote tr g note s in friends s' = friends s \<and> ignored s' = ignored s"
    by (auto simp: SetFriendNote_def Let_def friends_def ignored_def HasFriend_def HasIgnored_def
        sm_find_put split: option.splits)
  from addF addI rem nt show ?thesis by blast
qed

theorem social_refines_sets_witness:
  "let (ok, st, s') = AddToSocialList 7 False (snd (snd (AddToSocialList 7 True new_PlayerSocial))) in
     ok \<and> friends s' = {7} \<and> ignored s' = {7}"
proof -
  let ?s = "snd (snd (AddToSocialList 7 True new_PlayerSocial))"
  have e: "friends new_PlayerSocial = {}" "ignored new_PlayerSocial = {}" "sm_wf (ps_map new_PlayerSocial)"
    by (simp_all add: friends_def ignored_def HasFriend_def HasIgnored_def new_PlayerSocial_def)
  have w: "sm_wf (ps_map ?s)" by code_simp
  have "ignored ?s = {7}" "friends ?s = {}"
    using social_refines_sets [OF e(3), of 7] e by (simp_all add: Let_def bounded_add_def split_beta)
  with social_refines_sets [OF w, of 7] show ?thesis
    by (simp add: Let_def bounded_add_def split_beta)
qed

section \<open>The table follows the lists\<close>

definition row_of :: "FriendInfo \<Rightarrow> u8 \<times> string" where
  "row_of i = (fi_Flags i, fi_Note i)"

text \<open>A statement that touches only rows of \<open>g\<close>.\<close>

fun own_stmt :: "u32 \<Rightarrow> social_stmt \<Rightarrow> bool" where
  "own_stmt o' (AddFlags a g f) = (g = o')"
| "own_stmt o' (RemFlags a g f) = (g = o')"
| "own_stmt o' (InsSocial g f a) = (g = o')"
| "own_stmt o' (DelSocial g f) = (g = o')"
| "own_stmt o' (SetNote n g f) = (g = o')"
| "own_stmt o' (DelByGuid g) = (g = o')"
| "own_stmt o' (DelByFriend f) = False"

lemma run_stmt_frame: "own_stmt o' st \<Longrightarrow> g \<noteq> o' \<Longrightarrow> run_stmt st t (g, f) = t (g, f)"
  by (cases st) auto

lemma fold_stmt_frame:
  "(\<And>st. st \<in> set sts \<Longrightarrow> own_stmt o' st) \<Longrightarrow> g \<noteq> o' \<Longrightarrow> fold run_stmt sts t (g, f) = t (g, f)"
proof (induction sts arbitrary: t)
  case (Cons st sts)
  then show ?case using run_stmt_frame [of o' st g t f] by simp
qed simp

text \<open>Memory and table agree about \<open>f\<close> in the list \<open>s\<close>.\<close>

definition row_ok :: "PlayerSocial \<Rightarrow> social_table \<Rightarrow> u32 \<Rightarrow> bool" where
  "row_ok s t f \<longleftrightarrow> t (ps_guid s, f) = map_option row_of (sm_find (ps_map s) f)"

text \<open>
  The contract of a change of a list: where memory and table agree, the statements do to the table
  what it does to the list, and only those in \<open>new\<close> may enter the list.
\<close>

locale list_op =
  fixes op :: "PlayerSocial \<Rightarrow> social_stmt list \<times> PlayerSocial" and new :: "u32 set"
  assumes op_guid: "ps_guid (snd (op s)) = ps_guid s"
    and op_wf: "sm_wf (ps_map s) \<Longrightarrow> sm_wf (ps_map (snd (op s)))"
    and op_row: "row_ok s t f \<Longrightarrow> row_ok (snd (op s)) (fold run_stmt (fst (op s)) t) f"
    and op_new: "sm_find (ps_map s) f = None \<Longrightarrow> f \<notin> new \<Longrightarrow> sm_find (ps_map (snd (op s))) f = None"
    and op_owner: "st \<in> set (fst (op s)) \<Longrightarrow> own_stmt (ps_guid s) st"

lemma add_list_op: "list_op (\<lambda>s. snd (AddToSocialList g ig s)) {g}"
proof
  fix s t f
  show "row_ok s t f \<Longrightarrow> row_ok (snd (snd (AddToSocialList g ig s)))
      (fold run_stmt (fst (snd (AddToSocialList g ig s))) t) f"
    by (cases "f = g") (auto simp: AddToSocialList_def Let_def row_ok_def sm_find_put row_of_def new_FriendInfo_def
        split: option.split)
qed (auto simp: AddToSocialList_def Let_def sm_wf_put sm_find_put split: option.splits if_splits)

interpretation add: list_op "\<lambda>s. snd (AddToSocialList g ig s)" "{g}" for g ig
  by (rule add_list_op)

interpretation rem: list_op "RemoveFromSocialList g ig" "{}" for g ig
proof
  fix s t f
  show "row_ok s t f \<Longrightarrow> row_ok (snd (RemoveFromSocialList g ig s))
      (fold run_stmt (fst (RemoveFromSocialList g ig s)) t) f"
    by (cases "f = g") (auto simp: RemoveFromSocialList_def Let_def row_ok_def sm_find_put sm_find_erase row_of_def
        split: option.split)
qed (auto simp: RemoveFromSocialList_def Let_def sm_wf_put smap.wf_erase sm_find_put sm_find_erase
    split: option.splits if_splits)

interpretation nte: list_op "SetFriendNote tr g n" "{}" for tr g n
proof
  fix s t f
  show "row_ok s t f \<Longrightarrow> row_ok (snd (SetFriendNote tr g n s)) (fold run_stmt (fst (SetFriendNote tr g n s)) t) f"
    by (cases "f = g") (auto simp: SetFriendNote_def Let_def row_ok_def sm_find_put row_of_def split: option.split)
qed (auto simp: SetFriendNote_def Let_def sm_wf_put sm_find_put split: option.splits)

text \<open>The table after everything the world has executed, from the table \<open>t\<close> of its start.\<close>

fun effect_stmts :: "soc_effect list \<Rightarrow> social_stmt list" where
  "effect_stmts [] = []"
| "effect_stmts (SocStmt st # es) = st # effect_stmts es"
| "effect_stmts (SocSend g d # es) = effect_stmts es"

definition table_of :: "social_table \<Rightarrow> soc_world \<Rightarrow> social_table" where
  "table_of t w = fold run_stmt (effect_stmts (sw_out w)) t"

lemma effect_stmts_append [simp]: "effect_stmts (es @ fs) = effect_stmts es @ effect_stmts fs"
  by (induction es rule: effect_stmts.induct) simp_all

lemma effect_stmts_stmts [simp]: "effect_stmts (map SocStmt st) = st"
  by (induction st) simp_all

lemma effect_stmts_sends [simp]: "effect_stmts (map (\<lambda>g. SocSend g d) gs) = []"
  by (induction gs) simp_all

text \<open>
  \<open>synced t live A w\<close>: the list of everybody who is logged in agrees with the table about every
  live character outside \<open>A g\<close>, and has no entry for one that is not live.
\<close>

definition entry_ok :: "social_table \<Rightarrow> (u32 \<Rightarrow> bool) \<Rightarrow> PlayerSocial \<Rightarrow> u32 \<Rightarrow> bool" where
  "entry_ok t live s f \<longleftrightarrow> (if live f then row_ok s t f else sm_find (ps_map s) f = None)"

lemma entry_ok_cong:
  assumes "entry_ok tb live s f" "live' f = live f" "tb' (ps_guid s, f) = tb (ps_guid s, f)"
  shows "entry_ok tb' live' s f"
  using assms by (simp add: entry_ok_def row_ok_def split: if_splits)

definition synced :: "social_table \<Rightarrow> (u32 \<Rightarrow> bool) \<Rightarrow> (u32 \<Rightarrow> u32 set) \<Rightarrow> soc_world \<Rightarrow> bool" where
  "synced t live A w \<longleftrightarrow> (\<forall>g s. sm_find (sw_social w) g = Some s \<longrightarrow>
     ps_guid s = g \<and> sm_wf (ps_map s) \<and> (\<forall>f. f \<notin> A g \<longrightarrow> entry_ok (table_of t w) live s f))"

lemma sm_find_put_social:
  "sm_find (sw_social (put_social p s w)) g = (if g = sp_low p then Some s else sm_find (sw_social w) g)"
  by (simp add: put_social_def sm_find_put)

lemma soc_emit_fields [simp]:
  "sw_social (soc_emit es w) = sw_social w" "sw_out (soc_emit es w) = sw_out w @ es"
  "sw_out (put_social p s w) = sw_out w"
  by (simp_all add: soc_emit_def put_social_def)

lemma synced_send [simp]: "synced t live A (soc_emit [SocSend g d] w) = synced t live A w"
  by (simp add: synced_def table_of_def)

lemma synced_sends [simp]: "synced t live A (soc_emit (map (\<lambda>g. SocSend g d) gs) w) = synced t live A w"
  by (simp add: synced_def table_of_def)

lemma synced_status [simp]: "synced t live A (SendFriendStatus e p r g b w) = synced t live A w"
  by (simp add: SendFriendStatus_def BroadcastToFriendListers_def Let_def)

context list_op
begin

lemma op_entry:
  "entry_ok t live s f \<Longrightarrow> live f \<or> f \<notin> new \<Longrightarrow>
   entry_ok (fold run_stmt (fst (op s)) t) live (snd (op s)) f"
  by (auto simp: entry_ok_def op_row op_new split: if_splits)

lemma on_list_synced:
  assumes w: "synced t live A w" and here: "sm_find (sw_social w) (sp_low p) \<noteq> None"
    and new: "\<And>f. f \<in> new \<Longrightarrow> live f \<or> f \<in> A (sp_low p)"
  shows "synced t live A (soc_emit (map SocStmt (fst (op (GetSocial p w)))) (put_social p (snd (op (GetSocial p w))) w))"
proof -
  let ?s = "GetSocial p w" and ?st = "fst (op (GetSocial p w))"
  have s: "sm_find (sw_social w) (sp_low p) = Some ?s" using here by (auto simp: GetSocial_def)
  with w have g: "ps_guid ?s = sp_low p" "sm_wf (ps_map ?s)"
    "\<And>f. f \<notin> A (sp_low p) \<Longrightarrow> entry_ok (table_of t w) live ?s f"
    by (auto simp: synced_def)
  let ?w = "soc_emit (map SocStmt ?st) (put_social p (snd (op ?s)) w)"
  have tb: "table_of t ?w = fold run_stmt ?st (table_of t w)" by (simp add: table_of_def)
  show ?thesis
    unfolding synced_def
  proof (intro allI impI)
    fix h r
    assume f: "sm_find (sw_social ?w) h = Some r"
    show "ps_guid r = h \<and> sm_wf (ps_map r) \<and> (\<forall>f. f \<notin> A h \<longrightarrow> entry_ok (table_of t ?w) live r f)"
    proof (cases "h = sp_low p")
      case True
      with f have r: "r = snd (op ?s)" by (simp add: sm_find_put_social)
      have "entry_ok (table_of t ?w) live r f" if "f \<notin> A h" for f
        unfolding r tb using that True new by (intro op_entry g(3)) auto
      with True g op_guid [of ?s] op_wf [OF g(2)] show ?thesis by (simp add: r)
    next
      case False
      with f w have r: "ps_guid r = h" "sm_wf (ps_map r)"
        "\<And>f. f \<notin> A h \<Longrightarrow> entry_ok (table_of t w) live r f"
        by (auto simp: sm_find_put_social synced_def)
      have "table_of t ?w (h, x) = table_of t w (h, x)" for x
        unfolding tb using fold_stmt_frame [of ?st "sp_low p"] op_owner g(1) False by metis
      then have "entry_ok (table_of t ?w) live r f" if "f \<notin> A h" for f
        by (intro entry_ok_cong [OF r(3) [OF that]]) (simp_all add: r(1))
      with r show ?thesis by blast
    qed
  qed
qed

end

lemma put_emit_list:
  "sm_find (sw_social (soc_emit es (put_social p s w))) (sp_low p) \<noteq> None"
  by (simp add: sm_find_put_social)

lemma on_list_rem:
  "synced t live A w \<Longrightarrow> sm_find (sw_social w) (sp_low p) \<noteq> None \<Longrightarrow>
   synced t live A (on_list p (RemoveFromSocialList g ig) w)"
  using rem.on_list_synced by (simp add: on_list_def split_beta)

lemma on_list_note:
  "synced t live A w \<Longrightarrow> sm_find (sw_social w) (sp_low p) \<noteq> None \<Longrightarrow>
   synced t live A (on_list p (SetFriendNote tr g n) w)"
  using nte.on_list_synced by (simp add: on_list_def split_beta)

lemma add_synced:
  assumes "synced t live A w" "sm_find (sw_social w) (sp_low p) \<noteq> None"
    "AddToSocialList g ig (GetSocial p w) = (ok, st, s)" "live g \<or> g \<in> A (sp_low p)"
  shows "synced t live A (soc_emit (map SocStmt st) (put_social p s w))"
  using add.on_list_synced [OF assms(1,2), of g ig] assms(3,4) by simp

section \<open>Reachable worlds\<close>

text \<open>
  The players log in, act through the packets and log out, while characters are created, deleted,
  unlinked, restored and change their faction. \<open>live f\<close>: \<open>f\<close> has a row in \<open>characters\<close> that is not
  marked as deleted. \<open>A g\<close> collects, for the session of \<open>g\<close>, the characters whose rows the list in
  memory does not follow: those cut off by the client's limit of a hundred at the login, and those
  that have since been deleted, unlinked, restored or changed their faction; all of them when this
  happens to \<open>g\<close> himself. A name is looked up among the live characters; the answer may be late. Who
  is in the world has loaded his list.
\<close>

definition lists_loaded :: "soc_env \<Rightarrow> soc_world \<Rightarrow> bool" where
  "lists_loaded e w \<longleftrightarrow> (\<forall>g p. SocFindPlayer e g = Some p \<and> sp_in_world p \<longrightarrow>
     sm_find (sw_social w) (sp_low p) \<noteq> None)"

definition found :: "(u32 \<Rightarrow> bool) \<Rightarrow> (u32 \<Rightarrow> u32 set) \<Rightarrow> soc_player \<Rightarrow> u32 \<Rightarrow> bool" where
  "found live A p low \<longleftrightarrow> live low \<or> low \<in> A (sp_low p)"

definition set_apart :: "u32 \<Rightarrow> (u32 \<Rightarrow> u32 set) \<Rightarrow> u32 \<Rightarrow> u32 set" where
  "set_apart f A g = (if g = f then UNIV else insert f (A g))"

inductive soc_reach :: "social_table \<Rightarrow> soc_world \<Rightarrow> (u32 \<Rightarrow> bool) \<Rightarrow> (u32 \<Rightarrow> u32 set) \<Rightarrow> bool" for t where
  start: "soc_reach t \<lparr>sw_social = [], sw_out = []\<rparr> live (\<lambda>_. {})"
| login: "soc_reach t w live A \<Longrightarrow> sm_find (sw_social w) g = None \<Longrightarrow> all_rows live (table_of t w) g rows \<Longrightarrow>
    soc_reach t (LoadFromDB (take query_limit rows) g w) live (A(g := fst ` set (drop 100 rows)))"
| logout: "soc_reach t w live A \<Longrightarrow> soc_reach t (RemovePlayerSocial g w) live A"
| contacts: "soc_reach t w live A \<Longrightarrow> sm_find (sw_social w) (sp_low p) \<noteq> None \<Longrightarrow>
    HandleContactListOpcode e p b w = Inr w' \<Longrightarrow> soc_reach t w' live A"
| add_friend: "soc_reach t w live A \<Longrightarrow> sm_find (sw_social w) (sp_low p) \<noteq> None \<Longrightarrow>
    (\<And>low team sec. result = Some (low, team, sec) \<Longrightarrow> found live A p low) \<Longrightarrow>
    soc_reach t (HandleAddFriendOpcodeCallBack e p result note' w) live A"
| del_friend: "soc_reach t w live A \<Longrightarrow> sm_find (sw_social w) (sp_low p) \<noteq> None \<Longrightarrow>
    HandleDelFriendOpcode e p b w = Inr w' \<Longrightarrow> soc_reach t w' live A"
| add_ignore: "soc_reach t w live A \<Longrightarrow> sm_find (sw_social w) (sp_low p) \<noteq> None \<Longrightarrow>
    (\<And>low. res = Some low \<Longrightarrow> found live A p low) \<Longrightarrow>
    soc_reach t (HandleAddIgnoreOpcodeCallBack e p res w) live A"
| del_ignore: "soc_reach t w live A \<Longrightarrow> sm_find (sw_social w) (sp_low p) \<noteq> None \<Longrightarrow>
    HandleDelIgnoreOpcode e p b w = Inr w' \<Longrightarrow> soc_reach t w' live A"
| set_note: "soc_reach t w live A \<Longrightarrow> sm_find (sw_social w) (sp_low p) \<noteq> None \<Longrightarrow>
    HandleSetContactNotesOpcode e p b w = Inr w' \<Longrightarrow> soc_reach t w' live A"
| status: "soc_reach t w live A \<Longrightarrow> soc_reach t (SendFriendStatus e p r g bc w) live A"
| create: "soc_reach t w live A \<Longrightarrow> \<not> live f \<Longrightarrow> (\<And>g. table_of t w (g, f) = None) \<Longrightarrow>
    soc_reach t w (live(f := True)) A"
| delete: "soc_reach t w live A \<Longrightarrow> lists_loaded e w \<Longrightarrow>
    soc_reach t (delete_character e f listers w) (live(f := False)) (set_apart f A)"
| unlink: "soc_reach t w live A \<Longrightarrow> soc_reach t w (live(f := False)) (set_apart f A)"
| restore: "soc_reach t w live A \<Longrightarrow> soc_reach t w (live(f := True)) (set_apart f A)"
| faction: "soc_reach t w live A \<Longrightarrow> soc_reach t (change_faction e f w) live (set_apart f A)"

text \<open>Loading at most a hundred distinct rows into an empty list gives exactly these rows.\<close>

lemma load_rows_all:
  assumes "sm_wf (ps_map s)" "distinct (map fst rows)" "length rows + length (ps_map s) \<le> 100"
    "\<forall>f \<in> set (map fst rows). sm_find (ps_map s) f = None"
  shows "sm_wf (ps_map (load_rows rows s)) \<and> ps_guid (load_rows rows s) = ps_guid s \<and>
    (\<forall>f. map_option row_of (sm_find (ps_map (load_rows rows s)) f) =
       (case map_of rows f of Some r \<Rightarrow> Some r | None \<Rightarrow> map_option row_of (sm_find (ps_map s) f)))"
  using assms
proof (induction rows arbitrary: s)
  case (Cons r rows)
  obtain f a n where r: "r = (f, a, n)" by (cases r) auto
  let ?s = "s\<lparr>ps_map := sm_put f (new_FriendInfo a n) (ps_map s)\<rparr>"
  have wf: "sm_wf (ps_map ?s)" using Cons.prems by (simp add: sm_wf_put)
  have len: "length (ps_map ?s) = Suc (length (ps_map s))"
    using smap.size_put [OF Cons.prems(1), of f "new_FriendInfo a n"] Cons.prems(4) by (simp add: r)
  have row: "map_option row_of (sm_find (ps_map ?s) g) =
      (if g = f then Some (a, n) else map_option row_of (sm_find (ps_map s) g))" for g
    by (simp add: sm_find_put row_of_def)
  have stop: "rows = []" if "100 \<le> length (ps_map ?s)"
    using that len Cons.prems(3) by (cases rows) auto
  have ih: "sm_wf (ps_map (load_rows rows ?s)) \<and> ps_guid (load_rows rows ?s) = ps_guid ?s \<and>
    (\<forall>g. map_option row_of (sm_find (ps_map (load_rows rows ?s)) g) =
       (case map_of rows g of Some r \<Rightarrow> Some r | None \<Rightarrow> map_option row_of (sm_find (ps_map ?s) g)))"
    using Cons.prems wf len by (intro Cons.IH) (auto simp: r sm_find_put)
  have "load_rows (r # rows) s = load_rows rows ?s"
    using stop by (auto simp: r Let_def SOCIALMGR_FRIEND_LIMIT_def SOCIALMGR_IGNORE_LIMIT_def)
  moreover have "map_of rows f = None" using Cons.prems(2) by (simp add: r map_of_eq_None_iff)
  ultimately show ?case using ih row by (auto simp: r split: option.splits)
qed (simp split: option.split)

text \<open>Rows beyond the hundredth are never looked at.\<close>

lemma load_rows_limit:
  "length (ps_map s) < 100 \<Longrightarrow> sm_wf (ps_map s) \<Longrightarrow> distinct (map fst rows) \<Longrightarrow>
   \<forall>f \<in> set (map fst rows). sm_find (ps_map s) f = None \<Longrightarrow>
   load_rows rows s = load_rows (take (100 - length (ps_map s)) rows) s"
proof (induction rows arbitrary: s)
  case (Cons r rows)
  obtain f a n where r: "r = (f, a, n)" by (cases r) auto
  let ?s = "s\<lparr>ps_map := sm_put f (new_FriendInfo a n) (ps_map s)\<rparr>"
  have len: "length (ps_map ?s) = Suc (length (ps_map s))"
    using smap.size_put [OF Cons.prems(2), of f "new_FriendInfo a n"] Cons.prems(4) by (simp add: r)
  have "take (100 - length (ps_map s)) (r # rows) = r # take (100 - length (ps_map ?s)) rows"
    using Cons.prems(1) len by (simp add: take_Cons' Suc_diff_Suc)
  moreover have "load_rows rows ?s = load_rows (take (100 - length (ps_map ?s)) rows) ?s"
    if "length (ps_map ?s) < 100"
    using that Cons.prems by (intro Cons.IH) (auto simp: r sm_wf_put sm_find_put)
  ultimately show ?case
    by (simp add: r Let_def SOCIALMGR_FRIEND_LIMIT_def SOCIALMGR_IGNORE_LIMIT_def)
qed simp

lemma map_of_take_drop:
  assumes "distinct (map fst rows)"
  shows "map_of (take n rows) f = (if f \<in> fst ` set (drop n rows) then None else map_of rows f)"
proof -
  have d: "distinct (map fst (take n rows @ drop n rows))" using assms by simp
  have m: "map_of rows f = (case map_of (take n rows) f of Some v \<Rightarrow> Some v | None \<Rightarrow> map_of (drop n rows) f)"
    by (metis append_take_drop_id map_add_def map_of_append)
  show ?thesis
  proof (cases "f \<in> fst ` set (drop n rows)")
    case True
    then have "f \<notin> fst ` set (take n rows)" using d unfolding map_append distinct_append by auto
    with True show ?thesis by (simp add: map_of_eq_None_iff)
  next
    case False
    then have "map_of (drop n rows) f = None" by (simp add: map_of_eq_None_iff)
    with False m show ?thesis by (simp split: option.splits)
  qed
qed

lemma loaded_entries:
  assumes "all_rows live tb g rows"
  defines "s \<equiv> load_rows (take query_limit rows) (new_PlayerSocial\<lparr>ps_guid := g\<rparr>)"
  shows "sm_wf (ps_map s) \<and> ps_guid s = g \<and>
    (\<forall>f. f \<notin> fst ` set (drop 100 rows) \<longrightarrow> entry_ok tb live s f)"
proof -
  let ?n = "new_PlayerSocial\<lparr>ps_guid := g\<rparr>"
  have d: "distinct (map fst rows)" using assms(1) by (simp add: all_rows_def)
  have "load_rows (take query_limit rows) ?n = load_rows (take 100 (take query_limit rows)) ?n"
    using load_rows_limit [of ?n "take query_limit rows"] d
    using distinct_take [OF d] by (simp add: new_PlayerSocial_def take_map)
  also have "take 100 (take query_limit rows) = take 100 rows" by (simp add: query_limit_def)
  finally have s: "s = load_rows (take 100 rows) ?n" by (simp add: s_def)
  have "sm_wf (ps_map s) \<and> ps_guid s = g \<and>
      (\<forall>f. map_option row_of (sm_find (ps_map s) f) = map_of (take 100 rows) f)"
    using load_rows_all [of ?n "take 100 rows"] d unfolding s
    using distinct_take [OF d] by (simp add: new_PlayerSocial_def take_map split: option.splits)
  then have base: "sm_wf (ps_map s)" "ps_guid s = g"
    and all: "\<And>f. map_option row_of (sm_find (ps_map s) f) = map_of (take 100 rows) f" by auto
  have "entry_ok tb live s f" if f: "f \<notin> fst ` set (drop 100 rows)" for f
  proof -
    have "map_option row_of (sm_find (ps_map s) f) = (if live f then tb (g, f) else None)"
      using all [of f] map_of_take_drop [OF d, of 100 f] assms(1) f by (simp add: all_rows_def)
    then show ?thesis by (simp add: entry_ok_def row_ok_def base(2) split: if_splits)
  qed
  with base show ?thesis by blast
qed

lemma synced_refreshed:
  assumes w: "synced t live A w" and here: "sm_find (sw_social w) (sp_low p) \<noteq> None"
  shows "synced t live A (SendSocialList e p w)"
proof -
  let ?s = "GetSocial p w"
  have s: "sm_find (sw_social w) (sp_low p) = Some ?s" using here by (auto simp: GetSocial_def)
  with w have g: "ps_guid ?s = sp_low p" "sm_wf (ps_map ?s)"
    "\<And>f. f \<notin> A (sp_low p) \<Longrightarrow> entry_ok (table_of t w) live ?s f"
    by (auto simp: synced_def)
  have row: "map_option row_of (sm_find (ps_map (refreshed e p w ?s)) f) =
      map_option row_of (sm_find (ps_map ?s) f)" for f
    by (cases "sm_find (ps_map ?s) f")
      (auto simp: refreshed_def sm_find_map GetFriendInfo_def Let_def row_of_def split: option.split)
  have r: "ps_guid (refreshed e p w ?s) = sp_low p" "sm_wf (ps_map (refreshed e p w ?s))"
    using g by (simp_all add: refreshed_def sm_wf_map)
  have "entry_ok (table_of t w) live (refreshed e p w ?s) f" if "f \<notin> A (sp_low p)" for f
    using g(3) [OF that] g(1) r(1) row [of f] by (auto simp: entry_ok_def row_ok_def split: if_splits)
  then have "synced t live A (put_social p (refreshed e p w ?s) w)"
    using w r by (auto simp: synced_def sm_find_put_social table_of_def)
  then show ?thesis by (simp add: SendSocialList_def Let_def)
qed

text \<open>What happens to a character only sets him apart, whatever statements name him.\<close>

lemma synced_set_apart:
  assumes "synced t live A w" "\<And>h. h \<noteq> f \<Longrightarrow> live' h = live h"
    "sw_social w' = sw_social w" "\<And>g h. g \<noteq> f \<Longrightarrow> h \<noteq> f \<Longrightarrow> table_of t w' (g, h) = table_of t w (g, h)"
  shows "synced t live' (set_apart f A) w'"
  unfolding synced_def
proof (intro allI impI)
  fix g s assume "sm_find (sw_social w') g = Some s"
  with assms(1,3) have s: "ps_guid s = g" "sm_wf (ps_map s)" "\<And>h. h \<notin> A g \<Longrightarrow> entry_ok (table_of t w) live s h"
    by (auto simp: synced_def)
  have "entry_ok (table_of t w') live' s h" if "h \<notin> set_apart f A g" for h
    using that assms(2,4) s(1)
    by (intro entry_ok_cong [OF s(3)]) (auto simp: set_apart_def split: if_splits)
  with s show "ps_guid s = g \<and> sm_wf (ps_map s) \<and>
      (\<forall>h. h \<notin> set_apart f A g \<longrightarrow> entry_ok (table_of t w') live' s h)" by blast
qed

lemma status_lists [simp]: "sw_social (SendFriendStatus e p r g b w) = sw_social w"
  by (simp add: SendFriendStatus_def BroadcastToFriendListers_def Let_def)

lemma on_list_present: "sm_find (sw_social w) h \<noteq> None \<Longrightarrow> sm_find (sw_social (on_list p f w)) h \<noteq> None"
  by (simp add: on_list_def split_beta sm_find_put_social)

lemma unfriend_synced:
  assumes "synced t live A w" "lists_loaded e w"
  shows "synced t live A (unfriend_lister e g l w) \<and> lists_loaded e (unfriend_lister e g l w)"
proof -
  have here: "sm_find (sw_social w) (sp_low p) \<noteq> None"
    if "SocFindPlayer e h = Some p" "sp_in_world p" for h p
    using assms(2) that unfolding lists_loaded_def by blast
  have "lists_loaded e (on_list q (RemoveFromSocialList g False) w)" for q
    unfolding lists_loaded_def using on_list_present here by blast
  moreover have "lists_loaded e (SendFriendStatus e q r h b v) = lists_loaded e v" for q r h b v
    by (simp add: lists_loaded_def)
  ultimately show ?thesis
    using assms here by (auto simp: unfriend_lister_def on_list_rem split: option.split)
qed

lemma delete_synced:
  assumes "synced t live A w" "lists_loaded e w"
  shows "synced t (live(f := False)) (set_apart f A) (delete_character e f ls w)"
proof -
  have "synced t live A (fold (unfriend_lister e f) ls w)"
    using assms by (induction ls arbitrary: w) (simp_all add: unfriend_synced)
  then show ?thesis
    unfolding delete_character_def by (rule synced_set_apart) (simp_all add: table_of_def)
qed

lemma soc_reach_synced: "soc_reach t w live A \<Longrightarrow> synced t live A w"
proof (induction rule: soc_reach.induct)
  case (start live)
  show ?case by (simp add: synced_def)
next
  case (login w live A g rows)
  let ?s = "load_rows (take query_limit rows) (new_PlayerSocial\<lparr>ps_guid := g\<rparr>)"
  have l: "LoadFromDB (take query_limit rows) g w = w\<lparr>sw_social := sm_put g ?s (sw_social w)\<rparr>"
    using login by (simp add: LoadFromDB_def)
  from loaded_entries [OF login.hyps(3)] login.IH show ?case
    by (auto simp: l synced_def sm_find_put table_of_def split: if_splits)
next
  case (logout w live A g)
  then show ?case by (auto simp: RemovePlayerSocial_def synced_def sm_find_erase table_of_def split: if_splits)
next
  case (add_friend w live A p result e note')
  have "synced t live A w1 \<and> sm_find (sw_social w1) (sp_low p) \<noteq> None"
    if "add_friend_result e p (MAKE_NEW_GUID low 0 HIGHGUID_PLAYER) team w = (r, w1)" "found live A p low"
    for low team r w1
    using that add_friend.hyps add_friend.IH add_synced [OF add_friend.IH add_friend.hyps(2)]
    by (auto simp: add_friend_result_def Let_def sm_find_put_social player_guid_lopart found_def
        split: if_splits prod.splits)
  with add_friend show ?case
    by (auto simp: HandleAddFriendOpcodeCallBack_def Let_def on_list_note split: option.split prod.split)
next
  case (add_ignore w live A p res e)
  then show ?case
    by (auto simp: HandleAddIgnoreOpcodeCallBack_def Let_def add_synced player_guid_lopart found_def
        split: option.split prod.split)
next
  case (create w live A f)
  have "entry_ok (table_of t w) (live(f := True)) s h" if "entry_ok (table_of t w) live s h" for s h
    using that create.hyps(2,3) by (auto simp: entry_ok_def row_ok_def split: if_splits)
  with create.IH show ?case unfolding synced_def by blast
next
  case (delete w live A e f listers)
  then show ?case using delete_synced by blast
next
  case (unlink w live A f)
  then show ?case by (auto intro: synced_set_apart)
next
  case (restore w live A f)
  then show ?case by (auto intro: synced_set_apart)
next
  case (faction w live A e f)
  from faction.IH show ?case by (rule synced_set_apart) (auto simp: change_faction_def table_of_def)
qed (auto simp: HandleContactListOpcode_def HandleDelFriendOpcode_def HandleDelIgnoreOpcode_def
    HandleSetContactNotesOpcode_def sbind_Inr synced_refreshed on_list_rem on_list_note)

text \<open>
  C13: memory and table never drift apart, except about characters to whom something has happened.
  For everybody who is logged in, and every character outside \<open>A g\<close> (not cut off by the limit at the
  login, and since then neither deleted, unlinked, restored nor moved to the other faction): when the
  character is live, the flags and the note of his row in \<open>character_social\<close>, as all executed
  statements have left it, are exactly those of the list in memory, and there is no row exactly when
  there is no entry; when he is not, memory has no entry.
\<close>

theorem social_table_refines:
  assumes "soc_reach t w live A" and "sm_find (sw_social w) g = Some s"
  shows "ps_guid s = g \<and>
    (\<forall>f. f \<notin> A g \<longrightarrow> map_option (\<lambda>i. (fi_Flags i, fi_Note i)) (sm_find (ps_map s) f) =
      (if live f then fold run_stmt (effect_stmts (sw_out w)) t (g, f) else None))"
proof -
  have r: "row_of = (\<lambda>i. (fi_Flags i, fi_Note i))" by (simp add: fun_eq_iff row_of_def)
  from soc_reach_synced [OF assms(1)] assms(2) have g: "ps_guid s = g"
    and e: "\<And>f. f \<notin> A g \<Longrightarrow> entry_ok (table_of t w) live s f" by (auto simp: synced_def)
  have "map_option row_of (sm_find (ps_map s) f) = (if live f then table_of t w (g, f) else None)"
    if "f \<notin> A g" for f
    using e [OF that] g by (simp add: entry_ok_def row_ok_def split: if_splits)
  with g show ?thesis by (simp add: r table_of_def)
qed

definition demo_soc_player :: soc_player where
  "demo_soc_player = \<lparr>sp_guid = 1, sp_team = 469, sp_security = 0, sp_in_world = True,
     sp_visible_for = (\<lambda>_. True), sp_afk = False, sp_dnd = False, sp_zone = 12, sp_level = 80, sp_class = 4\<rparr>"

definition demo_soc_env :: soc_env where
  "demo_soc_env = \<lparr>SocFindPlayer = (\<lambda>g. if g = 1 then Some demo_soc_player else None),
     two_side_who = False, two_side_friend = False, allow_gm_friend = False, gm_who_level = 0,
     note_trunc = take 48\<rparr>"

definition demo_soc_world :: soc_world where
  "demo_soc_world = HandleAddFriendOpcodeCallBack demo_soc_env demo_soc_player (Some (7, 469, 0)) ''hi''
     (LoadFromDB [(9, 2, ''foe'')] 1 \<lparr>sw_social = [], sw_out = []\<rparr>)"

text \<open>
  The friend 8 has been unlinked before the login, which does not load him; 9 is deleted after 7
  has been added.
\<close>

definition demo_soc_end :: soc_world where
  "demo_soc_end = delete_character demo_soc_env 9 [1] demo_soc_world"

theorem social_table_refines_witness:
  "fold run_stmt (effect_stmts (sw_out demo_soc_end))
     ((\<lambda>_. None)((1, 9) := Some (2, ''foe''), (1, 8) := Some (1, ''''))) (1, 7) = Some (1, ''hi'')"
proof -
  let ?t = "(\<lambda>_. None)((1 :: u32, 9 :: u32) := Some (2 :: u8, ''foe''), (1, 8) := Some (1, ''''))"
  let ?w0 = "\<lparr>sw_social = [], sw_out = []\<rparr>" and ?live = "\<lambda>f :: u32. f \<noteq> 8"
  have rows: "all_rows ?live (table_of ?t ?w0) 1 [(9, 2, ''foe'')]"
    by (simp add: all_rows_def table_of_def)
  have l: "soc_reach ?t (LoadFromDB [(9, 2, ''foe'')] 1 ?w0) ?live (\<lambda>_. {})"
    using soc_reach.login [OF soc_reach.start _ rows] by (simp add: query_limit_def fun_upd_idem)
  have on: "sm_find (sw_social (LoadFromDB [(9, 2, ''foe'')] 1 ?w0)) (sp_low demo_soc_player) \<noteq> None"
    by code_simp
  have r: "soc_reach ?t demo_soc_world ?live (\<lambda>_. {})"
    unfolding demo_soc_world_def by (rule soc_reach.add_friend [OF l on]) (simp add: found_def)
  have "sm_find (sw_social demo_soc_world) (sp_low demo_soc_player) \<noteq> None" by code_simp
  then have "lists_loaded demo_soc_env demo_soc_world"
    by (simp add: lists_loaded_def demo_soc_env_def)
  from soc_reach.delete [OF r this]
  have d: "soc_reach ?t demo_soc_end (?live(9 := False)) (set_apart 9 (\<lambda>_. {}))"
    by (simp add: demo_soc_end_def)
  have "case sm_find (sw_social demo_soc_end) 1 of None \<Rightarrow> False
      | Some s \<Rightarrow> map_option (\<lambda>i. (fi_Flags i, fi_Note i)) (sm_find (ps_map s) 7) = Some (1, ''hi'')"
    by code_simp
  then obtain s where "sm_find (sw_social demo_soc_end) 1 = Some s"
    "map_option (\<lambda>i. (fi_Flags i, fi_Note i)) (sm_find (ps_map s) 7) = Some (1, ''hi'')"
    by (auto split: option.splits)
  with social_table_refines [OF d this(1)] show ?thesis by (simp add: set_apart_def)
qed

section \<open>A deleted character who was ignored\<close>

text \<open>
  Why the deleted are set apart: the deletion takes only the friend flag from the lists in memory,
  so one who was ignored stays in the list, while his row is gone.
\<close>

lemma deleted_stays_ignored:
  "HasIgnored 9 (GetSocial demo_soc_player demo_soc_end) \<and>
   fold run_stmt (effect_stmts (sw_out demo_soc_end))
     ((\<lambda>_. None)((1, 9) := Some (2, ''foe''), (1, 8) := Some (1, ''''))) (1, 9) = None"
  by code_simp

section \<open>The note of an offline friend\<close>

text \<open>
  The answer to an addition of a friend who is offline carries an empty note, whatever note
  the list holds: \<open>GetFriendInfo\<close> returns before it copies the note. The answer for a friend who is
  in the world carries the stored note.
\<close>

theorem offline_friend_note_dropped:
  "(SocFindPlayer e (ucast g) = None \<longrightarrow>
    SendFriendStatus e p FRIEND_ADDED_OFFLINE g False w =
      soc_emit [SocSend (sp_guid p) (MakeFriendStatusPacket FRIEND_ADDED_OFFLINE g [FStr ''''])] w) \<and>
   (SocFindPlayer e (ucast g) = Some f \<and> sm_find (ps_map (GetSocial p w)) g = Some i \<longrightarrow>
    (\<exists>fs. SendFriendStatus e p FRIEND_ADDED_ONLINE g False w =
      soc_emit [SocSend (sp_guid p) (MakeFriendStatusPacket FRIEND_ADDED_ONLINE g (FStr (fi_Note i) # fs))] w))"
  by (auto simp: SendFriendStatus_def GetFriendInfo_def status_fields_def Let_def)

theorem offline_friend_note_dropped_witness:
  "let w = demo_soc_world in
   fi_Note (the (sm_find (ps_map (GetSocial demo_soc_player w)) 7)) = ''hi'' \<and>
   SendFriendStatus demo_soc_env demo_soc_player FRIEND_ADDED_OFFLINE 7 False w =
     soc_emit [SocSend 1 (MakeFriendStatusPacket FRIEND_ADDED_OFFLINE 7 [FStr ''''])] w"
proof -
  have "fi_Note (the (sm_find (ps_map (GetSocial demo_soc_player demo_soc_world)) 7)) = ''hi''"
    by code_simp
  moreover have "SocFindPlayer demo_soc_env (ucast (7 :: u32)) = None" "sp_guid demo_soc_player = 1"
    by (simp_all add: demo_soc_env_def demo_soc_player_def)
  ultimately show ?thesis
    using offline_friend_note_dropped [of demo_soc_env 7 demo_soc_player demo_soc_world]
    by (simp add: Let_def)
qed

end
