(* ===== verification/Timers.thy ===== *)
theory Timers
  imports Base
begin

text \<open>
  The timers of \<open>src/src/server/shared/Utilities/Timer.h\<close>. \<open>time_t\<close> is a signed sixty-four bit
  integer, \<open>int32\<close> a signed thirty-two bit one; both are machine words here, compared as signed.
\<close>

type_synonym time_t = "64 word"
type_synonym i32 = "32 word"

section \<open>Differences of the millisecond clock\<close>

definition getMSTimeDiff :: "u32 \<Rightarrow> u32 \<Rightarrow> u32" where
  "getMSTimeDiff oldMSTime newMSTime =
     (if oldMSTime > newMSTime then (0xFFFFFFFF - oldMSTime) + newMSTime else newMSTime - oldMSTime)"

text \<open>
  Between a reading of the clock and a later one \<open>d\<close> milliseconds on, \<open>getMSTimeDiff\<close> is
  \<open>d\<close> while the thirty-two bit counter does not overflow, and one millisecond less when it
  does.
\<close>

theorem ms_time_diff_elapsed:
  "getMSTimeDiff t (t + d) = (if unat t + unat d < 2 ^ 32 then d else d - 1)"
proof (cases "unat t + unat d < 2 ^ 32")
  case True
  then have "unat (t + d) = unat t + unat d" by (simp add: unat_word_ariths)
  then have "\<not> t > t + d" by (simp add: word_less_nat_alt)
  with True show ?thesis by (simp add: getMSTimeDiff_def)
next
  case False
  have lt: "unat t < 2 ^ 32" "unat d < 2 ^ 32" using unsigned_less [of t, where ?'a = nat] unsigned_less [of d, where ?'a = nat] by simp_all
  have "unat (t + d) = (unat t + unat d) mod 2 ^ 32" by (simp add: unat_word_ariths)
  also have "\<dots> = unat t + unat d - 2 ^ 32" using False lt by (simp add: mod_if)
  finally have "unat (t + d) < unat t" using False lt by linarith
  then have g: "t > t + d" by (simp add: word_less_nat_alt)
  have "(0xFFFFFFFF :: u32) = - 1" by simp
  with False g show ?thesis by (simp add: getMSTimeDiff_def)
qed

section \<open>IntervalTimer\<close>

record IntervalTimer =
  it_interval :: time_t
  it_current :: time_t

definition it_new :: IntervalTimer where
  "it_new = \<lparr>it_interval = 0, it_current = 0\<rparr>"

definition it_Update :: "time_t \<Rightarrow> IntervalTimer \<Rightarrow> IntervalTimer" where
  "it_Update diff t = (let c = it_current t + diff in t\<lparr>it_current := (if sint c < 0 then 0 else c)\<rparr>)"

definition it_Passed :: "IntervalTimer \<Rightarrow> bool" where
  "it_Passed t \<longleftrightarrow> sint (it_current t) \<ge> sint (it_interval t)"

definition it_Reset :: "IntervalTimer \<Rightarrow> IntervalTimer" where
  "it_Reset t = (if sint (it_current t) \<ge> sint (it_interval t)
     then t\<lparr>it_current := it_current t - it_interval t\<rparr> else t)"

definition it_SetCurrent :: "time_t \<Rightarrow> IntervalTimer \<Rightarrow> IntervalTimer" where
  "it_SetCurrent c t = t\<lparr>it_current := c\<rparr>"

definition it_SetInterval :: "time_t \<Rightarrow> IntervalTimer \<Rightarrow> IntervalTimer" where
  "it_SetInterval i t = t\<lparr>it_interval := i\<rparr>"

text \<open>The way the world uses its timers: update, and when the interval has passed, reset and act.\<close>

fun it_run :: "time_t list \<Rightarrow> IntervalTimer \<Rightarrow> nat \<times> IntervalTimer" where
  "it_run [] t = (0, t)"
| "it_run (d # ds) t =
     (let t1 = it_Update d t in
      if it_Passed t1 then (let (n, t2) = it_run ds (it_Reset t1) in (Suc n, t2)) else it_run ds t1)"

lemma sint_word_of_int: "0 \<le> x \<Longrightarrow> x < 2 ^ 63 \<Longrightarrow> sint (word_of_int x :: time_t) = x"
  by (simp add: sint_uint signed_take_bit_int_eq_self unsigned_of_int take_bit_int_eq_self)

lemma it_step:
  assumes "0 \<le> sint (it_current t)" "0 \<le> sint d" "sint (it_current t) + sint d < 2 ^ 63"
  shows "sint (it_current (it_Update d t)) = sint (it_current t) + sint d"
    and "it_interval (it_Update d t) = it_interval t"
proof -
  have "it_current t + d = word_of_int (sint (it_current t) + sint d)"
    by simp
  then have "sint (it_current t + d) = sint (it_current t) + sint d"
    using assms sint_word_of_int [of "sint (it_current t) + sint d"] by simp
  with assms show "sint (it_current (it_Update d t)) = sint (it_current t) + sint d"
    by (simp add: it_Update_def Let_def)
qed (simp add: it_Update_def Let_def)

lemma it_reset_step:
  assumes "0 \<le> sint (it_interval t)" "it_Passed t"
  shows "sint (it_current (it_Reset t)) = sint (it_current t) - sint (it_interval t)"
    and "it_interval (it_Reset t) = it_interval t"
proof -
  have "it_current t - it_interval t = word_of_int (sint (it_current t) - sint (it_interval t))"
    by simp
  moreover have "sint (it_current t) < 2 ^ 63" using sint_lt [of "it_current t"] by simp
  ultimately show "sint (it_current (it_Reset t)) = sint (it_current t) - sint (it_interval t)"
    using assms sint_word_of_int [of "sint (it_current t) - sint (it_interval t)"]
    by (simp add: it_Reset_def it_Passed_def)
qed (simp add: it_Reset_def)

text \<open>
  An interval timer does not drift. Over any updates that are each shorter than the
  interval, it fires once for every whole interval that has gone by, and its current value is
  the rest.
\<close>

theorem interval_timer_exact:
  assumes "0 < sint (it_interval t)" and "0 \<le> sint (it_current t)"
    and "sint (it_current t) < sint (it_interval t)" and "sint (it_interval t) < 2 ^ 62"
    and "\<forall>d \<in> set ds. 0 \<le> sint d \<and> sint d \<le> sint (it_interval t)"
    and "it_run ds t = (n, t')"
  shows "int n = (sint (it_current t) + sum_list (map sint ds)) div sint (it_interval t) \<and>
    sint (it_current t') = (sint (it_current t) + sum_list (map sint ds)) mod sint (it_interval t)"
  using assms
proof (induction ds arbitrary: t n)
  case Nil
  then show ?case by simp
next
  case (Cons d ds)
  let ?t1 = "it_Update d t"
  let ?i = "sint (it_interval t)"
  have u: "sint (it_current ?t1) = sint (it_current t) + sint d" "it_interval ?t1 = it_interval t"
    using Cons.prems by (intro it_step; simp)+
  show ?case
  proof (cases "it_Passed ?t1")
    case False
    then have "it_run ds ?t1 = (n, t')" using Cons.prems by (simp add: Let_def)
    with Cons.IH [of ?t1 n] Cons.prems False u show ?thesis
      by (simp add: it_Passed_def add.assoc)
  next
    case True
    let ?t2 = "it_Reset ?t1"
    have r: "sint (it_current ?t2) = sint (it_current t) + sint d - ?i" "it_interval ?t2 = it_interval t"
      using it_reset_step [of ?t1] True u Cons.prems by simp_all
    obtain m where m: "it_run ds ?t2 = (m, t')" "n = Suc m"
      using Cons.prems True by (auto simp: Let_def split: prod.splits)
    have ge: "sint (it_current t) + sint d \<ge> ?i" using True u by (simp add: it_Passed_def)
    let ?S = "sint (it_current t) + (sint d + sum_list (map sint ds))"
    have ih: "int m = (?S - ?i) div ?i \<and> sint (it_current t') = (?S - ?i) mod ?i"
      using Cons.IH [of ?t2 m] Cons.prems m r ge by (simp add: algebra_simps)
    have "(?S - ?i) div ?i = ?S div ?i - 1" "(?S - ?i) mod ?i = ?S mod ?i"
      using Cons.prems(1) div_add_self2 [of ?i "?S - ?i"] mod_add_self2 [of "?S - ?i" ?i] by simp_all
    with ih m show ?thesis by simp
  qed
qed

theorem interval_timer_exact_witness:
  "it_run [700, 700, 700] \<lparr>it_interval = 1000, it_current = 100\<rparr> = (2, \<lparr>it_interval = 1000, it_current = 200\<rparr>) \<and>
   sint (200 :: time_t) = (sint (100 :: time_t) + sum_list (map sint [700 :: time_t, 700, 700])) mod sint (1000 :: time_t)"
proof -
  let ?t = "\<lparr>it_interval = 1000, it_current = 100\<rparr>"
  have r: "it_run [700, 700, 700] ?t = (2, \<lparr>it_interval = 1000, it_current = 200\<rparr>)"
    by (simp add: it_Update_def it_Passed_def it_Reset_def Let_def)
  show ?thesis using r interval_timer_exact [OF _ _ _ _ _ r] by simp
qed

section \<open>TimeTracker and TimeTrackerSmall\<close>

record TimeTracker = tt_expiryTime :: time_t

definition tt_Update :: "time_t \<Rightarrow> TimeTracker \<Rightarrow> TimeTracker" where
  "tt_Update diff t = t\<lparr>tt_expiryTime := tt_expiryTime t - diff\<rparr>"

definition tt_Passed :: "TimeTracker \<Rightarrow> bool" where
  "tt_Passed t \<longleftrightarrow> sint (tt_expiryTime t) \<le> 0"

definition tt_Reset :: "time_t \<Rightarrow> TimeTracker \<Rightarrow> TimeTracker" where
  "tt_Reset interval t = t\<lparr>tt_expiryTime := interval\<rparr>"

record TimeTrackerSmall = ts_expiryTime :: i32

definition ts_Update :: "i32 \<Rightarrow> TimeTrackerSmall \<Rightarrow> TimeTrackerSmall" where
  "ts_Update diff t = t\<lparr>ts_expiryTime := ts_expiryTime t - diff\<rparr>"

definition ts_Passed :: "TimeTrackerSmall \<Rightarrow> bool" where
  "ts_Passed t \<longleftrightarrow> sint (ts_expiryTime t) \<le> 0"

definition ts_Reset :: "u32 \<Rightarrow> TimeTrackerSmall \<Rightarrow> TimeTrackerSmall" where
  "ts_Reset interval t = t\<lparr>ts_expiryTime := interval\<rparr>"

section \<open>PeriodicTimer\<close>

record PeriodicTimer =
  pt_period :: i32
  pt_expireTime :: i32

text \<open>The compound assignments mix \<open>int32\<close> and \<open>uint32\<close>: the sum is computed modulo \<open>2 ^ 32\<close>.\<close>

definition pt_Update :: "u32 \<Rightarrow> PeriodicTimer \<Rightarrow> bool \<times> PeriodicTimer" where
  "pt_Update diff t =
     (let e = pt_expireTime t - diff in
      if sint e > 0 then (False, t\<lparr>pt_expireTime := e\<rparr>)
      else (True, t\<lparr>pt_expireTime := e + (if sint (pt_period t) > sint diff then pt_period t else diff)\<rparr>))"

definition pt_SetPeriodic :: "i32 \<Rightarrow> i32 \<Rightarrow> PeriodicTimer \<Rightarrow> PeriodicTimer" where
  "pt_SetPeriodic period start t = t\<lparr>pt_expireTime := start, pt_period := period\<rparr>"

definition pt_TUpdate :: "i32 \<Rightarrow> PeriodicTimer \<Rightarrow> PeriodicTimer" where
  "pt_TUpdate diff t = t\<lparr>pt_expireTime := pt_expireTime t - diff\<rparr>"

definition pt_TPassed :: "PeriodicTimer \<Rightarrow> bool" where
  "pt_TPassed t \<longleftrightarrow> sint (pt_expireTime t) \<le> 0"

definition pt_TReset :: "i32 \<Rightarrow> i32 \<Rightarrow> PeriodicTimer \<Rightarrow> PeriodicTimer" where
  "pt_TReset diff period t = t\<lparr>pt_expireTime :=
     pt_expireTime t + (if sint period > sint diff then period else diff)\<rparr>"

text \<open>The two halves of the timer's other interface are its \<open>Update\<close>.\<close>

lemma pt_Update_tracker:
  "pt_Update diff t = (let t1 = pt_TUpdate diff t in
     if pt_TPassed t1 then (True, pt_TReset diff (pt_period t1) t1) else (False, t1))"
  by (simp add: pt_Update_def pt_TUpdate_def pt_TPassed_def pt_TReset_def Let_def)

end
