(* ===== verification/Event_Processor.thy ===== *)
theory Event_Processor
  imports Std_Map
begin

text \<open>
  The event queue of \<open>src/src/server/shared/Utilities/EventProcessor.cpp\<close> and \<open>.h\<close>. A
  \<open>BasicEvent\<close> is a record with its flag, its two times and the data of its subclass; the virtual
  methods are the record \<open>event_code\<close>. \<open>Execute\<close> may add events to the queue, itself included:
  it returns them in the order it adds them.
\<close>

record 'p event =
  ev_data :: 'p
  to_Abort :: bool
  m_addTime :: u64
  m_execTime :: u64

record ('p, 's) event_code =
  Execute :: "'p event \<Rightarrow> u64 \<Rightarrow> u32 \<Rightarrow> 's \<Rightarrow> bool \<times> ('p event \<times> u64 \<times> bool) list \<times> 's"
  Abort :: "'p event \<Rightarrow> u64 \<Rightarrow> 's \<Rightarrow> 's"
  IsDeletable :: "'p event \<Rightarrow> bool"

text \<open>What became of an event: it ran (and was deleted or not), or was aborted.\<close>

datatype 'p outcome = Ran "'p event" u64 bool | Aborted "'p event" u64 bool

fun outcome_event :: "'p outcome \<Rightarrow> 'p event" where
  "outcome_event (Ran e t d) = e"
| "outcome_event (Aborted e t d) = e"

record ('p, 's) processor =
  m_time :: u64
  m_events :: "(u64 \<times> 'p event) list"
  m_aborting :: bool
  p_state :: 's
  p_log :: "'p outcome list"

definition new_processor :: "'s \<Rightarrow> ('p, 's) processor" where
  "new_processor s = \<lparr>m_time = 0, m_events = [], m_aborting = False, p_state = s, p_log = []\<rparr>"

definition AddEvent :: "'p event \<Rightarrow> u64 \<Rightarrow> bool \<Rightarrow> ('p, 's) processor \<Rightarrow> ('p, 's) processor" where
  "AddEvent ev e_time set_addtime p =
     (let e1 = (if set_addtime then ev\<lparr>m_addTime := m_time p\<rparr> else ev);
          e2 = e1\<lparr>m_execTime := e_time\<rparr>
      in p\<lparr>m_events := mm_insert e_time e2 (m_events p)\<rparr>)"

definition CalculateTime :: "u64 \<Rightarrow> ('p, 's) processor \<Rightarrow> u64" where
  "CalculateTime t_offset p = m_time p + t_offset"

section \<open>Update\<close>

definition add_events :: "('p event \<times> u64 \<times> bool) list \<Rightarrow> ('p, 's) processor \<Rightarrow> ('p, 's) processor" where
  "add_events es p = fold (\<lambda>(e, t, b). AddEvent e t b) es p"

text \<open>One turn of the loop, on an event that has been taken off the queue.\<close>

definition run_event :: "('p, 's) event_code \<Rightarrow> u32 \<Rightarrow> 'p event \<Rightarrow> ('p, 's) processor \<Rightarrow>
    ('p, 's) processor" where
  "run_event code p_time ev p =
     (if \<not> to_Abort ev then
        (let (del, added, s) = Execute code ev (m_time p) p_time (p_state p)
         in add_events added (p\<lparr>p_state := s, p_log := p_log p @ [Ran ev (m_time p) del]\<rparr>))
      else p\<lparr>p_state := Abort code ev (m_time p) (p_state p),
             p_log := p_log p @ [Aborted ev (m_time p) True]\<rparr>)"

text \<open>The loop of \<open>Update\<close>; it does not end when events keep adding events that are due.\<close>

partial_function (option) update_loop ::
    "('p, 's) event_code \<Rightarrow> u32 \<Rightarrow> ('p, 's) processor \<Rightarrow> ('p, 's) processor option" where
  "update_loop code p_time p =
     (case m_events p of
        [] \<Rightarrow> Some p
      | (t, ev) # r \<Rightarrow>
          if t \<le> m_time p then update_loop code p_time (run_event code p_time ev (p\<lparr>m_events := r\<rparr>))
          else Some p)"

definition Update :: "('p, 's) event_code \<Rightarrow> u32 \<Rightarrow> ('p, 's) processor \<Rightarrow> ('p, 's) processor option" where
  "Update code p_time p = update_loop code p_time (p\<lparr>m_time := m_time p + ucast p_time\<rparr>)"

section \<open>KillAllEvents\<close>

text \<open>
  Every queued event is aborted; it is deleted when \<open>force\<close> or when it allows it, and without
  \<open>force\<close> the others stay in the queue with their flag set. \<open>Abort\<close> is taken to add no event.
\<close>

fun kill_loop :: "('p, 's) event_code \<Rightarrow> bool \<Rightarrow> u64 \<Rightarrow> (u64 \<times> 'p event) list \<Rightarrow> 's \<Rightarrow>
    (u64 \<times> 'p event) list \<times> 's \<times> 'p outcome list" where
  "kill_loop code force now [] s = ([], s, [])"
| "kill_loop code force now ((t, ev) # r) s =
     (let e1 = ev\<lparr>to_Abort := True\<rparr>;
          s1 = Abort code e1 now s;
          del = (force \<or> IsDeletable code e1);
          (kept, s2, log) = kill_loop code force now r s1
      in ((if del \<and> \<not> force then kept else (t, e1) # kept), s2, Aborted e1 now del # log))"

definition KillAllEvents :: "('p, 's) event_code \<Rightarrow> bool \<Rightarrow> ('p, 's) processor \<Rightarrow> ('p, 's) processor" where
  "KillAllEvents code force p =
     (let (kept, s, log) = kill_loop code force (m_time p) (m_events p) (p_state p)
      in p\<lparr>m_aborting := True, m_events := (if force then [] else kept), p_state := s,
           p_log := p_log p @ log\<rparr>)"

section \<open>The due events\<close>

definition due :: "u64 \<Rightarrow> (u64 \<times> 'p event) list \<Rightarrow> (u64 \<times> 'p event) list" where
  "due now m = filter (\<lambda>e. fst e \<le> now) m"

lemma due_prefix: "mm_wf m \<Longrightarrow> m = due now m @ filter (\<lambda>e. now < fst e) m"
proof (induction m)
  case (Cons e m)
  then have ih: "m = due now m @ filter (\<lambda>e. now < fst e) m" by (simp add: mm_wf_def)
  show ?case
  proof (cases "fst e \<le> now")
    case True
    with ih show ?thesis by (simp add: due_def)
  next
    case False
    with Cons.prems have "\<forall>x \<in> set m. now < fst x" by (auto simp: mm_wf_def)
    then have "due now m = []" by (auto simp: due_def filter_empty_conv not_le)
    with False ih show ?thesis by (simp add: due_def)
  qed
qed (simp add: due_def)

lemma due_insert:
  assumes "now < t"
  shows "due now (mm_insert t e m) = due now m"
proof -
  have "filter (\<lambda>x. fst x \<le> t \<and> fst x \<le> now) m = filter (\<lambda>x. fst x \<le> now) m"
    using assms by (auto intro!: filter_cong)
  moreover have "filter (\<lambda>x. t < fst x \<and> fst x \<le> now) m = []"
    using assms by (auto simp: filter_empty_conv)
  ultimately show ?thesis using assms by (simp add: due_def mm_insert_def not_le)
qed

lemma AddEvent_fields [simp]:
  "m_time (AddEvent e t b p) = m_time p" "p_log (AddEvent e t b p) = p_log p"
  "p_state (AddEvent e t b p) = p_state p" "m_aborting (AddEvent e t b p) = m_aborting p"
  by (simp_all add: AddEvent_def Let_def)

text \<open>An event added later than \<open>now\<close> leaves the due part of the queue alone.\<close>

lemma AddEvent_due:
  "mm_wf (m_events p) \<Longrightarrow> now < t \<Longrightarrow>
   mm_wf (m_events (AddEvent e t b p)) \<and> due now (m_events (AddEvent e t b p)) = due now (m_events p)"
  by (simp add: AddEvent_def Let_def mm_wf_insert due_insert)

lemma add_events_due:
  "mm_wf (m_events p) \<Longrightarrow> \<forall>(e, t, b) \<in> set es. now < t \<Longrightarrow>
   mm_wf (m_events (add_events es p)) \<and> due now (m_events (add_events es p)) = due now (m_events p) \<and>
   m_time (add_events es p) = m_time p \<and> p_log (add_events es p) = p_log p"
proof (induction es arbitrary: p)
  case (Cons x es)
  obtain e t b where x: "x = (e, t, b)" by (cases x) auto
  have "mm_wf (m_events (AddEvent e t b p)) \<and> due now (m_events (AddEvent e t b p)) = due now (m_events p)"
    using Cons.prems x by (intro AddEvent_due) auto
  with Cons.IH [of "AddEvent e t b p"] Cons.prems x show ?case by (simp add: add_events_def)
qed (simp add: add_events_def)

text \<open>Events do not add events that are already due: the condition under which \<open>Update\<close> ends.\<close>

definition adds_later :: "('p, 's) event_code \<Rightarrow> u32 \<Rightarrow> u64 \<Rightarrow> bool" where
  "adds_later code p_time now \<longleftrightarrow>
     (\<forall>ev s del added s'. Execute code ev now p_time s = (del, added, s') \<longrightarrow>
        (\<forall>(e, t, b) \<in> set added. now < t))"

lemma run_event_due:
  assumes "mm_wf (m_events p)" "adds_later code p_time (m_time p)"
  shows "mm_wf (m_events (run_event code p_time ev p)) \<and>
    due (m_time p) (m_events (run_event code p_time ev p)) = due (m_time p) (m_events p) \<and>
    m_time (run_event code p_time ev p) = m_time p \<and>
    (\<exists>x. p_log (run_event code p_time ev p) = p_log p @ [x] \<and> outcome_event x = ev)"
proof (cases "to_Abort ev")
  case True
  with assms show ?thesis by (simp add: run_event_def)
next
  case False
  obtain del added s' where ex: "Execute code ev (m_time p) p_time (p_state p) = (del, added, s')"
    by (metis prod_cases3)
  with assms(2) have later: "\<forall>(e, t, b) \<in> set added. m_time p < t" unfolding adds_later_def by metis
  let ?q = "p\<lparr>p_state := s', p_log := p_log p @ [Ran ev (m_time p) del]\<rparr>"
  have "run_event code p_time ev p = add_events added ?q" using False ex by (simp add: run_event_def)
  with add_events_due [of ?q added "m_time p"] assms(1) later show ?thesis by simp
qed

lemma update_loop_due:
  assumes "mm_wf (m_events p)" "adds_later code p_time (m_time p)" "due (m_time p) (m_events p) = d"
  shows "\<exists>q. update_loop code p_time p = Some q \<and> due (m_time p) (m_events q) = [] \<and>
    m_time q = m_time p \<and> mm_wf (m_events q) \<and>
    (\<exists>log. p_log q = p_log p @ log \<and> map outcome_event log = map snd d)"
  using assms
proof (induction d arbitrary: p)
  case Nil
  have "update_loop code p_time p = Some p"
  proof (cases "m_events p")
    case (Cons x r)
    with Nil.prems(3) have "\<not> fst x \<le> m_time p" by (auto simp: due_def split: if_splits)
    with Cons show ?thesis by (subst update_loop.simps) (cases x, simp)
  qed (simp add: update_loop.simps)
  with Nil.prems show ?case by simp
next
  case (Cons x d)
  obtain t ev where x: "x = (t, ev)" by (cases x)
  obtain r where ev: "m_events p = (t, ev) # r" and t: "t \<le> m_time p" and d: "due (m_time p) r = d"
  proof -
    let ?r = "d @ filter (\<lambda>e. m_time p < fst e) (m_events p)"
    have m: "m_events p = (t, ev) # ?r"
      using due_prefix [OF Cons.prems(1), of "m_time p"] unfolding Cons.prems(3) x by simp
    have all: "\<forall>e \<in> set (x # d). fst e \<le> m_time p"
      using Cons.prems(3) [symmetric] by (simp only: due_def) (simp only: set_filter mem_Collect_eq, blast)
    then have "t \<le> m_time p" by (simp add: x)
    moreover have "due (m_time p) ?r = d"
    proof -
      have "filter (\<lambda>e. fst e \<le> m_time p) d = d" using all by (simp add: filter_id_conv)
      moreover have "filter (\<lambda>e. fst e \<le> m_time p) (filter (\<lambda>e. m_time p < fst e) (m_events p)) = []"
        by (auto simp: filter_empty_conv)
      ultimately show ?thesis by (simp add: due_def del: filter_filter)
    qed
    ultimately show thesis using m by (intro that [of ?r])
  qed
  let ?p = "p\<lparr>m_events := r\<rparr>"
  let ?q = "run_event code p_time ev ?p"
  have wf: "mm_wf (m_events ?p)" using Cons.prems(1) ev by (simp add: mm_wf_def)
  have run: "mm_wf (m_events ?q) \<and> due (m_time p) (m_events ?q) = d \<and> m_time ?q = m_time p \<and>
      (\<exists>x. p_log ?q = p_log p @ [x] \<and> outcome_event x = ev)"
    using run_event_due [OF wf, of code p_time ev] Cons.prems(2) d by simp
  have "update_loop code p_time p = update_loop code p_time ?q"
    using ev t by (subst update_loop.simps) simp
  with Cons.IH [of ?q] Cons.prems(2) run x show ?case by fastforce
qed

text \<open>
  C14: when no event adds one that is already due, \<open>Update\<close> ends; it has handled (executed, or
  aborted if flagged) every event due at the new time exactly once, in the order of the queue,
  and nothing else, and only later events are left.
\<close>

theorem update_handles_due_events:
  assumes "mm_wf (m_events p)" and "adds_later code p_time (m_time p + ucast p_time)"
  shows "\<exists>q. Update code p_time p = Some q \<and> m_time q = m_time p + ucast p_time \<and>
    (\<exists>log. p_log q = p_log p @ log \<and>
       map outcome_event log = map snd (filter (\<lambda>e. fst e \<le> m_time p + ucast p_time) (m_events p))) \<and>
    (\<forall>e \<in> set (m_events q). m_time q < fst e)"
proof -
  obtain q where q: "update_loop code p_time (p\<lparr>m_time := m_time p + ucast p_time\<rparr>) = Some q"
    "due (m_time p + ucast p_time) (m_events q) = []" "m_time q = m_time p + ucast p_time"
    "\<exists>log. p_log q = p_log p @ log \<and>
       map outcome_event log = map snd (due (m_time p + ucast p_time) (m_events p))"
    using update_loop_due [of "p\<lparr>m_time := m_time p + ucast p_time\<rparr>" code p_time] assms by auto
  then have "\<forall>e \<in> set (m_events q). m_time q < fst e" by (auto simp: due_def filter_empty_conv not_le)
  with q show ?thesis by (auto simp: Update_def due_def)
qed

definition demo_code :: "(nat, nat) event_code" where
  "demo_code = \<lparr>Execute = (\<lambda>ev now pt s. (False, [(ev, now + 100, True)], s + ev_data ev)),
     Abort = (\<lambda>ev now s. s), IsDeletable = (\<lambda>ev. True)\<rparr>"

definition demo_processor :: "(nat, nat) processor" where
  "demo_processor = AddEvent \<lparr>ev_data = 2, to_Abort = False, m_addTime = 0, m_execTime = 0\<rparr> 70 True
     (AddEvent \<lparr>ev_data = 1, to_Abort = False, m_addTime = 0, m_execTime = 0\<rparr> 50 True (new_processor 0))"

theorem update_handles_due_events_witness:
  "\<exists>q log. Update demo_code 60 demo_processor = Some q \<and> p_log q = log \<and>
     map (ev_data \<circ> outcome_event) log = [1]"
proof -
  have w: "mm_wf (m_events demo_processor)"
    by (simp add: demo_processor_def mm_wf_def AddEvent_def mm_insert_def new_processor_def)
  have t: "m_time demo_processor + ucast (60 :: u32) = 60" "p_log demo_processor = []"
    by (simp_all add: demo_processor_def new_processor_def)
  have a: "adds_later demo_code 60 (m_time demo_processor + ucast (60 :: u32))"
    unfolding t by (simp add: adds_later_def demo_code_def)
  have f: "map (ev_data \<circ> snd) (filter (\<lambda>e. fst e \<le> 60) (m_events demo_processor)) = [1]"
    by (simp add: demo_processor_def AddEvent_def mm_insert_def new_processor_def)
  obtain q log where "Update demo_code 60 demo_processor = Some q" "p_log q = log"
    "map outcome_event log = map snd (filter (\<lambda>e. fst e \<le> 60) (m_events demo_processor))"
    using update_handles_due_events [OF w a] unfolding t by auto
  with f show ?thesis by (metis map_map)
qed

section \<open>Killing\<close>

lemma kill_loop_result:
  "kill_loop code force now m s = (kept, s', log) \<Longrightarrow>
   map outcome_event log = map (\<lambda>e. snd e\<lparr>to_Abort := True\<rparr>) m \<and>
   (\<not> force \<longrightarrow> kept = filter (\<lambda>e. \<not> IsDeletable code (snd e))
      (map (\<lambda>e. (fst e, snd e\<lparr>to_Abort := True\<rparr>)) m))"
  by (induction m arbitrary: s kept s' log) (auto simp: Let_def split: prod.splits if_splits)

text \<open>
  \<open>KillAllEvents\<close> aborts every queued event once, in the order of the queue, and what it
  leaves behind without \<open>force\<close> is flagged and not deletable; but it does not prevent later
  insertions, as its comment says: the flag \<open>m_aborting\<close> is set and \<open>AddEvent\<close> does not read it.
\<close>

theorem kill_all_events:
  "let q = KillAllEvents code force p in
   m_aborting q \<and>
   (\<exists>log. p_log q = p_log p @ log \<and>
      map outcome_event log = map (\<lambda>e. snd e\<lparr>to_Abort := True\<rparr>) (m_events p)) \<and>
   (\<forall>e \<in> set (m_events q). to_Abort (snd e) \<and> \<not> force \<and> \<not> IsDeletable code (snd e)) \<and>
   length (m_events (AddEvent ev t b q)) = Suc (length (m_events q))"
proof -
  obtain kept s log where k: "kill_loop code force (m_time p) (m_events p) (p_state p) = (kept, s, log)"
    by (metis prod_cases3)
  show ?thesis
    using kill_loop_result [OF k]
    by (auto simp: KillAllEvents_def k Let_def AddEvent_def length_mm_insert)
qed

theorem kill_all_events_witness:
  "let q = KillAllEvents demo_code False demo_processor in
     m_aborting q \<and> (\<forall>e \<in> set (m_events q). to_Abort (snd e)) \<and>
     length (m_events (AddEvent (snd (hd (m_events demo_processor))) 5 True q)) = Suc (length (m_events q))"
  using kill_all_events [of demo_code False demo_processor] unfolding Let_def by blast

end
