(* ===== verification/Motion_Master.thy ===== *)
theory Motion_Master
  imports Complex_Main Base
begin

text \<open>
  The movement generator stack of a unit, \<open>src/src/server/game/Movement/MotionMaster.h\<close> and
  \<open>MotionMaster.cpp\<close>: three slots, of which the highest one in use drives the unit. The virtual
  methods of the generators are a parameter \<open>cb\<close> of every operation (they may call back into the
  motion master), so that what the operations guarantee can be stated against what the methods
  are allowed to do. Reading a slot outside the array and using a null generator are errors of
  the model, not values. Coordinates and speeds are rationals: the comparisons the code makes
  are exact, the rounding of its float arithmetic is not modelled.
\<close>

section \<open>Generators, slots and flags\<close>

datatype MovementGeneratorType =
    IDLE_MOTION_TYPE | RANDOM_MOTION_TYPE | WAYPOINT_MOTION_TYPE | ANIMAL_RANDOM_MOTION_TYPE
  | CONFUSED_MOTION_TYPE | CHASE_MOTION_TYPE | HOME_MOTION_TYPE | FLIGHT_MOTION_TYPE
  | POINT_MOTION_TYPE | FLEEING_MOTION_TYPE | DISTRACT_MOTION_TYPE | ASSISTANCE_MOTION_TYPE
  | ASSISTANCE_DISTRACT_MOTION_TYPE | TIMED_FLEEING_MOTION_TYPE | FOLLOW_MOTION_TYPE
  | ROTATE_MOTION_TYPE | EFFECT_MOTION_TYPE | NULL_MOTION_TYPE

datatype MovementSlot = MOTION_SLOT_IDLE | MOTION_SLOT_ACTIVE | MOTION_SLOT_CONTROLLED

definition MAX_MOTION_SLOT :: nat where
  "MAX_MOTION_SLOT = 3"

primrec slot_ix :: "MovementSlot \<Rightarrow> nat" where
  "slot_ix MOTION_SLOT_IDLE = 0"
| "slot_ix MOTION_SLOT_ACTIVE = 1"
| "slot_ix MOTION_SLOT_CONTROLLED = 2"

definition MMCF_NONE :: u8 where "MMCF_NONE = 0"
definition MMCF_UPDATE :: u8 where "MMCF_UPDATE = 1"
definition MMCF_RESET :: u8 where "MMCF_RESET = 2"

datatype RotateDirection = ROTATE_DIRECTION_LEFT | ROTATE_DIRECTION_RIGHT

type_synonym f32 = rat

definition SPEED_CHARGE :: f32 where
  "SPEED_CHARGE = 72"

text \<open>The constants \<open>0.1f\<close>, \<open>M_PI\<close> and those of the pet formation and of the height search.\<close>

definition F_0_1 :: f32 where
  "F_0_1 = 13421773 / 134217728"

definition M_PI :: f32 where
  "M_PI = 314159265358979323846 / 100000000000000000000"

definition PET_FOLLOW_DIST :: f32 where
  "PET_FOLLOW_DIST = 1"

definition PET_FOLLOW_ANGLE :: f32 where
  "PET_FOLLOW_ANGLE = M_PI / 2"

definition INVALID_HEIGHT :: f32 where
  "INVALID_HEIGHT = - 100000"

definition EVENT_CHARGE :: u32 where "EVENT_CHARGE = 1003"
definition EVENT_JUMP :: u32 where "EVENT_JUMP = 1004"

text \<open>
  One constructor per generator class, with the arguments of the class's constructor. A
  generator the program allocates has an address; \<open>si_idleMovement\<close> is the shared static one.
\<close>

datatype gen_kind =
    RandomMG f32 | WaypointMG u32 bool | HomeMG | FollowMG u64 f32 f32 | ChaseMG u64 f32 f32
  | ConfusedMG | PointMG u32 f32 f32 f32 f32 | EffectMG u32 | AssistanceMG f32 f32 f32
  | AssistanceDistractMG u32 | FleeingMG u64 | TimedFleeingMG u64 u32 | FlightPathMG u32 u32
  | DistractMG u32 | RotateMG u32 RotateDirection

datatype mgen = si_idleMovement | MG nat gen_kind

primrec kind_type :: "gen_kind \<Rightarrow> MovementGeneratorType" where
  "kind_type (RandomMG d) = RANDOM_MOTION_TYPE"
| "kind_type (WaypointMG p r) = WAYPOINT_MOTION_TYPE"
| "kind_type HomeMG = HOME_MOTION_TYPE"
| "kind_type (FollowMG t d a) = FOLLOW_MOTION_TYPE"
| "kind_type (ChaseMG t d a) = CHASE_MOTION_TYPE"
| "kind_type ConfusedMG = CONFUSED_MOTION_TYPE"
| "kind_type (PointMG i x y z s) = POINT_MOTION_TYPE"
| "kind_type (EffectMG i) = EFFECT_MOTION_TYPE"
| "kind_type (AssistanceMG x y z) = ASSISTANCE_MOTION_TYPE"
| "kind_type (AssistanceDistractMG t) = ASSISTANCE_DISTRACT_MOTION_TYPE"
| "kind_type (FleeingMG e) = FLEEING_MOTION_TYPE"
| "kind_type (TimedFleeingMG e t) = TIMED_FLEEING_MOTION_TYPE"
| "kind_type (FlightPathMG p n) = FLIGHT_MOTION_TYPE"
| "kind_type (DistractMG t) = DISTRACT_MOTION_TYPE"
| "kind_type (RotateMG t d) = ROTATE_MOTION_TYPE"

primrec GetMovementGeneratorType :: "mgen \<Rightarrow> MovementGeneratorType" where
  "GetMovementGeneratorType si_idleMovement = IDLE_MOTION_TYPE"
| "GetMovementGeneratorType (MG a k) = kind_type k"

definition isStatic :: "mgen \<Rightarrow> bool" where
  "isStatic g \<longleftrightarrow> g = si_idleMovement"

section \<open>The state\<close>

text \<open>
  What the motion master reads of its owner, as fields; \<open>ow_near\<close>, \<open>ow_close\<close>, \<open>ow_angle\<close>
  and \<open>ow_los\<close> are the geometry of the map around it.
\<close>

type_synonym position = "f32 \<times> f32 \<times> f32"

record mm_owner =
  ow_player :: bool
  ow_guid :: u64
  ow_alive :: bool
  ow_root_or_stun :: bool
  ow_disable_move :: bool
  ow_charmer_guid :: u64
  ow_charmer :: "u64 option"
  ow_default_type :: MovementGeneratorType
  ow_pos :: position
  ow_ground :: f32
  ow_spline_dest :: "position option"
  ow_near :: "f32 \<Rightarrow> f32 \<Rightarrow> position"
  ow_close :: "f32 \<Rightarrow> f32 \<Rightarrow> position"
  ow_angle :: "f32 \<Rightarrow> f32 \<Rightarrow> f32"
  ow_los :: "position \<Rightarrow> bool"
  ow_assist_delay :: u32
  ow_taxi_paths :: nat

datatype spline_mode =
    ToGround | ToFly | Falling | Parabolic f32 f32 bool

datatype mm_event =
    EvInit mgen | EvReset mgen | EvFinalize mgen | EvSpeed mgen | EvDelete mgen
  | EvSpline position spline_mode | EvFallFlag | EvAttackStop | EvPassive | EvUnderwater

record motion =
  mm_exp :: "mgen list option"
  mm_impl :: "mgen option list"
  mm_top :: int
  mm_own :: mm_owner
  mm_need :: "bool list"
  mm_flag :: u8
  mm_fresh :: nat
  mm_log :: "mm_event list"

datatype motion_error = OutOfBounds | NullDeref | AssertFailed | OutOfFuel

datatype hook = HInit | HReset | HFinalize | HSpeed

type_synonym hooks = "hook \<Rightarrow> mgen \<Rightarrow> motion \<Rightarrow> motion_error + motion"

definition mm_new :: "mm_owner \<Rightarrow> motion" where
  "mm_new ow = \<lparr>mm_exp = None, mm_impl = replicate MAX_MOTION_SLOT None, mm_top = - 1, mm_own = ow,
     mm_need = replicate MAX_MOTION_SLOT True, mm_flag = MMCF_NONE, mm_fresh = 0, mm_log = []\<rparr>"

definition log_ev :: "mm_event \<Rightarrow> motion \<Rightarrow> motion" where
  "log_ev e m = m\<lparr>mm_log := mm_log m @ [e]\<rparr>"

definition impl_at :: "motion \<Rightarrow> int \<Rightarrow> motion_error + mgen option" where
  "impl_at m i = (if 0 \<le> i \<and> i < int MAX_MOTION_SLOT then Inr (mm_impl m ! nat i) else Inl OutOfBounds)"

definition mm_empty :: "motion \<Rightarrow> bool" where
  "mm_empty m \<longleftrightarrow> mm_top m < 0"

definition mm_size :: "motion \<Rightarrow> int" where
  "mm_size m = mm_top m + 1"

definition mm_topv :: "motion \<Rightarrow> motion_error + mgen option" where
  "mm_topv m = impl_at m (mm_top m)"

definition GetMotionSlot :: "motion \<Rightarrow> int \<Rightarrow> motion_error + mgen option" where
  "GetMotionSlot m i = impl_at m i"

text \<open>\<open>while (!top()) --_top;\<close>\<close>

function skip_null :: "motion \<Rightarrow> motion_error + motion" where
  "skip_null m = (case mm_topv m of Inl e \<Rightarrow> Inl e | Inr (Some g) \<Rightarrow> Inr m
     | Inr None \<Rightarrow> skip_null (m\<lparr>mm_top := mm_top m - 1\<rparr>))"
  by pat_completeness auto
termination
  by (relation "measure (\<lambda>m. nat (mm_top m + 1))")
     (auto simp: mm_topv_def impl_at_def split: if_splits)

declare skip_null.simps [simp del]

definition mm_pop :: "motion \<Rightarrow> motion_error + motion" where
  "mm_pop m = (if 0 \<le> mm_top m \<and> mm_top m < int MAX_MOTION_SLOT
     then skip_null (m\<lparr>mm_impl := (mm_impl m)[nat (mm_top m) := None]\<rparr>) else Inl OutOfBounds)"

definition mm_push :: "mgen \<Rightarrow> motion \<Rightarrow> motion_error + motion" where
  "mm_push g m = (let t = mm_top m + 1 in if 0 \<le> t \<and> t < int MAX_MOTION_SLOT
     then Inr (m\<lparr>mm_top := t, mm_impl := (mm_impl m)[nat t := Some g]\<rparr>) else Inl OutOfBounds)"

definition needInitTop :: "motion \<Rightarrow> motion_error + bool" where
  "needInitTop m = (if 0 \<le> mm_top m \<and> mm_top m < int MAX_MOTION_SLOT
     then Inr (mm_need m ! nat (mm_top m)) else Inl OutOfBounds)"

section \<open>Initialising and deleting generators\<close>

text \<open>A call of a method through a pointer that may be null.\<close>

definition call_hook :: "hooks \<Rightarrow> hook \<Rightarrow> mgen option \<Rightarrow> motion \<Rightarrow> motion_error + motion" where
  "call_hook cb h p m = (case p of None \<Rightarrow> Inl NullDeref | Some g \<Rightarrow> cb h g m)"

definition InitTop :: "hooks \<Rightarrow> motion \<Rightarrow> motion_error + motion" where
  "InitTop cb m = sbind (mm_topv m) (\<lambda>p. sbind (call_hook cb HInit p m) (\<lambda>m.
     if 0 \<le> mm_top m \<and> mm_top m < int MAX_MOTION_SLOT
     then Inr (m\<lparr>mm_need := (mm_need m)[nat (mm_top m) := False]\<rparr>) else Inl OutOfBounds))"

definition ResetTop :: "hooks \<Rightarrow> motion \<Rightarrow> motion_error + motion" where
  "ResetTop cb m = sbind (mm_topv m) (\<lambda>p. call_hook cb HReset p m)"

definition DirectDelete :: "hooks \<Rightarrow> mgen option \<Rightarrow> motion \<Rightarrow> motion_error + motion" where
  "DirectDelete cb cur m = (case cur of None \<Rightarrow> Inl NullDeref | Some g \<Rightarrow>
     if isStatic g then Inr m
     else sbind (cb HFinalize g m) (\<lambda>m. Inr (log_ev (EvDelete g) m)))"

definition DelayedDelete :: "mgen option \<Rightarrow> motion \<Rightarrow> motion_error + motion" where
  "DelayedDelete cur m = (case cur of None \<Rightarrow> Inl NullDeref | Some g \<Rightarrow>
     if isStatic g then Inr m
     else Inr (m\<lparr>mm_exp := Some ((case mm_exp m of None \<Rightarrow> [] | Some l \<Rightarrow> l) @ [g])\<rparr>))"

definition Mutate :: "hooks \<Rightarrow> mgen \<Rightarrow> MovementSlot \<Rightarrow> motion \<Rightarrow> motion_error + motion" where
  "Mutate cb g s m =
     (let slot = slot_ix s in
      sbind (case mm_impl m ! slot of
               Some cur \<Rightarrow>
                 let m' = m\<lparr>mm_impl := (mm_impl m)[slot := None]\<rparr> in
                 if mm_top m' = int slot \<and> has_flag (mm_flag m') MMCF_UPDATE
                 then DelayedDelete (Some cur) m' else DirectDelete cb (Some cur) m'
             | None \<Rightarrow> Inr (if mm_top m < int slot then m\<lparr>mm_top := int slot\<rparr> else m))
        (\<lambda>m. let m' = m\<lparr>mm_impl := (mm_impl m)[slot := Some g]\<rparr> in
             if mm_top m' > int slot then Inr (m'\<lparr>mm_need := (mm_need m')[slot := True]\<rparr>)
             else cb HInit g (m'\<lparr>mm_need := (mm_need m')[slot := False]\<rparr>)))"

text \<open>\<open>Mutate(new X(...), slot)\<close>.\<close>

definition mutate_new :: "hooks \<Rightarrow> gen_kind \<Rightarrow> MovementSlot \<Rightarrow> motion \<Rightarrow> motion_error + motion" where
  "mutate_new cb k s m = Mutate cb (MG (mm_fresh m) k) s (m\<lparr>mm_fresh := Suc (mm_fresh m)\<rparr>)"

section \<open>Initialize, Clear, MovementExpired\<close>

definition selectMovementGenerator :: "mm_owner \<Rightarrow> gen_kind option" where
  "selectMovementGenerator ow =
     (if ow_default_type ow = RANDOM_MOTION_TYPE then Some (RandomMG 0)
      else if ow_default_type ow = WAYPOINT_MOTION_TYPE then Some (WaypointMG 0 True) else None)"

definition InitDefault :: "hooks \<Rightarrow> motion \<Rightarrow> motion_error + motion" where
  "InitDefault cb m =
     (if \<not> ow_player (mm_own m) then
        (case selectMovementGenerator (mm_own m) of
           None \<Rightarrow> Mutate cb si_idleMovement MOTION_SLOT_IDLE m
         | Some k \<Rightarrow> mutate_new cb k MOTION_SLOT_IDLE m)
      else Mutate cb si_idleMovement MOTION_SLOT_IDLE m)"

text \<open>
  The loops that empty the stack down to \<open>keep\<close> generators: \<open>del\<close> is the deletion they use.
  The methods of a deleted generator may push new ones, so a loop carries fuel.
\<close>

fun pop_while :: "nat \<Rightarrow> int \<Rightarrow> (mgen option \<Rightarrow> motion \<Rightarrow> motion_error + motion) \<Rightarrow> motion
    \<Rightarrow> motion_error + motion" where
  "pop_while n keep del m =
     (if mm_size m > keep then
        (case n of 0 \<Rightarrow> Inl OutOfFuel
         | Suc n' \<Rightarrow> sbind (mm_topv m) (\<lambda>cur. sbind (mm_pop m) (\<lambda>m.
             sbind (if cur = None then Inr m else del cur m) (\<lambda>m. pop_while n' keep del m))))
      else Inr m)"

declare pop_while.simps [simp del]

definition mm_Initialize :: "nat \<Rightarrow> hooks \<Rightarrow> motion \<Rightarrow> motion_error + motion" where
  "mm_Initialize n cb m = sbind (pop_while n 0 (DirectDelete cb) m) (InitDefault cb)"

definition mm_destroy :: "nat \<Rightarrow> hooks \<Rightarrow> motion \<Rightarrow> motion_error + motion" where
  "mm_destroy n cb m = pop_while n 0 (DirectDelete cb) m"

definition DirectClean :: "nat \<Rightarrow> hooks \<Rightarrow> bool \<Rightarrow> motion \<Rightarrow> motion_error + motion" where
  "DirectClean n cb reset m = sbind (pop_while n 1 (DirectDelete cb) m) (\<lambda>m.
     sbind (needInitTop m) (\<lambda>i. if i then InitTop cb m else if reset then ResetTop cb m else Inr m))"

definition DelayedClean :: "nat \<Rightarrow> motion \<Rightarrow> motion_error + motion" where
  "DelayedClean n m = pop_while n 1 DelayedDelete m"

definition DirectExpire :: "nat \<Rightarrow> hooks \<Rightarrow> bool \<Rightarrow> motion \<Rightarrow> motion_error + motion" where
  "DirectExpire n cb reset m =
     sbind (if mm_size m > 1 then sbind (mm_topv m) (\<lambda>cur. sbind (mm_pop m) (DirectDelete cb cur))
            else Inr m) (\<lambda>m. sbind (skip_null m) (\<lambda>m.
     if mm_empty m then mm_Initialize n cb m
     else sbind (needInitTop m) (\<lambda>i. if i then InitTop cb m else if reset then ResetTop cb m else Inr m)))"

definition DelayedExpire :: "motion \<Rightarrow> motion_error + motion" where
  "DelayedExpire m =
     sbind (if mm_size m > 1 then sbind (mm_topv m) (\<lambda>cur. sbind (mm_pop m) (DelayedDelete cur))
            else Inr m) skip_null"

text \<open>The request to reset is remembered in \<open>_cleanFlag\<close> while an update runs.\<close>

definition note_reset :: "bool \<Rightarrow> motion \<Rightarrow> motion" where
  "note_reset reset m = m\<lparr>mm_flag := (if reset then mm_flag m OR MMCF_RESET
                                      else mm_flag m AND NOT MMCF_RESET)\<rparr>"

definition mm_Clear :: "nat \<Rightarrow> hooks \<Rightarrow> bool \<Rightarrow> motion \<Rightarrow> motion_error + motion" where
  "mm_Clear n cb reset m =
     (if has_flag (mm_flag m) MMCF_UPDATE then DelayedClean n (note_reset reset m)
      else DirectClean n cb reset m)"

definition MovementExpired :: "nat \<Rightarrow> hooks \<Rightarrow> bool \<Rightarrow> motion \<Rightarrow> motion_error + motion" where
  "MovementExpired n cb reset m =
     (if has_flag (mm_flag m) MMCF_UPDATE then DelayedExpire (note_reset reset m)
      else DirectExpire n cb reset m)"

section \<open>The Move functions\<close>

definition MoveIdle :: "hooks \<Rightarrow> motion \<Rightarrow> motion_error + motion" where
  "MoveIdle cb m =
     (if mm_empty m then Mutate cb si_idleMovement MOTION_SLOT_IDLE m
      else sbind (mm_topv m) (\<lambda>p. if p = Some si_idleMovement then Inr m
             else Mutate cb si_idleMovement MOTION_SLOT_IDLE m))"

definition MoveRandom :: "hooks \<Rightarrow> f32 \<Rightarrow> motion \<Rightarrow> motion_error + motion" where
  "MoveRandom cb spawndist m =
     (if \<not> ow_player (mm_own m) then mutate_new cb (RandomMG spawndist) MOTION_SLOT_IDLE m else Inr m)"

definition MoveTargetedHome :: "nat \<Rightarrow> hooks \<Rightarrow> motion \<Rightarrow> motion_error + motion" where
  "MoveTargetedHome n cb m = sbind (mm_Clear n cb False m) (\<lambda>m.
     if \<not> ow_player (mm_own m) \<and> ow_charmer_guid (mm_own m) = 0
     then mutate_new cb HomeMG MOTION_SLOT_ACTIVE m
     else if \<not> ow_player (mm_own m) \<and> ow_charmer_guid (mm_own m) \<noteq> 0
     then (case ow_charmer (mm_own m) of None \<Rightarrow> Inr m
           | Some t \<Rightarrow> mutate_new cb (FollowMG t PET_FOLLOW_DIST PET_FOLLOW_ANGLE) MOTION_SLOT_ACTIVE m)
     else Inr m)"

definition MoveConfused :: "hooks \<Rightarrow> motion \<Rightarrow> motion_error + motion" where
  "MoveConfused cb m = mutate_new cb ConfusedMG MOTION_SLOT_CONTROLLED m"

definition ignores_target :: "u64 option \<Rightarrow> motion \<Rightarrow> bool" where
  "ignores_target target m \<longleftrightarrow>
     target = None \<or> target = Some (ow_guid (mm_own m)) \<or> ow_disable_move (mm_own m)"

definition MoveChase :: "hooks \<Rightarrow> u64 option \<Rightarrow> f32 \<Rightarrow> f32 \<Rightarrow> motion \<Rightarrow> motion_error + motion" where
  "MoveChase cb target rng angle m = (if ignores_target target m then Inr m
     else mutate_new cb (ChaseMG (the target) rng angle) MOTION_SLOT_ACTIVE m)"

definition MoveFollow ::
  "hooks \<Rightarrow> u64 option \<Rightarrow> f32 \<Rightarrow> f32 \<Rightarrow> MovementSlot \<Rightarrow> motion \<Rightarrow> motion_error + motion" where
  "MoveFollow cb target rng angle slot m = (if ignores_target target m then Inr m
     else mutate_new cb (FollowMG (the target) rng angle) slot m)"

definition MovePoint :: "hooks \<Rightarrow> u32 \<Rightarrow> position \<Rightarrow> motion \<Rightarrow> motion_error + motion" where
  "MovePoint cb i pos m = (case pos of (x, y, z) \<Rightarrow>
     mutate_new cb (PointMG i x y z 0) MOTION_SLOT_ACTIVE m)"

definition MoveLand :: "hooks \<Rightarrow> u32 \<Rightarrow> position \<Rightarrow> motion \<Rightarrow> motion_error + motion" where
  "MoveLand cb i pos m = mutate_new cb (EffectMG i) MOTION_SLOT_ACTIVE (log_ev (EvSpline pos ToGround) m)"

definition MoveTakeoff :: "hooks \<Rightarrow> u32 \<Rightarrow> position \<Rightarrow> motion \<Rightarrow> motion_error + motion" where
  "MoveTakeoff cb i pos m = mutate_new cb (EffectMG i) MOTION_SLOT_ACTIVE (log_ev (EvSpline pos ToFly) m)"

text \<open>\<open>Movement::computeFallElevation\<close> and its constants, \<open>Spline/MovementUtil.cpp\<close>.\<close>

definition gravity :: f32 where
  "gravity = 1929110527038574 / 100000000000000"

definition terminalVelocity :: f32 where
  "terminalVelocity = 60148003 / 1000000"

definition terminalSavefallVelocity :: f32 where
  "terminalSavefallVelocity = 7"

definition terminalFallTime :: f32 where
  "terminalFallTime = terminalVelocity / gravity"

definition computeFallElevation :: "f32 \<Rightarrow> bool \<Rightarrow> f32 \<Rightarrow> f32" where
  "computeFallElevation t_passed isSafeFall start_velocity =
     (let termVel = (if isSafeFall then terminalSavefallVelocity else terminalVelocity);
          v = (if start_velocity > termVel then termVel else start_velocity);
          terminal_time = terminalFallTime - v / gravity
      in if t_passed > terminal_time
         then terminalVelocity * (t_passed - terminal_time) + v * terminal_time
              + gravity * terminal_time * terminal_time * (1 / 2)
         else t_passed * (v + t_passed * gravity * (1 / 2)))"

text \<open>
  The search of a landing point in sight: the angle is widened to both sides until one point is
  visible. Nothing in the code bounds the search.
\<close>

primrec knock_search :: "nat \<Rightarrow> mm_owner \<Rightarrow> f32 \<Rightarrow> f32 \<Rightarrow> f32 \<Rightarrow> position \<Rightarrow> motion_error + position" where
  "knock_search 0 ow rng ap am pos = (if ow_los ow pos then Inr pos else Inl OutOfFuel)"
| "knock_search (Suc n) ow rng ap am pos =
     (if ow_los ow pos then Inr pos
      else let ap' = ap + F_0_1; am' = am - F_0_1; p = ow_near ow rng ap' in
           knock_search n ow rng ap' am' (if ow_los ow p then p else ow_near ow rng am'))"

definition MoveKnockbackFrom ::
  "nat \<Rightarrow> hooks \<Rightarrow> f32 \<Rightarrow> f32 \<Rightarrow> f32 \<Rightarrow> f32 \<Rightarrow> motion \<Rightarrow> motion_error + motion" where
  "MoveKnockbackFrom n cb srcX srcY speedXY speedZ m =
     (if ow_player (mm_own m) then Inr m
      else if speedXY \<le> F_0_1 then Inr m
      else let moveTimeHalf = speedZ / gravity;
               rng = 2 * moveTimeHalf * speedXY;
               max_height = - computeFallElevation moveTimeHalf False (- speedZ);
               angle = ow_angle (mm_own m) srcX srcY + M_PI
           in sbind (knock_search n (mm_own m) rng angle angle (ow_near (mm_own m) rng angle)) (\<lambda>pos.
                mutate_new cb (EffectMG 0) MOTION_SLOT_CONTROLLED
                  (log_ev (EvSpline pos (Parabolic max_height speedXY True)) m)))"

definition MoveJump ::
  "hooks \<Rightarrow> position \<Rightarrow> f32 \<Rightarrow> f32 \<Rightarrow> u32 \<Rightarrow> motion \<Rightarrow> motion_error + motion" where
  "MoveJump cb pos speedXY speedZ i m =
     (if speedXY \<le> F_0_1 then Inr m
      else let moveTimeHalf = speedZ / gravity;
               max_height = - computeFallElevation moveTimeHalf False (- speedZ)
           in mutate_new cb (EffectMG i) MOTION_SLOT_CONTROLLED
                (log_ev (EvSpline pos (Parabolic max_height speedXY False)) m))"

definition MoveJumpTo :: "hooks \<Rightarrow> f32 \<Rightarrow> f32 \<Rightarrow> f32 \<Rightarrow> motion \<Rightarrow> motion_error + motion" where
  "MoveJumpTo cb angle speedXY speedZ m =
     (if ow_player (mm_own m) then Inr m
      else let moveTimeHalf = speedZ / gravity; rng = 2 * moveTimeHalf * speedXY
           in MoveJump cb (ow_close (mm_own m) rng angle) speedXY speedZ EVENT_JUMP m)"

definition MoveFall :: "hooks \<Rightarrow> u32 \<Rightarrow> motion \<Rightarrow> motion_error + motion" where
  "MoveFall cb i m =
     (let tz = ow_ground (mm_own m) in
      case ow_pos (mm_own m) of (x, y, z) \<Rightarrow>
        if tz \<le> INVALID_HEIGHT then Inr m
        else if \<bar>z - tz\<bar> < F_0_1 then Inr m
        else mutate_new cb (EffectMG i) MOTION_SLOT_CONTROLLED
               (log_ev (EvSpline (x, y, tz) Falling)
                 (if ow_player (mm_own m) then log_ev EvFallFlag m else m)))"

definition MoveCharge ::
  "hooks \<Rightarrow> position \<Rightarrow> f32 \<Rightarrow> u32 \<Rightarrow> motion \<Rightarrow> motion_error + motion" where
  "MoveCharge cb pos speed i m =
     (if (case mm_impl m ! slot_ix MOTION_SLOT_CONTROLLED of None \<Rightarrow> False
          | Some g \<Rightarrow> GetMovementGeneratorType g \<noteq> DISTRACT_MOTION_TYPE)
      then Inr m
      else let v = (if speed < SPEED_CHARGE then SPEED_CHARGE else speed) in
           case pos of (x, y, z) \<Rightarrow> mutate_new cb (PointMG i x y z v) MOTION_SLOT_CONTROLLED m)"

definition MoveSeekAssistance :: "hooks \<Rightarrow> position \<Rightarrow> motion \<Rightarrow> motion_error + motion" where
  "MoveSeekAssistance cb pos m =
     (if ow_player (mm_own m) then Inr m
      else case pos of (x, y, z) \<Rightarrow>
        mutate_new cb (AssistanceMG x y z) MOTION_SLOT_ACTIVE (log_ev EvPassive (log_ev EvAttackStop m)))"

definition MoveSeekAssistanceDistract :: "hooks \<Rightarrow> u32 \<Rightarrow> motion \<Rightarrow> motion_error + motion" where
  "MoveSeekAssistanceDistract cb time m =
     (if ow_player (mm_own m) then Inr m
      else mutate_new cb (AssistanceDistractMG time) MOTION_SLOT_ACTIVE m)"

definition MoveFleeing :: "hooks \<Rightarrow> u64 option \<Rightarrow> u32 \<Rightarrow> motion \<Rightarrow> motion_error + motion" where
  "MoveFleeing cb enemy time m = (case enemy of None \<Rightarrow> Inr m | Some e \<Rightarrow>
     if ow_player (mm_own m) then mutate_new cb (FleeingMG e) MOTION_SLOT_CONTROLLED m
     else if time \<noteq> 0 then mutate_new cb (TimedFleeingMG e time) MOTION_SLOT_CONTROLLED m
     else mutate_new cb (FleeingMG e) MOTION_SLOT_CONTROLLED m)"

definition MoveTaxiFlight :: "hooks \<Rightarrow> u32 \<Rightarrow> u32 \<Rightarrow> motion \<Rightarrow> motion_error + motion" where
  "MoveTaxiFlight cb path pathnode m =
     (if ow_player (mm_own m) then
        if unat path < ow_taxi_paths (mm_own m)
        then mutate_new cb (FlightPathMG path pathnode) MOTION_SLOT_CONTROLLED m else Inr m
      else Inr m)"

definition MoveDistract :: "hooks \<Rightarrow> u32 \<Rightarrow> motion \<Rightarrow> motion_error + motion" where
  "MoveDistract cb timer m =
     (if mm_impl m ! slot_ix MOTION_SLOT_CONTROLLED \<noteq> None then Inr m
      else mutate_new cb (DistractMG timer) MOTION_SLOT_CONTROLLED m)"

definition MovePath :: "hooks \<Rightarrow> u32 \<Rightarrow> bool \<Rightarrow> motion \<Rightarrow> motion_error + motion" where
  "MovePath cb path_id repeatable m =
     (if path_id = 0 then Inr m else mutate_new cb (WaypointMG path_id repeatable) MOTION_SLOT_IDLE m)"

definition MoveRotate :: "hooks \<Rightarrow> u32 \<Rightarrow> RotateDirection \<Rightarrow> motion \<Rightarrow> motion_error + motion" where
  "MoveRotate cb time direction m =
     (if time = 0 then Inr m else mutate_new cb (RotateMG time direction) MOTION_SLOT_ACTIVE m)"

section \<open>Speed changes and queries\<close>

text \<open>The loop \<open>for (int i = 0; i <= _top; ++i)\<close>: \<open>_top\<close> and the slot are read at every step.\<close>

fun speed_loop :: "hooks \<Rightarrow> nat \<Rightarrow> nat \<Rightarrow> motion \<Rightarrow> motion_error + motion" where
  "speed_loop cb 0 i m = (if int i \<le> mm_top m then Inl OutOfBounds else Inr m)"
| "speed_loop cb (Suc k) i m =
     (if int i \<le> mm_top m
      then sbind (impl_at m (int i)) (\<lambda>p.
             sbind (case p of None \<Rightarrow> Inr m | Some g \<Rightarrow> cb HSpeed g m) (speed_loop cb k (Suc i)))
      else Inr m)"

definition propagateSpeedChange :: "hooks \<Rightarrow> motion \<Rightarrow> motion_error + motion" where
  "propagateSpeedChange cb m = speed_loop cb MAX_MOTION_SLOT 0 m"

definition GetCurrentMovementGeneratorType :: "motion \<Rightarrow> motion_error + MovementGeneratorType" where
  "GetCurrentMovementGeneratorType m =
     (if mm_empty m then Inr IDLE_MOTION_TYPE
      else sbind (mm_topv m) (\<lambda>p. case p of None \<Rightarrow> Inl NullDeref
             | Some g \<Rightarrow> Inr (GetMovementGeneratorType g)))"

definition GetMotionSlotType :: "motion \<Rightarrow> int \<Rightarrow> motion_error + MovementGeneratorType" where
  "GetMotionSlotType m slot = sbind (impl_at m slot) (\<lambda>p. case p of None \<Rightarrow> Inr NULL_MOTION_TYPE
     | Some g \<Rightarrow> Inr (GetMovementGeneratorType g))"

definition GetDestination :: "motion \<Rightarrow> position option" where
  "GetDestination m = ow_spline_dest (mm_own m)"

section \<open>One update of the owner\<close>

text \<open>
  \<open>upd\<close> is the \<open>Update\<close> method of the running generator: it may call the motion master, and
  returns whether the generator goes on.
\<close>

type_synonym update_hook = "u32 \<Rightarrow> mgen \<Rightarrow> motion \<Rightarrow> motion_error + (bool \<times> motion)"

text \<open>The loop over \<open>_expList\<close>, which reads the list at every step.\<close>

primrec expire_loop :: "nat \<Rightarrow> hooks \<Rightarrow> nat \<Rightarrow> motion \<Rightarrow> motion_error + motion" where
  "expire_loop 0 cb i m = (case mm_exp m of None \<Rightarrow> Inl NullDeref
     | Some l \<Rightarrow> if i < length l then Inl OutOfFuel else Inr m)"
| "expire_loop (Suc n) cb i m = (case mm_exp m of None \<Rightarrow> Inl NullDeref
     | Some l \<Rightarrow> if i < length l
         then sbind (DirectDelete cb (Some (l ! i)) m) (expire_loop n cb (Suc i)) else Inr m)"

definition set_update :: "motion \<Rightarrow> motion" where
  "set_update m = m\<lparr>mm_flag := mm_flag m OR MMCF_UPDATE\<rparr>"

definition clear_update :: "motion \<Rightarrow> motion" where
  "clear_update m = m\<lparr>mm_flag := mm_flag m AND NOT MMCF_UPDATE\<rparr>"

definition finish_expired :: "nat \<Rightarrow> hooks \<Rightarrow> motion \<Rightarrow> motion_error + motion" where
  "finish_expired n cb m =
     (if mm_exp m = None then Inr m
      else sbind (expire_loop n cb 0 m) (\<lambda>m.
        let m = m\<lparr>mm_exp := None\<rparr> in
        sbind (if mm_empty m then mm_Initialize n cb m
               else sbind (needInitTop m) (\<lambda>i. if i then InitTop cb m
                 else if has_flag (mm_flag m) MMCF_RESET then ResetTop cb m else Inr m)) (\<lambda>m.
        Inr (m\<lparr>mm_flag := mm_flag m AND NOT MMCF_RESET\<rparr>))))"

definition UpdateMotion :: "nat \<Rightarrow> hooks \<Rightarrow> update_hook \<Rightarrow> u32 \<Rightarrow> motion \<Rightarrow> motion_error + motion" where
  "UpdateMotion n cb upd diff m =
     (if ow_root_or_stun (mm_own m) then Inr m
      else if mm_empty m then Inl AssertFailed
      else sbind (mm_topv (set_update m)) (\<lambda>p. case p of None \<Rightarrow> Inl NullDeref | Some g \<Rightarrow>
        sbind (upd diff g (set_update m)) (\<lambda>(go_on, m).
        sbind (if go_on then Inr (clear_update m)
               else MovementExpired n cb True (clear_update m)) (\<lambda>m.
        sbind (finish_expired n cb m) (\<lambda>m. Inr (log_ev EvUnderwater m))))))"

section \<open>The calls of scripts and generators\<close>

text \<open>Every public operation as a value, so that what a script does is a list of calls.\<close>

datatype mcall =
    CInitialize | CClear bool | CExpired bool | CIdle | CRandom f32 | CTargetedHome | CConfused
  | CChase "u64 option" f32 f32 | CFollow "u64 option" f32 f32 MovementSlot | CPoint u32 position
  | CLand u32 position | CTakeoff u32 position | CKnockback f32 f32 f32 f32 | CJumpTo f32 f32 f32
  | CJump position f32 f32 u32 | CFall u32 | CCharge position f32 u32 | CSeekAssistance position
  | CSeekAssistanceDistract u32 | CFleeing "u64 option" u32 | CTaxiFlight u32 u32 | CDistract u32
  | CPath u32 bool | CRotate u32 RotateDirection | CSpeedChange

fun mm_call :: "nat \<Rightarrow> hooks \<Rightarrow> mcall \<Rightarrow> motion \<Rightarrow> motion_error + motion" where
  "mm_call n cb CInitialize m = mm_Initialize n cb m"
| "mm_call n cb (CClear r) m = mm_Clear n cb r m"
| "mm_call n cb (CExpired r) m = MovementExpired n cb r m"
| "mm_call n cb CIdle m = MoveIdle cb m"
| "mm_call n cb (CRandom d) m = MoveRandom cb d m"
| "mm_call n cb CTargetedHome m = MoveTargetedHome n cb m"
| "mm_call n cb CConfused m = MoveConfused cb m"
| "mm_call n cb (CChase t d a) m = MoveChase cb t d a m"
| "mm_call n cb (CFollow t d a s) m = MoveFollow cb t d a s m"
| "mm_call n cb (CPoint i p) m = MovePoint cb i p m"
| "mm_call n cb (CLand i p) m = MoveLand cb i p m"
| "mm_call n cb (CTakeoff i p) m = MoveTakeoff cb i p m"
| "mm_call n cb (CKnockback x y h v) m = MoveKnockbackFrom n cb x y h v m"
| "mm_call n cb (CJumpTo a h v) m = MoveJumpTo cb a h v m"
| "mm_call n cb (CJump p h v i) m = MoveJump cb p h v i m"
| "mm_call n cb (CFall i) m = MoveFall cb i m"
| "mm_call n cb (CCharge p v i) m = MoveCharge cb p v i m"
| "mm_call n cb (CSeekAssistance p) m = MoveSeekAssistance cb p m"
| "mm_call n cb (CSeekAssistanceDistract t) m = MoveSeekAssistanceDistract cb t m"
| "mm_call n cb (CFleeing e t) m = MoveFleeing cb e t m"
| "mm_call n cb (CTaxiFlight p k) m = MoveTaxiFlight cb p k m"
| "mm_call n cb (CDistract t) m = MoveDistract cb t m"
| "mm_call n cb (CPath p r) m = MovePath cb p r m"
| "mm_call n cb (CRotate t d) m = MoveRotate cb t d m"
| "mm_call n cb CSpeedChange m = propagateSpeedChange cb m"

primrec run_calls :: "nat \<Rightarrow> hooks \<Rightarrow> mcall list \<Rightarrow> motion \<Rightarrow> motion_error + motion" where
  "run_calls n cb [] m = Inr m"
| "run_calls n cb (c # cs) m = sbind (mm_call n cb c m) (run_calls n cb cs)"

text \<open>
  The methods of the generators of a unit whose scripts make the calls \<open>sc\<close>: the method is
  recorded and its calls run, to a nesting depth of \<open>n\<close>.
\<close>

type_synonym script = "hook \<Rightarrow> mgen \<Rightarrow> motion \<Rightarrow> mcall list"

primrec hook_event :: "hook \<Rightarrow> mgen \<Rightarrow> mm_event" where
  "hook_event HInit g = EvInit g"
| "hook_event HReset g = EvReset g"
| "hook_event HFinalize g = EvFinalize g"
| "hook_event HSpeed g = EvSpeed g"

primrec world :: "nat \<Rightarrow> script \<Rightarrow> hooks" where
  "world 0 sc h g m = Inl OutOfFuel"
| "world (Suc n) sc h g m = run_calls n (world n sc) (sc h g m) (log_ev (hook_event h g) m)"

text \<open>
  The one generator of the source whose methods call the motion master outside \<open>Update\<close>:
  \<open>AssistanceMovementGenerator::Finalize\<close>. The scripts of the creature's AI are \<open>ai\<close>.
\<close>

fun assistance_calls :: script where
  "assistance_calls HFinalize (MG a (AssistanceMG x y z)) m =
     (if ow_alive (mm_own m) then [CSeekAssistanceDistract (ow_assist_delay (mm_own m))] else [])"
| "assistance_calls h g m = []"

definition unit_script :: "script \<Rightarrow> script" where
  "unit_script ai h g m = assistance_calls h g m @ ai h g m"

text \<open>The calls of an \<open>Update\<close> method, and its result.\<close>

type_synonym update_script = "u32 \<Rightarrow> mgen \<Rightarrow> motion \<Rightarrow> mcall list \<times> bool"

definition world_update :: "nat \<Rightarrow> script \<Rightarrow> update_script \<Rightarrow> update_hook" where
  "world_update n sc us diff g m =
     (case us diff g m of (cs, go_on) \<Rightarrow> sbind (run_calls n (world n sc) cs m) (\<lambda>m. Inr (go_on, m)))"

text \<open>The life of a unit: its default generator, then calls and updates in any order.\<close>

datatype mop = OpCall mcall | OpUpdate u32

primrec motion_op :: "nat \<Rightarrow> script \<Rightarrow> update_script \<Rightarrow> mop \<Rightarrow> motion \<Rightarrow> motion_error + motion" where
  "motion_op n sc us (OpCall c) m = mm_call n (world n sc) c m"
| "motion_op n sc us (OpUpdate diff) m = UpdateMotion n (world n sc) (world_update n sc us) diff m"

primrec motion_run :: "nat \<Rightarrow> script \<Rightarrow> update_script \<Rightarrow> mop list \<Rightarrow> motion \<Rightarrow> motion_error + motion" where
  "motion_run n sc us [] m = Inr m"
| "motion_run n sc us (p # ps) m = sbind (motion_op n sc us p m) (motion_run n sc us ps)"

definition motion_life :: "nat \<Rightarrow> script \<Rightarrow> update_script \<Rightarrow> mm_owner \<Rightarrow> mop list \<Rightarrow> motion_error + motion" where
  "motion_life n sc us ow ps =
     sbind (InitDefault (world n sc) (mm_new ow)) (motion_run n sc us ps)"

end
