(* ===== verification/Motion_Inv.thy ===== *)
theory Motion_Inv
  imports Motion_Master
begin

text \<open>
  What the operations of the motion master keep, against a contract on the methods of the
  generators: the locale \<open>hooks_ok\<close> lets a method call every \<open>Move\<close> function that only
  replaces generators. The contract is interpreted for the methods of a unit at every nesting
  depth.
\<close>

section \<open>Results that may only run out of fuel\<close>

definition safe_to :: "('a \<Rightarrow> bool) \<Rightarrow> motion_error + 'a \<Rightarrow> bool" where
  "safe_to P r \<longleftrightarrow> (case r of Inl e \<Rightarrow> e = OutOfFuel | Inr x \<Rightarrow> P x)"

lemma safe_to_simps [simp]:
  "safe_to P (Inr x) = P x" "safe_to P (Inl e) = (e = OutOfFuel)"
  by (simp_all add: safe_to_def)

lemma safe_to_bind: "safe_to P r \<Longrightarrow> (\<And>x. P x \<Longrightarrow> safe_to Q (f x)) \<Longrightarrow> safe_to Q (sbind r f)"
  by (cases r) simp_all

lemma safe_to_mono: "safe_to P r \<Longrightarrow> (\<And>x. P x \<Longrightarrow> Q x) \<Longrightarrow> safe_to Q r"
  by (cases r) simp_all

section \<open>The shape of the stack\<close>

abbreviation filled :: "motion \<Rightarrow> nat \<Rightarrow> bool" where
  "filled m i \<equiv> mm_impl m ! i \<noteq> None"

abbreviation need_top :: "motion \<Rightarrow> bool" where
  "need_top m \<equiv> mm_need m ! nat (mm_top m)"

abbreviation updating :: "motion \<Rightarrow> bool" where
  "updating m \<equiv> has_flag (mm_flag m) MMCF_UPDATE"

definition shaped :: "motion \<Rightarrow> bool" where
  "shaped m \<longleftrightarrow> length (mm_impl m) = 3 \<and> length (mm_need m) = 3 \<and> - 1 \<le> mm_top m \<and> mm_top m \<le> 2
     \<and> (\<forall>i<3. mm_top m < int i \<longrightarrow> \<not> filled m i)
     \<and> (\<forall>i<3. i \<noteq> 0 \<longrightarrow> mm_impl m ! i \<noteq> Some si_idleMovement)"

text \<open>What a method of a generator may do to the stack: fill slots, never empty one.\<close>

definition grows :: "motion \<Rightarrow> motion \<Rightarrow> bool" where
  "grows m m' \<longleftrightarrow> shaped m' \<and> mm_top m \<le> mm_top m' \<and> (\<forall>i<3. filled m i \<longrightarrow> filled m' i)
     \<and> (mm_top m' = mm_top m \<or> filled m' (nat (mm_top m')))
     \<and> (0 \<le> mm_top m' \<and> need_top m' \<longrightarrow> mm_top m' = mm_top m \<and> need_top m)
     \<and> mm_flag m' = mm_flag m \<and> (mm_exp m \<noteq> None \<longrightarrow> mm_exp m' \<noteq> None)
     \<and> (\<not> updating m \<longrightarrow> mm_exp m' = mm_exp m)"

text \<open>
  A stack that can run: the default generator is there, the top slot holds a generator, and
  that generator has been initialised unless the running update still has generators to
  delete.
\<close>

definition standing :: "motion \<Rightarrow> bool" where
  "standing m \<longleftrightarrow> shaped m \<and> filled m 0 \<and> 0 \<le> mm_top m \<and> filled m (nat (mm_top m))
     \<and> (need_top m \<longrightarrow> mm_exp m \<noteq> None)"

definition resting :: "motion \<Rightarrow> bool" where
  "resting m \<longleftrightarrow> standing m \<and> mm_exp m = None \<and> \<not> updating m"

lemma grows_refl: "shaped m \<Longrightarrow> grows m m"
  by (simp add: grows_def)

lemma grows_trans:
  assumes "grows a b" "grows b c" "shaped a"
  shows "grows a c"
proof -
  have "mm_top c = mm_top a \<or> filled c (nat (mm_top c))"
  proof (cases "mm_top c = mm_top b")
    case True
    show ?thesis
    proof (cases "mm_top b = mm_top a")
      case False
      with assms have "filled b (nat (mm_top b))" "nat (mm_top b) < 3"
        by (auto simp: grows_def shaped_def)
      with assms True show ?thesis by (auto simp: grows_def)
    qed (use True in simp)
  qed (use assms in \<open>auto simp: grows_def\<close>)
  moreover have "\<forall>i<3. filled a i \<longrightarrow> filled c i"
    using assms unfolding grows_def by (metis (no_types))
  moreover have "0 \<le> mm_top c \<and> need_top c \<longrightarrow> mm_top c = mm_top a \<and> need_top a"
  proof
    assume c: "0 \<le> mm_top c \<and> need_top c"
    with assms(2) have b: "mm_top c = mm_top b \<and> need_top b" by (simp add: grows_def)
    with c assms(1) show "mm_top c = mm_top a \<and> need_top a" by (simp add: grows_def)
  qed
  moreover have "mm_flag c = mm_flag a" "mm_exp a \<noteq> None \<Longrightarrow> mm_exp c \<noteq> None"
    "\<not> updating a \<Longrightarrow> mm_exp c = mm_exp a"
    using assms by (simp_all add: grows_def)
  moreover have "shaped c" "mm_top a \<le> mm_top c"
    using assms by (simp_all add: grows_def)
  ultimately show ?thesis
    unfolding grows_def by blast
qed

lemma grows_standing: "grows m m' \<Longrightarrow> standing m \<Longrightarrow> standing m'"
proof -
  assume g: "grows m m'" and s: "standing m"
  from s have "nat (mm_top m) < 3" by (auto simp: standing_def shaped_def)
  with g s have "filled m' (nat (mm_top m'))" by (auto simp: grows_def standing_def)
  moreover have "need_top m' \<longrightarrow> mm_exp m' \<noteq> None"
    using g s by (auto simp: grows_def standing_def)
  ultimately show ?thesis using g s by (simp add: grows_def standing_def)
qed

lemma standing_shaped: "standing m \<Longrightarrow> shaped m"
  by (simp add: standing_def)

lemma lt3_cases: "(\<forall>i<3::nat. P i) \<longleftrightarrow> P 0 \<and> P 1 \<and> P 2"
  by (auto simp: eval_nat_numeral less_Suc_eq)

lemma slot_ix_lt [simp]: "slot_ix s < 3"
  by (cases s) simp_all

lemma slot_ix_le [simp]: "int (slot_ix s) \<le> 2"
  by (cases s) simp_all

lemma log_ev_simps [simp]:
  "mm_exp (log_ev e m) = mm_exp m" "mm_impl (log_ev e m) = mm_impl m" "mm_top (log_ev e m) = mm_top m"
  "mm_own (log_ev e m) = mm_own m" "mm_need (log_ev e m) = mm_need m" "mm_flag (log_ev e m) = mm_flag m"
  "mm_fresh (log_ev e m) = mm_fresh m" "mm_log (log_ev e m) = mm_log m @ [e]"
  by (simp_all add: log_ev_def)

lemma shaped_log [simp]: "shaped (log_ev e m) = shaped m"
  by (simp add: shaped_def)

lemma grows_log: "shaped m \<Longrightarrow> grows m (log_ev e m)"
  by (simp add: grows_def)

lemma grows_shaped: "grows m m' \<Longrightarrow> shaped m'"
  by (simp add: grows_def)

lemma grows_logI: "grows m m' \<Longrightarrow> shaped m \<Longrightarrow> grows m (log_ev e m')"
  by (rule grows_trans [OF _ grows_log]) (auto dest: grows_shaped)

lemma grows_fresh: "shaped m \<Longrightarrow> grows m (m\<lparr>mm_fresh := k\<rparr>)"
  by (simp add: grows_def shaped_def)

section \<open>Replacing a generator\<close>

text \<open>Between the two halves of \<open>Mutate\<close>: slot \<open>k\<close> is free and within the stack.\<close>

definition mutating :: "nat \<Rightarrow> motion \<Rightarrow> motion \<Rightarrow> bool" where
  "mutating k m x \<longleftrightarrow> shaped x \<and> max (mm_top m) (int k) \<le> mm_top x
     \<and> (\<forall>i<3. i \<noteq> k \<longrightarrow> filled m i \<longrightarrow> filled x i)
     \<and> (mm_top x = max (mm_top m) (int k) \<or> filled x (nat (mm_top x)))
     \<and> (need_top x \<longrightarrow> mm_top x = max (mm_top m) (int k) \<and> (int k \<le> mm_top m \<longrightarrow> need_top m))
     \<and> mm_flag x = mm_flag m \<and> (mm_exp m \<noteq> None \<longrightarrow> mm_exp x \<noteq> None)
     \<and> (\<not> updating m \<longrightarrow> mm_exp x = mm_exp m)"

lemma mutating_start:
  assumes "shaped m" "filled m k" "k < 3" and g: "grows (m\<lparr>mm_impl := (mm_impl m)[k := None]\<rparr>) x"
  shows "mutating k m x"
proof -
  have "int k \<le> mm_top m" using assms by (auto simp: shaped_def not_less [symmetric])
  then have mx: "max (mm_top m) (int k) = mm_top m" by simp
  from g assms \<open>int k \<le> mm_top m\<close> show ?thesis
    unfolding mutating_def mx by (auto simp: grows_def nth_list_update)
qed

lemma mutating_free:
  assumes "shaped m" "\<not> filled m k" "k < 3"
  shows "mutating k m (if mm_top m < int k then m\<lparr>mm_top := int k\<rparr> else m)"
proof (cases "mm_top m < int k")
  case True
  with assms show ?thesis by (auto simp: mutating_def shaped_def)
next
  case False
  then have "max (mm_top m) (int k) = mm_top m" by simp
  with False assms show ?thesis by (auto simp: mutating_def shaped_def)
qed

lemma mutating_below:
  assumes "mutating k m x" "k < 3" "mm_top x > int k" "g = si_idleMovement \<longrightarrow> k = 0"
  shows "grows m (x\<lparr>mm_impl := (mm_impl x)[k := Some g], mm_need := (mm_need x)[k := True]\<rparr>)"
  using assms by (auto simp: mutating_def grows_def shaped_def nth_list_update)

lemma mutating_top:
  assumes "mutating k m x" "k < 3" "\<not> mm_top x > int k" "g = si_idleMovement \<longrightarrow> k = 0"
  shows "grows m (x\<lparr>mm_impl := (mm_impl x)[k := Some g], mm_need := (mm_need x)[k := False]\<rparr>)"
proof -
  have "mm_top x = int k" using assms by (auto simp: mutating_def)
  with assms show ?thesis by (auto simp: mutating_def grows_def shaped_def nth_list_update)
qed

lemma shaped_clear_slot: "shaped m \<Longrightarrow> shaped (m\<lparr>mm_impl := (mm_impl m)[k := None]\<rparr>)"
  by (cases "k < 3") (auto simp: shaped_def nth_list_update)

lemma DelayedDelete_grows:
  "shaped m \<Longrightarrow> updating m \<Longrightarrow> safe_to (grows m) (DelayedDelete (Some g) m)"
  by (simp add: DelayedDelete_def grows_refl) (simp add: grows_def shaped_def)

text \<open>The calls that replace one generator, or none.\<close>

fun is_move :: "mcall \<Rightarrow> bool" where
  "is_move CInitialize = False"
| "is_move (CClear r) = False"
| "is_move (CExpired r) = False"
| "is_move CTargetedHome = False"
| "is_move c = True"

section \<open>Popping\<close>

definition stacked :: "motion \<Rightarrow> bool" where
  "stacked m \<longleftrightarrow> shaped m \<and> filled m 0 \<and> 0 \<le> mm_top m \<and> filled m (nat (mm_top m))"

lemma standing_alt: "standing m \<longleftrightarrow> stacked m \<and> (need_top m \<longrightarrow> mm_exp m \<noteq> None)"
  by (simp add: standing_def stacked_def conj_assoc)

lemma stacked_shaped: "stacked m \<Longrightarrow> shaped m"
  by (simp add: stacked_def)

lemma grows_stacked: "grows m m' \<Longrightarrow> stacked m \<Longrightarrow> stacked m'"
proof -
  assume g: "grows m m'" and s: "stacked m"
  from s have "nat (mm_top m) < 3" by (auto simp: stacked_def shaped_def)
  with g s show ?thesis by (auto simp: grows_def stacked_def)
qed

lemma stacked_topv: "stacked m \<Longrightarrow> mm_topv m = Inr (mm_impl m ! nat (mm_top m))"
  by (simp add: mm_topv_def impl_at_def MAX_MOTION_SLOT_def stacked_def shaped_def)

lemma stacked_need: "stacked m \<Longrightarrow> needInitTop m = Inr (need_top m)"
  by (simp add: needInitTop_def MAX_MOTION_SLOT_def stacked_def shaped_def)

lemma skip_null_filled: "stacked m \<Longrightarrow> skip_null m = Inr m"
  by (subst skip_null.simps) (auto simp: stacked_topv stacked_def)

lemma skip_null_lowers:
  assumes "shaped m" "filled m 0" "0 \<le> mm_top m"
  shows "\<exists>t. skip_null m = Inr (m\<lparr>mm_top := t\<rparr>) \<and> t \<le> mm_top m \<and> stacked (m\<lparr>mm_top := t\<rparr>)"
  using assms
proof (induction m rule: skip_null.induct)
  case (1 m)
  show ?case
  proof (cases "mm_impl m ! nat (mm_top m)")
    case (Some g)
    with 1 have s: "stacked m" by (simp add: stacked_def)
    then have "skip_null m = Inr (m\<lparr>mm_top := mm_top m\<rparr>)" by (simp add: skip_null_filled)
    with s show ?thesis by (intro exI [of _ "mm_top m"]) simp
  next
    case None
    with 1 have pos: "mm_top m > 0" by (cases "mm_top m = 0") auto
    have tv: "mm_topv m = Inr None"
      using None 1 by (simp add: mm_topv_def impl_at_def MAX_MOTION_SLOT_def shaped_def)
    have below: "\<not> filled m i" if "i < 3" "mm_top m - 1 < int i" for i
    proof (cases "int i = mm_top m")
      case True
      then have "nat (mm_top m) = i" by simp
      with None show ?thesis by simp
    qed (use that 1(2) in \<open>auto simp: shaped_def\<close>)
    have "shaped (m\<lparr>mm_top := mm_top m - 1\<rparr>)"
      using 1 pos below by (auto simp: shaped_def)
    with 1 tv pos obtain t where "skip_null (m\<lparr>mm_top := mm_top m - 1\<rparr>) = Inr (m\<lparr>mm_top := t\<rparr>)"
        "t \<le> mm_top m - 1" "stacked (m\<lparr>mm_top := t\<rparr>)"
      by (fastforce simp: stacked_def)
    moreover have "skip_null m = skip_null (m\<lparr>mm_top := mm_top m - 1\<rparr>)"
      by (subst skip_null.simps) (simp add: tv)
    ultimately show ?thesis by (intro exI [of _ t]) simp
  qed
qed

lemma mm_pop_stacked:
  assumes s: "stacked m" and top: "mm_top m > 0"
  shows "\<exists>t. mm_pop m = Inr (m\<lparr>mm_impl := (mm_impl m)[nat (mm_top m) := None], mm_top := t\<rparr>)
    \<and> t < mm_top m \<and> stacked (m\<lparr>mm_impl := (mm_impl m)[nat (mm_top m) := None], mm_top := t\<rparr>)"
proof -
  let ?m = "m\<lparr>mm_impl := (mm_impl m)[nat (mm_top m) := None]\<rparr>"
  have b: "shaped ?m" "filled ?m 0" "0 \<le> mm_top ?m"
    using s top by (auto simp: stacked_def shaped_clear_slot)
  obtain t where t: "skip_null ?m = Inr (?m\<lparr>mm_top := t\<rparr>)" "t \<le> mm_top m" "stacked (?m\<lparr>mm_top := t\<rparr>)"
    using skip_null_lowers [OF b] by auto
  have "nat (mm_top m) < length (mm_impl m)"
    using s by (auto simp: stacked_def shaped_def)
  with t(3) have "t \<noteq> mm_top m" by (auto simp: stacked_def)
  with t s show ?thesis
    by (intro exI [of _ t]) (auto simp: mm_pop_def MAX_MOTION_SLOT_def stacked_def shaped_def)
qed

text \<open>One round of the loops that empty the stack.\<close>

definition pop_round :: "(mgen option \<Rightarrow> motion \<Rightarrow> motion_error + motion) \<Rightarrow> motion \<Rightarrow> motion_error + motion" where
  "pop_round del m = sbind (mm_topv m) (\<lambda>cur. sbind (mm_pop m) (\<lambda>m.
     if cur = None then Inr m else del cur m))"

lemma pop_while_round:
  "pop_while (Suc n) keep del m =
     (if mm_size m > keep then sbind (pop_round del m) (pop_while n keep del) else Inr m)"
  by (subst pop_while.simps) (simp add: pop_round_def sbind_assoc)

lemma pop_while_safe:
  assumes "\<And>m. I m \<Longrightarrow> mm_top m > 0 \<Longrightarrow> safe_to I (pop_round del m)"
    and "\<And>m. I m \<Longrightarrow> 0 \<le> mm_top m"
  shows "I m \<Longrightarrow> safe_to (\<lambda>m'. I m' \<and> mm_top m' = 0) (pop_while n 1 del m)"
proof (induction n arbitrary: m)
  case 0
  then show ?case
    using assms(2) [of m] by (simp add: pop_while.simps mm_size_def)
next
  case (Suc n)
  show ?case
  proof (cases "mm_top m > 0")
    case True
    have "safe_to (\<lambda>m'. I m' \<and> mm_top m' = 0) (sbind (pop_round del m) (pop_while n 1 del))"
      by (rule safe_to_bind [OF assms(1) [OF Suc.prems True] Suc.IH])
    with True show ?thesis by (simp add: pop_while_round mm_size_def)
  next
    case False
    with Suc.prems assms(2) [of m] show ?thesis by (simp add: pop_while_round mm_size_def)
  qed
qed

section \<open>The contract on the methods of the generators\<close>

locale hooks_ok =
  fixes cb :: hooks
  assumes cb_grows: "shaped m \<Longrightarrow> safe_to (grows m) (cb h g m)"
begin

lemma DirectDelete_grows: "shaped m \<Longrightarrow> safe_to (grows m) (DirectDelete cb (Some g) m)"
proof -
  assume m: "shaped m"
  then have "safe_to (grows m) (sbind (cb HFinalize g m) (\<lambda>m. Inr (log_ev (EvDelete g) m)))"
    by (rule safe_to_bind [OF cb_grows]) (use m in \<open>auto intro: grows_logI\<close>)
  with m show ?thesis by (simp add: DirectDelete_def grows_refl)
qed

lemma Mutate_first:
  assumes m: "shaped m" and k: "k < 3"
  shows "safe_to (mutating k m) (case mm_impl m ! k of
      Some cur \<Rightarrow>
        let m' = m\<lparr>mm_impl := (mm_impl m)[k := None]\<rparr> in
        if mm_top m' = int k \<and> has_flag (mm_flag m') MMCF_UPDATE
        then DelayedDelete (Some cur) m' else DirectDelete cb (Some cur) m'
    | None \<Rightarrow> Inr (if mm_top m < int k then m\<lparr>mm_top := int k\<rparr> else m))"
proof (cases "mm_impl m ! k")
  case None
  with mutating_free [OF m _ k] show ?thesis by simp
next
  case (Some c)
  let ?m = "m\<lparr>mm_impl := (mm_impl m)[k := None]\<rparr>"
  have s: "shaped ?m" using m by (rule shaped_clear_slot)
  have "safe_to (grows ?m) (if mm_top ?m = int k \<and> has_flag (mm_flag ?m) MMCF_UPDATE
      then DelayedDelete (Some c) ?m else DirectDelete cb (Some c) ?m)"
    using DelayedDelete_grows [OF s] DirectDelete_grows [OF s] by (auto simp del: safe_to_simps)
  then have "safe_to (mutating k m) (if mm_top ?m = int k \<and> has_flag (mm_flag ?m) MMCF_UPDATE
      then DelayedDelete (Some c) ?m else DirectDelete cb (Some c) ?m)"
    by (rule safe_to_mono) (use m k Some mutating_start in auto)
  with Some show ?thesis by (simp add: Let_def)
qed

lemma Mutate_fills:
  assumes m: "shaped m" and g: "g = si_idleMovement \<longrightarrow> slot_ix s = 0"
  shows "safe_to (\<lambda>m'. grows m m' \<and> filled m' (slot_ix s)) (Mutate cb g s m)"
proof -
  let ?k = "slot_ix s"
  let ?Q = "\<lambda>m'. grows m m' \<and> filled m' ?k"
  have 2: "safe_to ?Q (let m' = x\<lparr>mm_impl := (mm_impl x)[?k := Some g]\<rparr> in
             if mm_top m' > int ?k then Inr (m'\<lparr>mm_need := (mm_need m')[?k := True]\<rparr>)
             else cb HInit g (m'\<lparr>mm_need := (mm_need m')[?k := False]\<rparr>))"
    if x: "mutating ?k m x" for x
  proof -
    have len: "length (mm_impl x) = 3" using x by (simp add: mutating_def shaped_def)
    show ?thesis
    proof (cases "mm_top x > int ?k")
      case True
      with mutating_below [OF x _ _ g] len show ?thesis by simp
    next
      case False
      let ?y = "x\<lparr>mm_impl := (mm_impl x)[?k := Some g], mm_need := (mm_need x)[?k := False]\<rparr>"
      have y: "grows m ?y" using mutating_top [OF x _ False g] by simp
      have f: "filled ?y ?k" using len by simp
      have "safe_to ?Q (cb HInit g ?y)"
      proof (rule safe_to_mono [OF cb_grows [OF grows_shaped [OF y]]])
        fix z
        assume z: "grows ?y z"
        from z f have "filled z ?k" unfolding grows_def by (metis slot_ix_lt)
        with grows_trans [OF y z m] show "?Q z" by simp
      qed
      with False show ?thesis by simp
    qed
  qed
  show ?thesis
    unfolding Mutate_def Let_def [of "slot_ix s"]
    by (rule safe_to_bind [OF Mutate_first [OF m slot_ix_lt] 2])
qed

lemma Mutate_grows:
  "shaped m \<Longrightarrow> (g = si_idleMovement \<longrightarrow> slot_ix s = 0) \<Longrightarrow> safe_to (grows m) (Mutate cb g s m)"
  by (rule safe_to_mono [OF Mutate_fills]) simp_all

lemma mutate_new_grows: "shaped m \<Longrightarrow> safe_to (grows m) (mutate_new cb k s m)"
proof -
  assume m: "shaped m"
  let ?m = "m\<lparr>mm_fresh := Suc (mm_fresh m)\<rparr>"
  have "grows m ?m" using m by (rule grows_fresh)
  then have "safe_to (grows m) (Mutate cb (MG (mm_fresh m) k) s ?m)"
    by (intro safe_to_mono [OF Mutate_grows]) (auto intro: grows_trans m grows_shaped)
  then show ?thesis by (simp add: mutate_new_def)
qed

lemma mutate_log_grows: "shaped m \<Longrightarrow> safe_to (grows m) (mutate_new cb k s (log_ev e m))"
  by (rule safe_to_mono [OF mutate_new_grows]) (auto intro: grows_trans [OF grows_log])

lemma mutate_log2_grows: "shaped m \<Longrightarrow> safe_to (grows m) (mutate_new cb k s (log_ev e (log_ev e' m)))"
  by (rule safe_to_mono [OF mutate_log_grows]) (auto intro: grows_trans [OF grows_log])

lemma MoveIdle_grows:
  assumes m: "shaped m"
  shows "safe_to (grows m) (MoveIdle cb m)"
proof -
  have 1: "safe_to (grows m) (Mutate cb si_idleMovement MOTION_SLOT_IDLE m)"
    by (rule Mutate_grows [OF m]) simp
  have "\<not> mm_empty m \<Longrightarrow> mm_topv m = Inr (mm_impl m ! nat (mm_top m))"
    using m by (simp add: mm_topv_def impl_at_def mm_empty_def MAX_MOTION_SLOT_def shaped_def)
  with 1 m show ?thesis by (auto simp: MoveIdle_def simp del: safe_to_simps) (simp add: grows_refl)
qed

lemma knock_search_safe: "safe_to (\<lambda>_. True) (knock_search n ow rng ap am pos)"
  by (induction n arbitrary: ap am pos) (simp_all add: Let_def)

lemma MoveKnockbackFrom_grows: "shaped m \<Longrightarrow> safe_to (grows m) (MoveKnockbackFrom n cb x y h v m)"
  unfolding MoveKnockbackFrom_def Let_def
  by (auto simp: grows_refl simp del: safe_to_simps intro!: safe_to_bind [OF knock_search_safe] mutate_log_grows)
    (simp_all add: grows_refl)

lemma MoveJump_grows: "shaped m \<Longrightarrow> safe_to (grows m) (MoveJump cb p h v i m)"
  by (simp add: MoveJump_def Let_def grows_refl mutate_log_grows)

lemma MoveFall_grows: "shaped m \<Longrightarrow> safe_to (grows m) (MoveFall cb i m)"
  by (cases "ow_pos (mm_own m)")
    (simp add: MoveFall_def Let_def grows_refl mutate_log_grows mutate_log2_grows)

lemma call_or_skip_grows:
  "shaped m \<Longrightarrow> safe_to (grows m) (case p of None \<Rightarrow> Inr m | Some g \<Rightarrow> cb h g m)"
  using cb_grows by (cases p) (simp_all add: grows_refl)

lemma speed_loop_grows: "shaped m \<Longrightarrow> i + k = 3 \<Longrightarrow> safe_to (grows m) (speed_loop cb k i m)"
proof (induction k arbitrary: i m)
  case 0
  then show ?case by (simp add: grows_refl shaped_def)
next
  case (Suc k)
  have "safe_to (grows m) (sbind (case mm_impl m ! i of None \<Rightarrow> Inr m | Some g \<Rightarrow> cb HSpeed g m)
      (speed_loop cb k (Suc i)))"
  proof (rule safe_to_bind [OF call_or_skip_grows [OF Suc.prems(1)]])
    fix x
    assume x: "grows m x"
    show "safe_to (grows m) (speed_loop cb k (Suc i) x)"
      by (rule safe_to_mono [OF Suc.IH [OF grows_shaped [OF x]]])
        (use Suc.prems x grows_trans in auto)
  qed
  with Suc.prems show ?case by (simp add: impl_at_def MAX_MOTION_SLOT_def grows_refl)
qed

text \<open>The calls a method may make: those that only replace generators.\<close>

lemma mm_call_grows: "shaped m \<Longrightarrow> is_move c \<Longrightarrow> safe_to (grows m) (mm_call n cb c m)"
  by (cases c)
    (simp_all add: MoveIdle_grows MoveKnockbackFrom_grows MoveJump_grows MoveFall_grows grows_refl
      mutate_new_grows mutate_log_grows mutate_log2_grows MoveRandom_def MoveConfused_def MoveChase_def
      MoveFollow_def MovePoint_def MoveLand_def MoveTakeoff_def MoveJumpTo_def MoveCharge_def Let_def
      MoveSeekAssistance_def MoveSeekAssistanceDistract_def MoveFleeing_def MoveTaxiFlight_def
      MoveDistract_def MovePath_def MoveRotate_def propagateSpeedChange_def speed_loop_grows
      MAX_MOTION_SLOT_def split: prod.split option.split)

lemma run_calls_grows:
  "shaped m \<Longrightarrow> list_all is_move cs \<Longrightarrow> safe_to (grows m) (run_calls n cb cs m)"
proof (induction cs arbitrary: m)
  case Nil
  then show ?case by (simp add: grows_refl)
next
  case (Cons c cs)
  have "safe_to (grows m) (sbind (mm_call n cb c m) (run_calls n cb cs))"
  proof (rule safe_to_bind)
    show "safe_to (grows m) (mm_call n cb c m)" using Cons.prems by (simp add: mm_call_grows)
  next
    fix x
    assume x: "grows m x"
    show "safe_to (grows m) (run_calls n cb cs x)"
      by (rule safe_to_mono [OF Cons.IH [OF grows_shaped [OF x]]])
        (use Cons.prems x grows_trans in auto)
  qed
  then show ?case by simp
qed

end

text \<open>A unit whose scripts make only such calls keeps the contract, at every depth.\<close>

definition moving :: "script \<Rightarrow> bool" where
  "moving sc \<longleftrightarrow> (\<forall>h g m. list_all is_move (sc h g m))"

lemma hooks_ok_world: "moving sc \<Longrightarrow> hooks_ok (world n sc)"
proof (induction n)
  case 0
  show ?case by unfold_locales simp
next
  case (Suc n)
  then have ok: "hooks_ok (world n sc)" by simp
  show ?case
  proof
    fix m h g
    assume m: "shaped m"
    have l: "shaped (log_ev (hook_event h g) m)" using m by simp
    have "safe_to (grows (log_ev (hook_event h g) m))
        (run_calls n (world n sc) (sc h g m) (log_ev (hook_event h g) m))"
      by (rule hooks_ok.run_calls_grows [OF ok l]) (use Suc.prems in \<open>simp add: moving_def\<close>)
    then show "safe_to (grows m) (world (Suc n) sc h g m)"
      by (simp only: world.simps) (erule safe_to_mono, rule grows_trans [OF grows_log [OF m] _ m])
  qed
qed

lemma moving_assistance: "moving assistance_calls"
proof -
  have "list_all is_move (assistance_calls h g m)" for h g m
    by (cases "(h, g, m)" rule: assistance_calls.cases) simp_all
  then show ?thesis by (simp add: moving_def)
qed

lemma moving_unit: "moving ai \<Longrightarrow> moving (unit_script ai)"
  using moving_assistance by (simp add: moving_def unit_script_def)

interpretation unit_hooks: hooks_ok "world n assistance_calls" for n
  by (rule hooks_ok_world [OF moving_assistance])

section \<open>Clear and MovementExpired outside an update\<close>

text \<open>Outside an update, with the list of expired generators at a given value.\<close>

definition at_ease :: "mgen list option \<Rightarrow> motion \<Rightarrow> bool" where
  "at_ease E m \<longleftrightarrow> stacked m \<and> \<not> updating m \<and> mm_exp m = E"

definition settled :: "mgen list option \<Rightarrow> motion \<Rightarrow> bool" where
  "settled E m \<longleftrightarrow> at_ease E m \<and> \<not> need_top m"

lemma at_ease_top: "at_ease E m \<Longrightarrow> 0 \<le> mm_top m"
  by (simp add: at_ease_def stacked_def)

lemma resting_settled: "resting m \<longleftrightarrow> settled None m"
  by (auto simp: resting_def settled_def at_ease_def standing_alt)

lemma resting_is_settled: "resting = settled None"
  by (rule ext) (rule resting_settled)

lemma grows_at_ease: "grows m m' \<Longrightarrow> at_ease E m \<Longrightarrow> at_ease E m'"
  using grows_stacked by (auto simp: at_ease_def grows_def)

lemma grows_settled: "grows m m' \<Longrightarrow> settled E m \<Longrightarrow> settled E m'"
proof -
  assume g: "grows m m'" and s: "settled E m"
  then have e: "at_ease E m'" by (auto simp: settled_def intro: grows_at_ease)
  then have "0 \<le> mm_top m'" by (rule at_ease_top)
  with g s have "\<not> need_top m'" by (auto simp: grows_def settled_def)
  with e show ?thesis by (simp add: settled_def)
qed

lemma at_ease_pop:
  assumes "at_ease E m" "mm_top m > 0"
  shows "\<exists>m' g. mm_topv m = Inr (Some g) \<and> mm_pop m = Inr m' \<and> at_ease E m'"
  using assms mm_pop_stacked [of m] stacked_topv [of m]
  by (auto simp: at_ease_def stacked_def)

text \<open>Inside an update.\<close>

definition in_update :: "motion \<Rightarrow> bool" where
  "in_update m \<longleftrightarrow> standing m \<and> updating m"

lemma in_update_round:
  assumes "in_update m" "mm_top m > 0"
  shows "\<exists>m' g. mm_topv m = Inr (Some g) \<and> mm_pop m = Inr m' \<and> safe_to in_update (DelayedDelete (Some g) m')"
proof -
  from assms have s: "stacked m" by (simp add: in_update_def standing_alt)
  then obtain g where g: "mm_impl m ! nat (mm_top m) = Some g" by (auto simp: stacked_def)
  with s assms(2) have dyn: "g \<noteq> si_idleMovement" by (auto simp: stacked_def shaped_def)
  obtain t where t: "mm_pop m = Inr (m\<lparr>mm_impl := (mm_impl m)[nat (mm_top m) := None], mm_top := t\<rparr>)"
      "stacked (m\<lparr>mm_impl := (mm_impl m)[nat (mm_top m) := None], mm_top := t\<rparr>)"
    using mm_pop_stacked [OF s assms(2)] by blast
  with dyn g s assms(1) show ?thesis
    by (auto simp: stacked_topv DelayedDelete_def isStatic_def in_update_def standing_alt stacked_def shaped_def)
qed

lemma in_update_pop_round: "in_update m \<Longrightarrow> mm_top m > 0 \<Longrightarrow> safe_to in_update (pop_round DelayedDelete m)"
  using in_update_round [of m] by (auto simp: pop_round_def simp del: safe_to_simps)

lemma in_update_top: "in_update m \<Longrightarrow> 0 \<le> mm_top m"
  by (simp add: in_update_def standing_def)

lemma DelayedClean_safe: "in_update m \<Longrightarrow> safe_to in_update (DelayedClean n m)"
  unfolding DelayedClean_def
  by (rule safe_to_mono [OF pop_while_safe [of in_update, OF in_update_pop_round in_update_top]]) simp_all

lemma DelayedExpire_safe:
  assumes m: "in_update m"
  shows "safe_to in_update (DelayedExpire m)"
proof -
  have "safe_to in_update (if mm_size m > 1 then sbind (mm_topv m) (\<lambda>cur. sbind (mm_pop m) (DelayedDelete cur))
      else Inr m)"
    using m in_update_round [OF m] by (auto simp: mm_size_def simp del: safe_to_simps) simp
  then show ?thesis
    unfolding DelayedExpire_def
    by (rule safe_to_bind) (simp add: skip_null_filled in_update_def standing_alt)
qed

lemma flag_bits: "MMCF_RESET AND MMCF_UPDATE = 0" "MMCF_UPDATE AND MMCF_RESET = 0" "MMCF_UPDATE \<noteq> 0"
  by (simp_all add: MMCF_UPDATE_def MMCF_RESET_def)

lemma updating_note_reset [simp]: "updating (note_reset r m) = updating m"
  using has_flag_set_other [OF flag_bits(1)] has_flag_clear_other [OF flag_bits(1)]
  by (simp add: note_reset_def)

lemma note_reset_simps [simp]:
  "mm_impl (note_reset r m) = mm_impl m"
  "mm_top (note_reset r m) = mm_top m" "mm_need (note_reset r m) = mm_need m"
  "mm_exp (note_reset r m) = mm_exp m" "mm_own (note_reset r m) = mm_own m"
  "mm_log (note_reset r m) = mm_log m" "mm_fresh (note_reset r m) = mm_fresh m"
  by (simp_all add: note_reset_def)

lemma note_reset_in_update [simp]: "in_update (note_reset r m) = in_update m"
  by (simp add: in_update_def standing_def shaped_def)

lemma set_update_in_update: "resting m \<Longrightarrow> in_update (set_update m)"
  by (auto simp: in_update_def set_update_def resting_def standing_def shaped_def
      has_flag_set_same flag_bits)

context hooks_ok
begin

lemma DirectDelete_at_ease: "at_ease E m \<Longrightarrow> safe_to (at_ease E) (DirectDelete cb (Some g) m)"
proof -
  assume m: "at_ease E m"
  then have sh: "shaped m" by (simp add: at_ease_def stacked_shaped)
  show ?thesis by (rule safe_to_mono [OF DirectDelete_grows [OF sh]]) (rule grows_at_ease [OF _ m])
qed

lemma at_ease_round: "at_ease E m \<Longrightarrow> mm_top m > 0 \<Longrightarrow> safe_to (at_ease E) (pop_round (DirectDelete cb) m)"
  using at_ease_pop [of E m] DirectDelete_at_ease
  by (auto simp: pop_round_def simp del: safe_to_simps)

lemma InitTop_settled:
  assumes m: "at_ease E m"
  shows "safe_to (settled E) (InitTop cb m)"
proof -
  from m obtain g where g: "mm_topv m = Inr (Some g)" by (auto simp: at_ease_def stacked_topv) (auto simp: stacked_def)
  have sh: "shaped m" using m by (simp add: at_ease_def stacked_def)
  have "safe_to (settled E) (sbind (cb HInit g m) (\<lambda>m. if 0 \<le> mm_top m \<and> mm_top m < int MAX_MOTION_SLOT
      then Inr (m\<lparr>mm_need := (mm_need m)[nat (mm_top m) := False]\<rparr>) else Inl OutOfBounds))"
  proof (rule safe_to_bind [OF cb_grows [OF sh]])
    fix x
    assume "grows m x"
    then have "at_ease E x" using m by (rule grows_at_ease)
    then show "safe_to (settled E) (if 0 \<le> mm_top x \<and> mm_top x < int MAX_MOTION_SLOT
      then Inr (x\<lparr>mm_need := (mm_need x)[nat (mm_top x) := False]\<rparr>) else Inl OutOfBounds)"
      by (auto simp: MAX_MOTION_SLOT_def settled_def at_ease_def stacked_def shaped_def)
  qed
  with g show ?thesis by (simp add: InitTop_def call_hook_def)
qed

lemma ResetTop_settled:
  assumes m: "settled E m"
  shows "safe_to (settled E) (ResetTop cb m)"
proof -
  from m have s: "stacked m" by (simp add: settled_def at_ease_def)
  then obtain g where g: "mm_topv m = Inr (Some g)" by (auto simp: stacked_topv) (auto simp: stacked_def)
  have "safe_to (settled E) (cb HReset g m)"
    by (rule safe_to_mono [OF cb_grows [OF stacked_shaped [OF s]]]) (rule grows_settled [OF _ m])
  with g show ?thesis by (simp add: ResetTop_def call_hook_def)
qed

lemma settle:
  assumes m: "at_ease E m"
  shows "safe_to (settled E)
    (sbind (needInitTop m) (\<lambda>i. if i then InitTop cb m else if reset then ResetTop cb m else Inr m))"
proof -
  have n: "needInitTop m = Inr (need_top m)" using m by (simp add: at_ease_def stacked_need)
  show ?thesis
  proof (cases "need_top m")
    case True
    with n InitTop_settled [OF m] show ?thesis by simp
  next
    case False
    with m have "settled E m" by (simp add: settled_def)
    with n False ResetTop_settled [of E m] show ?thesis by simp
  qed
qed

lemma DirectClean_settled:
  assumes m: "at_ease E m"
  shows "safe_to (settled E) (DirectClean n cb reset m)"
  unfolding DirectClean_def
  by (rule safe_to_bind [OF pop_while_safe [of "at_ease E", OF at_ease_round at_ease_top m] settle]) simp_all

lemma DirectExpire_settled:
  assumes m: "at_ease E m"
  shows "safe_to (settled E) (DirectExpire n cb reset m)"
proof -
  have "safe_to (at_ease E) (if mm_size m > 1 then sbind (mm_topv m) (\<lambda>cur. sbind (mm_pop m) (DirectDelete cb cur))
      else Inr m)"
  proof (cases "mm_top m > 0")
    case True
    with at_ease_pop [OF m True] DirectDelete_at_ease show ?thesis
      by (auto simp: mm_size_def simp del: safe_to_simps)
  qed (use m in \<open>simp add: mm_size_def\<close>)
  then show ?thesis
    unfolding DirectExpire_def
  proof (rule safe_to_bind)
    fix x
    assume x: "at_ease E x"
    then have "skip_null x = Inr x" "\<not> mm_empty x"
      by (simp_all add: at_ease_def skip_null_filled) (simp add: mm_empty_def stacked_def)
    with settle [OF x] show "safe_to (settled E) (sbind (skip_null x) (\<lambda>m.
       if mm_empty m then mm_Initialize n cb m
       else sbind (needInitTop m) (\<lambda>i. if i then InitTop cb m else if reset then ResetTop cb m else Inr m)))"
      by simp
  qed
qed

lemma settled_shaped: "settled E m \<Longrightarrow> shaped m"
  by (simp add: settled_def at_ease_def stacked_shaped)

lemma in_update_shaped: "in_update m \<Longrightarrow> shaped m"
  by (simp add: in_update_def standing_shaped)

lemma grows_in_update: "grows m m' \<Longrightarrow> in_update m \<Longrightarrow> in_update m'"
  using grows_standing by (auto simp: in_update_def grows_def)

lemma move_settled: "settled E m \<Longrightarrow> is_move c \<Longrightarrow> safe_to (settled E) (mm_call n cb c m)"
  by (rule safe_to_mono [OF mm_call_grows [OF settled_shaped]]) (auto intro: grows_settled)

lemma move_in_update: "in_update m \<Longrightarrow> is_move c \<Longrightarrow> safe_to in_update (mm_call n cb c m)"
  by (rule safe_to_mono [OF mm_call_grows [OF in_update_shaped]]) (auto intro: grows_in_update)

lemma home_safe:
  assumes m: "I m" and c: "safe_to I (mm_Clear n cb False m)"
    and new: "\<And>m k s. I m \<Longrightarrow> safe_to I (mutate_new cb k s m)"
  shows "safe_to I (MoveTargetedHome n cb m)"
  unfolding MoveTargetedHome_def
  by (rule safe_to_bind [OF c]) (auto simp: new split: option.split)

lemma mutate_new_settled: "settled E m \<Longrightarrow> safe_to (settled E) (mutate_new cb k s m)"
  by (rule safe_to_mono [OF mutate_new_grows [OF settled_shaped]]) (auto intro: grows_settled)

lemma mutate_new_in_update: "in_update m \<Longrightarrow> safe_to in_update (mutate_new cb k s m)"
  by (rule safe_to_mono [OF mutate_new_grows [OF in_update_shaped]]) (auto intro: grows_in_update)

lemma Clear_settled: "settled E m \<Longrightarrow> safe_to (settled E) (mm_Clear n cb r m)"
  using DirectClean_settled [of E m] by (simp add: mm_Clear_def settled_def at_ease_def)

lemma Expired_settled: "settled E m \<Longrightarrow> safe_to (settled E) (MovementExpired n cb r m)"
  using DirectExpire_settled [of E m] by (simp add: MovementExpired_def settled_def at_ease_def)

lemma Clear_in_update: "in_update m \<Longrightarrow> safe_to in_update (mm_Clear n cb r m)"
  by (simp add: mm_Clear_def DelayedClean_safe) (simp add: in_update_def)

lemma Expired_in_update: "in_update m \<Longrightarrow> safe_to in_update (MovementExpired n cb r m)"
  by (simp add: MovementExpired_def DelayedExpire_safe) (simp add: in_update_def)

lemma call_settled:
  assumes m: "settled E m" and c: "c \<noteq> CInitialize"
  shows "safe_to (settled E) (mm_call n cb c m)"
proof (cases "is_move c")
  case True
  with m show ?thesis by (rule move_settled)
next
  case False
  with c m show ?thesis
    by (cases c) (simp_all add: Clear_settled Expired_settled home_safe mutate_new_settled)
qed

lemma call_in_update:
  assumes m: "in_update m" and c: "c \<noteq> CInitialize"
  shows "safe_to in_update (mm_call n cb c m)"
proof (cases "is_move c")
  case True
  with m show ?thesis by (rule move_in_update)
next
  case False
  with c m show ?thesis
    by (cases c) (simp_all add: Clear_in_update Expired_in_update home_safe mutate_new_in_update)
qed

lemma run_calls_in_update:
  "in_update m \<Longrightarrow> CInitialize \<notin> set cs \<Longrightarrow> safe_to in_update (run_calls n cb cs m)"
proof (induction cs arbitrary: m)
  case (Cons c cs)
  then show ?case by (auto intro: safe_to_bind [OF call_in_update])
qed simp

lemma expire_loop_safe:
  assumes m: "at_ease (Some l) m"
  shows "safe_to (at_ease (Some l)) (expire_loop n cb i m)"
  using m
proof (induction n arbitrary: i m)
  case 0
  then show ?case by (simp add: at_ease_def)
next
  case (Suc n)
  then have e: "mm_exp m = Some l" by (simp add: at_ease_def)
  have "safe_to (at_ease (Some l)) (sbind (DirectDelete cb (Some (l ! i)) m) (expire_loop n cb (Suc i)))"
    by (rule safe_to_bind [OF DirectDelete_at_ease [OF Suc.prems] Suc.IH])
  with e Suc.prems show ?case by simp
qed

lemma finish_expired_resting:
  assumes m: "at_ease E m" and need: "need_top m \<longrightarrow> E \<noteq> None"
  shows "safe_to resting (finish_expired n cb m)"
proof (cases E)
  case None
  with m need show ?thesis
    by (simp add: finish_expired_def resting_settled settled_def at_ease_def)
next
  case (Some l)
  have "safe_to resting (sbind (expire_loop n cb 0 m) (\<lambda>m.
        let m = m\<lparr>mm_exp := None\<rparr> in
        sbind (if mm_empty m then mm_Initialize n cb m
               else sbind (needInitTop m) (\<lambda>i. if i then InitTop cb m
                 else if has_flag (mm_flag m) MMCF_RESET then ResetTop cb m else Inr m)) (\<lambda>m.
        Inr (m\<lparr>mm_flag := mm_flag m AND NOT MMCF_RESET\<rparr>))))"
  proof (rule safe_to_bind [OF expire_loop_safe [OF m [unfolded Some]]])
    fix x
    assume x: "at_ease (Some l) x"
    let ?x = "x\<lparr>mm_exp := None\<rparr>"
    have e: "at_ease None ?x" using x by (simp add: at_ease_def stacked_def shaped_def)
    then have ne: "\<not> mm_empty ?x" using at_ease_top [OF x] by (simp add: mm_empty_def not_less)
    have "safe_to resting (sbind (sbind (needInitTop ?x) (\<lambda>i. if i then InitTop cb ?x
        else if has_flag (mm_flag ?x) MMCF_RESET then ResetTop cb ?x else Inr ?x)) (\<lambda>m.
        Inr (m\<lparr>mm_flag := mm_flag m AND NOT MMCF_RESET\<rparr>)))"
    proof (rule safe_to_bind [OF settle [OF e]])
      fix y
      assume "settled None y"
      then show "safe_to resting (Inr (y\<lparr>mm_flag := mm_flag y AND NOT MMCF_RESET\<rparr>))"
        using has_flag_clear_other [OF flag_bits(1)]
        by (simp add: resting_settled settled_def at_ease_def stacked_def shaped_def)
    qed
    with ne show "safe_to resting (let m = ?x in
        sbind (if mm_empty m then mm_Initialize n cb m
               else sbind (needInitTop m) (\<lambda>i. if i then InitTop cb m
                 else if has_flag (mm_flag m) MMCF_RESET then ResetTop cb m else Inr m)) (\<lambda>m.
        Inr (m\<lparr>mm_flag := mm_flag m AND NOT MMCF_RESET\<rparr>)))"
      by (simp add: Let_def)
  qed
  moreover have "mm_exp m = Some l" using m Some by (simp add: at_ease_def)
  ultimately show ?thesis by (simp add: finish_expired_def)
qed

lemma UpdateMotion_resting:
  assumes upd: "\<And>d g m. in_update m \<Longrightarrow> safe_to (\<lambda>r. in_update (snd r)) (upd d g m)"
    and m: "resting m"
  shows "safe_to resting (UpdateMotion n cb upd diff m)"
proof (cases "ow_root_or_stun (mm_own m)")
  case True
  with m show ?thesis by (simp add: UpdateMotion_def)
next
  case False
  have s: "stacked m" using m by (simp add: resting_def standing_alt)
  have u: "in_update (set_update m)" by (rule set_update_in_update [OF m])
  from s obtain g where g: "mm_impl m ! nat (mm_top m) = Some g" by (auto simp: stacked_def)
  have "stacked (set_update m)" using u by (simp add: in_update_def standing_alt)
  with g have tv: "mm_topv (set_update m) = Inr (Some g)" by (simp add: stacked_topv set_update_def)
  have ne: "\<not> mm_empty m" using s by (simp add: mm_empty_def stacked_def)
  have "safe_to resting (sbind (upd diff g (set_update m)) (\<lambda>(go_on, m).
        sbind (if go_on then Inr (clear_update m)
               else MovementExpired n cb True (clear_update m)) (\<lambda>m.
        sbind (finish_expired n cb m) (\<lambda>m. Inr (log_ev EvUnderwater m)))))"
  proof (rule safe_to_bind [OF upd [OF u]], clarify)
    fix go_on :: bool and x
    assume "in_update (snd (go_on, x))"
    then have x: "at_ease (mm_exp x) (clear_update x)" "need_top (clear_update x) \<longrightarrow> mm_exp x \<noteq> None"
      by (simp_all add: at_ease_def clear_update_def in_update_def standing_alt stacked_def shaped_def)
    have "safe_to (\<lambda>m. at_ease (mm_exp x) m \<and> (need_top m \<longrightarrow> mm_exp x \<noteq> None))
        (if go_on then Inr (clear_update x) else MovementExpired n cb True (clear_update x))"
    proof (cases go_on)
      case False
      have "safe_to (settled (mm_exp x)) (DirectExpire n cb True (clear_update x))"
        by (rule DirectExpire_settled [OF x(1)])
      moreover have "\<not> updating (clear_update x)" by (simp add: clear_update_def)
      ultimately show ?thesis
        using False by (auto simp: MovementExpired_def settled_def elim: safe_to_mono)
    qed (use x in simp)
    then show "safe_to resting (sbind (if go_on then Inr (clear_update x)
               else MovementExpired n cb True (clear_update x)) (\<lambda>m.
        sbind (finish_expired n cb m) (\<lambda>m. Inr (log_ev EvUnderwater m))))"
    proof (rule safe_to_bind)
      fix y
      assume "at_ease (mm_exp x) y \<and> (need_top y \<longrightarrow> mm_exp x \<noteq> None)"
      then have "safe_to resting (finish_expired n cb y)" using finish_expired_resting by blast
      then show "safe_to resting (sbind (finish_expired n cb y) (\<lambda>m. Inr (log_ev EvUnderwater m)))"
        by (rule safe_to_bind) (auto simp: resting_def standing_def)
    qed
  qed
  with False tv ne show ?thesis by (simp add: UpdateMotion_def)
qed

lemma InitDefault_resting: "safe_to resting (InitDefault cb (mm_new ow))"
proof -
  have m: "safe_to resting (Mutate cb g MOTION_SLOT_IDLE (mm_new ow\<lparr>mm_fresh := k\<rparr>))" for g k
  proof (rule safe_to_mono [OF Mutate_fills])
    show sh: "shaped (mm_new ow\<lparr>mm_fresh := k\<rparr>)"
      by (simp add: shaped_def mm_new_def MAX_MOTION_SLOT_def lt3_cases)
    fix x
    assume x: "grows (mm_new ow\<lparr>mm_fresh := k\<rparr>) x \<and> filled x (slot_ix MOTION_SLOT_IDLE)"
    then have "shaped x" "filled x 0" by (simp_all add: grows_def)
    then have t: "0 \<le> mm_top x" by (force simp: shaped_def)
    with x have "filled x (nat (mm_top x))" "\<not> need_top x"
      by (auto simp: grows_def mm_new_def)
    moreover have "mm_exp x = None" "\<not> updating x"
      using x by (simp_all add: grows_def mm_new_def MMCF_NONE_def)
    ultimately show "resting x"
      using t \<open>shaped x\<close> \<open>filled x 0\<close> by (simp add: resting_def standing_def)
  qed simp
  have "mm_new ow\<lparr>mm_fresh := 0\<rparr> = mm_new ow" by (simp add: mm_new_def)
  with m [of _ 0] m [of _ "Suc (mm_fresh (mm_new ow))"] show ?thesis
    by (auto simp: InitDefault_def mutate_new_def split: option.split simp del: safe_to_simps)
qed

end

text \<open>The \<open>Update\<close> method of a unit whose generators do not reinitialise the motion master.\<close>

definition no_init :: "update_script \<Rightarrow> bool" where
  "no_init us \<longleftrightarrow> (\<forall>d g m. CInitialize \<notin> set (fst (us d g m)))"

lemma world_update_safe:
  assumes "moving sc" "no_init us" "in_update m"
  shows "safe_to (\<lambda>r. in_update (snd r)) (world_update n sc us d g m)"
proof -
  obtain cs go_on where u: "us d g m = (cs, go_on)" by (cases "us d g m")
  with assms(2) have "CInitialize \<notin> set cs" by (metis fst_conv no_init_def)
  then have "safe_to in_update (run_calls n (world n sc) cs m)"
    using hooks_ok.run_calls_in_update [OF hooks_ok_world [OF assms(1)] assms(3)] by blast
  then show ?thesis
    unfolding world_update_def u by (auto intro: safe_to_bind)
qed

end
