(* ===== verification/Motion_Memory.thy ===== *)
theory Motion_Memory
  imports Motion_Inv "HOL-Library.Multiset"
begin

text \<open>
  The ownership of generators: every generator the motion master allocates is in a slot, in the
  list of expired generators, in a local variable of the running operation, or deleted. The
  methods of the generators are those of a unit whose scripts make no calls outside \<open>Update\<close>;
  the operations then always return, and the lemmas state it.
\<close>

section \<open>Results that are returned\<close>

definition gives :: "('a \<Rightarrow> bool) \<Rightarrow> 'e + 'a \<Rightarrow> bool" where
  "gives P r \<longleftrightarrow> (case r of Inl e \<Rightarrow> False | Inr x \<Rightarrow> P x)"

lemma gives_simps [simp]: "gives P (Inr x) = P x" "\<not> gives P (Inl e)"
  by (simp_all add: gives_def)

lemma gives_bind: "gives P r \<Longrightarrow> (\<And>x. P x \<Longrightarrow> gives Q (f x)) \<Longrightarrow> gives Q (sbind r f)"
  by (cases r) simp_all

lemma gives_mono: "gives P r \<Longrightarrow> (\<And>x. P x \<Longrightarrow> Q x) \<Longrightarrow> gives Q r"
  by (cases r) simp_all

lemma gives_safe: "gives P r \<Longrightarrow> safe_to Q r \<Longrightarrow> gives (\<lambda>x. P x \<and> Q x) r"
  by (cases r) simp_all

lemma gives_iff: "gives P r \<longleftrightarrow> (\<exists>x. r = Inr x \<and> P x)"
  by (cases r) simp_all

section \<open>Who owns a generator\<close>

primrec addr :: "mgen \<Rightarrow> nat list" where
  "addr si_idleMovement = []"
| "addr (MG a k) = [a]"

definition opt_addr :: "mgen option \<Rightarrow> nat list" where
  "opt_addr p = (case p of None \<Rightarrow> [] | Some g \<Rightarrow> addr g)"

definition in_slots :: "motion \<Rightarrow> nat list" where
  "in_slots m = concat (map opt_addr (mm_impl m))"

definition in_expired :: "motion \<Rightarrow> nat list" where
  "in_expired m = (case mm_exp m of None \<Rightarrow> [] | Some l \<Rightarrow> concat (map addr l))"

primrec deletes :: "mm_event \<Rightarrow> nat list" where
  "deletes (EvInit g) = []"
| "deletes (EvReset g) = []"
| "deletes (EvFinalize g) = []"
| "deletes (EvSpeed g) = []"
| "deletes (EvDelete g) = addr g"
| "deletes (EvSpline p s) = []"
| "deletes EvFallFlag = []"
| "deletes EvAttackStop = []"
| "deletes EvPassive = []"
| "deletes EvUnderwater = []"

definition deleted :: "motion \<Rightarrow> nat list" where
  "deleted m = concat (map deletes (mm_log m))"

text \<open>\<open>owns X m\<close>: the generators \<open>X\<close> are held in local variables.\<close>

definition owns :: "nat list \<Rightarrow> motion \<Rightarrow> bool" where
  "owns X m \<longleftrightarrow> mset (in_slots m) + mset (in_expired m) + mset (deleted m) + mset X = mset [0..<mm_fresh m]
     \<and> (\<forall>l. mm_exp m = Some l \<longrightarrow> si_idleMovement \<notin> set l)"

lemma mset_concat_update:
  "k < length xs \<Longrightarrow>
    mset (concat (map f (xs[k := y]))) + mset (f (xs ! k)) = mset (concat (map f xs)) + mset (f y)"
proof (induction xs arbitrary: k)
  case (Cons x xs)
  then show ?case by (cases k) (auto simp: ac_simps)
qed simp

lemma in_slots_update:
  "k < length (mm_impl m) \<Longrightarrow>
    mset (in_slots (m\<lparr>mm_impl := (mm_impl m)[k := y]\<rparr>)) + mset (opt_addr (mm_impl m ! k))
      = mset (in_slots m) + mset (opt_addr y)"
  using mset_concat_update [of k "mm_impl m" opt_addr y] by (simp add: in_slots_def)

lemma owns_take:
  assumes "owns X m" "k < length (mm_impl m)" "mm_impl m ! k = Some g"
  shows "owns (addr g @ X) (m\<lparr>mm_impl := (mm_impl m)[k := None]\<rparr>)" (is "owns _ ?m")
proof -
  have "mset (in_slots m) = mset (in_slots ?m) + mset (addr g)"
    using in_slots_update [of k m None] assms by (simp add: opt_addr_def)
  moreover have "in_expired ?m = in_expired m" "deleted ?m = deleted m" "mm_fresh ?m = mm_fresh m"
    by (simp_all add: in_expired_def deleted_def)
  ultimately show ?thesis using assms(1) by (simp add: owns_def ac_simps)
qed

lemma owns_put:
  assumes "owns (addr g @ X) m" "k < length (mm_impl m)" "mm_impl m ! k = None"
  shows "owns X (m\<lparr>mm_impl := (mm_impl m)[k := Some g]\<rparr>)" (is "owns _ ?m")
proof -
  have "mset (in_slots ?m) = mset (in_slots m) + mset (addr g)"
    using in_slots_update [of k m "Some g"] assms by (simp add: opt_addr_def)
  moreover have "in_expired ?m = in_expired m" "deleted ?m = deleted m" "mm_fresh ?m = mm_fresh m"
    by (simp_all add: in_expired_def deleted_def)
  ultimately show ?thesis using assms(1) by (simp add: owns_def ac_simps)
qed

lemma owns_cong:
  "mm_impl m' = mm_impl m \<Longrightarrow> mm_exp m' = mm_exp m \<Longrightarrow> mm_log m' = mm_log m \<Longrightarrow> mm_fresh m' = mm_fresh m
    \<Longrightarrow> owns X m' = owns X m"
  by (simp add: owns_def in_slots_def in_expired_def deleted_def)

lemma owns_log: "deletes e = [] \<Longrightarrow> owns X (log_ev e m) = owns X m"
  by (simp add: owns_def in_slots_def in_expired_def deleted_def)

lemma owns_delete: "owns (addr g @ X) m \<Longrightarrow> owns X (log_ev (EvDelete g) m)"
  by (simp add: owns_def in_slots_def in_expired_def deleted_def ac_simps)

lemma owns_delay:
  "owns (addr g @ X) m \<Longrightarrow> g \<noteq> si_idleMovement \<Longrightarrow>
    owns X (m\<lparr>mm_exp := Some ((case mm_exp m of None \<Rightarrow> [] | Some l \<Rightarrow> l) @ [g])\<rparr>)"
  by (cases "mm_exp m") (simp_all add: owns_def in_slots_def in_expired_def deleted_def ac_simps)

lemma owns_new: "owns X m \<Longrightarrow> owns (mm_fresh m # X) (m\<lparr>mm_fresh := Suc (mm_fresh m)\<rparr>)"
  by (simp add: owns_def in_slots_def in_expired_def deleted_def)

lemma length_addrs: "si_idleMovement \<notin> set l \<Longrightarrow> length (concat (map addr l)) = length l"
proof (induction l)
  case (Cons g l)
  then show ?case by (cases g) simp_all
qed simp

lemma owns_bound:
  assumes "owns X m" "mm_exp m = Some l"
  shows "length l \<le> mm_fresh m"
proof -
  have "length l = length (in_expired m)"
    using assms by (simp add: in_expired_def owns_def length_addrs)
  also have "\<dots> = size (mset (in_expired m))" by simp
  also have "\<dots> \<le> size (mset (in_slots m) + mset (in_expired m) + mset (deleted m) + mset X)"
    by (simp only: size_union)
  also have "\<dots> = size (mset [0..<mm_fresh m])"
    using assms by (simp only: owns_def)
  finally show ?thesis by simp
qed

text \<open>At rest, ownership says that every generator is in exactly one place.\<close>

lemma owns_unique:
  assumes "owns [] m" "mm_exp m = None"
  shows "distinct (in_slots m @ deleted m)" "set (in_slots m) \<union> set (deleted m) = {..<mm_fresh m}"
proof -
  from assms have e: "mset (in_slots m @ deleted m) = mset [0..<mm_fresh m]"
    by (simp add: owns_def in_expired_def)
  show "distinct (in_slots m @ deleted m)"
    unfolding mset_eq_imp_distinct_iff [OF e] by (rule distinct_upt)
  have "set (in_slots m @ deleted m) = set [0..<mm_fresh m]" by (rule mset_eq_setD [OF e])
  then show "set (in_slots m) \<union> set (deleted m) = {..<mm_fresh m}"
    by (simp only: set_append set_upt atLeast0LessThan)
qed

section \<open>Operations with quiet methods\<close>

text \<open>\<open>own X f m\<close>: additionally, \<open>f\<close> generators have been allocated so far.\<close>

definition own :: "nat list \<Rightarrow> nat \<Rightarrow> motion \<Rightarrow> bool" where
  "own X f m \<longleftrightarrow> owns X m \<and> mm_fresh m = f"

text \<open>Only the log and the list of expired generators differ.\<close>

definition stays :: "motion \<Rightarrow> motion \<Rightarrow> bool" where
  "stays m m' \<longleftrightarrow> mm_impl m' = mm_impl m \<and> mm_top m' = mm_top m \<and> mm_need m' = mm_need m"

lemma stays_stacked: "stays m m' \<Longrightarrow> stacked m' = stacked m"
  by (simp add: stays_def stacked_def shaped_def)

lemma stays_shaped: "stays m m' \<Longrightarrow> shaped m' = shaped m"
  by (simp add: stays_def shaped_def)

lemma own_log: "deletes e = [] \<Longrightarrow> own X f (log_ev e m) = own X f m"
  by (simp add: own_def owns_log)

lemma own_cong:
  "mm_impl m' = mm_impl m \<Longrightarrow> mm_exp m' = mm_exp m \<Longrightarrow> mm_log m' = mm_log m \<Longrightarrow> mm_fresh m' = mm_fresh m
    \<Longrightarrow> own X f m' = own X f m"
  using owns_cong [of m' m X] by (simp add: own_def)

lemma own_need [simp]: "own X f (m\<lparr>mm_need := v\<rparr>) = own X f m"
  by (rule own_cong) simp_all

lemma own_flag [simp]: "own X f (m\<lparr>mm_flag := v\<rparr>) = own X f m"
  by (rule own_cong) simp_all

lemma own_top [simp]: "own X f (m\<lparr>mm_top := v\<rparr>) = own X f m"
  by (rule own_cong) simp_all

lemma own_new: "own X f m \<Longrightarrow> own (f # X) (Suc f) (m\<lparr>mm_fresh := Suc (mm_fresh m)\<rparr>)"
  using owns_new [of X m] by (auto simp: own_def)

lemma own_fresh: "own X f m \<Longrightarrow> mm_fresh m = f"
  by (simp add: own_def)

lemma hook_event_deletes [simp]: "deletes (hook_event h g) = []"
  by (cases h) simp_all

text \<open>How an operation disposes of a generator it has taken out of a slot.\<close>

definition disposes :: "(mgen option \<Rightarrow> motion \<Rightarrow> motion_error + motion) \<Rightarrow> bool" where
  "disposes del \<longleftrightarrow> (\<forall>g X f m. own (addr g @ X) f m \<longrightarrow> gives (\<lambda>m'. own X f m' \<and> stays m m') (del (Some g) m))"

lemma disposes_DelayedDelete: "disposes DelayedDelete"
  unfolding disposes_def
proof (intro allI impI)
  fix g X f m
  assume m: "own (addr g @ X) f m"
  show "gives (\<lambda>m'. own X f m' \<and> stays m m') (DelayedDelete (Some g) m)"
  proof (cases g)
    case si_idleMovement
    with m show ?thesis by (simp add: DelayedDelete_def isStatic_def stays_def)
  next
    case (MG a k)
    with m owns_delay [of g X m] show ?thesis
      by (simp add: DelayedDelete_def isStatic_def stays_def own_def)
  qed
qed

lemma pop_owns:
  assumes s: "stacked m" "mm_top m > 0" and ow: "own X f m"
  shows "\<exists>g m'. mm_topv m = Inr (Some g) \<and> mm_pop m = Inr m' \<and> own (addr g @ X) f m' \<and> stacked m'
    \<and> mm_top m' < mm_top m"
proof -
  let ?k = "nat (mm_top m)"
  from s obtain g where g: "mm_impl m ! ?k = Some g" by (auto simp: stacked_def)
  have k: "?k < length (mm_impl m)" using s by (auto simp: stacked_def shaped_def)
  obtain t where t: "mm_pop m = Inr (m\<lparr>mm_impl := (mm_impl m)[?k := None], mm_top := t\<rparr>)" "t < mm_top m"
      "stacked (m\<lparr>mm_impl := (mm_impl m)[?k := None], mm_top := t\<rparr>)"
    using mm_pop_stacked [OF s] by blast
  have "own (addr g @ X) f (m\<lparr>mm_impl := (mm_impl m)[?k := None]\<rparr>)"
    using owns_take [OF _ k g] ow by (simp add: own_def)
  then have "own (addr g @ X) f (m\<lparr>mm_impl := (mm_impl m)[?k := None], mm_top := t\<rparr>)" by simp
  with t g s show ?thesis by (auto simp: stacked_topv)
qed

lemma pop_while_owns:
  assumes del: "disposes del"
  shows "stacked m \<Longrightarrow> own X f m \<Longrightarrow> mm_top m \<le> int n \<Longrightarrow>
    gives (\<lambda>m'. own X f m' \<and> stacked m' \<and> mm_top m' = 0) (pop_while n 1 del m)"
proof (induction n arbitrary: m)
  case 0
  then show ?case by (auto simp: pop_while.simps mm_size_def stacked_def)
next
  case (Suc n)
  show ?case
  proof (cases "mm_top m > 0")
    case False
    with Suc.prems show ?thesis by (auto simp: pop_while_round mm_size_def stacked_def)
  next
    case True
    obtain g m' where p: "mm_topv m = Inr (Some g)" "mm_pop m = Inr m'" "own (addr g @ X) f m'" "stacked m'"
        "mm_top m' < mm_top m"
      using pop_owns [OF Suc.prems(1) True Suc.prems(2)] by blast
    with del have "gives (\<lambda>x. own X f x \<and> stays m' x) (del (Some g) m')" by (simp add: disposes_def)
    then have "gives (\<lambda>m'. own X f m' \<and> stacked m' \<and> mm_top m' = 0)
        (sbind (del (Some g) m') (pop_while n 1 del))"
    proof (rule gives_bind)
      fix x
      assume x: "own X f x \<and> stays m' x"
      with p Suc.prems(3) have "mm_top x \<le> int n" by (simp add: stays_def)
      with x p show "gives (\<lambda>m'. own X f m' \<and> stacked m' \<and> mm_top m' = 0) (pop_while n 1 del x)"
        by (intro Suc.IH) (auto simp: stays_stacked)
    qed
    with p True show ?thesis by (simp add: pop_while_round mm_size_def pop_round_def)
  qed
qed

text \<open>\<open>tally f m\<close>: no generator is in flight, and at most \<open>f\<close> have been allocated.\<close>

definition tally :: "nat \<Rightarrow> motion \<Rightarrow> bool" where
  "tally f m \<longleftrightarrow> owns [] m \<and> mm_fresh m \<le> f"

text \<open>The calls that always return: \<open>Initialize\<close> never does, a knock back searches the map.\<close>

fun tame :: "mcall \<Rightarrow> bool" where
  "tame CInitialize = False"
| "tame (CKnockback x y h v) = False"
| "tame c = True"

text \<open>Inside an update, and at rest.\<close>

definition runs :: "motion \<Rightarrow> bool" where
  "runs m \<longleftrightarrow> in_update m \<or> resting m"

text \<open>The methods of the generators only report themselves.\<close>

locale quiet_hooks =
  fixes cb :: hooks
  assumes quiet: "cb h g m = Inr (log_ev (hook_event h g) m)"
begin

lemma quiet_ok: "hooks_ok cb"
  by unfold_locales (simp add: quiet grows_log)

lemma hook_own: "own X f m \<Longrightarrow> gives (\<lambda>m'. own X f m' \<and> stays m m') (cb h g m)"
  by (simp add: quiet own_log stays_def)

lemma disposes_DirectDelete: "disposes (DirectDelete cb)"
  unfolding disposes_def
proof (intro allI impI)
  fix g X f m
  assume m: "own (addr g @ X) f m"
  then have "own X f (log_ev (EvDelete g) (log_ev (EvFinalize g) m))"
    using owns_delete [of g X "log_ev (EvFinalize g) m"] by (simp add: own_def owns_log)
  with m show "gives (\<lambda>m'. own X f m' \<and> stays m m') (DirectDelete cb (Some g) m)"
    by (cases g) (simp_all add: DirectDelete_def isStatic_def quiet stays_def)
qed

lemma Mutate_owns:
  assumes sh: "shaped m" and m: "own (addr g @ X) f m"
  shows "gives (own X f) (Mutate cb g s m)"
proof -
  let ?k = "slot_ix s"
  let ?Q = "\<lambda>x. own (addr g @ X) f x \<and> ?k < length (mm_impl x) \<and> mm_impl x ! ?k = None"
  have k: "?k < length (mm_impl m)" using sh by (simp add: shaped_def)
  have del: "gives ?Q (del (Some c) (m\<lparr>mm_impl := (mm_impl m)[?k := None]\<rparr>))"
    if "disposes del" and c: "mm_impl m ! ?k = Some c" for del c
  proof -
    have "own (addr c @ addr g @ X) f (m\<lparr>mm_impl := (mm_impl m)[?k := None]\<rparr>)"
      using owns_take [OF _ k c] m by (simp add: own_def)
    with that(1) have "gives (\<lambda>m'. own (addr g @ X) f m' \<and> stays (m\<lparr>mm_impl := (mm_impl m)[?k := None]\<rparr>) m')
        (del (Some c) (m\<lparr>mm_impl := (mm_impl m)[?k := None]\<rparr>))"
      unfolding disposes_def by blast
    then show ?thesis
      by (rule gives_mono) (use k in \<open>simp add: stays_def\<close>)
  qed
  have first: "gives ?Q (case mm_impl m ! ?k of
      Some cur \<Rightarrow>
        let m' = m\<lparr>mm_impl := (mm_impl m)[?k := None]\<rparr> in
        if mm_top m' = int ?k \<and> has_flag (mm_flag m') MMCF_UPDATE
        then DelayedDelete (Some cur) m' else DirectDelete cb (Some cur) m'
    | None \<Rightarrow> Inr (if mm_top m < int ?k then m\<lparr>mm_top := int ?k\<rparr> else m))"
    using del [OF disposes_DelayedDelete] del [OF disposes_DirectDelete] m k
    by (cases "mm_impl m ! ?k") (simp_all add: Let_def)
  have second: "gives (own X f) (let m' = x\<lparr>mm_impl := (mm_impl x)[?k := Some g]\<rparr> in
             if mm_top m' > int ?k then Inr (m'\<lparr>mm_need := (mm_need m')[?k := True]\<rparr>)
             else cb HInit g (m'\<lparr>mm_need := (mm_need m')[?k := False]\<rparr>))"
    if x: "?Q x" for x
  proof -
    have "own X f (x\<lparr>mm_impl := (mm_impl x)[?k := Some g]\<rparr>)"
      using owns_put [of g X x ?k] x by (simp add: own_def)
    then show ?thesis by (simp add: Let_def quiet own_log)
  qed
  show ?thesis
    unfolding Mutate_def Let_def [of "slot_ix s"] by (rule gives_bind [OF first second])
qed

lemma mutate_new_owns: "shaped m \<Longrightarrow> own X f m \<Longrightarrow> gives (own X (Suc f)) (mutate_new cb k s m)"
proof -
  assume sh: "shaped m" and m: "own X f m"
  have "own (addr (MG (mm_fresh m) k) @ X) (Suc f) (m\<lparr>mm_fresh := Suc (mm_fresh m)\<rparr>)"
    using own_new [OF m] own_fresh [OF m] by simp
  with sh show ?thesis
    unfolding mutate_new_def by (intro Mutate_owns) (simp add: shaped_def)
qed

lemma settle_owns:
  assumes "stacked m" "own X f m"
  shows "gives (own X f)
    (sbind (needInitTop m) (\<lambda>i. if i then InitTop cb m else if reset then ResetTop cb m else Inr m))"
proof -
  from assms obtain g where "mm_topv m = Inr (Some g)" by (auto simp: stacked_topv) (auto simp: stacked_def)
  moreover have "0 \<le> mm_top m" "mm_top m < 3" using assms by (auto simp: stacked_def shaped_def)
  ultimately show ?thesis
    using assms by (simp add: stacked_need InitTop_def ResetTop_def call_hook_def quiet own_log MAX_MOTION_SLOT_def)
qed

lemma DirectClean_owns:
  assumes m: "stacked m" "own X f m" and n: "2 \<le> n"
  shows "gives (own X f) (DirectClean n cb reset m)"
proof -
  have "mm_top m \<le> int n" using m n by (auto simp: stacked_def shaped_def)
  then show ?thesis
    unfolding DirectClean_def
    by (rule gives_bind [OF pop_while_owns [OF disposes_DirectDelete m]]) (elim conjE, rule settle_owns)
qed

lemma DelayedClean_owns:
  assumes m: "stacked m" "own X f m" and n: "2 \<le> n"
  shows "gives (own X f) (DelayedClean n m)"
proof -
  have "mm_top m \<le> int n" using m n by (auto simp: stacked_def shaped_def)
  then show ?thesis
    unfolding DelayedClean_def
    by (intro gives_mono [OF pop_while_owns [OF disposes_DelayedDelete m]]) auto
qed

text \<open>One generator expired, at once or later.\<close>

lemma expire_owns:
  assumes m: "stacked m" "own X f m" and del: "disposes del"
  shows "gives (\<lambda>x. own X f x \<and> stacked x) (if mm_size m > 1
    then sbind (mm_topv m) (\<lambda>cur. sbind (mm_pop m) (del cur)) else Inr m)"
proof (cases "mm_top m > 0")
  case False
  with m show ?thesis by (simp add: mm_size_def)
next
  case True
  obtain g m' where p: "mm_topv m = Inr (Some g)" "mm_pop m = Inr m'" "own (addr g @ X) f m'" "stacked m'"
    using pop_owns [OF m(1) True m(2)] by blast
  with del have "gives (\<lambda>x. own X f x \<and> stays m' x) (del (Some g) m')" by (simp add: disposes_def)
  then have "gives (\<lambda>x. own X f x \<and> stacked x) (del (Some g) m')"
    by (rule gives_mono) (use p stays_stacked in auto)
  with p True show ?thesis by (simp add: mm_size_def)
qed

lemma DelayedExpire_owns: "stacked m \<Longrightarrow> own X f m \<Longrightarrow> gives (own X f) (DelayedExpire m)"
  unfolding DelayedExpire_def
  by (rule gives_bind [OF expire_owns [OF _ _ disposes_DelayedDelete]]) (auto simp: skip_null_filled)

lemma DirectExpire_owns:
  assumes m: "stacked m" "own X f m"
  shows "gives (own X f) (DirectExpire n cb reset m)"
  unfolding DirectExpire_def
proof (rule gives_bind [OF expire_owns [OF m disposes_DirectDelete]])
  fix x
  assume x: "own X f x \<and> stacked x"
  then have "\<not> mm_empty x" by (simp add: mm_empty_def stacked_def)
  with x settle_owns show "gives (own X f) (sbind (skip_null x) (\<lambda>m. if mm_empty m then mm_Initialize n cb m
       else sbind (needInitTop m) (\<lambda>i. if i then InitTop cb m else if reset then ResetTop cb m else Inr m)))"
    by (simp add: skip_null_filled)
qed

lemma own_tally: "own [] f m \<Longrightarrow> f \<le> f' \<Longrightarrow> tally f' m"
  by (simp add: own_def tally_def)

lemma new_tally: "shaped m \<Longrightarrow> own [] f m \<Longrightarrow> gives (tally (Suc f)) (mutate_new cb k s m)"
  by (rule gives_mono [OF mutate_new_owns]) (auto intro: own_tally)

lemma new_log_tally:
  "shaped m \<Longrightarrow> own [] f m \<Longrightarrow> deletes e = [] \<Longrightarrow> gives (tally (Suc f)) (mutate_new cb k s (log_ev e m))"
  by (rule new_tally) (simp_all add: own_log)

lemma new_log2_tally:
  "shaped m \<Longrightarrow> own [] f m \<Longrightarrow> deletes e = [] \<Longrightarrow> deletes e' = []
    \<Longrightarrow> gives (tally (Suc f)) (mutate_new cb k s (log_ev e (log_ev e' m)))"
  by (rule new_tally) (simp_all add: own_log)

lemma MoveIdle_owns:
  assumes sh: "shaped m" and m: "own [] f m"
  shows "gives (tally (Suc f)) (MoveIdle cb m)"
proof -
  have 1: "gives (tally (Suc f)) (Mutate cb si_idleMovement MOTION_SLOT_IDLE m)"
    using gives_mono [OF Mutate_owns [OF sh, of si_idleMovement "[]" f MOTION_SLOT_IDLE] own_tally] m by simp
  have 2: "\<not> mm_empty m \<Longrightarrow> mm_topv m = Inr (mm_impl m ! nat (mm_top m))"
    using sh by (simp add: mm_topv_def impl_at_def mm_empty_def MAX_MOTION_SLOT_def shaped_def)
  show ?thesis
    by (cases "mm_empty m"; cases "mm_impl m ! nat (mm_top m) = Some si_idleMovement")
      (simp_all add: MoveIdle_def 1 2 own_tally [OF m])
qed

lemma speed_loop_owns: "shaped m \<Longrightarrow> own [] f m \<Longrightarrow> i + k = 3 \<Longrightarrow> gives (own [] f) (speed_loop cb k i m)"
proof (induction k arbitrary: i m)
  case 0
  then show ?case by (simp add: shaped_def)
next
  case (Suc k)
  have "gives (\<lambda>x. shaped x \<and> own [] f x) (case mm_impl m ! i of None \<Rightarrow> Inr m | Some g \<Rightarrow> cb HSpeed g m)"
    using Suc.prems by (cases "mm_impl m ! i") (simp_all add: quiet own_log)
  then have "gives (own [] f) (sbind (case mm_impl m ! i of None \<Rightarrow> Inr m | Some g \<Rightarrow> cb HSpeed g m)
      (speed_loop cb k (Suc i)))"
    by (rule gives_bind) (use Suc in auto)
  with Suc.prems show ?case by (simp add: impl_at_def MAX_MOTION_SLOT_def)
qed

lemma speed_owns: "shaped m \<Longrightarrow> own [] f m \<Longrightarrow> gives (tally (Suc f)) (propagateSpeedChange cb m)"
  unfolding propagateSpeedChange_def
  by (rule gives_mono [OF speed_loop_owns]) (auto simp: MAX_MOTION_SLOT_def intro: own_tally)

lemma MoveFall_owns: "shaped m \<Longrightarrow> own [] f m \<Longrightarrow> gives (tally (Suc f)) (MoveFall cb i m)"
  by (cases "ow_pos (mm_own m)")
    (simp add: MoveFall_def Let_def own_tally new_log_tally new_log2_tally)

lemma move_owns:
  assumes m: "shaped m" "own [] f m" and c: "is_move c" "tame c"
  shows "gives (tally (Suc f)) (mm_call n cb c m)"
  using c
  by (cases c)
    (simp_all add: m MoveIdle_owns speed_owns MoveFall_owns new_tally new_log_tally new_log2_tally
      own_tally [OF m(2)] MoveRandom_def MoveConfused_def MoveChase_def
      MoveFollow_def MovePoint_def MoveLand_def MoveTakeoff_def MoveJumpTo_def MoveJump_def MoveCharge_def Let_def
      MoveSeekAssistance_def MoveSeekAssistanceDistract_def MoveFleeing_def MoveTaxiFlight_def
      MoveDistract_def MovePath_def MoveRotate_def split: prod.split option.split)

lemma runs_stacked: "runs m \<Longrightarrow> stacked m"
  by (auto simp: runs_def in_update_def resting_def standing_alt)

lemma Clear_owns: "runs m \<Longrightarrow> own [] f m \<Longrightarrow> 2 \<le> n \<Longrightarrow> gives (own [] f) (mm_Clear n cb r m)"
  using DirectClean_owns [of m "[]" f n] DelayedClean_owns [of "note_reset r m" "[]" f n] runs_stacked [of m]
  by (simp add: mm_Clear_def note_reset_def stacked_def shaped_def)

lemma Expired_owns: "runs m \<Longrightarrow> own [] f m \<Longrightarrow> gives (own [] f) (MovementExpired n cb r m)"
  using DirectExpire_owns [of m "[]" f] DelayedExpire_owns [of "note_reset r m" "[]" f] runs_stacked [of m]
  by (simp add: MovementExpired_def note_reset_def stacked_def shaped_def)

lemma call_runs:
  assumes "runs m" "c \<noteq> CInitialize"
  shows "safe_to (\<lambda>m'. in_update m' = in_update m \<and> runs m') (mm_call n cb c m)"
proof (cases "in_update m")
  case True
  then show ?thesis
    by (rule safe_to_mono [OF hooks_ok.call_in_update [OF quiet_ok _ assms(2)]]) (use True in \<open>simp add: runs_def\<close>)
next
  case False
  then have r: "settled None m" using assms(1) by (simp add: runs_def resting_settled)
  show ?thesis
    by (rule safe_to_mono [OF hooks_ok.call_settled [OF quiet_ok r assms(2)]])
      (use False in \<open>auto simp: runs_def resting_settled settled_def at_ease_def in_update_def\<close>)
qed

lemma home_owns:
  assumes m: "runs m" "own [] f m" "2 \<le> n"
  shows "gives (tally (Suc f)) (MoveTargetedHome n cb m)"
proof -
  have "safe_to (\<lambda>m'. in_update m' = in_update m \<and> runs m') (mm_Clear n cb False m)"
    using call_runs [OF m(1), of "CClear False" n] by simp
  from gives_safe [OF Clear_owns [OF m] this]
  show ?thesis
    unfolding MoveTargetedHome_def
    by (rule gives_bind)
      (auto simp: stacked_shaped runs_stacked new_tally intro: own_tally split: option.split)
qed

lemma call_owns:
  assumes m: "runs m" "own [] f m" "2 \<le> n" and c: "tame c"
  shows "gives (\<lambda>m'. tally (Suc f) m' \<and> in_update m' = in_update m \<and> runs m') (mm_call n cb c m)"
proof -
  have "gives (tally (Suc f)) (mm_call n cb c m)"
  proof (cases "is_move c")
    case True
    with m c show ?thesis by (auto intro: move_owns stacked_shaped runs_stacked)
  next
    case False
    have weak: "gives (own [] f) r \<Longrightarrow> gives (tally (Suc f)) r" for r
      by (erule gives_mono) (auto intro: own_tally)
    have "gives (tally (Suc f)) (mm_Clear n cb r m)" for r by (rule weak [OF Clear_owns [OF m]])
    moreover have "gives (tally (Suc f)) (MovementExpired n cb r m)" for r
      by (rule weak [OF Expired_owns [OF m(1,2)]])
    ultimately show ?thesis using False c home_owns [OF m] by (cases c) simp_all
  qed
  moreover have "c \<noteq> CInitialize" using c by auto
  ultimately show ?thesis by (intro gives_safe call_runs m(1))
qed

lemma run_calls_owns:
  "in_update m \<Longrightarrow> tally f m \<Longrightarrow> 2 \<le> n \<Longrightarrow> list_all tame cs
    \<Longrightarrow> gives (\<lambda>m'. tally (f + length cs) m' \<and> in_update m') (run_calls n cb cs m)"
proof (induction cs arbitrary: m f)
  case (Cons c cs)
  let ?f = "mm_fresh m"
  have m: "runs m" "own [] ?f m" "?f \<le> f"
    using Cons.prems by (simp_all add: runs_def tally_def own_def)
  have "gives (\<lambda>m'. tally (f + length (c # cs)) m' \<and> in_update m') (sbind (mm_call n cb c m) (run_calls n cb cs))"
  proof (rule gives_bind [OF call_owns [OF m(1,2) Cons.prems(3)]])
    fix x
    assume "tally (Suc ?f) x \<and> in_update x = in_update m \<and> runs x"
    with Cons.prems m(3) have "in_update x" "tally (Suc f) x" by (auto simp: tally_def)
    with Cons.prems Cons.IH [of x "Suc f"]
    show "gives (\<lambda>m'. tally (f + length (c # cs)) m' \<and> in_update m') (run_calls n cb cs x)" by simp
  qed (use Cons.prems in simp)
  then show ?case by simp
qed simp

lemma log_exp: "log_ev e (m\<lparr>mm_exp := v\<rparr>) = (log_ev e m)\<lparr>mm_exp := v\<rparr>"
  by (simp add: log_ev_def)

lemma expire_loop_owns:
  "mm_exp m = Some l \<Longrightarrow> own (concat (map addr (drop i l))) f (m\<lparr>mm_exp := None\<rparr>) \<Longrightarrow> length l \<le> n + i \<Longrightarrow>
    gives (\<lambda>m'. own [] f (m'\<lparr>mm_exp := None\<rparr>) \<and> stays m m') (expire_loop n cb i m)"
proof (induction n arbitrary: i m)
  case 0
  then show ?case by (simp add: stays_def)
next
  case (Suc n)
  show ?case
  proof (cases "i < length l")
    case False
    with Suc.prems show ?thesis by (simp add: stays_def)
  next
    case True
    let ?g = "l ! i" and ?X = "concat (map addr (drop (Suc i) l))"
    let ?m = "if isStatic ?g then m else log_ev (EvDelete ?g) (log_ev (EvFinalize ?g) m)"
    have del: "DirectDelete cb (Some ?g) m = Inr ?m" by (simp add: DirectDelete_def quiet)
    have e: "mm_exp ?m = Some l" using Suc.prems by simp
    have "own (addr ?g @ ?X) f (m\<lparr>mm_exp := None\<rparr>)"
      using Suc.prems(2) True by (simp add: Cons_nth_drop_Suc [symmetric])
    then have x: "own ?X f (?m\<lparr>mm_exp := None\<rparr>)"
      using owns_delete [of ?g ?X "log_ev (EvFinalize ?g) (m\<lparr>mm_exp := None\<rparr>)"]
      by (cases ?g) (simp_all add: isStatic_def own_def owns_log log_exp [symmetric])
    have "gives (\<lambda>m'. own [] f (m'\<lparr>mm_exp := None\<rparr>) \<and> stays ?m m') (expire_loop n cb (Suc i) ?m)"
      by (rule Suc.IH [OF e x]) (use Suc.prems in simp)
    then have "gives (\<lambda>m'. own [] f (m'\<lparr>mm_exp := None\<rparr>) \<and> stays m m') (expire_loop n cb (Suc i) ?m)"
      by (rule gives_mono) (auto simp: stays_def split: if_splits)
    with True Suc.prems(1) del show ?thesis by simp
  qed
qed

lemma finish_owns:
  assumes s: "stacked m" and m: "tally f m" and n: "f \<le> n"
  shows "gives (tally f) (finish_expired n cb m)"
proof (cases "mm_exp m")
  case None
  with m show ?thesis by (simp add: finish_expired_def)
next
  case (Some l)
  let ?f = "mm_fresh m"
  have "owns [] m" "?f \<le> f" using m by (simp_all add: tally_def)
  then have l: "length l \<le> n + 0" using owns_bound [OF _ Some, of "[]"] n by simp
  have X: "own (concat (map addr (drop 0 l))) ?f (m\<lparr>mm_exp := None\<rparr>)"
    using m Some by (simp add: own_def owns_def tally_def in_expired_def in_slots_def deleted_def ac_simps)
  have "gives (tally f) (sbind (expire_loop n cb 0 m) (\<lambda>m.
        let m = m\<lparr>mm_exp := None\<rparr> in
        sbind (if mm_empty m then mm_Initialize n cb m
               else sbind (needInitTop m) (\<lambda>i. if i then InitTop cb m
                 else if has_flag (mm_flag m) MMCF_RESET then ResetTop cb m else Inr m)) (\<lambda>m.
        Inr (m\<lparr>mm_flag := mm_flag m AND NOT MMCF_RESET\<rparr>))))"
  proof (rule gives_bind [OF expire_loop_owns [OF Some X l]])
    fix x :: motion
    let ?x = "x\<lparr>mm_exp := None\<rparr>"
    assume x: "own [] ?f ?x \<and> stays m x"
    then have st: "stacked ?x" using s by (simp add: stays_stacked stacked_def stays_def shaped_def)
    then have ne: "\<not> mm_empty ?x" by (simp add: mm_empty_def stacked_def)
    have "?f \<le> f" using m by (simp add: tally_def)
    then have "gives (tally f) (sbind (sbind (needInitTop ?x) (\<lambda>i. if i then InitTop cb ?x
        else if has_flag (mm_flag ?x) MMCF_RESET then ResetTop cb ?x else Inr ?x)) (\<lambda>m.
        Inr (m\<lparr>mm_flag := mm_flag m AND NOT MMCF_RESET\<rparr>)))"
      by (intro gives_bind [OF settle_owns [OF st]]) (use x in \<open>auto intro: own_tally\<close>)
    with ne show "gives (tally f) (let m = ?x in
        sbind (if mm_empty m then mm_Initialize n cb m
               else sbind (needInitTop m) (\<lambda>i. if i then InitTop cb m
                 else if has_flag (mm_flag m) MMCF_RESET then ResetTop cb m else Inr m)) (\<lambda>m.
        Inr (m\<lparr>mm_flag := mm_flag m AND NOT MMCF_RESET\<rparr>)))"
      by (simp add: Let_def)
  qed
  with Some show ?thesis by (simp add: finish_expired_def)
qed

lemma tally_frame:
  "mm_impl m' = mm_impl m \<Longrightarrow> mm_exp m' = mm_exp m \<Longrightarrow> mm_log m' = mm_log m \<Longrightarrow> mm_fresh m' = mm_fresh m
    \<Longrightarrow> tally f m' = tally f m"
  using owns_cong [of m' m "[]"] by (simp add: tally_def)

lemma tally_update [simp]: "tally f (set_update m) = tally f m" "tally f (clear_update m) = tally f m"
  by (rule tally_frame; simp add: set_update_def clear_update_def)+

lemma UpdateMotion_owns:
  assumes upd: "\<And>d g m. in_update m \<Longrightarrow> tally f m \<Longrightarrow>
      gives (\<lambda>r. in_update (snd r) \<and> tally (f + k) (snd r)) (upd d g m)"
    and m: "resting m" "tally f m" and n: "f + k \<le> n"
  shows "gives (tally (f + k)) (UpdateMotion n cb upd diff m)"
proof (cases "ow_root_or_stun (mm_own m)")
  case True
  with m show ?thesis by (simp add: UpdateMotion_def tally_def)
next
  case False
  have u: "in_update (set_update m)" by (rule set_update_in_update [OF m(1)])
  then obtain g where tv: "mm_topv (set_update m) = Inr (Some g)"
    using stacked_topv [of "set_update m"] by (auto simp: in_update_def standing_alt) (auto simp: stacked_def)
  have ne: "\<not> mm_empty m" using m by (simp add: mm_empty_def resting_def standing_def)
  have ut: "tally f (set_update m)" using m(2) by simp
  have "gives (tally (f + k)) (sbind (upd diff g (set_update m)) (\<lambda>(go_on, m).
        sbind (if go_on then Inr (clear_update m)
               else MovementExpired n cb True (clear_update m)) (\<lambda>m.
        sbind (finish_expired n cb m) (\<lambda>m. Inr (log_ev EvUnderwater m)))))"
  proof (rule gives_bind [OF upd [OF u ut]], clarify)
    fix go_on :: bool and x
    let ?c = "clear_update x"
    assume "in_update (snd (go_on, x))" and t: "tally (f + k) (snd (go_on, x))"
    then have x: "at_ease (mm_exp x) ?c"
      by (simp add: at_ease_def clear_update_def in_update_def standing_alt stacked_def shaped_def)
    then have st: "stacked ?c" and nu: "\<not> updating ?c" by (simp_all add: at_ease_def)
    have "gives (\<lambda>m. tally (f + k) m \<and> stacked m)
        (if go_on then Inr ?c else MovementExpired n cb True ?c)"
    proof (cases go_on)
      case True
      with t st show ?thesis by simp
    next
      case False
      have "own [] (mm_fresh x) x" using t by (simp add: own_def tally_def)
      then have "own [] (mm_fresh x) ?c" by (simp add: clear_update_def)
      with st have "gives (own [] (mm_fresh x)) (DirectExpire n cb True ?c)" by (intro DirectExpire_owns)
      from gives_safe [OF this hooks_ok.DirectExpire_settled [OF quiet_ok x]]
      have "gives (\<lambda>m. tally (f + k) m \<and> stacked m) (DirectExpire n cb True ?c)"
        by (rule gives_mono) (use t in \<open>auto simp: settled_def at_ease_def tally_def own_def\<close>)
      with False nu show ?thesis by (simp add: MovementExpired_def)
    qed
    then show "gives (tally (f + k)) (sbind (if go_on then Inr ?c
               else MovementExpired n cb True ?c) (\<lambda>m.
        sbind (finish_expired n cb m) (\<lambda>m. Inr (log_ev EvUnderwater m))))"
    proof (rule gives_bind)
      fix y
      assume "tally (f + k) y \<and> stacked y"
      then have "gives (tally (f + k)) (finish_expired n cb y)" using finish_owns n by blast
      then show "gives (tally (f + k)) (sbind (finish_expired n cb y) (\<lambda>m. Inr (log_ev EvUnderwater m)))"
        by (rule gives_bind) (simp add: tally_def owns_log)
    qed
  qed
  with False tv ne show ?thesis by (simp add: UpdateMotion_def)
qed

lemma InitDefault_owns: "gives (tally 1) (InitDefault cb (mm_new ow))"
proof -
  have sh: "shaped (mm_new ow)" by (simp add: shaped_def mm_new_def MAX_MOTION_SLOT_def lt3_cases)
  have m: "own [] 0 (mm_new ow)"
    by (simp add: own_def owns_def mm_new_def in_slots_def opt_addr_def in_expired_def deleted_def
        MAX_MOTION_SLOT_def numeral_3_eq_3)
  have "gives (own [] 0) (Mutate cb si_idleMovement MOTION_SLOT_IDLE (mm_new ow))"
    by (rule Mutate_owns [OF sh]) (simp add: m)
  then have 1: "gives (tally 1) (Mutate cb si_idleMovement MOTION_SLOT_IDLE (mm_new ow))"
    by (rule gives_mono) (auto intro: own_tally)
  have 2: "gives (tally 1) (mutate_new cb k MOTION_SLOT_IDLE (mm_new ow))" for k
    using new_tally [OF sh m] by simp
  show ?thesis using 1 2 by (auto simp: InitDefault_def split: option.split)
qed

end

lemma quiet_hooks_world: "quiet_hooks (world (Suc n) (\<lambda>_ _ _. []))"
  by unfold_locales simp

interpretation silent: quiet_hooks "world (Suc n) (\<lambda>_ _ _. [])" for n
  by (rule quiet_hooks_world)

end
