(* ===== verification/Motion_Props.thy ===== *)
theory Motion_Props
  imports Motion_Memory
begin

text \<open>
  The properties of the motion master: it never reads outside its slots, the generator it runs
  is initialised, no generator is leaked or deleted twice, and the situations in which it
  breaks these promises.
\<close>

lemma op_resting:
  assumes "moving sc" "no_init us" "p \<noteq> OpCall CInitialize" "resting m"
  shows "safe_to resting (motion_op n sc us p m)"
proof -
  have ok: "hooks_ok (world n sc)" using assms(1) by (rule hooks_ok_world)
  show ?thesis
  proof (cases p)
    case (OpCall c)
    with assms show ?thesis
      using hooks_ok.call_settled [OF ok, of None m c] by (simp add: resting_is_settled)
  next
    case (OpUpdate diff)
    with hooks_ok.UpdateMotion_resting [OF ok world_update_safe [OF assms(1,2)] assms(4)]
    show ?thesis by simp
  qed
qed

lemma run_resting:
  "moving sc \<Longrightarrow> no_init us \<Longrightarrow> OpCall CInitialize \<notin> set ps \<Longrightarrow> resting m
    \<Longrightarrow> safe_to resting (motion_run n sc us ps m)"
proof (induction ps arbitrary: m)
  case (Cons p ps)
  then show ?case by (auto intro: safe_to_bind [OF op_resting])
qed simp

text \<open>
  C15: let a unit receive any calls but \<open>Initialize\<close>, and let the \<open>Update\<close> methods of its generators
  make any calls but \<open>Initialize\<close>, clearing and expiring the stack included; let the other methods,
  those that initialize, reset and finalize a generator or tell it a change of speed, with the AI
  they inform, start movements in any slot but neither clear nor expire the stack (\<open>moving\<close>). Then
  the motion master never reads outside its slots, never calls a null generator and never fails its
  assertion; at rest its default generator is in place, nothing lies above the top slot, and the
  generator on top has been initialised. The restriction on the other methods is needed:
  \<open>clear_in_finalize_loses\<close> below is a \<open>Clear\<close> from \<open>Finalize\<close> that leaves a generator above the top.
\<close>

theorem motion_life_safe:
  assumes "moving sc" "no_init us" "OpCall CInitialize \<notin> set ps"
  shows "case motion_life n sc us ow ps of Inl e \<Rightarrow> e = OutOfFuel
    | Inr m \<Rightarrow> length (mm_impl m) = 3 \<and> 0 \<le> mm_top m \<and> mm_top m < 3 \<and> mm_impl m ! 0 \<noteq> None
        \<and> mm_impl m ! nat (mm_top m) \<noteq> None \<and> \<not> mm_need m ! nat (mm_top m)
        \<and> (\<forall>i<3. mm_top m < int i \<longrightarrow> mm_impl m ! i = None) \<and> mm_exp m = None"
proof -
  have "safe_to resting (motion_life n sc us ow ps)"
    unfolding motion_life_def
    by (rule safe_to_bind [OF hooks_ok.InitDefault_resting [OF hooks_ok_world] run_resting])
      (use assms in auto)
  then show ?thesis
    by (auto simp: safe_to_def resting_def standing_def shaped_def split: sum.splits)
qed


section \<open>Every generator is in one place\<close>

abbreviation silent :: script where
  "silent \<equiv> \<lambda>_ _ _. []"

text \<open>The \<open>Update\<close> methods make at most \<open>k\<close> calls, and only calls that return.\<close>

definition tame_updates :: "nat \<Rightarrow> update_script \<Rightarrow> bool" where
  "tame_updates k us \<longleftrightarrow>
     (\<forall>d g m. list_all tame (fst (us d g m)) \<and> length (fst (us d g m)) \<le> k)"

fun tame_op :: "mop \<Rightarrow> bool" where
  "tame_op (OpCall c) = tame c"
| "tame_op (OpUpdate d) = True"

lemma tame_updates_no_init: "tame_updates k us \<Longrightarrow> no_init us"
proof -
  have "list_all tame cs \<Longrightarrow> CInitialize \<notin> set cs" for cs by (induction cs) auto
  then show "tame_updates k us \<Longrightarrow> no_init us" by (simp add: tame_updates_def no_init_def)
qed

lemma world_update_owns:
  assumes us: "tame_updates k us" and m: "in_update m" "tally f m" and n: "2 \<le> n"
  shows "gives (\<lambda>r. in_update (snd r) \<and> tally (f + k) (snd r)) (world_update n silent us d g m)"
proof -
  obtain n' where n': "n = Suc n'" using n by (cases n) auto
  obtain cs b where u: "us d g m = (cs, b)" by (cases "us d g m")
  with us have cs: "list_all tame cs" "length cs \<le> k" by (metis fst_conv tame_updates_def)+
  have "gives (\<lambda>m'. tally (f + length cs) m' \<and> in_update m') (run_calls n (world n silent) cs m)"
    unfolding n' by (rule quiet_hooks.run_calls_owns [OF quiet_hooks_world m]) (use n n' cs in auto)
  then show ?thesis
    unfolding world_update_def u prod.case by (rule gives_bind) (use cs in \<open>auto simp: tally_def\<close>)
qed

lemma op_owns:
  assumes us: "tame_updates k us" and p: "tame_op p" and m: "resting m" "tally f m"
    and n: "f + k \<le> n" "2 \<le> n"
  shows "gives (\<lambda>m'. tally (f + Suc k) m' \<and> resting m') (motion_op n silent us p m)"
proof -
  obtain n' where n': "n = Suc n'" using n by (cases n) auto
  have q: "quiet_hooks (world n silent)" unfolding n' by (rule quiet_hooks_world)
  show ?thesis
  proof (cases p)
    case (OpCall c)
    have "runs m" "own [] (mm_fresh m) m" using m by (simp_all add: runs_def own_def tally_def)
    then have "gives (\<lambda>m'. tally (Suc (mm_fresh m)) m' \<and> in_update m' = in_update m \<and> runs m')
        (mm_call n (world n silent) c m)"
      using quiet_hooks.call_owns [OF q _ _ n(2)] p OpCall by simp
    then have "gives (\<lambda>m'. tally (f + Suc k) m' \<and> resting m') (mm_call n (world n silent) c m)"
      by (rule gives_mono) (use m in \<open>auto simp: tally_def runs_def resting_def in_update_def\<close>)
    with OpCall show ?thesis by simp
  next
    case (OpUpdate d)
    have "moving silent" by (simp add: moving_def)
    then have s: "safe_to resting (motion_op n silent us p m)"
      by (rule op_resting) (use us OpUpdate m tame_updates_no_init in auto)
    have "gives (tally (f + k)) (motion_op n silent us p m)"
      using quiet_hooks.UpdateMotion_owns [OF q world_update_owns [OF us _ _ n(2)] m n(1)] OpUpdate by simp
    from gives_safe [OF this s] show ?thesis
      by (rule gives_mono) (auto simp: tally_def)
  qed
qed

lemma run_owns:
  "tame_updates k us \<Longrightarrow> list_all tame_op ps \<Longrightarrow> resting m \<Longrightarrow> tally f m \<Longrightarrow> 2 \<le> n
    \<Longrightarrow> f + length ps * Suc k \<le> n
    \<Longrightarrow> gives (\<lambda>m'. tally (f + length ps * Suc k) m' \<and> resting m') (motion_run n silent us ps m)"
proof (induction ps arbitrary: m f)
  case (Cons p ps)
  have "gives (\<lambda>m'. tally (f + length (p # ps) * Suc k) m' \<and> resting m')
      (sbind (motion_op n silent us p m) (motion_run n silent us ps))"
  proof (rule gives_bind [OF op_owns])
    fix x
    assume "tally (f + Suc k) x \<and> resting x"
    with Cons show "gives (\<lambda>m'. tally (f + length (p # ps) * Suc k) m' \<and> resting m') (motion_run n silent us ps x)"
      using Cons.IH [of x "f + Suc k"] by (simp add: ac_simps)
  qed (use Cons.prems in auto)
  then show ?case by simp
qed simp

text \<open>
  C16: for a unit whose generators call the motion master only from \<open>Update\<close> (\<open>silent\<close>: the other
  methods and the AI they inform make no calls), at most \<open>k\<close> calls from each, where nobody calls
  \<open>Initialize\<close> or knocks the unit back (\<open>tame\<close>): every sequence of calls and updates returns, with
  fuel for the generators that can be allocated, and then every generator ever allocated is either
  in exactly one slot or has been deleted exactly once: none is leaked, none is deleted twice, and
  none that is still in a slot has been deleted. C17 and C18 show why \<open>Initialize\<close> and calls from
  \<open>Finalize\<close> are left out; that a generator may be deleted while its \<open>Update\<close> runs (C19) is not
  excluded.
\<close>

theorem generators_accounted:
  assumes "tame_updates k us" "list_all tame_op ps" "2 + length ps * Suc k \<le> n"
  shows "\<exists>m. motion_life n silent us ow ps = Inr m
    \<and> distinct (in_slots m @ deleted m) \<and> set (in_slots m) \<union> set (deleted m) = {..<mm_fresh m}"
proof -
  obtain n' where n': "n = Suc n'" using assms(3) by (cases n) auto
  have q: "quiet_hooks (world n silent)" unfolding n' by (rule quiet_hooks_world)
  have "gives (\<lambda>m. tally 1 m \<and> resting m) (InitDefault (world n silent) (mm_new ow))"
    by (intro gives_safe quiet_hooks.InitDefault_owns [OF q] hooks_ok.InitDefault_resting
        quiet_hooks.quiet_ok [OF q])
  then have "gives (\<lambda>m'. tally (1 + length ps * Suc k) m' \<and> resting m') (motion_life n silent us ow ps)"
    unfolding motion_life_def by (rule gives_bind) (intro run_owns, use assms in auto)
  then obtain m where m: "motion_life n silent us ow ps = Inr m" "tally (1 + length ps * Suc k) m" "resting m"
    by (auto simp: gives_iff)
  then have "owns [] m" "mm_exp m = None" by (simp_all add: tally_def resting_def)
  from owns_unique [OF this] m(1) show ?thesis by blast
qed


section \<open>What the operations do when the methods are silent\<close>

text \<open>The events of deleting the generator of a slot.\<close>

definition disposal :: "mgen option \<Rightarrow> mm_event list" where
  "disposal p = (case p of None \<Rightarrow> [] | Some g \<Rightarrow> if isStatic g then [] else [EvFinalize g, EvDelete g])"

lemma disposal_None [simp]: "disposal None = []"
  by (simp add: disposal_def)

lemma pop_while_done: "mm_size m \<le> keep \<Longrightarrow> pop_while n keep del m = Inr m"
  by (subst pop_while.simps) simp

lemma silent_world [simp]: "world (Suc n) silent h g m = Inr (log_ev (hook_event h g) m)"
  by simp

lemma silent_delete: "DirectDelete (world (Suc n) silent) (Some g) m = Inr (m\<lparr>mm_log := mm_log m @ disposal (Some g)\<rparr>)"
  by (simp add: DirectDelete_def disposal_def log_ev_def)

text \<open>
  Outside an update, a new generator replaces the one of its slot, which is finalized and
  deleted, and leaves the other slots alone; it runs at once when no higher slot is in use, and
  otherwise waits, marked to be initialised when the slots above it become free.
\<close>

theorem mutate_priority:
  assumes "resting m" "g = si_idleMovement \<longrightarrow> s = MOTION_SLOT_IDLE"
  shows "\<exists>m'. Mutate (world (Suc n) silent) g s m = Inr m'
    \<and> mm_impl m' = (mm_impl m)[slot_ix s := Some g] \<and> mm_top m' = max (mm_top m) (int (slot_ix s))
    \<and> mm_log m' = mm_log m @ disposal (mm_impl m ! slot_ix s)
                    @ (if mm_top m \<le> int (slot_ix s) then [EvInit g] else [])
    \<and> mm_need m' = (mm_need m)[slot_ix s := (mm_top m > int (slot_ix s))]"
proof -
  have nu: "\<not> has_flag (mm_flag m) MMCF_UPDATE" and sh: "shaped m"
    using assms(1) by (simp_all add: resting_def standing_shaped)
  show ?thesis
  proof (cases "mm_impl m ! slot_ix s")
    case None
    with nu show ?thesis
      by (cases "mm_top m" "int (slot_ix s)" rule: linorder_cases)
        (simp_all add: Mutate_def Let_def disposal_def log_ev_def max_def)
  next
    case (Some c)
    have "int (slot_ix s) \<le> mm_top m"
      using sh Some by (cases "mm_top m < int (slot_ix s)") (auto simp: shaped_def)
    with Some nu show ?thesis
      by (simp add: Mutate_def Let_def silent_delete log_ev_def max_def)
  qed
qed

lemma three: "length xs = 3 \<Longrightarrow> \<exists>a b c. xs = [a, b, c]"
  by (auto simp: numeral_3_eq_3 length_Suc_conv)

text \<open>One round of emptying the stack.\<close>

lemma skip_null_at:
  "0 \<le> mm_top m \<Longrightarrow> mm_top m < 3 \<Longrightarrow> skip_null m = (if mm_impl m ! nat (mm_top m) = None
     then skip_null (m\<lparr>mm_top := mm_top m - 1\<rparr>) else Inr m)"
  by (subst skip_null.simps) (auto simp: mm_topv_def impl_at_def MAX_MOTION_SLOT_def split: option.split)

lemma top_same: "mm_top m = t \<Longrightarrow> m\<lparr>mm_top := t\<rparr> = m"
  by auto

lemma skip_null_0: "mm_impl m = [Some g, b, c] \<Longrightarrow> mm_top m = 0 \<Longrightarrow> skip_null m = Inr m"
  by (subst skip_null_at) simp_all

lemma skip_null_1:
  "mm_impl m = [Some g, b, c] \<Longrightarrow> mm_top m = 1 \<Longrightarrow>
    skip_null m = Inr (m\<lparr>mm_top := (if b = None then 0 else 1)\<rparr>)"
  by (subst skip_null_at) (simp_all add: skip_null_0 top_same)

lemma skip_null_2:
  "mm_impl m = [Some g, b, None] \<Longrightarrow> mm_top m = 2 \<Longrightarrow>
    skip_null m = Inr (m\<lparr>mm_top := (if b = None then 0 else 1)\<rparr>)"
  by (subst skip_null_at) (simp_all add: skip_null_1)

lemmas pop_defs = pop_round_def mm_topv_def impl_at_def MAX_MOTION_SLOT_def mm_pop_def

lemma pop_round_1:
  "mm_impl m = [Some g, Some h, c] \<Longrightarrow> mm_top m = 1 \<Longrightarrow> pop_round (DirectDelete (world (Suc k) silent)) m =
    Inr (m\<lparr>mm_impl := [Some g, None, c], mm_top := 0, mm_log := mm_log m @ disposal (Some h)\<rparr>)"
  by (simp add: pop_defs skip_null_1 silent_delete del: world.simps)

lemma pop_round_2:
  "mm_impl m = [Some g, b, Some h] \<Longrightarrow> mm_top m = 2 \<Longrightarrow> pop_round (DirectDelete (world (Suc k) silent)) m =
    Inr (m\<lparr>mm_impl := [Some g, b, None], mm_top := (if b = None then 0 else 1),
           mm_log := mm_log m @ disposal (Some h)\<rparr>)"
  by (simp add: pop_defs skip_null_2 silent_delete del: world.simps)

text \<open>
  Outside an update, \<open>Clear\<close> finalizes and deletes the generators above the default one,
  the highest first, and the default generator runs again: initialised when it never was, and
  otherwise reset when the caller asks for it.
\<close>

theorem clear_restores_default:
  assumes m: "resting m" and n: "2 \<le> n"
  shows "\<exists>m' g. mm_impl m ! 0 = Some g \<and> mm_Clear n (world (Suc k) silent) reset m = Inr m'
    \<and> mm_impl m' = [Some g, None, None] \<and> mm_top m' = 0
    \<and> mm_log m' = mm_log m @ disposal (mm_impl m ! 2) @ disposal (mm_impl m ! 1)
        @ (if mm_need m ! 0 then [EvInit g] else if reset then [EvReset g] else [])"
proof -
  have st: "stacked m" and nu: "\<not> has_flag (mm_flag m) MMCF_UPDATE" and len: "length (mm_impl m) = 3"
    using m by (auto simp: resting_def standing_alt stacked_def shaped_def)
  obtain g where g: "mm_impl m ! 0 = Some g" using st by (auto simp: stacked_def)
  then obtain b c where impl: "mm_impl m = [Some g, b, c]" using three [OF len] by auto
  obtain n' where n': "n = Suc (Suc n')" using n by (metis add_2_eq_Suc le_Suc_ex)
  have "mm_top m = 0 \<and> b = None \<and> c = None \<or> mm_top m = 1 \<and> b \<noteq> None \<and> c = None \<or> mm_top m = 2 \<and> c \<noteq> None"
  proof -
    from st have "0 \<le> mm_top m" "mm_top m \<le> 2" by (auto simp: stacked_def shaped_def)
    then consider "mm_top m = 0" | "mm_top m = 1" | "mm_top m = 2" by linarith
    then show ?thesis
      using st impl by cases (auto simp: stacked_def shaped_def lt3_cases)
  qed
  then have "pop_while n 1 (DirectDelete (world (Suc k) silent)) m =
      Inr (m\<lparr>mm_impl := [Some g, None, None], mm_top := 0, mm_log := mm_log m @ disposal c @ disposal b\<rparr>)"
    using impl
    by (cases b; cases c)
      (auto simp: n' pop_while_round pop_while_done mm_size_def pop_round_1 pop_round_2 simp del: world.simps)
  moreover have "\<not> need_top m" using m by (simp add: resting_settled settled_def)
  ultimately show ?thesis
    using nu impl by (auto simp: mm_Clear_def DirectClean_def needInitTop_def MAX_MOTION_SLOT_def InitTop_def
        ResetTop_def mm_topv_def impl_at_def call_hook_def log_ev_def)
qed


section \<open>Where the motion master breaks\<close>

text \<open>Popping the last generator reads below the array.\<close>

lemma pop_last:
  assumes "mm_impl m = [Some g, None, None]" "mm_top m = 0"
  shows "pop_round del m = Inl OutOfBounds"
proof -
  have "skip_null (m\<lparr>mm_impl := [None, None, None], mm_top := - 1\<rparr>) = Inl OutOfBounds"
    by (subst skip_null.simps) (simp add: mm_topv_def impl_at_def)
  then have "skip_null (m\<lparr>mm_impl := [None, None, None]\<rparr>) = Inl OutOfBounds"
    using assms(2) by (subst skip_null_at) simp_all
  with assms show ?thesis by (simp add: pop_defs)
qed

text \<open>
  C17: \<open>Initialize\<close> and the destructor pop the generators until the stack is empty, but
  popping the last one looks for a generator below the first slot: on every stack that is not
  empty both read \<open>Impl[-1]\<close>.
\<close>

theorem initialize_reads_out_of_bounds:
  assumes m: "resting m" and n: "3 \<le> n"
  shows "mm_Initialize n (world (Suc k) silent) m = Inl OutOfBounds
    \<and> mm_destroy n (world (Suc k) silent) m = Inl OutOfBounds"
proof -
  have st: "stacked m" and len: "length (mm_impl m) = 3"
    using m by (auto simp: resting_def standing_alt stacked_def shaped_def)
  obtain g where g: "mm_impl m ! 0 = Some g" using st by (auto simp: stacked_def)
  then obtain b c where impl: "mm_impl m = [Some g, b, c]" using three [OF len] by auto
  obtain n' where "n = 3 + n'" using le_Suc_ex [OF n] by blast
  then have n': "n = Suc (Suc (Suc n'))" by simp
  have "0 \<le> mm_top m" "mm_top m \<le> 2" using st by (auto simp: stacked_def shaped_def)
  then consider "mm_top m = 0" | "mm_top m = 1" | "mm_top m = 2" by linarith
  then have "mm_top m = 0 \<and> b = None \<and> c = None \<or> mm_top m = 1 \<and> b \<noteq> None \<and> c = None \<or> mm_top m = 2 \<and> c \<noteq> None"
    using st impl by cases (auto simp: stacked_def shaped_def lt3_cases)
  then have "pop_while n 0 (DirectDelete (world (Suc k) silent)) m = Inl OutOfBounds"
    using impl
    by (cases b; cases c)
      (auto simp: n' pop_while_round mm_size_def pop_round_1 pop_round_2 pop_last simp del: world.simps)
  then show ?thesis by (simp add: mm_Initialize_def mm_destroy_def)
qed

text \<open>
  C18: a creature that is running to get help leaks a generator when another movement takes
  the slot: finalizing the old generator starts a distraction in the slot being filled, and
  the new generator overwrites it without deleting it.
\<close>

theorem assistance_leaks:
  assumes m: "resting m" "owns [] m" and slot: "mm_impl m ! 1 = Some (MG a (AssistanceMG x y z))"
    and creature: "\<not> ow_player (mm_own m)" "ow_alive (mm_own m)"
  shows "\<exists>m'. mutate_new (world (Suc (Suc n)) assistance_calls) kind MOTION_SLOT_ACTIVE m = Inr m'
    \<and> mm_fresh m' = mm_fresh m + 2 \<and> mm_fresh m + 1 \<notin> set (in_slots m' @ in_expired m' @ deleted m')"
proof -
  let ?F = "mm_fresh m"
  have nu: "\<not> has_flag (mm_flag m) MMCF_UPDATE" and len: "length (mm_impl m) = 3" and ex: "mm_exp m = None"
    and top: "\<not> mm_top m < 1"
    using m slot by (auto simp: resting_def standing_def shaped_def)
  obtain b c where impl: "mm_impl m = [b, Some (MG a (AssistanceMG x y z)), c]"
    using three [OF len] slot by auto
  have bound: "set (in_slots m) \<union> set (deleted m) = {..<?F}" by (rule owns_unique [OF m(2) ex])
  let ?r = "mutate_new (world (Suc (Suc n)) assistance_calls) kind MOTION_SLOT_ACTIVE m"
  have "\<exists>m'. ?r = Inr m' \<and> mm_fresh m' = ?F + 2 \<and> mm_impl m' = [b, Some (MG ?F kind), c]
      \<and> mm_exp m' = None \<and> set (deleted m') = insert a (set (deleted m))"
    using creature nu top impl ex
    by (cases "mm_top m = 1") (simp_all add: mutate_new_def Mutate_def Let_def DirectDelete_def isStatic_def
        MoveSeekAssistanceDistract_def deleted_def)
  then obtain m' where m': "?r = Inr m'" "mm_fresh m' = ?F + 2" "mm_impl m' = [b, Some (MG ?F kind), c]"
      "mm_exp m' = None" "set (deleted m') = insert a (set (deleted m))" by blast
  have "?F + 1 \<notin> set (in_slots m) \<union> set (deleted m)" unfolding bound by simp
  with m' impl have "?F + 1 \<notin> set (in_slots m' @ in_expired m' @ deleted m')"
    by (auto simp: in_slots_def opt_addr_def in_expired_def)
  with m' show ?thesis by blast
qed

text \<open>
  Why C15 keeps the methods from clearing the stack. The script of a point movement calls
  \<open>Clear(false)\<close> when the movement is finalized, as the AI does when it is informed of the end.
  When another movement takes the slot, the clearing runs while the slot is empty and lowers
  \<open>_top\<close>; the new generator is then put above the top, where it neither runs nor is popped.
\<close>

definition clears_when_done :: script where
  "clears_when_done h g m = (case (h, g) of
     (HFinalize, MG a (PointMG i x y z v)) \<Rightarrow> [CClear False] | _ \<Rightarrow> [])"

lemma pop_hole:
  assumes "mm_impl m = [Some g, None, c]" "mm_top m = 1"
  shows "pop_while (Suc k) 1 del m = Inr (m\<lparr>mm_top := 0\<rparr>)"
proof -
  have "(mm_impl m)[1 := None] = mm_impl m" using assms by simp
  then have "mm_pop m = Inr (m\<lparr>mm_top := 0\<rparr>)"
    using assms by (simp add: mm_pop_def MAX_MOTION_SLOT_def skip_null_1 del: list_update_code)
  with assms show ?thesis
    by (simp add: pop_while.simps [of "Suc k"] pop_while_done mm_size_def mm_topv_def impl_at_def MAX_MOTION_SLOT_def)
qed

lemma clear_in_finalize_loses:
  assumes m: "resting m" and slot: "mm_impl m ! 1 = Some (MG a (PointMG i x y z v))" and top: "mm_top m = 1"
  shows "\<exists>m'. mutate_new (world (Suc (Suc (Suc n))) clears_when_done) kind MOTION_SLOT_ACTIVE m = Inr m'
    \<and> mm_impl m' ! 1 = Some (MG (mm_fresh m) kind) \<and> mm_top m' = 0 \<and> mm_topv m' = Inr (mm_impl m ! 0)"
proof -
  have nu: "\<not> has_flag (mm_flag m) MMCF_UPDATE" and len: "length (mm_impl m) = 3" and c: "mm_impl m ! 2 = None"
    and b: "mm_impl m ! 0 \<noteq> None"
    using m top by (auto simp: resting_def standing_def shaped_def lt3_cases)
  then obtain g where impl: "mm_impl m = [Some g, Some (MG a (PointMG i x y z v)), None]"
    using three [OF len] slot by auto
  show ?thesis
    using impl top nu
    by (cases "mm_need m ! 0")
      (simp_all add: mutate_new_def Mutate_def Let_def DirectDelete_def isStatic_def clears_when_done_def
        mm_Clear_def DirectClean_def pop_hole needInitTop_def InitTop_def mm_topv_def impl_at_def
        MAX_MOTION_SLOT_def call_hook_def log_ev_def)
qed

text \<open>
  C19: a running generator whose \<open>Update\<close> starts a generator in a higher slot and then one in
  its own slot is deleted while its \<open>Update\<close> still runs.
\<close>

theorem updating_generator_deleted:
  assumes m: "resting m" and top: "mm_top m = 1" and slot: "mm_impl m ! 1 = Some (MG a kind)"
  shows "\<exists>m'. run_calls n (world (Suc k) silent) [CConfused, CPoint i p] (set_update m) = Inr m'
    \<and> EvDelete (MG a kind) \<in> set (mm_log m')"
proof -
  have len: "length (mm_impl m) = 3" and c: "mm_impl m ! 2 = None"
    using m top by (auto simp: resting_def standing_def shaped_def lt3_cases)
  then obtain b where impl: "mm_impl m = [b, Some (MG a kind), None]" using three [OF len] slot by auto
  have "has_flag (mm_flag m OR MMCF_UPDATE) MMCF_UPDATE" by (simp add: has_flag_set_same flag_bits)
  then show ?thesis
    using impl top
    by (cases p) (simp add: set_update_def MoveConfused_def MovePoint_def mutate_new_def Mutate_def Let_def
        DirectDelete_def isStatic_def log_ev_def)
qed

section \<open>A sample unit\<close>

text \<open>A creature that wanders by default, and \<open>Update\<close> methods that end a confusion after one round.\<close>

definition sample_owner :: mm_owner where
  "sample_owner = \<lparr>ow_player = False, ow_guid = 7, ow_alive = True, ow_root_or_stun = False,
     ow_disable_move = False, ow_charmer_guid = 0, ow_charmer = None,
     ow_default_type = RANDOM_MOTION_TYPE, ow_pos = (0, 0, 0), ow_ground = 0, ow_spline_dest = None,
     ow_near = (\<lambda>_ _. (0, 0, 0)), ow_close = (\<lambda>_ _. (0, 0, 0)), ow_angle = (\<lambda>_ _. 0),
     ow_los = (\<lambda>_. True), ow_assist_delay = 1500, ow_taxi_paths = 0\<rparr>"

definition sample_updates :: update_script where
  "sample_updates d g m = (case g of si_idleMovement \<Rightarrow> ([], True)
     | MG a k \<Rightarrow> if kind_type k = CONFUSED_MOTION_TYPE then ([CClear True], False) else ([], True))"

lemma sample_updates_tame: "tame_updates 1 sample_updates"
  by (auto simp: tame_updates_def sample_updates_def split: mgen.split)

text \<open>The same creature running to get help, above its default movement.\<close>

definition sample_motion :: motion where
  "sample_motion = \<lparr>mm_exp = None, mm_impl = [Some (MG 0 (RandomMG 0)), Some (MG 1 (AssistanceMG 1 2 3)), None],
     mm_top = 1, mm_own = sample_owner, mm_need = [False, False, True], mm_flag = 0, mm_fresh = 2,
     mm_log = []\<rparr>"

lemma sample_resting: "resting sample_motion"
  by (simp add: resting_def standing_def shaped_def sample_motion_def lt3_cases)

lemma sample_owns: "owns [] sample_motion"
  by (simp add: owns_def in_slots_def in_expired_def deleted_def opt_addr_def sample_motion_def upt_rec)

theorem motion_life_safe_witness:
  "case motion_life 9 assistance_calls sample_updates sample_owner [OpCall CConfused, OpUpdate 100] of
     Inl e \<Rightarrow> False
   | Inr m \<Rightarrow> GetCurrentMovementGeneratorType m = Inr RANDOM_MOTION_TYPE \<and> mm_impl m ! 0 \<noteq> None
       \<and> \<not> mm_need m ! nat (mm_top m)"
proof -
  have "case motion_life 9 assistance_calls sample_updates sample_owner [OpCall CConfused, OpUpdate 100] of
     Inl e \<Rightarrow> False | Inr m \<Rightarrow> GetCurrentMovementGeneratorType m = Inr RANDOM_MOTION_TYPE"
    by code_simp
  with motion_life_safe [OF moving_assistance tame_updates_no_init [OF sample_updates_tame],
      of "[OpCall CConfused, OpUpdate 100]" 9 sample_owner]
  show ?thesis by (auto split: sum.splits)
qed

theorem generators_accounted_witness:
  "\<exists>m. motion_life 8 silent sample_updates sample_owner [OpCall CConfused, OpUpdate 100, OpCall CTargetedHome] = Inr m
    \<and> distinct (in_slots m @ deleted m) \<and> set (in_slots m) \<union> set (deleted m) = {..<mm_fresh m}"
  by (rule generators_accounted [OF sample_updates_tame]) simp_all

theorem mutate_priority_witness:
  "\<exists>m'. Mutate (world 1 silent) (MG 2 ConfusedMG) MOTION_SLOT_ACTIVE sample_motion = Inr m'
    \<and> mm_impl m' = [Some (MG 0 (RandomMG 0)), Some (MG 2 ConfusedMG), None]
    \<and> mm_log m' = [EvFinalize (MG 1 (AssistanceMG 1 2 3)), EvDelete (MG 1 (AssistanceMG 1 2 3)),
                    EvInit (MG 2 ConfusedMG)]"
  using mutate_priority [OF sample_resting, of "MG 2 ConfusedMG" MOTION_SLOT_ACTIVE 0]
  by (auto simp: sample_motion_def disposal_def isStatic_def simp del: world.simps)

theorem clear_restores_default_witness:
  "\<exists>m'. mm_Clear 2 (world 1 silent) True sample_motion = Inr m'
    \<and> mm_impl m' = [Some (MG 0 (RandomMG 0)), None, None]
    \<and> mm_log m' = [EvFinalize (MG 1 (AssistanceMG 1 2 3)), EvDelete (MG 1 (AssistanceMG 1 2 3)),
                    EvReset (MG 0 (RandomMG 0))]"
  using clear_restores_default [OF sample_resting order.refl, of 0 True]
  by (auto simp: sample_motion_def disposal_def isStatic_def simp del: world.simps)

theorem initialize_reads_out_of_bounds_witness:
  "mm_Initialize 3 (world 1 silent) sample_motion = Inl OutOfBounds"
  using initialize_reads_out_of_bounds [OF sample_resting order.refl, of 0] by (simp del: world.simps)

theorem assistance_leaks_witness:
  "\<exists>m'. mutate_new (world (Suc (Suc 0)) assistance_calls) ConfusedMG MOTION_SLOT_ACTIVE sample_motion = Inr m'
    \<and> mm_fresh m' = 2 + 2 \<and> 2 + 1 \<notin> set (in_slots m' @ in_expired m' @ deleted m')"
proof -
  have f: "mm_fresh sample_motion = 2" "mm_impl sample_motion ! 1 = Some (MG 1 (AssistanceMG 1 2 3))"
    "\<not> ow_player (mm_own sample_motion)" "ow_alive (mm_own sample_motion)"
    by (simp_all add: sample_motion_def sample_owner_def)
  from assistance_leaks [OF sample_resting sample_owns f(2,3,4), of 0 ConfusedMG] show ?thesis
    unfolding f .
qed

theorem updating_generator_deleted_witness:
  "\<exists>m'. run_calls 3 (world 1 silent) [CConfused, CPoint 4 (1, 2, 3)] (set_update sample_motion) = Inr m'
    \<and> EvDelete (MG 1 (AssistanceMG 1 2 3)) \<in> set (mm_log m')"
  using updating_generator_deleted [OF sample_resting, of 1 "AssistanceMG 1 2 3" 3 0 4 "(1, 2, 3)"]
  by (simp add: sample_motion_def del: world.simps run_calls.simps)

end
