(* ===== verification/Float32.thy ===== *)
theory Float32
  imports Base
begin

text \<open>
  The \<open>float\<close> of the code: IEEE 754 binary32 on bit patterns, rounding to the nearest with ties
  to even, as the compilers of the server use it. A finite number is a significand times a power
  of two; an operation computes the exact result and rounds it once.
\<close>

type_synonym f32 = u32

section \<open>Parts\<close>

definition f32_neg :: "f32 \<Rightarrow> bool" where
  "f32_neg x \<longleftrightarrow> bit x 31"

definition f32_mag :: "f32 \<Rightarrow> int" where
  "f32_mag x = uint x mod 2 ^ 31"

definition f32_biased :: "f32 \<Rightarrow> int" where
  "f32_biased x = f32_mag x div 2 ^ 23"

definition f32_sig :: "f32 \<Rightarrow> int" where
  "f32_sig x = (if f32_biased x = 0 then f32_mag x else f32_mag x mod 2 ^ 23 + 2 ^ 23)"

definition f32_exp :: "f32 \<Rightarrow> int" where
  "f32_exp x = (if f32_biased x = 0 then - 149 else f32_biased x - 150)"

definition f32_nan :: "f32 \<Rightarrow> bool" where
  "f32_nan x \<longleftrightarrow> f32_mag x > 0x7F800000"

definition f32_inf :: "f32 \<Rightarrow> bool" where
  "f32_inf x \<longleftrightarrow> f32_mag x = 0x7F800000"

definition f32_make :: "bool \<Rightarrow> int \<Rightarrow> f32" where
  "f32_make neg m = word_of_int (if neg then m + 2 ^ 31 else m)"

definition f32_quiet_nan :: f32 where "f32_quiet_nan = 0x7FC00000"

section \<open>Comparison\<close>

text \<open>The two zeros are equal, and a comparison with a NaN is false.\<close>

definition f32_key :: "f32 \<Rightarrow> int" where
  "f32_key x = (if f32_neg x then - f32_mag x else f32_mag x)"

definition f32_lt :: "f32 \<Rightarrow> f32 \<Rightarrow> bool" where
  "f32_lt x y \<longleftrightarrow> \<not> f32_nan x \<and> \<not> f32_nan y \<and> f32_key x < f32_key y"

definition f32_le :: "f32 \<Rightarrow> f32 \<Rightarrow> bool" where
  "f32_le x y \<longleftrightarrow> \<not> f32_nan x \<and> \<not> f32_nan y \<and> f32_key x \<le> f32_key y"

definition f32_eq :: "f32 \<Rightarrow> f32 \<Rightarrow> bool" where
  "f32_eq x y \<longleftrightarrow> \<not> f32_nan x \<and> \<not> f32_nan y \<and> f32_key x = f32_key y"

section \<open>Rounding\<close>

function bit_length :: "int \<Rightarrow> nat" where
  "bit_length n = (if n \<le> 0 then 0 else Suc (bit_length (n div 2)))"
  by auto

termination
  by (relation "measure nat") auto

declare bit_length.simps [simp del]

text \<open>
  The significand of \<open>n * 2 ^ e\<close>, or of a number a little larger if \<open>sticky\<close>, after dropping the
  low \<open>shift\<close> bits.
\<close>

definition round_even :: "int \<Rightarrow> nat \<Rightarrow> bool \<Rightarrow> int" where
  "round_even n shift sticky =
     (let q = n div 2 ^ shift; r = 2 * (n mod 2 ^ shift) in
      if r > 2 ^ shift \<or> (r = 2 ^ shift \<and> (sticky \<or> odd q)) then q + 1 else q)"

text \<open>A significand of 24 bits, or the exponent of the smallest numbers.\<close>

definition f32_pack :: "bool \<Rightarrow> int \<Rightarrow> int \<Rightarrow> bool \<Rightarrow> f32" where
  "f32_pack neg n e sticky =
     (let shift = max (int (bit_length n) - 24) (- 149 - e);
          m = (if shift \<le> 0 then n * 2 ^ nat (- shift) else round_even n (nat shift) sticky);
          e' = e + shift;
          bits = (if m < 2 ^ 23 then m else (e' + 149) * 2 ^ 23 + m)
      in f32_make neg (min bits 0x7F800000))"

section \<open>Arithmetic\<close>

definition f32_negate :: "f32 \<Rightarrow> f32" where
  "f32_negate x = f32_make (\<not> f32_neg x) (f32_mag x)"

definition f32_signed :: "f32 \<Rightarrow> int" where
  "f32_signed x = (if f32_neg x then - f32_sig x else f32_sig x)"

definition f32_add :: "f32 \<Rightarrow> f32 \<Rightarrow> f32" where
  "f32_add x y =
     (if f32_nan x \<or> f32_nan y then f32_quiet_nan
      else if f32_inf x then (if f32_inf y \<and> f32_neg x \<noteq> f32_neg y then f32_quiet_nan else x)
      else if f32_inf y then y
      else
        (let e = min (f32_exp x) (f32_exp y);
             s = f32_signed x * 2 ^ nat (f32_exp x - e) + f32_signed y * 2 ^ nat (f32_exp y - e)
         in if s = 0 then f32_make (f32_neg x \<and> f32_neg y) 0 else f32_pack (s < 0) \<bar>s\<bar> e False))"

definition f32_sub :: "f32 \<Rightarrow> f32 \<Rightarrow> f32" where
  "f32_sub x y = (if f32_nan y then f32_quiet_nan else f32_add x (f32_negate y))"

definition f32_mul :: "f32 \<Rightarrow> f32 \<Rightarrow> f32" where
  "f32_mul x y =
     (let neg = (f32_neg x \<noteq> f32_neg y) in
      if f32_nan x \<or> f32_nan y then f32_quiet_nan
      else if f32_inf x \<or> f32_inf y then
        (if f32_mag x = 0 \<or> f32_mag y = 0 then f32_quiet_nan else f32_make neg 0x7F800000)
      else if f32_mag x = 0 \<or> f32_mag y = 0 then f32_make neg 0
      else f32_pack neg (f32_sig x * f32_sig y) (f32_exp x + f32_exp y) False)"

definition f32_div :: "f32 \<Rightarrow> f32 \<Rightarrow> f32" where
  "f32_div x y =
     (let neg = (f32_neg x \<noteq> f32_neg y) in
      if f32_nan x \<or> f32_nan y then f32_quiet_nan
      else if f32_inf x then (if f32_inf y then f32_quiet_nan else f32_make neg 0x7F800000)
      else if f32_inf y then f32_make neg 0
      else if f32_mag y = 0 then (if f32_mag x = 0 then f32_quiet_nan else f32_make neg 0x7F800000)
      else if f32_mag x = 0 then f32_make neg 0
      else (let n = f32_sig x * 2 ^ 50 in
        f32_pack neg (n div f32_sig y) (f32_exp x - f32_exp y - 50) (n mod f32_sig y \<noteq> 0)))"

section \<open>Conversions\<close>

definition f32_of_int :: "int \<Rightarrow> f32" where
  "f32_of_int i = f32_pack (i < 0) \<bar>i\<bar> 0 False"

text \<open>Towards zero; a value out of range gives the pattern of the processor.\<close>

definition f32_trunc :: "f32 \<Rightarrow> int" where
  "f32_trunc x = (let n = (if f32_exp x \<ge> 0 then f32_sig x * 2 ^ nat (f32_exp x) else f32_sig x div 2 ^ nat (- f32_exp x))
     in if f32_neg x then - n else n)"

definition f32_to_int :: "f32 \<Rightarrow> int" where
  "f32_to_int x = (let i = f32_trunc x in
     if f32_biased x = 255 \<or> i < - (2 ^ 31) \<or> i \<ge> 2 ^ 31 then - (2 ^ 31) else i)"

text \<open>\<open>int(floor(x))\<close>.\<close>

definition f32_floor_to_int :: "f32 \<Rightarrow> int" where
  "f32_floor_to_int x = (let n = f32_signed x; i = (if f32_exp x \<ge> 0 then n * 2 ^ nat (f32_exp x) else n div 2 ^ nat (- f32_exp x)) in
     if f32_biased x = 255 \<or> i < - (2 ^ 31) \<or> i \<ge> 2 ^ 31 then - (2 ^ 31) else i)"

definition f32_to_uint :: "f32 \<Rightarrow> u32" where
  "f32_to_uint x = (let i = f32_trunc x in
     if f32_biased x = 255 \<or> i < - (2 ^ 63) \<or> i \<ge> 2 ^ 63 then 0 else word_of_int i)"

end
