(* ===== verification/Reputation.thy ===== *)
theory Reputation
  imports World_Packet Std_Map Float32
begin

text \<open>
  The reputation of a player with the factions, \<open>src/src/server/game/Reputation/ReputationMgr.cpp\<close>
  and \<open>.h\<close>, with the packet handlers of \<open>CharacterHandler.cpp\<close> that change it. The factions of
  the data files and the spillover templates are a parameter. A pointer to a faction entry is its row, a pointer to a state is its key.
\<close>

section \<open>Ranks\<close>

datatype ReputationRank =
  REP_HATED | REP_HOSTILE | REP_UNFRIENDLY | REP_NEUTRAL | REP_FRIENDLY | REP_HONORED | REP_REVERED | REP_EXALTED

fun rank_code :: "ReputationRank \<Rightarrow> nat" where
  "rank_code REP_HATED = 0"
| "rank_code REP_HOSTILE = 1"
| "rank_code REP_UNFRIENDLY = 2"
| "rank_code REP_NEUTRAL = 3"
| "rank_code REP_FRIENDLY = 4"
| "rank_code REP_HONORED = 5"
| "rank_code REP_REVERED = 6"
| "rank_code REP_EXALTED = 7"

lemma rank_code_inject [simp]: "rank_code a = rank_code b \<longleftrightarrow> a = b"
  by (cases a; cases b) simp_all

instantiation ReputationRank :: linorder
begin

definition less_eq_ReputationRank :: "ReputationRank \<Rightarrow> ReputationRank \<Rightarrow> bool" where
  "less_eq_ReputationRank a b \<longleftrightarrow> rank_code a \<le> rank_code b"

definition less_ReputationRank :: "ReputationRank \<Rightarrow> ReputationRank \<Rightarrow> bool" where
  "less_ReputationRank a b \<longleftrightarrow> rank_code a < rank_code b"

instance
  by standard (auto simp: less_eq_ReputationRank_def less_ReputationRank_def)

end

lemmas rank_order = less_eq_ReputationRank_def less_ReputationRank_def

definition MAX_REPUTATION_RANK :: nat where "MAX_REPUTATION_RANK = 8"
definition MAX_SPILLOVER_FACTIONS :: nat where "MAX_SPILLOVER_FACTIONS = 4"
definition Reputation_Cap :: int where "Reputation_Cap = 42999"
definition Reputation_Bottom :: int where "Reputation_Bottom = - 42000"

definition PointsInRank :: "(ReputationRank \<times> int) list" where
  "PointsInRank = [(REP_HATED, 36000), (REP_HOSTILE, 3000), (REP_UNFRIENDLY, 3000), (REP_NEUTRAL, 3000),
     (REP_FRIENDLY, 6000), (REP_HONORED, 12000), (REP_REVERED, 21000), (REP_EXALTED, 1000)]"

text \<open>The loop goes from the highest rank down.\<close>

fun rank_loop :: "(ReputationRank \<times> int) list \<Rightarrow> int \<Rightarrow> int \<Rightarrow> ReputationRank" where
  "rank_loop [] limit standing = REP_HATED"
| "rank_loop ((r, points) # rest) limit standing =
     (if standing \<ge> limit - points then r else rank_loop rest (limit - points) standing)"

definition ReputationToRank :: "int \<Rightarrow> ReputationRank" where
  "ReputationToRank standing = rank_loop (rev PointsInRank) (Reputation_Cap + 1) standing"

section \<open>Data\<close>

text \<open>\<open>int32\<close> is an integer with the wrap-around written out.\<close>

definition s32 :: "int \<Rightarrow> int" where
  "s32 = signed_take_bit 31"

definition fl_half :: f32 where "fl_half = 0x3F000000"
definition fl_twentieth :: f32 where "fl_twentieth = 0x3D4CCCCD"
definition fl_tenth :: f32 where "fl_tenth = 0x3DCCCCCD"

definition FACTION_FLAG_VISIBLE :: u8 where "FACTION_FLAG_VISIBLE = 0x01"
definition FACTION_FLAG_AT_WAR :: u8 where "FACTION_FLAG_AT_WAR = 0x02"
definition FACTION_FLAG_HIDDEN :: u8 where "FACTION_FLAG_HIDDEN = 0x04"
definition FACTION_FLAG_INVISIBLE_FORCED :: u8 where "FACTION_FLAG_INVISIBLE_FORCED = 0x08"
definition FACTION_FLAG_PEACE_FORCED :: u8 where "FACTION_FLAG_PEACE_FORCED = 0x10"
definition FACTION_FLAG_INACTIVE :: u8 where "FACTION_FLAG_INACTIVE = 0x20"
definition FACTION_FLAG_SPECIAL :: u8 where "FACTION_FLAG_SPECIAL = 0x80"

record faction_entry =
  fe_ID :: u32
  fe_listID :: int
  fe_races :: "u32 list"
  fe_classes :: "u32 list"
  fe_values :: "int list"
  fe_flags :: "u32 list"
  fe_team :: u32
  fe_rateIn :: f32
  fe_rateOut :: f32
  fe_maxRankIn :: u32

text \<open>A spillover template is four factions with a rate and a rank.\<close>

record rep_store =
  rst_rows :: "faction_entry option list"
  rst_spill :: "u32 \<Rightarrow> (u32 \<times> f32 \<times> u32) list option"
  rst_race :: u32
  rst_class :: u32

record rep_env =
  re_gain_rate :: f32
  re_guild :: bool
  re_guild_bonus :: bool
  re_level1 :: bool
  re_level2 :: bool
  re_loading :: bool

record faction_state =
  fa_ID :: u32
  fa_listID :: u32
  fa_standing :: int
  fa_flags :: u8
  fa_needSend :: bool
  fa_needSave :: bool

datatype rep_stmt = DelReputation u16 | InsReputation u16 int u16

datatype rep_event =
    RepSend packet
  | RepHook u32 int bool
  | RepChanged u32
  | RepSql rep_stmt

record repmgr =
  rm_factions :: "(u32, faction_state) smap"
  rm_forced :: "(u32, ReputationRank) smap"
  rm_visible :: u8
  rm_honored :: u8
  rm_revered :: u8
  rm_exalted :: u8
  rm_increased :: bool
  rm_out :: "rep_event list"

datatype rep_error = NullFaction

definition new_repmgr :: repmgr where
  "new_repmgr = \<lparr>rm_factions = [], rm_forced = [], rm_visible = 0, rm_honored = 0, rm_revered = 0, rm_exalted = 0,
     rm_increased = False, rm_out = []\<rparr>"

definition rep_emit :: "rep_event list \<Rightarrow> repmgr \<Rightarrow> repmgr" where
  "rep_emit es m = m\<lparr>rm_out := rm_out m @ es\<rparr>"

definition upd_faction :: "u32 \<Rightarrow> (faction_state \<Rightarrow> faction_state) \<Rightarrow> repmgr \<Rightarrow> repmgr" where
  "upd_faction k f m = (case sm_find (rm_factions m) k of None \<Rightarrow> m
     | Some fs \<Rightarrow> m\<lparr>rm_factions := sm_put k (f fs) (rm_factions m)\<rparr>)"

section \<open>The factions of the data files\<close>

definition LookupEntry :: "rep_store \<Rightarrow> u32 \<Rightarrow> faction_entry option" where
  "LookupEntry st i = (if unat i < length (rst_rows st) then rst_rows st ! unat i else None)"

definition CanHaveReputation :: "faction_entry \<Rightarrow> bool" where
  "CanHaveReputation fe \<longleftrightarrow> fe_listID fe \<ge> 0"

text \<open>\<open>RepListID\<close> is unsigned.\<close>

definition list_key :: "faction_entry \<Rightarrow> u32" where
  "list_key fe = word_of_int (fe_listID fe)"

definition GetFactionTeamList :: "rep_store \<Rightarrow> u32 \<Rightarrow> u32 list option" where
  "GetFactionTeamList st team =
     (let rows = filter (\<lambda>i. case rst_rows st ! i of None \<Rightarrow> False | Some fe \<Rightarrow> fe_team fe \<noteq> 0 \<and> fe_team fe = team)
            [0..<length (rst_rows st)]
      in if rows = [] then None else Some (map of_nat rows))"

definition base_applies :: "rep_store \<Rightarrow> faction_entry \<Rightarrow> nat \<Rightarrow> bool" where
  "base_applies st fe i \<longleftrightarrow>
     (has_flag (fe_races fe ! i) (rst_race st) \<or> (fe_races fe ! i = 0 \<and> fe_classes fe ! i \<noteq> 0)) \<and>
     (has_flag (fe_classes fe ! i) (rst_class st) \<or> fe_classes fe ! i = 0)"

definition GetBaseReputation :: "rep_store \<Rightarrow> faction_entry option \<Rightarrow> int" where
  "GetBaseReputation st entry = (case entry of None \<Rightarrow> 0 | Some fe \<Rightarrow>
     (case List.find (base_applies st fe) [0..<4] of None \<Rightarrow> 0 | Some i \<Rightarrow> fe_values fe ! i))"

definition GetDefaultStateFlags :: "rep_store \<Rightarrow> faction_entry option \<Rightarrow> u32" where
  "GetDefaultStateFlags st entry = (case entry of None \<Rightarrow> 0 | Some fe \<Rightarrow>
     (case List.find (base_applies st fe) [0..<4] of None \<Rightarrow> 0 | Some i \<Rightarrow> fe_flags fe ! i))"

section \<open>Queries\<close>

definition GetState :: "faction_entry \<Rightarrow> repmgr \<Rightarrow> faction_state option" where
  "GetState fe m = (if CanHaveReputation fe then sm_find (rm_factions m) (list_key fe) else None)"

definition IsAtWar :: "rep_store \<Rightarrow> u32 \<Rightarrow> repmgr \<Rightarrow> bool" where
  "IsAtWar st f m = (case LookupEntry st f of None \<Rightarrow> False | Some fe \<Rightarrow>
     (case GetState fe m of None \<Rightarrow> False | Some fs \<Rightarrow> has_flag (fa_flags fs) FACTION_FLAG_AT_WAR))"

definition GetReputation :: "rep_store \<Rightarrow> faction_entry option \<Rightarrow> repmgr \<Rightarrow> int" where
  "GetReputation st entry m = (case entry of None \<Rightarrow> 0 | Some fe \<Rightarrow>
     (case GetState fe m of None \<Rightarrow> 0 | Some fs \<Rightarrow> s32 (GetBaseReputation st entry + fa_standing fs)))"

definition GetRank :: "rep_store \<Rightarrow> faction_entry option \<Rightarrow> repmgr \<Rightarrow> ReputationRank" where
  "GetRank st entry m = ReputationToRank (GetReputation st entry m)"

definition GetBaseRank :: "rep_store \<Rightarrow> faction_entry option \<Rightarrow> ReputationRank" where
  "GetBaseRank st entry = ReputationToRank (GetBaseReputation st entry)"

definition GetForcedRankIfAny :: "u32 \<Rightarrow> repmgr \<Rightarrow> ReputationRank option" where
  "GetForcedRankIfAny faction m = sm_find (rm_forced m) faction"

definition ApplyForceReaction :: "u32 \<Rightarrow> ReputationRank \<Rightarrow> bool \<Rightarrow> repmgr \<Rightarrow> repmgr" where
  "ApplyForceReaction f rank apply m =
     m\<lparr>rm_forced := (if apply then sm_put f rank (rm_forced m) else sm_erase f (rm_forced m))\<rparr>"

section \<open>Senders\<close>

definition SMSG_INITIALIZE_FACTIONS :: u16 where "SMSG_INITIALIZE_FACTIONS = 0x122"
definition SMSG_SET_FACTION_VISIBLE :: u16 where "SMSG_SET_FACTION_VISIBLE = 0x123"
definition SMSG_SET_FACTION_STANDING :: u16 where "SMSG_SET_FACTION_STANDING = 0x124"
definition SMSG_SET_FORCED_REACTIONS :: u16 where "SMSG_SET_FORCED_REACTIONS = 0x2A5"

definition SendForceReactions :: "repmgr \<Rightarrow> repmgr" where
  "SendForceReactions m = rep_emit [RepSend \<lparr>pk_opcode = SMSG_SET_FORCED_REACTIONS,
     pk_fields = F32 (of_nat (length (rm_forced m)))
       # concat (map (\<lambda>(f, r). [F32 f, F32 (of_nat (rank_code r))]) (rm_forced m))\<rparr>] m"

text \<open>
  The state of the faction goes first, then every other one that is marked; all marks are taken
  away. The count is written over its place in the packet.
\<close>

definition state_fields :: "faction_state \<Rightarrow> field list" where
  "state_fields fs = [F32 (fa_listID fs), F32 (word_of_int (fa_standing fs))]"

definition marked_states :: "u32 \<Rightarrow> repmgr \<Rightarrow> faction_state list" where
  "marked_states listID m = filter (\<lambda>fs. fa_needSend fs \<and> fa_listID fs \<noteq> listID) (map snd (rm_factions m))"

definition SendState :: "u32 \<Rightarrow> repmgr \<Rightarrow> repmgr" where
  "SendState k m = (case sm_find (rm_factions m) k of None \<Rightarrow> m | Some fs \<Rightarrow>
     (let others = marked_states (fa_listID fs) m in
      rep_emit [RepSend \<lparr>pk_opcode = SMSG_SET_FACTION_STANDING,
          pk_fields = [FFloat 0, F8 (if rm_increased m then 1 else 0), F32 (of_nat (Suc (length others)))]
            @ state_fields fs @ concat (map state_fields others)\<rparr>]
        (m\<lparr>rm_increased := False,
           rm_factions := sm_map (\<lambda>k fs. fs\<lparr>fa_needSend := False\<rparr>) (rm_factions m)\<rparr>)))"

fun send_states :: "u32 list \<Rightarrow> repmgr \<Rightarrow> repmgr" where
  "send_states [] m = m"
| "send_states (k # ks) m = send_states ks (SendState k m)"

definition SendStates :: "repmgr \<Rightarrow> repmgr" where
  "SendStates m = send_states (sm_keys (rm_factions m)) m"

text \<open>\<open>fill a b\<close>: the fields of the loop \<open>for (; a != b; ++a)\<close>.\<close>

definition fill :: "u32 \<Rightarrow> u32 \<Rightarrow> field list" where
  "fill a b = concat (replicate (unat (b - a)) [F8 0, F32 0])"

fun initial_fields :: "(u32, faction_state) smap \<Rightarrow> u32 \<Rightarrow> field list" where
  "initial_fields [] a = fill a 128"
| "initial_fields ((k, fs) # rest) a =
     fill a k @ [F8 (fa_flags fs), F32 (word_of_int (fa_standing fs))] @ initial_fields rest (k + 1)"

definition SendInitialReputations :: "repmgr \<Rightarrow> repmgr" where
  "SendInitialReputations m =
     rep_emit [RepSend \<lparr>pk_opcode = SMSG_INITIALIZE_FACTIONS, pk_fields = F32 128 # initial_fields (rm_factions m) 0\<rparr>]
       (m\<lparr>rm_factions := sm_map (\<lambda>k fs. fs\<lparr>fa_needSend := False\<rparr>) (rm_factions m)\<rparr>)"

definition SendVisible :: "rep_env \<Rightarrow> faction_state \<Rightarrow> repmgr \<Rightarrow> repmgr" where
  "SendVisible e fs m = (if re_loading e then m
     else rep_emit [RepSend \<lparr>pk_opcode = SMSG_SET_FACTION_VISIBLE, pk_fields = [F32 (fa_listID fs)]\<rparr>] m)"

section \<open>The flags of one faction\<close>

definition touch :: "faction_state \<Rightarrow> faction_state" where
  "touch fs = fs\<lparr>fa_needSend := True, fa_needSave := True\<rparr>"

definition hidden_faction :: "faction_state \<Rightarrow> bool" where
  "hidden_faction fs \<longleftrightarrow> has_flag (fa_flags fs) (FACTION_FLAG_INVISIBLE_FORCED OR FACTION_FLAG_HIDDEN)"

definition SetVisibleState :: "rep_env \<Rightarrow> u32 \<Rightarrow> repmgr \<Rightarrow> repmgr" where
  "SetVisibleState e k m = (case sm_find (rm_factions m) k of None \<Rightarrow> m | Some fs \<Rightarrow>
     if hidden_faction fs \<and> \<not> has_flag (fa_flags fs) FACTION_FLAG_SPECIAL then m
     else if has_flag (fa_flags fs) FACTION_FLAG_VISIBLE then m
     else SendVisible e fs
       (upd_faction k (\<lambda>fs. touch (fs\<lparr>fa_flags := fa_flags fs OR FACTION_FLAG_VISIBLE\<rparr>)) (m\<lparr>rm_visible := rm_visible m + 1\<rparr>)))"

definition set_at_war :: "bool \<Rightarrow> faction_state \<Rightarrow> faction_state" where
  "set_at_war atWar fs =
     (if atWar \<and> has_flag (fa_flags fs) FACTION_FLAG_PEACE_FORCED \<and> ReputationToRank (fa_standing fs) > REP_HOSTILE then fs
      else if has_flag (fa_flags fs) FACTION_FLAG_AT_WAR = atWar then fs
      else touch (fs\<lparr>fa_flags := (if atWar then fa_flags fs OR FACTION_FLAG_AT_WAR
                                   else fa_flags fs AND NOT FACTION_FLAG_AT_WAR)\<rparr>))"

definition set_inactive :: "bool \<Rightarrow> faction_state \<Rightarrow> faction_state" where
  "set_inactive inactive fs =
     (if inactive \<and> (hidden_faction fs \<or> \<not> has_flag (fa_flags fs) FACTION_FLAG_VISIBLE) then fs
      else if has_flag (fa_flags fs) FACTION_FLAG_INACTIVE = inactive then fs
      else touch (fs\<lparr>fa_flags := (if inactive then fa_flags fs OR FACTION_FLAG_INACTIVE
                                   else fa_flags fs AND NOT FACTION_FLAG_INACTIVE)\<rparr>))"

definition SetAtWar :: "u32 \<Rightarrow> bool \<Rightarrow> repmgr \<Rightarrow> repmgr" where
  "SetAtWar k on m = (case sm_find (rm_factions m) k of None \<Rightarrow> m | Some fs \<Rightarrow>
     if hidden_faction fs then m else upd_faction k (set_at_war on) m)"

definition SetInactive :: "u32 \<Rightarrow> bool \<Rightarrow> repmgr \<Rightarrow> repmgr" where
  "SetInactive k on m = upd_faction k (set_inactive on) m"

definition SetVisibleEntry :: "rep_env \<Rightarrow> faction_entry \<Rightarrow> repmgr \<Rightarrow> repmgr" where
  "SetVisibleEntry e fe m = (if fe_listID fe < 0 then m else SetVisibleState e (list_key fe) m)"

text \<open>Of a faction template only the faction is used.\<close>

definition SetVisibleTemplate :: "rep_store \<Rightarrow> rep_env \<Rightarrow> u32 \<Rightarrow> repmgr \<Rightarrow> repmgr" where
  "SetVisibleTemplate st e faction m =
     (if faction = 0 then m
      else (case LookupEntry st faction of None \<Rightarrow> m | Some fe \<Rightarrow>
        if has_flag (fe_races fe ! 1) (rst_race st) \<and> fe_values fe ! 1 = Reputation_Bottom then m
        else SetVisibleEntry e fe m))"

section \<open>Standings\<close>

definition count_rank :: "u8 \<Rightarrow> ReputationRank \<Rightarrow> repmgr \<Rightarrow> repmgr" where
  "count_rank d r m = m\<lparr>rm_exalted := (if r \<ge> REP_EXALTED then rm_exalted m + d else rm_exalted m),
     rm_revered := (if r \<ge> REP_REVERED then rm_revered m + d else rm_revered m),
     rm_honored := (if r \<ge> REP_HONORED then rm_honored m + d else rm_honored m)\<rparr>"

definition UpdateRankCounters :: "ReputationRank \<Rightarrow> ReputationRank \<Rightarrow> repmgr \<Rightarrow> repmgr" where
  "UpdateRankCounters old_rank new_rank m = count_rank 1 new_rank (count_rank (- 1) old_rank m)"

definition gain :: "rep_env \<Rightarrow> int \<Rightarrow> int" where
  "gain e standing = f32_floor_to_int (f32_add (f32_mul (f32_of_int standing) (re_gain_rate e)) fl_half)"

text \<open>\<open>standing += uint32(standing * f)\<close>: the sum is computed in \<open>uint32\<close>.\<close>

definition add_part :: "f32 \<Rightarrow> int \<Rightarrow> int" where
  "add_part f standing = s32 (standing + uint (f32_to_uint (f32_mul (f32_of_int standing) f)))"

definition guild_bonus :: "rep_env \<Rightarrow> int \<Rightarrow> int" where
  "guild_bonus e standing =
     (if re_guild e \<and> re_guild_bonus e then
        (let s1 = (if re_level1 e then add_part fl_twentieth standing else standing)
         in if re_level2 e then add_part fl_tenth s1 else s1)
      else standing)"

definition clamp :: "int \<Rightarrow> int" where
  "clamp standing = (if standing > Reputation_Cap then Reputation_Cap
     else if standing < Reputation_Bottom then Reputation_Bottom else standing)"

definition new_standing :: "rep_env \<Rightarrow> int \<Rightarrow> int \<Rightarrow> bool \<Rightarrow> int \<Rightarrow> int" where
  "new_standing e base old incremental standing =
     clamp (guild_bonus e (if incremental then s32 (gain e standing + s32 (old + base)) else standing))"

definition SetOneFactionReputation ::
    "rep_store \<Rightarrow> rep_env \<Rightarrow> u32 \<Rightarrow> int \<Rightarrow> bool \<Rightarrow> repmgr \<Rightarrow> rep_error + bool \<times> repmgr" where
  "SetOneFactionReputation st e f standing incremental m = (case LookupEntry st f of None \<Rightarrow> Inl NullFaction
   | Some fe \<Rightarrow>
     (let k = list_key fe in
      case sm_find (rm_factions m) k of None \<Rightarrow> Inr (False, m)
      | Some fs \<Rightarrow>
        (let base = GetBaseReputation st (Some fe);
             s = new_standing e base (fa_standing fs) incremental standing;
             old_rank = ReputationToRank (s32 (fa_standing fs + base));
             new_rank = ReputationToRank s;
             m1 = upd_faction k (\<lambda>fs. touch (fs\<lparr>fa_standing := s32 (s - base)\<rparr>)) m;
             m2 = SetVisibleState e k m1;
             m3 = (if new_rank \<le> REP_HOSTILE then upd_faction k (set_at_war True) m2 else m2);
             m4 = (if new_rank > old_rank then m3\<lparr>rm_increased := True\<rparr> else m3)
         in Inr (True, rep_emit [RepChanged (fe_ID fe)] (UpdateRankCounters old_rank new_rank m4)))))"

text \<open>The spillover of a template; its factions may be zero.\<close>

fun spill_template :: "rep_store \<Rightarrow> rep_env \<Rightarrow> int \<Rightarrow> bool \<Rightarrow> (u32 \<times> f32 \<times> u32) list \<Rightarrow> repmgr \<Rightarrow> rep_error + repmgr" where
  "spill_template st e standing incremental [] m = Inr m"
| "spill_template st e standing incremental ((f, rate, rank) # ts) m =
     sbind (if f \<noteq> 0 \<and> rank_code (GetRank st (LookupEntry st f) m) \<le> unat rank then
              sbind (SetOneFactionReputation st e f
                  (f32_to_int (f32_mul (f32_of_int standing) rate)) incremental m)
                (\<lambda>(res, m1). Inr m1)
            else Inr m)
       (spill_template st e standing incremental ts)"

text \<open>The spillover to affiliated factions; \<open>out\<close> is the float that is spilled.\<close>

fun spill_list :: "rep_store \<Rightarrow> rep_env \<Rightarrow> u32 \<Rightarrow> f32 \<Rightarrow> bool \<Rightarrow> u32 list \<Rightarrow> bool \<times> repmgr \<Rightarrow> rep_error + bool \<times> repmgr" where
  "spill_list st e f out incremental [] (res, m) = Inr (res, m)"
| "spill_list st e f out incremental (i # is) (res, m) =
     sbind (case LookupEntry st i of None \<Rightarrow> Inr (res, m) | Some fe \<Rightarrow>
         if i = f \<or> rank_code (GetRank st (Some fe) m) > unat (fe_maxRankIn fe) then Inr (res, m)
         else
           (let rep = f32_to_int (f32_mul out (fe_rateIn fe)) in
            if rep \<noteq> 0 \<or> \<not> incremental then SetOneFactionReputation st e i rep incremental m else Inr (res, m)))
       (spill_list st e f out incremental is)"

definition spillover :: "rep_store \<Rightarrow> rep_env \<Rightarrow> u32 \<Rightarrow> faction_entry \<Rightarrow> int \<Rightarrow> bool \<Rightarrow> repmgr \<Rightarrow> rep_error + bool \<times> repmgr" where
  "spillover st e f fe standing incremental m =
     (let out = f32_of_int standing;
          flist = GetFactionTeamList st (fe_ID fe)
      in if flist = None \<and> fe_team fe \<noteq> 0 \<and> \<not> f32_eq (fe_rateOut fe) 0 then
           (let out = f32_mul out (fe_rateOut fe) in
            case LookupEntry st (fe_team fe) of None \<Rightarrow> Inr (False, m)
            | Some parent \<Rightarrow>
              (case sm_find (rm_factions m) (list_key parent) of
                 Some ps \<Rightarrow>
                   if has_flag (fa_flags ps) FACTION_FLAG_SPECIAL
                   then sbind (SetOneFactionReputation st e (fe_team fe) (f32_to_int out) incremental m)
                     (\<lambda>(res, m1). Inr (False, m1))
                   else spill_list st e f out incremental (case GetFactionTeamList st (fe_team fe) of None \<Rightarrow> [] | Some l \<Rightarrow> l) (False, m)
               | None \<Rightarrow> spill_list st e f out incremental (case GetFactionTeamList st (fe_team fe) of None \<Rightarrow> [] | Some l \<Rightarrow> l) (False, m)))
         else spill_list st e f out incremental (case flist of None \<Rightarrow> [] | Some l \<Rightarrow> l) (False, m))"

definition SetReputation :: "rep_store \<Rightarrow> rep_env \<Rightarrow> u32 \<Rightarrow> int \<Rightarrow> bool \<Rightarrow> repmgr \<Rightarrow> rep_error + bool \<times> repmgr" where
  "SetReputation st e f standing incremental m = (case LookupEntry st f of None \<Rightarrow> Inl NullFaction
   | Some fe \<Rightarrow>
     (let m0 = rep_emit [RepHook (fe_ID fe) standing incremental] m in
      sbind (case rst_spill st (fe_ID fe) of
               Some ts \<Rightarrow> sbind (spill_template st e standing incremental ts m0) (\<lambda>m1. Inr (False, m1))
             | None \<Rightarrow> spillover st e f fe standing incremental m0) (\<lambda>(res, m1).
      if sm_find (rm_factions m1) (list_key fe) \<noteq> None
      then sbind (SetOneFactionReputation st e f standing incremental m1) (\<lambda>(res2, m2).
             Inr (res2, SendState (list_key fe) m2))
      else Inr (res, m1))))"

section \<open>Loading and saving\<close>

definition initial_state :: "rep_store \<Rightarrow> faction_entry \<Rightarrow> faction_state" where
  "initial_state st fe = \<lparr>fa_ID = fe_ID fe, fa_listID = list_key fe, fa_standing = 0,
     fa_flags = ucast (GetDefaultStateFlags st (Some fe)), fa_needSend = True, fa_needSave = True\<rparr>"

definition init_faction :: "rep_store \<Rightarrow> faction_entry \<Rightarrow> repmgr \<Rightarrow> repmgr" where
  "init_faction st fe m =
     (let fs = initial_state st fe;
          m1 = (if has_flag (fa_flags fs) FACTION_FLAG_VISIBLE then m\<lparr>rm_visible := rm_visible m + 1\<rparr> else m);
          m2 = UpdateRankCounters REP_HOSTILE (GetBaseRank st (Some fe)) m1
      in m2\<lparr>rm_factions := sm_put (fa_listID fs) fs (rm_factions m2)\<rparr>)"

fun init_rows :: "rep_store \<Rightarrow> faction_entry option list \<Rightarrow> repmgr \<Rightarrow> repmgr" where
  "init_rows st [] m = m"
| "init_rows st (r # rs) m = init_rows st rs
     (case r of None \<Rightarrow> m | Some fe \<Rightarrow> if fe_listID fe \<ge> 0 then init_faction st fe m else m)"

text \<open>The loop starts at row 1.\<close>

definition Initialize :: "rep_store \<Rightarrow> repmgr \<Rightarrow> repmgr" where
  "Initialize st m = init_rows st (drop 1 (rst_rows st))
     (m\<lparr>rm_factions := [], rm_visible := 0, rm_honored := 0, rm_revered := 0, rm_exalted := 0, rm_increased := False\<rparr>)"

definition no_state :: faction_state where
  "no_state = \<lparr>fa_ID = 0, fa_listID = 0, fa_standing = 0, fa_flags = 0, fa_needSend = False, fa_needSave = False\<rparr>"

definition load_row :: "rep_store \<Rightarrow> rep_env \<Rightarrow> u16 \<times> int \<times> u16 \<Rightarrow> repmgr \<Rightarrow> repmgr" where
  "load_row st e row m = (case row of (f, standing, dbFlags) \<Rightarrow>
     (case LookupEntry st (ucast f) of None \<Rightarrow> m | Some fe \<Rightarrow>
       if fe_listID fe < 0 then m
       else
         (let k = list_key fe;
              m0 = (if sm_find (rm_factions m) k = None then m\<lparr>rm_factions := sm_put k no_state (rm_factions m)\<rparr> else m);
              m1 = upd_faction k (\<lambda>fs. fs\<lparr>fa_standing := standing\<rparr>) m0;
              base = GetBaseReputation st (Some fe);
              m2 = UpdateRankCounters (ReputationToRank base) (ReputationToRank (s32 (base + standing))) m1;
              m3 = (if has_flag dbFlags (ucast FACTION_FLAG_VISIBLE) then SetVisibleState e k m2 else m2);
              m4 = (if has_flag dbFlags (ucast FACTION_FLAG_INACTIVE) then upd_faction k (set_inactive True) m3 else m3);
              m5 = (if has_flag dbFlags (ucast FACTION_FLAG_AT_WAR) then upd_faction k (set_at_war True) m4
                    else upd_faction k (\<lambda>fs. if has_flag (fa_flags fs) FACTION_FLAG_VISIBLE then set_at_war False fs else fs) m4);
              m6 = (if GetRank st (Some fe) m5 \<le> REP_HOSTILE then upd_faction k (set_at_war True) m5 else m5)
          in upd_faction k (\<lambda>fs. if ucast (fa_flags fs) = dbFlags
               then fs\<lparr>fa_needSend := False, fa_needSave := False\<rparr> else fs) m6)))"

fun load_rows :: "rep_store \<Rightarrow> rep_env \<Rightarrow> (u16 \<times> int \<times> u16) list \<Rightarrow> repmgr \<Rightarrow> repmgr" where
  "load_rows st e [] m = m"
| "load_rows st e (r # rs) m = load_rows st e rs (load_row st e r m)"

definition LoadFromDB :: "rep_store \<Rightarrow> rep_env \<Rightarrow> (u16 \<times> int \<times> u16) list \<Rightarrow> repmgr \<Rightarrow> repmgr" where
  "LoadFromDB st e rows m = load_rows st e rows (Initialize st m)"

definition save_stmts :: "faction_state \<Rightarrow> rep_stmt list" where
  "save_stmts fs = (if fa_needSave fs then [DelReputation (ucast (fa_ID fs)),
     InsReputation (ucast (fa_ID fs)) (fa_standing fs) (ucast (fa_flags fs))] else [])"

definition SaveToDB :: "repmgr \<Rightarrow> repmgr" where
  "SaveToDB m = rep_emit (map RepSql (concat (map (save_stmts \<circ> snd) (rm_factions m))))
     (m\<lparr>rm_factions := sm_map (\<lambda>k fs. fs\<lparr>fa_needSave := False\<rparr>) (rm_factions m)\<rparr>)"

section \<open>Handlers\<close>

definition HandleSetFactionAtWar :: "u32 \<Rightarrow> u8 \<Rightarrow> repmgr \<Rightarrow> repmgr" where
  "HandleSetFactionAtWar repListID flag m = SetAtWar repListID (flag \<noteq> 0) m"

definition HandleSetFactionInactiveOpcode :: "u32 \<Rightarrow> u8 \<Rightarrow> repmgr \<Rightarrow> repmgr" where
  "HandleSetFactionInactiveOpcode replistid inactive m = SetInactive replistid (inactive \<noteq> 0) m"

definition HandleSetFactionCheat :: "repmgr \<Rightarrow> repmgr" where
  "HandleSetFactionCheat m = SendStates m"

end
