(* ===== verification/Reputation_Props.thy ===== *)
theory Reputation_Props
  imports Reputation
begin

text \<open>
  The properties of the reputation: the thresholds of the ranks, the counters of the known,
  honored, revered and exalted factions, the bounds of a standing, and what survives when a
  player logs out and in again.
\<close>

section \<open>Ranks\<close>

lemma s32_range: "- 2147483648 \<le> s32 x" "s32 x < 2147483648"
  using signed_take_bit_int_greater_eq_minus_exp [of 31 x] signed_take_bit_int_less_exp [of 31 x] by (simp_all add: s32_def)

lemma s32_id: "- 2147483648 \<le> x \<Longrightarrow> x < 2147483648 \<Longrightarrow> s32 x = x"
  by (simp add: s32_def signed_take_bit_int_eq_self)

lemma s32_add: "s32 (s32 x + y) = s32 (x + y)"
proof -
  have "take_bit 32 (s32 x) = take_bit 32 x"
    unfolding s32_def by (rule take_bit_signed_take_bit) simp
  then have "take_bit 32 (s32 x + y) = take_bit 32 (x + y)"
    using take_bit_add [of 32 "s32 x" y] take_bit_add [of 32 x y] by metis
  then show ?thesis by (simp add: s32_def signed_take_bit_eq_iff_take_bit_eq)
qed

text \<open>The lowest standing of each rank.\<close>

fun threshold :: "ReputationRank \<Rightarrow> int" where
  "threshold REP_HATED = - 42000"
| "threshold REP_HOSTILE = - 6000"
| "threshold REP_UNFRIENDLY = - 3000"
| "threshold REP_NEUTRAL = 0"
| "threshold REP_FRIENDLY = 3000"
| "threshold REP_HONORED = 9000"
| "threshold REP_REVERED = 21000"
| "threshold REP_EXALTED = 42000"

lemma rank_least [simp]: "REP_HATED \<le> r"
  by (cases r) (simp_all add: rank_order)

lemma ReputationToRank_eq: "ReputationToRank s =
  (if s \<ge> 42000 then REP_EXALTED else if s \<ge> 21000 then REP_REVERED else if s \<ge> 9000 then REP_HONORED
   else if s \<ge> 3000 then REP_FRIENDLY else if s \<ge> 0 then REP_NEUTRAL else if s \<ge> - 3000 then REP_UNFRIENDLY
   else if s \<ge> - 6000 then REP_HOSTILE else REP_HATED)"
  by (simp add: ReputationToRank_def PointsInRank_def Reputation_Cap_def)

lemma ReputationToRank_ge: "r \<le> ReputationToRank s \<longleftrightarrow> r = REP_HATED \<or> threshold r \<le> s"
  by (cases r) (auto simp: ReputationToRank_eq rank_order)

lemma ReputationToRank_mono: "s \<le> t \<Longrightarrow> ReputationToRank s \<le> ReputationToRank t"
  using ReputationToRank_ge [of "ReputationToRank s" s] by (auto simp: ReputationToRank_ge)

section \<open>Maps\<close>

text \<open>An entry of a sorted map, and what replacing it does to the list.\<close>

lemma sm_split:
  assumes "sm_wf m" "sm_find m k = Some v"
  obtains l r where "m = l @ (k, v) # r" "\<And>w. sm_put k w m = l @ (k, w) # r"
proof -
  from assms obtain l r where m: "m = l @ (k, v) # r" by (metis sm_find_Some_iff split_list)
  with assms(1) have "\<forall>x\<in>set l. fst x < k" "\<forall>x\<in>set r. k < fst x"
    by (auto simp: sm_wf_def sorted_wrt_append)
  then have "filter (\<lambda>e. fst e < k) l = l" "filter (\<lambda>e. k < fst e) l = []" "filter (\<lambda>e. fst e < k) r = []"
      "filter (\<lambda>e. k < fst e) r = r"
    by (auto simp: filter_empty_conv filter_id_conv dest: less_asym)
  with m that show thesis by (simp add: sm_put_def)
qed

lemma sm_absent:
  assumes "sm_wf m" "sm_find m k = None"
  obtains l r where "m = l @ r" "\<And>w. sm_put k w m = l @ (k, w) # r"
proof -
  have ne: "fst x \<noteq> k" if "x \<in> set m" for x using assms(2) that by (auto simp: sm_find_def map_of_eq_None_iff)
  have "filter (\<lambda>e. fst e < k) m @ filter (\<lambda>e. k < fst e) m = m"
    using assms(1) ne
  proof (induction m)
    case (Cons x m)
    then have IH: "filter (\<lambda>e. fst e < k) m @ filter (\<lambda>e. k < fst e) m = m" by (simp add: sm_wf_def)
    show ?case
    proof (cases "fst x < k")
      case False
      with Cons.prems have "k < fst x" by (metis linorder_neqE list.set_intros(1))
      with Cons.prems have "\<forall>y\<in>set m. k < fst y" by (auto simp: sm_wf_def)
      then have "filter (\<lambda>e. fst e < k) m = []" "filter (\<lambda>e. k < fst e) m = m"
        by (auto simp: filter_empty_conv filter_id_conv dest: less_asym)
      with \<open>k < fst x\<close> False show ?thesis by simp
    qed (use IH in simp)
  qed simp
  with that [of "filter (\<lambda>e. fst e < k) m" "filter (\<lambda>e. k < fst e) m"] show thesis by (simp add: sm_put_def)
qed

definition tally_of :: "('v \<Rightarrow> bool) \<Rightarrow> ('k, 'v) smap \<Rightarrow> u8" where
  "tally_of P m = of_nat (length (filter P (map snd m)))"

lemma tally_put: "sm_wf m \<Longrightarrow> sm_find m k = Some v \<Longrightarrow>
  tally_of P (sm_put k w m) = tally_of P m - of_bool (P v) + of_bool (P w)"
  by (erule (1) sm_split) (auto simp: tally_of_def)

lemma tally_new: "sm_wf m \<Longrightarrow> sm_find m k = None \<Longrightarrow> tally_of P (sm_put k w m) = tally_of P m + of_bool (P w)"
  by (erule (1) sm_absent) (auto simp: tally_of_def)

lemma tally_map: "(\<And>k v. P (f k v) = P v) \<Longrightarrow> tally_of P (sm_map f m) = tally_of P m"
  by (simp add: tally_of_def sm_map_def filter_map comp_def)

section \<open>Flags as bits\<close>

lemma faction_flags:
  "FACTION_FLAG_VISIBLE = 2 ^ 0" "FACTION_FLAG_AT_WAR = 2 ^ 1" "FACTION_FLAG_HIDDEN = 2 ^ 2"
  "FACTION_FLAG_INVISIBLE_FORCED = 2 ^ 3" "FACTION_FLAG_PEACE_FORCED = 2 ^ 4" "FACTION_FLAG_INACTIVE = 2 ^ 5"
  "FACTION_FLAG_SPECIAL = 2 ^ 7"
  by (simp_all add: FACTION_FLAG_VISIBLE_def FACTION_FLAG_AT_WAR_def FACTION_FLAG_HIDDEN_def
      FACTION_FLAG_INVISIBLE_FORCED_def FACTION_FLAG_PEACE_FORCED_def FACTION_FLAG_INACTIVE_def FACTION_FLAG_SPECIAL_def)

lemma faction_bits:
  "has_flag x FACTION_FLAG_VISIBLE = bit x 0" "has_flag x FACTION_FLAG_AT_WAR = bit x 1"
  "has_flag x FACTION_FLAG_PEACE_FORCED = bit x 4" "has_flag x FACTION_FLAG_INACTIVE = bit x 5"
  "has_flag x FACTION_FLAG_SPECIAL = bit x 7"
  by (simp_all only: faction_flags has_flag_bit)

lemma hidden_bits: "hidden_faction fs \<longleftrightarrow> bit (fa_flags fs) 2 \<or> bit (fa_flags fs) 3"
proof -
  have "x AND (2 ^ 3 OR 2 ^ 2) = (x AND 2 ^ 3) OR (x AND 2 ^ 2)" for x :: u8 by (rule bit.conj_disj_distrib)
  then have "hidden_faction fs \<longleftrightarrow> (fa_flags fs AND 2 ^ 3) OR (fa_flags fs AND 2 ^ 2) \<noteq> 0"
    by (simp add: hidden_faction_def has_flag_def faction_flags)
  also have "\<dots> \<longleftrightarrow> has_flag (fa_flags fs) (2 ^ 3) \<or> has_flag (fa_flags fs) (2 ^ 2)"
    by (simp add: has_flag_def or_eq_0_iff)
  finally show ?thesis unfolding has_flag_bit by blast
qed

lemma set_bit_or: "n < 8 \<Longrightarrow> bit (x OR 2 ^ n) j \<longleftrightarrow> bit (x :: u8) j \<or> j = n"
  by (auto simp: bit_simps dest: bit_imp_le_length)

lemma clear_bit: "bit (x AND NOT (2 ^ n)) j \<longleftrightarrow> bit (x :: u8) j \<and> j \<noteq> n"
  by (auto simp: bit_simps dest: bit_imp_le_length)

lemma flag_changes:
  "bit (x OR FACTION_FLAG_VISIBLE) j \<longleftrightarrow> bit x j \<or> j = 0"
  "bit (x OR FACTION_FLAG_AT_WAR) j \<longleftrightarrow> bit x j \<or> j = 1" "bit (x AND NOT FACTION_FLAG_AT_WAR) j \<longleftrightarrow> bit x j \<and> j \<noteq> 1"
  "bit (x OR FACTION_FLAG_INACTIVE) j \<longleftrightarrow> bit x j \<or> j = 5" "bit (x AND NOT FACTION_FLAG_INACTIVE) j \<longleftrightarrow> bit x j \<and> j \<noteq> 5"
  unfolding faction_flags by (simp_all only: clear_bit set_bit_or)

text \<open>
  What the flags of a faction can become from its default ones: only the three flags of the player
  change, a visible one stays visible, and only visible ones are inactive.
\<close>

definition flags_ok :: "u8 \<Rightarrow> u8 \<Rightarrow> bool" where
  "flags_ok d x \<longleftrightarrow> (\<forall>n<8. n \<notin> {0, 1, 5} \<longrightarrow> bit x n = bit d n) \<and> (bit d 0 \<longrightarrow> bit x 0)
     \<and> (bit x 0 \<and> \<not> bit d 0 \<longrightarrow> bit d 7 \<or> (\<not> bit d 2 \<and> \<not> bit d 3))
     \<and> (bit x 5 \<longrightarrow> bit x 0 \<and> \<not> bit d 2 \<and> \<not> bit d 3)"

lemma flags_okD: "flags_ok d x \<Longrightarrow> bit x 2 = bit d 2 \<and> bit x 3 = bit d 3 \<and> bit x 4 = bit d 4 \<and> bit x 7 = bit d 7"
  by (simp add: flags_ok_def)

lemma flags_ok_visible: "flags_ok d x \<Longrightarrow> \<not> ((bit x 2 \<or> bit x 3) \<and> \<not> bit x 7) \<Longrightarrow> flags_ok d (x OR FACTION_FLAG_VISIBLE)"
  by (auto simp: flags_ok_def flag_changes)

lemma flags_ok_war: "flags_ok d x \<Longrightarrow> flags_ok d (x OR FACTION_FLAG_AT_WAR)"
  "flags_ok d x \<Longrightarrow> flags_ok d (x AND NOT FACTION_FLAG_AT_WAR)"
  by (auto simp: flags_ok_def flag_changes)

lemma flags_ok_inactive:
  "flags_ok d x \<Longrightarrow> bit x 0 \<Longrightarrow> \<not> bit x 2 \<Longrightarrow> \<not> bit x 3 \<Longrightarrow> flags_ok d (x OR FACTION_FLAG_INACTIVE)"
  "flags_ok d x \<Longrightarrow> flags_ok d (x AND NOT FACTION_FLAG_INACTIVE)"
  by (auto simp: flags_ok_def flag_changes)

section \<open>The invariant\<close>

definition default_flags :: "rep_store \<Rightarrow> faction_entry \<Rightarrow> u8" where
  "default_flags st fe = ucast (GetDefaultStateFlags st (Some fe))"

text \<open>
  The data files: rows are numbered by their id, the places in the reputation list are distinct,
  base standings are in range, and no faction is inactive by default.
\<close>

definition dbc_ok :: "rep_store \<Rightarrow> bool" where
  "dbc_ok st \<longleftrightarrow> length (rst_rows st) \<le> 65536 \<and>
     (\<forall>i<length (rst_rows st). \<forall>fe. rst_rows st ! i = Some fe \<longrightarrow> fe_ID fe = of_nat i \<and> - 2147483648 \<le> fe_listID fe
        \<and> fe_listID fe < 2147483648
        \<and> (i = 0 \<longrightarrow> fe_listID fe < 0) \<and> Reputation_Bottom \<le> GetBaseReputation st (Some fe)
        \<and> GetBaseReputation st (Some fe) \<le> Reputation_Cap \<and> \<not> bit (default_flags st fe) 5) \<and>
     (\<forall>i<length (rst_rows st). \<forall>j<length (rst_rows st). \<forall>fe fe'. rst_rows st ! i = Some fe \<and> rst_rows st ! j = Some fe'
        \<and> fe_listID fe \<ge> 0 \<and> fe_listID fe = fe_listID fe' \<longrightarrow> i = j)"

definition total :: "rep_store \<Rightarrow> faction_state \<Rightarrow> int" where
  "total st fs = s32 (GetBaseReputation st (LookupEntry st (fa_ID fs)) + fa_standing fs)"

definition ranked :: "rep_store \<Rightarrow> ReputationRank \<Rightarrow> faction_state \<Rightarrow> bool" where
  "ranked st r fs \<longleftrightarrow> r \<le> ReputationToRank (total st fs)"

definition visible :: "faction_state \<Rightarrow> bool" where
  "visible fs \<longleftrightarrow> has_flag (fa_flags fs) FACTION_FLAG_VISIBLE"

definition counters_ok :: "rep_store \<Rightarrow> repmgr \<Rightarrow> bool" where
  "counters_ok st m \<longleftrightarrow> rm_visible m = tally_of visible (rm_factions m)
     \<and> rm_honored m = tally_of (ranked st REP_HONORED) (rm_factions m)
     \<and> rm_revered m = tally_of (ranked st REP_REVERED) (rm_factions m)
     \<and> rm_exalted m = tally_of (ranked st REP_EXALTED) (rm_factions m)"

text \<open>The state of the faction in row \<open>fa_ID\<close>, at its place in the list.\<close>

definition state_ok :: "rep_store \<Rightarrow> u32 \<Rightarrow> faction_state \<Rightarrow> bool" where
  "state_ok st k fs \<longleftrightarrow> (\<exists>fe. LookupEntry st (fa_ID fs) = Some fe \<and> fe_ID fe = fa_ID fs \<and> fe_listID fe \<ge> 0
     \<and> list_key fe = k \<and> fa_listID fs = k \<and> flags_ok (default_flags st fe) (fa_flags fs))
     \<and> Reputation_Bottom \<le> total st fs \<and> total st fs \<le> Reputation_Cap \<and> s32 (fa_standing fs) = fa_standing fs"

definition rep_ok :: "rep_store \<Rightarrow> repmgr \<Rightarrow> bool" where
  "rep_ok st m \<longleftrightarrow> sm_wf (rm_factions m) \<and> counters_ok st m \<and> (\<forall>k fs. sm_find (rm_factions m) k = Some fs \<longrightarrow> state_ok st k fs)"

lemma rep_okD: "rep_ok st m \<Longrightarrow> sm_find (rm_factions m) k = Some fs \<Longrightarrow> state_ok st k fs"
  by (simp add: rep_ok_def)

lemma rep_ok_wf: "rep_ok st m \<Longrightarrow> sm_wf (rm_factions m)"
  by (simp add: rep_ok_def)

lemma rep_ok_frame:
  "rm_factions m' = rm_factions m \<Longrightarrow> rm_visible m' = rm_visible m \<Longrightarrow> rm_honored m' = rm_honored m \<Longrightarrow>
   rm_revered m' = rm_revered m \<Longrightarrow> rm_exalted m' = rm_exalted m \<Longrightarrow> rep_ok st m' = rep_ok st m"
  by (simp add: rep_ok_def counters_ok_def)

lemma rep_ok_simps [simp]: "rep_ok st (rep_emit es m) = rep_ok st m" "rep_ok st (m\<lparr>rm_increased := b\<rparr>) = rep_ok st m"
  "rep_ok st (m\<lparr>rm_forced := x\<rparr>) = rep_ok st m"
  by (rule rep_ok_frame; simp add: rep_emit_def)+

lemma rep_emit_simps [simp]: "rm_factions (rep_emit es m) = rm_factions m"
  by (simp add: rep_emit_def)

text \<open>An update that keeps who the faction is, its standing and whether it is visible.\<close>

definition mild :: "(faction_state \<Rightarrow> faction_state) \<Rightarrow> bool" where
  "mild f \<longleftrightarrow> (\<forall>fs. fa_ID (f fs) = fa_ID fs \<and> fa_listID (f fs) = fa_listID fs \<and> fa_standing (f fs) = fa_standing fs
     \<and> bit (fa_flags (f fs)) 0 = bit (fa_flags fs) 0
     \<and> (\<forall>d. flags_ok d (fa_flags fs) \<longrightarrow> flags_ok d (fa_flags (f fs))))"

lemma mild_facts:
  assumes "mild f"
  shows "total st (f fs) = total st fs" "ranked st r (f fs) = ranked st r fs" "visible (f fs) = visible fs"
    "state_ok st k fs \<Longrightarrow> state_ok st k (f fs)"
  using assms by (auto simp: mild_def total_def ranked_def visible_def faction_bits state_ok_def)

lemma rep_ok_mild: "rep_ok st m \<Longrightarrow> mild f \<Longrightarrow> rep_ok st (upd_faction k f m)"
  by (auto simp: rep_ok_def counters_ok_def upd_faction_def sm_wf_put tally_put mild_facts sm_find_put
      split: option.split if_splits)

lemma mild_clear [simp]: "mild (\<lambda>fs. fs\<lparr>fa_needSend := a\<rparr>)" "mild (\<lambda>fs. fs\<lparr>fa_needSave := b\<rparr>)" "mild touch"
  by (simp_all add: mild_def touch_def)

lemma mild_war [simp]: "mild (set_at_war on)"
  by (auto simp: mild_def set_at_war_def touch_def flag_changes flags_ok_war)

lemma mild_inactive [simp]: "mild (set_inactive on)"
  by (auto simp: mild_def set_inactive_def touch_def hidden_bits faction_bits flag_changes intro!: flags_ok_inactive)

lemma mild_if [simp]: "mild f \<Longrightarrow> mild g \<Longrightarrow> mild (\<lambda>fs. if P fs then f fs else g fs)" "mild (\<lambda>fs. fs)"
  by (auto simp: mild_def)

lemma rep_ok_map:
  assumes "rep_ok st m" "mild f"
  shows "rep_ok st (m\<lparr>rm_factions := sm_map (\<lambda>k. f) (rm_factions m)\<rparr>)"
  using assms by (auto simp: rep_ok_def counters_ok_def sm_wf_map tally_map mild_facts sm_find_map)

section \<open>Every operation keeps the invariant\<close>

lemma find_upd: "sm_find (rm_factions (upd_faction k f m)) j =
  (if j = k then map_option f (sm_find (rm_factions m) k) else sm_find (rm_factions m) j)"
  by (simp add: upd_faction_def sm_find_put split: option.split)

lemma SetVisibleState_ok:
  assumes ok: "rep_ok st m"
  shows "rep_ok st (SetVisibleState e k m)"
proof (cases "sm_find (rm_factions m) k")
  case None
  with ok show ?thesis by (simp add: SetVisibleState_def)
next
  case (Some fs)
  let ?f = "\<lambda>fs. touch (fs\<lparr>fa_flags := fa_flags fs OR FACTION_FLAG_VISIBLE\<rparr>)"
  let ?m = "upd_faction k ?f (m\<lparr>rm_visible := rm_visible m + 1\<rparr>)"
  have "rep_ok st ?m" if v: "\<not> visible fs" and h: "\<not> (hidden_faction fs \<and> \<not> bit (fa_flags fs) 7)"
  proof -
    have same: "total st (?f fs) = total st fs" "visible (?f fs)"
      by (simp_all add: touch_def total_def visible_def faction_bits flag_changes)
    have "state_ok st k (?f fs)"
      using rep_okD [OF ok Some] h same
      by (auto simp: state_ok_def hidden_bits touch_def intro!: flags_ok_visible)
    with ok Some v same show ?thesis
      by (auto simp: rep_ok_def counters_ok_def upd_faction_def sm_wf_put tally_put sm_find_put ranked_def split: if_splits)
  qed
  with ok Some show ?thesis
    by (auto simp: SetVisibleState_def SendVisible_def visible_def faction_bits)
qed

lemma dbc_row: "LookupEntry st i = Some fe \<Longrightarrow> unat i < length (rst_rows st) \<and> rst_rows st ! unat i = Some fe"
  by (simp add: LookupEntry_def split: if_splits)

lemma key_inject:
  assumes "- 2147483648 \<le> a" "a < 2147483648" "- 2147483648 \<le> b" "b < (2147483648 :: int)" "word_of_int a = (word_of_int b :: u32)"
  shows "a = b"
proof -
  have "sint (word_of_int c :: u32) = s32 c" for c by (simp add: s32_def signed_of_int)
  with assms show ?thesis by (metis s32_id)
qed

lemma same_entry:
  assumes d: "dbc_ok st" and i: "LookupEntry st i = Some fe" and j: "LookupEntry st j = Some fe'"
    and l: "fe_listID fe' \<ge> 0" and k: "list_key fe = list_key fe'"
  shows "fe = fe'"
proof -
  note r = dbc_row [OF i] dbc_row [OF j]
  have "fe_listID fe = fe_listID fe'"
    by (rule key_inject) (use d r k in \<open>auto simp: dbc_ok_def list_key_def\<close>)
  then have "unat i = unat j" using d r l unfolding dbc_ok_def by metis
  with r show ?thesis by simp
qed

lemma count_commutes:
  "count_rank d r (upd_faction k f m) = upd_faction k f (count_rank d r m)"
  "count_rank d r (SetVisibleState e k m) = SetVisibleState e k (count_rank d r m)"
  "count_rank d r (m\<lparr>rm_increased := b\<rparr>) = (count_rank d r m)\<lparr>rm_increased := b\<rparr>"
  by (auto simp: count_rank_def upd_faction_def SetVisibleState_def SendVisible_def rep_emit_def split: option.split)

lemma clamp_range: "Reputation_Bottom \<le> clamp s" "clamp s \<le> Reputation_Cap"
  by (simp_all add: clamp_def Reputation_Bottom_def Reputation_Cap_def)

lemma new_standing_range: "Reputation_Bottom \<le> new_standing e b old inc s" "new_standing e b old inc s \<le> Reputation_Cap"
  by (simp_all add: new_standing_def clamp_range)

text \<open>Replacing a standing, with the counters.\<close>

lemma restand_ok:
  assumes ok: "rep_ok st m" and fs: "sm_find (rm_factions m) k = Some fs"
    and base: "base = GetBaseReputation st (LookupEntry st (fa_ID fs))" and s: "Reputation_Bottom \<le> s" "s \<le> Reputation_Cap"
    and g: "\<And>fs. fa_ID (g fs) = fa_ID fs \<and> fa_listID (g fs) = fa_listID fs \<and> fa_flags (g fs) = fa_flags fs
      \<and> fa_standing (g fs) = s32 (s - base)"
  shows "rep_ok st (UpdateRankCounters (ReputationToRank (s32 (fa_standing fs + base))) (ReputationToRank s) (upd_faction k g m))"
proof -
  have "s32 (base + s32 (s - base)) = s32 s" using s32_add [of "s - base" base] by (simp add: add.commute)
  also have "\<dots> = s" using s by (intro s32_id) (simp_all add: Reputation_Bottom_def Reputation_Cap_def)
  finally have t: "total st (g fs) = s" using g [of fs] by (simp add: total_def base)
  have old: "total st fs = s32 (fa_standing fs + base)" by (simp add: total_def base add.commute)
  have idem: "s32 (s32 x) = s32 x" for x using s32_add [of x 0] by simp
  have "state_ok st k (g fs)"
    using rep_okD [OF ok fs] s g [of fs] t by (simp add: state_ok_def idem)
  moreover have "visible (g fs) = visible fs" using g [of fs] by (simp add: visible_def)
  moreover have "ranked st r (g fs) = (r \<le> ReputationToRank s)"
    "ranked st r fs = (r \<le> ReputationToRank (s32 (fa_standing fs + base)))" for r
    by (simp_all add: ranked_def t old)
  ultimately show ?thesis
    using ok fs
    by (auto simp: rep_ok_def counters_ok_def UpdateRankCounters_def count_rank_def upd_faction_def sm_wf_put tally_put
        sm_find_put split: if_splits)
qed

lemma SetOneFactionReputation_ok:
  assumes d: "dbc_ok st" and ok: "rep_ok st m" and st: "SetOneFactionReputation st e f standing inc m = Inr (b, m')"
  shows "rep_ok st m'"
proof -
  obtain fe where fe: "LookupEntry st f = Some fe" using st by (auto simp: SetOneFactionReputation_def split: option.splits)
  let ?k = "list_key fe" and ?base = "GetBaseReputation st (Some fe)"
  show ?thesis
  proof (cases "sm_find (rm_factions m) ?k")
    case None
    with st fe ok show ?thesis by (simp add: SetOneFactionReputation_def Let_def)
  next
    case (Some fs)
    let ?s = "new_standing e ?base (fa_standing fs) inc standing"
    let ?old = "ReputationToRank (s32 (fa_standing fs + ?base))"
    obtain fe' where fe': "LookupEntry st (fa_ID fs) = Some fe'" "fe_listID fe' \<ge> 0" "list_key fe' = ?k"
      using rep_okD [OF ok Some] by (auto simp: state_ok_def)
    then have "LookupEntry st (fa_ID fs) = Some fe" using same_entry [OF d fe fe'(1,2)] by simp
    then have ok1: "rep_ok st (UpdateRankCounters ?old (ReputationToRank ?s)
        (upd_faction ?k (\<lambda>fs. touch (fs\<lparr>fa_standing := s32 (?s - ?base)\<rparr>)) m))"
      by (intro restand_ok [OF ok Some]) (simp_all add: new_standing_range touch_def)
    show ?thesis
      using st fe Some ok1
      by (auto simp: SetOneFactionReputation_def Let_def UpdateRankCounters_def count_commutes
          intro!: rep_ok_mild SetVisibleState_ok)
  qed
qed

lemma spill_template_ok:
  "dbc_ok st \<Longrightarrow> rep_ok st m \<Longrightarrow> spill_template st e standing inc ts m = Inr m' \<Longrightarrow> rep_ok st m'"
proof (induction ts arbitrary: m)
  case (Cons t ts)
  obtain f rate rank where t: "t = (f, rate, rank)" by (cases t)
  from Cons.prems(3) obtain m1 where m1: "m1 = m \<or> (\<exists>r b. SetOneFactionReputation st e f r inc m = Inr (b, m1))"
    "spill_template st e standing inc ts m1 = Inr m'"
    by (auto simp: t sbind_Inr split: if_splits)
  have "rep_ok st m1" using m1(1) Cons.prems(1,2) by (auto dest: SetOneFactionReputation_ok)
  with Cons.IH Cons.prems(1) m1(2) show ?case by blast
qed simp

lemma spill_list_ok:
  "dbc_ok st \<Longrightarrow> rep_ok st m \<Longrightarrow> spill_list st e f out inc is (b, m) = Inr (b', m') \<Longrightarrow> rep_ok st m'"
proof (induction "is" arbitrary: b m)
  case (Cons i "is")
  have "\<exists>b1 m1. (m1 = m \<or> (\<exists>r. SetOneFactionReputation st e i r inc m = Inr (b1, m1)))
      \<and> spill_list st e f out inc is (b1, m1) = Inr (b', m')"
    using Cons.prems(3) by (cases "LookupEntry st i") (auto simp: sbind_Inr Let_def split: if_splits)
  then obtain b1 m1 where m1: "m1 = m \<or> (\<exists>r. SetOneFactionReputation st e i r inc m = Inr (b1, m1))"
    "spill_list st e f out inc is (b1, m1) = Inr (b', m')" by blast
  have "rep_ok st m1" using m1(1) Cons.prems(1,2) by (auto dest: SetOneFactionReputation_ok)
  with Cons.IH Cons.prems(1) m1(2) show ?case by blast
qed simp

lemma spillover_ok:
  assumes "dbc_ok st" "rep_ok st m" "spillover st e f fe standing inc m = Inr (b, m')"
  shows "rep_ok st m'"
proof -
  from assms(3) consider "m' = m" | out l where "spill_list st e f out inc l (False, m) = Inr (b, m')"
    | g r b0 where "SetOneFactionReputation st e g r inc m = Inr (b0, m')"
    by (auto simp: spillover_def Let_def sbind_Inr split: option.splits if_splits)
  then show ?thesis using assms(1,2) by cases (auto dest: spill_list_ok SetOneFactionReputation_ok)
qed

lemma SendState_ok: "rep_ok st m \<Longrightarrow> rep_ok st (SendState k m)"
proof -
  assume "rep_ok st m"
  then have "rep_ok st (m\<lparr>rm_factions := sm_map (\<lambda>k fs. fs\<lparr>fa_needSend := False\<rparr>) (rm_factions m)\<rparr>)"
    by (rule rep_ok_map) simp
  moreover have "rep_ok st (m\<lparr>rm_increased := False, rm_factions := x\<rparr>) = rep_ok st (m\<lparr>rm_factions := x\<rparr>)" for x
    by (rule rep_ok_frame) simp_all
  ultimately have "rep_ok st (m\<lparr>rm_increased := False, rm_factions := sm_map (\<lambda>k fs. fs\<lparr>fa_needSend := False\<rparr>) (rm_factions m)\<rparr>)"
    by blast
  with \<open>rep_ok st m\<close> show ?thesis by (simp add: SendState_def Let_def split: option.split)
qed

lemma SetReputation_ok:
  assumes d: "dbc_ok st" and ok: "rep_ok st m" and st: "SetReputation st e f standing inc m = Inr (b, m')"
  shows "rep_ok st m'"
proof -
  obtain fe where fe: "LookupEntry st f = Some fe" using st by (auto simp: SetReputation_def split: option.splits)
  let ?m0 = "rep_emit [RepHook (fe_ID fe) standing inc] m"
  from st fe obtain b1 m1 where
    m1: "(\<exists>ts. spill_template st e standing inc ts ?m0 = Inr m1) \<or> spillover st e f fe standing inc ?m0 = Inr (b1, m1)"
    and fin: "m' = m1 \<or> (\<exists>b2 m2. SetOneFactionReputation st e f standing inc m1 = Inr (b2, m2) \<and> m' = SendState (list_key fe) m2)"
    by (force simp: SetReputation_def Let_def sbind_Inr split: option.splits if_splits)
  have "rep_ok st ?m0" using ok by simp
  with m1 have "rep_ok st m1" using spill_template_ok [OF d] spillover_ok [OF d] by blast
  with fin show ?thesis using SetOneFactionReputation_ok [OF d] SendState_ok by blast
qed

lemma send_states_ok: "rep_ok st m \<Longrightarrow> rep_ok st (send_states ks m)"
  by (induction ks arbitrary: m) (simp_all add: SendState_ok)

lemma SendInitialReputations_ok: "rep_ok st m \<Longrightarrow> rep_ok st (SendInitialReputations m)"
  by (simp add: SendInitialReputations_def rep_ok_map)

lemma SaveToDB_ok: "rep_ok st m \<Longrightarrow> rep_ok st (SaveToDB m)"
  by (simp add: SaveToDB_def rep_ok_map)

lemma flag_ops_ok: "rep_ok st m \<Longrightarrow> rep_ok st (SetAtWar k on m)" "rep_ok st m \<Longrightarrow> rep_ok st (SetInactive k on m)"
  "rep_ok st m \<Longrightarrow> rep_ok st (SetVisibleEntry e fe m)" "rep_ok st m \<Longrightarrow> rep_ok st (SetVisibleTemplate st e f m)"
  by (auto simp: SetAtWar_def SetInactive_def SetVisibleEntry_def SetVisibleTemplate_def
      intro: rep_ok_mild SetVisibleState_ok split: option.split)

section \<open>Loading\<close>

text \<open>The rows that have a place in the reputation list.\<close>

definition in_list :: "rep_store \<Rightarrow> faction_entry \<Rightarrow> bool" where
  "in_list st fe \<longleftrightarrow> (\<exists>i. LookupEntry st i = Some fe) \<and> fe_listID fe \<ge> 0"

lemma initial_state_ok:
  assumes d: "dbc_ok st" and fe: "LookupEntry st i = Some fe" "fe_listID fe \<ge> 0"
  shows "state_ok st (list_key fe) (initial_state st fe)" "total st (initial_state st fe) = GetBaseReputation st (Some fe)"
    "LookupEntry st (fe_ID fe) = Some fe"
proof -
  note r = dbc_row [OF fe(1)]
  have f: "fe_ID fe = of_nat (unat i)" "Reputation_Bottom \<le> GetBaseReputation st (Some fe)"
      "GetBaseReputation st (Some fe) \<le> Reputation_Cap" "\<not> bit (default_flags st fe) 5"
    using d r unfolding dbc_ok_def by blast+
  then have "fe_ID fe = i" by simp
  with fe(1) show l: "LookupEntry st (fe_ID fe) = Some fe" by simp
  with f(2,3) show t: "total st (initial_state st fe) = GetBaseReputation st (Some fe)"
    by (simp add: total_def initial_state_def s32_id Reputation_Bottom_def Reputation_Cap_def)
  have "flags_ok x x" if "\<not> bit x 5" for x using that by (auto simp: flags_ok_def)
  with f(4) have "flags_ok (default_flags st fe) (fa_flags (initial_state st fe))"
    by (simp add: initial_state_def default_flags_def)
  with l f t fe(2) show "state_ok st (list_key fe) (initial_state st fe)"
    by (simp add: state_ok_def initial_state_def s32_id)
qed

lemma rank_hostile: "\<not> REP_EXALTED \<le> REP_HOSTILE" "\<not> REP_REVERED \<le> REP_HOSTILE" "\<not> REP_HONORED \<le> REP_HOSTILE"
  by (simp_all add: rank_order)

lemma init_faction_ok:
  assumes d: "dbc_ok st" and ok: "rep_ok st m" and fe: "LookupEntry st i = Some fe" "fe_listID fe \<ge> 0"
    and new: "sm_find (rm_factions m) (list_key fe) = None"
  shows "rep_ok st (init_faction st fe m)"
    "sm_find (rm_factions (init_faction st fe m)) k = (if k = list_key fe then Some (initial_state st fe) else sm_find (rm_factions m) k)"
proof -
  let ?fs = "initial_state st fe"
  note s = initial_state_ok [OF d fe]
  have "ranked st r ?fs = (r \<le> GetBaseRank st (Some fe))" for r by (simp add: ranked_def s(2) GetBaseRank_def)
  moreover have "fa_listID ?fs = list_key fe" by (simp add: initial_state_def)
  ultimately show "rep_ok st (init_faction st fe m)"
    using ok new s(1)
    by (auto simp: init_faction_def Let_def rep_ok_def counters_ok_def UpdateRankCounters_def count_rank_def sm_wf_put
        tally_new sm_find_put rank_hostile visible_def split: if_splits)
  show "sm_find (rm_factions (init_faction st fe m)) k = (if k = list_key fe then Some (initial_state st fe) else sm_find (rm_factions m) k)"
    by (simp add: init_faction_def Let_def sm_find_put UpdateRankCounters_def count_rank_def) (simp add: initial_state_def)
qed

lemma init_rows_append: "init_rows st (rs @ [r]) m = init_rows st [r] (init_rows st rs m)"
  by (induction rs arbitrary: m) simp_all

lemma row_of_nat:
  assumes "dbc_ok st" "i < length (rst_rows st)"
  shows "LookupEntry st (of_nat i) = rst_rows st ! i"
proof -
  have "i < 65536" using assms unfolding dbc_ok_def by linarith
  then show ?thesis using assms(2) by (simp add: LookupEntry_def unat_of_nat take_bit_nat_eq_self)
qed

text \<open>The rows with a place in the list, each at its key.\<close>

lemma init_rows_ok:
  assumes d: "dbc_ok st" and m: "rep_ok st m" "rm_factions m = []"
  shows "n \<le> length (rst_rows st) \<Longrightarrow> rep_ok st (init_rows st (drop 1 (take n (rst_rows st))) m)
    \<and> (\<forall>k fs. sm_find (rm_factions (init_rows st (drop 1 (take n (rst_rows st))) m)) k = Some fs
        \<longleftrightarrow> (\<exists>i<n. \<exists>fe. rst_rows st ! i = Some fe \<and> fe_listID fe \<ge> 0 \<and> list_key fe = k \<and> fs = initial_state st fe))"
proof (induction n)
  case 0
  with m show ?case by simp
next
  case (Suc n)
  let ?m = "init_rows st (drop 1 (take n (rst_rows st))) m"
  have IH: "rep_ok st ?m" "\<And>k fs. sm_find (rm_factions ?m) k = Some fs
      \<longleftrightarrow> (\<exists>i<n. \<exists>fe. rst_rows st ! i = Some fe \<and> fe_listID fe \<ge> 0 \<and> list_key fe = k \<and> fs = initial_state st fe)"
    using Suc.IH Suc.prems by auto
  have lt: "n < length (rst_rows st)" using Suc.prems by simp
  have eq: "init_rows st (drop 1 (take (Suc n) (rst_rows st))) m = (if n = 0 then m else init_rows st [rst_rows st ! n] ?m)"
    using lt by (cases "n = 0") (simp_all add: take_Suc_conv_app_nth init_rows_append drop_append)
  show ?case
  proof (cases "\<exists>fe. rst_rows st ! n = Some fe \<and> fe_listID fe \<ge> 0")
    case False
    then have step: "init_rows st (drop 1 (take (Suc n) (rst_rows st))) m = ?m"
      unfolding eq by (auto split: option.split)
    from False show ?thesis unfolding step IH(2) less_Suc_eq using IH(1) by blast
  next
    case True
    then obtain fe where fe: "rst_rows st ! n = Some fe" "fe_listID fe \<ge> 0" by blast
    have n: "n \<noteq> 0" using d lt fe unfolding dbc_ok_def by (metis linorder_not_less)
    have l: "LookupEntry st (of_nat n) = Some fe" using row_of_nat [OF d lt] fe(1) by simp
    have other: False if i: "i < n" "rst_rows st ! i = Some fe'" "fe_listID fe' \<ge> 0" "list_key fe' = list_key fe" for i fe'
    proof -
      have li: "i < length (rst_rows st)" using i(1) lt by simp
      have "LookupEntry st (of_nat i) = Some fe'" using row_of_nat [OF d li] i(2) by simp
      from same_entry [OF d this l fe(2) i(4)] have "fe_listID fe' = fe_listID fe" by simp
      then have "i = n" using d li lt i(2,3) fe(1) unfolding dbc_ok_def by metis
      with i(1) show False by simp
    qed
    then have "sm_find (rm_factions ?m) (list_key fe) = None" using IH(2) [of "list_key fe"] by (metis not_None_eq)
    note new = init_faction_ok [OF d IH(1) l fe(2) this]
    have step: "init_rows st (drop 1 (take (Suc n) (rst_rows st))) m = init_faction st fe ?m"
      unfolding eq using n fe by simp
    have "(if k = list_key fe then Some (initial_state st fe) else sm_find (rm_factions ?m) k) = Some fs
      \<longleftrightarrow> (\<exists>i<Suc n. \<exists>fe. rst_rows st ! i = Some fe \<and> fe_listID fe \<ge> 0 \<and> list_key fe = k \<and> fs = initial_state st fe)" for k fs
      using IH(2) [of k fs] other fe unfolding less_Suc_eq by (cases "k = list_key fe") auto
    with new show ?thesis unfolding step by simp
  qed
qed

lemma Initialize_ok:
  assumes d: "dbc_ok st"
  shows "rep_ok st (Initialize st m)"
    "sm_find (rm_factions (Initialize st m)) k = Some fs \<longleftrightarrow>
       (\<exists>fe. in_list st fe \<and> list_key fe = k \<and> fs = initial_state st fe)"
proof -
  let ?m = "m\<lparr>rm_factions := [], rm_visible := 0, rm_honored := 0, rm_revered := 0, rm_exalted := 0, rm_increased := False\<rparr>"
  have "rep_ok st ?m" by (simp add: rep_ok_def counters_ok_def tally_of_def)
  note r = init_rows_ok [OF d this, of "length (rst_rows st)"]
  then show "rep_ok st (Initialize st m)" by (simp add: Initialize_def)
  have "in_list st fe \<longleftrightarrow> (\<exists>i<length (rst_rows st). rst_rows st ! i = Some fe) \<and> fe_listID fe \<ge> 0" for fe
    using row_of_nat [OF d] dbc_row by (fastforce simp: in_list_def)
  with r show "sm_find (rm_factions (Initialize st m)) k = Some fs \<longleftrightarrow>
       (\<exists>fe. in_list st fe \<and> list_key fe = k \<and> fs = initial_state st fe)"
    by (simp add: Initialize_def) blast
qed

text \<open>The state of a faction after its row is loaded.\<close>

definition show_state :: "faction_state \<Rightarrow> faction_state" where
  "show_state fs = (if (hidden_faction fs \<and> \<not> has_flag (fa_flags fs) FACTION_FLAG_SPECIAL) \<or> visible fs then fs
     else touch (fs\<lparr>fa_flags := fa_flags fs OR FACTION_FLAG_VISIBLE\<rparr>))"

definition loaded_state :: "rep_store \<Rightarrow> faction_entry \<Rightarrow> int \<Rightarrow> u16 \<Rightarrow> faction_state" where
  "loaded_state st fe standing x =
     (let hostile = ReputationToRank (s32 (GetBaseReputation st (Some fe) + standing)) \<le> REP_HOSTILE;
          fs0 = (initial_state st fe)\<lparr>fa_standing := standing\<rparr>;
          fs1 = (if bit x 0 then show_state fs0 else fs0);
          fs2 = (if bit x 5 then set_inactive True fs1 else fs1);
          fs3 = (if bit x 1 then set_at_war True fs2 else if visible fs2 then set_at_war False fs2 else fs2);
          fs4 = (if hostile then set_at_war True fs3 else fs3)
      in if ucast (fa_flags fs4) = x then fs4\<lparr>fa_needSend := False, fa_needSave := False\<rparr> else fs4)"

lemma find_visible: "sm_find (rm_factions (SetVisibleState e k m)) j =
  (if j = k then map_option show_state (sm_find (rm_factions m) k) else sm_find (rm_factions m) j)"
  by (cases "sm_find (rm_factions m) k")
    (auto simp: SetVisibleState_def show_state_def visible_def SendVisible_def upd_faction_def sm_find_put)

lemma find_counters: "rm_factions (UpdateRankCounters a b m) = rm_factions m"
  by (simp add: UpdateRankCounters_def count_rank_def)

lemma wide_flag_bits:
  "has_flag (x :: u16) (ucast FACTION_FLAG_VISIBLE) = bit x 0" "has_flag x (ucast FACTION_FLAG_AT_WAR) = bit x 1"
  "has_flag x (ucast FACTION_FLAG_INACTIVE) = bit x 5"
proof -
  have "(ucast FACTION_FLAG_VISIBLE :: u16) = 2 ^ 0" "(ucast FACTION_FLAG_AT_WAR :: u16) = 2 ^ 1"
    "(ucast FACTION_FLAG_INACTIVE :: u16) = 2 ^ 5"
    by (simp_all add: FACTION_FLAG_VISIBLE_def FACTION_FLAG_AT_WAR_def FACTION_FLAG_INACTIVE_def)
  then show "has_flag (x :: u16) (ucast FACTION_FLAG_VISIBLE) = bit x 0" "has_flag x (ucast FACTION_FLAG_AT_WAR) = bit x 1"
    "has_flag x (ucast FACTION_FLAG_INACTIVE) = bit x 5"
    by (simp_all only: has_flag_bit)
qed

lemma standing_kept: "fa_standing (set_at_war on fs) = fa_standing fs" "fa_standing (set_inactive on fs) = fa_standing fs"
  "fa_standing (show_state fs) = fa_standing fs"
  by (simp_all add: set_at_war_def set_inactive_def show_state_def touch_def)

lemma listed_nonneg: "in_list st fe \<Longrightarrow> \<not> fe_listID fe < 0"
  by (simp add: in_list_def)

lemma load_row_known:
  assumes fe: "LookupEntry st (ucast f) = Some fe" "fe_listID fe \<ge> 0"
    and fs: "sm_find (rm_factions m) (list_key fe) = Some (initial_state st fe)"
  shows "sm_find (rm_factions (load_row st e (f, standing, x) m)) j =
    (if j = list_key fe then Some (loaded_state st fe standing x) else sm_find (rm_factions m) j)"
proof -
  have "CanHaveReputation fe" using fe(2) by (simp add: CanHaveReputation_def)
  then show ?thesis
    using fe fs
    by (simp add: load_row_def Let_def GetRank_def GetReputation_def GetState_def find_upd find_visible find_counters
        wide_flag_bits faction_bits standing_kept loaded_state_def visible_def)
qed

lemma load_row_ok:
  assumes d: "dbc_ok st" and ok: "rep_ok st m"
    and fs: "\<And>fe. LookupEntry st (ucast f) = Some fe \<Longrightarrow> fe_listID fe \<ge> 0 \<Longrightarrow>
      sm_find (rm_factions m) (list_key fe) = Some (initial_state st fe) \<and> s32 standing = standing
      \<and> Reputation_Bottom \<le> s32 (GetBaseReputation st (Some fe) + standing)
      \<and> s32 (GetBaseReputation st (Some fe) + standing) \<le> Reputation_Cap"
  shows "rep_ok st (load_row st e (f, standing, x) m)"
proof (cases "\<exists>fe. LookupEntry st (ucast f) = Some fe \<and> fe_listID fe \<ge> 0")
  case False
  with ok show ?thesis by (auto simp: load_row_def split: option.split)
next
  case True
  then obtain fe where fe: "LookupEntry st (ucast f) = Some fe" "fe_listID fe \<ge> 0" by blast
  note f = fs [OF fe]
  let ?k = "list_key fe" and ?b = "GetBaseReputation st (Some fe)"
  let ?m2 = "UpdateRankCounters (ReputationToRank ?b) (ReputationToRank (s32 (?b + standing)))
    (upd_faction ?k (\<lambda>fs. fs\<lparr>fa_standing := standing\<rparr>) m)"
  let ?c = "\<lambda>fs. if ucast (fa_flags fs) = x then fs\<lparr>fa_needSend := False, fa_needSave := False\<rparr> else fs"
  have c: "mild ?c" by (auto simp: mild_def)
  note i = initial_state_ok [OF d fe]
  have b: "s32 (fa_standing (initial_state st fe) + ?b) = ?b"
    using i(2) by (simp add: total_def initial_state_def i(3))
  have "s32 (s32 (?b + standing) - ?b) = standing"
    using s32_add [of "?b + standing" "- ?b"] f by simp
  then have "rep_ok st (UpdateRankCounters (ReputationToRank (s32 (fa_standing (initial_state st fe) + ?b)))
      (ReputationToRank (s32 (?b + standing))) (upd_faction ?k (\<lambda>fs. fs\<lparr>fa_standing := standing\<rparr>) m))"
    using f i(3) by (intro restand_ok [OF ok]) (auto simp: initial_state_def)
  then have "rep_ok st ?m2" unfolding b .
  moreover have "mild (\<lambda>fs. if has_flag (fa_flags fs) FACTION_FLAG_VISIBLE then set_at_war False fs else fs)" by simp
  ultimately show ?thesis
    using fe f c by (auto simp: load_row_def Let_def intro!: rep_ok_mild SetVisibleState_ok)
qed

lemma narrow_wide: "(ucast (ucast f :: u32) :: u16) = (f :: u16)"
  by (rule bit_word_eqI) (simp add: bit_simps)

text \<open>The rows of a character: one for each faction at most, with standings in range.\<close>

definition rows_ok :: "rep_store \<Rightarrow> (u16 \<times> int \<times> u16) list \<Rightarrow> bool" where
  "rows_ok st rows \<longleftrightarrow> distinct (map fst rows) \<and> (\<forall>(f, standing, x)\<in>set rows. s32 standing = standing \<and>
     (\<forall>fe. LookupEntry st (ucast f) = Some fe \<and> fe_listID fe \<ge> 0 \<longrightarrow> Reputation_Bottom \<le> s32 (GetBaseReputation st (Some fe) + standing)
        \<and> s32 (GetBaseReputation st (Some fe) + standing) \<le> Reputation_Cap))"

lemma load_rows_ok:
  assumes d: "dbc_ok st"
  shows "rows_ok st rows \<Longrightarrow> rep_ok st m \<Longrightarrow>
    (\<And>f fe. f \<in> fst ` set rows \<Longrightarrow> LookupEntry st (ucast f) = Some fe \<Longrightarrow> fe_listID fe \<ge> 0 \<Longrightarrow>
       sm_find (rm_factions m) (list_key fe) = Some (initial_state st fe)) \<Longrightarrow>
    rep_ok st (load_rows st e rows m)
    \<and> (\<forall>fe. in_list st fe \<longrightarrow> sm_find (rm_factions (load_rows st e rows m)) (list_key fe) =
        (case map_of rows (ucast (fe_ID fe)) of None \<Rightarrow> sm_find (rm_factions m) (list_key fe)
         | Some (standing, x) \<Rightarrow> Some (loaded_state st fe standing x)))"
proof (induction rows arbitrary: m)
  case Nil
  then show ?case by simp
next
  case (Cons r rows)
  obtain f standing x where r: "r = (f, standing, x)" by (cases r)
  let ?m = "load_row st e (f, standing, x) m"
  have hd: "sm_find (rm_factions m) (list_key fe) = Some (initial_state st fe)"
    if "LookupEntry st (ucast f) = Some fe" "fe_listID fe \<ge> 0" for fe using Cons.prems(3) [of f fe] that by (simp add: r)
  have unknown: "?m = m" if "\<nexists>fe. LookupEntry st (ucast f) = Some fe \<and> fe_listID fe \<ge> 0"
    using that by (auto simp: load_row_def split: option.split)
  have id_of: "fe_ID fe = i \<and> fe_ID fe = ucast (ucast (fe_ID fe) :: u16)" if "LookupEntry st i = Some fe" for i fe
  proof -
    note w = dbc_row [OF that]
    have "fe_ID fe = of_nat (unat i)" using d w unfolding dbc_ok_def by blast
    then have "fe_ID fe = i" by simp
    moreover have "unat i < 65536" using d w unfolding dbc_ok_def by linarith
    then have "ucast (ucast i :: u16) = i"
      by (simp add: word_unat_eq_iff unsigned_ucast_eq unsigned_take_bit_eq take_bit_nat_eq_self)
    ultimately show ?thesis by simp
  qed
  have ok: "rep_ok st ?m"
    by (rule load_row_ok [OF d Cons.prems(2)]) (use hd Cons.prems(1) in \<open>auto simp: rows_ok_def r\<close>)
  have keys: "sm_find (rm_factions ?m) (list_key fe) =
      (if ucast (fe_ID fe) = f then Some (loaded_state st fe standing x) else sm_find (rm_factions m) (list_key fe))"
    if fe: "LookupEntry st i = Some fe" "fe_listID fe \<ge> 0" for i fe
  proof (cases "ucast (fe_ID fe) = f")
    case True
    then have "LookupEntry st (ucast f) = Some fe" using id_of [OF fe(1)] fe(1) by metis
    with load_row_known [OF this fe(2) hd [OF this fe(2)]] True show ?thesis by simp
  next
    case False
    have "list_key fe \<noteq> list_key fe'" if "LookupEntry st (ucast f) = Some fe'" "fe_listID fe' \<ge> 0" for fe'
    proof
      assume "list_key fe = list_key fe'"
      from same_entry [OF d fe(1) that this] have "ucast (fe_ID fe) = (ucast (ucast f :: u32) :: u16)"
        using id_of [OF that(1)] by simp
      with False show False by (simp add: narrow_wide)
    qed
    then show ?thesis using False unknown load_row_known hd by (metis option.inject)
  qed
  have "rep_ok st (load_rows st e rows ?m)
    \<and> (\<forall>fe. in_list st fe \<longrightarrow> sm_find (rm_factions (load_rows st e rows ?m)) (list_key fe) =
        (case map_of rows (ucast (fe_ID fe)) of None \<Rightarrow> sm_find (rm_factions ?m) (list_key fe)
         | Some (standing, x) \<Rightarrow> Some (loaded_state st fe standing x)))"
  proof (rule Cons.IH)
    show "rows_ok st rows" using Cons.prems(1) by (simp add: rows_ok_def r)
    show "rep_ok st ?m" by (rule ok)
    fix g fe
    assume g: "g \<in> fst ` set rows" "LookupEntry st (ucast g) = Some fe" "fe_listID fe \<ge> 0"
    have "g \<noteq> f" using g(1) Cons.prems(1) by (auto simp: rows_ok_def r)
    moreover have "(ucast (fe_ID fe) :: u16) = g" using id_of [OF g(2)] by (simp add: narrow_wide)
    ultimately show "sm_find (rm_factions ?m) (list_key fe) = Some (initial_state st fe)"
      using keys [OF g(2,3)] Cons.prems(3) [OF _ g(2,3)] g(1) by simp
  qed
  moreover have "map_of rows f = None" using Cons.prems(1) by (auto simp: rows_ok_def r map_of_eq_None_iff)
  ultimately show ?case
    using keys by (auto simp: r in_list_def split: option.split)
qed

lemma LoadFromDB_ok:
  assumes d: "dbc_ok st" and r: "rows_ok st rows"
  shows "rep_ok st (LoadFromDB st e rows m)"
    "in_list st fe \<Longrightarrow> sm_find (rm_factions (LoadFromDB st e rows m)) (list_key fe) =
        Some (case map_of rows (ucast (fe_ID fe)) of None \<Rightarrow> initial_state st fe
         | Some (standing, x) \<Rightarrow> loaded_state st fe standing x)"
proof -
  have i: "sm_find (rm_factions (Initialize st m)) (list_key fe) = Some (initial_state st fe)" if "in_list st fe" for fe
    using Initialize_ok(2) [OF d] that by blast
  have "rep_ok st (load_rows st e rows (Initialize st m))
    \<and> (\<forall>fe. in_list st fe \<longrightarrow> sm_find (rm_factions (load_rows st e rows (Initialize st m))) (list_key fe) =
        (case map_of rows (ucast (fe_ID fe)) of None \<Rightarrow> sm_find (rm_factions (Initialize st m)) (list_key fe)
         | Some (standing, x) \<Rightarrow> Some (loaded_state st fe standing x)))"
    by (rule load_rows_ok [OF d r Initialize_ok(1) [OF d]]) (auto intro!: i simp: in_list_def)
  then show "rep_ok st (LoadFromDB st e rows m)"
    "in_list st fe \<Longrightarrow> sm_find (rm_factions (LoadFromDB st e rows m)) (list_key fe) =
        Some (case map_of rows (ucast (fe_ID fe)) of None \<Rightarrow> initial_state st fe
         | Some (standing, x) \<Rightarrow> loaded_state st fe standing x)"
    by (auto simp: LoadFromDB_def i split: option.split)
qed

section \<open>Reachable states\<close>

inductive rep_step :: "rep_store \<Rightarrow> repmgr \<Rightarrow> repmgr \<Rightarrow> bool" for st where
  Set: "SetReputation st e f standing inc m = Inr (b, m') \<Longrightarrow> rep_step st m m'"
| SetOne: "SetOneFactionReputation st e f standing inc m = Inr (b, m') \<Longrightarrow> rep_step st m m'"
| Visible: "rep_step st m (SetVisibleTemplate st e f m)"
| VisibleEntry: "LookupEntry st f = Some fe \<Longrightarrow> rep_step st m (SetVisibleEntry e fe m)"
| AtWar: "rep_step st m (HandleSetFactionAtWar k flag m)"
| Inactive: "rep_step st m (HandleSetFactionInactiveOpcode k flag m)"
| Force: "rep_step st m (ApplyForceReaction f r b m)"
| SendForce: "rep_step st m (SendForceReactions m)"
| SendAll: "rep_step st m (SendStates m)"
| SendInitial: "rep_step st m (SendInitialReputations m)"

inductive_cases rep_stepE: "rep_step st m m'"

lemma rep_step_ok: "rep_step st m m' \<Longrightarrow> dbc_ok st \<Longrightarrow> rep_ok st m \<Longrightarrow> rep_ok st m'"
  by (induction rule: rep_step.induct)
    (auto simp: HandleSetFactionAtWar_def HandleSetFactionInactiveOpcode_def ApplyForceReaction_def SendForceReactions_def
      SendStates_def intro: flag_ops_ok send_states_ok SendInitialReputations_ok SetReputation_ok SetOneFactionReputation_ok)

text \<open>The table \<open>character_reputation\<close>: the rows of the character.\<close>

type_synonym rep_table = "u16 \<Rightarrow> (int \<times> u16) option"

fun run_row_stmt :: "rep_stmt \<Rightarrow> rep_table \<Rightarrow> rep_table" where
  "run_row_stmt (DelReputation f) t = t(f := None)"
| "run_row_stmt (InsReputation f standing x) t = t(f \<mapsto> (standing, x))"

definition saved :: "repmgr \<Rightarrow> rep_table \<Rightarrow> rep_table" where
  "saved m t = fold run_row_stmt (concat (map (save_stmts \<circ> snd) (rm_factions m))) t"

text \<open>A character logs in with the rows of the table, plays, and is saved from time to time.\<close>

inductive rep_life :: "rep_store \<Rightarrow> repmgr \<Rightarrow> rep_table \<Rightarrow> bool" for st where
  Login: "rows_ok st rows \<Longrightarrow> rep_life st (LoadFromDB st e rows m) (map_of rows)"
| Play: "rep_life st m t \<Longrightarrow> rep_step st m m' \<Longrightarrow> rep_life st m' t"
| Save: "rep_life st m t \<Longrightarrow> rep_life st (SaveToDB m) (saved m t)"

lemma rep_life_ok: "rep_life st m t \<Longrightarrow> dbc_ok st \<Longrightarrow> rep_ok st m"
  by (induction rule: rep_life.induct) (auto intro: LoadFromDB_ok(1) rep_step_ok SaveToDB_ok)

section \<open>What needs no saving has not changed\<close>

definition same_row :: "faction_state \<Rightarrow> faction_state \<Rightarrow> bool" where
  "same_row fs fs' \<longleftrightarrow> fa_ID fs' = fa_ID fs \<and> fa_standing fs' = fa_standing fs \<and> fa_flags fs' = fa_flags fs"

text \<open>From \<open>m\<close> to \<open>m'\<close>: whatever needs no saving afterwards needed none before, and is the same.\<close>

definition marks :: "repmgr \<Rightarrow> repmgr \<Rightarrow> bool" where
  "marks m m' \<longleftrightarrow> (\<forall>k fs'. sm_find (rm_factions m') k = Some fs' \<longrightarrow>
     (\<exists>fs. sm_find (rm_factions m) k = Some fs \<and> fa_ID fs' = fa_ID fs
        \<and> (fa_needSave fs' \<or> (\<not> fa_needSave fs \<and> same_row fs fs'))))"

lemma marks_refl: "rm_factions m' = rm_factions m \<Longrightarrow> marks m m'"
  by (auto simp: marks_def same_row_def)

lemma marks_trans: "marks m m1 \<Longrightarrow> marks m1 m2 \<Longrightarrow> marks m m2"
  unfolding marks_def same_row_def by metis

definition marking :: "(faction_state \<Rightarrow> faction_state) \<Rightarrow> bool" where
  "marking f \<longleftrightarrow> (\<forall>fs. fa_ID (f fs) = fa_ID fs \<and> (fa_needSave (f fs) \<or> (\<not> fa_needSave fs \<and> same_row fs (f fs))))"

lemma marking_simps [simp]: "marking (set_at_war on)" "marking (set_inactive on)" "marking show_state"
  "marking (\<lambda>fs. fs\<lparr>fa_needSend := b\<rparr>)" "marking (\<lambda>fs. touch (fs\<lparr>fa_standing := g fs\<rparr>))"
  by (auto simp: marking_def set_at_war_def set_inactive_def show_state_def touch_def same_row_def)

lemma marks_upd: "marking f \<Longrightarrow> marks m (upd_faction k f m)"
  by (auto simp: marks_def marking_def find_upd same_row_def split: if_splits)

lemma marks_visible: "marks m (SetVisibleState e k m)"
proof -
  have "marking show_state" by simp
  then show ?thesis by (auto simp: marks_def marking_def find_visible same_row_def split: if_splits)
qed

lemma marks_frame [simp]: "marks m (rep_emit es m') = marks m m'" "marks m (UpdateRankCounters a b m') = marks m m'"
  "marks m (m'\<lparr>rm_increased := c\<rparr>) = marks m m'" "marks (rep_emit es m) m' = marks m m'"
  by (simp_all add: marks_def find_counters)

lemma marks_SetOne: "SetOneFactionReputation st e f standing inc m = Inr (b, m') \<Longrightarrow> marks m m'"
proof -
  assume st: "SetOneFactionReputation st e f standing inc m = Inr (b, m')"
  let ?f = "\<lambda>x fs. touch (fs\<lparr>fa_standing := x\<rparr>)"
  have "marks m (SetVisibleState e k (upd_faction k (?f x) m))" for k x
    by (rule marks_trans [OF marks_upd marks_visible]) simp
  moreover then have "marks m (upd_faction k (set_at_war True) (SetVisibleState e k (upd_faction k (?f x) m)))" for k x
    by (rule marks_trans [OF _ marks_upd]) simp
  ultimately show ?thesis
    using st by (auto simp: SetOneFactionReputation_def Let_def marks_refl split: option.splits)
qed

lemma marks_spill_template: "spill_template st e standing inc ts m = Inr m' \<Longrightarrow> marks m m'"
proof (induction ts arbitrary: m)
  case (Cons t ts)
  obtain f rate rank where t: "t = (f, rate, rank)" by (cases t)
  from Cons.prems obtain m1 where m1: "m1 = m \<or> (\<exists>r b. SetOneFactionReputation st e f r inc m = Inr (b, m1))"
    "spill_template st e standing inc ts m1 = Inr m'"
    by (auto simp: t sbind_Inr split: if_splits)
  from m1(1) have "marks m m1" by (auto intro: marks_refl marks_SetOne)
  then show ?case by (rule marks_trans [OF _ Cons.IH [OF m1(2)]])
qed (simp add: marks_refl)

lemma marks_spill_list: "spill_list st e f out inc is (b, m) = Inr (b', m') \<Longrightarrow> marks m m'"
proof (induction "is" arbitrary: b m)
  case (Cons i "is")
  have "\<exists>b1 m1. (m1 = m \<or> (\<exists>r. SetOneFactionReputation st e i r inc m = Inr (b1, m1)))
      \<and> spill_list st e f out inc is (b1, m1) = Inr (b', m')"
    using Cons.prems by (cases "LookupEntry st i") (auto simp: sbind_Inr Let_def split: if_splits)
  then obtain b1 m1 where m1: "m1 = m \<or> (\<exists>r. SetOneFactionReputation st e i r inc m = Inr (b1, m1))"
    "spill_list st e f out inc is (b1, m1) = Inr (b', m')" by blast
  from m1(1) have "marks m m1" by (auto intro: marks_refl marks_SetOne)
  then show ?case by (rule marks_trans [OF _ Cons.IH [OF m1(2)]])
qed (simp add: marks_refl)

lemma marks_spillover: "spillover st e f fe standing inc m = Inr (b, m') \<Longrightarrow> marks m m'"
proof -
  assume "spillover st e f fe standing inc m = Inr (b, m')"
  then consider "m' = m" | out l where "spill_list st e f out inc l (False, m) = Inr (b, m')"
    | g r b0 where "SetOneFactionReputation st e g r inc m = Inr (b0, m')"
    by (auto simp: spillover_def Let_def sbind_Inr split: option.splits if_splits)
  then show ?thesis by cases (auto intro: marks_refl marks_spill_list marks_SetOne)
qed

lemma marks_unmark: "marks m (m\<lparr>rm_increased := c, rm_factions := sm_map (\<lambda>k fs. fs\<lparr>fa_needSend := False\<rparr>) (rm_factions m)\<rparr>)"
  "marks m (m\<lparr>rm_factions := sm_map (\<lambda>k fs. fs\<lparr>fa_needSend := False\<rparr>) (rm_factions m)\<rparr>)"
  by (auto simp: marks_def sm_find_map same_row_def)

lemma marks_SendState: "marks m (SendState k m)"
  by (auto simp: SendState_def Let_def marks_refl marks_unmark split: option.split)

lemma marks_SetReputation: "SetReputation st e f standing inc m = Inr (b, m') \<Longrightarrow> marks m m'"
proof -
  assume st: "SetReputation st e f standing inc m = Inr (b, m')"
  obtain fe where fe: "LookupEntry st f = Some fe" using st by (auto simp: SetReputation_def split: option.splits)
  let ?m0 = "rep_emit [RepHook (fe_ID fe) standing inc] m"
  from st fe obtain b1 m1 where
    m1: "(\<exists>ts. spill_template st e standing inc ts ?m0 = Inr m1) \<or> spillover st e f fe standing inc ?m0 = Inr (b1, m1)"
    and fin: "m' = m1 \<or> (\<exists>b2 m2. SetOneFactionReputation st e f standing inc m1 = Inr (b2, m2) \<and> m' = SendState (list_key fe) m2)"
    by (force simp: SetReputation_def Let_def sbind_Inr split: option.splits if_splits)
  have "marks m m1" using m1 by (auto dest: marks_spill_template marks_spillover)
  with fin show ?thesis by (blast intro: marks_trans marks_SetOne marks_SendState)
qed

lemma marks_send_states: "marks m (send_states ks m)"
proof (induction ks arbitrary: m)
  case (Cons k ks)
  show ?case by (simp, rule marks_trans [OF marks_SendState Cons.IH])
qed (simp add: marks_refl)

lemma rep_step_marks: "rep_step st m m' \<Longrightarrow> marks m m'"
  by (induction rule: rep_step.induct)
    (auto simp: HandleSetFactionAtWar_def HandleSetFactionInactiveOpcode_def ApplyForceReaction_def SendForceReactions_def
      SendStates_def SendInitialReputations_def SetAtWar_def SetInactive_def SetVisibleEntry_def SetVisibleTemplate_def
      intro: marks_refl marks_upd marks_visible marks_unmark marks_send_states marks_SetReputation marks_SetOne
      split: option.split)

section \<open>The table\<close>

definition state_row :: "faction_state \<Rightarrow> int \<times> u16" where
  "state_row fs = (fa_standing fs, ucast (fa_flags fs))"

definition table_id :: "faction_state \<Rightarrow> u16" where
  "table_id fs = ucast (fa_ID fs)"

lemma run_save: "fold run_row_stmt (save_stmts fs) t = (if fa_needSave fs then t(table_id fs \<mapsto> state_row fs) else t)"
  by (simp add: save_stmts_def table_id_def state_row_def)

lemma run_saves: "distinct (map table_id fss) \<Longrightarrow> fold run_row_stmt (concat (map save_stmts fss)) t f =
  (case List.find (\<lambda>fs. fa_needSave fs \<and> table_id fs = f) fss of None \<Rightarrow> t f | Some fs \<Rightarrow> Some (state_row fs))"
proof (induction fss arbitrary: t)
  case (Cons fs fss)
  have none: "List.find (\<lambda>fs'. fa_needSave fs' \<and> table_id fs' = table_id fs) fss = None"
    using Cons.prems unfolding find_None_iff by (metis (no_types, lifting) distinct.simps(2) image_eqI list.set_map list.simps(9))
  show ?case
    using Cons.IH Cons.prems none by (auto simp: run_save split: option.split)
qed simp

lemma table_id_inject:
  assumes d: "dbc_ok st" and ok: "rep_ok st m" and f: "sm_find (rm_factions m) k = Some fs" "sm_find (rm_factions m) k' = Some fs'"
    and i: "table_id fs = table_id fs'"
  shows "k = k'"
proof -
  have id: "\<exists>fe. LookupEntry st (fa_ID fs) = Some fe \<and> list_key fe = k \<and> unat (fa_ID fs) < 65536"
    if "sm_find (rm_factions m) k = Some fs" for k fs
    using rep_okD [OF ok that] dbc_row d unfolding state_ok_def dbc_ok_def by fastforce
  have "unat (table_id fs) = unat (fa_ID fs)" if "unat (fa_ID fs) < 65536" for fs
    using that by (simp add: table_id_def unsigned_ucast_eq take_bit_nat_eq_self)
  then have "fa_ID fs = fa_ID fs'" using id [OF f(1)] id [OF f(2)] i by (metis word_unat_eq_iff)
  with id [OF f(1)] id [OF f(2)] show ?thesis by auto
qed

lemma saved_at:
  assumes d: "dbc_ok st" and ok: "rep_ok st m" and f: "sm_find (rm_factions m) k = Some fs"
  shows "saved m t (table_id fs) = (if fa_needSave fs then Some (state_row fs) else t (table_id fs))"
    "\<And>g. saved m t g = t g \<or> (\<exists>k fs. sm_find (rm_factions m) k = Some fs \<and> table_id fs = g \<and> saved m t g = Some (state_row fs))"
proof -
  note wf = rep_ok_wf [OF ok]
  have mem: "(k, fs) \<in> set (rm_factions m) \<longleftrightarrow> sm_find (rm_factions m) k = Some fs" for k fs
    using sm_find_Some_iff [OF wf] by blast
  have "distinct (rm_factions m)" using sm_wf_distinct [OF wf] by (simp add: distinct_map)
  moreover have "inj_on (table_id \<circ> snd) (set (rm_factions m))"
    using table_id_inject [OF d ok] mem by (fastforce simp: inj_on_def)
  ultimately have dist: "distinct (map table_id (map snd (rm_factions m)))" by (simp add: distinct_map)
  have s: "saved m t g = (case List.find (\<lambda>fs. fa_needSave fs \<and> table_id fs = g) (map snd (rm_factions m)) of
      None \<Rightarrow> t g | Some fs \<Rightarrow> Some (state_row fs))" for g
    using run_saves [OF dist, of t g] by (simp add: saved_def)
  have in_m: "fs' \<in> set (map snd (rm_factions m)) \<Longrightarrow> \<exists>k'. sm_find (rm_factions m) k' = Some fs'" for fs' using mem by auto
  show "saved m t (table_id fs) = (if fa_needSave fs then Some (state_row fs) else t (table_id fs))"
  proof (cases "List.find (\<lambda>fs'. fa_needSave fs' \<and> table_id fs' = table_id fs) (map snd (rm_factions m))")
    case None
    then have "\<not> fa_needSave fs" using mem [of k fs] f by (force simp: find_None_iff)
    with None s show ?thesis by simp
  next
    case (Some fs')
    then have "fs' \<in> set (map snd (rm_factions m))" "fa_needSave fs'" "table_id fs' = table_id fs"
      by (auto simp: find_Some_iff simp del: map_map)
    with in_m table_id_inject [OF d ok _ f] f have "fs' = fs" by (metis option.inject)
    with Some s \<open>fa_needSave fs'\<close> show ?thesis by simp
  qed
  fix g
  show "saved m t g = t g \<or> (\<exists>k fs. sm_find (rm_factions m) k = Some fs \<and> table_id fs = g \<and> saved m t g = Some (state_row fs))"
  proof (cases "List.find (\<lambda>fs'. fa_needSave fs' \<and> table_id fs' = g) (map snd (rm_factions m))")
    case (Some fs')
    then have "fs' \<in> set (map snd (rm_factions m))" "table_id fs' = g" by (auto simp: find_Some_iff simp del: map_map)
    with in_m s Some show ?thesis by fastforce
  qed (use s in simp)
qed

text \<open>Whatever needs no saving is in the table as it is, and the table stays loadable.\<close>

definition rows_synced :: "repmgr \<Rightarrow> rep_table \<Rightarrow> bool" where
  "rows_synced m t \<longleftrightarrow> (\<forall>k fs. sm_find (rm_factions m) k = Some fs \<and> \<not> fa_needSave fs \<longrightarrow> t (table_id fs) = Some (state_row fs))"

definition table_ok :: "rep_store \<Rightarrow> rep_table \<Rightarrow> bool" where
  "table_ok st t \<longleftrightarrow> (\<forall>f standing x. t f = Some (standing, x) \<longrightarrow> s32 standing = standing \<and>
     (\<forall>fe. LookupEntry st (ucast f) = Some fe \<and> fe_listID fe \<ge> 0 \<longrightarrow> Reputation_Bottom \<le> s32 (GetBaseReputation st (Some fe) + standing)
        \<and> s32 (GetBaseReputation st (Some fe) + standing) \<le> Reputation_Cap))"

lemma rows_table_ok: "distinct (map fst rows) \<Longrightarrow> rows_ok st rows \<longleftrightarrow> table_ok st (map_of rows)"
  by (fastforce simp: rows_ok_def table_ok_def)

lemma row_lookup: "dbc_ok st \<Longrightarrow> LookupEntry st i = Some fe \<Longrightarrow> LookupEntry st (ucast (ucast i :: u16)) = Some fe"
proof -
  assume d: "dbc_ok st" and l: "LookupEntry st i = Some fe"
  note w = dbc_row [OF l]
  have "unat i < 65536" using d w unfolding dbc_ok_def by linarith
  then have "ucast (ucast i :: u16) = i"
    by (simp add: word_unat_eq_iff unsigned_ucast_eq unsigned_take_bit_eq take_bit_nat_eq_self)
  with l show ?thesis by simp
qed

lemma state_row_ok:
  assumes "dbc_ok st" "state_ok st k fs" "LookupEntry st (ucast (table_id fs)) = Some fe"
  shows "Reputation_Bottom \<le> s32 (GetBaseReputation st (Some fe) + fa_standing fs)
    \<and> s32 (GetBaseReputation st (Some fe) + fa_standing fs) \<le> Reputation_Cap"
  using assms row_lookup [OF assms(1)] by (auto simp: state_ok_def total_def table_id_def)

lemma saved_table_ok:
  assumes "dbc_ok st" "rep_ok st m" "table_ok st t"
  shows "table_ok st (saved m t)"
proof (cases "rm_factions m = []")
  case True
  with assms(3) show ?thesis by (simp add: saved_def)
next
  case False
  then obtain k0 fs0 where "(k0, fs0) \<in> set (rm_factions m)" by (metis list.set_intros(1) neq_Nil_conv surj_pair)
  then have f0: "sm_find (rm_factions m) k0 = Some fs0" using sm_find_Some_iff [OF rep_ok_wf [OF assms(2)]] by blast
  show ?thesis
    unfolding table_ok_def
  proof (intro allI impI)
    fix f standing x
    assume s: "saved m t f = Some (standing, x)"
    consider "t f = Some (standing, x)" | k fs where "sm_find (rm_factions m) k = Some fs" "table_id fs = f" "(standing, x) = state_row fs"
      using saved_at(2) [OF assms(1,2) f0, of t f] s by auto
    then show "s32 standing = standing \<and>
     (\<forall>fe. LookupEntry st (ucast f) = Some fe \<and> fe_listID fe \<ge> 0 \<longrightarrow> Reputation_Bottom \<le> s32 (GetBaseReputation st (Some fe) + standing)
        \<and> s32 (GetBaseReputation st (Some fe) + standing) \<le> Reputation_Cap)"
    proof cases
      case 1
      with assms(3) show ?thesis unfolding table_ok_def by blast
    next
      case 2
      have so: "state_ok st k fs" using rep_okD [OF assms(2) 2(1)] .
      with 2 state_row_ok [OF assms(1) so] show ?thesis by (auto simp: state_ok_def state_row_def)
    qed
  qed
qed

lemma bit_changes:
  "bit (fa_flags (set_at_war on fs)) j \<longleftrightarrow>
     (if j = 1 then (if on \<and> bit (fa_flags fs) 4 \<and> ReputationToRank (fa_standing fs) > REP_HOSTILE then bit (fa_flags fs) 1 else on)
      else bit (fa_flags fs) j)"
  "bit (fa_flags (set_inactive on fs)) j \<longleftrightarrow>
     (if j = 5 then (if on \<and> (bit (fa_flags fs) 2 \<or> bit (fa_flags fs) 3 \<or> \<not> bit (fa_flags fs) 0) then bit (fa_flags fs) 5 else on)
      else bit (fa_flags fs) j)"
  "bit (fa_flags (show_state fs)) j \<longleftrightarrow> bit (fa_flags fs) j
     \<or> (j = 0 \<and> \<not> ((bit (fa_flags fs) 2 \<or> bit (fa_flags fs) 3) \<and> \<not> bit (fa_flags fs) 7))"
  by (auto simp: set_at_war_def set_inactive_def show_state_def touch_def faction_bits hidden_bits visible_def flag_changes)

lemma loaded_bits:
  assumes "flags_ok (default_flags st fe) x" "\<not> bit (default_flags st fe) 5" "j < 8"
  shows "bit (fa_flags (loaded_state st fe standing (ucast x))) j \<longleftrightarrow>
    (if j = 1 then
       (let may = (\<not> (bit x 4 \<and> ReputationToRank standing > REP_HOSTILE)) in
        (ReputationToRank (s32 (GetBaseReputation st (Some fe) + standing)) \<le> REP_HOSTILE \<and> may)
        \<or> (if bit x 1 then bit (default_flags st fe) 1 \<or> may else bit (default_flags st fe) 1 \<and> \<not> bit x 0))
     else bit x j)"
proof -
  define fs0 where "fs0 = (initial_state st fe)\<lparr>fa_standing := standing\<rparr>"
  define fs1 where "fs1 = (if bit x 0 then show_state fs0 else fs0)"
  define fs2 where "fs2 = (if bit x 5 then set_inactive True fs1 else fs1)"
  define fs3 where "fs3 = (if bit x 1 then set_at_war True fs2 else if visible fs2 then set_at_war False fs2 else fs2)"
  define fs4 where "fs4 = (if ReputationToRank (s32 (GetBaseReputation st (Some fe) + standing)) \<le> REP_HOSTILE
    then set_at_war True fs3 else fs3)"
  let ?d = "default_flags st fe"
  have s: "fa_standing fs2 = standing" "fa_standing fs3 = standing"
    by (simp_all add: fs0_def fs1_def fs2_def fs3_def standing_kept)
  have x: "bit (ucast x :: u16) n = bit x n" if "n < 8" for n using that by (simp add: bit_simps)
  have same: "bit ?d n = bit x n" if "n < 8" "n \<notin> {0, 1, 5}" for n using assms(1) that by (simp add: flags_ok_def)
  have v: "bit ?d 0 \<Longrightarrow> bit x 0" "bit x 0 \<Longrightarrow> bit ?d 0 \<or> bit x 7 \<or> (\<not> bit x 2 \<and> \<not> bit x 3)"
    "bit x 5 \<Longrightarrow> bit x 0 \<and> \<not> bit x 2 \<and> \<not> bit x 3"
    using assms(1) same [of 2] same [of 3] same [of 7] by (auto simp: flags_ok_def)
  have b0: "bit (fa_flags fs0) n = bit ?d n" for n by (simp add: fs0_def initial_state_def default_flags_def)
  have b1: "bit (fa_flags fs1) n \<longleftrightarrow> (if n = 0 then bit x 0 else bit ?d n)" for n
    using v same [of 2] same [of 3] same [of 7] by (auto simp: fs1_def bit_changes b0)
  have b2: "bit (fa_flags fs2) n \<longleftrightarrow> (if n = 1 then bit ?d 1 else bit x n)" if "n < 8" for n
    using v assms(2) same that same [of 2] same [of 3] by (auto simp: fs2_def bit_changes b1)
  have b3: "bit (fa_flags fs3) n \<longleftrightarrow> (if n = 1 then (if bit x 1 then bit ?d 1 \<or> \<not> (bit x 4 \<and> ReputationToRank standing > REP_HOSTILE)
      else bit ?d 1 \<and> \<not> bit x 0) else bit x n)" if "n < 8" for n
    using b2 [of n] b2 [of 0] b2 [of 1] b2 [of 4] that by (auto simp: fs3_def bit_changes s visible_def faction_bits)
  have b4: "bit (fa_flags fs4) j \<longleftrightarrow> (if j = 1 then
       (let may = (\<not> (bit x 4 \<and> ReputationToRank standing > REP_HOSTILE)) in
        (ReputationToRank (s32 (GetBaseReputation st (Some fe) + standing)) \<le> REP_HOSTILE \<and> may)
        \<or> (if bit x 1 then bit ?d 1 \<or> may else bit ?d 1 \<and> \<not> bit x 0)) else bit x j)"
    using b3 [of j] b3 [of 1] b3 [of 4] assms(3) by (auto simp: fs4_def bit_changes s Let_def)
  have w: "bit (ucast x :: u16) 0 = bit x 0" "bit (ucast x :: u16) 1 = bit x 1" "bit (ucast x :: u16) 5 = bit x 5"
    by (rule x, simp)+
  have "loaded_state st fe standing (ucast x)
      = (if ucast (fa_flags fs4) = (ucast x :: u16) then fs4\<lparr>fa_needSend := False, fa_needSave := False\<rparr> else fs4)"
    by (simp only: loaded_state_def Let_def w fs4_def fs3_def fs2_def fs1_def fs0_def)
  then have "fa_flags (loaded_state st fe standing (ucast x)) = fa_flags fs4" by simp
  with b4 show ?thesis by simp
qed

lemma loaded_parts: "fa_ID (loaded_state st fe standing x) = fe_ID fe" "fa_standing (loaded_state st fe standing x) = standing"
proof -
  have id: "fa_ID (set_at_war on fs) = fa_ID fs" "fa_ID (set_inactive on fs) = fa_ID fs" "fa_ID (show_state fs) = fa_ID fs" for on fs
    by (simp_all add: set_at_war_def set_inactive_def show_state_def touch_def)
  show "fa_ID (loaded_state st fe standing x) = fe_ID fe" "fa_standing (loaded_state st fe standing x) = standing"
    by (simp_all add: loaded_state_def Let_def id standing_kept) (simp_all add: initial_state_def)
qed

lemma loaded_synced:
  "\<not> fa_needSave (loaded_state st fe standing x) \<Longrightarrow> state_row (loaded_state st fe standing x) = (standing, x)"
proof -
  have save: "fa_needSave fs \<Longrightarrow> fa_needSave (set_at_war on fs)" "fa_needSave fs \<Longrightarrow> fa_needSave (set_inactive on fs)"
    "fa_needSave fs \<Longrightarrow> fa_needSave (show_state fs)" for on fs
    by (simp_all add: set_at_war_def set_inactive_def show_state_def touch_def)
  define fs4 where "fs4 = (let hostile = ReputationToRank (s32 (GetBaseReputation st (Some fe) + standing)) \<le> REP_HOSTILE;
          fs0 = (initial_state st fe)\<lparr>fa_standing := standing\<rparr>;
          fs1 = (if bit x 0 then show_state fs0 else fs0);
          fs2 = (if bit x 5 then set_inactive True fs1 else fs1);
          fs3 = (if bit x 1 then set_at_war True fs2 else if visible fs2 then set_at_war False fs2 else fs2)
      in if hostile then set_at_war True fs3 else fs3)"
  have l: "loaded_state st fe standing x = (if ucast (fa_flags fs4) = x then fs4\<lparr>fa_needSend := False, fa_needSave := False\<rparr> else fs4)"
    by (simp only: loaded_state_def Let_def fs4_def)
  have "fa_needSave ((initial_state st fe)\<lparr>fa_standing := standing\<rparr>)" by (simp add: initial_state_def)
  then have "fa_needSave fs4" unfolding fs4_def Let_def by (simp add: save split: if_splits)
  then show "\<not> fa_needSave (loaded_state st fe standing x) \<Longrightarrow> state_row (loaded_state st fe standing x) = (standing, x)"
    using loaded_parts(2) [of st fe standing x] by (auto simp: l state_row_def split: if_splits)
qed

lemma state_listed: "rep_ok st m \<Longrightarrow> sm_find (rm_factions m) k = Some fs \<Longrightarrow>
  \<exists>fe. in_list st fe \<and> LookupEntry st (fa_ID fs) = Some fe \<and> fe_ID fe = fa_ID fs \<and> list_key fe = k
    \<and> flags_ok (default_flags st fe) (fa_flags fs)"
  using rep_okD [of st m k fs] by (auto simp: state_ok_def in_list_def)

lemma life_synced:
  assumes "rep_life st m t" "dbc_ok st"
  shows "rows_synced m t \<and> table_ok st t"
  using assms(1)
proof (induction rule: rep_life.induct)
  case (Login rows e m)
  let ?m = "LoadFromDB st e rows m"
  have "rows_synced ?m (map_of rows)"
    unfolding rows_synced_def
  proof (intro allI impI, elim conjE)
    fix k fs
    assume fs: "sm_find (rm_factions ?m) k = Some fs" "\<not> fa_needSave fs"
    from state_listed [OF LoadFromDB_ok(1) [OF assms(2) Login] fs(1)]
    obtain fe where fe: "in_list st fe" "list_key fe = k" "fe_ID fe = fa_ID fs" by blast
    have l: "fs = (case map_of rows (table_id fs) of None \<Rightarrow> initial_state st fe
         | Some (standing, x) \<Rightarrow> loaded_state st fe standing x)"
      using LoadFromDB_ok(2) [OF assms(2) Login fe(1), of e m] fs(1) fe(2,3) by (simp add: table_id_def)
    show "map_of rows (table_id fs) = Some (state_row fs)"
    proof (cases "map_of rows (table_id fs)")
      case None
      with l fs(2) show ?thesis by (simp add: initial_state_def)
    next
      case (Some r)
      obtain standing x where r: "r = (standing, x)" by (cases r)
      with l Some have "fs = loaded_state st fe standing x" by simp
      with loaded_synced [of st fe standing x] fs(2) Some r show ?thesis by simp
    qed
  qed
  with Login show ?case using rows_table_ok [of rows st] by (simp add: rows_ok_def)
next
  case (Play m t m')
  then have "rows_synced m t" by blast
  then have "rows_synced m' t"
    using rep_step_marks [OF Play(2)] unfolding rows_synced_def marks_def same_row_def state_row_def table_id_def by metis
  with Play show ?case by blast
next
  case (Save m t)
  note ok = rep_life_ok [OF Save(1) assms(2)]
  have "rows_synced (SaveToDB m) (saved m t)"
    unfolding rows_synced_def
  proof (intro allI impI, elim conjE)
    fix k fs'
    assume "sm_find (rm_factions (SaveToDB m)) k = Some fs'"
    then obtain fs where fs: "sm_find (rm_factions m) k = Some fs" "fs' = fs\<lparr>fa_needSave := False\<rparr>"
      by (auto simp: SaveToDB_def sm_find_map)
    from Save.IH fs(1) have "\<not> fa_needSave fs \<Longrightarrow> t (table_id fs) = Some (state_row fs)" by (auto simp: rows_synced_def)
    with saved_at(1) [OF assms(2) ok fs(1)] fs(2) show "saved m t (table_id fs') = Some (state_row fs')"
      by (simp add: table_id_def state_row_def)
  qed
  with Save.IH saved_table_ok [OF assms(2) ok] show ?case by blast
qed

section \<open>The properties\<close>

text \<open>Two factions for the witnesses: one at peace by default, one at war; the rate is one.\<close>

definition sample_faction :: "u32 \<Rightarrow> int \<Rightarrow> u32 \<Rightarrow> faction_entry" where
  "sample_faction i l x = \<lparr>fe_ID = i, fe_listID = l, fe_races = [1, 0, 0, 0], fe_classes = [0, 0, 0, 0],
     fe_values = [0, 0, 0, 0], fe_flags = [x, 0, 0, 0], fe_team = 0, fe_rateIn = 0, fe_rateOut = 0, fe_maxRankIn = 0\<rparr>"

definition sample_rep_store :: rep_store where
  "sample_rep_store = \<lparr>rst_rows = [None, Some (sample_faction 1 0 0), Some (sample_faction 2 1 2)],
     rst_spill = (\<lambda>i. None), rst_race = 1, rst_class = 1\<rparr>"

definition sample_rep_env :: rep_env where
  "sample_rep_env = \<lparr>re_gain_rate = 0x3F800000, re_guild = True, re_guild_bonus = False, re_level1 = True, re_level2 = False,
     re_loading = False\<rparr>"

definition sample_login :: repmgr where
  "sample_login = LoadFromDB sample_rep_store sample_rep_env [(1, 8500, 1)] new_repmgr"

lemma sample_dbc_ok: "dbc_ok sample_rep_store"
proof -
  let ?one = "sample_faction 1 0 0" and ?two = "sample_faction 2 1 2"
  have len: "length (rst_rows sample_rep_store) = 3" by (simp add: sample_rep_store_def)
  have row: "i = 1 \<and> fe = ?one \<or> i = 2 \<and> fe = ?two" if "i < 3" "rst_rows sample_rep_store ! i = Some fe" for i fe
  proof -
    from that(1) have "i = 0 \<or> i = 1 \<or> i = 2" by linarith
    with that(2) show ?thesis by (auto simp: sample_rep_store_def)
  qed
  have base: "GetBaseReputation sample_rep_store (Some ?one) = 0" "GetBaseReputation sample_rep_store (Some ?two) = 0"
    by code_simp+
  have "default_flags sample_rep_store ?one = 0" "default_flags sample_rep_store ?two = 2" "\<not> bit (2 :: u8) 5"
    by code_simp+
  then have active: "\<not> bit (default_flags sample_rep_store ?one) 5" "\<not> bit (default_flags sample_rep_store ?two) 5" by simp_all
  have parts: "fe_ID ?one = 1" "fe_ID ?two = 2" "fe_listID ?one = 0" "fe_listID ?two = 1"
    by (simp_all add: sample_faction_def)
  have bounds: "Reputation_Bottom \<le> 0" "0 \<le> Reputation_Cap" by (simp_all add: Reputation_Bottom_def Reputation_Cap_def)
  show ?thesis
    unfolding dbc_ok_def len
  proof (intro conjI allI impI, simp, goal_cases)
    case (1 i fe)
    from row [OF 1] show ?case by (auto simp: parts)
  next
    case (2 i fe)
    from row [OF 2] show ?case by (auto simp: parts)
  next
    case (3 i fe)
    from row [OF 3] show ?case by (auto simp: parts)
  next
    case (4 i fe)
    from row [OF 4(1,2)] 4(3) show ?case by auto
  next
    case (5 i fe)
    from row [OF 5] show ?case by (auto simp: base bounds)
  next
    case (6 i fe)
    from row [OF 6] show ?case by (auto simp: base bounds)
  next
    case (7 i fe)
    from row [OF 7] active show ?case by auto
  next
    case (8 i j fe fe')
    then have "rst_rows sample_rep_store ! i = Some fe" "rst_rows sample_rep_store ! j = Some fe'" "fe_listID fe = fe_listID fe'"
      by blast+
    with row [OF 8(1)] row [OF 8(2)] show ?case by (auto simp: parts)
  qed
qed

lemma sample_login_life: "rep_life sample_rep_store sample_login (map_of [(1, 8500, 1)])"
  unfolding sample_login_def
proof (rule Login)
  have "GetBaseReputation sample_rep_store (LookupEntry sample_rep_store 1) = 0" by code_simp
  then show "rows_ok sample_rep_store [(1, 8500, 1)]"
    by (auto simp: rows_ok_def s32_id Reputation_Bottom_def Reputation_Cap_def)
qed

text \<open>
  C29: whatever a player does, the four counters are the numbers of factions that are visible,
  honored, revered and exalted, modulo their byte, and every standing stays between the bottom and
  the cap.
\<close>

theorem reputation_counters:
  assumes "dbc_ok st" "rep_life st m t"
  shows "rm_visible m = of_nat (length (filter (\<lambda>fs. has_flag (fa_flags fs) FACTION_FLAG_VISIBLE) (map snd (rm_factions m))))
    \<and> rm_honored m = of_nat (length (filter (\<lambda>fs. REP_HONORED \<le> ReputationToRank (total st fs)) (map snd (rm_factions m))))
    \<and> rm_revered m = of_nat (length (filter (\<lambda>fs. REP_REVERED \<le> ReputationToRank (total st fs)) (map snd (rm_factions m))))
    \<and> rm_exalted m = of_nat (length (filter (\<lambda>fs. REP_EXALTED \<le> ReputationToRank (total st fs)) (map snd (rm_factions m))))
    \<and> (\<forall>fs\<in>snd ` set (rm_factions m). - 42000 \<le> total st fs \<and> total st fs \<le> 42999)"
proof -
  have ok: "rep_ok st m" by (rule rep_life_ok [OF assms(2,1)])
  have r: "visible = (\<lambda>fs. has_flag (fa_flags fs) FACTION_FLAG_VISIBLE)" "ranked st r = (\<lambda>fs. r \<le> ReputationToRank (total st fs))" for r
    by (simp_all add: fun_eq_iff visible_def ranked_def)
  have "- 42000 \<le> total st fs \<and> total st fs \<le> 42999" if "(k, fs) \<in> set (rm_factions m)" for k fs
    using rep_okD [OF ok, of k fs] that sm_find_Some_iff [OF rep_ok_wf [OF ok], of k fs]
    by (simp add: state_ok_def Reputation_Bottom_def Reputation_Cap_def)
  with ok show ?thesis by (auto simp: rep_ok_def counters_ok_def tally_of_def r)
qed

lemma reputation_counters_witness:
  "\<exists>b m. SetReputation sample_rep_store sample_rep_env 1 600 True sample_login = Inr (b, m) \<and> rm_honored m = 1
    \<and> rm_honored m = of_nat (length (filter (\<lambda>fs. REP_HONORED \<le> ReputationToRank (total sample_rep_store fs)) (map snd (rm_factions m))))"
proof -
  have "case SetReputation sample_rep_store sample_rep_env 1 600 True sample_login of Inl err \<Rightarrow> False | Inr (b, m) \<Rightarrow> rm_honored m = 1"
    by code_simp
  then obtain b m where m: "SetReputation sample_rep_store sample_rep_env 1 600 True sample_login = Inr (b, m)" "rm_honored m = 1"
    by (auto split: sum.splits)
  from reputation_counters [OF sample_dbc_ok Play [OF sample_login_life Set [OF m(1)]]] m show ?thesis by blast
qed

text \<open>
  C30: after a save, logging in again restores every faction with its standing and all its flags
  but one. Whether a faction is at war afterwards depends: a hostile one is, unless peace is forced
  and the standing without the base value is not hostile; one that was at war is again under the
  same condition, or by default; one that was not stays at war by default when it is not visible.
\<close>

theorem relogin_restores:
  assumes "dbc_ok st" "rep_life st m t" "distinct (map fst rows)" "map_of rows = saved m t"
    and "sm_find (rm_factions m) k = Some fs"
  shows "\<exists>fs'. sm_find (rm_factions (LoadFromDB st e rows m0)) k = Some fs' \<and> fa_ID fs' = fa_ID fs
    \<and> fa_standing fs' = fa_standing fs
    \<and> fa_flags fs' AND NOT FACTION_FLAG_AT_WAR = fa_flags fs AND NOT FACTION_FLAG_AT_WAR
    \<and> has_flag (fa_flags fs') FACTION_FLAG_AT_WAR =
      (let may = (\<not> (has_flag (fa_flags fs) FACTION_FLAG_PEACE_FORCED \<and> ReputationToRank (fa_standing fs) > REP_HOSTILE));
           default = has_flag (ucast (GetDefaultStateFlags st (LookupEntry st (fa_ID fs)))) FACTION_FLAG_AT_WAR
       in (ReputationToRank (total st fs) \<le> REP_HOSTILE \<and> may)
        \<or> (if has_flag (fa_flags fs) FACTION_FLAG_AT_WAR then default \<or> may
            else default \<and> \<not> has_flag (fa_flags fs) FACTION_FLAG_VISIBLE))"
proof -
  note ok = rep_life_ok [OF assms(2,1)]
  have sync: "rows_synced m t" "table_ok st (saved m t)"
    using life_synced [OF assms(2,1)] saved_table_ok [OF assms(1) ok] by blast+
  then have rows: "rows_ok st rows" using rows_table_ok [OF assms(3)] assms(4) by simp
  from state_listed [OF ok assms(5)] obtain fe where fe: "in_list st fe" "LookupEntry st (fa_ID fs) = Some fe"
    "fe_ID fe = fa_ID fs" "list_key fe = k" "flags_ok (default_flags st fe) (fa_flags fs)" by blast
  have "saved m t (table_id fs) = Some (state_row fs)"
    using saved_at(1) [OF assms(1) ok assms(5), of t] sync(1) assms(5) unfolding rows_synced_def by (metis (full_types))
  then have l: "sm_find (rm_factions (LoadFromDB st e rows m0)) k
      = Some (loaded_state st fe (fa_standing fs) (ucast (fa_flags fs)))"
    using LoadFromDB_ok(2) [OF assms(1) rows fe(1), of e m0] fe(3,4) assms(4) by (simp add: table_id_def state_row_def)
  have d5: "\<not> bit (default_flags st fe) 5" using assms(1) dbc_row [OF fe(2)] unfolding dbc_ok_def by blast
  note bits = loaded_bits [OF fe(5) d5, of _ "fa_standing fs"]
  let ?fs' = "loaded_state st fe (fa_standing fs) (ucast (fa_flags fs))"
  have "fa_flags ?fs' AND NOT FACTION_FLAG_AT_WAR = fa_flags fs AND NOT FACTION_FLAG_AT_WAR"
  proof (rule bit_word_eqI)
    fix n
    assume "n < LENGTH(8)"
    then show "bit (fa_flags ?fs' AND NOT FACTION_FLAG_AT_WAR) n = bit (fa_flags fs AND NOT FACTION_FLAG_AT_WAR) n"
      using bits [of n] by (simp add: flag_changes)
  qed
  moreover have "has_flag (fa_flags ?fs') FACTION_FLAG_AT_WAR =
      (let may = (\<not> (has_flag (fa_flags fs) FACTION_FLAG_PEACE_FORCED \<and> ReputationToRank (fa_standing fs) > REP_HOSTILE));
           default = has_flag (ucast (GetDefaultStateFlags st (LookupEntry st (fa_ID fs)))) FACTION_FLAG_AT_WAR
       in (ReputationToRank (total st fs) \<le> REP_HOSTILE \<and> may)
        \<or> (if has_flag (fa_flags fs) FACTION_FLAG_AT_WAR then default \<or> may
            else default \<and> \<not> has_flag (fa_flags fs) FACTION_FLAG_VISIBLE))"
    using bits [of 1] by (simp add: faction_bits Let_def total_def fe(2) default_flags_def)
  ultimately show ?thesis using l loaded_parts fe(3) by simp
qed

definition sample_saved :: "(u16 \<times> int \<times> u16) list" where
  "sample_saved = [(1, 8500, 1), (2, 0, 2)]"

lemma relogin_restores_witness:
  "\<exists>fs'. sm_find (rm_factions (LoadFromDB sample_rep_store sample_rep_env sample_saved new_repmgr)) 0 = Some fs'
    \<and> fa_standing fs' = 8500"
proof -
  have "map_option fa_standing (sm_find (rm_factions sample_login) 0) = Some 8500" by code_simp
  then obtain fs where fs: "sm_find (rm_factions sample_login) 0 = Some fs" "fa_standing fs = 8500" by auto
  have "concat (map (save_stmts \<circ> snd) (rm_factions sample_login)) = [DelReputation 2, InsReputation 2 0 2]"
    by code_simp
  then have "saved sample_login (map_of [(1, 8500, 1)]) = (map_of [(1, 8500, 1)])(2 \<mapsto> (0, 2))"
    by (simp add: saved_def fun_eq_iff)
  then have "map_of sample_saved = saved sample_login (map_of [(1, 8500, 1)])"
    by (simp add: sample_saved_def fun_eq_iff)
  moreover have "distinct (map fst sample_saved)" by code_simp
  ultimately show ?thesis
    using relogin_restores [OF sample_dbc_ok sample_login_life _ _ fs(1), of sample_saved sample_rep_env new_repmgr] fs(2) by auto
qed

end
