(* ===== verification/Linked_List.thy ===== *)
theory Linked_List
  imports Base
begin

text \<open>
  The intrusive lists of \<open>src/src/server/shared/Dynamic/LinkedList.h\<close>, which the references
  between units, groups and maps are kept in. An element holds its two pointers itself; a head
  holds the two sentinels. The definitions work on a heap of elements as the code does, the
  lemmas show that they implement lists: \<open>lists_of h f\<close> says that every head \<open>k\<close> of the heap
  holds the elements \<open>f k\<close>, and that all other elements are in no list.
\<close>

section \<open>The heap\<close>

text \<open>The sentinels \<open>iFirst\<close> and \<open>iLast\<close> are parts of their head.\<close>

datatype element = SFirst nat | SLast nat | Element nat

record links =
  iNext :: "element option"
  iPrev :: "element option"

record list_heap =
  lh_links :: "element \<Rightarrow> links"
  lh_size :: "nat \<Rightarrow> u32"

datatype list_error = NullPointer

definition set_next :: "element \<Rightarrow> element option \<Rightarrow> list_heap \<Rightarrow> list_heap" where
  "set_next a p h = h\<lparr>lh_links := (lh_links h)(a := (lh_links h a)\<lparr>iNext := p\<rparr>)\<rparr>"

definition set_prev :: "element \<Rightarrow> element option \<Rightarrow> list_heap \<Rightarrow> list_heap" where
  "set_prev a p h = h\<lparr>lh_links := (lh_links h)(a := (lh_links h a)\<lparr>iPrev := p\<rparr>)\<rparr>"

abbreviation nxt :: "list_heap \<Rightarrow> element \<Rightarrow> element option" where
  "nxt h a \<equiv> iNext (lh_links h a)"

abbreviation prv :: "list_heap \<Rightarrow> element \<Rightarrow> element option" where
  "prv h a \<equiv> iPrev (lh_links h a)"

text \<open>A pointer is followed by \<open>deref\<close>.\<close>

definition deref :: "element option \<Rightarrow> (element \<Rightarrow> list_error + 'a) \<Rightarrow> list_error + 'a" where
  "deref p f = (case p of None \<Rightarrow> Inl NullPointer | Some a \<Rightarrow> f a)"

section \<open>LinkedListElement\<close>

definition new_element :: links where
  "new_element = \<lparr>iNext = None, iPrev = None\<rparr>"

definition hasNext :: "list_heap \<Rightarrow> element \<Rightarrow> bool" where
  "hasNext h a \<longleftrightarrow> (case nxt h a of None \<Rightarrow> False | Some b \<Rightarrow> nxt h b \<noteq> None)"

definition hasPrev :: "list_heap \<Rightarrow> element \<Rightarrow> bool" where
  "hasPrev h a \<longleftrightarrow> (case prv h a of None \<Rightarrow> False | Some b \<Rightarrow> prv h b \<noteq> None)"

definition isInList :: "list_heap \<Rightarrow> element \<Rightarrow> bool" where
  "isInList h a \<longleftrightarrow> nxt h a \<noteq> None \<and> prv h a \<noteq> None"

definition next_element :: "list_heap \<Rightarrow> element \<Rightarrow> element option" where
  "next_element h a = (if hasNext h a then nxt h a else None)"

definition prev_element :: "list_heap \<Rightarrow> element \<Rightarrow> element option" where
  "prev_element h a = (if hasPrev h a then prv h a else None)"

definition delink :: "element \<Rightarrow> list_heap \<Rightarrow> list_error + list_heap" where
  "delink a h =
     (if isInList h a then
        deref (nxt h a) (\<lambda>n.
          (let h1 = set_prev n (prv h a) h in
           deref (prv h1 a) (\<lambda>p.
             Inr (set_prev a None (set_next a None (set_next p (nxt h1 a) h1))))))
      else Inr h)"

definition insertBefore :: "element \<Rightarrow> element \<Rightarrow> list_heap \<Rightarrow> list_error + list_heap" where
  "insertBefore this e h =
     (let h1 = set_prev e (prv h this) (set_next e (Some this) h) in
      deref (prv h1 this) (\<lambda>p. Inr (set_prev this (Some e) (set_next p (Some e) h1))))"

definition insertAfter :: "element \<Rightarrow> element \<Rightarrow> list_heap \<Rightarrow> list_error + list_heap" where
  "insertAfter this e h =
     (let h1 = set_prev e (Some this) h;
          h2 = set_next e (nxt h1 this) h1 in
      deref (nxt h2 this) (\<lambda>n. Inr (set_next this (Some e) (set_prev n (Some e) h2))))"

section \<open>LinkedListHead\<close>

definition new_head :: "nat \<Rightarrow> list_heap \<Rightarrow> list_heap" where
  "new_head k h =
     (let h1 = h\<lparr>lh_links := (lh_links h)(SFirst k := new_element, SLast k := new_element)\<rparr>;
          h2 = set_prev (SLast k) (Some (SFirst k)) (set_next (SFirst k) (Some (SLast k)) h1)
      in h2\<lparr>lh_size := (lh_size h2)(k := 0)\<rparr>)"

definition isEmpty :: "list_heap \<Rightarrow> nat \<Rightarrow> list_error + bool" where
  "isEmpty h k = deref (nxt h (SFirst k)) (\<lambda>a. Inr (\<not> isInList h a))"

definition getFirst :: "list_heap \<Rightarrow> nat \<Rightarrow> list_error + element option" where
  "getFirst h k = sbind (isEmpty h k) (\<lambda>b. Inr (if b then None else nxt h (SFirst k)))"

definition getLast :: "list_heap \<Rightarrow> nat \<Rightarrow> list_error + element option" where
  "getLast h k = sbind (isEmpty h k) (\<lambda>b. Inr (if b then None else prv h (SLast k)))"

definition insertFirst :: "nat \<Rightarrow> element \<Rightarrow> list_heap \<Rightarrow> list_error + list_heap" where
  "insertFirst k e h = insertAfter (SFirst k) e h"

definition insertLast :: "nat \<Rightarrow> element \<Rightarrow> list_heap \<Rightarrow> list_error + list_heap" where
  "insertLast k e h = insertBefore (SLast k) e h"

definition incSize :: "nat \<Rightarrow> list_heap \<Rightarrow> list_heap" where
  "incSize k h = h\<lparr>lh_size := (lh_size h)(k := lh_size h k + 1)\<rparr>"

definition decSize :: "nat \<Rightarrow> list_heap \<Rightarrow> list_heap" where
  "decSize k h = h\<lparr>lh_size := (lh_size h)(k := lh_size h k - 1)\<rparr>"

text \<open>
  The walk from an element by \<open>next\<close> up to null. It does not end on a cycle, hence the
  \<open>partial_function\<close>.
\<close>

partial_function (option) walk :: "list_heap \<Rightarrow> element option \<Rightarrow> element list option" where
  "walk h p = (case p of None \<Rightarrow> Some []
     | Some a \<Rightarrow> Option.bind (walk h (next_element h a)) (\<lambda>as. Some (a # as)))"

definition getSize :: "list_heap \<Rightarrow> nat \<Rightarrow> list_error + u32 option" where
  "getSize h k =
     (if lh_size h k = 0
      then sbind (getFirst h k) (\<lambda>p. Inr (case walk h p of None \<Rightarrow> None | Some as \<Rightarrow> Some (of_nat (length as))))
      else Inr (Some (lh_size h k)))"

text \<open>
  \<open>RefManager::clearReferences\<close>: what \<open>invalidate\<close> does besides unlinking is the argument; the
  loop takes the first element until there is none.
\<close>

partial_function (option) clear_loop ::
    "(element \<Rightarrow> list_heap \<Rightarrow> list_error + list_heap) \<Rightarrow> nat \<Rightarrow> list_heap \<Rightarrow> (list_error + list_heap) option" where
  "clear_loop invalidate k h = (case getFirst h k of
     Inl err \<Rightarrow> Some (Inl err)
   | Inr None \<Rightarrow> Some (Inr h)
   | Inr (Some a) \<Rightarrow> (case invalidate a h of Inl err \<Rightarrow> Some (Inl err)
     | Inr h1 \<Rightarrow> (case delink a h1 of Inl err \<Rightarrow> Some (Inl err) | Inr h2 \<Rightarrow> clear_loop invalidate k h2)))"

section \<open>Heaps that hold lists\<close>

text \<open>The elements from \<open>a\<close> on are \<open>bs\<close>, linked in both directions.\<close>

fun seg :: "list_heap \<Rightarrow> element \<Rightarrow> element list \<Rightarrow> bool" where
  "seg h a [] \<longleftrightarrow> True"
| "seg h a (b # bs) \<longleftrightarrow> nxt h a = Some b \<and> prv h b = Some a \<and> seg h b bs"

definition holds :: "list_heap \<Rightarrow> nat \<Rightarrow> element list \<Rightarrow> bool" where
  "holds h k xs \<longleftrightarrow> seg h (SFirst k) (xs @ [SLast k]) \<and> prv h (SFirst k) = None \<and> nxt h (SLast k) = None \<and> distinct xs
     \<and> set xs \<subseteq> range Element"

definition lists_of :: "nat set \<Rightarrow> list_heap \<Rightarrow> (nat \<Rightarrow> element list) \<Rightarrow> bool" where
  "lists_of K h f \<longleftrightarrow> (\<forall>k\<in>K. holds h k (f k)) \<and> (\<forall>j\<in>K. \<forall>k\<in>K. j \<noteq> k \<longrightarrow> set (f j) \<inter> set (f k) = {})
     \<and> (\<forall>n. (\<forall>k\<in>K. Element n \<notin> set (f k)) \<longrightarrow> nxt h (Element n) = None \<and> prv h (Element n) = None)"

lemma set_simps [simp]:
  "nxt (set_next a p h) b = (if b = a then p else nxt h b)" "prv (set_next a p h) b = prv h b"
  "prv (set_prev a p h) b = (if b = a then p else prv h b)" "nxt (set_prev a p h) b = nxt h b"
  "lh_size (set_next a p h) = lh_size h" "lh_size (set_prev a p h) = lh_size h"
  by (simp_all add: set_next_def set_prev_def)

lemma deref_Some [simp]: "deref (Some a) f = f a"
  by (simp add: deref_def)

lemma seg_append: "seg h a (xs @ ys) \<longleftrightarrow> seg h a xs \<and> seg h (last (a # xs)) ys"
  by (induction xs arbitrary: a) auto

text \<open>A segment depends on the links of its elements only.\<close>

lemma seg_cong:
  assumes "\<And>b. b \<in> set (butlast (a # bs)) \<Longrightarrow> nxt h' b = nxt h b" "\<And>b. b \<in> set bs \<Longrightarrow> prv h' b = prv h b"
  shows "seg h' a bs = seg h a bs"
  using assms by (induction bs arbitrary: a) auto

lemma holds_cong:
  assumes "\<And>b. b \<in> set (SFirst k # xs) \<Longrightarrow> nxt h' b = nxt h b" "\<And>b. b \<in> set xs \<union> {SLast k} \<Longrightarrow> prv h' b = prv h b"
    "prv h' (SFirst k) = prv h (SFirst k)" "nxt h' (SLast k) = nxt h (SLast k)"
  shows "holds h' k xs = holds h k xs"
proof -
  have "butlast (SFirst k # xs @ [SLast k]) = SFirst k # xs" by (simp add: butlast_append)
  then have "seg h' (SFirst k) (xs @ [SLast k]) = seg h (SFirst k) (xs @ [SLast k])"
    using assms(1,2) by (intro seg_cong) (simp_all)
  then show ?thesis by (simp add: holds_def assms(3,4))
qed

text \<open>\<open>e\<close> is put between \<open>p\<close> and \<open>q\<close>, or taken out from there.\<close>

definition spliced :: "element \<Rightarrow> element \<Rightarrow> element \<Rightarrow> list_heap \<Rightarrow> list_heap \<Rightarrow> bool" where
  "spliced p e q h h' \<longleftrightarrow> (\<forall>b. nxt h' b = (if b = p then Some e else if b = e then Some q else nxt h b))
     \<and> (\<forall>b. prv h' b = (if b = q then Some e else if b = e then Some p else prv h b)) \<and> lh_size h' = lh_size h"

definition unspliced :: "element \<Rightarrow> element \<Rightarrow> element \<Rightarrow> list_heap \<Rightarrow> list_heap \<Rightarrow> bool" where
  "unspliced p e q h h' \<longleftrightarrow> (\<forall>b. nxt h' b = (if b = p then Some q else if b = e then None else nxt h b))
     \<and> (\<forall>b. prv h' b = (if b = q then Some p else if b = e then None else prv h b)) \<and> lh_size h' = lh_size h"

lemma insertAfter_splices: "nxt h p = Some q \<Longrightarrow> e \<noteq> p \<Longrightarrow> e \<noteq> q \<Longrightarrow> \<exists>h'. insertAfter p e h = Inr h' \<and> spliced p e q h h'"
  by (auto simp: insertAfter_def spliced_def)

lemma insertBefore_splices: "prv h q = Some p \<Longrightarrow> e \<noteq> p \<Longrightarrow> e \<noteq> q \<Longrightarrow> \<exists>h'. insertBefore q e h = Inr h' \<and> spliced p e q h h'"
  by (auto simp: insertBefore_def spliced_def Let_def)

lemma delink_unsplices:
  "prv h e = Some p \<Longrightarrow> nxt h e = Some q \<Longrightarrow> e \<noteq> p \<Longrightarrow> e \<noteq> q \<Longrightarrow> \<exists>h'. delink e h = Inr h' \<and> unspliced p e q h h'"
  by (auto simp: delink_def isInList_def unspliced_def Let_def)

lemma last_fresh: "distinct ys \<Longrightarrow> ys \<noteq> [] \<Longrightarrow> last ys \<notin> set (butlast ys)"
  by (cases ys rule: rev_cases) auto

lemma splice_seg:
  assumes "seg h a (xs @ q # ys)" "spliced (last (a # xs)) e q h h'" "distinct (a # xs @ q # ys)" "e \<notin> set (a # xs @ q # ys)"
  shows "seg h' a (xs @ e # q # ys)"
proof -
  obtain p where p: "last (a # xs) = p" by blast
  have s: "seg h a xs" "seg h q ys" using assms(1) p by (simp_all only: seg_append seg.simps)
  have fresh: "p \<notin> set (butlast (a # xs))" "p \<in> set (a # xs)" "p \<notin> set (q # ys)"
    using assms(3) last_fresh [of "a # xs"] last_in_set [of "a # xs"] p by auto
  have "seg h' a xs"
    using assms(2-4) s(1) fresh in_set_butlastD [of _ "a # xs"] unfolding p by (subst seg_cong) (auto simp: spliced_def)
  moreover have "seg h' q ys"
    using assms(2-4) s(2) fresh in_set_butlastD [of _ "q # ys"] unfolding p by (subst seg_cong) (auto simp: spliced_def)
  moreover have "nxt h' p = Some e" "nxt h' e = Some q" "prv h' e = Some p" "prv h' q = Some e"
    using assms(2,4) fresh unfolding p by (auto simp: spliced_def)
  ultimately show ?thesis using p by (simp only: seg_append seg.simps)
qed

lemma unsplice_seg:
  assumes "seg h a (xs @ e # q # ys)" "unspliced (last (a # xs)) e q h h'" "distinct (a # xs @ e # q # ys)"
  shows "seg h' a (xs @ q # ys)"
proof -
  obtain p where p: "last (a # xs) = p" by blast
  have s: "seg h a xs" "seg h q ys" using assms(1) p by (simp_all only: seg_append seg.simps)
  have fresh: "p \<notin> set (butlast (a # xs))" "p \<in> set (a # xs)" "p \<notin> set (e # q # ys)"
    using assms(3) last_fresh [of "a # xs"] last_in_set [of "a # xs"] p by auto
  have "seg h' a xs"
    using assms(2,3) s(1) fresh in_set_butlastD [of _ "a # xs"] unfolding p by (subst seg_cong) (auto simp: unspliced_def)
  moreover have "seg h' q ys"
    using assms(2,3) s(2) fresh in_set_butlastD [of _ "q # ys"] unfolding p by (subst seg_cong) (auto simp: unspliced_def)
  moreover have "nxt h' p = Some q" "prv h' q = Some p"
    using assms(2,3) fresh unfolding p by (auto simp: unspliced_def)
  ultimately show ?thesis using p by (simp only: seg_append seg.simps)
qed

section \<open>The operations implement the operations on lists\<close>

lemma holds_nodes: "holds h k xs \<Longrightarrow> distinct (SFirst k # xs @ [SLast k])"
  by (auto simp: holds_def)

lemma ends_of: "last (SFirst k # xs) \<in> insert (SFirst k) (set xs)" "hd (ys @ [SLast k]) \<in> insert (SLast k) (set ys)"
  by (simp, cases ys, auto)

lemma splice_holds:
  assumes "holds h k (xs @ ys)" "spliced (last (SFirst k # xs)) (Element n) (hd (ys @ [SLast k])) h h'" "Element n \<notin> set (xs @ ys)"
  shows "holds h' k (xs @ Element n # ys)"
proof -
  obtain q zs where q: "ys @ [SLast k] = q # zs" by (cases "ys @ [SLast k]") auto
  have nodes: "set (xs @ ys) \<subseteq> range Element" "distinct (xs @ ys)" using assms(1) by (auto simp: holds_def)
  have "set (q # zs) = insert (SLast k) (set ys)" "distinct (q # zs)" using nodes by (auto simp flip: q)
  then have d: "distinct (SFirst k # xs @ q # zs)" "Element n \<notin> set (SFirst k # xs @ q # zs)"
    using nodes assms(3) by auto
  have "seg h (SFirst k) (xs @ q # zs)" using assms(1) by (simp add: holds_def flip: q)
  from splice_seg [OF this _ d] assms(2) q have "seg h' (SFirst k) (xs @ Element n # q # zs)" by simp
  moreover have "last (SFirst k # xs) \<noteq> SLast k" "q \<noteq> SFirst k"
    using nodes q ends_of(1) [of k xs] ends_of(2) [of ys k] by auto
  ultimately show ?thesis
    using assms nodes q by (auto simp: holds_def spliced_def)
qed

lemma unsplice_holds:
  assumes "holds h k (xs @ Element n # ys)" "unspliced (last (SFirst k # xs)) (Element n) (hd (ys @ [SLast k])) h h'"
  shows "holds h' k (xs @ ys)"
proof -
  obtain q zs where q: "ys @ [SLast k] = q # zs" by (cases "ys @ [SLast k]") auto
  have nodes: "set (xs @ ys) \<subseteq> range Element" "distinct (xs @ Element n # ys)" using assms(1) by (auto simp: holds_def)
  have "set (q # zs) = insert (SLast k) (set ys)" "distinct (q # zs)" using nodes by (auto simp flip: q)
  then have d: "distinct (SFirst k # xs @ Element n # q # zs)"
    using nodes by auto
  have "seg h (SFirst k) (xs @ Element n # q # zs)" using assms(1) by (simp add: holds_def flip: q)
  from unsplice_seg [OF this _ d] assms(2) q have "seg h' (SFirst k) (xs @ q # zs)" by simp
  moreover have "last (SFirst k # xs) \<noteq> SLast k" "q \<noteq> SFirst k"
    using nodes q ends_of(1) [of k xs] ends_of(2) [of ys k] by auto
  ultimately show ?thesis
    using assms nodes q by (auto simp: holds_def unspliced_def)
qed

text \<open>Splicing in one list leaves the others alone.\<close>

lemma splice_other:
  assumes "holds h j zs" "spliced p (Element n) q h h'" "p \<in> insert (SFirst k) (set ws)" "q \<in> insert (SLast k) (set ws)"
    "j \<noteq> k" "set ws \<subseteq> range Element" "set ws \<inter> set zs = {}" "Element n \<notin> set zs"
  shows "holds h' j zs"
proof -
  have "p \<notin> set (SFirst j # SLast j # zs)" "q \<notin> set (SFirst j # SLast j # zs)"
    using assms(1,3-7) by (auto simp: holds_def)
  with assms(1,2,8) show ?thesis by (subst holds_cong) (auto simp: spliced_def)
qed

lemma unsplice_other:
  assumes "holds h j zs" "unspliced p (Element n) q h h'" "p \<in> insert (SFirst k) (set ws)" "q \<in> insert (SLast k) (set ws)"
    "j \<noteq> k" "set ws \<subseteq> range Element" "set ws \<inter> set zs = {}" "Element n \<notin> set zs"
  shows "holds h' j zs"
proof -
  have "p \<notin> set (SFirst j # SLast j # zs)" "q \<notin> set (SFirst j # SLast j # zs)"
    using assms(1,3-7) by (auto simp: holds_def)
  with assms(1,2,8) show ?thesis by (subst holds_cong) (auto simp: unspliced_def)
qed

lemma lists_ofD: "lists_of K h f \<Longrightarrow> k \<in> K \<Longrightarrow> holds h k (f k)"
  "lists_of K h f \<Longrightarrow> j \<in> K \<Longrightarrow> k \<in> K \<Longrightarrow> j \<noteq> k \<Longrightarrow> set (f j) \<inter> set (f k) = {}"
  "lists_of K h f \<Longrightarrow> (\<And>k. k \<in> K \<Longrightarrow> Element n \<notin> set (f k)) \<Longrightarrow> nxt h (Element n) = None \<and> prv h (Element n) = None"
  by (auto simp: lists_of_def)

lemma splice_lists:
  assumes l: "lists_of K h f" and k: "k \<in> K" "f k = xs @ ys" and n: "\<And>j. j \<in> K \<Longrightarrow> Element n \<notin> set (f j)"
    and sp: "spliced (last (SFirst k # xs)) (Element n) (hd (ys @ [SLast k])) h h'"
  shows "lists_of K h' (f(k := xs @ Element n # ys))"
proof -
  note holds = lists_ofD(1) [OF l] and ends = ends_of(1) [of k xs] ends_of(2) [of ys k]
  have el: "set (f j) \<subseteq> range Element" if "j \<in> K" for j using holds [OF that] by (auto simp: holds_def)
  have here: "holds h' k (xs @ Element n # ys)"
    using splice_holds [OF _ sp] holds [OF k(1)] n [OF k(1)] k(2) by simp
  have there: "holds h' j (f j)" if j: "j \<in> K" "j \<noteq> k" for j
  proof (rule splice_other [OF holds [OF j(1)] sp])
    show "set (xs @ ys) \<inter> set (f j) = {}" using lists_ofD(2) [OF l k(1) j(1)] j(2) k(2) by simp
  qed (use ends el [OF k(1)] n [OF j(1)] j(2) k(2) in auto)
  have free: "nxt h' (Element i) = None \<and> prv h' (Element i) = None"
    if i: "Element i \<notin> set (xs @ Element n # ys)" "\<And>j. j \<in> K \<Longrightarrow> j \<noteq> k \<Longrightarrow> Element i \<notin> set (f j)" for i
  proof -
    have "Element i \<noteq> last (SFirst k # xs)" "Element i \<noteq> hd (ys @ [SLast k])" using i(1) ends k(2) by auto
    moreover have "\<And>j. j \<in> K \<Longrightarrow> Element i \<notin> set (f j)" using i k(2) by (metis Un_iff list.set_intros(2) set_append)
    ultimately show ?thesis using lists_ofD(3) [OF l, of i] i(1) sp by (simp add: spliced_def)
  qed
  have apart: "set ((f(k := xs @ Element n # ys)) i) \<inter> set ((f(k := xs @ Element n # ys)) j) = {}"
    if "i \<in> K" "j \<in> K" "i \<noteq> j" for i j
    using lists_ofD(2) [OF l that] n [OF that(1)] n [OF that(2)] k(2) that(3) by auto
  show ?thesis
    unfolding lists_of_def
  proof (intro conjI ballI allI impI)
    fix i assume i: "\<forall>j\<in>K. Element i \<notin> set ((f(k := xs @ Element n # ys)) j)"
    have "Element i \<notin> set (xs @ Element n # ys)" using bspec [OF i k(1)] by simp
    moreover have "Element i \<notin> set (f j)" if "j \<in> K" "j \<noteq> k" for j using bspec [OF i that(1)] that(2) by simp
    ultimately show "nxt h' (Element i) = None" "prv h' (Element i) = None" using free by blast+
  qed (use here there apart in \<open>simp_all split: if_splits\<close>)
qed

lemma unsplice_lists:
  assumes l: "lists_of K h f" and k: "k \<in> K" "f k = xs @ Element n # ys"
    and sp: "unspliced (last (SFirst k # xs)) (Element n) (hd (ys @ [SLast k])) h h'"
  shows "lists_of K h' (f(k := xs @ ys))"
proof -
  note holds = lists_ofD(1) [OF l] and ends = ends_of(1) [of k xs] ends_of(2) [of ys k]
  have el: "set (f j) \<subseteq> range Element" if "j \<in> K" for j using holds [OF that] by (auto simp: holds_def)
  have n: "Element n \<notin> set (f j)" if "j \<in> K" "j \<noteq> k" for j
    using lists_ofD(2) [OF l k(1) that(1)] that(2) k(2) by auto
  have "holds h' k (xs @ ys)"
    using unsplice_holds [OF _ sp] holds [OF k(1)] k(2) by simp
  moreover have "holds h' j (f j)" if j: "j \<in> K" "j \<noteq> k" for j
  proof (rule unsplice_other [OF holds [OF j(1)] sp])
    show "set (xs @ ys) \<inter> set (f j) = {}" using lists_ofD(2) [OF l k(1) j(1)] j(2) k(2) by auto
  qed (use ends el [OF k(1)] n [OF j] j(2) k(2) in auto)
  moreover have "nxt h' (Element i) = None \<and> prv h' (Element i) = None"
    if i: "Element i \<notin> set (xs @ ys)" "\<And>j. j \<in> K \<Longrightarrow> j \<noteq> k \<Longrightarrow> Element i \<notin> set (f j)" for i
  proof -
    have e: "Element i \<noteq> last (SFirst k # xs)" "Element i \<noteq> hd (ys @ [SLast k])" using i(1) ends by auto
    show ?thesis
    proof (cases "i = n")
      case False
      with i k(2) have "\<And>j. j \<in> K \<Longrightarrow> Element i \<notin> set (f j)" by (metis Un_iff element.inject(3) set_ConsD set_append)
      with lists_ofD(3) [OF l, of i] e False sp show ?thesis by (simp add: unspliced_def)
    qed (use e sp in \<open>simp add: unspliced_def\<close>)
  qed
  moreover have "set ((f(k := xs @ ys)) i) \<inter> set ((f(k := xs @ ys)) j) = {}"
    if "i \<in> K" "j \<in> K" "i \<noteq> j" for i j
    using lists_ofD(2) [OF l that] k(2) that(3) by auto
  ultimately show ?thesis using k(1) unfolding lists_of_def by (metis fun_upd_apply)
qed

lemma list_links:
  assumes "holds h k (xs @ a # ys)"
  shows "prv h a = Some (last (SFirst k # xs))" "nxt h a = Some (hd (ys @ [SLast k]))"
proof -
  have "seg h (SFirst k) (xs @ a # ys @ [SLast k])" using assms by (simp add: holds_def)
  then show "prv h a = Some (last (SFirst k # xs))" "nxt h a = Some (hd (ys @ [SLast k]))"
    by (simp_all only: seg_append seg.simps) (cases ys; simp)
qed

lemma list_ends:
  assumes "holds h k xs"
  shows "nxt h (SFirst k) = Some (hd (xs @ [SLast k]))" "prv h (SLast k) = Some (last (SFirst k # xs))"
proof -
  have s: "seg h (SFirst k) (xs @ [SLast k])" using assms by (simp add: holds_def)
  then show "nxt h (SFirst k) = Some (hd (xs @ [SLast k]))" by (cases xs) simp_all
  from s show "prv h (SLast k) = Some (last (SFirst k # xs))" by (simp only: seg_append seg.simps)
qed

lemma delink_ok:
  assumes l: "lists_of K h f"
  shows "\<exists>h'. delink (Element n) h = Inr h' \<and> lists_of K h' (\<lambda>k. remove1 (Element n) (f k)) \<and> lh_size h' = lh_size h"
proof (cases "\<exists>k\<in>K. Element n \<in> set (f k)")
  case False
  then have "\<not> isInList h (Element n)" using lists_ofD(3) [OF l] by (auto simp: isInList_def)
  moreover have "remove1 (Element n) (f k) = f k" if "k \<in> K" for k using False that by (simp add: remove1_idem)
  ultimately show ?thesis using l by (simp add: delink_def lists_of_def)
next
  case True
  then obtain k xs ys where k: "k \<in> K" "f k = xs @ Element n # ys" by (metis split_list)
  note h = lists_ofD(1) [OF l k(1), unfolded k(2)]
  have d: "Element n \<notin> set (xs @ ys)" using h by (auto simp: holds_def)
  with ends_of(1) [of k xs] ends_of(2) [of ys k] have "Element n \<noteq> last (SFirst k # xs)" "Element n \<noteq> hd (ys @ [SLast k])"
    by auto
  from delink_unsplices [OF list_links [OF h] this] obtain h' where h': "delink (Element n) h = Inr h'"
    "unspliced (last (SFirst k # xs)) (Element n) (hd (ys @ [SLast k])) h h'" by blast
  have "remove1 (Element n) (f j) = (if j = k then xs @ ys else f j)" if "j \<in> K" for j
    using lists_ofD(2) [OF l k(1) that] k(2) d by (auto simp: remove1_append remove1_idem)
  with unsplice_lists [OF l k h'(2)] have "lists_of K h' (\<lambda>k. remove1 (Element n) (f k))"
    unfolding lists_of_def by simp
  with h' show ?thesis by (auto simp: unspliced_def)
qed

lemma insert_ok:
  assumes l: "lists_of K h f" and k: "k \<in> K" and n: "\<And>j. j \<in> K \<Longrightarrow> Element n \<notin> set (f j)"
  shows "\<exists>h'. insertFirst k (Element n) h = Inr h' \<and> lists_of K h' (f(k := Element n # f k)) \<and> lh_size h' = lh_size h"
    "\<exists>h'. insertLast k (Element n) h = Inr h' \<and> lists_of K h' (f(k := f k @ [Element n])) \<and> lh_size h' = lh_size h"
proof -
  note h = lists_ofD(1) [OF l k] and ends = ends_of(1) [of k "f k"] ends_of(2) [of "f k" k]
  have ne: "Element n \<noteq> last (SFirst k # f k)" "Element n \<noteq> hd (f k @ [SLast k])" using n [OF k] ends by auto
  obtain h1 where h1: "insertFirst k (Element n) h = Inr h1" "spliced (SFirst k) (Element n) (hd (f k @ [SLast k])) h h1"
    using insertAfter_splices [OF list_ends(1) [OF h] _ ne(2)] by (auto simp: insertFirst_def)
  with splice_lists [OF l k, of "[]" "f k" n h1] n
  show "\<exists>h'. insertFirst k (Element n) h = Inr h' \<and> lists_of K h' (f(k := Element n # f k)) \<and> lh_size h' = lh_size h"
    by (auto simp: spliced_def)
  obtain h2 where h2: "insertLast k (Element n) h = Inr h2" "spliced (last (SFirst k # f k)) (Element n) (SLast k) h h2"
    using insertBefore_splices [OF list_ends(2) [OF h] ne(1)] by (auto simp: insertLast_def)
  with splice_lists [OF l k, of "f k" "[]" n h2] n
  show "\<exists>h'. insertLast k (Element n) h = Inr h' \<and> lists_of K h' (f(k := f k @ [Element n])) \<and> lh_size h' = lh_size h"
    by (auto simp: spliced_def)
qed

lemma getFirst_ok:
  assumes "lists_of K h f" "k \<in> K"
  shows "getFirst h k = Inr (if f k = [] then None else Some (hd (f k)))"
    "getLast h k = Inr (if f k = [] then None else Some (last (f k)))"
proof -
  note h = lists_ofD(1) [OF assms]
  have e: "isEmpty h k = Inr (f k = [])"
  proof (cases "f k")
    case Nil
    then have "nxt h (SFirst k) = Some (SLast k)" using list_ends(1) [OF h] by simp
    then show ?thesis using h Nil by (simp add: isEmpty_def isInList_def holds_def)
  next
    case (Cons a as)
    then have "nxt h (SFirst k) = Some a" "nxt h a \<noteq> None" "prv h a \<noteq> None"
      using list_ends(1) [OF h] list_links [of h k "[]" a as] h by simp_all
    then show ?thesis using Cons by (simp add: isEmpty_def isInList_def)
  qed
  show "getFirst h k = Inr (if f k = [] then None else Some (hd (f k)))"
    using list_ends(1) [OF h] by (simp add: getFirst_def e)
  show "getLast h k = Inr (if f k = [] then None else Some (last (f k)))"
    using list_ends(2) [OF h] by (simp add: getLast_def e)
qed

text \<open>From an element of a list, \<open>next\<close> walks over the rest of it.\<close>

lemma next_ok:
  assumes "holds h k (xs @ a # ys)"
  shows "next_element h a = (if ys = [] then None else Some (hd ys))"
proof (cases ys)
  case Nil
  then show ?thesis using list_links(2) [OF assms] assms by (simp add: next_element_def hasNext_def holds_def)
next
  case (Cons b zs)
  with list_links(2) [OF assms] list_links(2) [of h k "xs @ [a]" b zs] assms
  show ?thesis by (simp add: next_element_def hasNext_def)
qed

lemma walk_ok: "holds h k (xs @ ys) \<Longrightarrow> walk h (if ys = [] then None else Some (hd ys)) = Some ys"
proof (induction ys arbitrary: xs)
  case (Cons a ys)
  from Cons.IH [of "xs @ [a]"] Cons.prems have "walk h (if ys = [] then None else Some (hd ys)) = Some ys" by simp
  then show ?case
    by (subst walk.simps) (simp only: list.distinct if_False list.sel option.case next_ok [OF Cons.prems] Option.bind.bind_lunit)
qed (simp add: walk.simps)

lemma getSize_ok:
  assumes "lists_of K h f" "k \<in> K" "lh_size h k = 0"
  shows "getSize h k = Inr (Some (of_nat (length (f k))))"
  using walk_ok [of h k "[]" "f k"] lists_ofD(1) [OF assms(1,2)] getFirst_ok(1) [OF assms(1,2)] assms(3)
  by (simp add: getSize_def del: if_split_asm split del: if_split)

lemma clear_loop_ok:
  assumes "lists_of K h f" "k \<in> K"
    and inv: "\<And>n h f. lists_of K h f \<Longrightarrow> \<exists>h'. invalidate (Element n) h = Inr h' \<and> lists_of K h' (\<lambda>k. remove1 (Element n) (f k))"
  shows "\<exists>h'. clear_loop invalidate k h = Some (Inr h') \<and> lists_of K h' (f(k := []))"
  using assms(1)
proof (induction "f k" arbitrary: f h)
  case Nil
  then show ?case
    using getFirst_ok(1) [OF Nil.prems assms(2)] by (subst clear_loop.simps) (simp add: fun_upd_idem)
next
  case (Cons a as)
  note l = Cons.prems
  have fk: "f k = a # as" by (rule Cons.hyps(2) [symmetric])
  obtain n where n: "a = Element n" using lists_ofD(1) [OF l assms(2)] by (auto simp: holds_def fk)
  from inv [OF l] obtain h1 where h1: "invalidate a h = Inr h1" "lists_of K h1 (\<lambda>k. remove1 a (f k))" using n by blast
  from delink_ok [OF h1(2), of n] obtain h2 where h2: "delink a h1 = Inr h2"
    "lists_of K h2 (\<lambda>k. remove1 a (remove1 a (f k)))" using n by blast
  have dist: "distinct (f j)" if "j \<in> K" for j using lists_ofD(1) [OF l that] by (simp add: holds_def)
  have only: "a \<notin> set (f j)" if "j \<in> K" "j \<noteq> k" for j
    using lists_ofD(2) [OF l assms(2) that(1)] that(2) Cons.hyps(2) by (metis disjoint_iff list.set_intros(1))
  have f: "remove1 a (remove1 a (f j)) = (if j = k then as else f j)" if "j \<in> K" for j
    using only that dist [OF assms(2)] fk by (auto simp: remove1_idem)
  then have l2: "lists_of K h2 (f(k := as))" using h2(2) unfolding lists_of_def by simp
  from Cons.hyps(1) [OF _ l2] have "\<exists>h'. clear_loop invalidate k h2 = Some (Inr h') \<and> lists_of K h' (f(k := []))" by simp
  moreover have "getFirst h k = Inr (Some a)" using getFirst_ok(1) [OF l assms(2)] by (simp add: fk)
  ultimately show ?case by (subst clear_loop.simps) (simp add: h1(1) h2(1))
qed

section \<open>Sequences of operations\<close>

definition empty_heap :: list_heap where
  "empty_heap = \<lparr>lh_links = (\<lambda>a. new_element), lh_size = (\<lambda>k. 0)\<rparr>"

lemma new_head_ok:
  assumes "lists_of K h f" "k \<notin> K" "\<And>k. lh_size h k = 0"
  shows "lists_of (insert k K) (new_head k h) (f(k := []))" "lh_size (new_head k h) j = 0"
proof -
  have same: "nxt (new_head k h) a = nxt h a" "prv (new_head k h) a = prv h a" if "a \<noteq> SFirst k" "a \<noteq> SLast k" for a
    using that by (simp_all add: new_head_def Let_def)
  have "holds (new_head k h) k []" by (simp add: holds_def new_head_def Let_def new_element_def)
  moreover have "holds (new_head k h) j (f j)" if "j \<in> K" for j
  proof -
    have "j \<noteq> k" using that assms(2) by blast
    moreover have "set (f j) \<subseteq> range Element" using lists_ofD(1) [OF assms(1) that] by (simp add: holds_def)
    ultimately have "holds (new_head k h) j (f j) = holds h j (f j)" by (intro holds_cong) (auto intro!: same)
    with lists_ofD(1) [OF assms(1) that] show ?thesis by simp
  qed
  ultimately show "lists_of (insert k K) (new_head k h) (f(k := []))"
    using assms(1,2) unfolding lists_of_def by (auto simp: same)
  show "lh_size (new_head k h) j = 0" using assms(3) by (simp add: new_head_def Let_def)
qed

lemma new_heads_ok:
  "distinct ks \<Longrightarrow> lists_of (set ks) (foldr new_head ks empty_heap) (\<lambda>k. []) \<and> (\<forall>j. lh_size (foldr new_head ks empty_heap) j = 0)"
proof (induction ks)
  case (Cons k ks)
  then have "lists_of (set ks) (foldr new_head ks empty_heap) (\<lambda>k. [])" "k \<notin> set ks"
    "\<And>j. lh_size (foldr new_head ks empty_heap) j = 0" by simp_all
  note new = new_head_ok [OF this]
  from new(1) show ?case by (simp add: new(2) fun_upd_idem)
qed (simp add: lists_of_def empty_heap_def new_element_def)

datatype list_call = Insert_First nat nat | Insert_Last nat nat | Unlink nat

fun run_op :: "list_call \<Rightarrow> list_heap \<Rightarrow> list_error + list_heap" where
  "run_op (Insert_First k n) h = insertFirst k (Element n) h"
| "run_op (Insert_Last k n) h = insertLast k (Element n) h"
| "run_op (Unlink n) h = delink (Element n) h"

fun run_ops :: "list_call list \<Rightarrow> list_heap \<Rightarrow> list_error + list_heap" where
  "run_ops [] h = Inr h"
| "run_ops (x # xs) h = sbind (run_op x h) (run_ops xs)"

text \<open>The same on lists. An element is inserted only when it is in no list.\<close>

fun list_of_op :: "list_call \<Rightarrow> (nat \<Rightarrow> element list) \<Rightarrow> nat \<Rightarrow> element list" where
  "list_of_op (Insert_First k n) f = f(k := Element n # f k)"
| "list_of_op (Insert_Last k n) f = f(k := f k @ [Element n])"
| "list_of_op (Unlink n) f = (\<lambda>k. remove1 (Element n) (f k))"

fun op_allowed :: "nat list \<Rightarrow> list_call \<Rightarrow> (nat \<Rightarrow> element list) \<Rightarrow> bool" where
  "op_allowed ks (Insert_First k n) f \<longleftrightarrow> k \<in> set ks \<and> (\<forall>j\<in>set ks. Element n \<notin> set (f j))"
| "op_allowed ks (Insert_Last k n) f \<longleftrightarrow> k \<in> set ks \<and> (\<forall>j\<in>set ks. Element n \<notin> set (f j))"
| "op_allowed ks (Unlink n) f \<longleftrightarrow> True"

fun ops_allowed :: "nat list \<Rightarrow> list_call list \<Rightarrow> (nat \<Rightarrow> element list) \<Rightarrow> bool" where
  "ops_allowed ks [] f \<longleftrightarrow> True"
| "ops_allowed ks (x # xs) f \<longleftrightarrow> op_allowed ks x f \<and> ops_allowed ks xs (list_of_op x f)"

lemma run_op_ok:
  "lists_of (set ks) h f \<Longrightarrow> op_allowed ks x f \<Longrightarrow>
   \<exists>h'. run_op x h = Inr h' \<and> lists_of (set ks) h' (list_of_op x f) \<and> lh_size h' = lh_size h"
  by (cases x) (auto intro!: insert_ok delink_ok)

lemma run_ops_ok:
  "lists_of (set ks) h f \<Longrightarrow> ops_allowed ks xs f \<Longrightarrow>
   \<exists>h'. run_ops xs h = Inr h' \<and> lists_of (set ks) h' (fold list_of_op xs f) \<and> lh_size h' = lh_size h"
proof (induction xs arbitrary: h f)
  case (Cons x xs)
  from run_op_ok [OF Cons.prems(1), of x] Cons.prems(2) obtain h1 where
    h1: "run_op x h = Inr h1" "lists_of (set ks) h1 (list_of_op x f)" "lh_size h1 = lh_size h" by auto
  from Cons.IH [OF h1(2)] Cons.prems(2) h1 show ?case by auto
qed simp

text \<open>
  C31: whatever insertions, at either end, and removals are made on the lists of any number of
  heads, as long as an element is not inserted twice, no null pointer is followed, and each head
  shows exactly the elements inserted and not removed, in their order: from its first element
  \<open>next\<close> walks over all of them and stops, \<open>getSize\<close> counts them, and clearing the references
  ends with an empty list.
\<close>

theorem linked_lists_refine:
  assumes "distinct ks" "ops_allowed ks ops (\<lambda>k. [])"
  shows "\<exists>h. run_ops ops (foldr new_head ks empty_heap) = Inr h \<and> (\<forall>k\<in>set ks.
    let xs = fold list_of_op ops (\<lambda>k. []) k; front = (if xs = [] then None else Some (hd xs)) in
    getFirst h k = Inr front \<and> getLast h k = Inr (if xs = [] then None else Some (last xs))
    \<and> walk h front = Some xs \<and> getSize h k = Inr (Some (of_nat (length xs)))
    \<and> (\<exists>h'. clear_loop delink k h = Some (Inr h') \<and> getFirst h' k = Inr None))"
proof -
  note new = new_heads_ok [OF assms(1)]
  from run_ops_ok [OF conjunct1 [OF new] assms(2)] new obtain h where
    h: "run_ops ops (foldr new_head ks empty_heap) = Inr h" "lists_of (set ks) h (fold list_of_op ops (\<lambda>k. []))" "\<And>k. lh_size h k = 0"
    by auto
  have "\<exists>h'. clear_loop delink k h = Some (Inr h') \<and> getFirst h' k = Inr None" if k: "k \<in> set ks" for k
  proof -
    have "\<exists>h'. delink (Element n) h = Inr h' \<and> lists_of (set ks) h' (\<lambda>k. remove1 (Element n) (f k))"
      if "lists_of (set ks) h f" for n h f
      using delink_ok [OF that] by blast
    from clear_loop_ok [where invalidate = delink, OF h(2) k this] obtain h' where h': "clear_loop delink k h = Some (Inr h')"
      "lists_of (set ks) h' ((fold list_of_op ops (\<lambda>k. []))(k := []))" by blast
    with getFirst_ok(1) [OF h'(2) k] show ?thesis by simp
  qed
  moreover have "walk h (if xs = [] then None else Some (hd xs)) = Some xs"
    if "k \<in> set ks" "xs = fold list_of_op ops (\<lambda>k. []) k" for k xs
    using walk_ok [of h k "[]" xs] lists_ofD(1) [OF h(2) that(1)] that(2) by simp
  ultimately show ?thesis
    using getFirst_ok [OF h(2)] getSize_ok [OF h(2) _ h(3)] h(1) by (auto simp: Let_def)
qed

lemma linked_lists_refine_witness:
  "\<exists>h. run_ops [Insert_First 0 7, Insert_First 0 8, Insert_Last 1 9, Unlink 7] (foldr new_head [0, 1] empty_heap) = Inr h
     \<and> getFirst h 0 = Inr (Some (Element 8)) \<and> getSize h 1 = Inr (Some 1)"
  using linked_lists_refine [of "[0, 1]" "[Insert_First 0 7, Insert_First 0 8, Insert_Last 1 9, Unlink 7]"] by (auto simp: Let_def)

end
