(* ===== verification/Threat.thy ===== *)
theory Threat
  imports World_Packet Guid_Types Float32
begin

text \<open>
  Threat: \<open>src/src/server/game/Combat/ThreatManager.cpp\<close> and \<open>.h\<close>, \<open>HostileRefManager.cpp\<close>, and the
  functions of \<open>Unit.cpp\<close> over them. A creature keeps a reference for every unit it hates, in one
  of two lists; the unit keeps the same references in an intrusive list. References are named by
  allocation numbers, a freed one is \<open>None\<close>. The intrusive list of a unit is a list here, first
  element first (theory \<open>Linked_List\<close> shows that the pointers implement it). Units are named by
  their guids; what is asked of them is the environment.
\<close>

section \<open>Data\<close>

record href =
  hr_to :: "u64 option"
  hr_from :: "u64 option"
  hr_threat :: f32
  hr_temp :: f32
  hr_guid :: u64
  hr_online :: bool
  hr_access :: bool

record threat_mgr =
  tm_victim :: "nat option"
  tm_timer :: u32
  tm_online :: "nat list"
  tm_dirty :: bool
  tm_offline :: "nat list"

datatype threat_event = ThreatSend u64 packet

record threat_world =
  tw_refs :: "nat \<Rightarrow> href option"
  tw_count :: nat
  tw_mgr :: "u64 \<Rightarrow> threat_mgr"
  tw_hated :: "u64 \<Rightarrow> nat list"
  tw_out :: "threat_event list"

datatype threat_error = DeadRef nat | NoTarget nat | NoSource nat | NotACreature u64 | OutOfFuel

record threat_spell =
  ts_id :: u32
  ts_pct :: "f32 option"
  ts_energize :: bool
  ts_no_threat :: bool
  ts_school :: u32

record threat_env =
  te_owner :: "u64 \<Rightarrow> u64 option"
  te_alive :: "u64 \<Rightarrow> bool"
  te_gm :: "u64 \<Rightarrow> bool"
  te_exists :: "u64 \<Rightarrow> bool"
  te_flight :: "u64 \<Rightarrow> bool"
  te_same_map :: "u64 \<Rightarrow> u64 \<Rightarrow> bool"
  te_same_phase :: "u64 \<Rightarrow> u64 \<Rightarrow> bool"
  te_accessible :: "u64 \<Rightarrow> u64 \<Rightarrow> bool"
  te_combat_range :: "u64 \<Rightarrow> u64 \<Rightarrow> bool"
  te_second_choice :: "u64 \<Rightarrow> u64 \<Rightarrow> bool"
  te_can_attack :: "u64 \<Rightarrow> u64 \<Rightarrow> bool"
  te_melee :: "u64 \<Rightarrow> u64 \<Rightarrow> bool"
  te_detects :: "u64 \<Rightarrow> u64 \<Rightarrow> bool"
  te_faction :: "u64 \<Rightarrow> u32"
  te_totem :: "u64 \<Rightarrow> bool"
  te_player_summon :: "u64 \<Rightarrow> bool"
  te_reduced :: "u64 \<Rightarrow> u32"
  te_redirect :: "u64 \<Rightarrow> u64 option"
  te_glyph :: "u64 \<Rightarrow> u32 option"
  te_threat_aura :: "u64 \<Rightarrow> bool"
  te_school_mod :: "u64 \<Rightarrow> u32 \<Rightarrow> f32"
  te_spell_mod :: "u64 \<Rightarrow> u32 \<Rightarrow> f32 \<Rightarrow> f32"

definition THREAT_UPDATE_INTERVAL :: u32 where "THREAT_UPDATE_INTERVAL = 1000"
definition SPELL_SCHOOL_MASK_NORMAL :: u32 where "SPELL_SCHOOL_MASK_NORMAL = 1"
definition fl_1 :: f32 where "fl_1 = 0x3F800000"
definition fl_1_1 :: f32 where "fl_1_1 = 0x3F8CCCCD"
definition fl_1_3 :: f32 where "fl_1_3 = 0x3FA66666"
definition fl_100 :: f32 where "fl_100 = 0x42C80000"

definition IS_PLAYER_GUID :: "u64 \<Rightarrow> bool" where
  "IS_PLAYER_GUID g \<longleftrightarrow> GUID_HIPART g = HIGHGUID_PLAYER \<and> g \<noteq> 0"

text \<open>The dereference of a reference.\<close>

definition get_ref :: "nat \<Rightarrow> threat_world \<Rightarrow> (href \<Rightarrow> threat_error + 'a) \<Rightarrow> threat_error + 'a" where
  "get_ref i w f = (case tw_refs w i of None \<Rightarrow> Inl (DeadRef i) | Some r \<Rightarrow> f r)"

definition upd_ref :: "nat \<Rightarrow> (href \<Rightarrow> href) \<Rightarrow> threat_world \<Rightarrow> threat_world" where
  "upd_ref i f w = w\<lparr>tw_refs := (tw_refs w)(i := map_option f (tw_refs w i))\<rparr>"

definition upd_mgr :: "u64 \<Rightarrow> (threat_mgr \<Rightarrow> threat_mgr) \<Rightarrow> threat_world \<Rightarrow> threat_world" where
  "upd_mgr s f w = w\<lparr>tw_mgr := (tw_mgr w)(s := f (tw_mgr w s))\<rparr>"

definition send_threat :: "u64 \<Rightarrow> u16 \<Rightarrow> field list \<Rightarrow> threat_world \<Rightarrow> threat_world" where
  "send_threat s opcode fs w = w\<lparr>tw_out := tw_out w @ [ThreatSend s \<lparr>pk_opcode = opcode, pk_fields = fs\<rparr>]\<rparr>"

section \<open>Packets\<close>

definition SMSG_HIGHEST_THREAT_UPDATE :: u16 where "SMSG_HIGHEST_THREAT_UPDATE = 0x482"
definition SMSG_THREAT_UPDATE :: u16 where "SMSG_THREAT_UPDATE = 0x483"
definition SMSG_THREAT_REMOVE :: u16 where "SMSG_THREAT_REMOVE = 0x484"
definition SMSG_THREAT_CLEAR :: u16 where "SMSG_THREAT_CLEAR = 0x485"

fun threat_fields :: "nat list \<Rightarrow> threat_world \<Rightarrow> threat_error + field list" where
  "threat_fields [] w = Inr []"
| "threat_fields (i # is) w = get_ref i w (\<lambda>r. sbind (threat_fields is w) (\<lambda>fs.
     Inr ([FPack (hr_guid r), F32 (f32_to_uint (f32_mul (hr_threat r) fl_100))] @ fs)))"

definition SendThreatListUpdate :: "u64 \<Rightarrow> threat_world \<Rightarrow> threat_error + threat_world" where
  "SendThreatListUpdate s w =
     (let is = tm_online (tw_mgr w s) in
      if is = [] then Inr w
      else sbind (threat_fields is w) (\<lambda>fs.
        Inr (send_threat s SMSG_THREAT_UPDATE ([FPack s, F32 (of_nat (length is))] @ fs) w)))"

definition SendChangeCurrentVictimOpcode :: "u64 \<Rightarrow> nat \<Rightarrow> threat_world \<Rightarrow> threat_error + threat_world" where
  "SendChangeCurrentVictimOpcode s i w =
     (let is = tm_online (tw_mgr w s) in
      if is = [] then Inr w
      else get_ref i w (\<lambda>r. sbind (threat_fields is w) (\<lambda>fs.
        Inr (send_threat s SMSG_HIGHEST_THREAT_UPDATE ([FPack s, FPack (hr_guid r), F32 (of_nat (length is))] @ fs) w))))"

definition SendClearThreatListOpcode :: "u64 \<Rightarrow> threat_world \<Rightarrow> threat_world" where
  "SendClearThreatListOpcode s w = send_threat s SMSG_THREAT_CLEAR [FPack s] w"

definition SendRemoveFromThreatListOpcode :: "u64 \<Rightarrow> nat \<Rightarrow> threat_world \<Rightarrow> threat_error + threat_world" where
  "SendRemoveFromThreatListOpcode s i w = get_ref i w (\<lambda>r. Inr (send_threat s SMSG_THREAT_REMOVE [FPack s, FPack (hr_guid r)] w))"

section \<open>Events of a reference\<close>

datatype ref_event = OnlineStatus | ThreatChange f32 | RemoveFromList | AccessibleStatus

definition setDirty :: "u64 \<Rightarrow> bool \<Rightarrow> threat_world \<Rightarrow> threat_world" where
  "setDirty s b w = upd_mgr s (\<lambda>m. m\<lparr>tm_dirty := b\<rparr>) w"

definition setCurrentVictim :: "u64 \<Rightarrow> nat option \<Rightarrow> threat_world \<Rightarrow> threat_error + threat_world" where
  "setCurrentVictim s p w =
     sbind (case p of None \<Rightarrow> Inr w
            | Some i \<Rightarrow> if tm_victim (tw_mgr w s) \<noteq> Some i then SendChangeCurrentVictimOpcode s i w else Inr w)
       (\<lambda>w1. Inr (upd_mgr s (\<lambda>m. m\<lparr>tm_victim := p\<rparr>) w1))"

definition online_remove :: "nat \<Rightarrow> threat_mgr \<Rightarrow> threat_mgr" where
  "online_remove i m = m\<lparr>tm_online := filter (\<lambda>j. j \<noteq> i) (tm_online m)\<rparr>"

definition offline_remove :: "nat \<Rightarrow> threat_mgr \<Rightarrow> threat_mgr" where
  "offline_remove i m = m\<lparr>tm_offline := filter (\<lambda>j. j \<noteq> i) (tm_offline m)\<rparr>"

definition online_add :: "nat \<Rightarrow> threat_mgr \<Rightarrow> threat_mgr" where
  "online_add i m = m\<lparr>tm_online := tm_online m @ [i]\<rparr>"

definition offline_add :: "nat \<Rightarrow> threat_mgr \<Rightarrow> threat_mgr" where
  "offline_add i m = m\<lparr>tm_offline := tm_offline m @ [i]\<rparr>"

definition drop_victim :: "u64 \<Rightarrow> nat \<Rightarrow> threat_world \<Rightarrow> threat_error + threat_world" where
  "drop_victim s i w = (if tm_victim (tw_mgr w s) = Some i
     then sbind (setCurrentVictim s None w) (\<lambda>w1. Inr (setDirty s True w1)) else Inr w)"

definition processThreatEvent :: "u64 \<Rightarrow> nat \<Rightarrow> ref_event \<Rightarrow> threat_world \<Rightarrow> threat_error + threat_world" where
  "processThreatEvent s i ev w = (case ev of
     ThreatChange f \<Rightarrow>
       Inr (if (tm_victim (tw_mgr w s) = Some i \<and> f32_lt f 0) \<or> (tm_victim (tw_mgr w s) \<noteq> Some i \<and> f32_lt 0 f)
            then setDirty s True w else w)
   | OnlineStatus \<Rightarrow> get_ref i w (\<lambda>r.
       if \<not> hr_online r then
         sbind (drop_victim s i w) (\<lambda>w1.
         sbind (SendRemoveFromThreatListOpcode s i w1) (\<lambda>w2.
         Inr (upd_mgr s (\<lambda>m. offline_add i (online_remove i m)) w2)))
       else
         sbind (case tm_victim (tw_mgr w s) of None \<Rightarrow> Inr w
                | Some c \<Rightarrow> get_ref c w (\<lambda>rc.
                    Inr (if f32_lt (f32_mul fl_1_1 (hr_threat rc)) (hr_threat r) then setDirty s True w else w))) (\<lambda>w1.
         Inr (upd_mgr s (\<lambda>m. offline_remove i (online_add i m)) w1)))
   | RemoveFromList \<Rightarrow>
       sbind (drop_victim s i w) (\<lambda>w1.
       sbind (SendRemoveFromThreatListOpcode s i w1) (\<lambda>w2.
       get_ref i w2 (\<lambda>r. Inr (upd_mgr s (if hr_online r then online_remove i else offline_remove i) w2))))
   | AccessibleStatus \<Rightarrow> Inr w)"

section \<open>HostileReference\<close>

definition fireStatusChanged :: "nat \<Rightarrow> ref_event \<Rightarrow> threat_world \<Rightarrow> threat_error + threat_world" where
  "fireStatusChanged i ev w = get_ref i w (\<lambda>r. case hr_from r of None \<Rightarrow> Inr w | Some s \<Rightarrow> processThreatEvent s i ev w)"

definition SetAccessibleState :: "nat \<Rightarrow> bool \<Rightarrow> threat_world \<Rightarrow> threat_error + threat_world" where
  "SetAccessibleState i b w = get_ref i w (\<lambda>r.
     if hr_access r \<noteq> b then fireStatusChanged i AccessibleStatus (upd_ref i (\<lambda>r. r\<lparr>hr_access := b\<rparr>) w) else Inr w)"

definition SetOnlineOfflineState :: "nat \<Rightarrow> bool \<Rightarrow> threat_world \<Rightarrow> threat_error + threat_world" where
  "SetOnlineOfflineState i b w = get_ref i w (\<lambda>r.
     if hr_online r \<noteq> b then
       (let w1 = upd_ref i (\<lambda>r. r\<lparr>hr_online := b\<rparr>) w in
        sbind (if \<not> b then SetAccessibleState i False w1 else Inr w1) (fireStatusChanged i OnlineStatus))
     else Inr w)"

text \<open>\<open>Reference\<close>: the target learns of a link, the source of a broken one.\<close>

definition delink_ref :: "nat \<Rightarrow> threat_world \<Rightarrow> threat_world" where
  "delink_ref i w = w\<lparr>tw_hated := (\<lambda>t. remove1 i (tw_hated w t))\<rparr>"

definition unlink_ref :: "nat \<Rightarrow> threat_world \<Rightarrow> threat_error + threat_world" where
  "unlink_ref i w = get_ref i w (\<lambda>r. case hr_to r of None \<Rightarrow> Inl (NoTarget i)
     | Some t \<Rightarrow> Inr (upd_ref i (\<lambda>r. r\<lparr>hr_to := None, hr_from := None\<rparr>) (delink_ref i w)))"

definition link_ref :: "nat \<Rightarrow> u64 \<Rightarrow> u64 \<Rightarrow> threat_world \<Rightarrow> threat_error + threat_world" where
  "link_ref i t s w = get_ref i w (\<lambda>r.
     sbind (if hr_to r \<noteq> None then unlink_ref i w else Inr w) (\<lambda>w1.
     let w2 = upd_ref i (\<lambda>r. r\<lparr>hr_to := Some t, hr_from := Some s\<rparr>) w1
     in Inr (w2\<lparr>tw_hated := (tw_hated w2)(t := i # tw_hated w2 t)\<rparr>)))"

definition invalidate_ref :: "nat \<Rightarrow> threat_world \<Rightarrow> threat_error + threat_world" where
  "invalidate_ref i w = sbind (SetOnlineOfflineState i False w) (\<lambda>w1.
     Inr (upd_ref i (\<lambda>r. r\<lparr>hr_to := None\<rparr>) (delink_ref i w1)))"

definition free_ref :: "nat \<Rightarrow> threat_world \<Rightarrow> threat_world" where
  "free_ref i w = (let w1 = delink_ref i w in w1\<lparr>tw_refs := (tw_refs w1)(i := None)\<rparr>)"

definition removeReference :: "nat \<Rightarrow> threat_world \<Rightarrow> threat_error + threat_world" where
  "removeReference i w = sbind (invalidate_ref i w) (fireStatusChanged i RemoveFromList)"

definition updateOnlineStatus :: "threat_env \<Rightarrow> nat \<Rightarrow> threat_world \<Rightarrow> threat_error + threat_world" where
  "updateOnlineStatus e i w = get_ref i w (\<lambda>r. case hr_from r of None \<Rightarrow> Inl (NoSource i) | Some s \<Rightarrow>
     sbind (if hr_to r = None \<and> te_exists e (hr_guid r) then link_ref i (hr_guid r) s w else Inr w) (\<lambda>w1.
     get_ref i w1 (\<lambda>r1.
       let reach = (case hr_to r1 of None \<Rightarrow> False | Some t \<Rightarrow>
             (\<not> IS_PLAYER_GUID t \<or> \<not> te_gm e t) \<and> \<not> te_flight e t \<and> te_same_map e t s \<and> te_same_phase e t s);
           accessible = (reach \<and> te_accessible e (the (hr_to r1)) s);
           online = (accessible \<or> (reach \<and> te_combat_range e s (the (hr_to r1))))
       in sbind (SetAccessibleState i accessible w1) (SetOnlineOfflineState i online))))"

section \<open>ThreatCalcHelper\<close>

definition ApplyTotalThreatModifier :: "threat_env \<Rightarrow> u64 \<Rightarrow> f32 \<Rightarrow> u32 \<Rightarrow> f32" where
  "ApplyTotalThreatModifier e u threat school =
     (if \<not> te_threat_aura e u \<or> f32_lt threat 0 then threat else f32_mul threat (te_school_mod e u school))"

definition calcThreat :: "threat_env \<Rightarrow> u64 \<Rightarrow> f32 \<Rightarrow> u32 \<Rightarrow> threat_spell option \<Rightarrow> f32" where
  "calcThreat e hated threat school spell = (case spell of
     None \<Rightarrow> ApplyTotalThreatModifier e hated threat school
   | Some sp \<Rightarrow>
     (let threat1 = (case ts_pct sp of None \<Rightarrow> threat | Some pct \<Rightarrow> if \<not> f32_eq pct fl_1 then f32_mul threat pct else threat) in
      if ts_energize sp then threat1
      else ApplyTotalThreatModifier e hated (te_spell_mod e hated (ts_id sp) threat1) school))"

definition isValidProcess :: "threat_env \<Rightarrow> u64 \<Rightarrow> u64 \<Rightarrow> threat_spell option \<Rightarrow> threat_error + bool" where
  "isValidProcess e hated hating spell =
     (if hated = hating then Inr False
      else if IS_PLAYER_GUID hated \<and> te_gm e hated then Inr False
      else if \<not> te_alive e hated \<or> \<not> te_alive e hating then Inr False
      else if \<not> te_same_map e hated hating \<or> \<not> te_same_phase e hated hating then Inr False
      else if (case spell of None \<Rightarrow> False | Some sp \<Rightarrow> ts_no_threat sp) then Inr False
      else if IS_PLAYER_GUID hating then Inl (NotACreature hating)
      else Inr True)"

section \<open>ThreatContainer\<close>

fun find_ref :: "nat list \<Rightarrow> u64 \<Rightarrow> threat_world \<Rightarrow> threat_error + nat option" where
  "find_ref [] g w = Inr None"
| "find_ref (i # js) g w = get_ref i w (\<lambda>r. if hr_guid r = g then Inr (Some i) else find_ref js g w)"

definition threat_of :: "threat_world \<Rightarrow> nat \<Rightarrow> f32" where
  "threat_of w i = (case tw_refs w i of None \<Rightarrow> 0 | Some r \<Rightarrow> hr_threat r)"

fun all_live :: "nat list \<Rightarrow> threat_world \<Rightarrow> threat_error + unit" where
  "all_live [] w = Inr ()"
| "all_live (i # js) w = get_ref i w (\<lambda>r. all_live js w)"

text \<open>\<open>list::sort\<close> is stable; the order puts the highest threat first.\<close>

definition container_update :: "u64 \<Rightarrow> threat_world \<Rightarrow> threat_error + threat_world" where
  "container_update s w =
     (let m = tw_mgr w s in
      sbind (if tm_dirty m \<and> length (tm_online m) > 1
             then sbind (all_live (tm_online m) w) (\<lambda>u. Inr (upd_mgr s (\<lambda>m. m\<lparr>tm_online :=
               sort_key (\<lambda>i. - f32_key (threat_of w i)) (tm_online m)\<rparr>) w))
             else Inr w)
        (\<lambda>w1. Inr (setDirty s False w1)))"

datatype pick = Picked nat | NothingLeft | Again "nat option"

text \<open>
  One pass over the list. In the first one (\<open>again\<close> is false) targets of second choice are
  skipped; when the last of the list is one, the pass starts again from the front, without
  skipping.
\<close>

fun select_pass :: "threat_env \<Rightarrow> u64 \<Rightarrow> threat_world \<Rightarrow> bool \<Rightarrow> nat list \<Rightarrow> nat option \<Rightarrow> threat_error + pick" where
  "select_pass e a w again [] cv = Inr NothingLeft"
| "select_pass e a w again (i # js) cv = get_ref i w (\<lambda>r. case hr_to r of None \<Rightarrow> Inl (NoTarget i) | Some t \<Rightarrow>
     if \<not> again \<and> te_second_choice e a t then
       (if js \<noteq> [] then select_pass e a w again js (if cv = Some i then None else cv) else Inr (Again cv))
     else if te_can_attack e a t then
       (case cv of None \<Rightarrow> Inr (Picked i)
        | Some c \<Rightarrow> get_ref c w (\<lambda>rc.
            if c = i \<or> f32_le (hr_threat r) (f32_mul fl_1_1 (hr_threat rc)) then
              (if c \<noteq> i then (case hr_to rc of None \<Rightarrow> Inl (NoTarget c) | Some ct \<Rightarrow>
                 Inr (Picked (if te_can_attack e a ct then c else i)))
               else Inr (Picked i))
            else if f32_lt (f32_mul fl_1_3 (hr_threat rc)) (hr_threat r)
              \<or> (f32_lt (f32_mul fl_1_1 (hr_threat rc)) (hr_threat r) \<and> te_melee e a t)
            then Inr (Picked i)
            else select_pass e a w again js cv))
     else select_pass e a w again js cv)"

definition selectNextVictim :: "threat_env \<Rightarrow> u64 \<Rightarrow> nat list \<Rightarrow> nat option \<Rightarrow> threat_world \<Rightarrow> threat_error + nat option" where
  "selectNextVictim e a js cv w = sbind (select_pass e a w False js cv) (\<lambda>p. case p of
     Picked i \<Rightarrow> Inr (Some i)
   | NothingLeft \<Rightarrow> Inr None
   | Again cv1 \<Rightarrow> sbind (select_pass e a w True js cv1) (\<lambda>p. Inr (case p of Picked i \<Rightarrow> Some i | _ \<Rightarrow> None)))"

fun clear_refs :: "nat list \<Rightarrow> threat_world \<Rightarrow> threat_error + threat_world" where
  "clear_refs [] w = Inr w"
| "clear_refs (i # js) w = sbind (unlink_ref i w) (\<lambda>w1. clear_refs js (free_ref i w1))"

section \<open>ThreatManager\<close>

definition new_threat_mgr :: threat_mgr where
  "new_threat_mgr = \<lparr>tm_victim = None, tm_timer = THREAT_UPDATE_INTERVAL, tm_online = [], tm_dirty = False, tm_offline = []\<rparr>"

text \<open>
  \<open>radd\<close> is \<open>HostileReference::addThreat\<close>, which these functions call and which calls them for
  the owner of a pet.
\<close>

type_synonym ref_add = "nat \<Rightarrow> f32 \<Rightarrow> threat_world \<Rightarrow> threat_error + threat_world"

definition container_addThreat ::
    "ref_add \<Rightarrow> nat list \<Rightarrow> u64 \<Rightarrow> f32 \<Rightarrow> threat_world \<Rightarrow> threat_error + nat option \<times> threat_world" where
  "container_addThreat radd js victim threat w = sbind (find_ref js victim w) (\<lambda>p. case p of
     None \<Rightarrow> Inr (None, w)
   | Some i \<Rightarrow> sbind (radd i threat w) (\<lambda>w1. Inr (Some i, w1)))"

definition new_ref :: "u64 \<Rightarrow> u64 \<Rightarrow> threat_world \<Rightarrow> threat_error + nat \<times> threat_world" where
  "new_ref victim s w =
     (let i = tw_count w;
          w1 = w\<lparr>tw_refs := (tw_refs w)(i \<mapsto> \<lparr>hr_to = None, hr_from = None, hr_threat = 0, hr_temp = 0,
              hr_guid = victim, hr_online = True, hr_access = True\<rparr>), tw_count := Suc i\<rparr>
      in sbind (link_ref i victim s w1) (\<lambda>w2. Inr (i, w2)))"

definition mgr_add :: "ref_add \<Rightarrow> threat_env \<Rightarrow> u64 \<Rightarrow> u64 \<Rightarrow> f32 \<Rightarrow> threat_world \<Rightarrow> threat_error + threat_world" where
  "mgr_add radd e s victim threat w =
     sbind (container_addThreat radd (tm_online (tw_mgr w s)) victim threat w) (\<lambda>(p, w1).
     if p \<noteq> None then Inr w1 else
     sbind (container_addThreat radd (tm_offline (tw_mgr w1 s)) victim threat w1) (\<lambda>(p, w2).
     if p \<noteq> None then Inr w2 else
     sbind (new_ref victim s w2) (\<lambda>(i, w3).
     sbind (radd i threat (upd_mgr s (online_add i) w3)) (\<lambda>w4.
     if IS_PLAYER_GUID victim \<and> te_gm e victim then SetOnlineOfflineState i False w4 else Inr w4))))"

definition doAddThreat :: "ref_add \<Rightarrow> threat_env \<Rightarrow> u64 \<Rightarrow> u64 \<Rightarrow> f32 \<Rightarrow> threat_world \<Rightarrow> threat_error + threat_world" where
  "doAddThreat radd e s victim threat w =
     (if f32_lt 0 threat \<and> te_reduced e victim \<noteq> 0 then
        (let target = te_redirect e victim;
             percent = te_reduced e victim + (case target of None \<Rightarrow> 0 | Some t \<Rightarrow> (case te_glyph e t of None \<Rightarrow> 0 | Some v \<Rightarrow> v));
             reduced = f32_div (f32_mul threat (f32_of_int (uint percent))) fl_100
         in sbind (case target of None \<Rightarrow> Inr w | Some t \<Rightarrow> mgr_add radd e s t reduced w)
              (mgr_add radd e s victim (f32_sub threat reduced)))
      else mgr_add radd e s victim threat w)"

definition mgr_addThreat ::
    "ref_add \<Rightarrow> threat_env \<Rightarrow> u64 \<Rightarrow> u64 \<Rightarrow> f32 \<Rightarrow> u32 \<Rightarrow> threat_spell option \<Rightarrow> threat_world \<Rightarrow> threat_error + threat_world" where
  "mgr_addThreat radd e s victim threat school spell w = sbind (isValidProcess e victim s spell) (\<lambda>valid.
     if \<not> valid then Inr w else doAddThreat radd e s victim (calcThreat e victim threat school spell) w)"

text \<open>Who attacks a pet is threatened by its owner.\<close>

definition add_owner :: "ref_add \<Rightarrow> threat_env \<Rightarrow> ref_add" where
  "add_owner radd e i m w = get_ref i w (\<lambda>r. case hr_to r of None \<Rightarrow> Inr w | Some t \<Rightarrow>
     if f32_le 0 m then
       (case te_owner e t of None \<Rightarrow> Inr w | Some v \<Rightarrow>
          if te_alive e v then
            (case hr_from r of None \<Rightarrow> Inl (NoSource i)
             | Some s \<Rightarrow> mgr_addThreat radd e s v 0 SPELL_SCHOOL_MASK_NORMAL None w)
          else Inr w)
     else Inr w)"

text \<open>
  The recursion follows the owners of the victim, which the code does not bound; the first
  argument bounds it.
\<close>

fun ref_addThreat :: "nat \<Rightarrow> threat_env \<Rightarrow> ref_add" where
  "ref_addThreat 0 e i m w = Inl OutOfFuel"
| "ref_addThreat (Suc n) e i m w = get_ref i w (\<lambda>r.
     let w0 = upd_ref i (\<lambda>r. r\<lparr>hr_threat := f32_add (hr_threat r) m\<rparr>) w in
     sbind (if hr_online r then Inr w0 else updateOnlineStatus e i w0) (\<lambda>w1.
     sbind (if \<not> f32_eq m 0 then fireStatusChanged i (ThreatChange m) w1 else Inr w1)
       (add_owner (ref_addThreat n e) e i m)))"

definition AddThreatPercent :: "nat \<Rightarrow> threat_env \<Rightarrow> nat \<Rightarrow> int \<Rightarrow> threat_world \<Rightarrow> threat_error + threat_world" where
  "AddThreatPercent n e i percent w = get_ref i w (\<lambda>r.
     let tmp = f32_add (hr_threat r) (f32_div (f32_mul (hr_threat r) (f32_of_int percent)) fl_100)
     in ref_addThreat n e i (f32_sub tmp (hr_threat r)) w)"

definition setThreat :: "nat \<Rightarrow> threat_env \<Rightarrow> nat \<Rightarrow> f32 \<Rightarrow> threat_world \<Rightarrow> threat_error + threat_world" where
  "setThreat n e i threat w = get_ref i w (\<lambda>r. ref_addThreat n e i (f32_sub threat (hr_threat r)) w)"

definition addTempThreat :: "nat \<Rightarrow> threat_env \<Rightarrow> nat \<Rightarrow> f32 \<Rightarrow> threat_world \<Rightarrow> threat_error + threat_world" where
  "addTempThreat n e i threat w = get_ref i w (\<lambda>r.
     let w1 = upd_ref i (\<lambda>r. r\<lparr>hr_temp := threat\<rparr>) w
     in if \<not> f32_eq threat 0 then ref_addThreat n e i threat w1 else Inr w1)"

definition setTempThreat :: "nat \<Rightarrow> threat_env \<Rightarrow> nat \<Rightarrow> f32 \<Rightarrow> threat_world \<Rightarrow> threat_error + threat_world" where
  "setTempThreat n e i threat w = get_ref i w (\<lambda>r. addTempThreat n e i (f32_sub threat (hr_threat r)) w)"

definition resetTempThreat :: "nat \<Rightarrow> threat_env \<Rightarrow> nat \<Rightarrow> threat_world \<Rightarrow> threat_error + threat_world" where
  "resetTempThreat n e i w = get_ref i w (\<lambda>r.
     if \<not> f32_eq (hr_temp r) 0 then
       sbind (ref_addThreat n e i (f32_negate (hr_temp r)) w) (\<lambda>w1. Inr (upd_ref i (\<lambda>r. r\<lparr>hr_temp := 0\<rparr>) w1))
     else Inr w)"

definition modifyThreatPercent :: "nat \<Rightarrow> threat_env \<Rightarrow> u64 \<Rightarrow> u64 \<Rightarrow> int \<Rightarrow> threat_world \<Rightarrow> threat_error + threat_world" where
  "modifyThreatPercent n e s victim percent w = sbind (find_ref (tm_online (tw_mgr w s)) victim w) (\<lambda>p. case p of
     None \<Rightarrow> Inr w | Some i \<Rightarrow> AddThreatPercent n e i percent w)"

definition getHostilTarget :: "threat_env \<Rightarrow> u64 \<Rightarrow> threat_world \<Rightarrow> threat_error + u64 option \<times> threat_world" where
  "getHostilTarget e s w = sbind (container_update s w) (\<lambda>w1.
     sbind (selectNextVictim e s (tm_online (tw_mgr w1 s)) (tm_victim (tw_mgr w1 s)) w1) (\<lambda>v.
     sbind (setCurrentVictim s v w1) (\<lambda>w2.
     case tm_victim (tw_mgr w2 s) of None \<Rightarrow> Inr (None, w2) | Some i \<Rightarrow> get_ref i w2 (\<lambda>r. Inr (hr_to r, w2)))))"

definition getThreat :: "u64 \<Rightarrow> u64 \<Rightarrow> bool \<Rightarrow> threat_world \<Rightarrow> threat_error + f32" where
  "getThreat s victim offline w = sbind (find_ref (tm_online (tw_mgr w s)) victim w) (\<lambda>p.
     sbind (if p = None \<and> offline then find_ref (tm_offline (tw_mgr w s)) victim w else Inr p) (\<lambda>p.
     case p of None \<Rightarrow> Inr 0 | Some i \<Rightarrow> get_ref i w (\<lambda>r. Inr (hr_threat r))))"

definition tauntApply :: "nat \<Rightarrow> threat_env \<Rightarrow> u64 \<Rightarrow> u64 \<Rightarrow> threat_world \<Rightarrow> threat_error + threat_world" where
  "tauntApply n e s taunter w = sbind (find_ref (tm_online (tw_mgr w s)) taunter w) (\<lambda>p.
     case tm_victim (tw_mgr w s) of None \<Rightarrow> Inr w | Some c \<Rightarrow>
     (case p of None \<Rightarrow> Inr w | Some i \<Rightarrow> get_ref i w (\<lambda>r. get_ref c w (\<lambda>rc.
        if f32_lt (hr_threat r) (hr_threat rc) \<and> f32_eq (hr_temp r) 0 then setTempThreat n e i (hr_threat rc) w else Inr w))))"

definition tauntFadeOut :: "nat \<Rightarrow> threat_env \<Rightarrow> u64 \<Rightarrow> u64 \<Rightarrow> threat_world \<Rightarrow> threat_error + threat_world" where
  "tauntFadeOut n e s taunter w = sbind (find_ref (tm_online (tw_mgr w s)) taunter w) (\<lambda>p.
     case p of None \<Rightarrow> Inr w | Some i \<Rightarrow> resetTempThreat n e i w)"

definition isNeedUpdateToClient :: "u64 \<Rightarrow> u32 \<Rightarrow> threat_world \<Rightarrow> bool \<times> threat_world" where
  "isNeedUpdateToClient s time w =
     (let m = tw_mgr w s in
      if tm_online m = [] then (False, w)
      else if time \<ge> tm_timer m then (True, upd_mgr s (\<lambda>m. m\<lparr>tm_timer := THREAT_UPDATE_INTERVAL\<rparr>) w)
      else (False, upd_mgr s (\<lambda>m. m\<lparr>tm_timer := tm_timer m - time\<rparr>) w))"

text \<open>
  A loop with an iterator over the online list, which the body may extend at its end. The first
  argument bounds the number of steps.
\<close>

fun successor :: "nat \<Rightarrow> nat list \<Rightarrow> nat option" where
  "successor i [] = None"
| "successor i (a # js) = (if a = i then (case js of [] \<Rightarrow> None | b # bs \<Rightarrow> Some b) else successor i js)"

fun list_loop ::
    "nat \<Rightarrow> (nat \<Rightarrow> threat_world \<Rightarrow> threat_error + threat_world) \<Rightarrow> u64 \<Rightarrow> nat option \<Rightarrow> threat_world \<Rightarrow> threat_error + threat_world" where
  "list_loop f body s None w = Inr w"
| "list_loop 0 body s (Some i) w = Inl OutOfFuel"
| "list_loop (Suc f) body s (Some i) w = sbind (body i w) (\<lambda>w1.
     list_loop f body s (successor i (tm_online (tw_mgr w1 s))) w1)"

definition resetAllAggro :: "nat \<Rightarrow> nat \<Rightarrow> threat_env \<Rightarrow> u64 \<Rightarrow> threat_world \<Rightarrow> threat_error + threat_world" where
  "resetAllAggro f n e s w = (case tm_online (tw_mgr w s) of [] \<Rightarrow> Inr w
     | i # js \<Rightarrow> sbind (list_loop f (\<lambda>i. setThreat n e i 0) s (Some i) w) (\<lambda>w1. Inr (setDirty s True w1)))"

definition resetAggro ::
    "nat \<Rightarrow> nat \<Rightarrow> threat_env \<Rightarrow> (u64 \<Rightarrow> bool) \<Rightarrow> u64 \<Rightarrow> threat_world \<Rightarrow> threat_error + threat_world" where
  "resetAggro f n e predicate s w = (case tm_online (tw_mgr w s) of [] \<Rightarrow> Inr w
     | i # js \<Rightarrow> list_loop f (\<lambda>i w. get_ref i w (\<lambda>r. case hr_to r of None \<Rightarrow> Inl (NoTarget i) | Some t \<Rightarrow>
         if predicate t then sbind (setThreat n e i 0 w) (\<lambda>w1. Inr (setDirty s True w1)) else Inr w)) s (Some i) w)"

definition clearReferences :: "u64 \<Rightarrow> threat_world \<Rightarrow> threat_error + threat_world" where
  "clearReferences s w =
     sbind (clear_refs (tm_online (tw_mgr w s)) w) (\<lambda>w1.
     sbind (clear_refs (tm_offline (tw_mgr w1 s)) (upd_mgr s (\<lambda>m. m\<lparr>tm_online := []\<rparr>) w1)) (\<lambda>w2.
     Inr (upd_mgr s (\<lambda>m. m\<lparr>tm_offline := [], tm_victim := None, tm_timer := THREAT_UPDATE_INTERVAL\<rparr>) w2)))"

section \<open>HostileRefManager\<close>

text \<open>
  The loops of a unit over the references to it. A loop takes the next reference before or after
  it has handled one; the handling takes out at most the reference itself, and puts new ones in
  front of the list only, so that the loop meets the references that were there at its start.
\<close>

fun each_ref :: "(nat \<Rightarrow> threat_world \<Rightarrow> threat_error + threat_world) \<Rightarrow> nat list \<Rightarrow> threat_world \<Rightarrow> threat_error + threat_world" where
  "each_ref f [] w = Inr w"
| "each_ref f (i # js) w = sbind (f i w) (each_ref f js)"

definition source_of :: "nat \<Rightarrow> threat_world \<Rightarrow> (u64 \<Rightarrow> threat_error + 'a) \<Rightarrow> threat_error + 'a" where
  "source_of i w f = get_ref i w (\<lambda>r. case hr_from r of None \<Rightarrow> Inl (NoSource i) | Some s \<Rightarrow> f s)"

definition threatAssist ::
    "nat \<Rightarrow> threat_env \<Rightarrow> u64 \<Rightarrow> u64 \<Rightarrow> f32 \<Rightarrow> threat_spell option \<Rightarrow> threat_world \<Rightarrow> threat_error + threat_world" where
  "threatAssist n e u victim baseThreat spell w =
     (let school = (case spell of None \<Rightarrow> SPELL_SCHOOL_MASK_NORMAL | Some sp \<Rightarrow> ts_school sp);
          size = (of_nat (length (tw_hated w u)) :: u32);
          threat = f32_div (calcThreat e victim baseThreat school spell) (f32_of_int (uint size))
      in each_ref (\<lambda>i w. source_of i w (\<lambda>s. sbind (isValidProcess e victim s spell) (\<lambda>valid.
           if valid then doAddThreat (ref_addThreat n e) e s victim threat w else Inr w))) (tw_hated w u) w)"

definition addTempThreats :: "nat \<Rightarrow> threat_env \<Rightarrow> u64 \<Rightarrow> f32 \<Rightarrow> bool \<Rightarrow> threat_world \<Rightarrow> threat_error + threat_world" where
  "addTempThreats n e u threat apply w = each_ref (\<lambda>i w. get_ref i w (\<lambda>r.
     if apply then (if f32_eq (hr_temp r) 0 then addTempThreat n e i threat w else Inr w)
     else resetTempThreat n e i w)) (tw_hated w u) w"

definition AddThreatPercents :: "nat \<Rightarrow> threat_env \<Rightarrow> u64 \<Rightarrow> int \<Rightarrow> threat_world \<Rightarrow> threat_error + threat_world" where
  "AddThreatPercents n e u percent w = each_ref (\<lambda>i w. AddThreatPercent n e i percent w) (tw_hated w u) w"

definition SetOnlineOfflineStates :: "u64 \<Rightarrow> bool \<Rightarrow> threat_world \<Rightarrow> threat_error + threat_world" where
  "SetOnlineOfflineStates u b w = each_ref (\<lambda>i w. SetOnlineOfflineState i b w) (tw_hated w u) w"

definition updateThreatTables :: "threat_env \<Rightarrow> u64 \<Rightarrow> threat_world \<Rightarrow> threat_error + threat_world" where
  "updateThreatTables e u w = each_ref (updateOnlineStatus e) (tw_hated w u) w"

definition delete_ref :: "nat \<Rightarrow> threat_world \<Rightarrow> threat_error + threat_world" where
  "delete_ref i w = sbind (removeReference i w) (\<lambda>w1. Inr (free_ref i w1))"

definition deleteReferences :: "u64 \<Rightarrow> threat_world \<Rightarrow> threat_error + threat_world" where
  "deleteReferences u w = each_ref delete_ref (tw_hated w u) w"

definition deleteReferencesForFaction :: "threat_env \<Rightarrow> u64 \<Rightarrow> u32 \<Rightarrow> threat_world \<Rightarrow> threat_error + threat_world" where
  "deleteReferencesForFaction e u faction w = each_ref (\<lambda>i w. source_of i w (\<lambda>s.
     if te_faction e s = faction then delete_ref i w else Inr w)) (tw_hated w u) w"

definition UpdateVisibility :: "threat_env \<Rightarrow> u64 \<Rightarrow> threat_world \<Rightarrow> threat_error + threat_world" where
  "UpdateVisibility e u w = each_ref (\<lambda>i w. source_of i w (\<lambda>s.
     if \<not> te_detects e s u then delete_ref i w else Inr w)) (tw_hated w u) w"

text \<open>The first reference of a given creature.\<close>

fun first_from ::
    "u64 \<Rightarrow> (nat \<Rightarrow> threat_world \<Rightarrow> threat_error + threat_world) \<Rightarrow> nat list \<Rightarrow> threat_world \<Rightarrow> threat_error + threat_world" where
  "first_from c f [] w = Inr w"
| "first_from c f (i # js) w = source_of i w (\<lambda>s. if s = c then f i w else first_from c f js w)"

definition deleteReference :: "u64 \<Rightarrow> u64 \<Rightarrow> threat_world \<Rightarrow> threat_error + threat_world" where
  "deleteReference u c w = first_from c delete_ref (tw_hated w u) w"

definition SetOnlineOfflineStateOf :: "u64 \<Rightarrow> u64 \<Rightarrow> bool \<Rightarrow> threat_world \<Rightarrow> threat_error + threat_world" where
  "SetOnlineOfflineStateOf u c b w = first_from c (\<lambda>i. SetOnlineOfflineState i b) (tw_hated w u) w"

section \<open>Unit\<close>

definition CanHaveThreatList :: "threat_env \<Rightarrow> u64 \<Rightarrow> bool \<Rightarrow> bool" where
  "CanHaveThreatList e s skipAliveCheck \<longleftrightarrow> \<not> IS_PLAYER_GUID s \<and> (skipAliveCheck \<or> te_alive e s) \<and> \<not> te_totem e s \<and> \<not> te_player_summon e s"

definition Unit_AddThreat ::
    "nat \<Rightarrow> threat_env \<Rightarrow> u64 \<Rightarrow> u64 \<Rightarrow> f32 \<Rightarrow> u32 \<Rightarrow> threat_spell option \<Rightarrow> threat_world \<Rightarrow> threat_error + threat_world" where
  "Unit_AddThreat n e s victim threat school spell w =
     (if CanHaveThreatList e s False then mgr_addThreat (ref_addThreat n e) e s victim threat school spell w else Inr w)"

definition DeleteThreatList :: "threat_env \<Rightarrow> u64 \<Rightarrow> threat_world \<Rightarrow> threat_error + threat_world" where
  "DeleteThreatList e s w = clearReferences s
     (if CanHaveThreatList e s True \<and> tm_online (tw_mgr w s) \<noteq> [] then SendClearThreatListOpcode s w else w)"

definition Unit_Update :: "threat_env \<Rightarrow> u64 \<Rightarrow> u32 \<Rightarrow> threat_world \<Rightarrow> threat_error + threat_world" where
  "Unit_Update e s time w = (if CanHaveThreatList e s False
     then (let (b, w1) = isNeedUpdateToClient s time w in if b then SendThreatListUpdate s w1 else Inr w1)
     else Inr w)"

text \<open>The phase of a unit changes: \<open>SetPhaseMask\<close>. \<open>in_phase\<close> tells who is in the new phase.\<close>

definition phase_hated :: "u64 \<Rightarrow> (u64 \<Rightarrow> bool) \<Rightarrow> threat_world \<Rightarrow> threat_error + threat_world" where
  "phase_hated u in_phase w = each_ref (\<lambda>i w. source_of i w (\<lambda>s.
     if IS_PLAYER_GUID s then Inr w else SetOnlineOfflineStateOf u s (in_phase s) w)) (tw_hated w u) w"

definition phase_hates :: "u64 \<Rightarrow> (u64 \<Rightarrow> bool) \<Rightarrow> nat list \<Rightarrow> threat_world \<Rightarrow> threat_error + threat_world" where
  "phase_hates u in_phase refs w = each_ref (\<lambda>i w. get_ref i w (\<lambda>r. case hr_to r of None \<Rightarrow> Inr w
     | Some t \<Rightarrow> SetOnlineOfflineStateOf t u (in_phase t) w)) refs w"

text \<open>The merge of the two lists orders them by their addresses.\<close>

definition SetPhaseMask :: "u64 \<Rightarrow> (u64 \<Rightarrow> bool) \<Rightarrow> threat_world \<Rightarrow> threat_error + threat_world" where
  "SetPhaseMask u in_phase w = sbind (phase_hated u in_phase w) (\<lambda>w1.
     if IS_PLAYER_GUID u then Inr w1
     else phase_hates u in_phase (sort (tm_online (tw_mgr w1 u) @ tm_offline (tw_mgr w1 u))) w1)"

text \<open>A unit dies, and a unit is deleted: the members go in the reverse order of their declaration.\<close>

definition unit_dies :: "threat_env \<Rightarrow> u64 \<Rightarrow> threat_world \<Rightarrow> threat_error + threat_world" where
  "unit_dies e u w = sbind (DeleteThreatList e u w) (deleteReferences u)"

definition cleanup_threat :: "threat_env \<Rightarrow> u64 \<Rightarrow> threat_world \<Rightarrow> threat_error + threat_world" where
  "cleanup_threat e u w = sbind (DeleteThreatList e u w) (SetOnlineOfflineStates u False)"

definition delete_unit :: "u64 \<Rightarrow> threat_world \<Rightarrow> threat_error + threat_world" where
  "delete_unit u w = sbind (deleteReferences u w) (clearReferences u)"

section \<open>Taunts and scripts\<close>

text \<open>
  \<open>Spell::EffectTaunt\<close>: the taunter catches up with the current victim's threat and becomes the
  victim, without the choice of \<open>selectNextVictim\<close>. \<open>attacking\<close> is whether the unit already
  attacks the taunter.
\<close>

definition taunt_catch_up :: "nat \<Rightarrow> threat_env \<Rightarrow> u64 \<Rightarrow> u64 \<Rightarrow> threat_world \<Rightarrow> threat_error + threat_world" where
  "taunt_catch_up n e s taunter w = (case tm_victim (tw_mgr w s) of None \<Rightarrow> Inr w
     | Some c \<Rightarrow> sbind (getThreat s taunter False w) (\<lambda>my. get_ref c w (\<lambda>rc.
         if f32_lt my (hr_threat rc) then
           mgr_addThreat (ref_addThreat n e) e s taunter (f32_sub (hr_threat rc) my) SPELL_SCHOOL_MASK_NORMAL None w
         else Inr w)))"

definition force_victim :: "u64 \<Rightarrow> u64 \<Rightarrow> threat_world \<Rightarrow> threat_error + threat_world" where
  "force_victim s taunter w = (if tm_online (tw_mgr w s) = [] then Inr w
     else sbind (find_ref (tm_online (tw_mgr w s)) taunter w) (\<lambda>p. case p of
       None \<Rightarrow> Inr w | Some i \<Rightarrow> setCurrentVictim s (Some i) w))"

definition EffectTaunt :: "nat \<Rightarrow> threat_env \<Rightarrow> bool \<Rightarrow> u64 \<Rightarrow> u64 \<Rightarrow> threat_world \<Rightarrow> threat_error + threat_world" where
  "EffectTaunt n e attacking s taunter w = (if \<not> CanHaveThreatList e s False \<or> attacking then Inr w
     else sbind (taunt_catch_up n e s taunter w) (force_victim s taunter))"

text \<open>The scripts of a creature add threat to its manager directly, without \<open>Unit::AddThreat\<close>.\<close>

definition script_addThreat :: "nat \<Rightarrow> threat_env \<Rightarrow> u64 \<Rightarrow> u64 \<Rightarrow> f32 \<Rightarrow> threat_world \<Rightarrow> threat_error + threat_world" where
  "script_addThreat n e s victim threat w = (if IS_PLAYER_GUID s then Inr w
     else mgr_addThreat (ref_addThreat n e) e s victim threat SPELL_SCHOOL_MASK_NORMAL None w)"

end
