(* ===== verification/Threat_Inv.thy ===== *)
theory Threat_Inv
  imports Threat
begin

text \<open>
  The references between the units, their lists and the victims are consistent, and every
  operation keeps them so. Freed references are never read: an operation returns, or it has used
  up its bound on the chain of owners.
\<close>

section \<open>The invariant\<close>

abbreviation onl :: "threat_world \<Rightarrow> u64 \<Rightarrow> nat list" where "onl w s \<equiv> tm_online (tw_mgr w s)"
abbreviation offl :: "threat_world \<Rightarrow> u64 \<Rightarrow> nat list" where "offl w s \<equiv> tm_offline (tw_mgr w s)"
abbreviation victim :: "threat_world \<Rightarrow> u64 \<Rightarrow> nat option" where "victim w s \<equiv> tm_victim (tw_mgr w s)"

definition src :: "threat_world \<Rightarrow> nat \<Rightarrow> u64 option" where
  "src w i = Option.bind (tw_refs w i) hr_from"

definition dst :: "threat_world \<Rightarrow> nat \<Rightarrow> u64 option" where
  "dst w i = Option.bind (tw_refs w i) hr_to"

definition gid :: "threat_world \<Rightarrow> nat \<Rightarrow> u64 option" where
  "gid w i = map_option hr_guid (tw_refs w i)"

definition is_on :: "threat_world \<Rightarrow> nat \<Rightarrow> bool" where
  "is_on w i \<longleftrightarrow> (case tw_refs w i of None \<Rightarrow> False | Some r \<Rightarrow> hr_online r)"

definition live :: "threat_world \<Rightarrow> nat \<Rightarrow> bool" where
  "live w i \<longleftrightarrow> tw_refs w i \<noteq> None"

lemmas ref_views = src_def dst_def gid_def is_on_def live_def

definition threat_ok :: "threat_world \<Rightarrow> bool" where
  "threat_ok w \<longleftrightarrow>
     (\<forall>s. distinct (onl w s) \<and> distinct (offl w s) \<and> (\<forall>i. victim w s = Some i \<longrightarrow> i \<in> set (onl w s)))
     \<and> (\<forall>s i. i \<in> set (onl w s) \<longleftrightarrow> src w i = Some s \<and> is_on w i)
     \<and> (\<forall>s i. i \<in> set (offl w s) \<longleftrightarrow> src w i = Some s \<and> \<not> is_on w i)
     \<and> (\<forall>t. distinct (tw_hated w t)) \<and> (\<forall>t i. i \<in> set (tw_hated w t) \<longleftrightarrow> dst w i = Some t)
     \<and> (\<forall>i. live w i \<longrightarrow> dst w i = gid w i \<and> i < tw_count w \<and> (\<exists>s. src w i = Some s \<and> \<not> IS_PLAYER_GUID s))
     \<and> (\<forall>i j. src w i \<noteq> None \<longrightarrow> src w i = src w j \<longrightarrow> gid w i = gid w j \<longrightarrow> i = j)"

lemma ok_ref:
  assumes "threat_ok w" "tw_refs w i = Some r"
  obtains s where "hr_from r = Some s" "\<not> IS_PLAYER_GUID s" "hr_to r = Some (hr_guid r)" "i < tw_count w"
proof -
  have "live w i" using assms(2) by (simp add: live_def)
  then have "dst w i = gid w i \<and> i < tw_count w \<and> (\<exists>s. src w i = Some s \<and> \<not> IS_PLAYER_GUID s)"
    using assms(1) unfolding threat_ok_def by blast
  with that assms(2) show thesis by (auto simp: ref_views)
qed

lemma ok_lists:
  assumes "threat_ok w"
  shows "distinct (onl w s)" "distinct (offl w s)" "distinct (tw_hated w t)"
    "i \<in> set (onl w s) \<longleftrightarrow> src w i = Some s \<and> is_on w i" "i \<in> set (offl w s) \<longleftrightarrow> src w i = Some s \<and> \<not> is_on w i"
    "i \<in> set (tw_hated w t) \<longleftrightarrow> dst w i = Some t" "victim w s = Some i \<Longrightarrow> i \<in> set (onl w s)"
    "src w i \<noteq> None \<Longrightarrow> src w i = src w j \<Longrightarrow> gid w i = gid w j \<Longrightarrow> i = j"
    "live w i \<Longrightarrow> dst w i = gid w i \<and> i < tw_count w \<and> (\<exists>s. src w i = Some s \<and> \<not> IS_PLAYER_GUID s)"
  using assms unfolding threat_ok_def by blast+

lemma threat_okI:
  assumes "\<And>s. distinct (onl w s)" "\<And>s. distinct (offl w s)" "\<And>t. distinct (tw_hated w t)"
    "\<And>s i. i \<in> set (onl w s) \<longleftrightarrow> src w i = Some s \<and> is_on w i" "\<And>s i. i \<in> set (offl w s) \<longleftrightarrow> src w i = Some s \<and> \<not> is_on w i"
    "\<And>t i. i \<in> set (tw_hated w t) \<longleftrightarrow> dst w i = Some t" "\<And>s i. victim w s = Some i \<Longrightarrow> i \<in> set (onl w s)"
    "\<And>i j. src w i \<noteq> None \<Longrightarrow> src w i = src w j \<Longrightarrow> gid w i = gid w j \<Longrightarrow> i = j"
    "\<And>i. live w i \<Longrightarrow> dst w i = gid w i" "\<And>i. live w i \<Longrightarrow> i < tw_count w"
    "\<And>i. live w i \<Longrightarrow> \<exists>s. src w i = Some s \<and> \<not> IS_PLAYER_GUID s"
  shows "threat_ok w"
  unfolding threat_ok_def by (intro conjI allI impI) (assumption | rule assms)+

lemma live_of: "src w i = Some s \<Longrightarrow> live w i" "dst w i = Some t \<Longrightarrow> live w i"
  by (auto simp: ref_views split: Option.bind_splits)

text \<open>What the invariant does not depend on: packets, marks and timers.\<close>

lemma ok_cong:
  assumes "src w' = src w" "dst w' = dst w" "gid w' = gid w" "is_on w' = is_on w" "tw_count w' = tw_count w"
    "tw_hated w' = tw_hated w" "\<And>s. onl w' s = onl w s" "\<And>s. offl w' s = offl w s" "\<And>s. victim w' s = victim w s"
  shows "threat_ok w' = threat_ok w"
proof -
  have "live v = (\<lambda>i. gid v i \<noteq> None)" for v by (simp add: fun_eq_iff live_def gid_def)
  then have "live w' = live w" using assms(3) by simp
  then show ?thesis unfolding threat_ok_def assms by simp
qed

lemma views_same:
  assumes "tw_refs w' = tw_refs w"
  shows "src w' = src w" "dst w' = dst w" "gid w' = gid w" "is_on w' = is_on w" "live w' = live w"
  using assms by (simp_all add: fun_eq_iff ref_views)

lemma world_simps [simp]:
  "tw_refs (upd_mgr s f w) = tw_refs w" "tw_count (upd_mgr s f w) = tw_count w" "tw_hated (upd_mgr s f w) = tw_hated w"
  "tw_mgr (upd_mgr s f w) x = (if x = s then f (tw_mgr w s) else tw_mgr w x)"
  "tw_refs (upd_ref i g w) j = (if j = i then map_option g (tw_refs w i) else tw_refs w j)"
  "tw_count (upd_ref i g w) = tw_count w" "tw_hated (upd_ref i g w) = tw_hated w" "tw_mgr (upd_ref i g w) = tw_mgr w"
  "tw_refs (send_threat s c fs w) = tw_refs w" "tw_count (send_threat s c fs w) = tw_count w"
  "tw_hated (send_threat s c fs w) = tw_hated w" "tw_mgr (send_threat s c fs w) = tw_mgr w"
  "tw_refs (delink_ref i w) = tw_refs w" "tw_count (delink_ref i w) = tw_count w" "tw_mgr (delink_ref i w) = tw_mgr w"
  "tw_hated (delink_ref i w) t = remove1 i (tw_hated w t)"
  "tw_refs (setDirty s b w) = tw_refs w" "tw_count (setDirty s b w) = tw_count w" "tw_hated (setDirty s b w) = tw_hated w"
  "onl (setDirty s b w) x = onl w x" "offl (setDirty s b w) x = offl w x" "victim (setDirty s b w) x = victim w x"
  by (simp_all add: upd_mgr_def upd_ref_def send_threat_def delink_ref_def setDirty_def)

lemma mgr_simps [simp]:
  "tm_online (online_remove i m) = filter (\<lambda>j. j \<noteq> i) (tm_online m)" "tm_offline (online_remove i m) = tm_offline m"
  "tm_victim (online_remove i m) = tm_victim m" "tm_online (offline_remove i m) = tm_online m"
  "tm_offline (offline_remove i m) = filter (\<lambda>j. j \<noteq> i) (tm_offline m)" "tm_victim (offline_remove i m) = tm_victim m"
  "tm_online (online_add i m) = tm_online m @ [i]" "tm_offline (online_add i m) = tm_offline m" "tm_victim (online_add i m) = tm_victim m"
  "tm_online (offline_add i m) = tm_online m" "tm_offline (offline_add i m) = tm_offline m @ [i]" "tm_victim (offline_add i m) = tm_victim m"
  by (simp_all add: online_remove_def offline_remove_def online_add_def offline_add_def)

lemma get_ref_Some [simp]: "tw_refs w i = Some r \<Longrightarrow> get_ref i w f = f r"
  by (simp add: get_ref_def)

text \<open>References that live stay, with their source and target.\<close>

definition refs_grow :: "threat_world \<Rightarrow> threat_world \<Rightarrow> bool" where
  "refs_grow w w' \<longleftrightarrow> (\<forall>i. live w i \<longrightarrow> live w' i \<and> src w' i = src w i \<and> gid w' i = gid w i)"

lemma refs_grow_refl [simp]: "refs_grow w w"
  by (simp add: refs_grow_def)

lemma refs_grow_same: "tw_refs w' = tw_refs w \<Longrightarrow> refs_grow w w'"
  by (simp add: refs_grow_def ref_views)

lemma refs_grow_trans: "refs_grow w w1 \<Longrightarrow> refs_grow w1 w2 \<Longrightarrow> refs_grow w w2"
  unfolding refs_grow_def by metis

lemma refs_growD: "refs_grow w w' \<Longrightarrow> live w i \<Longrightarrow> live w' i \<and> src w' i = src w i \<and> gid w' i = gid w i"
  unfolding refs_grow_def by blast

text \<open>A result that is a consistent world, or the end of the bound where \<open>lim\<close> allows for it.\<close>

definition fine :: "bool \<Rightarrow> threat_world \<Rightarrow> threat_error + threat_world \<Rightarrow> bool" where
  "fine lim w x \<longleftrightarrow> (case x of Inl err \<Rightarrow> lim \<and> err = OutOfFuel | Inr w' \<Rightarrow> threat_ok w' \<and> refs_grow w w')"

lemma fine_simps [simp]: "fine lim w (Inr w') \<longleftrightarrow> threat_ok w' \<and> refs_grow w w'" "fine lim w (Inl err) \<longleftrightarrow> lim \<and> err = OutOfFuel"
  by (simp_all add: fine_def)

lemma fine_bind:
  assumes "fine lim w x" "\<And>w'. threat_ok w' \<Longrightarrow> refs_grow w w' \<Longrightarrow> fine lim w' (f w')"
  shows "fine lim w (sbind x f)"
proof (cases x)
  case (Inr w1)
  with assms have w1: "refs_grow w w1" "fine lim w1 (f w1)" by simp_all
  then show ?thesis using Inr by (cases "f w1") (auto intro: refs_grow_trans)
qed (use assms(1) in simp)

section \<open>Changing the state of a reference\<close>

text \<open>Updates of threat, of the modifier and of the accessibility.\<close>

definition harmless :: "(href \<Rightarrow> href) \<Rightarrow> bool" where
  "harmless f \<longleftrightarrow> (\<forall>r. hr_to (f r) = hr_to r \<and> hr_from (f r) = hr_from r \<and> hr_guid (f r) = hr_guid r \<and> hr_online (f r) = hr_online r)"

lemma harmless_views:
  assumes "harmless f"
  shows "src (upd_ref i f w) = src w" "dst (upd_ref i f w) = dst w" "gid (upd_ref i f w) = gid w"
    "is_on (upd_ref i f w) = is_on w" "live (upd_ref i f w) = live w"
  using assms by (auto simp: fun_eq_iff ref_views harmless_def) (cases "tw_refs w i"; simp)+

lemma upd_harmless:
  assumes "threat_ok w" "harmless f"
  shows "threat_ok (upd_ref i f w)" "refs_grow w (upd_ref i f w)"
  using assms ok_cong [of "upd_ref i f w" w] by (simp_all add: harmless_views refs_grow_def)

lemma harmless_simps [simp]: "harmless (\<lambda>r. r\<lparr>hr_threat := g r\<rparr>)" "harmless (\<lambda>r. r\<lparr>hr_temp := t\<rparr>)" "harmless (\<lambda>r. r\<lparr>hr_access := b\<rparr>)"
  by (simp_all add: harmless_def)

lemma upd_same: "tw_refs w i = Some r \<Longrightarrow> f r = r \<Longrightarrow> upd_ref i f w = w"
  by (simp add: upd_ref_def fun_upd_idem)

lemma SetAccessibleState_eq:
  "tw_refs w i = Some r \<Longrightarrow> SetAccessibleState i b w = Inr (upd_ref i (\<lambda>r. r\<lparr>hr_access := b\<rparr>) w)"
  by (auto simp: SetAccessibleState_def fireStatusChanged_def processThreatEvent_def upd_same split: option.split)

lemma drop_victim_eq: "drop_victim s i w = Inr (if victim w s = Some i
    then setDirty s True (upd_mgr s (\<lambda>m. m\<lparr>tm_victim := None\<rparr>) w) else w)"
  by (simp add: drop_victim_def setCurrentVictim_def)

definition moved :: "u64 \<Rightarrow> nat list \<Rightarrow> nat list \<Rightarrow> nat option \<Rightarrow> threat_world \<Rightarrow> threat_world \<Rightarrow> bool" where
  "moved s on off v w w' \<longleftrightarrow> tw_refs w' = tw_refs w \<and> tw_count w' = tw_count w \<and> tw_hated w' = tw_hated w
     \<and> (\<forall>x. onl w' x = (if x = s then on else onl w x)) \<and> (\<forall>x. offl w' x = (if x = s then off else offl w x))
     \<and> (\<forall>x. victim w' x = (if x = s then v else victim w x))"

lemma goes_offline:
  assumes "tw_refs w i = Some r" "\<not> hr_online r"
  shows "\<exists>w'. processThreatEvent s i OnlineStatus w = Inr w'
    \<and> moved s (filter (\<lambda>j. j \<noteq> i) (onl w s)) (offl w s @ [i]) (if victim w s = Some i then None else victim w s) w w'"
  using assms by (auto simp: processThreatEvent_def drop_victim_eq SendRemoveFromThreatListOpcode_def moved_def setDirty_def)

lemma goes_online:
  assumes "tw_refs w i = Some r" "hr_online r" "\<And>c. victim w s = Some c \<Longrightarrow> live w c"
  shows "\<exists>w'. processThreatEvent s i OnlineStatus w = Inr w'
    \<and> moved s (onl w s @ [i]) (filter (\<lambda>j. j \<noteq> i) (offl w s)) (victim w s) w w'"
proof (cases "victim w s")
  case None
  then show ?thesis using assms by (auto simp: processThreatEvent_def moved_def)
next
  case (Some c)
  with assms(3) obtain q where "tw_refs w c = Some q" by (auto simp: live_def)
  with assms Some show ?thesis by (auto simp: processThreatEvent_def moved_def)
qed

definition same_but_on :: "threat_world \<Rightarrow> threat_world \<Rightarrow> bool" where
  "same_but_on w w' \<longleftrightarrow> src w' = src w \<and> dst w' = dst w \<and> gid w' = gid w \<and> live w' = live w
     \<and> tw_count w' = tw_count w \<and> tw_hated w' = tw_hated w"

lemma same_but_on_grows: "same_but_on w w' \<Longrightarrow> refs_grow w w'"
  by (simp add: same_but_on_def refs_grow_def)

lemma set_state:
  assumes ok: "threat_ok w" and i: "live w i"
  shows "\<exists>w'. SetOnlineOfflineState i b w = Inr w' \<and> threat_ok w' \<and> same_but_on w w' \<and> is_on w' = (is_on w)(i := b)
    \<and> (\<forall>j. j \<noteq> i \<longrightarrow> tw_refs w' j = tw_refs w j)"
proof -
  from i obtain r where r: "tw_refs w i = Some r" by (auto simp: live_def)
  from ok_ref [OF ok r] obtain s where s: "hr_from r = Some s" by blast
  note l = ok_lists [OF ok]
  show ?thesis
  proof (cases "hr_online r = b")
    case True
    then have "is_on w i = b" by (simp add: is_on_def r)
    with True r ok show ?thesis by (simp add: SetOnlineOfflineState_def same_but_on_def fun_upd_idem)
  next
    case False
    define w1 where "w1 = upd_ref i (\<lambda>r. r\<lparr>hr_online := b, hr_access := (if b then hr_access r else False)\<rparr>) w"
    have r1: "tw_refs w1 i = Some (r\<lparr>hr_online := b, hr_access := (if b then hr_access r else False)\<rparr>)" by (simp add: w1_def r)
    have o: "SetOnlineOfflineState i b w = processThreatEvent s i OnlineStatus w1"
      using r False s
      by (cases b) (simp_all add: SetOnlineOfflineState_def SetAccessibleState_eq [of _ i "r\<lparr>hr_online := False\<rparr>"] fireStatusChanged_def
          w1_def upd_ref_def)
    have v: "src w1 = src w" "dst w1 = dst w" "gid w1 = gid w" "live w1 = live w" "is_on w1 = (is_on w)(i := b)"
      by (simp_all add: fun_eq_iff ref_views w1_def r)
    have rest: "tw_count w1 = tw_count w" "tw_hated w1 = tw_hated w" "tw_mgr w1 = tw_mgr w" "\<And>j. j \<noteq> i \<Longrightarrow> tw_refs w1 j = tw_refs w j"
      by (simp_all add: w1_def)
    have si: "src w i = Some s" "is_on w i = (\<not> b)" using r s False by (simp_all add: src_def is_on_def)
    have "live w1 c" if "victim w1 s = Some c" for c
      using l(7) [of s c] l(4) [of c s] live_of(1) [of w c s] that by (simp add: v(4) rest)
    with goes_offline [OF r1, of s] goes_online [OF r1, of s] obtain w2 where w2: "processThreatEvent s i OnlineStatus w1 = Inr w2"
      "if b then moved s (onl w s @ [i]) (filter (\<lambda>j. j \<noteq> i) (offl w s)) (victim w s) w1 w2
       else moved s (filter (\<lambda>j. j \<noteq> i) (onl w s)) (offl w s @ [i]) (if victim w s = Some i then None else victim w s) w1 w2"
      unfolding rest by (cases b) auto
    then have m: "tw_refs w2 = tw_refs w1" "tw_count w2 = tw_count w" "tw_hated w2 = tw_hated w"
      by (auto simp: moved_def rest split: if_splits)
    have v2: "src w2 = src w" "dst w2 = dst w" "gid w2 = gid w" "live w2 = live w" "is_on w2 = (is_on w)(i := b)"
      using views_same [OF m(1)] v by simp_all
    have out: "i \<notin> set (onl w x)" if b for x using l(4) [of i x] si that by simp
    have inn: "i \<notin> set (offl w x)" if "\<not> b" for x using l(5) [of i x] si that by simp
    have "threat_ok w2"
      unfolding threat_ok_def v2 m
    proof (intro conjI allI)
      fix x
      show "distinct (onl w2 x)" "distinct (offl w2 x)"
        using w2(2) l(1) [of x] l(2) [of x] out inn by (auto simp: moved_def rest split: if_splits)
      show "victim w2 x = Some j \<longrightarrow> j \<in> set (onl w2 x)" for j
        using w2(2) l(7) [of x j] by (auto simp: moved_def rest split: if_splits)
      show "(j \<in> set (onl w2 x)) = (src w j = Some x \<and> ((is_on w)(i := b)) j)" for j
        using w2(2) l(4) [of j x] si by (auto simp: moved_def rest split: if_splits)
      show "(j \<in> set (offl w2 x)) = (src w j = Some x \<and> \<not> ((is_on w)(i := b)) j)" for j
        using w2(2) l(5) [of j x] si by (auto simp: moved_def rest split: if_splits)
      show "distinct (tw_hated w x)" by (rule l(3))
      show "(j \<in> set (tw_hated w x)) = (dst w j = Some x)" for j by (rule l(6))
    next
      fix j
      show "live w j \<longrightarrow> dst w j = gid w j \<and> j < tw_count w \<and> (\<exists>s. src w j = Some s \<and> \<not> IS_PLAYER_GUID s)"
        using l(9) by simp
      show "src w j \<noteq> None \<longrightarrow> src w j = src w k \<longrightarrow> gid w j = gid w k \<longrightarrow> j = k" for k
        using l(8) by blast
    qed
    with o w2(1) v2 m rest show ?thesis by (simp add: same_but_on_def)
  qed
qed

lemma SetOnlineOfflineState_fine: "threat_ok w \<Longrightarrow> live w i \<Longrightarrow> fine lim w (SetOnlineOfflineState i b w)"
  using set_state [of w i b] by (auto intro: same_but_on_grows)

lemma live_Some: "live w i \<Longrightarrow> \<exists>r. tw_refs w i = Some r"
  by (auto simp: live_def)

lemma updateOnlineStatus_fine:
  assumes ok: "threat_ok w" and i: "live w i"
  shows "fine lim w (updateOnlineStatus e i w)"
proof -
  from live_Some [OF i] obtain r where r: "tw_refs w i = Some r" by blast
  from ok_ref [OF ok r] obtain s where s: "hr_from r = Some s" "hr_to r = Some (hr_guid r)" by blast
  have "fine lim w (sbind (SetAccessibleState i a w) (SetOnlineOfflineState i b))" for a b
    using upd_harmless [OF ok] i r
    by (intro fine_bind SetOnlineOfflineState_fine) (auto simp: SetAccessibleState_eq dest: refs_growD)
  with r s show ?thesis by (simp add: updateOnlineStatus_def Let_def)
qed

lemma ok_dirty [simp]: "threat_ok (setDirty s b w) = threat_ok w" "refs_grow w (setDirty s b w)" "live (setDirty s b w) = live w"
  using ok_cong [of "setDirty s b w" w] views_same [of "setDirty s b w" w] by (simp_all add: refs_grow_def)

lemma threat_change_fine:
  assumes "threat_ok w" "live w i"
  shows "fine lim w (fireStatusChanged i (ThreatChange f) w)"
proof -
  from live_Some [OF assms(2)] obtain r where r: "tw_refs w i = Some r" by blast
  from ok_ref [OF assms(1) r] obtain s where "hr_from r = Some s" by blast
  with r assms(1) show ?thesis by (simp add: fireStatusChanged_def processThreatEvent_def)
qed

lemma find_ref_cases:
  assumes "\<And>i. i \<in> set js \<Longrightarrow> live w i"
  shows "(\<exists>i\<in>set js. find_ref js g w = Inr (Some i) \<and> gid w i = Some g)
    \<or> (find_ref js g w = Inr None \<and> (\<forall>i\<in>set js. gid w i \<noteq> Some g))"
  using assms
proof (induction js)
  case (Cons i js)
  from Cons.prems [of i] obtain r where r: "tw_refs w i = Some r" by (auto simp: live_def)
  from Cons.IH Cons.prems r show ?case by (auto simp: gid_def)
qed simp

lemma list_live:
  assumes "threat_ok w"
  shows "i \<in> set (onl w s) \<Longrightarrow> live w i" "i \<in> set (offl w s) \<Longrightarrow> live w i" "i \<in> set (tw_hated w t) \<Longrightarrow> live w i"
  using ok_lists(4-6) [OF assms] live_of by blast+

lemma find_listed:
  assumes "threat_ok w"
  shows "(\<exists>i\<in>set (onl w s). find_ref (onl w s) g w = Inr (Some i) \<and> gid w i = Some g)
      \<or> (find_ref (onl w s) g w = Inr None \<and> (\<forall>i\<in>set (onl w s). gid w i \<noteq> Some g))"
    "(\<exists>i\<in>set (offl w s). find_ref (offl w s) g w = Inr (Some i) \<and> gid w i = Some g)
      \<or> (find_ref (offl w s) g w = Inr None \<and> (\<forall>i\<in>set (offl w s). gid w i \<noteq> Some g))"
  by (rule find_ref_cases, erule list_live [OF assms])+

text \<open>A reference for a unit that no reference of the manager is for.\<close>

lemma new_ref_ok:
  assumes ok: "threat_ok w" and s: "\<not> IS_PLAYER_GUID s"
    and new: "\<And>i. i \<in> set (onl w s) \<union> set (offl w s) \<Longrightarrow> gid w i \<noteq> Some g"
  shows "\<exists>w1. new_ref g s w = Inr (tw_count w, w1) \<and> threat_ok (upd_mgr s (online_add (tw_count w)) w1)
    \<and> refs_grow w (upd_mgr s (online_add (tw_count w)) w1) \<and> live w1 (tw_count w)
    \<and> src w1 (tw_count w) = Some s \<and> gid w1 (tw_count w) = Some g \<and> onl w1 s = onl w s"
proof -
  define i where "i = tw_count w"
  note l = ok_lists [OF ok]
  have dead: "\<not> live w i" using l(9) [of i] by (auto simp: i_def)
  define r where "r = \<lparr>hr_to = Some g, hr_from = Some s, hr_threat = 0, hr_temp = 0, hr_guid = g, hr_online = True, hr_access = True\<rparr>"
  define w1 where "w1 = w\<lparr>tw_refs := (tw_refs w)(i \<mapsto> r), tw_count := Suc i, tw_hated := (tw_hated w)(g := i # tw_hated w g)\<rparr>"
  have e: "new_ref g s w = Inr (i, w1)"
    by (simp add: new_ref_def link_ref_def Let_def w1_def r_def upd_ref_def flip: i_def)
  define w2 where "w2 = upd_mgr s (online_add i) w1"
  have v: "src w2 = (src w)(i := Some s)" "dst w2 = (dst w)(i := Some g)" "gid w2 = (gid w)(i := Some g)" "is_on w2 = (is_on w)(i := True)"
    "live w2 = (live w)(i := True)" "tw_count w2 = Suc i" "tw_hated w2 = (tw_hated w)(g := i # tw_hated w g)"
    "\<And>x. onl w2 x = (if x = s then onl w s @ [i] else onl w x)" "\<And>x. offl w2 x = offl w x" "\<And>x. victim w2 x = victim w x"
    by (auto simp: fun_eq_iff ref_views w2_def w1_def r_def)
  have no: "i \<notin> set (onl w x)" "i \<notin> set (offl w x)" "i \<notin> set (tw_hated w x)" for x
    using list_live [OF ok, of i] dead by blast+
  have fresh: "gid w j \<noteq> Some g" if "src w j = Some s" for j
    using new [of j] l(4) [of j s] l(5) [of j s] that by blast
  have none: "src w i = None" "dst w i = None" using dead live_of [of w i] by fastforce+
  have "threat_ok w2"
    unfolding threat_ok_def v
  proof (intro conjI allI)
    fix x
    show "distinct (if x = s then onl w s @ [i] else onl w x)" "distinct (offl w x)" using l(1,2) no by auto
    show "victim w x = Some j \<longrightarrow> j \<in> set (if x = s then onl w s @ [i] else onl w x)" for j using l(7) by auto
    show "(j \<in> set (if x = s then onl w s @ [i] else onl w x)) = (((src w)(i := Some s)) j = Some x \<and> ((is_on w)(i := True)) j)" for j
      using l(4) [of j] no by auto
    show "(j \<in> set (offl w x)) = (((src w)(i := Some s)) j = Some x \<and> \<not> ((is_on w)(i := True)) j)" for j
      using l(5) [of j] no by auto
    show "distinct (((tw_hated w)(g := i # tw_hated w g)) x)" using l(3) no by auto
    show "(j \<in> set (((tw_hated w)(g := i # tw_hated w g)) x)) = (((dst w)(i := Some g)) j = Some x)" for j
      using l(6) [of j] no by auto
  next
    fix j
    show "((live w)(i := True)) j \<longrightarrow> ((dst w)(i := Some g)) j = ((gid w)(i := Some g)) j \<and> j < Suc i
        \<and> (\<exists>x. ((src w)(i := Some s)) j = Some x \<and> \<not> IS_PLAYER_GUID x)"
      using l(9) [of j] s by (auto simp: i_def)
    show "((src w)(i := Some s)) j \<noteq> None \<longrightarrow> ((src w)(i := Some s)) j = ((src w)(i := Some s)) k
        \<longrightarrow> ((gid w)(i := Some g)) j = ((gid w)(i := Some g)) k \<longrightarrow> j = k" for k
    proof (cases "j = i"; cases "k = i")
      assume jk: "j \<noteq> i" "k \<noteq> i"
      show ?thesis unfolding fun_upd_other [OF jk(1)] fun_upd_other [OF jk(2)] using l(8) by blast
    qed (use fresh [of j] fresh [of k] in \<open>auto simp: fun_upd_def\<close>)
  qed
  moreover have "refs_grow w w2" using dead by (auto simp: refs_grow_def v)
  moreover have "live w1 i" "src w1 i = Some s" "gid w1 i = Some g" "onl w1 s = onl w s" by (simp_all add: ref_views w1_def r_def)
  ultimately show ?thesis using e by (simp add: w2_def i_def)
qed

section \<open>Adding threat\<close>

text \<open>\<open>radd\<close> is fine on every live reference; \<open>lim\<close> tells for which units it may use up its bound.\<close>

definition radd_fine :: "(u64 \<Rightarrow> bool) \<Rightarrow> ref_add \<Rightarrow> bool" where
  "radd_fine lim radd \<longleftrightarrow> (\<forall>i m w u. threat_ok w \<longrightarrow> gid w i = Some u \<longrightarrow> fine (lim u) w (radd i m w))"

lemma radd_fineD: "radd_fine lim radd \<Longrightarrow> threat_ok w \<Longrightarrow> gid w i = Some u \<Longrightarrow> fine (lim u) w (radd i m w)"
  by (simp add: radd_fine_def)

lemma fine_mono: "fine lim w x \<Longrightarrow> (lim \<Longrightarrow> lim') \<Longrightarrow> fine lim' w x"
  by (cases x) simp_all

lemma fine_grown: "fine lim w' x \<Longrightarrow> refs_grow w w' \<Longrightarrow> fine lim w x"
  by (cases x) (auto intro: refs_grow_trans)

lemma container_found: "find_ref js v w = Inr (Some i) \<Longrightarrow>
  sbind (container_addThreat radd js v m w) (\<lambda>(p, w1). if p \<noteq> None then Inr w1 else f w1) = radd i m w"
  by (cases "radd i m w") (simp_all add: container_addThreat_def)

lemma container_none: "find_ref js v w = Inr None \<Longrightarrow>
  sbind (container_addThreat radd js v m w) (\<lambda>(p, w1). if p \<noteq> None then Inr w1 else f w1) = f w"
  by (simp add: container_addThreat_def)

lemma mgr_add_online: "find_ref (onl w s) v w = Inr (Some i) \<Longrightarrow> mgr_add radd e s v m w = radd i m w"
  unfolding mgr_add_def by (rule container_found)

lemma mgr_add_offline:
  "find_ref (onl w s) v w = Inr None \<Longrightarrow> find_ref (offl w s) v w = Inr (Some i) \<Longrightarrow> mgr_add radd e s v m w = radd i m w"
  unfolding mgr_add_def by (subst container_none, assumption) (rule container_found)

lemma mgr_add_new:
  assumes "find_ref (onl w s) v w = Inr None" "find_ref (offl w s) v w = Inr None" "new_ref v s w = Inr (j, w1)"
  shows "mgr_add radd e s v m w = sbind (radd j m (upd_mgr s (online_add j) w1))
      (\<lambda>w4. if IS_PLAYER_GUID v \<and> te_gm e v then SetOnlineOfflineState j False w4 else Inr w4)"
  unfolding mgr_add_def container_none [OF assms(1)] container_none [OF assms(2)] assms(3) sbind_simps prod.case ..

lemma mgr_add_fine:
  assumes "radd_fine lim radd" and ok: "threat_ok w" and s: "\<not> IS_PLAYER_GUID s"
  shows "fine (lim v) w (mgr_add radd e s v m w)"
proof -
  from find_listed(1) [OF ok, of s v] show ?thesis
  proof (elim disjE bexE conjE)
    fix i assume i: "i \<in> set (onl w s)" "find_ref (onl w s) v w = Inr (Some i)" "gid w i = Some v"
    show ?thesis
      unfolding mgr_add_online [OF i(2)] by (rule radd_fineD [OF assms(1) ok i(3)])
  next
    assume on: "find_ref (onl w s) v w = Inr None" "\<forall>i\<in>set (onl w s). gid w i \<noteq> Some v"
    from find_listed(2) [OF ok, of s v] show ?thesis
    proof (elim disjE bexE conjE)
      fix i assume i: "i \<in> set (offl w s)" "find_ref (offl w s) v w = Inr (Some i)" "gid w i = Some v"
      show ?thesis
        unfolding mgr_add_offline [OF on(1) i(2)] by (rule radd_fineD [OF assms(1) ok i(3)])
    next
      assume off: "find_ref (offl w s) v w = Inr None" "\<forall>i\<in>set (offl w s). gid w i \<noteq> Some v"
      have "gid w i \<noteq> Some v" if "i \<in> set (onl w s) \<union> set (offl w s)" for i using on(2) off(2) that by blast
    from new_ref_ok [OF ok s this] obtain w1 where w1: "new_ref v s w = Inr (tw_count w, w1)"
      "threat_ok (upd_mgr s (online_add (tw_count w)) w1)" "refs_grow w (upd_mgr s (online_add (tw_count w)) w1)" "live w1 (tw_count w)"
      "gid w1 (tw_count w) = Some v" by blast
    have live: "live (upd_mgr s (online_add (tw_count w)) w1) (tw_count w)" using w1(4) by (simp add: live_def)
    have unit: "gid (upd_mgr s (online_add (tw_count w)) w1) (tw_count w) = Some v" using w1(5) by (simp add: gid_def)
    show ?thesis
      unfolding mgr_add_new [OF on(1) off(1) w1(1)]
    proof (rule fine_grown [OF fine_bind w1(3)])
      show "fine (lim v) (upd_mgr s (online_add (tw_count w)) w1) (radd (tw_count w) m (upd_mgr s (online_add (tw_count w)) w1))"
        by (rule radd_fineD [OF assms(1) w1(2) unit])
    next
      fix w' assume w': "threat_ok w'" "refs_grow (upd_mgr s (online_add (tw_count w)) w1) w'"
      with SetOnlineOfflineState_fine refs_growD [OF w'(2) live]
      show "fine (lim v) w' (if IS_PLAYER_GUID v \<and> te_gm e v then SetOnlineOfflineState (tw_count w) False w' else Inr w')" by simp
    qed
    qed
  qed
qed

lemma doAddThreat_fine:
  assumes "radd_fine (\<lambda>u. lim) radd" "threat_ok w" "\<not> IS_PLAYER_GUID s"
  shows "fine lim w (doAddThreat radd e s v m w)"
  using mgr_add_fine [OF assms(1) _ assms(3)] assms(2)
  by (auto simp: doAddThreat_def Let_def split: option.split intro!: fine_bind)

text \<open>Threat that is not positive is not redirected.\<close>

lemma doAddThreat_plain: "\<not> f32_lt 0 m \<Longrightarrow> doAddThreat radd e s v m w = mgr_add radd e s v m w"
  by (simp add: doAddThreat_def)

lemma no_threat_times: "\<not> f32_lt 0 (f32_mul 0 x)"
proof -
  have "f32_mul 0 x = f32_quiet_nan \<or> f32_mul 0 x = f32_make (f32_neg x) 0"
    by (simp add: f32_mul_def Let_def f32_mag_def f32_neg_def)
  moreover have "f32_nan f32_quiet_nan" "f32_key (f32_make neg 0) \<le> f32_key 0" for neg
    by (simp_all add: f32_nan_def f32_quiet_nan_def f32_mag_def f32_make_def f32_key_def f32_neg_def)
  ultimately show ?thesis by (auto simp: f32_lt_def linorder_not_less)
qed

lemma calc_no_threat: "\<not> f32_lt 0 (calcThreat e v 0 school None)"
proof -
  have "\<not> f32_lt 0 0" by (simp add: f32_lt_def)
  then show ?thesis by (simp add: calcThreat_def ApplyTotalThreatModifier_def no_threat_times)
qed

lemma valid_creature: "\<not> IS_PLAYER_GUID s \<Longrightarrow> isValidProcess e v s spell = Inr False \<or> isValidProcess e v s spell = Inr True"
  by (simp add: isValidProcess_def)

lemma mgr_addThreat_fine:
  assumes "radd_fine (\<lambda>u. lim) radd" "threat_ok w" "\<not> IS_PLAYER_GUID s"
  shows "fine lim w (mgr_addThreat radd e s v m school spell w)"
  using valid_creature [OF assms(3), of e v spell] doAddThreat_fine [OF assms] assms(2) by (auto simp: mgr_addThreat_def)

lemma mgr_addThreat_zero_fine:
  assumes "radd_fine lim radd" "threat_ok w" "\<not> IS_PLAYER_GUID s"
  shows "fine (lim v) w (mgr_addThreat radd e s v 0 school None w)"
  using valid_creature [OF assms(3), of e v None] mgr_add_fine [OF assms] assms(2)
  by (auto simp: mgr_addThreat_def doAddThreat_plain calc_no_threat)

lemma live_ref:
  assumes "threat_ok w" "live w i"
  obtains r s where "tw_refs w i = Some r" "hr_from r = Some s" "\<not> IS_PLAYER_GUID s" "hr_to r = Some (hr_guid r)" "src w i = Some s"
proof -
  from live_Some [OF assms(2)] obtain r where r: "tw_refs w i = Some r" by blast
  from ok_ref [OF assms(1) r] r that show thesis by (auto simp: src_def)
qed

text \<open>The chain of owners of a unit has more than \<open>n\<close> units.\<close>

fun owners_beyond :: "threat_env \<Rightarrow> nat \<Rightarrow> u64 \<Rightarrow> bool" where
  "owners_beyond e 0 u = True"
| "owners_beyond e (Suc n) u = (case te_owner e u of None \<Rightarrow> False | Some v \<Rightarrow> owners_beyond e n v)"

lemma add_owner_fine:
  assumes "radd_fine (owners_beyond e n) radd" "threat_ok w" "gid w i = Some u"
  shows "fine (owners_beyond e (Suc n) u) w (add_owner radd e i m w)"
proof -
  have i: "live w i" using assms(3) by (auto simp: gid_def live_def)
  from live_ref [OF assms(2) i] obtain r s where r: "tw_refs w i = Some r" "hr_from r = Some s" "\<not> IS_PLAYER_GUID s"
    "hr_to r = Some (hr_guid r)" by blast
  with mgr_addThreat_zero_fine [OF assms(1,2) r(3)] assms(2,3) show ?thesis
    by (simp add: add_owner_def gid_def split: option.split)
qed

lemma ref_addThreat_owners: "radd_fine (owners_beyond e n) (ref_addThreat n e)"
proof (induction n)
  case 0
  show ?case by (simp add: radd_fine_def)
next
  case (Suc n)
  have "fine (owners_beyond e (Suc n) u) w (ref_addThreat (Suc n) e i m w)" if ok: "threat_ok w" and u: "gid w i = Some u" for i m w u
  proof -
    have i: "live w i" using u by (auto simp: gid_def live_def)
    define w0 where "w0 = upd_ref i (\<lambda>r. r\<lparr>hr_threat := f32_add (hr_threat r) m\<rparr>) w"
    have w0: "threat_ok w0" "refs_grow w w0" "live w0 i" "gid w0 i = Some u"
      using upd_harmless [OF ok, of "\<lambda>r. r\<lparr>hr_threat := f32_add (hr_threat r) m\<rparr>" i] i u harmless_views(3,5) by (simp_all add: w0_def)
    obtain r where r: "tw_refs w i = Some r" using live_Some [OF i] by blast
    have "fine (owners_beyond e (Suc n) u) w0 (sbind (if hr_online r then Inr w0 else updateOnlineStatus e i w0) (\<lambda>w1.
      sbind (if \<not> f32_eq m 0 then fireStatusChanged i (ThreatChange m) w1 else Inr w1) (add_owner (ref_addThreat n e) e i m)))"
    proof (intro fine_bind)
      show "fine (owners_beyond e (Suc n) u) w0 (if hr_online r then Inr w0 else updateOnlineStatus e i w0)"
        using w0 updateOnlineStatus_fine by simp
    next
      fix w1 assume "threat_ok w1" "refs_grow w0 w1"
      then show "fine (owners_beyond e (Suc n) u) w1 (if \<not> f32_eq m 0 then fireStatusChanged i (ThreatChange m) w1 else Inr w1)"
        using threat_change_fine refs_growD w0(3) by simp
    next
      fix w1 w2 assume "refs_grow w0 w1" "threat_ok w2" "refs_grow w1 w2"
      then show "fine (owners_beyond e (Suc n) u) w2 (add_owner (ref_addThreat n e) e i m w2)"
        using add_owner_fine [OF Suc] refs_growD w0(3,4) by metis
    qed
    from fine_grown [OF this w0(2)] show ?thesis
      by (simp only: ref_addThreat.simps get_ref_Some [OF r] Let_def w0_def)
  qed
  then show ?case by (simp add: radd_fine_def)
qed

text \<open>The bound is enough for every unit, or running out of it is allowed for.\<close>

definition enough :: "bool \<Rightarrow> nat \<Rightarrow> threat_env \<Rightarrow> bool" where
  "enough lim n e \<longleftrightarrow> (\<forall>u. owners_beyond e n u \<longrightarrow> lim)"

lemma enough_anyway [simp]: "enough True n e"
  by (simp add: enough_def)

lemma ref_addThreat_fine: "enough lim n e \<Longrightarrow> radd_fine (\<lambda>u. lim) (ref_addThreat n e)"
  using ref_addThreat_owners [of e n] unfolding radd_fine_def enough_def by (meson fine_mono)

lemma radd_live: "enough lim n e \<Longrightarrow> threat_ok w \<Longrightarrow> live w i \<Longrightarrow> fine lim w (ref_addThreat n e i m w)"
  using radd_fineD [OF ref_addThreat_fine, of lim n e w i] by (auto simp: gid_def live_def)

section \<open>The other operations on one reference\<close>

text \<open>An operation that returns, on a live reference.\<close>

lemma AddThreatPercent_fine: "enough lim n e \<Longrightarrow> threat_ok w \<Longrightarrow> live w i \<Longrightarrow> fine lim w (AddThreatPercent n e i p w)"
  using live_Some [of w i] by (auto simp: AddThreatPercent_def Let_def intro: radd_live)

lemma setThreat_fine: "enough lim n e \<Longrightarrow> threat_ok w \<Longrightarrow> live w i \<Longrightarrow> fine lim w (setThreat n e i t w)"
  using live_Some [of w i] by (auto simp: setThreat_def intro: radd_live)

lemma live_upd: "harmless f \<Longrightarrow> live (upd_ref i f w) = live w"
  by (rule harmless_views(5))

lemma addTempThreat_fine:
  assumes "enough lim n e" "threat_ok w" "live w i"
  shows "fine lim w (addTempThreat n e i t w)"
proof -
  have h: "harmless (\<lambda>r. r\<lparr>hr_temp := t\<rparr>)" by simp
  note u = upd_harmless [OF assms(2) h, of i]
  have "fine lim w (ref_addThreat n e i t (upd_ref i (\<lambda>r. r\<lparr>hr_temp := t\<rparr>) w))"
    by (rule fine_grown [OF radd_live [OF assms(1) u(1)] u(2)]) (use assms live_upd [OF h] in simp)
  with u live_Some [OF assms(3)] show ?thesis by (auto simp: addTempThreat_def Let_def)
qed

lemma setTempThreat_fine: "enough lim n e \<Longrightarrow> threat_ok w \<Longrightarrow> live w i \<Longrightarrow> fine lim w (setTempThreat n e i t w)"
  using live_Some [of w i] by (auto simp: setTempThreat_def intro: addTempThreat_fine)

lemma resetTempThreat_fine:
  assumes "enough lim n e" "threat_ok w" "live w i"
  shows "fine lim w (resetTempThreat n e i w)"
proof -
  from live_Some [OF assms(3)] obtain r where r: "tw_refs w i = Some r" by blast
  have "fine lim w (sbind (ref_addThreat n e i m w) (\<lambda>w1. Inr (upd_ref i (\<lambda>r. r\<lparr>hr_temp := 0\<rparr>) w1)))" for m
    by (rule fine_bind [OF radd_live [OF assms]]) (simp add: upd_harmless)
  with r assms(2) show ?thesis by (simp add: resetTempThreat_def)
qed

lemma modifyThreatPercent_fine: "enough lim n e \<Longrightarrow> threat_ok w \<Longrightarrow> fine lim w (modifyThreatPercent n e s v p w)"
  using find_listed(1) [of w s v] by (auto simp: modifyThreatPercent_def intro!: AddThreatPercent_fine list_live(1))

lemma tauntFadeOut_fine: "enough lim n e \<Longrightarrow> threat_ok w \<Longrightarrow> fine lim w (tauntFadeOut n e s v w)"
  using find_listed(1) [of w s v] by (auto simp: tauntFadeOut_def intro!: resetTempThreat_fine list_live(1))

lemma victim_live: "threat_ok w \<Longrightarrow> victim w s = Some c \<Longrightarrow> live w c"
  using ok_lists(7) list_live(1) by blast

lemma tauntApply_fine:
  assumes en: "enough lim n e" and ok: "threat_ok w"
  shows "fine lim w (tauntApply n e s v w)"
proof (cases "victim w s")
  case None
  with find_listed(1) [OF ok, of s v] ok show ?thesis by (auto simp: tauntApply_def)
next
  case (Some c)
  then obtain q where q: "tw_refs w c = Some q" using victim_live [OF ok] live_Some by blast
  from find_listed(1) [OF ok, of s v] show ?thesis
  proof (elim disjE bexE conjE)
    fix i assume i: "i \<in> set (onl w s)" "find_ref (onl w s) v w = Inr (Some i)"
    then have "live w i" using list_live(1) [OF ok] by blast
    with i Some q ok en live_Some [of w i] show ?thesis by (auto simp: tauntApply_def intro: setTempThreat_fine)
  qed (use Some ok in \<open>simp add: tauntApply_def\<close>)
qed

section \<open>Choosing the victim\<close>

lemma threat_fields_live: "\<forall>i\<in>set js. live w i \<Longrightarrow> \<exists>fs. threat_fields js w = Inr fs"
  by (induction js) (auto dest!: live_Some)

lemma all_live_live: "\<forall>i\<in>set js. live w i \<Longrightarrow> all_live js w = Inr ()"
  by (induction js) (auto dest!: live_Some)

text \<open>The order of the online list does not matter for the invariant.\<close>

lemma ok_perm:
  assumes "threat_ok w" "tw_refs w' = tw_refs w" "tw_count w' = tw_count w" "tw_hated w' = tw_hated w"
    "\<And>s. set (onl w' s) = set (onl w s) \<and> distinct (onl w' s)" "\<And>s. offl w' s = offl w s"
    "\<And>s j. victim w' s = Some j \<Longrightarrow> j \<in> set (onl w s)"
  shows "threat_ok w'" "refs_grow w w'"
proof -
  note v = views_same [OF assms(2)]
  show "refs_grow w w'" by (rule refs_grow_same [OF assms(2)])
  show "threat_ok w'"
  proof (rule threat_okI, unfold v assms(3,4,6))
    fix s i
    show "distinct (onl w' s)" "i \<in> set (onl w' s) \<longleftrightarrow> src w i = Some s \<and> is_on w i"
      using ok_lists(4) [OF assms(1)] assms(5) by simp_all
    show "victim w' s = Some i \<Longrightarrow> i \<in> set (onl w' s)" using assms(5,7) by simp
    show "src w i \<noteq> None \<Longrightarrow> src w i = src w j \<Longrightarrow> gid w i = gid w j \<Longrightarrow> i = j" for j by (rule ok_lists(8) [OF assms(1)])
  qed (simp_all add: ok_lists(2,3,5,6,9) [OF assms(1)])
qed

lemma container_update_ok:
  assumes ok: "threat_ok w"
  shows "\<exists>w'. container_update s w = Inr w' \<and> threat_ok w' \<and> tw_refs w' = tw_refs w \<and> tw_hated w' = tw_hated w \<and> tw_count w' = tw_count w
    \<and> (\<forall>x. set (onl w' x) = set (onl w x)) \<and> (\<forall>x. offl w' x = offl w x) \<and> (\<forall>x. victim w' x = victim w x)
    \<and> onl w' s = (if tm_dirty (tw_mgr w s) then sort_key (\<lambda>i. - f32_key (threat_of w i)) (onl w s) else onl w s)"
proof -
  let ?sorted = "sort_key (\<lambda>i. - f32_key (threat_of w i)) (onl w s)"
  define w1 where "w1 = (if tm_dirty (tw_mgr w s) \<and> length (onl w s) > 1 then upd_mgr s (\<lambda>m. m\<lparr>tm_online :=
    sort_key (\<lambda>i. - f32_key (threat_of w i)) (tm_online m)\<rparr>) w else w)"
  have short: "?sorted = onl w s" if "\<not> length (onl w s) > 1"
    using that by (cases "onl w s" rule: list.exhaust; cases "tl (onl w s)") auto
  have f: "tw_refs w1 = tw_refs w" "tw_count w1 = tw_count w" "tw_hated w1 = tw_hated w"
    "\<And>x. onl w1 x = (if x = s \<and> tm_dirty (tw_mgr w s) then ?sorted else onl w x)" "\<And>x. offl w1 x = offl w x" "\<And>x. victim w1 x = victim w x"
    using short by (auto simp: w1_def)
  have "threat_ok w1"
    by (rule ok_perm [OF ok f(1-3)]) (use ok_lists(1,7) [OF ok] f in auto)
  moreover have "container_update s w = Inr (setDirty s False w1)"
    using all_live_live [of "onl w s" w] list_live(1) [OF ok] by (simp add: container_update_def w1_def Let_def)
  ultimately show ?thesis using f by auto
qed

text \<open>A pass answers a reference of the list or the current victim.\<close>

definition pick_in :: "nat list \<Rightarrow> nat option \<Rightarrow> threat_error + pick \<Rightarrow> bool" where
  "pick_in js cv x \<longleftrightarrow> (case x of Inl err \<Rightarrow> False | Inr p \<Rightarrow> (case p of
     Picked i \<Rightarrow> i \<in> set js \<or> cv = Some i | NothingLeft \<Rightarrow> True | Again c \<Rightarrow> c = cv \<or> c = None))"

lemma pick_in_simps [simp]: "pick_in js cv (Inr (Picked i)) \<longleftrightarrow> i \<in> set js \<or> cv = Some i"
  "pick_in js cv (Inr NothingLeft)" "pick_in js cv (Inr (Again c)) \<longleftrightarrow> c = cv \<or> c = None"
  by (simp_all add: pick_in_def)

lemma pick_in_later: "pick_in js c x \<Longrightarrow> c = cv \<or> c = None \<Longrightarrow> pick_in (i # js) cv x"
  by (auto simp: pick_in_def split: sum.splits pick.splits)

lemma select_pass_cases:
  assumes "threat_ok w" "\<forall>i\<in>set js. live w i" "\<And>c. cv = Some c \<Longrightarrow> live w c"
  shows "pick_in js cv (select_pass e a w again js cv)"
  using assms(2,3)
proof (induction js arbitrary: cv)
  case (Cons i js)
  have "live w i" using Cons.prems by simp
  from live_ref [OF assms(1) this] obtain r where r: "tw_refs w i = Some r" "hr_to r = Some (hr_guid r)" by blast
  have later: "pick_in (i # js) cv (select_pass e a w again js c)" if "c = cv \<or> c = None" for c
    by (rule pick_in_later [OF Cons.IH that]) (use Cons.prems that in auto)
  show ?case
  proof (cases cv)
    case None
    with r later [of None] show ?thesis by (cases again) simp_all
  next
    case (Some c)
    with live_ref [OF assms(1) Cons.prems(2)] obtain q where q: "tw_refs w c = Some q" "hr_to q = Some (hr_guid q)" by blast
    with r Some later [of None] later [of cv] show ?thesis by (cases again; cases "c = i") (simp_all add: Let_def)
  qed
qed simp

lemma pick_inE:
  assumes "pick_in js cv x"
  obtains (picked) i where "x = Inr (Picked i)" "i \<in> set js \<or> cv = Some i" | (nothing) "x = Inr NothingLeft"
    | (again) c where "x = Inr (Again c)" "c = cv \<or> c = None"
  using assms that by (auto simp: pick_in_def split: sum.splits pick.splits)

lemma selectNextVictim_cases:
  assumes "threat_ok w" "\<forall>i\<in>set js. live w i" "\<And>c. cv = Some c \<Longrightarrow> live w c"
  shows "\<exists>p. selectNextVictim e a js cv w = Inr p \<and> (\<forall>i. p = Some i \<longrightarrow> i \<in> set js \<or> cv = Some i)"
proof -
  have second: "pick_in js x (select_pass e a w True js x)" if "x = cv \<or> x = None" for x
    using select_pass_cases [OF assms(1,2)] assms(3) that by blast
  have "pick_in js cv (select_pass e a w False js cv)" using select_pass_cases [OF assms(1,2)] assms(3) by blast
  then show ?thesis
  proof (cases rule: pick_inE)
    case (again c)
    from second [OF again(2)] again show ?thesis
      by (cases rule: pick_inE) (auto simp: selectNextVictim_def)
  qed (auto simp: selectNextVictim_def)
qed

lemma setCurrentVictim_ok:
  assumes ok: "threat_ok w" and p: "\<And>i. p = Some i \<Longrightarrow> i \<in> set (onl w s)"
  shows "\<exists>w'. setCurrentVictim s p w = Inr w' \<and> threat_ok w' \<and> tw_refs w' = tw_refs w \<and> tw_hated w' = tw_hated w
    \<and> (\<forall>x. onl w' x = onl w x) \<and> (\<forall>x. offl w' x = offl w x) \<and> victim w' s = p"
proof -
  have "\<exists>w1. (case p of None \<Rightarrow> Inr w
            | Some i \<Rightarrow> if victim w s \<noteq> Some i then SendChangeCurrentVictimOpcode s i w else Inr w) = Inr w1
      \<and> tw_refs w1 = tw_refs w \<and> tw_count w1 = tw_count w \<and> tw_hated w1 = tw_hated w \<and> tw_mgr w1 = tw_mgr w"
  proof (cases p)
    case (Some i)
    obtain fs where fs: "threat_fields (onl w s) w = Inr fs" using threat_fields_live list_live(1) [OF ok] by blast
    obtain r where "tw_refs w i = Some r" using list_live(1) [OF ok p [OF Some]] live_Some by blast
    with Some fs show ?thesis by (simp add: SendChangeCurrentVictimOpcode_def Let_def)
  qed simp
  then obtain w1 where w1: "(case p of None \<Rightarrow> Inr w
            | Some i \<Rightarrow> if victim w s \<noteq> Some i then SendChangeCurrentVictimOpcode s i w else Inr w) = Inr w1"
      "tw_refs w1 = tw_refs w" "tw_count w1 = tw_count w" "tw_hated w1 = tw_hated w" "tw_mgr w1 = tw_mgr w" by blast
  have "threat_ok (upd_mgr s (\<lambda>m. m\<lparr>tm_victim := p\<rparr>) w1)"
    by (rule ok_perm [OF ok]) (use w1 p ok_lists(1,7) [OF ok] in \<open>auto split: if_splits\<close>)
  with w1 show ?thesis by (simp add: setCurrentVictim_def)
qed

lemma getHostilTarget_ok:
  assumes ok: "threat_ok w"
  shows "\<exists>t w'. getHostilTarget e s w = Inr (t, w') \<and> threat_ok w' \<and> tw_refs w' = tw_refs w \<and> tw_hated w' = tw_hated w"
proof -
  from container_update_ok [OF ok, of s] obtain w1 where w1: "container_update s w = Inr w1" "threat_ok w1" "tw_refs w1 = tw_refs w"
    "tw_hated w1 = tw_hated w" by blast
  have "\<forall>i\<in>set (onl w1 s). live w1 i" "\<And>c. victim w1 s = Some c \<Longrightarrow> live w1 c"
    using list_live(1) [OF w1(2)] victim_live [OF w1(2)] by blast+
  from selectNextVictim_cases [OF w1(2) this] obtain p where p: "selectNextVictim e s (onl w1 s) (victim w1 s) w1 = Inr p"
    "\<forall>i. p = Some i \<longrightarrow> i \<in> set (onl w1 s) \<or> victim w1 s = Some i" by blast
  have "i \<in> set (onl w1 s)" if "p = Some i" for i using p(2) that ok_lists(7) [OF w1(2)] by blast
  from setCurrentVictim_ok [OF w1(2) this] obtain w2 where w2: "setCurrentVictim s p w1 = Inr w2" "threat_ok w2"
    "tw_refs w2 = tw_refs w1" "tw_hated w2 = tw_hated w1" "victim w2 s = p" by blast
  show ?thesis
  proof (cases p)
    case None
    with w1 w2 p(1) show ?thesis by (simp add: getHostilTarget_def)
  next
    case (Some i)
    with w2 victim_live [OF w2(2)] live_Some obtain r where "tw_refs w2 i = Some r" by blast
    with w1 w2 p(1) Some show ?thesis by (auto simp: getHostilTarget_def)
  qed
qed

section \<open>Deleting references\<close>

text \<open>The world without some references.\<close>

definition without :: "nat set \<Rightarrow> threat_world \<Rightarrow> threat_world \<Rightarrow> bool" where
  "without D w w' \<longleftrightarrow> (\<forall>i. tw_refs w' i = (if i \<in> D then None else tw_refs w i)) \<and> tw_count w' = tw_count w
     \<and> (\<forall>t. tw_hated w' t = filter (\<lambda>i. i \<notin> D) (tw_hated w t))"

lemma without_views:
  assumes "without D w w'"
  shows "src w' i = (if i \<in> D then None else src w i)" "dst w' i = (if i \<in> D then None else dst w i)"
    "gid w' i = (if i \<in> D then None else gid w i)" "is_on w' i = (i \<notin> D \<and> is_on w i)" "live w' i = (i \<notin> D \<and> live w i)"
  using assms by (simp_all add: without_def ref_views)

lemma without_empty [simp]: "without {} w w"
  by (simp add: without_def)

lemma without_trans: "without D w w1 \<Longrightarrow> without E w1 w2 \<Longrightarrow> without (D \<union> E) w w2"
  by (auto simp: without_def intro!: filter_cong)

lemma without_ok:
  assumes ok: "threat_ok w" and w: "without D w w'"
    and m: "\<And>s. onl w' s = filter (\<lambda>i. i \<notin> D) (onl w s)" "\<And>s. offl w' s = filter (\<lambda>i. i \<notin> D) (offl w s)"
      "\<And>s j. victim w' s = Some j \<Longrightarrow> victim w s = Some j \<and> j \<notin> D"
  shows "threat_ok w'"
proof (rule threat_okI)
  fix s i
  show "distinct (onl w' s)" "distinct (offl w' s)" using ok_lists(1,2) [OF ok] by (simp_all add: m)
  show "distinct (tw_hated w' s)" using ok_lists(3) [OF ok] w by (simp add: without_def)
  show "i \<in> set (onl w' s) \<longleftrightarrow> src w' i = Some s \<and> is_on w' i" "i \<in> set (offl w' s) \<longleftrightarrow> src w' i = Some s \<and> \<not> is_on w' i"
    using ok_lists(4,5) [OF ok, of i s] by (auto simp: m without_views [OF w])
  show "i \<in> set (tw_hated w' s) \<longleftrightarrow> dst w' i = Some s"
    using ok_lists(6) [OF ok, of i s] w without_views(2) [OF w, of i] by (auto simp: without_def)
  show "victim w' s = Some i \<Longrightarrow> i \<in> set (onl w' s)" using m(3) ok_lists(7) [OF ok, of s i] by (auto simp: m(1))
next
  fix i j assume "src w' i \<noteq> None" "src w' i = src w' j" "gid w' i = gid w' j"
  then show "i = j" using ok_lists(8) [OF ok, of i j] by (auto simp: without_views [OF w] split: if_splits)
next
  fix i assume "live w' i"
  then show "dst w' i = gid w' i" "i < tw_count w'" "\<exists>s. src w' i = Some s \<and> \<not> IS_PLAYER_GUID s"
    using ok_lists(9) [OF ok, of i] w without_views [OF w, of i] by (auto simp: without_def)
qed

lemma remove1_filter: "distinct xs \<Longrightarrow> remove1 i xs = filter (\<lambda>j. j \<noteq> i) xs"
  by (rule distinct_remove1_removeAll [THEN trans]) (simp_all add: removeAll_filter_not_eq eq_commute)

lemma filter_absent: "i \<notin> set xs \<Longrightarrow> filter (\<lambda>j. j \<noteq> i) xs = xs"
  by (rule filter_True) auto

text \<open>
  \<open>removeReference\<close> and the delete: the reference goes offline first, so that it is in the offline
  list when it is taken out.
\<close>

lemma delete_ref_ok:
  assumes ok: "threat_ok w" and i: "live w i"
  shows "\<exists>w'. delete_ref i w = Inr w' \<and> threat_ok w' \<and> without {i} w w'"
proof -
  from set_state [OF ok i, of False] obtain w1 where w1: "SetOnlineOfflineState i False w = Inr w1" "threat_ok w1" "same_but_on w w1"
    "is_on w1 = (is_on w)(i := False)" "\<And>j. j \<noteq> i \<Longrightarrow> tw_refs w1 j = tw_refs w j" by blast
  have i1: "live w1 i" using i w1(3) by (simp add: same_but_on_def)
  from live_ref [OF w1(2) i1] obtain r s where r: "tw_refs w1 i = Some r" "hr_from r = Some s" "src w1 i = Some s" by blast
  have off: "\<not> hr_online r" using w1(4) r(1) by (auto simp: is_on_def fun_eq_iff split: option.splits)
  have vic: "victim w1 x \<noteq> Some i" for x
    using ok_lists(7) [OF w1(2), of x i] ok_lists(4) [OF w1(2), of i x] off r(1) by (auto simp: is_on_def)
  define w2 where "w2 = upd_ref i (\<lambda>r. r\<lparr>hr_to := None\<rparr>) (delink_ref i w1)"
  define w3 where "w3 = upd_mgr s (offline_remove i) (send_threat s SMSG_THREAT_REMOVE [FPack s, FPack (hr_guid r)] w2)"
  have r2: "tw_refs w2 i = Some (r\<lparr>hr_to := None\<rparr>)" by (simp add: w2_def r)
  have vic2: "victim w2 s \<noteq> Some i" using vic by (simp add: w2_def)
  have "delete_ref i w = Inr (free_ref i w3)"
    using w1(1) r2 r(2) off vic2
    by (simp add: delete_ref_def removeReference_def invalidate_ref_def fireStatusChanged_def processThreatEvent_def drop_victim_eq
        SendRemoveFromThreatListOpcode_def w3_def flip: w2_def)
  moreover have wo: "without {i} w1 (free_ref i w3)"
    using ok_lists(3) [OF w1(2)]
    by (auto simp: without_def free_ref_def Let_def w3_def w2_def remove1_filter)
  moreover have "threat_ok (free_ref i w3)"
  proof (rule without_ok [OF w1(2) wo])
    fix x
    have "i \<notin> set (onl w1 x)" using ok_lists(4) [OF w1(2), of i x] off r(1) by (simp add: is_on_def)
    then show "onl (free_ref i w3) x = filter (\<lambda>j. j \<notin> {i}) (onl w1 x)"
      by (auto simp: free_ref_def Let_def w3_def w2_def filter_absent)
    have "i \<notin> set (offl w1 x)" if "x \<noteq> s" using ok_lists(5) [OF w1(2), of i x] r(3) that by simp
    then show "offl (free_ref i w3) x = filter (\<lambda>j. j \<notin> {i}) (offl w1 x)"
      by (auto simp: free_ref_def Let_def w3_def w2_def filter_absent)
    show "victim (free_ref i w3) x = Some j \<Longrightarrow> victim w1 x = Some j \<and> j \<notin> {i}" for j
      using vic by (auto simp: free_ref_def Let_def w3_def w2_def split: if_splits)
  qed
  moreover have "without {i} w (free_ref i w3)"
    using wo w1(3,5) by (auto simp: without_def same_but_on_def)
  ultimately show ?thesis by blast
qed

text \<open>A loop that deletes some of the references of a duplicate-free list.\<close>

lemma each_delete_ok:
  assumes "threat_ok w" "\<forall>i\<in>set js. live w i" "distinct js"
    and f: "\<And>i w. threat_ok w \<Longrightarrow> live w i \<Longrightarrow> f i w = delete_ref i w \<or> f i w = Inr w"
  shows "\<exists>w' D. each_ref f js w = Inr w' \<and> threat_ok w' \<and> D \<subseteq> set js \<and> without D w w'"
  using assms(1-3)
proof (induction js arbitrary: w)
  case Nil
  then show ?case by (intro exI [of _ w] exI [of _ "{}"]) simp
next
  case (Cons i js)
  have i: "live w i" using Cons.prems by simp
  from f [OF Cons.prems(1) i] delete_ref_ok [OF Cons.prems(1) i] Cons.prems(1)
  obtain w1 D1 where w1: "f i w = Inr w1" "threat_ok w1" "D1 \<subseteq> {i}" "without D1 w w1"
    by (metis empty_subsetI order_refl without_empty)
  have "\<forall>j\<in>set js. live w1 j" using Cons.prems w1(3) without_views(5) [OF w1(4)] by auto
  from Cons.IH [OF w1(2) this] Cons.prems(3) obtain w2 D2 where w2: "each_ref f js w1 = Inr w2" "threat_ok w2" "D2 \<subseteq> set js" "without D2 w1 w2"
    by auto
  from without_trans [OF w1(4) w2(4)] w1 w2 show ?case by (intro exI [of _ w2] exI [of _ "D1 \<union> D2"]) auto
qed

lemma each_delete_all:
  assumes "threat_ok w" "\<forall>i\<in>set js. live w i" "distinct js"
  shows "\<exists>w'. each_ref delete_ref js w = Inr w' \<and> threat_ok w' \<and> without (set js) w w'"
  using assms
proof (induction js arbitrary: w)
  case (Cons i js)
  have i: "live w i" using Cons.prems by simp
  from delete_ref_ok [OF Cons.prems(1) i] obtain w1 where w1: "delete_ref i w = Inr w1" "threat_ok w1" "without {i} w w1" by blast
  have "\<forall>j\<in>set js. live w1 j" using Cons.prems without_views(5) [OF w1(3)] by auto
  from Cons.IH [OF w1(2) this] Cons.prems(3) obtain w2 where w2: "each_ref delete_ref js w1 = Inr w2" "threat_ok w2" "without (set js) w1 w2"
    by auto
  from without_trans [OF w1(3) w2(3)] w1 w2 show ?case by auto
qed simp

lemma clear_refs_ok:
  assumes "\<forall>i\<in>set js. dst w i \<noteq> None" "distinct js" "\<And>t. distinct (tw_hated w t)"
  shows "\<exists>w'. clear_refs js w = Inr w' \<and> without (set js) w w' \<and> tw_mgr w' = tw_mgr w"
  using assms
proof (induction js arbitrary: w)
  case (Cons i js)
  then obtain r t where r: "tw_refs w i = Some r" "hr_to r = Some t" by (auto simp: dst_def bind_eq_Some_conv)
  define w1 where "w1 = free_ref i (upd_ref i (\<lambda>r. r\<lparr>hr_to := None, hr_from := None\<rparr>) (delink_ref i w))"
  have c: "clear_refs (i # js) w = clear_refs js w1" using r by (simp add: unlink_ref_def w1_def)
  have wo: "without {i} w w1" "tw_mgr w1 = tw_mgr w"
    using Cons.prems(3) by (auto simp: without_def w1_def free_ref_def Let_def remove1_filter filter_absent)
  have "\<forall>j\<in>set js. dst w1 j \<noteq> None" "\<And>t. distinct (tw_hated w1 t)"
    using Cons.prems without_views(2) [OF wo(1)] wo(1) by (auto simp: without_def)
  from Cons.IH [OF this(1) _ this(2)] Cons.prems(2) obtain w2 where w2: "clear_refs js w1 = Inr w2" "without (set js) w1 w2" "tw_mgr w2 = tw_mgr w1"
    by auto
  from without_trans [OF wo(1) w2(2)] c w2 wo(2) show ?case by auto
qed simp

lemma dst_live: "threat_ok w \<Longrightarrow> live w i \<Longrightarrow> dst w i \<noteq> None"
  using ok_lists(9) [of w i] by (auto simp: gid_def live_def)

lemma clearReferences_ok:
  assumes ok: "threat_ok w"
  shows "\<exists>w'. clearReferences s w = Inr w' \<and> threat_ok w' \<and> without {i. src w i = Some s} w w'"
proof -
  note l = ok_lists [OF ok]
  have "\<forall>i\<in>set (onl w s). dst w i \<noteq> None" using dst_live [OF ok] list_live(1) [OF ok] by blast
  from clear_refs_ok [OF this l(1) l(3)] obtain w1 where w1: "clear_refs (onl w s) w = Inr w1" "without (set (onl w s)) w w1"
    "tw_mgr w1 = tw_mgr w" by blast
  define w2 where "w2 = upd_mgr s (\<lambda>m. m\<lparr>tm_online := []\<rparr>) w1"
  have apart: "set (onl w s) \<inter> set (offl w s) = {}" using l(4,5) by blast
  have "\<forall>i\<in>set (offl w s). dst w2 i \<noteq> None"
    using dst_live [OF ok] list_live(2) [OF ok] apart without_views(2) [OF w1(2)] views_same(2) [of w2 w1] by (auto simp: w2_def)
  moreover have "distinct (tw_hated w2 t)" for t using w1(2) l(3) by (simp add: without_def w2_def)
  ultimately obtain w3 where w3: "clear_refs (offl w s) w2 = Inr w3" "without (set (offl w s)) w2 w3" "tw_mgr w3 = tw_mgr w2"
    using clear_refs_ok [OF _ l(2)] by blast
  define w4 where "w4 = upd_mgr s (\<lambda>m. m\<lparr>tm_offline := [], tm_victim := None, tm_timer := THREAT_UPDATE_INTERVAL\<rparr>) w3"
  have D: "set (onl w s) \<union> set (offl w s) = {i. src w i = Some s}" using l(4,5) by blast
  have "without (set (offl w s)) w1 w4" using w3(2) by (simp add: without_def w2_def w4_def)
  then have wo: "without {i. src w i = Some s} w w4" using without_trans [OF w1(2)] D by metis
  have "threat_ok w4"
  proof (rule without_ok [OF ok wo])
    fix x
    have "filter (\<lambda>i. i \<notin> {i. src w i = Some s}) xs = (if x = s then [] else xs)" if "\<And>i. i \<in> set xs \<Longrightarrow> src w i = Some x" for xs
      using that by (auto simp: filter_empty_conv filter_id_conv)
    with l(4,5) show "onl w4 x = filter (\<lambda>i. i \<notin> {i. src w i = Some s}) (onl w x)"
        "offl w4 x = filter (\<lambda>i. i \<notin> {i. src w i = Some s}) (offl w x)"
      by (simp_all add: w4_def w3(3) w2_def w1(3))
    show "victim w4 x = Some j \<Longrightarrow> victim w x = Some j \<and> j \<notin> {i. src w i = Some s}" for j
      using l(7) [of x j] l(4) [of j x] by (auto simp: w4_def w3(3) w2_def w1(3) split: if_splits)
  qed
  moreover have "clearReferences s w = Inr w4"
    using w1(1) w3(1) by (simp add: clearReferences_def w1(3) w4_def flip: w2_def)
  ultimately show ?thesis using wo by blast
qed

section \<open>Loops that delete nothing\<close>

lemma each_ref_fine:
  assumes "threat_ok w" "\<forall>i\<in>set js. live w i" and f: "\<And>i w. threat_ok w \<Longrightarrow> live w i \<Longrightarrow> fine lim w (f i w)"
  shows "fine lim w (each_ref f js w)"
  using assms(1,2)
proof (induction js arbitrary: w)
  case (Cons i js)
  show ?case
    unfolding each_ref.simps
  proof (rule fine_bind)
    show "fine lim w (f i w)" using f Cons.prems by simp
  next
    fix w1 assume "threat_ok w1" "refs_grow w w1"
    then show "fine lim w1 (each_ref f js w1)" using Cons.IH Cons.prems(2) refs_growD by simp
  qed
qed simp

lemma successor_in: "successor i js = Some j \<Longrightarrow> j \<in> set js"
  by (induction js) (auto split: if_splits list.splits)

lemma list_loop_fine:
  assumes "threat_ok w" "\<And>i. p = Some i \<Longrightarrow> live w i" and f: "\<And>i w. threat_ok w \<Longrightarrow> live w i \<Longrightarrow> fine True w (body i w)"
  shows "fine True w (list_loop n body s p w)"
  using assms(1,2)
proof (induction n arbitrary: p w)
  case (Suc n)
  show ?case
  proof (cases p)
    case (Some i)
    have "fine True w (sbind (body i w) (\<lambda>w1. list_loop n body s (successor i (onl w1 s)) w1))"
    proof (rule fine_bind)
      show "fine True w (body i w)" using Suc.prems f Some by simp
    next
      fix w1 assume "threat_ok w1" "refs_grow w w1"
      then show "fine True w1 (list_loop n body s (successor i (onl w1 s)) w1)"
        using Suc.IH list_live(1) successor_in by blast
    qed
    with Some show ?thesis by simp
  qed (use Suc.prems in simp)
next
  case 0
  then show ?case by (cases p) simp_all
qed

lemma source_of_src: "src w i = Some s \<Longrightarrow> source_of i w f = f s"
  by (auto simp: source_of_def src_def get_ref_def bind_eq_Some_conv)

lemma live_src: "threat_ok w \<Longrightarrow> live w i \<Longrightarrow> \<exists>s. src w i = Some s \<and> \<not> IS_PLAYER_GUID s"
  using ok_lists(9) by blast

lemma first_from_cases:
  assumes "threat_ok w" "\<forall>i\<in>set js. live w i"
  shows "first_from c f js w = Inr w \<or> (\<exists>i\<in>set js. first_from c f js w = f i w)"
  using assms(2)
proof (induction js)
  case (Cons i js)
  then obtain s where "src w i = Some s" using live_src [OF assms(1)] by auto
  then have "first_from c f (i # js) w = (if s = c then f i w else first_from c f js w)" by (simp add: source_of_src)
  with Cons show ?case by auto
qed simp

end
