(* ===== verification/Threat_Props.thy ===== *)
theory Threat_Props
  imports Threat_Inv
begin

text \<open>
  The properties of threat: in every reachable world the references, the two lists of every
  creature and the lists of the units they point to agree, whatever is called; death and deletion
  of a unit leave no reference from it or to it; and the choice of the victim.
\<close>

section \<open>Calls\<close>

text \<open>
  What the rest of the server does with threat: the functions of \<open>Unit\<close>, \<open>ThreatManager\<close> and
  \<open>HostileRefManager\<close> that other files call, the taunt effect of a spell and the scripts that
  add threat to a manager. The first unit is the one it is called on. Not among the calls are the
  two scripts (\<open>boss_illidan.cpp\<close> and \<open>shadowmoon_valley.cpp\<close>) that take a reference out of the
  lists without deleting it, and the loops over a list that scripts write themselves.
\<close>

datatype threat_call =
    CallAdd u64 u64 f32 u32 "threat_spell option"
  | CallModifyPercent u64 u64 int
  | CallGetTarget u64
  | CallTauntApply u64 u64
  | CallTauntFadeOut u64 u64
  | CallResetAll u64
  | CallResetSome u64 "u64 \<Rightarrow> bool"
  | CallDeleteThreatList u64
  | CallUpdate u64 u32
  | CallAssist u64 u64 f32 "threat_spell option"
  | CallTempThreats u64 f32 bool
  | CallPercents u64 int
  | CallOnline u64 bool
  | CallOnlineOf u64 u64 bool
  | CallTables u64
  | CallDelete u64
  | CallDeleteFaction u64 u32
  | CallDeleteOne u64 u64
  | CallVisibility u64
  | CallPhase u64 "u64 \<Rightarrow> bool"
  | CallDies u64
  | CallCleanup u64
  | CallUnitDeleted u64
  | CallTauntEffect bool u64 u64
  | CallScriptAdd u64 u64 f32

text \<open>\<open>n\<close> bounds the chain of owners, \<open>f\<close> the loops over a list that refs_grow.\<close>

fun run_call :: "nat \<Rightarrow> nat \<Rightarrow> threat_env \<Rightarrow> threat_call \<Rightarrow> threat_world \<Rightarrow> threat_error + threat_world" where
  "run_call n f e (CallAdd s v m school spell) w = Unit_AddThreat n e s v m school spell w"
| "run_call n f e (CallModifyPercent s v p) w = modifyThreatPercent n e s v p w"
| "run_call n f e (CallGetTarget s) w = sbind (getHostilTarget e s w) (\<lambda>(t, w1). Inr w1)"
| "run_call n f e (CallTauntApply s v) w = tauntApply n e s v w"
| "run_call n f e (CallTauntFadeOut s v) w = tauntFadeOut n e s v w"
| "run_call n f e (CallResetAll s) w = resetAllAggro f n e s w"
| "run_call n f e (CallResetSome s p) w = resetAggro f n e p s w"
| "run_call n f e (CallDeleteThreatList s) w = DeleteThreatList e s w"
| "run_call n f e (CallUpdate s time) w = Unit_Update e s time w"
| "run_call n f e (CallAssist u v m spell) w = threatAssist n e u v m spell w"
| "run_call n f e (CallTempThreats u m b) w = addTempThreats n e u m b w"
| "run_call n f e (CallPercents u p) w = AddThreatPercents n e u p w"
| "run_call n f e (CallOnline u b) w = SetOnlineOfflineStates u b w"
| "run_call n f e (CallOnlineOf u c b) w = SetOnlineOfflineStateOf u c b w"
| "run_call n f e (CallTables u) w = updateThreatTables e u w"
| "run_call n f e (CallDelete u) w = deleteReferences u w"
| "run_call n f e (CallDeleteFaction u x) w = deleteReferencesForFaction e u x w"
| "run_call n f e (CallDeleteOne u c) w = deleteReference u c w"
| "run_call n f e (CallVisibility u) w = UpdateVisibility e u w"
| "run_call n f e (CallPhase u p) w = SetPhaseMask u p w"
| "run_call n f e (CallDies u) w = unit_dies e u w"
| "run_call n f e (CallCleanup u) w = cleanup_threat e u w"
| "run_call n f e (CallUnitDeleted u) w = delete_unit u w"
| "run_call n f e (CallTauntEffect b s v) w = EffectTaunt n e b s v w"
| "run_call n f e (CallScriptAdd s v m) w = script_addThreat n e s v m w"

definition no_threat :: threat_world where
  "no_threat = \<lparr>tw_refs = (\<lambda>i. None), tw_count = 0, tw_mgr = (\<lambda>s. new_threat_mgr), tw_hated = (\<lambda>u. []), tw_out = []\<rparr>"

inductive threat_reach :: "threat_world \<Rightarrow> bool" where
  Start: "threat_reach no_threat"
| Call: "threat_reach w \<Longrightarrow> run_call n f e c w = Inr w' \<Longrightarrow> threat_reach w'"

section \<open>Every call keeps the references consistent\<close>

text \<open>A result without a bad read, and within the bounds unless \<open>lim\<close> allows to leave them.\<close>

definition sound :: "bool \<Rightarrow> threat_error + threat_world \<Rightarrow> bool" where
  "sound lim x \<longleftrightarrow> (case x of Inl err \<Rightarrow> lim \<and> err = OutOfFuel | Inr w \<Rightarrow> threat_ok w)"

lemma sound_simps [simp]: "sound lim (Inr w) \<longleftrightarrow> threat_ok w" "sound lim (Inl err) \<longleftrightarrow> lim \<and> err = OutOfFuel"
  by (simp_all add: sound_def)

lemma fine_sound: "fine lim w x \<Longrightarrow> sound lim x"
  by (cases x) simp_all

lemma sound_bind: "sound lim x \<Longrightarrow> (\<And>w. threat_ok w \<Longrightarrow> sound lim (f w)) \<Longrightarrow> sound lim (sbind x f)"
  by (cases x) simp_all

lemma hated_live: "threat_ok w \<Longrightarrow> \<forall>i\<in>set (tw_hated w u). live w i"
  using list_live(3) by blast

lemma each_hated_fine:
  "threat_ok w \<Longrightarrow> (\<And>i w. threat_ok w \<Longrightarrow> live w i \<Longrightarrow> fine lim w (f i w)) \<Longrightarrow> sound lim (each_ref f (tw_hated w u) w)"
  by (rule fine_sound [OF each_ref_fine]) (simp_all add: hated_live)

lemma each_hated_delete:
  assumes "threat_ok w" "\<And>i w. threat_ok w \<Longrightarrow> live w i \<Longrightarrow> f i w = delete_ref i w \<or> f i w = Inr w"
  shows "sound lim (each_ref f (tw_hated w u) w)"
proof -
  from each_delete_ok [OF assms(1) hated_live [OF assms(1), of u] ok_lists(3) [OF assms(1), of u], of f] assms(2)
  obtain w' where "each_ref f (tw_hated w u) w = Inr w'" "threat_ok w'" by blast
  then show ?thesis by simp
qed

lemma first_hated_fine:
  assumes "threat_ok w" "\<And>i. live w i \<Longrightarrow> fine lim w (f i w)"
  shows "fine lim w (first_from c f (tw_hated w u) w)"
  using first_from_cases [OF assms(1) hated_live [OF assms(1)], of c f u] assms hated_live [OF assms(1), of u] by auto

lemma SetOnlineOfflineStateOf_fine: "threat_ok w \<Longrightarrow> fine lim w (SetOnlineOfflineStateOf u c b w)"
  unfolding SetOnlineOfflineStateOf_def by (intro first_hated_fine SetOnlineOfflineState_fine)

lemma send_ok [simp]: "threat_ok (send_threat s c fs w) = threat_ok w"
  by (rule ok_cong) (simp_all add: fun_eq_iff ref_views)

lemma DeleteThreatList_ok:
  assumes "threat_ok w"
  shows "\<exists>w'. DeleteThreatList e s w = Inr w' \<and> threat_ok w' \<and> without {i. src w i = Some s} w w'"
proof -
  let ?w = "if CanHaveThreatList e s True \<and> onl w s \<noteq> [] then SendClearThreatListOpcode s w else w"
  have same: "tw_refs ?w = tw_refs w" "tw_count ?w = tw_count w" "tw_hated ?w = tw_hated w" by (simp_all add: SendClearThreatListOpcode_def)
  have "threat_ok ?w" using assms by (simp add: SendClearThreatListOpcode_def)
  from clearReferences_ok [OF this, of s] same views_same(1) [OF same(1)] show ?thesis
    by (auto simp: DeleteThreatList_def without_def)
qed

lemma deleteReferences_ok:
  assumes "threat_ok w"
  shows "\<exists>w'. deleteReferences u w = Inr w' \<and> threat_ok w' \<and> without {i. dst w i = Some u} w w'"
proof -
  have "set (tw_hated w u) = {i. dst w i = Some u}" using ok_lists(6) [OF assms] by blast
  with each_delete_all [OF assms hated_live [OF assms] ok_lists(3) [OF assms], of u] show ?thesis
    unfolding deleteReferences_def by simp
qed

lemma threatAssist_sound:
  assumes "enough lim n e" "threat_ok w"
  shows "sound lim (threatAssist n e u v m spell w)"
  unfolding threatAssist_def Let_def
proof (rule each_hated_fine [OF assms(2)])
  fix i w assume ok: "threat_ok w" and i: "live w i"
  from live_src [OF ok i] obtain s where s: "src w i = Some s" "\<not> IS_PLAYER_GUID s" by blast
  then show "fine lim w (source_of i w (\<lambda>s. sbind (isValidProcess e v s spell) (\<lambda>valid. if valid then
      doAddThreat (ref_addThreat n e) e s v (f32_div (calcThreat e v m (case spell of None \<Rightarrow> SPELL_SCHOOL_MASK_NORMAL | Some sp \<Rightarrow> ts_school sp) spell)
        (f32_of_int (uint (of_nat (length (tw_hated wa u)) :: u32)))) w else Inr w)))" for wa
    using valid_creature [OF s(2), of e v spell] doAddThreat_fine [OF ref_addThreat_fine [OF assms(1)] ok s(2)] ok by (auto simp: source_of_src)
qed

lemma reset_sound:
  assumes "threat_ok w"
  shows "sound True (resetAllAggro f n e s w)" "sound True (resetAggro f n e p s w)"
proof -
  have body: "fine True w (get_ref i w (\<lambda>r. case hr_to r of None \<Rightarrow> Inl (NoTarget i) | Some t \<Rightarrow>
         if p t then sbind (setThreat n e i 0 w) (\<lambda>w1. Inr (setDirty s True w1)) else Inr w))"
    if ok: "threat_ok w" and i: "live w i" for i w
  proof -
    from live_ref [OF ok i] obtain r where r: "tw_refs w i = Some r" "hr_to r = Some (hr_guid r)" by blast
    have "fine True w (sbind (setThreat n e i 0 w) (\<lambda>w1. Inr (setDirty s True w1)))"
      by (rule fine_bind [OF setThreat_fine [OF enough_anyway ok i]]) simp
    with r ok show ?thesis by simp
  qed
  have first: "live w i" if "onl w s = i # js" for i js using list_live(1) [OF assms, of i s] that by simp
  show "sound True (resetAllAggro f n e s w)"
    using assms first
    by (auto simp: resetAllAggro_def split: list.split intro!: sound_bind fine_sound [OF list_loop_fine] setThreat_fine)
  show "sound True (resetAggro f n e p s w)"
    using assms first body by (auto simp: resetAggro_def split: list.split intro!: fine_sound [OF list_loop_fine])
qed

lemma Unit_Update_sound:
  assumes "threat_ok w"
  shows "sound lim (Unit_Update e s time w)"
proof -
  have m: "threat_ok (upd_mgr s (\<lambda>m. m\<lparr>tm_timer := x m\<rparr>) w)" for x
    using assms ok_cong [of "upd_mgr s (\<lambda>m. m\<lparr>tm_timer := x m\<rparr>) w" w] by (simp add: fun_eq_iff ref_views)
  have "sound lim (SendThreatListUpdate s w)" if ok: "threat_ok w" for w
  proof -
    obtain fs where "threat_fields (onl w s) w = Inr fs" using threat_fields_live list_live(1) [OF ok] by blast
    with ok show ?thesis by (simp add: SendThreatListUpdate_def Let_def)
  qed
  with m assms show ?thesis by (simp add: Unit_Update_def isNeedUpdateToClient_def Let_def)
qed

lemma SetPhaseMask_sound:
  assumes ok: "threat_ok w"
  shows "sound lim (SetPhaseMask u p w)"
proof -
  have one: "fine lim w (source_of i w (\<lambda>s. if IS_PLAYER_GUID s then Inr w else SetOnlineOfflineStateOf u s (p s) w))"
    if "threat_ok w" "live w i" for i w
  proof -
    from live_src [OF that] obtain s where "src w i = Some s" by blast
    with SetOnlineOfflineStateOf_fine that(1) show ?thesis by (simp add: source_of_src)
  qed
  have two: "fine lim w (get_ref i w (\<lambda>r. case hr_to r of None \<Rightarrow> Inr w | Some t \<Rightarrow> SetOnlineOfflineStateOf t u (p t) w))"
    if "threat_ok w" "live w i" for i w
  proof -
    from live_ref [OF that] obtain r where "tw_refs w i = Some r" "hr_to r = Some (hr_guid r)" by blast
    with SetOnlineOfflineStateOf_fine [OF that(1)] show ?thesis by simp
  qed
  show ?thesis
    unfolding SetPhaseMask_def phase_hated_def
  proof (rule sound_bind [OF each_hated_fine [OF ok one]])
    fix w1 assume w1: "threat_ok w1"
    have "\<forall>i\<in>set (sort (onl w1 u @ offl w1 u)). live w1 i" using list_live(1,2) [OF w1] by auto
    have "fine lim w1 (phase_hates u p (sort (onl w1 u @ offl w1 u)) w1)"
      unfolding phase_hates_def by (rule each_ref_fine [OF w1 \<open>\<forall>i\<in>set (sort (onl w1 u @ offl w1 u)). live w1 i\<close>]) (rule two)
    with w1 show "sound lim (if IS_PLAYER_GUID u then Inr w1 else phase_hates u p (sort (onl w1 u @ offl w1 u)) w1)"
      by (auto intro: fine_sound)
  qed
qed

lemma unit_dies_ok:
  assumes "threat_ok w"
  shows "\<exists>w'. unit_dies e u w = Inr w' \<and> threat_ok w' \<and> without {i. src w i = Some u \<or> dst w i = Some u} w w'"
proof -
  from DeleteThreatList_ok [OF assms] obtain w1 where w1: "DeleteThreatList e u w = Inr w1" "threat_ok w1" "without {i. src w i = Some u} w w1"
    by blast
  from deleteReferences_ok [OF w1(2)] obtain w2 where w2: "deleteReferences u w1 = Inr w2" "threat_ok w2" "without {i. dst w1 i = Some u} w1 w2"
    by blast
  have "{i. src w i = Some u} \<union> {i. dst w1 i = Some u} = {i. src w i = Some u \<or> dst w i = Some u}"
    using without_views(2) [OF w1(3)] by auto
  with without_trans [OF w1(3) w2(3)] w1 w2 show ?thesis by (simp add: unit_dies_def)
qed

lemma delete_unit_ok:
  assumes "threat_ok w"
  shows "\<exists>w'. delete_unit u w = Inr w' \<and> threat_ok w' \<and> without {i. src w i = Some u \<or> dst w i = Some u} w w'"
proof -
  from deleteReferences_ok [OF assms] obtain w1 where w1: "deleteReferences u w = Inr w1" "threat_ok w1" "without {i. dst w i = Some u} w w1"
    by blast
  from clearReferences_ok [OF w1(2)] obtain w2 where w2: "clearReferences u w1 = Inr w2" "threat_ok w2" "without {i. src w1 i = Some u} w1 w2"
    by blast
  have "{i. dst w i = Some u} \<union> {i. src w1 i = Some u} = {i. src w i = Some u \<or> dst w i = Some u}"
    using without_views(1) [OF w1(3)] by auto
  with without_trans [OF w1(3) w2(3)] w1 w2 show ?thesis by (simp add: delete_unit_def)
qed

lemma Unit_AddThreat_fine: "enough lim n e \<Longrightarrow> threat_ok w \<Longrightarrow> fine lim w (Unit_AddThreat n e s v m school spell w)"
  by (simp add: Unit_AddThreat_def CanHaveThreatList_def mgr_addThreat_fine ref_addThreat_fine)

lemma addTempThreats_sound:
  assumes "enough lim n e" "threat_ok w"
  shows "sound lim (addTempThreats n e u m b w)"
  unfolding addTempThreats_def
proof (rule each_hated_fine [OF assms(2)])
  fix i w assume ok: "threat_ok w" and i: "live w i"
  from live_Some [OF i] obtain r where "tw_refs w i = Some r" by blast
  with ok addTempThreat_fine [OF assms(1) ok i] resetTempThreat_fine [OF assms(1) ok i]
  show "fine lim w (get_ref i w (\<lambda>r. if b then (if f32_eq (hr_temp r) 0 then addTempThreat n e i m w else Inr w)
     else resetTempThreat n e i w))" by simp
qed

lemma conditional_delete:
  assumes "threat_ok w" "live w i"
  shows "source_of i w (\<lambda>s. if p s then delete_ref i w else Inr w) = delete_ref i w
    \<or> source_of i w (\<lambda>s. if p s then delete_ref i w else Inr w) = Inr w"
proof -
  from live_src [OF assms] obtain s where "src w i = Some s" by blast
  then show ?thesis by (simp add: source_of_src)
qed

lemma deleteReference_sound:
  assumes "threat_ok w"
  shows "sound lim (deleteReference u c w)"
proof -
  have "sound lim (delete_ref i w)" if "i \<in> set (tw_hated w u)" for i
    using delete_ref_ok [OF assms list_live(3) [OF assms that]] by auto
  with first_from_cases [OF assms hated_live [OF assms], of c delete_ref u] assms show ?thesis
    unfolding deleteReference_def by auto
qed

lemma cleanup_threat_sound:
  assumes "threat_ok w"
  shows "sound lim (cleanup_threat e u w)"
proof -
  from DeleteThreatList_ok [OF assms] obtain w1 where w1: "DeleteThreatList e u w = Inr w1" "threat_ok w1" by blast
  with each_hated_fine [OF w1(2) SetOnlineOfflineState_fine] show ?thesis
    by (simp add: cleanup_threat_def SetOnlineOfflineStates_def)
qed

lemma script_addThreat_fine: "enough lim n e \<Longrightarrow> threat_ok w \<Longrightarrow> fine lim w (script_addThreat n e s v m w)"
  by (simp add: script_addThreat_def mgr_addThreat_fine ref_addThreat_fine)

lemma getThreat_online:
  assumes "threat_ok w"
  obtains m where "getThreat s v False w = Inr m"
proof -
  from find_listed(1) [OF assms, of s v] have "\<exists>m. getThreat s v False w = Inr m"
  proof (elim disjE bexE conjE)
    fix i assume i: "i \<in> set (onl w s)" "find_ref (onl w s) v w = Inr (Some i)"
    with list_live(1) [OF assms] live_Some obtain r where "tw_refs w i = Some r" by blast
    with i show ?thesis by (simp add: getThreat_def)
  qed (simp add: getThreat_def)
  with that show ?thesis by blast
qed

lemma taunt_catch_up_fine:
  assumes "enough lim n e" "threat_ok w" "\<not> IS_PLAYER_GUID s"
  shows "fine lim w (taunt_catch_up n e s v w)"
proof (cases "victim w s")
  case (Some c)
  obtain q where q: "tw_refs w c = Some q" using victim_live [OF assms(2) Some] live_Some by blast
  obtain m where m: "getThreat s v False w = Inr m" by (rule getThreat_online [OF assms(2)])
  show ?thesis
    using Some q m assms mgr_addThreat_fine [OF ref_addThreat_fine [OF assms(1)] assms(2,3)] by (simp add: taunt_catch_up_def)
qed (simp add: assms taunt_catch_up_def)

lemma force_victim_sound:
  assumes "threat_ok w"
  shows "sound lim (force_victim s v w)"
  using find_listed(1) [OF assms, of s v]
proof (elim disjE bexE conjE)
  fix i assume i: "i \<in> set (onl w s)" "find_ref (onl w s) v w = Inr (Some i)"
  with setCurrentVictim_ok [OF assms, of "Some i" s] obtain w' where "setCurrentVictim s (Some i) w = Inr w'" "threat_ok w'" by auto
  with i assms show ?thesis by (simp add: force_victim_def)
qed (use assms in \<open>simp add: force_victim_def\<close>)

lemma EffectTaunt_sound:
  assumes "enough lim n e" "threat_ok w"
  shows "sound lim (EffectTaunt n e b s v w)"
proof (cases "\<not> CanHaveThreatList e s False \<or> b")
  case False
  then have "\<not> IS_PLAYER_GUID s" by (simp add: CanHaveThreatList_def)
  from sound_bind [OF fine_sound [OF taunt_catch_up_fine [OF assms this]] force_victim_sound] False
  show ?thesis by (simp add: EffectTaunt_def)
qed (auto simp: EffectTaunt_def assms(2))

text \<open>The loops that reset threat have a bound of their own.\<close>

fun resets_threat :: "threat_call \<Rightarrow> bool" where
  "resets_threat (CallResetAll s) = True"
| "resets_threat (CallResetSome s p) = True"
| "resets_threat c = False"

lemma run_call_sound:
  assumes ok: "threat_ok w" and en: "enough lim n e" "resets_threat c \<Longrightarrow> lim"
  shows "sound lim (run_call n f e c w)"
proof (cases c)
  case (CallGetTarget s)
  with getHostilTarget_ok [OF ok, of e s] show ?thesis by auto
next
  case (CallDeleteThreatList s)
  with DeleteThreatList_ok [OF ok, of e s] show ?thesis by auto
next
  case (CallDelete u)
  with deleteReferences_ok [OF ok, of u] show ?thesis by auto
next
  case (CallDies u)
  with unit_dies_ok [OF ok, of e u] show ?thesis by auto
next
  case (CallUnitDeleted u)
  with delete_unit_ok [OF ok, of u] show ?thesis by auto
next
  case (CallDeleteFaction u x)
  with each_hated_delete [OF ok conditional_delete] show ?thesis by (simp add: deleteReferencesForFaction_def)
next
  case (CallVisibility u)
  with each_hated_delete [OF ok conditional_delete] show ?thesis by (simp add: UpdateVisibility_def)
next
  case (CallResetAll s)
  with en(2) reset_sound(1) [OF ok, of f n e s] show ?thesis by simp
next
  case (CallResetSome s p)
  with en(2) reset_sound(2) [OF ok, of f n e p s] show ?thesis by simp
qed (simp_all add: ok en(1) fine_sound [of lim w] Unit_AddThreat_fine modifyThreatPercent_fine tauntApply_fine tauntFadeOut_fine
    Unit_Update_sound threatAssist_sound addTempThreats_sound AddThreatPercents_def each_hated_fine AddThreatPercent_fine
    SetOnlineOfflineStates_def SetOnlineOfflineState_fine SetOnlineOfflineStateOf_fine updateThreatTables_def updateOnlineStatus_fine
    deleteReference_sound SetPhaseMask_sound cleanup_threat_sound EffectTaunt_sound script_addThreat_fine)

lemma no_threat_ok: "threat_ok no_threat"
  by (rule threat_okI) (simp_all add: no_threat_def new_threat_mgr_def ref_views)

lemma reach_ok: "threat_reach w \<Longrightarrow> threat_ok w"
proof (induction rule: threat_reach.induct)
  case (Call w n f e c w')
  from run_call_sound [OF Call.IH, of True n e c f] Call.hyps(2) show ?case by simp
qed (rule no_threat_ok)

section \<open>A creature that is attacked by two players\<close>

text \<open>Nothing changes the threat, and everybody can be reached.\<close>

definition open_field :: threat_env where
  "open_field = \<lparr>te_owner = (\<lambda>u. None), te_alive = (\<lambda>u. True), te_gm = (\<lambda>u. False), te_exists = (\<lambda>u. True),
     te_flight = (\<lambda>u. False), te_same_map = (\<lambda>u v. True), te_same_phase = (\<lambda>u v. True), te_accessible = (\<lambda>u v. True),
     te_combat_range = (\<lambda>u v. True), te_second_choice = (\<lambda>u v. False), te_can_attack = (\<lambda>u v. True), te_melee = (\<lambda>u v. True),
     te_detects = (\<lambda>u v. True), te_faction = (\<lambda>u. 0), te_totem = (\<lambda>u. False), te_player_summon = (\<lambda>u. False),
     te_reduced = (\<lambda>u. 0), te_redirect = (\<lambda>u. None), te_glyph = (\<lambda>u. None), te_threat_aura = (\<lambda>u. False),
     te_school_mod = (\<lambda>u school. fl_1), te_spell_mod = (\<lambda>u spell m. m)\<rparr>"

definition boar :: u64 where "boar = 0xF130000000000001"

fun run_calls :: "nat \<Rightarrow> nat \<Rightarrow> threat_env \<Rightarrow> threat_call list \<Rightarrow> threat_world \<Rightarrow> threat_error + threat_world" where
  "run_calls n f e [] w = Inr w"
| "run_calls n f e (c # cs) w = sbind (run_call n f e c w) (run_calls n f e cs)"

lemma reach_calls: "run_calls n f e cs w = Inr w' \<Longrightarrow> threat_reach w \<Longrightarrow> threat_reach w'"
proof (induction cs arbitrary: w)
  case (Cons c cs)
  then obtain w1 where w1: "run_call n f e c w = Inr w1" "run_calls n f e cs w1 = Inr w'" by (cases "run_call n f e c w") simp_all
  from Cons.IH [OF w1(2) threat_reach.Call [OF Cons.prems(2) w1(1)]] show ?case .
qed simp

text \<open>Player 7 makes 100 of threat; the boar attacks; player 8 makes 120.\<close>

definition pull :: "threat_call list" where
  "pull = [CallAdd boar 7 0x42C80000 1 None, CallGetTarget boar, CallAdd boar 8 0x42F00000 1 None]"

definition pulled :: threat_world where
  "pulled = \<lparr>tw_refs = (\<lambda>i. None)
       (0 \<mapsto> \<lparr>hr_to = Some 7, hr_from = Some boar, hr_threat = 0x42C80000, hr_temp = 0, hr_guid = 7, hr_online = True, hr_access = True\<rparr>,
        1 \<mapsto> \<lparr>hr_to = Some 8, hr_from = Some boar, hr_threat = 0x42F00000, hr_temp = 0, hr_guid = 8, hr_online = True, hr_access = True\<rparr>),
     tw_count = 2,
     tw_mgr = (\<lambda>s. new_threat_mgr)
       (boar := \<lparr>tm_victim = Some 0, tm_timer = 1000, tm_online = [0, 1], tm_dirty = True, tm_offline = []\<rparr>),
     tw_hated = (\<lambda>u. [])(7 := [0], 8 := [1]),
     tw_out = [ThreatSend boar \<lparr>pk_opcode = SMSG_HIGHEST_THREAT_UPDATE,
       pk_fields = [FPack boar, FPack 7, F32 1, FPack 7, F32 10000]\<rparr>]\<rparr>"

lemma pull_floats:
  "f32_add 0 0x42C80000 = 0x42C80000" "f32_add 0 0x42F00000 = 0x42F00000" "f32_to_uint (f32_mul 0x42C80000 fl_100) = 10000"
  "f32_eq 0x42C80000 0 = False" "f32_eq 0x42F00000 0 = False" "f32_lt 0 0x42C80000" "f32_lt 0 0x42F00000"
  "f32_le 0 0x42C80000" "f32_le 0 0x42F00000"
  by code_simp+

lemma no_players [simp]: "\<not> IS_PLAYER_GUID boar" "boar \<noteq> 7" "boar \<noteq> 8" "7 \<noteq> boar" "8 \<noteq> boar"
  by code_simp+

lemma open_field_simps [simp]:
  "te_owner open_field u = None" "te_alive open_field u" "\<not> te_gm open_field u" "te_same_map open_field u v" "te_same_phase open_field u v"
  "\<not> te_second_choice open_field u v" "te_can_attack open_field u v" "\<not> te_totem open_field u" "\<not> te_player_summon open_field u"
  "te_reduced open_field u = 0" "\<not> te_threat_aura open_field u" "te_melee open_field u v"
  by (simp_all add: open_field_def)

lemmas threat_eval = Unit_AddThreat_def CanHaveThreatList_def mgr_addThreat_def isValidProcess_def calcThreat_def ApplyTotalThreatModifier_def
  doAddThreat_def mgr_add_def container_addThreat_def new_ref_def link_ref_def get_ref_def upd_ref_def upd_mgr_def Let_def
  fireStatusChanged_def processThreatEvent_def setDirty_def add_owner_def online_add_def getHostilTarget_def container_update_def
  selectNextVictim_def setCurrentVictim_def SendChangeCurrentVictimOpcode_def send_threat_def new_threat_mgr_def THREAT_UPDATE_INTERVAL_def

lemma pulled_run: "run_calls 1 0 open_field pull no_threat = Inr pulled"
  by (simp add: pull_def no_threat_def pulled_def threat_eval pull_floats eval_nat_numeral)

lemma pulled_reach: "threat_reach pulled"
  using reach_calls [OF pulled_run] threat_reach.Start by blast

lemma pulled_state: "onl pulled boar = [0, 1]" "victim pulled boar = Some 0"
  "tm_dirty (tw_mgr pulled boar)" "map_option hr_threat (tw_refs pulled 0) = Some 0x42C80000" "map_option hr_guid (tw_refs pulled 0) = Some 7"
  "map_option hr_threat (tw_refs pulled 1) = Some 0x42F00000" "map_option hr_guid (tw_refs pulled 1) = Some 8"
  by (simp_all add: pulled_def)

section \<open>Who is attacked\<close>

text \<open>
  A reference overtakes the current victim with more than 110 percent of its threat in melee range,
  and with more than 130 percent from anywhere.
\<close>

definition overtakes :: "threat_env \<Rightarrow> u64 \<Rightarrow> threat_world \<Rightarrow> f32 \<Rightarrow> nat \<Rightarrow> bool" where
  "overtakes e s w t i \<longleftrightarrow> (case tw_refs w i of None \<Rightarrow> False | Some r \<Rightarrow>
     te_can_attack e s (hr_guid r) \<and> f32_lt (f32_mul fl_1_1 t) (hr_threat r)
       \<and> (f32_lt (f32_mul fl_1_3 t) (hr_threat r) \<or> te_melee e s (hr_guid r)))"

text \<open>The choice among the references of a list: the current one, or one that overtakes it with the most threat.\<close>

definition right_victim :: "threat_env \<Rightarrow> u64 \<Rightarrow> threat_world \<Rightarrow> f32 \<Rightarrow> nat \<Rightarrow> nat list \<Rightarrow> nat \<Rightarrow> bool" where
  "right_victim e s w t c js i \<longleftrightarrow>
     (if \<exists>j\<in>set js. overtakes e s w t j
      then i \<in> set js \<and> overtakes e s w t i
        \<and> (\<forall>j\<in>set js. overtakes e s w t j \<longrightarrow> f32_key (threat_of w j) \<le> f32_key (threat_of w i))
      else i = c)"

lemma right_victim_Cons: "\<not> overtakes e s w t i \<Longrightarrow> right_victim e s w t c js j \<Longrightarrow> right_victim e s w t c (i # js) j"
  by (auto simp: right_victim_def split: if_splits)

lemma right_victim_head:
  assumes "overtakes e s w t i" "sorted (map (\<lambda>i. - f32_key (threat_of w i)) (i # js))"
  shows "right_victim e s w t c (i # js) i"
  using assms by (auto simp: right_victim_def)

lemma right_victim_none:
  assumes "sorted (map (\<lambda>i. - f32_key (threat_of w i)) (i # js))" "f32_key (threat_of w i) \<le> f32_key (f32_mul fl_1_1 t)"
  shows "right_victim e s w t c (i # js) c"
proof -
  have "f32_key (threat_of w j) \<le> f32_key (f32_mul fl_1_1 t)" if "j \<in> set (i # js)" for j using assms that by fastforce
  then have "\<not> overtakes e s w t j" if "j \<in> set (i # js)" for j
    using that by (fastforce simp: overtakes_def threat_of_def f32_lt_def split: option.splits)
  then show ?thesis unfolding right_victim_def by meson
qed

lemma select_pass_right:
  assumes ok: "threat_ok w" and c: "tw_refs w c = Some rc" "te_can_attack e s (hr_guid rc)"
    and le: "f32_le (hr_threat rc) (f32_mul fl_1_1 (hr_threat rc))"
    and first: "\<And>i r. i \<in> set js \<Longrightarrow> tw_refs w i = Some r \<Longrightarrow> \<not> te_second_choice e s (hr_guid r)"
    and js: "\<forall>i\<in>set js. live w i" "c \<in> set js" "sorted (map (\<lambda>i. - f32_key (threat_of w i)) js)"
  shows "\<exists>i. select_pass e s w again js (Some c) = Inr (Picked i) \<and> right_victim e s w (hr_threat rc) c js i"
  using js first
proof (induction js)
  case (Cons i js)
  have "live w i" using Cons.prems by simp
  from live_ref [OF ok this] obtain r where r: "tw_refs w i = Some r" "hr_to r = Some (hr_guid r)" by blast
  from live_ref [OF ok, of c] c(1) have rc: "hr_to rc = Some (hr_guid rc)" by (auto simp: live_def)
  have here: "\<not> te_second_choice e s (hr_guid r)" "threat_of w i = hr_threat r" using Cons.prems(4) [of i r] r by (simp_all add: threat_of_def)
  have later: ?case if "select_pass e s w again (i # js) (Some c) = select_pass e s w again js (Some c)" "i \<noteq> c"
    "\<not> overtakes e s w (hr_threat rc) i"
  proof -
    have "\<exists>j. select_pass e s w again js (Some c) = Inr (Picked j) \<and> right_victim e s w (hr_threat rc) c js j"
    proof (rule Cons.IH)
      show "\<not> te_second_choice e s (hr_guid q)" if "j \<in> set js" "tw_refs w j = Some q" for j q
        using Cons.prems(4) [of j q] that by simp
    qed (use Cons.prems(1-3) that(2) in auto)
    then obtain j where "select_pass e s w again js (Some c) = Inr (Picked j)" "right_victim e s w (hr_threat rc) c js j" by blast
    with that(1) right_victim_Cons [OF that(3)] show ?thesis by metis
  qed
  let ?low = "i = c \<or> f32_le (hr_threat r) (f32_mul fl_1_1 (hr_threat rc))"
  consider (away) "\<not> te_can_attack e s (hr_guid r)" | (low) "te_can_attack e s (hr_guid r)" ?low
    | (over) "te_can_attack e s (hr_guid r)" "\<not> ?low" "overtakes e s w (hr_threat rc) i"
    | (pass) "te_can_attack e s (hr_guid r)" "\<not> ?low" "\<not> overtakes e s w (hr_threat rc) i" by blast
  then show ?case
  proof cases
    case away
    with r here c have "select_pass e s w again (i # js) (Some c) = select_pass e s w again js (Some c)" "i \<noteq> c" by auto
    with away r show ?thesis by (intro later) (simp_all add: overtakes_def)
  next
    case low
    have "f32_key (threat_of w i) \<le> f32_key (f32_mul fl_1_1 (hr_threat rc))"
      using low(2) le r c(1) here(2) by (auto simp: f32_le_def)
    from right_victim_none [OF Cons.prems(3) this] have "right_victim e s w (hr_threat rc) c (i # js) c" .
    with low r rc c here(1) show ?thesis by auto
  next
    case over
    with r c here have "select_pass e s w again (i # js) (Some c) = Inr (Picked i)" by (auto simp: overtakes_def)
    with right_victim_head [OF over(3) Cons.prems(3)] show ?thesis by blast
  next
    case pass
    have "f32_lt (f32_mul fl_1_1 (hr_threat rc)) (hr_threat r)" if "f32_lt (f32_mul fl_1_3 (hr_threat rc)) (hr_threat r)"
      using pass(2) le that by (auto simp: f32_lt_def f32_le_def)
    with pass r have "\<not> f32_lt (f32_mul fl_1_3 (hr_threat rc)) (hr_threat r)"
      "\<not> (f32_lt (f32_mul fl_1_1 (hr_threat rc)) (hr_threat r) \<and> te_melee e s (hr_guid r))" by (auto simp: overtakes_def)
    with pass r c here show ?thesis by (intro later) auto
  qed
qed simp

section \<open>Properties\<close>

text \<open>
  C32: The references and the lists agree in every reachable world. A reference that has not been freed comes
  from a creature and points to the unit whose guid it holds, is in the online or in the offline
  list of the creature according to its flag, and in the list of the unit; the lists hold nothing
  else and nothing twice. The current victim is an online reference of its creature, and a
  creature has one reference for a unit. No call reads a freed reference.
\<close>

theorem threat_references_consistent:
  assumes "threat_reach w"
  shows "(\<forall>i r. tw_refs w i = Some r \<longrightarrow> (\<exists>s. hr_from r = Some s \<and> \<not> IS_PLAYER_GUID s \<and> hr_to r = Some (hr_guid r)
        \<and> i \<in> set (tw_hated w (hr_guid r)) \<and> i \<in> set (if hr_online r then onl w s else offl w s)))
    \<and> (\<forall>s. distinct (onl w s @ offl w s) \<and> (\<forall>i\<in>set (onl w s @ offl w s). map_option hr_from (tw_refs w i) = Some (Some s)))
    \<and> (\<forall>u. distinct (tw_hated w u) \<and> (\<forall>i\<in>set (tw_hated w u). map_option hr_to (tw_refs w i) = Some (Some u)))
    \<and> (\<forall>s c. victim w s = Some c \<longrightarrow> c \<in> set (onl w s))
    \<and> (\<forall>i j q r. tw_refs w i = Some q \<longrightarrow> tw_refs w j = Some r \<longrightarrow> hr_from q = hr_from r \<longrightarrow> hr_guid q = hr_guid r \<longrightarrow> i = j)
    \<and> (\<forall>n f e c err. run_call n f e c w = Inl err \<longrightarrow> err = OutOfFuel)"
proof (intro conjI allI)
  note ok = reach_ok [OF assms] and l = ok_lists [OF reach_ok [OF assms]]
  fix i j s c u n f e err q r
  show "tw_refs w i = Some r \<longrightarrow> (\<exists>s. hr_from r = Some s \<and> \<not> IS_PLAYER_GUID s \<and> hr_to r = Some (hr_guid r)
        \<and> i \<in> set (tw_hated w (hr_guid r)) \<and> i \<in> set (if hr_online r then onl w s else offl w s))"
  proof
    assume r: "tw_refs w i = Some r"
    from ok_ref [OF ok r] obtain s where "hr_from r = Some s" "\<not> IS_PLAYER_GUID s" "hr_to r = Some (hr_guid r)" by blast
    with r l(4-6) show "\<exists>s. hr_from r = Some s \<and> \<not> IS_PLAYER_GUID s \<and> hr_to r = Some (hr_guid r)
        \<and> i \<in> set (tw_hated w (hr_guid r)) \<and> i \<in> set (if hr_online r then onl w s else offl w s)"
      by (simp add: ref_views)
  qed
  show "distinct (onl w s @ offl w s)" using l(1,2,4,5) by auto
  show "\<forall>i\<in>set (onl w s @ offl w s). map_option hr_from (tw_refs w i) = Some (Some s)"
    using l(4,5) by (auto simp: src_def bind_eq_Some_conv)
  show "distinct (tw_hated w u)" by (rule l(3))
  show "\<forall>i\<in>set (tw_hated w u). map_option hr_to (tw_refs w i) = Some (Some u)"
    using l(6) by (auto simp: dst_def bind_eq_Some_conv)
  show "victim w s = Some c \<longrightarrow> c \<in> set (onl w s)" using l(7) by blast
  show "tw_refs w i = Some q \<longrightarrow> tw_refs w j = Some r \<longrightarrow> hr_from q = hr_from r \<longrightarrow> hr_guid q = hr_guid r \<longrightarrow> i = j"
  proof (intro impI)
    assume q: "tw_refs w i = Some q" and r: "tw_refs w j = Some r" "hr_from q = hr_from r" "hr_guid q = hr_guid r"
    from ok_ref [OF ok q] obtain s where "hr_from q = Some s" by blast
    with r(2) have "hr_from r = Some s" by simp
    with q r have "src w i \<noteq> None \<and> src w i = src w j \<and> gid w i = gid w j" by (simp add: src_def gid_def)
    with l(8) [of i j] show "i = j" by blast
  qed
next
  fix n f e c err
  from run_call_sound [OF reach_ok [OF assms], of True n e c f]
  show "run_call n f e c w = Inl err \<longrightarrow> err = OutOfFuel" by auto
qed

theorem threat_references_consistent_witness:
  "(\<exists>r. tw_refs pulled 1 = Some r \<and> hr_guid r = 8 \<and> 1 \<in> set (tw_hated pulled 8)) \<and> (0::nat) \<in> set (onl pulled boar)"
proof -
  note c = threat_references_consistent [OF pulled_reach]
  from pulled_state(7) obtain r where r: "tw_refs pulled 1 = Some r" "hr_guid r = 8" by auto
  with c have "1 \<in> set (tw_hated pulled 8)" by fastforce
  moreover have "(0::nat) \<in> set (onl pulled boar)" using c pulled_state(2) by blast
  ultimately show ?thesis using r by blast
qed

text \<open>
  C35: Every call returns when the bound covers the owners: if the chain of owners of every unit has at most
  \<open>n\<close> units, a call that does not reset the threat of a whole list gives a world. The threat that an owner
  gets is never redirected further, so that redirections do not make the recursion longer.
\<close>

theorem threat_calls_return:
  assumes "threat_reach w" "\<And>u. \<not> owners_beyond e n u" "\<not> resets_threat c"
  shows "\<exists>w'. run_call n f e c w = Inr w' \<and> threat_reach w'"
proof -
  have "enough False n e" using assms(2) by (simp add: enough_def)
  with run_call_sound [OF reach_ok [OF assms(1)], of False n e c f] assms(3) obtain w' where "run_call n f e c w = Inr w'"
    by (cases "run_call n f e c w") simp_all
  with threat_reach.Call [OF assms(1)] show ?thesis by blast
qed

text \<open>A pet, unit 9, of player 7.\<close>

theorem threat_calls_return_witness:
  "\<exists>w'. run_call 2 0 (open_field\<lparr>te_owner := (\<lambda>u. if u = 9 then Some 7 else None)\<rparr>) (CallAdd boar 9 0x42C80000 1 None) pulled = Inr w'
     \<and> threat_reach w'"
  by (rule threat_calls_return [OF pulled_reach]) (simp_all add: numeral_2_eq_2)

text \<open>
  C33: When a unit dies or is deleted, exactly the references from it and to it are freed: the rest of the world
  keeps its references as they are, in the lists of the living.
\<close>

theorem dead_units_are_forgotten:
  assumes "threat_reach w" "c = CallDies u \<or> c = CallUnitDeleted u"
  shows "\<exists>w'. run_call n f e c w = Inr w' \<and> onl w' u = [] \<and> offl w' u = [] \<and> victim w' u = None \<and> tw_hated w' u = []
    \<and> (\<forall>i. tw_refs w' i = (case tw_refs w i of None \<Rightarrow> None
          | Some r \<Rightarrow> if hr_from r = Some u \<or> hr_to r = Some u then None else Some r))
    \<and> (\<forall>s i. i \<in> set (onl w' s) \<longleftrightarrow> i \<in> set (onl w s) \<and> s \<noteq> u \<and> map_option hr_to (tw_refs w i) \<noteq> Some (Some u))"
proof -
  note ok = reach_ok [OF assms(1)]
  let ?D = "{i. src w i = Some u \<or> dst w i = Some u}"
  from unit_dies_ok [OF ok, of e u] delete_unit_ok [OF ok, of u] assms(2)
  obtain w' where w': "run_call n f e c w = Inr w'" "threat_ok w'" "without ?D w w'" by auto
  note l = ok_lists [OF ok] and l' = ok_lists [OF w'(2)] and v = without_views [OF w'(3)]
  have gone: "src w' i \<noteq> Some u" "dst w' i \<noteq> Some u" for i using v(1,2) [of i] by auto
  have empty: "onl w' u = []" "offl w' u = []" "tw_hated w' u = []"
    using l'(4-6) [of _ u] gone by (metis list.set_intros(1) neq_Nil_conv)+
  moreover have "victim w' u = None" using l'(7) [of u] empty(1) by (cases "victim w' u") auto
  moreover have "tw_refs w' i = (case tw_refs w i of None \<Rightarrow> None
      | Some r \<Rightarrow> if hr_from r = Some u \<or> hr_to r = Some u then None else Some r)" for i
    using w'(3) by (auto simp: without_def src_def dst_def split: option.split)
  moreover have "i \<in> set (onl w' s) \<longleftrightarrow> i \<in> set (onl w s) \<and> s \<noteq> u \<and> map_option hr_to (tw_refs w i) \<noteq> Some (Some u)" for s i
  proof -
    have "dst w i = Some u \<longleftrightarrow> map_option hr_to (tw_refs w i) = Some (Some u)" by (auto simp: dst_def bind_eq_Some_conv)
    then show ?thesis using l(4) [of i s] l'(4) [of i s] v(1,4) [of i] by auto
  qed
  ultimately show ?thesis using w'(1) by blast
qed

theorem dead_units_are_forgotten_witness:
  "\<exists>w'. run_call 1 0 open_field (CallDies 7) pulled = Inr w' \<and> tw_refs w' 0 = None \<and> tw_refs w' 1 = tw_refs pulled 1
     \<and> (1::nat) \<in> set (onl w' boar)"
proof -
  obtain q r where q: "tw_refs pulled 0 = Some q" "hr_guid q = 7" and r: "tw_refs pulled 1 = Some r" "hr_guid r = 8"
    using pulled_state(5,7) by auto
  have to: "hr_to q = Some 7" "hr_to r = Some 8" "hr_from r = Some boar"
    using ok_ref [OF reach_ok [OF pulled_reach] q(1)] ok_ref [OF reach_ok [OF pulled_reach] r(1)] q(2) r(2)
      ok_lists(4) [OF reach_ok [OF pulled_reach], of 1 boar] pulled_state(1) r(1) by (auto simp: src_def)
  have "boar \<noteq> 7" by (simp add: boar_def)
  with dead_units_are_forgotten [OF pulled_reach disjI1, OF refl, of 1 0 open_field 7] q r to pulled_state(1)
  show ?thesis by fastforce
qed

text \<open>
  C34: Whom a creature attacks when its list is in order, or is marked to be sorted, its current
  victim can be attacked and nobody is a target of second choice: it keeps the victim unless
  somebody overtakes it (more than 110 percent of the victim's threat in melee range, more than 130
  percent elsewhere); then it goes for the one with the most threat among those. The bound of 110
  percent has to be no less than the victim's threat, which a negative threat violates. The
  lemma \<open>stale_order_keeps_victim\<close> below shows that the order of the list matters.
\<close>

theorem victim_is_kept_or_overtaken:
  assumes "threat_reach w" "tm_dirty (tw_mgr w s) \<or> sorted (map (\<lambda>i. - f32_key (threat_of w i)) (onl w s))"
    and "victim w s = Some c" "tw_refs w c = Some rc"
    and "te_can_attack e s (hr_guid rc)" "\<And>u. \<not> te_second_choice e s u"
    and "f32_le (hr_threat rc) (f32_mul fl_1_1 (hr_threat rc))"
  shows "\<exists>i r w'. getHostilTarget e s w = Inr (Some (hr_guid r), w') \<and> tw_refs w i = Some r \<and> victim w' s = Some i
    \<and> (if \<exists>j\<in>set (onl w s). overtakes e s w (hr_threat rc) j
       then i \<in> set (onl w s) \<and> overtakes e s w (hr_threat rc) i
         \<and> (\<forall>j\<in>set (onl w s). overtakes e s w (hr_threat rc) j \<longrightarrow> f32_key (threat_of w j) \<le> f32_key (threat_of w i))
       else i = c)"
proof -
  note ok = reach_ok [OF assms(1)]
  from container_update_ok [OF ok, of s] obtain w1 where w1: "container_update s w = Inr w1" "threat_ok w1" "tw_refs w1 = tw_refs w"
    "set (onl w1 s) = set (onl w s)" "victim w1 s = victim w s"
    "onl w1 s = (if tm_dirty (tw_mgr w s) then sort_key (\<lambda>i. - f32_key (threat_of w i)) (onl w s) else onl w s)" by auto
  have same: "threat_of w1 = threat_of w" "overtakes e s w1 t = overtakes e s w t" for t
    using w1(3) by (simp_all add: fun_eq_iff threat_of_def overtakes_def)
  have living: "\<forall>i\<in>set (onl w1 s). live w1 i" using list_live(1) [OF w1(2)] by blast
  have c1: "tw_refs w1 c = Some rc" "c \<in> set (onl w1 s)"
    "sorted (map (\<lambda>i. - f32_key (threat_of w1 i)) (onl w1 s))"
    using assms(2-4) w1 ok_lists(7) [OF ok assms(3)] by (simp_all add: same(1) split: if_splits)
  from select_pass_right [OF w1(2) c1(1) assms(5,7) assms(6) living c1(2,3)] obtain i where
    i: "select_pass e s w1 False (onl w1 s) (Some c) = Inr (Picked i)" "right_victim e s w1 (hr_threat rc) c (onl w1 s) i" by blast
  have "i \<in> set (onl w1 s)" using i(2) c1(2) by (auto simp: right_victim_def split: if_splits)
  with setCurrentVictim_ok [OF w1(2), of "Some i" s] obtain w2 where
    w2: "setCurrentVictim s (Some i) w1 = Inr w2" "threat_ok w2" "tw_refs w2 = tw_refs w1" "victim w2 s = Some i" by auto
  from victim_live [OF w2(2,4)] live_ref [OF w2(2)] obtain r where r: "tw_refs w2 i = Some r" "hr_to r = Some (hr_guid r)" by blast
  have "getHostilTarget e s w = Inr (Some (hr_guid r), w2)"
    using w1(1,5) i(1) w2(1,4) r assms(3) by (simp add: getHostilTarget_def selectNextVictim_def)
  moreover have "tw_refs w i = Some r" using r(1) w2(3) w1(3) by simp
  ultimately show ?thesis using w2(4) i(2) w1(4) unfolding right_victim_def same by metis
qed

text \<open>120 against 100: player 8, in melee range, overtakes player 7.\<close>

theorem victim_is_kept_or_overtaken_witness:
  "\<exists>w'. getHostilTarget open_field boar pulled = Inr (Some 8, w') \<and> victim w' boar = Some 1"
proof -
  obtain rc where rc: "tw_refs pulled 0 = Some rc" "hr_threat rc = 0x42C80000" "hr_guid rc = 7" using pulled_state(4,5) by auto
  obtain q where q: "tw_refs pulled 1 = Some q" "hr_threat q = 0x42F00000" "hr_guid q = 8" using pulled_state(6,7) by auto
  have f: "f32_le 0x42C80000 (f32_mul fl_1_1 0x42C80000)" "f32_lt (f32_mul fl_1_1 0x42C80000) 0x42F00000"
    "\<not> f32_lt (f32_mul fl_1_1 0x42C80000) 0x42C80000" by code_simp+
  have over: "overtakes open_field boar pulled (hr_threat rc) 1" "\<not> overtakes open_field boar pulled (hr_threat rc) 0"
    using rc q f by (simp_all add: overtakes_def)
  from victim_is_kept_or_overtaken [OF pulled_reach disjI1 [OF pulled_state(3)] pulled_state(2) rc(1), of open_field] f(1) rc(2)
  obtain i r w' where i: "getHostilTarget open_field boar pulled = Inr (Some (hr_guid r), w')" "tw_refs pulled i = Some r" "victim w' boar = Some i"
    and ch: "if \<exists>j\<in>set (onl pulled boar). overtakes open_field boar pulled (hr_threat rc) j
       then i \<in> set (onl pulled boar) \<and> overtakes open_field boar pulled (hr_threat rc) i
         \<and> (\<forall>j\<in>set (onl pulled boar). overtakes open_field boar pulled (hr_threat rc) j \<longrightarrow> f32_key (threat_of pulled j) \<le> f32_key (threat_of pulled i))
       else i = 0" by auto
  have "i = 1" using ch over by (auto simp: pulled_state(1) split: if_splits)
  with i q show ?thesis by auto
qed

text \<open>
  Why the order matters: while everybody is out of melee range, player 9 joins with 125 and stands
  first in the list; then half of that threat is taken away, which does not mark the list. When all come
  into melee range, player 8 with 120 overtakes player 7 with 100, but the boar stops at player 9
  and keeps player 7.
\<close>

definition at_range :: threat_env where
  "at_range = open_field\<lparr>te_melee := (\<lambda>u v. False)\<rparr>"

definition shaken :: threat_world where
  "shaken = pulled\<lparr>tw_refs := (tw_refs pulled)
       (2 \<mapsto> \<lparr>hr_to = Some 9, hr_from = Some boar, hr_threat = 0x427A0000, hr_temp = 0, hr_guid = 9, hr_online = True, hr_access = True\<rparr>),
     tw_count := 3,
     tw_mgr := (tw_mgr pulled)
       (boar := \<lparr>tm_victim = Some 0, tm_timer = 1000, tm_online = [2, 1, 0], tm_dirty = False, tm_offline = []\<rparr>),
     tw_hated := (tw_hated pulled)(9 := [2])\<rparr>"

lemma shaken_floats:
  "f32_add 0 0x42FA0000 = 0x42FA0000" "f32_eq 0x42FA0000 0 = False" "f32_lt 0 0x42FA0000" "f32_le 0 0x42FA0000"
  "\<not> f32_le 0x42FA0000 (f32_mul fl_1_1 0x42C80000)" "\<not> f32_lt (f32_mul fl_1_3 0x42C80000) 0x42FA0000"
  "\<not> f32_le 0x42F00000 (f32_mul fl_1_1 0x42C80000)" "\<not> f32_lt (f32_mul fl_1_3 0x42C80000) 0x42F00000"
  "f32_le 0x427A0000 (f32_mul fl_1_1 0x42C80000)" "f32_lt (f32_mul fl_1_1 0x42C80000) 0x42F00000"
  "\<not> f32_key 0x42FA0000 \<le> f32_key 0x42F00000" "\<not> f32_key 0x42F00000 \<le> f32_key 0x42C80000"
  "\<not> f32_key 0x42FA0000 \<le> f32_key 0x42C80000" "f32_sub 0x427A0000 0x42FA0000 = 0xC27A0000"
  "f32_div (f32_mul 0x42FA0000 (f32_of_int (- 50))) fl_100 = 0xC27A0000" "f32_add 0x42FA0000 0xC27A0000 = 0x427A0000"
  "\<not> f32_le 0 0xC27A0000" "\<not> f32_lt 0 0xC27A0000" "f32_eq 0xC27A0000 0 = False"
  by code_simp+

lemma more_players [simp]: "boar \<noteq> 9" "9 \<noteq> boar"
  by code_simp+

lemma at_range_simps [simp]:
  "te_owner at_range u = None" "te_alive at_range u" "\<not> te_gm at_range u" "te_same_map at_range u v" "te_same_phase at_range u v"
  "\<not> te_second_choice at_range u v" "te_can_attack at_range u v" "\<not> te_totem at_range u" "\<not> te_player_summon at_range u"
  "te_reduced at_range u = 0" "\<not> te_threat_aura at_range u" "\<not> te_melee at_range u v"
  by (simp_all add: at_range_def)

lemma shaken_run:
  "run_calls 1 0 at_range [CallAdd boar 9 0x42FA0000 1 None, CallGetTarget boar, CallModifyPercent boar 9 (- 50)] pulled = Inr shaken"
  by (simp add: pulled_def shaken_def threat_eval pull_floats shaken_floats eval_nat_numeral threat_of_def modifyThreatPercent_def
      AddThreatPercent_def)

lemma stale_order_keeps_victim:
  "threat_reach shaken \<and> victim shaken boar = Some 0 \<and> map_option hr_guid (tw_refs shaken 0) = Some 7
    \<and> 1 \<in> set (onl shaken boar) \<and> overtakes open_field boar shaken (threat_of shaken 0) 1
    \<and> map_option fst (case getHostilTarget open_field boar shaken of Inl err \<Rightarrow> None | Inr x \<Rightarrow> Some x) = Some (Some 7)"
proof -
  have "threat_reach shaken" using reach_calls [OF shaken_run pulled_reach] .
  then show ?thesis
    by (simp add: shaken_def pulled_def threat_eval shaken_floats overtakes_def threat_of_def)
qed

end
