(* ===== verification/Arena_Team.thy ===== *)
theory Arena_Team
  imports World_Packet Guid_Types Std_Map Float32
begin

text \<open>
  Arena teams: \<open>src/src/server/game/Battlegrounds/ArenaTeam.cpp\<close>, \<open>ArenaTeamMgr.cpp\<close>, the handlers of
  \<open>Handlers/ArenaTeamHandler.cpp\<close>, the end of a petition in \<open>PetitionsHandler.cpp\<close>, and the functions
  of \<open>Player.cpp\<close> on teams. The teams of the manager, the fields of the players and the three
  tables of the database are one world. Statements are executed at once, in their order.
\<close>

section \<open>Data\<close>

definition ARENA_TEAM_2v2 :: u8 where "ARENA_TEAM_2v2 = 2"
definition ARENA_TEAM_3v3 :: u8 where "ARENA_TEAM_3v3 = 3"
definition ARENA_TEAM_5v5 :: u8 where "ARENA_TEAM_5v5 = 5"
definition MAX_ARENA_SLOT :: u8 where "MAX_ARENA_SLOT = 3"

record arena_member =
  am_guid :: u64
  am_name :: string
  am_class :: u8
  am_weekGames :: u16
  am_weekWins :: u16
  am_seasonGames :: u16
  am_seasonWins :: u16
  am_rating :: u16
  am_mmr :: u16

record arena_stats =
  as_rating :: u16
  as_weekGames :: u16
  as_weekWins :: u16
  as_seasonGames :: u16
  as_seasonWins :: u16
  as_rank :: u32

record arena_team =
  at_id :: u32
  at_type :: u8
  at_name :: string
  at_captain :: u64
  at_background :: u32
  at_emblemStyle :: u8
  at_emblemColor :: u32
  at_borderStyle :: u8
  at_borderColor :: u32
  at_members :: "arena_member list"
  at_stats :: arena_stats

datatype info_field = ARENA_TEAM_ID | INFO_TYPE | INFO_MEMBER | INFO_GAMES_WEEK | INFO_GAMES_SEASON | INFO_WINS_SEASON | INFO_RATING

text \<open>The fields in the order of their numbers.\<close>

definition info_fields :: "info_field list" where
  "info_fields = [ARENA_TEAM_ID, INFO_TYPE, INFO_MEMBER, INFO_GAMES_WEEK, INFO_GAMES_SEASON, INFO_WINS_SEASON, INFO_RATING]"

section \<open>The database\<close>

text \<open>A row of \<open>arena_team\<close> has the columns of a team without its members; the guid of the captain is short.\<close>

record team_row =
  tr_id :: u32
  tr_name :: string
  tr_captain :: u32
  tr_type :: u8
  tr_background :: u32
  tr_emblemStyle :: u8
  tr_emblemColor :: u32
  tr_borderStyle :: u8
  tr_borderColor :: u32
  tr_stats :: arena_stats

record member_row =
  mr_team :: u32
  mr_guid :: u32
  mr_weekGames :: u16
  mr_weekWins :: u16
  mr_seasonGames :: u16
  mr_seasonWins :: u16
  mr_rating :: u16

record arena_db =
  db_teams :: "team_row list"
  db_members :: "member_row list"
  db_mmr :: "((u32 \<times> u8) \<times> u16) list"

text \<open>
  The values that the tables give to columns an insertion does not name are not under \<open>src\<close>:
  they are arguments.
\<close>

record arena_defaults =
  df_stats :: "u16 \<Rightarrow> arena_stats"
  df_member :: "u32 \<Rightarrow> u32 \<Rightarrow> member_row"

datatype arena_stmt =
    INS_ARENA_TEAM u32 string u32 u8 u16 u32 u8 u32 u8 u32
  | INS_ARENA_TEAM_MEMBER u32 u32
  | DEL_ARENA_TEAM u32
  | DEL_ARENA_TEAM_MEMBERS u32
  | DEL_ARENA_TEAM_MEMBER u32 u32
  | UPD_ARENA_TEAM_NAME string u32
  | UPD_ARENA_TEAM_CAPTAIN u32 u32
  | UPD_ARENA_TEAM_STATS arena_stats u32
  | UPD_ARENA_TEAM_MEMBER u16 u16 u16 u16 u16 u32 u32
  | REP_CHARACTER_ARENA_STATS u32 u8 u16
  | UPD_ADD_CHAR_ARENA_POINTS u32 u32
  | UPD_CHAR_ARENA_POINTS u32 u32
  | DEL_ORPHANED_MEMBERS
  | DEL_PETITION_BY_GUID u32
  | DEL_PETITION_SIGNATURE_BY_GUID u32

text \<open>An insertion of a row whose key is there has no effect. Characters and petitions are not in these tables.\<close>

fun db_exec :: "arena_defaults \<Rightarrow> arena_stmt \<Rightarrow> arena_db \<Rightarrow> arena_db" where
  "db_exec d (INS_ARENA_TEAM i name captain type rating bg es ec bs bc) db =
     (if i \<in> set (map tr_id (db_teams db)) then db
      else db\<lparr>db_teams := db_teams db @ [\<lparr>tr_id = i, tr_name = name, tr_captain = captain, tr_type = type, tr_background = bg,
        tr_emblemStyle = es, tr_emblemColor = ec, tr_borderStyle = bs, tr_borderColor = bc, tr_stats = df_stats d rating\<rparr>]\<rparr>)"
| "db_exec d (INS_ARENA_TEAM_MEMBER i g) db =
     (if \<exists>r\<in>set (db_members db). mr_team r = i \<and> mr_guid r = g then db
      else db\<lparr>db_members := db_members db @ [(df_member d i g)\<lparr>mr_team := i, mr_guid := g\<rparr>]\<rparr>)"
| "db_exec d (DEL_ARENA_TEAM i) db = db\<lparr>db_teams := filter (\<lambda>r. tr_id r \<noteq> i) (db_teams db)\<rparr>"
| "db_exec d (DEL_ARENA_TEAM_MEMBERS i) db = db\<lparr>db_members := filter (\<lambda>r. mr_team r \<noteq> i) (db_members db)\<rparr>"
| "db_exec d (DEL_ARENA_TEAM_MEMBER i g) db =
     db\<lparr>db_members := filter (\<lambda>r. \<not> (mr_team r = i \<and> mr_guid r = g)) (db_members db)\<rparr>"
| "db_exec d (UPD_ARENA_TEAM_NAME name i) db =
     db\<lparr>db_teams := map (\<lambda>r. if tr_id r = i then r\<lparr>tr_name := name\<rparr> else r) (db_teams db)\<rparr>"
| "db_exec d (UPD_ARENA_TEAM_CAPTAIN g i) db =
     db\<lparr>db_teams := map (\<lambda>r. if tr_id r = i then r\<lparr>tr_captain := g\<rparr> else r) (db_teams db)\<rparr>"
| "db_exec d (UPD_ARENA_TEAM_STATS st i) db =
     db\<lparr>db_teams := map (\<lambda>r. if tr_id r = i then r\<lparr>tr_stats := st\<rparr> else r) (db_teams db)\<rparr>"
| "db_exec d (UPD_ARENA_TEAM_MEMBER rating wg ww sg sw i g) db =
     db\<lparr>db_members := map (\<lambda>r. if mr_team r = i \<and> mr_guid r = g
        then r\<lparr>mr_rating := rating, mr_weekGames := wg, mr_weekWins := ww, mr_seasonGames := sg, mr_seasonWins := sw\<rparr> else r) (db_members db)\<rparr>"
| "db_exec d (REP_CHARACTER_ARENA_STATS g slot mmr) db = db\<lparr>db_mmr := ((g, slot), mmr) # filter (\<lambda>e. fst e \<noteq> (g, slot)) (db_mmr db)\<rparr>"
| "db_exec d (UPD_ADD_CHAR_ARENA_POINTS points g) db = db"
| "db_exec d (UPD_CHAR_ARENA_POINTS points g) db = db"
| "db_exec d DEL_ORPHANED_MEMBERS db = db\<lparr>db_members := filter (\<lambda>r. mr_team r \<in> set (map tr_id (db_teams db))) (db_members db)\<rparr>"
| "db_exec d (DEL_PETITION_BY_GUID i) db = db"
| "db_exec d (DEL_PETITION_SIGNATURE_BY_GUID i) db = db"

text \<open>\<open>CHAR_SEL_ARENA_TEAM_ID_BY_PLAYER_GUID\<close>, \<open>CHAR_SEL_PLAYER_ARENA_TEAMS\<close>, \<open>CHAR_SEL_MATCH_MAKER_RATING\<close>.\<close>

definition teams_of_player :: "arena_db \<Rightarrow> u32 \<Rightarrow> team_row list" where
  "teams_of_player db g = concat (map (\<lambda>r. if mr_guid r = g then filter (\<lambda>t. tr_id t = mr_team r) (db_teams db) else []) (db_members db))"

definition GetArenaTeamIdFromDB :: "arena_db \<Rightarrow> u64 \<Rightarrow> u8 \<Rightarrow> u32" where
  "GetArenaTeamIdFromDB db guid type = (case filter (\<lambda>t. tr_type t = type) (teams_of_player db (GUID_LOPART guid)) of
     [] \<Rightarrow> 0 | t # ts \<Rightarrow> tr_id t)"

section \<open>The world\<close>

datatype arena_event =
    ArenaSend u64 packet
  | ArenaStmt arena_stmt
  | ArenaTrans "arena_stmt list"
  | ArenaAchievement u64 u32 u32 u32
  | RemovePetitions u64 u8
  | DestroyCharter u64 u64
  | GuildCharter u64 u64
  | KnownCurrency u64
  | ArenaText u32
  | ArenaStop
  | FieldOutOfRange u64

record arena_world =
  aw_store :: "(u32, arena_team) smap"
  aw_next :: u32
  aw_info :: "u64 \<Rightarrow> u8 \<Rightarrow> info_field \<Rightarrow> u32"
  aw_invited :: "u64 \<Rightarrow> u32"
  aw_points :: "u64 \<Rightarrow> u32"
  aw_db :: arena_db
  aw_out :: "arena_event list"

record arena_env =
  ae_defaults :: arena_defaults
  ae_online :: "u64 \<Rightarrow> bool"
  ae_connected :: "u64 \<Rightarrow> bool"
  ae_max_points :: u32
  ae_name :: "u64 \<Rightarrow> string"
  ae_class :: "u64 \<Rightarrow> u8"
  ae_level :: "u64 \<Rightarrow> u8"
  ae_character :: "u32 \<Rightarrow> (string \<times> u8) option"
  ae_start_rating :: u32
  ae_start_personal :: u32
  ae_start_mmr :: u32
  ae_season :: u32
  ae_max_level :: u32
  ae_two_side :: bool
  ae_faction :: "u64 \<Rightarrow> u32"
  ae_ignores :: "u64 \<Rightarrow> u32 \<Rightarrow> bool"
  ae_find_name :: "string \<Rightarrow> u64 option"
  ae_normalize :: "string \<Rightarrow> string option"
  ae_name_allowed :: "string \<Rightarrow> bool"
  ae_in_arena :: "u64 \<Rightarrow> bool"
  ae_arena_map :: "u64 \<Rightarrow> bool"
  ae_charter :: "u64 \<Rightarrow> u64 \<Rightarrow> bool"
  ae_petition :: "u32 \<Rightarrow> (u32 \<times> string \<times> u8) option"
  ae_signers :: "u32 \<Rightarrow> u32 list"
  ae_inspects :: "u64 \<Rightarrow> u64 \<Rightarrow> bool"
  ae_chance :: "u32 \<Rightarrow> u32 \<Rightarrow> f32"
  ae_curve :: "u32 \<Rightarrow> f32"

definition arena_emit :: "arena_event \<Rightarrow> arena_world \<Rightarrow> arena_world" where
  "arena_emit ev w = w\<lparr>aw_out := aw_out w @ [ev]\<rparr>"

definition arena_send :: "u64 \<Rightarrow> u16 \<Rightarrow> field list \<Rightarrow> arena_world \<Rightarrow> arena_world" where
  "arena_send p opcode fs w = arena_emit (ArenaSend p \<lparr>pk_opcode = opcode, pk_fields = fs\<rparr>) w"

definition arena_Execute :: "arena_env \<Rightarrow> arena_stmt \<Rightarrow> arena_world \<Rightarrow> arena_world" where
  "arena_Execute e st w = arena_emit (ArenaStmt st) (w\<lparr>aw_db := db_exec (ae_defaults e) st (aw_db w)\<rparr>)"

definition CommitTransaction :: "arena_env \<Rightarrow> arena_stmt list \<Rightarrow> arena_world \<Rightarrow> arena_world" where
  "CommitTransaction e sts w = arena_emit (ArenaTrans sts) (w\<lparr>aw_db := fold (db_exec (ae_defaults e)) sts (aw_db w)\<rparr>)"

section \<open>Player\<close>

text \<open>A slot that is none of the three is outside of the fields of a player: the code stops.\<close>

definition SetArenaTeamInfoField :: "u64 \<Rightarrow> u8 \<Rightarrow> info_field \<Rightarrow> u32 \<Rightarrow> arena_world \<Rightarrow> arena_world" where
  "SetArenaTeamInfoField p slot f v w = (if slot < MAX_ARENA_SLOT
     then w\<lparr>aw_info := (aw_info w)(p := (aw_info w p)(slot := (aw_info w p slot)(f := v)))\<rparr>
     else arena_emit (FieldOutOfRange p) w)"

definition SetInArenaTeam :: "u64 \<Rightarrow> u32 \<Rightarrow> u8 \<Rightarrow> u8 \<Rightarrow> arena_world \<Rightarrow> arena_world" where
  "SetInArenaTeam p i slot type w = SetArenaTeamInfoField p slot INFO_TYPE (ucast type) (SetArenaTeamInfoField p slot ARENA_TEAM_ID i w)"

definition GetArenaTeamId :: "arena_world \<Rightarrow> u64 \<Rightarrow> u8 \<Rightarrow> u32" where
  "GetArenaTeamId w p slot = aw_info w p slot ARENA_TEAM_ID"

definition SetArenaTeamIdInvited :: "u64 \<Rightarrow> u32 \<Rightarrow> arena_world \<Rightarrow> arena_world" where
  "SetArenaTeamIdInvited p i w = w\<lparr>aw_invited := (aw_invited w)(p := i)\<rparr>"

section \<open>ArenaTeam\<close>

definition GetSlotByType :: "u8 \<Rightarrow> u8" where
  "GetSlotByType type = (if type = ARENA_TEAM_2v2 then 0 else if type = ARENA_TEAM_3v3 then 1
     else if type = ARENA_TEAM_5v5 then 2 else 0xFF)"

definition GetTypeBySlot :: "u8 \<Rightarrow> u32" where
  "GetTypeBySlot slot = (if slot = 0 then ucast ARENA_TEAM_2v2 else if slot = 1 then ucast ARENA_TEAM_3v3
     else if slot = 2 then ucast ARENA_TEAM_5v5 else 0xFFFFFFFF)"

abbreviation at_slot :: "arena_team \<Rightarrow> u8" where "at_slot t \<equiv> GetSlotByType (at_type t)"

definition new_arena_team :: "arena_env \<Rightarrow> arena_team" where
  "new_arena_team e = \<lparr>at_id = 0, at_type = 0, at_name = [], at_captain = 0, at_background = 0, at_emblemStyle = 0,
     at_emblemColor = 0, at_borderStyle = 0, at_borderColor = 0, at_members = [],
     at_stats = \<lparr>as_rating = ucast (ae_start_rating e), as_weekGames = 0, as_weekWins = 0, as_seasonGames = 0, as_seasonWins = 0, as_rank = 0\<rparr>\<rparr>"

definition is_arena_member :: "arena_team \<Rightarrow> u64 \<Rightarrow> bool" where
  "is_arena_member t g \<longleftrightarrow> (\<exists>m\<in>set (at_members t). am_guid m = g)"

definition member_by_guid :: "arena_team \<Rightarrow> u64 \<Rightarrow> arena_member option" where
  "member_by_guid t g = List.find (\<lambda>m. am_guid m = g) (at_members t)"

definition member_by_name :: "arena_team \<Rightarrow> string \<Rightarrow> arena_member option" where
  "member_by_name t name = List.find (\<lambda>m. am_name m = name) (at_members t)"

text \<open>The name and class of a player, online or from the database.\<close>

definition player_info :: "arena_env \<Rightarrow> u64 \<Rightarrow> (string \<times> u8) option" where
  "player_info e g = (if ae_online e g then Some (ae_name e g, ae_class e g) else ae_character e (GUID_LOPART g))"

definition new_arena_member :: "arena_env \<Rightarrow> arena_team \<Rightarrow> u64 \<Rightarrow> string \<Rightarrow> u8 \<Rightarrow> arena_world \<Rightarrow> arena_member" where
  "new_arena_member e t g name cls w =
     (let personal = (if ae_start_personal e > 0 then ae_start_personal e else if (ucast (as_rating (at_stats t)) :: u32) \<ge> 1000 then 1000 else 0);
          mmr = (case map_of (db_mmr (aw_db w)) (GUID_LOPART g, at_slot t) of Some r \<Rightarrow> ucast r | None \<Rightarrow> ae_start_mmr e)
      in \<lparr>am_guid = g, am_name = name, am_class = cls, am_weekGames = 0, am_weekWins = 0, am_seasonGames = 0, am_seasonWins = 0,
          am_rating = ucast personal, am_mmr = ucast mmr\<rparr>)"

definition arena_AddMember :: "arena_env \<Rightarrow> u64 \<Rightarrow> arena_team \<Rightarrow> arena_world \<Rightarrow> bool \<times> arena_team \<times> arena_world" where
  "arena_AddMember e g t w =
     (if length (at_members t) \<ge> unat (at_type t) * 2 then (False, t, w) else
      case player_info e g of None \<Rightarrow> (False, t, w) | Some (name, cls) \<Rightarrow>
      if (ae_online e g \<and> GetArenaTeamId w g (at_slot t) \<noteq> 0) \<or> GetArenaTeamIdFromDB (aw_db w) g (at_type t) \<noteq> 0
      then (False, t, w)
      else
        (let t1 = t\<lparr>at_members := at_members t @ [new_arena_member e t g name cls w]\<rparr>;
             w1 = arena_Execute e (INS_ARENA_TEAM_MEMBER (at_id t) (GUID_LOPART g)) (arena_emit (RemovePetitions g (at_type t)) w);
             w2 = (if ae_online e g then
                 (let w2 = SetArenaTeamIdInvited g 0 (SetInArenaTeam g (at_id t) (at_slot t) (at_type t) w1)
                  in if at_captain t \<noteq> g then SetArenaTeamInfoField g (at_slot t) INFO_MEMBER 1 w2 else w2)
               else w1)
         in (True, t1, w2)))"

definition arena_set_name :: "arena_env \<Rightarrow> string \<Rightarrow> arena_team \<Rightarrow> arena_world \<Rightarrow> bool \<times> arena_team \<times> arena_world" where
  "arena_set_name e name t w =
     (if at_name t = name \<or> name = [] \<or> length name > 24 \<or> \<not> ae_name_allowed e name then (False, t, w)
      else (True, t\<lparr>at_name := name\<rparr>, arena_Execute e (UPD_ARENA_TEAM_NAME name (at_id t)) w))"

definition SetCaptain :: "arena_env \<Rightarrow> u64 \<Rightarrow> arena_team \<Rightarrow> arena_world \<Rightarrow> arena_team \<times> arena_world" where
  "SetCaptain e g t w =
     (let w1 = (if ae_online e (at_captain t) then SetArenaTeamInfoField (at_captain t) (at_slot t) INFO_MEMBER 1 w else w);
          w2 = arena_Execute e (UPD_ARENA_TEAM_CAPTAIN (GUID_LOPART g) (at_id t)) w1;
          w3 = (if ae_online e g then SetArenaTeamInfoField g (at_slot t) INFO_MEMBER 0 w2 else w2)
      in (t\<lparr>at_captain := g\<rparr>, w3))"

definition ERR_ARENA_TEAM_CREATE_S :: u32 where "ERR_ARENA_TEAM_CREATE_S = 0x00"
definition ERR_ARENA_TEAM_INVITE_SS :: u32 where "ERR_ARENA_TEAM_INVITE_SS = 0x01"
definition ERR_ARENA_TEAM_QUIT_S :: u32 where "ERR_ARENA_TEAM_QUIT_S = 0x03"
definition ERR_ARENA_TEAM_INTERNAL :: u32 where "ERR_ARENA_TEAM_INTERNAL = 0x01"
definition ERR_ALREADY_IN_ARENA_TEAM :: u32 where "ERR_ALREADY_IN_ARENA_TEAM = 0x02"
definition ERR_ALREADY_IN_ARENA_TEAM_S :: u32 where "ERR_ALREADY_IN_ARENA_TEAM_S = 0x03"
definition ERR_ALREADY_INVITED_TO_ARENA_TEAM_S :: u32 where "ERR_ALREADY_INVITED_TO_ARENA_TEAM_S = 0x05"
definition ERR_ARENA_TEAM_NAME_EXISTS_S :: u32 where "ERR_ARENA_TEAM_NAME_EXISTS_S = 0x07"
definition ERR_ARENA_TEAM_LEADER_LEAVE_S :: u32 where "ERR_ARENA_TEAM_LEADER_LEAVE_S = 0x08"
definition ERR_ARENA_TEAM_PERMISSIONS :: u32 where "ERR_ARENA_TEAM_PERMISSIONS = 0x08"
definition ERR_ARENA_TEAM_PLAYER_NOT_IN_TEAM :: u32 where "ERR_ARENA_TEAM_PLAYER_NOT_IN_TEAM = 0x09"
definition ERR_ARENA_TEAM_PLAYER_NOT_FOUND_S :: u32 where "ERR_ARENA_TEAM_PLAYER_NOT_FOUND_S = 0x0B"
definition ERR_ARENA_TEAM_NOT_ALLIED :: u32 where "ERR_ARENA_TEAM_NOT_ALLIED = 0x0C"
definition ERR_ARENA_TEAM_TARGET_TOO_LOW_S :: u32 where "ERR_ARENA_TEAM_TARGET_TOO_LOW_S = 0x15"
definition ERR_ARENA_TEAM_TOO_MANY_MEMBERS_S :: u32 where "ERR_ARENA_TEAM_TOO_MANY_MEMBERS_S = 0x17"
definition ERR_ARENA_TEAM_JOIN_SS :: u8 where "ERR_ARENA_TEAM_JOIN_SS = 4"
definition ERR_ARENA_TEAM_LEAVE_SS :: u8 where "ERR_ARENA_TEAM_LEAVE_SS = 5"
definition ERR_ARENA_TEAM_REMOVE_SSS :: u8 where "ERR_ARENA_TEAM_REMOVE_SSS = 6"
definition ERR_ARENA_TEAM_LEADER_CHANGED_SSS :: u8 where "ERR_ARENA_TEAM_LEADER_CHANGED_SSS = 8"
definition ERR_ARENA_TEAM_DISBANDED_S :: u8 where "ERR_ARENA_TEAM_DISBANDED_S = 9"

definition SMSG_ARENA_TEAM_COMMAND_RESULT :: u16 where "SMSG_ARENA_TEAM_COMMAND_RESULT = 0x349"
definition SMSG_ARENA_TEAM_QUERY_RESPONSE :: u16 where "SMSG_ARENA_TEAM_QUERY_RESPONSE = 0x34C"
definition SMSG_ARENA_TEAM_ROSTER :: u16 where "SMSG_ARENA_TEAM_ROSTER = 0x34E"
definition SMSG_ARENA_TEAM_INVITE :: u16 where "SMSG_ARENA_TEAM_INVITE = 0x350"
definition SMSG_ARENA_TEAM_EVENT :: u16 where "SMSG_ARENA_TEAM_EVENT = 0x357"
definition SMSG_ARENA_TEAM_STATS :: u16 where "SMSG_ARENA_TEAM_STATS = 0x35B"
definition SMSG_ARENA_ERROR :: u16 where "SMSG_ARENA_ERROR = 0x376"
definition MSG_INSPECT_ARENA_TEAMS :: u16 where "MSG_INSPECT_ARENA_TEAMS = 0x377"
definition SMSG_CALENDAR_ARENA_TEAM :: u16 where "SMSG_CALENDAR_ARENA_TEAM = 0x439"

definition SendArenaTeamCommandResult :: "u64 \<Rightarrow> u32 \<Rightarrow> string \<Rightarrow> string \<Rightarrow> u32 \<Rightarrow> arena_world \<Rightarrow> arena_world" where
  "SendArenaTeamCommandResult p action team player err =
     arena_send p SMSG_ARENA_TEAM_COMMAND_RESULT [F32 action, FStr team, FStr player, F32 err]"

definition SendNotInArenaTeamPacket :: "u64 \<Rightarrow> u8 \<Rightarrow> arena_world \<Rightarrow> arena_world" where
  "SendNotInArenaTeamPacket p type = arena_send p SMSG_ARENA_ERROR [F32 0, F8 type]"

section \<open>ArenaTeam: leaving\<close>

fun erase_member :: "u64 \<Rightarrow> arena_member list \<Rightarrow> arena_member list" where
  "erase_member g [] = []"
| "erase_member g (m # ms) = (if am_guid m = g then ms else m # erase_member g ms)"

definition DelMember :: "arena_env \<Rightarrow> u64 \<Rightarrow> bool \<Rightarrow> arena_team \<Rightarrow> arena_world \<Rightarrow> arena_team \<times> arena_world" where
  "DelMember e g cleanDb t w =
     (let w1 = (if ae_online e g
            then fold (\<lambda>f. SetArenaTeamInfoField g (at_slot t) f 0) info_fields
              (SendArenaTeamCommandResult g ERR_ARENA_TEAM_QUIT_S (at_name t) [] 0 w)
            else w);
          w2 = (if cleanDb then arena_Execute e (DEL_ARENA_TEAM_MEMBER (at_id t) (GUID_LOPART g)) w1 else w1)
      in (t\<lparr>at_members := erase_member g (at_members t)\<rparr>, w2))"

definition arena_BroadcastPacket :: "arena_env \<Rightarrow> u16 \<Rightarrow> field list \<Rightarrow> arena_team \<Rightarrow> arena_world \<Rightarrow> arena_world" where
  "arena_BroadcastPacket e opcode fs t = fold (\<lambda>m w. if ae_online e (am_guid m) then arena_send (am_guid m) opcode fs w else w) (at_members t)"

text \<open>The strings are a list of \<open>strCount\<close> elements; a count above three is not sent.\<close>

definition BroadcastEvent :: "arena_env \<Rightarrow> u8 \<Rightarrow> u64 \<Rightarrow> string list \<Rightarrow> arena_team \<Rightarrow> arena_world \<Rightarrow> arena_world" where
  "BroadcastEvent e ev g strs t w =
     (if length strs > 3 then w
      else arena_BroadcastPacket e SMSG_ARENA_TEAM_EVENT
        ([F8 ev, F8 (of_nat (length strs))] @ map FStr strs @ (if g \<noteq> 0 then [F64 g] else [])) t w)"

text \<open>The loop takes out the first member until there is none.\<close>

fun del_members :: "arena_env \<Rightarrow> arena_member list \<Rightarrow> arena_team \<Rightarrow> arena_world \<Rightarrow> arena_team \<times> arena_world" where
  "del_members e [] t w = (t, w)"
| "del_members e (m # ms) t w = (let (t1, w1) = DelMember e (am_guid m) False t w in del_members e ms t1 w1)"

definition RemoveArenaTeam :: "u32 \<Rightarrow> arena_world \<Rightarrow> arena_world" where
  "RemoveArenaTeam i w = w\<lparr>aw_store := sm_erase i (aw_store w)\<rparr>"

text \<open>Of a player's session, or of the server.\<close>

definition arena_Disband :: "arena_env \<Rightarrow> u64 option \<Rightarrow> arena_team \<Rightarrow> arena_world \<Rightarrow> arena_world" where
  "arena_Disband e session t w =
     (let (t1, w1) = del_members e (at_members t) t w;
          w2 = (case session of None \<Rightarrow> w1
                | Some p \<Rightarrow> BroadcastEvent e ERR_ARENA_TEAM_DISBANDED_S 0 [ae_name e p, at_name t1] t1 w1);
          w3 = CommitTransaction e [DEL_ARENA_TEAM (at_id t1), DEL_ARENA_TEAM_MEMBERS (at_id t1)] w2
      in RemoveArenaTeam (at_id t1) w3)"

section \<open>ArenaTeam: packets\<close>

definition roster_fields :: "arena_env \<Rightarrow> arena_team \<Rightarrow> arena_member \<Rightarrow> field list" where
  "roster_fields e t m =
     [F64 (am_guid m), F8 (if ae_online e (am_guid m) then 1 else 0), FStr (am_name m), F32 (if am_guid m = at_captain t then 0 else 1),
      F8 (if ae_online e (am_guid m) then ae_level e (am_guid m) else 0), F8 (am_class m), F32 (ucast (am_weekGames m)),
      F32 (ucast (am_weekWins m)), F32 (ucast (am_seasonGames m)), F32 (ucast (am_seasonWins m)), F32 (ucast (am_rating m))]"

definition Roster :: "arena_env \<Rightarrow> u64 \<Rightarrow> arena_team \<Rightarrow> arena_world \<Rightarrow> arena_world" where
  "Roster e p t = arena_send p SMSG_ARENA_TEAM_ROSTER
     ([F32 (at_id t), F8 0, F32 (of_nat (length (at_members t))), F32 (ucast (at_type t))] @ concat (map (roster_fields e t) (at_members t)))"

definition arena_Query :: "u64 \<Rightarrow> arena_team \<Rightarrow> arena_world \<Rightarrow> arena_world" where
  "arena_Query p t = arena_send p SMSG_ARENA_TEAM_QUERY_RESPONSE
     [F32 (at_id t), FStr (at_name t), F32 (ucast (at_type t)), F32 (at_background t), F32 (ucast (at_emblemStyle t)),
      F32 (at_emblemColor t), F32 (ucast (at_borderStyle t)), F32 (at_borderColor t)]"

definition SendStats :: "u64 \<Rightarrow> arena_team \<Rightarrow> arena_world \<Rightarrow> arena_world" where
  "SendStats p t = (let s = at_stats t in arena_send p SMSG_ARENA_TEAM_STATS
     [F32 (at_id t), F32 (ucast (as_rating s)), F32 (ucast (as_weekGames s)), F32 (ucast (as_weekWins s)),
      F32 (ucast (as_seasonGames s)), F32 (ucast (as_seasonWins s)), F32 (as_rank s)])"

definition NotifyStatsChanged :: "arena_env \<Rightarrow> arena_team \<Rightarrow> arena_world \<Rightarrow> arena_world" where
  "NotifyStatsChanged e t = fold (\<lambda>m w. if ae_online e (am_guid m) then SendStats (am_guid m) t w else w) (at_members t)"

definition arena_Inspect :: "u64 \<Rightarrow> u64 \<Rightarrow> arena_team \<Rightarrow> arena_world \<Rightarrow> arena_world" where
  "arena_Inspect p g t w = (case member_by_guid t g of None \<Rightarrow> w | Some m \<Rightarrow> arena_send p MSG_INSPECT_ARENA_TEAMS
     [F64 g, F8 (at_slot t), F32 (at_id t), F32 (ucast (as_rating (at_stats t))), F32 (ucast (as_seasonGames (at_stats t))),
      F32 (ucast (as_seasonWins (at_stats t))), F32 (ucast (am_seasonGames m)), F32 (ucast (am_rating m))] w)"

definition MassInviteToEvent :: "u64 \<Rightarrow> arena_team \<Rightarrow> arena_world \<Rightarrow> arena_world" where
  "MassInviteToEvent p t = arena_send p SMSG_CALENDAR_ARENA_TEAM
     (F32 (of_nat (length (at_members t)) - 1) #
      concat (map (\<lambda>m. if am_guid m \<noteq> p then [FPack (am_guid m), F8 0] else []) (at_members t)))"

section \<open>ArenaTeam: ratings\<close>

text \<open>\<open>chance\<close> and the curve of points call \<open>exp\<close> and \<open>log\<close>, whose last bits are not specified: they are the environment's.\<close>

definition fl_24 :: f32 where "fl_24 = 0x41C00000"
definition fl_48 :: f32 where "fl_48 = 0x42400000"
definition fl_300 :: f32 where "fl_300 = 0x43960000"
definition fl_1300 :: f32 where "fl_1300 = 0x44A28000"
definition fl_one :: f32 where "fl_one = 0x3F800000"
definition fl_0_22 :: f32 where "fl_0_22 = 0x3E6147AE"
definition fl_0_3 :: f32 where "fl_0_3 = 0x3E99999A"
definition fl_0_76 :: f32 where "fl_0_76 = 0x3F428F5C"
definition fl_0_88 :: f32 where "fl_0_88 = 0x3F6147AE"
definition fl_14 :: f32 where "fl_14 = 0x41600000"
definition fl_344 :: f32 where "fl_344 = 0x43AC0000"

text \<open>\<open>(int32)ceil(x)\<close>.\<close>

definition f32_ceil_to_int :: "f32 \<Rightarrow> int" where
  "f32_ceil_to_int x = (let n = f32_signed x; i = (if f32_exp x \<ge> 0 then n * 2 ^ nat (f32_exp x) else - (- n div 2 ^ nat (- f32_exp x))) in
     if f32_biased x = 255 \<or> i < - (2 ^ 31) \<or> i \<ge> 2 ^ 31 then - (2 ^ 31) else i)"

definition GetMatchmakerRatingMod :: "arena_env \<Rightarrow> u32 \<Rightarrow> u32 \<Rightarrow> bool \<Rightarrow> int" where
  "GetMatchmakerRatingMod e own opponent won =
     f32_ceil_to_int (f32_mul (f32_sub (if won then fl_one else 0) (ae_chance e own opponent)) fl_24)"

definition GetRatingMod :: "arena_env \<Rightarrow> u32 \<Rightarrow> u32 \<Rightarrow> bool \<Rightarrow> int" where
  "GetRatingMod e own opponent won =
     (let gain = f32_sub (if won then fl_one else 0) (ae_chance e own opponent) in
      f32_ceil_to_int
       (if won \<and> own < 1300 then
          (if own < 1000 then f32_mul fl_48 gain
           else f32_mul (f32_add fl_24 (f32_div (f32_mul fl_24 (f32_sub fl_1300 (f32_of_int (uint own)))) fl_300)) gain)
        else f32_mul fl_24 gain))"

text \<open>A rating changes by a signed number and stops at zero.\<close>

definition rating_plus :: "u16 \<Rightarrow> int \<Rightarrow> u16" where
  "rating_plus r m = (if uint r + m < 0 then 0 else word_of_int (uint r + m))"

definition ModifyPersonalRating :: "u64 option \<Rightarrow> int \<Rightarrow> u8 \<Rightarrow> arena_member \<Rightarrow> arena_world \<Rightarrow> arena_member \<times> arena_world" where
  "ModifyPersonalRating player m type mem w =
     (let mem1 = mem\<lparr>am_rating := rating_plus (am_rating mem) m\<rparr> in
      (mem1, case player of None \<Rightarrow> w | Some p \<Rightarrow>
        arena_emit (ArenaAchievement p 39 (ucast (am_rating mem1)) (ucast type))
          (SetArenaTeamInfoField p (GetSlotByType type) INFO_RATING (ucast (am_rating mem1)) w)))"

definition ModifyMatchmakerRating :: "int \<Rightarrow> arena_member \<Rightarrow> arena_member" where
  "ModifyMatchmakerRating m mem = mem\<lparr>am_mmr := rating_plus (am_mmr mem) m\<rparr>"

definition FinishGame :: "arena_env \<Rightarrow> int \<Rightarrow> arena_team \<Rightarrow> arena_world \<Rightarrow> arena_team \<times> arena_world" where
  "FinishGame e m t w =
     (let s = at_stats t; rating = rating_plus (as_rating s) m;
          w1 = (if uint (as_rating s) + m < 0 then w
                else fold (\<lambda>mem w. if ae_online e (am_guid mem)
                       then arena_emit (ArenaAchievement (am_guid mem) 38 (ucast rating) (ucast (at_type t))) w else w) (at_members t) w);
          better = filter (\<lambda>(i, u). at_type u = at_type t \<and>
                     (if i = at_id t then rating else as_rating (at_stats u)) > rating) (aw_store w)
      in (t\<lparr>at_stats := s\<lparr>as_rating := rating, as_weekGames := as_weekGames s + 1, as_seasonGames := as_seasonGames s + 1,
            as_rank := 1 + of_nat (length better)\<rparr>\<rparr>, w1))"

text \<open>The change of the matchmaker rating and of the rating.\<close>

definition WonAgainst :: "arena_env \<Rightarrow> u32 \<Rightarrow> u32 \<Rightarrow> arena_team \<Rightarrow> arena_world \<Rightarrow> int \<times> int \<times> arena_team \<times> arena_world" where
  "WonAgainst e own opponent t w =
     (let m = GetMatchmakerRatingMod e own opponent True;
          change = GetRatingMod e (ucast (as_rating (at_stats t))) opponent True;
          (t1, w1) = FinishGame e change t w; s = at_stats t1
      in (m, change, t1\<lparr>at_stats := s\<lparr>as_weekWins := as_weekWins s + 1, as_seasonWins := as_seasonWins s + 1\<rparr>\<rparr>, w1))"

definition LostAgainst :: "arena_env \<Rightarrow> u32 \<Rightarrow> u32 \<Rightarrow> arena_team \<Rightarrow> arena_world \<Rightarrow> int \<times> int \<times> arena_team \<times> arena_world" where
  "LostAgainst e own opponent t w =
     (let m = GetMatchmakerRatingMod e own opponent False;
          change = GetRatingMod e (ucast (as_rating (at_stats t))) opponent False;
          (t1, w1) = FinishGame e change t w
      in (m, change, t1, w1))"

text \<open>The first member of a guid.\<close>

fun upd_member :: "u64 \<Rightarrow> (arena_member \<Rightarrow> arena_world \<Rightarrow> arena_member \<times> arena_world) \<Rightarrow> arena_member list \<Rightarrow> arena_world \<Rightarrow>
    arena_member list \<times> arena_world" where
  "upd_member g f [] w = ([], w)"
| "upd_member g f (m # ms) w = (if am_guid m = g then (let (m1, w1) = f m w in (m1 # ms, w1))
     else (let (ms1, w1) = upd_member g f ms w in (m # ms1, w1)))"

definition on_member :: "u64 \<Rightarrow> (arena_member \<Rightarrow> arena_world \<Rightarrow> arena_member \<times> arena_world) \<Rightarrow> arena_team \<Rightarrow> arena_world \<Rightarrow>
    arena_team \<times> arena_world" where
  "on_member g f t w = (let (ms, w1) = upd_member g f (at_members t) w in (t\<lparr>at_members := ms\<rparr>, w1))"

definition MemberLost :: "arena_env \<Rightarrow> u64 \<Rightarrow> u32 \<Rightarrow> int \<Rightarrow> arena_team \<Rightarrow> arena_world \<Rightarrow> arena_team \<times> arena_world" where
  "MemberLost e p against change t = on_member p (\<lambda>m w.
     let (m1, w1) = ModifyPersonalRating (Some p) (GetRatingMod e (ucast (am_rating m)) against False) (at_type t) m w;
         m2 = ModifyMatchmakerRating change m1;
         m3 = m2\<lparr>am_weekGames := am_weekGames m2 + 1, am_seasonGames := am_seasonGames m2 + 1\<rparr>;
         w2 = SetArenaTeamInfoField p (at_slot t) INFO_GAMES_WEEK (ucast (am_weekGames m3)) w1
     in (m3, SetArenaTeamInfoField p (at_slot t) INFO_GAMES_SEASON (ucast (am_seasonGames m3)) w2)) t"

definition OfflineMemberLost :: "arena_env \<Rightarrow> u64 \<Rightarrow> u32 \<Rightarrow> int \<Rightarrow> arena_team \<Rightarrow> arena_world \<Rightarrow> arena_team \<times> arena_world" where
  "OfflineMemberLost e g against change t = on_member g (\<lambda>m w.
     let (m1, w1) = ModifyPersonalRating None (GetRatingMod e (ucast (am_rating m)) against False) (at_type t) m w;
         m2 = ModifyMatchmakerRating change m1
     in (m2\<lparr>am_weekGames := am_weekGames m2 + 1, am_seasonGames := am_seasonGames m2 + 1\<rparr>, w1)) t"

definition MemberWon :: "arena_env \<Rightarrow> u64 \<Rightarrow> u32 \<Rightarrow> int \<Rightarrow> arena_team \<Rightarrow> arena_world \<Rightarrow> arena_team \<times> arena_world" where
  "MemberWon e p against change t = on_member p (\<lambda>m w.
     let (m1, w1) = ModifyPersonalRating (Some p) (GetRatingMod e (ucast (am_rating m)) against True) (at_type t) m w;
         m2 = ModifyMatchmakerRating change m1;
         m3 = m2\<lparr>am_weekGames := am_weekGames m2 + 1, am_seasonGames := am_seasonGames m2 + 1,
           am_seasonWins := am_seasonWins m2 + 1, am_weekWins := am_weekWins m2 + 1\<rparr>;
         w2 = SetArenaTeamInfoField p (at_slot t) INFO_GAMES_WEEK (ucast (am_weekGames m3)) w1
     in (m3, SetArenaTeamInfoField p (at_slot t) INFO_GAMES_SEASON (ucast (am_seasonGames m3)) w2)) t"

definition GetAverageMMR :: "arena_env \<Rightarrow> (u64 \<Rightarrow> bool) option \<Rightarrow> arena_team \<Rightarrow> u32" where
  "GetAverageMMR e party t = (case party of None \<Rightarrow> 0 | Some in_group \<Rightarrow>
     (let ms = filter (\<lambda>m. ae_online e (am_guid m) \<and> in_group (am_guid m)) (at_members t);
          total = fold (\<lambda>m s. s + ucast (am_mmr m)) ms 0; divider = (of_nat (length ms) :: u32)
      in total div (if divider = 0 then 1 else divider)))"

definition arena_IsFighting :: "arena_env \<Rightarrow> arena_team \<Rightarrow> bool" where
  "arena_IsFighting e t \<longleftrightarrow> (\<exists>m\<in>set (at_members t). ae_online e (am_guid m) \<and> ae_arena_map e (am_guid m))"

section \<open>ArenaTeam: points of a week\<close>

definition GetPoints :: "arena_env \<Rightarrow> u16 \<Rightarrow> arena_team \<Rightarrow> u32" where
  "GetPoints e memberRating t =
     (let own = (ucast memberRating :: u32); team = ucast (as_rating (at_stats t));
          rating = (if own + 150 < team then own else team);
          points = (if rating \<le> 1500 then
              (if ae_season e < 6 then f32_add (f32_mul (f32_of_int (uint rating)) fl_0_22) fl_14 else fl_344)
            else ae_curve e rating)
      in f32_to_uint (if at_type t = ARENA_TEAM_2v2 then f32_mul points fl_0_76
           else if at_type t = ARENA_TEAM_3v3 then f32_mul points fl_0_88 else points))"

text \<open>The games a member has to have played for points: three tenths of those of the team.\<close>

definition required_games :: "u16 \<Rightarrow> u32" where
  "required_games games = word_of_int (f32_ceil_to_int (f32_mul (f32_of_int (uint games)) fl_0_3))"

definition UpdateArenaPointsHelper :: "arena_env \<Rightarrow> arena_team \<Rightarrow> (u32, u32) smap \<Rightarrow> (u32, u32) smap" where
  "UpdateArenaPointsHelper e t points =
     (if as_weekGames (at_stats t) < 10 then points
      else fold (\<lambda>m points.
        (let g = GUID_LOPART (am_guid m);
             add = (if (ucast (am_weekGames m) :: u32) \<ge> required_games (as_weekGames (at_stats t)) then GetPoints e (am_rating m) t else 0)
         in case sm_find points g of Some p \<Rightarrow> if p < add then sm_put g add points else points
            | None \<Rightarrow> sm_put g add points)) (at_members t) points)"

definition save_member_stmts :: "arena_team \<Rightarrow> arena_member \<Rightarrow> arena_stmt list" where
  "save_member_stmts t m =
     [UPD_ARENA_TEAM_MEMBER (am_rating m) (am_weekGames m) (am_weekWins m) (am_seasonGames m) (am_seasonWins m) (at_id t) (GUID_LOPART (am_guid m)),
      REP_CHARACTER_ARENA_STATS (GUID_LOPART (am_guid m)) (at_slot t) (am_mmr m)]"

definition arena_SaveToDB :: "arena_env \<Rightarrow> arena_team \<Rightarrow> arena_world \<Rightarrow> arena_world" where
  "arena_SaveToDB e t = CommitTransaction e (UPD_ARENA_TEAM_STATS (at_stats t) (at_id t) # concat (map (save_member_stmts t) (at_members t)))"

definition FinishWeek :: "arena_team \<Rightarrow> arena_team" where
  "FinishWeek t = t\<lparr>at_stats := (at_stats t)\<lparr>as_weekGames := 0, as_weekWins := 0\<rparr>,
     at_members := map (\<lambda>m. m\<lparr>am_weekGames := 0, am_weekWins := 0\<rparr>) (at_members t)\<rparr>"

section \<open>ArenaTeamMgr\<close>

definition GetArenaTeamById :: "u32 \<Rightarrow> arena_world \<Rightarrow> arena_team option" where
  "GetArenaTeamById i w = sm_find (aw_store w) i"

definition to_upper :: "char \<Rightarrow> char" where
  "to_upper c = (if (of_char c :: nat) \<ge> 97 \<and> (of_char c :: nat) \<le> 122 then char_of ((of_char c :: nat) - 32) else c)"

definition GetArenaTeamByName :: "string \<Rightarrow> arena_world \<Rightarrow> arena_team option" where
  "GetArenaTeamByName name w = List.find (\<lambda>t. map to_upper name = map to_upper (at_name t)) (map snd (aw_store w))"

definition GetArenaTeamByCaptain :: "u64 \<Rightarrow> arena_world \<Rightarrow> arena_team option" where
  "GetArenaTeamByCaptain g w = List.find (\<lambda>t. at_captain t = g) (map snd (aw_store w))"

definition AddArenaTeam :: "arena_team \<Rightarrow> arena_world \<Rightarrow> arena_world" where
  "AddArenaTeam t w = w\<lparr>aw_store := sm_put (at_id t) t (aw_store w)\<rparr>"

definition GenerateArenaTeamId :: "arena_world \<Rightarrow> u32 \<times> arena_world" where
  "GenerateArenaTeamId w =
     (let w1 = (if aw_next w \<ge> 0xFFFFFFFE then arena_emit ArenaStop w else w)
      in (aw_next w, w1\<lparr>aw_next := aw_next w + 1\<rparr>))"

text \<open>\<open>Create\<close> looks for the name the team has before it gets one.\<close>

definition arena_Create ::
    "arena_env \<Rightarrow> u64 \<Rightarrow> u8 \<Rightarrow> string \<Rightarrow> u32 \<Rightarrow> u8 \<Rightarrow> u32 \<Rightarrow> u8 \<Rightarrow> u32 \<Rightarrow> arena_team \<Rightarrow> arena_world \<Rightarrow> bool \<times> arena_team \<times> arena_world" where
  "arena_Create e captain type name bg es ec bs bc t w =
     (if \<not> ae_online e captain then (False, t, w)
      else if GetArenaTeamByName (at_name t) w \<noteq> None then (False, t, w)
      else
        (let (i, w1) = GenerateArenaTeamId w;
             t1 = t\<lparr>at_id := i, at_captain := captain, at_type := type, at_name := name, at_background := bg, at_emblemStyle := es,
                at_emblemColor := ec, at_borderStyle := bs, at_borderColor := bc\<rparr>;
             w2 = arena_Execute e (INS_ARENA_TEAM i name (GUID_LOPART captain) type (as_rating (at_stats t)) bg es ec bs bc) w1;
             (b, t2, w3) = arena_AddMember e captain t1 w2
         in (True, t2, w3)))"

definition team_of_row :: "arena_env \<Rightarrow> team_row \<Rightarrow> arena_team" where
  "team_of_row e r = (new_arena_team e)\<lparr>at_id := tr_id r, at_name := tr_name r, at_captain := MAKE_NEW_GUID (tr_captain r) 0 HIGHGUID_PLAYER,
     at_type := tr_type r, at_background := tr_background r, at_emblemStyle := tr_emblemStyle r, at_emblemColor := tr_emblemColor r,
     at_borderStyle := tr_borderStyle r, at_borderColor := tr_borderColor r, at_stats := tr_stats r\<rparr>"

text \<open>
  A row of the query for members: the name is empty when the character is missing, the
  matchmaker rating 0 when there is none. The teams share the result: each one takes its rows
  from the front and leaves the rest.
\<close>

record loaded_member =
  lm_row :: member_row
  lm_name :: string
  lm_class :: u8
  lm_mmr :: u16

definition member_of_row :: "arena_env \<Rightarrow> loaded_member \<Rightarrow> arena_member" where
  "member_of_row e l = (let r = lm_row l in
     \<lparr>am_guid = MAKE_NEW_GUID (mr_guid r) 0 HIGHGUID_PLAYER, am_name = lm_name l, am_class = lm_class l, am_weekGames = mr_weekGames r,
      am_weekWins = mr_weekWins r, am_seasonGames = mr_seasonGames r, am_seasonWins = mr_seasonWins r, am_rating = mr_rating r,
      am_mmr = (if lm_mmr l > 0 then lm_mmr l else ucast (ae_start_mmr e))\<rparr>)"

fun load_members ::
    "arena_env \<Rightarrow> loaded_member list \<Rightarrow> bool \<Rightarrow> arena_team \<Rightarrow> arena_world \<Rightarrow> bool \<times> loaded_member list \<times> arena_team \<times> arena_world" where
  "load_members e [] present t w = (present, [], t, w)"
| "load_members e (l # ls) present t w =
     (if mr_team (lm_row l) > at_id t then (present, l # ls, t, w)
      else let m = member_of_row e l in
        if am_name m = [] then (let (t1, w1) = DelMember e (am_guid m) True t w in load_members e ls present t1 w1)
        else load_members e ls (present \<or> am_guid m = at_captain t) (t\<lparr>at_members := at_members t @ [m]\<rparr>) w)"

text \<open>The result is null when the whole query has no rows.\<close>

definition LoadMembersFromDB ::
    "arena_env \<Rightarrow> loaded_member list option \<Rightarrow> arena_team \<Rightarrow> arena_world \<Rightarrow> bool \<times> loaded_member list option \<times> arena_team \<times> arena_world" where
  "LoadMembersFromDB e result t w = (case result of None \<Rightarrow> (False, None, t, w)
     | Some ls \<Rightarrow> (let (present, rest, t1, w1) = load_members e ls False t w
         in (at_members t1 \<noteq> [] \<and> present, Some rest, t1, w1)))"

fun load_teams :: "arena_env \<Rightarrow> team_row list \<Rightarrow> loaded_member list option \<Rightarrow> arena_world \<Rightarrow> arena_world" where
  "load_teams e [] members w = w"
| "load_teams e (r # rs) members w =
     (let (ok, rest, t, w1) = LoadMembersFromDB e members (team_of_row e r) w
      in load_teams e rs rest (if ok then AddArenaTeam t w1 else arena_Disband e None t w1))"

text \<open>
  The two queries when the server starts: the teams by their ids, and their members by the ids of
  the teams, with the character and the matchmaker rating of the slot where they exist.
\<close>

definition loaded_row :: "arena_env \<Rightarrow> arena_db \<Rightarrow> member_row \<Rightarrow> team_row \<Rightarrow> loaded_member" where
  "loaded_row e db r t = (case ae_character e (mr_guid r) of
     None \<Rightarrow> \<lparr>lm_row = r, lm_name = [], lm_class = 0, lm_mmr = 0\<rparr>
   | Some (name, cls) \<Rightarrow> \<lparr>lm_row = r, lm_name = name, lm_class = cls, lm_mmr =
       (case (if GetSlotByType (tr_type t) < MAX_ARENA_SLOT then map_of (db_mmr db) (mr_guid r, GetSlotByType (tr_type t)) else None) of
          None \<Rightarrow> 0 | Some m \<Rightarrow> m)\<rparr>)"

definition member_query :: "arena_env \<Rightarrow> arena_db \<Rightarrow> loaded_member list" where
  "member_query e db = concat (map (\<lambda>r. map (loaded_row e db r) (filter (\<lambda>t. tr_id t = mr_team r) (db_teams db)))
     (sort_key mr_team (db_members db)))"

definition LoadArenaTeams :: "arena_env \<Rightarrow> arena_world \<Rightarrow> arena_world" where
  "LoadArenaTeams e w =
     (let w1 = arena_Execute e DEL_ORPHANED_MEMBERS w; rows = sort_key tr_id (db_teams (aw_db w1)); members = member_query e (aw_db w1)
      in if rows = [] then w1 else load_teams e rows (if members = [] then None else Some members) w1)"

definition SetArenaPoints :: "arena_env \<Rightarrow> u64 \<Rightarrow> u32 \<Rightarrow> arena_world \<Rightarrow> arena_world" where
  "SetArenaPoints e p v w =
     (let value = (if v > ae_max_points e then ae_max_points e else v); w1 = w\<lparr>aw_points := (aw_points w)(p := value)\<rparr>
      in if value \<noteq> 0 then arena_emit (KnownCurrency p) w1 else w1)"

text \<open>The statement has the value before it is limited.\<close>

definition ModifyArenaPoints :: "arena_env \<Rightarrow> u64 \<Rightarrow> u32 \<Rightarrow> arena_stmt list \<times> arena_world \<Rightarrow> arena_stmt list \<times> arena_world" where
  "ModifyArenaPoints e p v = (\<lambda>(sts, w).
     (let sum = aw_points w p + v; new = (if sint sum < 0 then 0 else sum)
      in (sts @ [UPD_CHAR_ARENA_POINTS new (GUID_LOPART p)], SetArenaPoints e p new w)))"

text \<open>The players' points in the order of their guids, then the teams. A player is looked up by the low part.\<close>

definition give_points :: "arena_env \<Rightarrow> u32 \<times> u32 \<Rightarrow> arena_stmt list \<times> arena_world \<Rightarrow> arena_stmt list \<times> arena_world" where
  "give_points e = (\<lambda>(g, points) (sts, w). if ae_connected e (ucast g)
     then ModifyArenaPoints e (ucast g) points (sts, w)
     else (sts @ [UPD_ADD_CHAR_ARENA_POINTS points g], w))"

definition week_points :: "arena_env \<Rightarrow> arena_world \<Rightarrow> (u32, u32) smap" where
  "week_points e w = fold (UpdateArenaPointsHelper e) (map snd (aw_store w)) []"

definition end_week :: "arena_env \<Rightarrow> u32 \<Rightarrow> arena_world \<Rightarrow> arena_world" where
  "end_week e i w = (case GetArenaTeamById i w of None \<Rightarrow> w | Some t \<Rightarrow>
     (let t1 = FinishWeek t in NotifyStatsChanged e t1 (arena_SaveToDB e t1 (w\<lparr>aw_store := sm_put i t1 (aw_store w)\<rparr>))))"

definition DistributeArenaPoints :: "arena_env \<Rightarrow> arena_world \<Rightarrow> arena_world" where
  "DistributeArenaPoints e w =
     (let w1 = arena_emit (ArenaText 742) (arena_emit (ArenaText 741) w);
          (sts, w2) = fold (give_points e) (week_points e w1) ([], w1);
          w3 = arena_emit (ArenaText 744) (arena_emit (ArenaText 743) (CommitTransaction e sts w2));
          w4 = fold (end_week e) (sm_keys (aw_store w3)) w3
      in arena_emit (ArenaText 746) (arena_emit (ArenaText 745) w4))"

section \<open>Player: loading and deletion\<close>

definition LeaveAllArenaTeams :: "arena_env \<Rightarrow> u64 \<Rightarrow> arena_world \<Rightarrow> arena_world" where
  "LeaveAllArenaTeams e g w = fold (\<lambda>r w. if tr_id r = 0 then w else
     (case GetArenaTeamById (tr_id r) w of None \<Rightarrow> w | Some t \<Rightarrow>
       (let (t1, w1) = DelMember e g True t w in w1\<lparr>aw_store := sm_put (tr_id r) t1 (aw_store w1)\<rparr>)))
     (teams_of_player (aw_db w) (GUID_LOPART g)) w"

definition load_info_row :: "u64 \<Rightarrow> member_row \<Rightarrow> (u8 \<Rightarrow> u16) \<times> arena_world \<Rightarrow> (u8 \<Rightarrow> u16) \<times> arena_world" where
  "load_info_row p r = (\<lambda>(ratings, w). case GetArenaTeamById (mr_team r) w of None \<Rightarrow> (ratings, w) | Some t \<Rightarrow>
     (let s = at_slot t in (ratings(s := mr_rating r),
       SetArenaTeamInfoField p s INFO_WINS_SEASON (ucast (mr_seasonWins r))
        (SetArenaTeamInfoField p s INFO_GAMES_SEASON (ucast (mr_seasonGames r))
         (SetArenaTeamInfoField p s INFO_GAMES_WEEK (ucast (mr_weekGames r))
          (SetArenaTeamInfoField p s INFO_MEMBER (if at_captain t = p then 0 else 1)
           (SetArenaTeamInfoField p s INFO_TYPE (ucast (at_type t))
            (SetArenaTeamInfoField p s ARENA_TEAM_ID (mr_team r) w))))))))"

definition LoadArenaTeamInfo :: "u64 \<Rightarrow> member_row list \<Rightarrow> arena_world \<Rightarrow> arena_world" where
  "LoadArenaTeamInfo p rows w =
     (let w1 = w\<lparr>aw_info := (aw_info w)(p := (\<lambda>s f. if s < MAX_ARENA_SLOT then 0 else aw_info w p s f))\<rparr>;
          (ratings, w2) = fold (load_info_row p) rows ((\<lambda>s. 0), w1)
      in fold (\<lambda>s. SetArenaTeamInfoField p s INFO_RATING (ucast (ratings s))) [0, 1, 2] w2)"

text \<open>The fields but the rating are cleared for a team that is not there or does not know the player.\<close>

definition check_arena_teams :: "u64 \<Rightarrow> arena_world \<Rightarrow> arena_world" where
  "check_arena_teams p w = fold (\<lambda>s w.
     let i = GetArenaTeamId w p s in
     if i = 0 then w
     else if (case GetArenaTeamById i w of None \<Rightarrow> False | Some t \<Rightarrow> is_arena_member t p) then w
     else fold (\<lambda>f. SetArenaTeamInfoField p s f 0) (butlast info_fields) w) [0, 1, 2] w"

definition arena_login :: "u64 \<Rightarrow> arena_world \<Rightarrow> arena_world" where
  "arena_login p w = check_arena_teams p (LoadArenaTeamInfo p (filter (\<lambda>r. mr_guid r = GUID_LOPART p) (db_members (aw_db w)))
     (SetArenaTeamIdInvited p 0 w))"

section \<open>Handlers\<close>

definition put_team :: "u32 \<Rightarrow> arena_team \<times> arena_world \<Rightarrow> arena_world" where
  "put_team i = (\<lambda>(t, w). w\<lparr>aw_store := sm_put i t (aw_store w)\<rparr>)"

definition HandleInspectArenaTeams :: "arena_env \<Rightarrow> u64 \<Rightarrow> u64 \<Rightarrow> arena_world \<Rightarrow> arena_world" where
  "HandleInspectArenaTeams e p g w =
     (if \<not> ae_online e g \<or> \<not> ae_inspects e p g then w
      else fold (\<lambda>s w. let i = GetArenaTeamId w g s in
        if i = 0 then w else (case GetArenaTeamById i w of None \<Rightarrow> w | Some t \<Rightarrow> arena_Inspect p g t w)) [0, 1, 2] w)"

definition HandleArenaTeamQuery :: "u64 \<Rightarrow> u32 \<Rightarrow> arena_world \<Rightarrow> arena_world" where
  "HandleArenaTeamQuery p i w = (case GetArenaTeamById i w of None \<Rightarrow> w | Some t \<Rightarrow> SendStats p t (arena_Query p t w))"

definition HandleArenaTeamRoster :: "arena_env \<Rightarrow> u64 \<Rightarrow> u32 \<Rightarrow> arena_world \<Rightarrow> arena_world" where
  "HandleArenaTeamRoster e p i w = (case GetArenaTeamById i w of None \<Rightarrow> w | Some t \<Rightarrow> Roster e p t w)"

definition invite_player :: "arena_env \<Rightarrow> u64 \<Rightarrow> u32 \<Rightarrow> u64 \<Rightarrow> arena_world \<Rightarrow> arena_world" where
  "invite_player e p i q w =
     (if (ucast (ae_level e q) :: u32) < ae_max_level e
      then SendArenaTeamCommandResult p ERR_ARENA_TEAM_CREATE_S [] (ae_name e q) ERR_ARENA_TEAM_TARGET_TOO_LOW_S w
      else case GetArenaTeamById i w of
        None \<Rightarrow> SendArenaTeamCommandResult p ERR_ARENA_TEAM_CREATE_S [] [] ERR_ARENA_TEAM_PLAYER_NOT_IN_TEAM w
      | Some t \<Rightarrow>
        if GetArenaTeamId w p (at_slot t) \<noteq> i
        then SendArenaTeamCommandResult p ERR_ARENA_TEAM_CREATE_S [] [] ERR_ARENA_TEAM_PERMISSIONS w
        else if ae_ignores e q (GUID_LOPART p) then w
        else if \<not> ae_two_side e \<and> ae_faction e q \<noteq> ae_faction e p
        then SendArenaTeamCommandResult p ERR_ARENA_TEAM_INVITE_SS [] [] ERR_ARENA_TEAM_NOT_ALLIED w
        else if GetArenaTeamId w q (at_slot t) \<noteq> 0
        then SendArenaTeamCommandResult p ERR_ARENA_TEAM_INVITE_SS [] (ae_name e q) ERR_ALREADY_IN_ARENA_TEAM_S w
        else if aw_invited w q \<noteq> 0
        then SendArenaTeamCommandResult p ERR_ARENA_TEAM_INVITE_SS [] (ae_name e q) ERR_ALREADY_INVITED_TO_ARENA_TEAM_S w
        else if length (at_members t) \<ge> unat (at_type t) * 2
        then SendArenaTeamCommandResult p ERR_ARENA_TEAM_CREATE_S (at_name t) [] ERR_ARENA_TEAM_TOO_MANY_MEMBERS_S w
        else arena_send q SMSG_ARENA_TEAM_INVITE [FStr (ae_name e p), FStr (at_name t)] (SetArenaTeamIdInvited q (at_id t) w))"

definition HandleArenaTeamInvite :: "arena_env \<Rightarrow> u64 \<Rightarrow> u32 \<Rightarrow> string \<Rightarrow> arena_world \<Rightarrow> arena_world" where
  "HandleArenaTeamInvite e p i name w =
     (case (if name = [] then Some (name, None) else map_option (\<lambda>name. (name, ae_find_name e name)) (ae_normalize e name)) of
        None \<Rightarrow> w
      | Some (name, None) \<Rightarrow> SendArenaTeamCommandResult p ERR_ARENA_TEAM_CREATE_S [] name ERR_ARENA_TEAM_PLAYER_NOT_FOUND_S w
      | Some (name, Some q) \<Rightarrow> invite_player e p i q w)"

definition HandleArenaTeamAccept :: "arena_env \<Rightarrow> u64 \<Rightarrow> arena_world \<Rightarrow> arena_world" where
  "HandleArenaTeamAccept e p w = (case GetArenaTeamById (aw_invited w p) w of None \<Rightarrow> w | Some t \<Rightarrow>
     if GetArenaTeamId w p (at_slot t) \<noteq> 0
     then SendArenaTeamCommandResult p ERR_ARENA_TEAM_CREATE_S [] [] ERR_ALREADY_IN_ARENA_TEAM w
     else if \<not> ae_two_side e \<and> ae_faction e p \<noteq> ae_faction e (at_captain t)
     then SendArenaTeamCommandResult p ERR_ARENA_TEAM_CREATE_S [] [] ERR_ARENA_TEAM_NOT_ALLIED w
     else (let (b, t1, w1) = arena_AddMember e p t w in
       if \<not> b then SendArenaTeamCommandResult p ERR_ARENA_TEAM_CREATE_S [] [] ERR_ARENA_TEAM_INTERNAL w1
       else BroadcastEvent e ERR_ARENA_TEAM_JOIN_SS p [ae_name e p, at_name t1] t1 (put_team (aw_invited w p) (t1, w1))))"

definition HandleArenaTeamDecline :: "u64 \<Rightarrow> arena_world \<Rightarrow> arena_world" where
  "HandleArenaTeamDecline p = SetArenaTeamIdInvited p 0"

definition HandleArenaTeamLeave :: "arena_env \<Rightarrow> u64 \<Rightarrow> u32 \<Rightarrow> arena_world \<Rightarrow> arena_world" where
  "HandleArenaTeamLeave e p i w = (case GetArenaTeamById i w of None \<Rightarrow> w | Some t \<Rightarrow>
     if ae_in_arena e p
     then SendArenaTeamCommandResult p ERR_ARENA_TEAM_QUIT_S [] [] ERR_ARENA_TEAM_INTERNAL w
     else if p = at_captain t \<and> length (at_members t) > 1
     then SendArenaTeamCommandResult p ERR_ARENA_TEAM_QUIT_S [] [] ERR_ARENA_TEAM_LEADER_LEAVE_S w
     else if p = at_captain t then arena_Disband e (Some p) t w
     else (let (t1, w1) = DelMember e p True t w in
       SendArenaTeamCommandResult p ERR_ARENA_TEAM_QUIT_S (at_name t1) [] 0
        (BroadcastEvent e ERR_ARENA_TEAM_LEAVE_SS p [ae_name e p, at_name t1] t1 (put_team i (t1, w1)))))"

definition HandleArenaTeamDisband :: "arena_env \<Rightarrow> u64 \<Rightarrow> u32 \<Rightarrow> arena_world \<Rightarrow> arena_world" where
  "HandleArenaTeamDisband e p i w = (case GetArenaTeamById i w of None \<Rightarrow> w | Some t \<Rightarrow>
     if at_captain t \<noteq> p \<or> arena_IsFighting e t then w else arena_Disband e (Some p) t w)"

definition HandleArenaTeamRemove :: "arena_env \<Rightarrow> u64 \<Rightarrow> u32 \<Rightarrow> string \<Rightarrow> arena_world \<Rightarrow> arena_world" where
  "HandleArenaTeamRemove e p i name w = (case GetArenaTeamById i w of None \<Rightarrow> w | Some t \<Rightarrow>
     if at_captain t \<noteq> p then SendArenaTeamCommandResult p ERR_ARENA_TEAM_CREATE_S [] [] ERR_ARENA_TEAM_PERMISSIONS w
     else case ae_normalize e name of None \<Rightarrow> w | Some name \<Rightarrow>
     (case member_by_name t name of
        None \<Rightarrow> SendArenaTeamCommandResult p ERR_ARENA_TEAM_CREATE_S [] name ERR_ARENA_TEAM_PLAYER_NOT_FOUND_S w
      | Some m \<Rightarrow>
        if at_captain t = am_guid m then SendArenaTeamCommandResult p ERR_ARENA_TEAM_QUIT_S [] [] ERR_ARENA_TEAM_LEADER_LEAVE_S w
        else (let (t1, w1) = DelMember e (am_guid m) True t w in
          BroadcastEvent e ERR_ARENA_TEAM_REMOVE_SSS 0 [name, at_name t1, ae_name e p] t1 (put_team i (t1, w1)))))"

definition HandleArenaTeamLeader :: "arena_env \<Rightarrow> u64 \<Rightarrow> u32 \<Rightarrow> string \<Rightarrow> arena_world \<Rightarrow> arena_world" where
  "HandleArenaTeamLeader e p i name w = (case GetArenaTeamById i w of None \<Rightarrow> w | Some t \<Rightarrow>
     if at_captain t \<noteq> p then SendArenaTeamCommandResult p ERR_ARENA_TEAM_CREATE_S [] [] ERR_ARENA_TEAM_PERMISSIONS w
     else case ae_normalize e name of None \<Rightarrow> w | Some name \<Rightarrow>
     (case member_by_name t name of
        None \<Rightarrow> SendArenaTeamCommandResult p ERR_ARENA_TEAM_CREATE_S [] name ERR_ARENA_TEAM_PLAYER_NOT_FOUND_S w
      | Some m \<Rightarrow>
        if at_captain t = am_guid m then w
        else (let (t1, w1) = SetCaptain e (am_guid m) t w in
          BroadcastEvent e ERR_ARENA_TEAM_LEADER_CHANGED_SSS 0 [ae_name e p, name, at_name t1] t1 (put_team i (t1, w1)))))"

text \<open>A petition for an arena team is turned in; the signatures are short guids.\<close>

fun add_signers :: "arena_env \<Rightarrow> u32 list \<Rightarrow> arena_team \<Rightarrow> arena_world \<Rightarrow> arena_team \<times> arena_world" where
  "add_signers e [] t w = (t, w)"
| "add_signers e (g # gs) t w =
     (let (b, t1, w1) = arena_AddMember e (MAKE_NEW_GUID g 0 HIGHGUID_PLAYER) t w in add_signers e gs t1 w1)"

definition found_team ::
    "arena_env \<Rightarrow> u64 \<Rightarrow> u8 \<Rightarrow> string \<Rightarrow> u32 \<Rightarrow> u32 \<Rightarrow> u32 \<Rightarrow> u32 \<Rightarrow> u32 \<Rightarrow> u32 list \<Rightarrow> arena_world \<Rightarrow> bool \<times> arena_world" where
  "found_team e p type name bg icon iconcolor border bordercolor signers w =
     (let (b, t, w1) = arena_Create e p type name bg (ucast icon) iconcolor (ucast border) bordercolor (new_arena_team e) w in
      if \<not> b then (False, w1) else (True, put_team (at_id t) (add_signers e signers t (AddArenaTeam t w1))))"

definition SMSG_TURN_IN_PETITION_RESULTS :: u16 where "SMSG_TURN_IN_PETITION_RESULTS = 0x1C5"
definition PETITION_TURN_OK :: u32 where "PETITION_TURN_OK = 0"
definition PETITION_TURN_NEED_MORE_SIGNATURES :: u32 where "PETITION_TURN_NEED_MORE_SIGNATURES = 4"
definition GUILD_CHARTER_TYPE :: u8 where "GUILD_CHARTER_TYPE = 9"

text \<open>The petition and its signatures are read from tables that are the environment's; a guild's charter leaves the model.\<close>

definition HandleTurnInPetition ::
    "arena_env \<Rightarrow> u64 \<Rightarrow> u64 \<Rightarrow> u32 \<Rightarrow> u32 \<Rightarrow> u32 \<Rightarrow> u32 \<Rightarrow> u32 \<Rightarrow> arena_world \<Rightarrow> arena_world" where
  "HandleTurnInPetition e p petition bg icon iconcolor border bordercolor w =
     (if \<not> ae_charter e p petition then w
      else case ae_petition e (GUID_LOPART petition) of None \<Rightarrow> w | Some (owner, name, type) \<Rightarrow>
      if GUID_LOPART p \<noteq> owner then w
      else if type = GUILD_CHARTER_TYPE then arena_emit (GuildCharter p petition) w
      else if GetSlotByType type \<ge> MAX_ARENA_SLOT then w
      else if GetArenaTeamId w p (GetSlotByType type) \<noteq> 0
      then SendArenaTeamCommandResult p ERR_ARENA_TEAM_CREATE_S name [] ERR_ALREADY_IN_ARENA_TEAM w
      else if GetArenaTeamByName name w \<noteq> None
      then SendArenaTeamCommandResult p ERR_ARENA_TEAM_CREATE_S name [] ERR_ARENA_TEAM_NAME_EXISTS_S w
      else
        (let signers = ae_signers e (GUID_LOPART petition); signatures = (of_nat (length signers) :: u8) in
         if (ucast signatures :: u32) < ucast type - 1
         then arena_send p SMSG_TURN_IN_PETITION_RESULTS [F32 PETITION_TURN_NEED_MORE_SIGNATURES] w
         else
           (let (b, w1) = found_team e p type name bg icon iconcolor border bordercolor (take (unat signatures) signers)
                  (arena_emit (DestroyCharter p petition) w) in
            if \<not> b then w1
            else arena_send p SMSG_TURN_IN_PETITION_RESULTS [F32 PETITION_TURN_OK]
              (CommitTransaction e [DEL_PETITION_BY_GUID (GUID_LOPART petition), DEL_PETITION_SIGNATURE_BY_GUID (GUID_LOPART petition)] w1))))"

text \<open>
  The commands of an administrator, \<open>src/src/server/scripts/Commands/cs_arena.cpp\<close>; what they answer on the
  console is left out.
\<close>

definition HandleArenaCreateCommand :: "arena_env \<Rightarrow> u64 \<Rightarrow> string \<Rightarrow> u8 \<Rightarrow> arena_world \<Rightarrow> arena_world" where
  "HandleArenaCreateCommand e target name type w =
     (if GetArenaTeamByName name w \<noteq> None then w
      else if type = 2 \<or> type = 3 \<or> type = 5 then
        (if GetArenaTeamIdFromDB (aw_db w) target type \<noteq> 0 then w
         else snd (found_team e target type name 4293102085 101 4293253939 4 4284049911 [] w))
      else w)"

definition HandleArenaDisbandCommand :: "arena_env \<Rightarrow> u32 \<Rightarrow> arena_world \<Rightarrow> arena_world" where
  "HandleArenaDisbandCommand e i w = (if i = 0 then w else case GetArenaTeamById i w of None \<Rightarrow> w | Some t \<Rightarrow>
     if arena_IsFighting e t then w else arena_Disband e None t w)"

definition arena_IsMember :: "u64 \<Rightarrow> arena_team \<Rightarrow> bool" where
  "arena_IsMember g t \<longleftrightarrow> (\<exists>m\<in>set (at_members t). am_guid m = g)"

definition HandleArenaCaptainCommand :: "arena_env \<Rightarrow> u32 \<Rightarrow> u64 \<Rightarrow> arena_world \<Rightarrow> arena_world" where
  "HandleArenaCaptainCommand e i target w = (if i = 0 then w else case GetArenaTeamById i w of None \<Rightarrow> w | Some t \<Rightarrow>
     if \<not> ae_online e target \<or> arena_IsFighting e t \<or> \<not> arena_IsMember target t \<or> at_captain t = target then w
     else put_team i (SetCaptain e target t w))"

end
