(* ===== verification/Arena_Inv.thy ===== *)
theory Arena_Inv
  imports Arena_Team
begin

text \<open>
  The rosters of the arena teams: what the manager, the teams and the tables of the database say
  of who is in which team agrees, and every operation keeps it so.
\<close>

section \<open>The invariant\<close>

abbreviation guids :: "arena_team \<Rightarrow> u64 list" where "guids t \<equiv> map am_guid (at_members t)"

definition player_guid :: "u64 \<Rightarrow> bool" where
  "player_guid g \<longleftrightarrow> g = MAKE_NEW_GUID (GUID_LOPART g) 0 HIGHGUID_PLAYER"

lemma make_player [simp]: "player_guid (MAKE_NEW_GUID l 0 HIGHGUID_PLAYER)"
  by (simp add: player_guid_def player_guid_lopart)

lemma low_inject: "player_guid g \<Longrightarrow> player_guid h \<Longrightarrow> GUID_LOPART g = GUID_LOPART h \<longleftrightarrow> g = h"
  unfolding player_guid_def by metis

definition member_keys :: "arena_db \<Rightarrow> (u32 \<times> u32) set" where
  "member_keys db = (\<lambda>r. (mr_team r, mr_guid r)) ` set (db_members db)"

definition team_keys :: "arena_db \<Rightarrow> (u32 \<times> u8) set" where
  "team_keys db = (\<lambda>r. (tr_id r, tr_type r)) ` set (db_teams db)"

type_synonym team_rolls = "u32 \<Rightarrow> (u32 \<times> u8 \<times> u64 list) option"

definition roll_of :: "arena_team \<Rightarrow> u32 \<times> u8 \<times> u64 list" where
  "roll_of t = (at_id t, at_type t, guids t)"

definition team_roll :: "arena_world \<Rightarrow> team_rolls" where
  "team_roll w i = map_option roll_of (sm_find (aw_store w) i)"

definition rosters :: "team_rolls \<Rightarrow> u32 \<Rightarrow> (u32 \<times> u32) set \<Rightarrow> (u32 \<times> u8) set \<Rightarrow> bool" where
  "rosters R n M T \<longleftrightarrow> 0 < n
     \<and> (\<forall>i k ty gs. R i = Some (k, ty, gs) \<longrightarrow> k = i \<and> 0 < i \<and> i < n \<and> ty \<in> {2, 3, 5} \<and> distinct gs
          \<and> length gs \<le> unat ty * 2 \<and> (\<forall>g\<in>set gs. player_guid g))
     \<and> (\<forall>i ty. (i, ty) \<in> T \<longleftrightarrow> (\<exists>k gs. R i = Some (k, ty, gs)))
     \<and> (\<forall>i l. (i, l) \<in> M \<longleftrightarrow> (\<exists>k ty gs g. R i = Some (k, ty, gs) \<and> g \<in> set gs \<and> GUID_LOPART g = l))
     \<and> (\<forall>i j k l ty gs hs g. R i = Some (k, ty, gs) \<longrightarrow> R j = Some (l, ty, hs) \<longrightarrow> g \<in> set gs \<longrightarrow> g \<in> set hs \<longrightarrow> i = j)"

lemma rostersD:
  assumes "rosters R n M T"
  shows "0 < n" "R i = Some (k, ty, gs) \<Longrightarrow> k = i \<and> 0 < i \<and> i < n \<and> ty \<in> {2, 3, 5} \<and> distinct gs
          \<and> length gs \<le> unat ty * 2 \<and> (\<forall>g\<in>set gs. player_guid g)"
    "(i, ty) \<in> T \<longleftrightarrow> (\<exists>k gs. R i = Some (k, ty, gs))"
    "(i, l) \<in> M \<longleftrightarrow> (\<exists>k ty gs g. R i = Some (k, ty, gs) \<and> g \<in> set gs \<and> GUID_LOPART g = l)"
    "R i = Some (k, ty, gs) \<Longrightarrow> R j = Some (m, ty, hs) \<Longrightarrow> g \<in> set gs \<Longrightarrow> g \<in> set hs \<Longrightarrow> i = j"
  using assms unfolding rosters_def by blast+

lemma rostersI:
  assumes "0 < n" "\<And>i k ty gs. R i = Some (k, ty, gs) \<Longrightarrow> k = i \<and> 0 < i \<and> i < n \<and> ty \<in> {2, 3, 5} \<and> distinct gs
          \<and> length gs \<le> unat ty * 2 \<and> (\<forall>g\<in>set gs. player_guid g)"
    "\<And>i ty. (i, ty) \<in> T \<longleftrightarrow> (\<exists>k gs. R i = Some (k, ty, gs))"
    "\<And>i l. (i, l) \<in> M \<longleftrightarrow> (\<exists>k ty gs g. R i = Some (k, ty, gs) \<and> g \<in> set gs \<and> GUID_LOPART g = l)"
    "\<And>i j k m ty gs hs g. R i = Some (k, ty, gs) \<Longrightarrow> R j = Some (m, ty, hs) \<Longrightarrow> g \<in> set gs \<Longrightarrow> g \<in> set hs \<Longrightarrow> i = j"
  shows "rosters R n M T"
  unfolding rosters_def using assms by blast

section \<open>The four changes\<close>

lemma rosters_add:
  assumes r: "rosters R n M T" and i: "R i = Some (i, ty, gs)" and g: "player_guid g" "length gs < unat ty * 2"
    and none: "\<And>k. (k, ty) \<in> T \<Longrightarrow> (k, GUID_LOPART g) \<notin> M"
  shows "rosters (R(i \<mapsto> (i, ty, gs @ [g]))) n (insert (i, GUID_LOPART g) M) T"
proof (rule rostersI)
  have out: "g \<notin> set hs" if "R j = Some (k, ty, hs)" for j k hs
    using none [of j] rostersD(3) [OF r, of j ty] rostersD(4) [OF r, of j "GUID_LOPART g"] that by blast
  show "0 < n" by (rule rostersD(1) [OF r])
  show "k = j \<and> 0 < j \<and> j < n \<and> uy \<in> {2, 3, 5} \<and> distinct hs \<and> length hs \<le> unat uy * 2 \<and> (\<forall>g\<in>set hs. player_guid g)"
    if "(R(i \<mapsto> (i, ty, gs @ [g]))) j = Some (k, uy, hs)" for j k uy hs
  proof (cases "j = i")
    case True
    then have u: "k = i" "uy = ty" "hs = gs @ [g]" using that by auto
    show ?thesis using rostersD(2) [OF r i] g out [OF i] by (simp add: u True)
  qed (use that rostersD(2) [OF r, of j k uy hs] in simp)
  show "(j, uy) \<in> T \<longleftrightarrow> (\<exists>k hs. (R(i \<mapsto> (i, ty, gs @ [g]))) j = Some (k, uy, hs))" for j uy
    using rostersD(3) [OF r, of j uy] i by auto
  show "(j, l) \<in> insert (i, GUID_LOPART g) M \<longleftrightarrow>
      (\<exists>k uy hs h. (R(i \<mapsto> (i, ty, gs @ [g]))) j = Some (k, uy, hs) \<and> h \<in> set hs \<and> GUID_LOPART h = l)" for j l
    using rostersD(4) [OF r, of j l] i by (cases "j = i") auto
  show "j = j'" if "(R(i \<mapsto> (i, ty, gs @ [g]))) j = Some (k, uy, hs)" "(R(i \<mapsto> (i, ty, gs @ [g]))) j' = Some (m, uy, hs')" "h \<in> set hs" "h \<in> set hs'"
    for j j' k m uy hs hs' h
  proof (cases "j = i"; cases "j' = i")
    assume a: "j = i" "j' \<noteq> i"
    then have u: "uy = ty" "hs = gs @ [g]" "R j' = Some (m, ty, hs')" using that(1,2) by auto
    then show ?thesis using rostersD(5) [OF r i u(3), of h] out [OF u(3)] that(3,4) a by auto
  next
    assume a: "j \<noteq> i" "j' = i"
    then have u: "uy = ty" "hs' = gs @ [g]" "R j = Some (k, ty, hs)" using that(1,2) by auto
    then show ?thesis using rostersD(5) [OF r u(3) i, of h] out [OF u(3)] that(3,4) a by auto
  next
    assume a: "j \<noteq> i" "j' \<noteq> i"
    then have u: "R j = Some (k, uy, hs)" "R j' = Some (m, uy, hs')" using that(1,2) by auto
    show ?thesis by (rule rostersD(5) [OF r u that(3,4)])
  qed simp
qed

lemma rosters_del:
  assumes r: "rosters R n M T" and i: "R i = Some (i, ty, gs)" and g: "player_guid g"
  shows "rosters (R(i \<mapsto> (i, ty, remove1 g gs))) n (M - {(i, GUID_LOPART g)}) T"
proof (rule rostersI)
  note d = rostersD(2) [OF r i]
  have s: "set (remove1 g gs) = set gs - {g}" using d by (simp add: set_remove1_eq)
  have low: "h \<in> set gs \<Longrightarrow> GUID_LOPART h = GUID_LOPART g \<longleftrightarrow> h = g" for h using d low_inject [OF _ g] by blast
  show "0 < n" by (rule rostersD(1) [OF r])
  show "k = j \<and> 0 < j \<and> j < n \<and> uy \<in> {2, 3, 5} \<and> distinct hs \<and> length hs \<le> unat uy * 2 \<and> (\<forall>g\<in>set hs. player_guid g)"
    if "(R(i \<mapsto> (i, ty, remove1 g gs))) j = Some (k, uy, hs)" for j k uy hs
  proof (cases "j = i")
    case True
    have "length (remove1 g gs) \<le> length gs" by (simp add: length_remove1)
    moreover have "k = i" "uy = ty" "hs = remove1 g gs" using that True by auto
    ultimately show ?thesis using True d s by simp
  qed (use that rostersD(2) [OF r, of j k uy hs] in simp)
  show "(j, uy) \<in> T \<longleftrightarrow> (\<exists>k hs. (R(i \<mapsto> (i, ty, remove1 g gs))) j = Some (k, uy, hs))" for j uy
    using rostersD(3) [OF r, of j uy] i by auto
  show "(j, l) \<in> M - {(i, GUID_LOPART g)} \<longleftrightarrow>
      (\<exists>k uy hs h. (R(i \<mapsto> (i, ty, remove1 g gs))) j = Some (k, uy, hs) \<and> h \<in> set hs \<and> GUID_LOPART h = l)" for j l
  proof (cases "j = i")
    case True
    have "(\<exists>h. h \<in> set gs \<and> GUID_LOPART h = l) \<and> l \<noteq> GUID_LOPART g \<longleftrightarrow> (\<exists>h. h \<in> set gs - {g} \<and> GUID_LOPART h = l)"
      using low by blast
    then show ?thesis using rostersD(4) [OF r, of j l] i s True by simp
  qed (use rostersD(4) [OF r, of j l] in simp)
  show "j = j'" if "(R(i \<mapsto> (i, ty, remove1 g gs))) j = Some (k, uy, hs)" "(R(i \<mapsto> (i, ty, remove1 g gs))) j' = Some (m, uy, hs')"
      "h \<in> set hs" "h \<in> set hs'" for j j' k m uy hs hs' h
  proof (cases "j = i"; cases "j' = i")
    assume a: "j = i" "j' \<noteq> i"
    then have u: "h \<in> set gs" "R j' = Some (m, ty, hs')" using that s by auto
    show ?thesis using rostersD(5) [OF r i u(2,1) that(4)] a by simp
  next
    assume a: "j \<noteq> i" "j' = i"
    then have u: "h \<in> set gs" "R j = Some (k, ty, hs)" using that s by auto
    show ?thesis using rostersD(5) [OF r u(2) i that(3) u(1)] a by simp
  next
    assume a: "j \<noteq> i" "j' \<noteq> i"
    then have u: "R j = Some (k, uy, hs)" "R j' = Some (m, uy, hs')" using that(1,2) by auto
    show ?thesis by (rule rostersD(5) [OF r u that(3,4)])
  qed simp
qed

lemma rosters_new:
  assumes r: "rosters R n M T" and n: "n < 0xFFFFFFFE" and ty: "ty \<in> {2, 3, 5}"
  shows "R n = None" "rosters (R(n \<mapsto> (n, ty, []))) (n + 1) M (insert (n, ty) T)"
proof -
  show none: "R n = None" using rostersD(2) [OF r, of n] by (cases "R n") auto
  have "1 + n \<noteq> 0"
  proof
    assume "1 + n = 0"
    then have "n = - 1" by (metis add.commute eq_neg_iff_add_eq_0)
    with n show False by simp
  qed
  then have "unat (n + 1) = Suc (unat n)" using unatSuc [of n] by (simp add: add.commute)
  then have up: "x < n \<Longrightarrow> x < n + 1" "n < n + 1" "0 < n + 1" for x by (simp_all add: word_less_nat_alt)
  show "rosters (R(n \<mapsto> (n, ty, []))) (n + 1) M (insert (n, ty) T)"
  proof (rule rostersI)
    show "0 < n + 1" by (rule up(3))
    show "k = j \<and> 0 < j \<and> j < n + 1 \<and> uy \<in> {2, 3, 5} \<and> distinct hs \<and> length hs \<le> unat uy * 2 \<and> (\<forall>g\<in>set hs. player_guid g)"
      if "(R(n \<mapsto> (n, ty, []))) j = Some (k, uy, hs)" for j k uy hs
      using that rostersD(1) [OF r] rostersD(2) [OF r, of j k uy hs] ty up by (auto split: if_splits)
    show "(j, uy) \<in> insert (n, ty) T \<longleftrightarrow> (\<exists>k hs. (R(n \<mapsto> (n, ty, []))) j = Some (k, uy, hs))" for j uy
      using rostersD(3) [OF r, of j uy] none by auto
    show "(j, l) \<in> M \<longleftrightarrow> (\<exists>k uy hs h. (R(n \<mapsto> (n, ty, []))) j = Some (k, uy, hs) \<and> h \<in> set hs \<and> GUID_LOPART h = l)" for j l
      using rostersD(4) [OF r, of j l] none by auto
    show "j = j'" if "(R(n \<mapsto> (n, ty, []))) j = Some (k, uy, hs)" "(R(n \<mapsto> (n, ty, []))) j' = Some (m, uy, hs')"
        "h \<in> set hs" "h \<in> set hs'" for j j' k m uy hs hs' h
      using that rostersD(5) [OF r, of j k uy hs j' m hs' h] by (auto split: if_splits)
  qed
qed

lemma rosters_drop:
  assumes r: "rosters R n M T"
  shows "rosters (R(i := None)) n {p \<in> M. fst p \<noteq> i} {p \<in> T. fst p \<noteq> i}"
proof (rule rostersI)
  show "0 < n" by (rule rostersD(1) [OF r])
  show "k = j \<and> 0 < j \<and> j < n \<and> uy \<in> {2, 3, 5} \<and> distinct hs \<and> length hs \<le> unat uy * 2 \<and> (\<forall>g\<in>set hs. player_guid g)"
    if "(R(i := None)) j = Some (k, uy, hs)" for j k uy hs
    using that rostersD(2) [OF r, of j k uy hs] by (auto split: if_splits)
  show "(j, uy) \<in> {p \<in> T. fst p \<noteq> i} \<longleftrightarrow> (\<exists>k hs. (R(i := None)) j = Some (k, uy, hs))" for j uy
    using rostersD(3) [OF r, of j uy] by auto
  show "(j, l) \<in> {p \<in> M. fst p \<noteq> i} \<longleftrightarrow> (\<exists>k uy hs h. (R(i := None)) j = Some (k, uy, hs) \<and> h \<in> set hs \<and> GUID_LOPART h = l)" for j l
    using rostersD(4) [OF r, of j l] by auto
  show "j = j'" if "(R(i := None)) j = Some (k, uy, hs)" "(R(i := None)) j' = Some (m, uy, hs')" "h \<in> set hs" "h \<in> set hs'"
    for j j' k m uy hs hs' h
    using that rostersD(5) [OF r, of j k uy hs j' m hs' h] by (auto split: if_splits)
qed

section \<open>What the steps of the operations change\<close>

text \<open>No two rows of a table have one key.\<close>

definition db_keyed :: "arena_db \<Rightarrow> bool" where
  "db_keyed db \<longleftrightarrow> distinct (map tr_id (db_teams db)) \<and> distinct (map (\<lambda>r. (mr_team r, mr_guid r)) (db_members db))"

definition arena_ok :: "arena_world \<Rightarrow> bool" where
  "arena_ok w \<longleftrightarrow> rosters (team_roll w) (aw_next w) (member_keys (aw_db w)) (team_keys (aw_db w)) \<and> db_keyed (aw_db w)"

text \<open>The rosters with a team that is being worked on.\<close>

definition ok_with :: "arena_team \<Rightarrow> arena_world \<Rightarrow> bool" where
  "ok_with t w \<longleftrightarrow> rosters ((team_roll w)(at_id t \<mapsto> roll_of t)) (aw_next w) (member_keys (aw_db w)) (team_keys (aw_db w)) \<and> db_keyed (aw_db w)"

definition still :: "arena_world \<Rightarrow> arena_world \<Rightarrow> bool" where
  "still w w' \<longleftrightarrow> aw_store w' = aw_store w \<and> aw_next w' = aw_next w \<and> aw_db w' = aw_db w"

lemma arena_ok_rosters: "arena_ok w \<Longrightarrow> rosters (team_roll w) (aw_next w) (member_keys (aw_db w)) (team_keys (aw_db w))"
  by (simp add: arena_ok_def)

lemma still_refl [simp]: "still w w"
  by (simp add: still_def)

lemma still_trans: "still w w1 \<Longrightarrow> still w1 w2 \<Longrightarrow> still w w2"
  by (simp add: still_def)

lemma still_fold: "(\<And>x w. still w (f x w)) \<Longrightarrow> still w (fold f xs w)"
  by (induction xs arbitrary: w) (auto intro: still_trans)

lemma still_roll: "aw_store w' = aw_store w \<Longrightarrow> team_roll w' = team_roll w"
  by (simp add: team_roll_def fun_eq_iff)

lemma still_ok: "still w w' \<Longrightarrow> arena_ok w' = arena_ok w" "still w w' \<Longrightarrow> ok_with t w' = ok_with t w"
  using still_roll [of w' w] by (simp_all add: still_def arena_ok_def ok_with_def)

lemma team_roll_put: "team_roll (w\<lparr>aw_store := sm_put i t (aw_store w)\<rparr>) = (team_roll w)(i \<mapsto> roll_of t)"
  by (auto simp: fun_eq_iff team_roll_def smap_simps)

lemma put_team_ok: "arena_ok (put_team (at_id t) (t, w)) = ok_with t w"
  by (simp add: arena_ok_def ok_with_def put_team_def team_roll_put)

lemma ok_with_stored: "arena_ok w \<Longrightarrow> GetArenaTeamById i w = Some t \<Longrightarrow> at_id t = i \<and> ok_with t w"
proof -
  assume ok: "arena_ok w" and t: "GetArenaTeamById i w = Some t"
  then have r: "team_roll w i = Some (roll_of t)" by (simp add: team_roll_def GetArenaTeamById_def)
  with rostersD(2) [OF arena_ok_rosters [OF ok], of i] have "at_id t = i" unfolding roll_of_def by blast
  moreover from this r have "(team_roll w)(at_id t \<mapsto> roll_of t) = team_roll w" by (simp add: fun_upd_idem)
  ultimately show ?thesis using ok by (simp add: ok_with_def arena_ok_def)
qed

lemma send_still [simp]: "still w (arena_emit ev w)" "still w (arena_send p opcode fs w)"
  "still w (SetArenaTeamInfoField p s f v w)" "still w (SetArenaTeamIdInvited p i w)"
  by (simp_all add: still_def arena_emit_def arena_send_def SetArenaTeamInfoField_def SetArenaTeamIdInvited_def)

lemma command_still [simp]: "still w (SendArenaTeamCommandResult p a s s' err w)"
  by (simp add: SendArenaTeamCommandResult_def)

lemma broadcast_still [simp]: "still w (arena_BroadcastPacket e opcode fs t w)" "still w (BroadcastEvent e ev g strs t w)"
  by (simp_all add: BroadcastEvent_def arena_BroadcastPacket_def still_fold)

lemma SetInArenaTeam_still [simp]: "still w (SetInArenaTeam p i s ty w)"
  by (simp add: SetInArenaTeam_def still_def SetArenaTeamInfoField_def arena_emit_def)

lemma emit_simps [simp]:
  "aw_store (arena_emit ev w) = aw_store w" "aw_next (arena_emit ev w) = aw_next w" "aw_db (arena_emit ev w) = aw_db w"
  "aw_store (arena_Execute e st w) = aw_store w" "aw_next (arena_Execute e st w) = aw_next w" "aw_db (arena_Execute e st w) = db_exec (ae_defaults e) st (aw_db w)"
  "aw_store (CommitTransaction e sts w) = aw_store w" "aw_next (CommitTransaction e sts w) = aw_next w"
  "aw_db (CommitTransaction e sts w) = fold (db_exec (ae_defaults e)) sts (aw_db w)"
  by (simp_all add: arena_emit_def arena_Execute_def CommitTransaction_def)

lemma same_key: "(\<lambda>r. if mr_team r = i \<and> mr_guid r = g then (i, g) else (mr_team r, mr_guid r)) = (\<lambda>r. (mr_team r, mr_guid r))"
  by auto

lemma db_keyed_exec: "db_keyed db \<Longrightarrow> db_keyed (db_exec d st db)"
  by (cases st) (auto simp: db_keyed_def distinct_map_filter comp_def if_distrib image_iff same_key cong: if_cong)

lemma db_keyed_fold: "db_keyed db \<Longrightarrow> db_keyed (fold (db_exec d) sts db)"
  by (induction sts arbitrary: db) (auto simp: db_keyed_exec)

declare db_exec.simps [simp del]

lemma db_fields: "db_teams (db\<lparr>db_teams := ts\<rparr>) = ts" "db_members (db\<lparr>db_members := ms\<rparr>) = ms"
  by simp_all

lemma keys_map: "(\<And>r. f (g r) = f r) \<Longrightarrow> f ` set (map g rs) = f ` set rs"
  by (simp add: image_image)

lemma keys_filter: "(\<And>r. P r \<longleftrightarrow> Q (f r)) \<Longrightarrow> f ` set (filter P rs) = {p \<in> f ` set rs. Q p}"
  by auto

lemma team_keys_exec [simp]:
  "team_keys (db_exec d (INS_ARENA_TEAM_MEMBER i g) db) = team_keys db"
  "team_keys (db_exec d (DEL_ARENA_TEAM_MEMBERS i) db) = team_keys db"
  "team_keys (db_exec d (DEL_ARENA_TEAM_MEMBER i g) db) = team_keys db"
  "team_keys (db_exec d (UPD_ARENA_TEAM_MEMBER r a b c' d' i g) db) = team_keys db"
  "team_keys (db_exec d (REP_CHARACTER_ARENA_STATS g s m) db) = team_keys db"
  by (simp_all add: team_keys_def db_exec.simps)

lemma team_keys_map [simp]:
  "team_keys (db_exec d (UPD_ARENA_TEAM_NAME nm i) db) = team_keys db"
  "team_keys (db_exec d (UPD_ARENA_TEAM_CAPTAIN g i) db) = team_keys db"
  "team_keys (db_exec d (UPD_ARENA_TEAM_STATS st i) db) = team_keys db"
  by (simp_all only: team_keys_def db_exec.simps db_fields) (rule keys_map, simp)+

lemma team_keys_del [simp]: "team_keys (db_exec d (DEL_ARENA_TEAM i) db) = {p \<in> team_keys db. fst p \<noteq> i}"
  by (simp only: team_keys_def db_exec.simps db_fields) (rule keys_filter, simp)

lemma member_keys_exec [simp]:
  "member_keys (db_exec d (INS_ARENA_TEAM i nm c ty r bg es ec bs bc) db) = member_keys db"
  "member_keys (db_exec d (DEL_ARENA_TEAM i) db) = member_keys db"
  "member_keys (db_exec d (UPD_ARENA_TEAM_NAME nm i) db) = member_keys db"
  "member_keys (db_exec d (UPD_ARENA_TEAM_CAPTAIN g i) db) = member_keys db"
  "member_keys (db_exec d (UPD_ARENA_TEAM_STATS st i) db) = member_keys db"
  "member_keys (db_exec d (REP_CHARACTER_ARENA_STATS g s m) db) = member_keys db"
  by (simp_all add: member_keys_def db_exec.simps)

lemma member_keys_upd [simp]: "member_keys (db_exec d (UPD_ARENA_TEAM_MEMBER r a b c' d' i g) db) = member_keys db"
  by (simp only: member_keys_def db_exec.simps db_fields) (rule keys_map, simp)

lemma member_keys_dels [simp]: "member_keys (db_exec d (DEL_ARENA_TEAM_MEMBERS i) db) = {p \<in> member_keys db. fst p \<noteq> i}"
  by (simp only: member_keys_def db_exec.simps db_fields) (rule keys_filter, simp)

lemma member_keys_ins [simp]: "member_keys (db_exec d (INS_ARENA_TEAM_MEMBER i g) db) = insert (i, g) (member_keys db)"
proof -
  have "(i, g) \<in> member_keys db" if "\<exists>r\<in>set (db_members db). mr_team r = i \<and> mr_guid r = g"
    using that by (auto simp: member_keys_def image_iff)
  then show ?thesis by (auto simp: member_keys_def db_exec.simps)
qed

lemma member_keys_del [simp]: "member_keys (db_exec d (DEL_ARENA_TEAM_MEMBER i g) db) = member_keys db - {(i, g)}"
  by (auto simp: member_keys_def db_exec.simps)

lemma exec_other [simp]: "db_exec d (UPD_ADD_CHAR_ARENA_POINTS pts g) db = db" "db_exec d (UPD_CHAR_ARENA_POINTS pts g) db = db"
  "db_exec d (DEL_PETITION_BY_GUID i) db = db"
  "db_exec d (DEL_PETITION_SIGNATURE_BY_GUID i) db = db"
  by (simp_all add: db_exec.simps)

lemma new_team_keys:
  "(\<And>ty. (i, ty) \<notin> team_keys db) \<Longrightarrow> team_keys (db_exec d (INS_ARENA_TEAM i nm c ty r bg es ec bs bc) db) = insert (i, ty) (team_keys db)"
  by (auto simp: team_keys_def db_exec.simps)

lemma no_team_keys:
  assumes "\<And>k ty. (k, ty) \<in> team_keys db \<Longrightarrow> 0 < k" "GetArenaTeamIdFromDB db g ty = 0" "(k, ty) \<in> team_keys db"
  shows "(k, GUID_LOPART g) \<notin> member_keys db"
proof
  assume "(k, GUID_LOPART g) \<in> member_keys db"
  then obtain r where r: "r \<in> set (db_members db)" "mr_team r = k" "mr_guid r = GUID_LOPART g" by (auto simp: member_keys_def)
  from assms(3) obtain t where t: "t \<in> set (db_teams db)" "tr_id t = k" "tr_type t = ty" by (auto simp: team_keys_def)
  have "t \<in> set (filter (\<lambda>t. tr_type t = ty) (teams_of_player db (GUID_LOPART g)))" using r t by (auto simp: teams_of_player_def)
  then obtain u us where u: "filter (\<lambda>t. tr_type t = ty) (teams_of_player db (GUID_LOPART g)) = u # us"
    by (cases "filter (\<lambda>t. tr_type t = ty) (teams_of_player db (GUID_LOPART g))") auto
  then have "u \<in> set (filter (\<lambda>t. tr_type t = ty) (teams_of_player db (GUID_LOPART g)))" by simp
  then have "(tr_id u, ty) \<in> team_keys db" by (auto simp: teams_of_player_def team_keys_def split: if_splits)
  with assms(1,2) u show False by (auto simp: GetArenaTeamIdFromDB_def)
qed

section \<open>The operations of a team\<close>

lemma arena_AddMember_cases:
  obtains (refused) "arena_AddMember e g t w = (False, t, w)"
  | (joined) t1 w1 where "arena_AddMember e g t w = (True, t1, w1)" "length (at_members t) < unat (at_type t) * 2"
      "GetArenaTeamIdFromDB (aw_db w) g (at_type t) = 0" "at_id t1 = at_id t" "at_type t1 = at_type t" "at_captain t1 = at_captain t"
      "guids t1 = guids t @ [g]" "aw_store w1 = aw_store w" "aw_next w1 = aw_next w"
      "aw_db w1 = db_exec (ae_defaults e) (INS_ARENA_TEAM_MEMBER (at_id t) (GUID_LOPART g)) (aw_db w)"
proof (cases "arena_AddMember e g t w = (False, t, w)")
  case False
  define w0 where "w0 = arena_Execute e (INS_ARENA_TEAM_MEMBER (at_id t) (GUID_LOPART g)) (arena_emit (RemovePetitions g (at_type t)) w)"
  from False obtain name cls where info: "player_info e g = Some (name, cls)" "length (at_members t) < unat (at_type t) * 2"
    "GetArenaTeamIdFromDB (aw_db w) g (at_type t) = 0" "\<not> (ae_online e g \<and> GetArenaTeamId w g (at_slot t) \<noteq> 0)"
    unfolding arena_AddMember_def by (auto split: if_splits option.splits prod.splits)
  define w1 where "w1 = (if ae_online e g then
      (let w2 = SetArenaTeamIdInvited g 0 (SetInArenaTeam g (at_id t) (at_slot t) (at_type t) w0)
       in if at_captain t \<noteq> g then SetArenaTeamInfoField g (at_slot t) INFO_MEMBER 1 w2 else w2) else w0)"
  have "still w0 w1"
    by (auto simp: w1_def Let_def still_def SetInArenaTeam_def SetArenaTeamInfoField_def SetArenaTeamIdInvited_def arena_emit_def)
  then have f: "aw_store w1 = aw_store w" "aw_next w1 = aw_next w"
    "aw_db w1 = db_exec (ae_defaults e) (INS_ARENA_TEAM_MEMBER (at_id t) (GUID_LOPART g)) (aw_db w)"
    by (simp_all add: still_def w0_def)
  have "arena_AddMember e g t w = (True, t\<lparr>at_members := at_members t @ [new_arena_member e t g name cls w]\<rparr>, w1)"
    using info by (auto simp: arena_AddMember_def w1_def w0_def Let_def)
  then show thesis by (rule joined) (use info f in \<open>simp_all add: new_arena_member_def Let_def\<close>)
qed (rule refused)

lemma rosters_pos:
  assumes r: "rosters R n M T" and k: "(k, ty) \<in> T"
  shows "0 < k"
proof -
  from k rostersD(3) [OF r] obtain j gs where "R k = Some (j, ty, gs)" by blast
  from rostersD(2) [OF r this] show ?thesis by simp
qed

lemma arena_AddMember_ok:
  assumes ok: "ok_with t w" and g: "player_guid g"
  shows "case arena_AddMember e g t w of (b, t1, w1) \<Rightarrow> ok_with t1 w1 \<and> at_id t1 = at_id t"
proof (cases rule: arena_AddMember_cases [of e g t w])
  case (joined t1 w1)
  let ?R = "(team_roll w)(at_id t \<mapsto> roll_of t)"
  have R: "?R (at_id t) = Some (at_id t, at_type t, guids t)" by (simp add: roll_of_def)
  have none: "(k, GUID_LOPART g) \<notin> member_keys (aw_db w)" if "(k, at_type t) \<in> team_keys (aw_db w)" for k
    by (rule no_team_keys [OF _ joined(3) that]) (use ok rosters_pos in \<open>auto simp: ok_with_def\<close>)
  have "rosters (?R(at_id t \<mapsto> (at_id t, at_type t, guids t @ [g]))) (aw_next w) (insert (at_id t, GUID_LOPART g) (member_keys (aw_db w)))
      (team_keys (aw_db w))"
    by (rule rosters_add [where R = ?R and i = "at_id t" and ty = "at_type t" and gs = "guids t"])
      (use ok R g joined(2) none in \<open>simp_all add: ok_with_def del: fun_upd_apply\<close>)
  moreover have "team_roll w1 = team_roll w" using joined by (simp add: team_roll_def fun_eq_iff)
  ultimately show ?thesis using joined ok by (simp add: ok_with_def roll_of_def db_keyed_exec)
qed (use ok in simp)

lemma guids_erase: "map am_guid (erase_member g ms) = remove1 g (map am_guid ms)"
  by (induction ms) auto

lemma DelMember_parts:
  "fst (DelMember e g b t w) = t\<lparr>at_members := erase_member g (at_members t)\<rparr>"
  "aw_store (snd (DelMember e g b t w)) = aw_store w" "aw_next (snd (DelMember e g b t w)) = aw_next w"
  "aw_db (snd (DelMember e g b t w)) = (if b then db_exec (ae_defaults e) (DEL_ARENA_TEAM_MEMBER (at_id t) (GUID_LOPART g)) (aw_db w) else aw_db w)"
proof -
  define w1 where "w1 = (if ae_online e g
            then fold (\<lambda>f. SetArenaTeamInfoField g (at_slot t) f 0) info_fields
              (SendArenaTeamCommandResult g ERR_ARENA_TEAM_QUIT_S (at_name t) [] 0 w) else w)"
  have "still w w1"
    unfolding w1_def by (cases "ae_online e g") (simp_all only: if_True if_False still_refl still_trans [OF command_still still_fold [OF send_still(3)]])
  moreover have "DelMember e g b t w = (t\<lparr>at_members := erase_member g (at_members t)\<rparr>,
      if b then arena_Execute e (DEL_ARENA_TEAM_MEMBER (at_id t) (GUID_LOPART g)) w1 else w1)"
    unfolding DelMember_def Let_def w1_def ..
  ultimately show "fst (DelMember e g b t w) = t\<lparr>at_members := erase_member g (at_members t)\<rparr>"
    "aw_store (snd (DelMember e g b t w)) = aw_store w" "aw_next (snd (DelMember e g b t w)) = aw_next w"
    "aw_db (snd (DelMember e g b t w)) = (if b then db_exec (ae_defaults e) (DEL_ARENA_TEAM_MEMBER (at_id t) (GUID_LOPART g)) (aw_db w) else aw_db w)"
    by (simp_all add: still_def)
qed

lemma DelMember_ok:
  assumes ok: "ok_with t w" and g: "player_guid g" and d: "DelMember e g True t w = (t1, w1)"
  shows "ok_with t1 w1" "at_id t1 = at_id t" "at_name t1 = at_name t"
proof -
  note p = DelMember_parts [of e g True t w, unfolded d]
  let ?R = "(team_roll w)(at_id t \<mapsto> roll_of t)"
  have R: "?R (at_id t) = Some (at_id t, at_type t, guids t)" by (simp add: roll_of_def)
  have "rosters (?R(at_id t \<mapsto> (at_id t, at_type t, remove1 g (guids t)))) (aw_next w) (member_keys (aw_db w) - {(at_id t, GUID_LOPART g)})
      (team_keys (aw_db w))"
    by (rule rosters_del [where R = ?R and i = "at_id t" and ty = "at_type t" and gs = "guids t"])
      (use ok R g in \<open>simp_all add: ok_with_def del: fun_upd_apply\<close>)
  moreover have "team_roll w1 = team_roll w" using p by (simp add: team_roll_def fun_eq_iff)
  ultimately show "ok_with t1 w1" using p ok by (simp add: ok_with_def roll_of_def guids_erase db_keyed_exec)
  show "at_id t1 = at_id t" "at_name t1 = at_name t" using p by simp_all
qed

lemma del_members_parts:
  "at_members t = ms \<Longrightarrow> \<exists>w1. del_members e ms t w = (t\<lparr>at_members := []\<rparr>, w1) \<and> still w w1"
proof (induction ms arbitrary: t w)
  case (Cons m ms)
  note p = DelMember_parts [of e "am_guid m" False t w]
  obtain t1 w1 where d: "DelMember e (am_guid m) False t w = (t1, w1)" by fastforce
  with p Cons.prems have t1: "t1 = t\<lparr>at_members := ms\<rparr>" and w1: "still w w1" by (simp_all add: still_def)
  from Cons.IH [of t1 w1] t1 obtain w2 where "del_members e ms t1 w1 = (t1\<lparr>at_members := []\<rparr>, w2)" "still w1 w2" by auto
  with d t1 w1 show ?case by (auto intro: still_trans)
qed simp

lemma Disband_ok:
  assumes ok: "ok_with t w"
  shows "arena_ok (arena_Disband e p t w)"
proof -
  obtain w1 where w1: "del_members e (at_members t) t w = (t\<lparr>at_members := []\<rparr>, w1)" "still w w1" using del_members_parts by blast
  define w2 where "w2 = (case p of None \<Rightarrow> w1
    | Some q \<Rightarrow> BroadcastEvent e ERR_ARENA_TEAM_DISBANDED_S 0 [ae_name e q, at_name t] (t\<lparr>at_members := []\<rparr>) w1)"
  have w2: "still w w2" using w1(2) by (auto simp: w2_def split: option.split intro: still_trans)
  have eq: "arena_Disband e p t w = RemoveArenaTeam (at_id t) (CommitTransaction e [DEL_ARENA_TEAM (at_id t), DEL_ARENA_TEAM_MEMBERS (at_id t)] w2)"
    using w1(1) by (simp add: arena_Disband_def Let_def w2_def split: option.split)
  have "team_roll (arena_Disband e p t w) = (team_roll w)(at_id t := None)"
    using w2 by (auto simp: eq fun_eq_iff team_roll_def RemoveArenaTeam_def smap_simps still_def)
  with rosters_drop [OF ok [unfolded ok_with_def, THEN conjunct1], of "at_id t"] w2 ok show ?thesis
    by (simp add: arena_ok_def ok_with_def eq RemoveArenaTeam_def still_def db_keyed_exec)
qed

text \<open>Changes of a stored team that leave its roster.\<close>

lemma restore_ok:
  assumes "arena_ok w" "GetArenaTeamById i w = Some t" "roll_of t1 = roll_of t" "aw_store w1 = aw_store w" "aw_next w1 = aw_next w"
    "member_keys (aw_db w1) = member_keys (aw_db w)" "team_keys (aw_db w1) = team_keys (aw_db w)"
    "db_keyed (aw_db w) \<Longrightarrow> db_keyed (aw_db w1)"
  shows "arena_ok (put_team i (t1, w1))"
proof -
  have "team_roll w i = Some (roll_of t)" using assms(2) by (simp add: team_roll_def GetArenaTeamById_def)
  then have "(team_roll w)(i \<mapsto> roll_of t1) = team_roll w" using assms(3) by (simp add: fun_upd_idem)
  moreover have "team_roll w1 = team_roll w" using assms(4) by (simp add: team_roll_def fun_eq_iff)
  ultimately have "team_roll (put_team i (t1, w1)) = team_roll w" by (simp add: put_team_def team_roll_put)
  with assms show ?thesis by (simp add: arena_ok_def) (simp add: put_team_def)
qed

end
