(* ===== verification/Arena_Calls.thy ===== *)
theory Arena_Calls
  imports Arena_Inv
begin

text \<open>
  The calls the server makes on arena teams (the handlers of the clients, the commands of an
  administrator, the matches and the events of a character and of the week), the worlds that they reach from an empty start, and
  the proof that each of them keeps the rosters.
\<close>

section \<open>Calls\<close>

text \<open>A call on a stored team.\<close>

definition on_team :: "u32 \<Rightarrow> (arena_team \<Rightarrow> arena_world \<Rightarrow> arena_team \<times> arena_world) \<Rightarrow> arena_world \<Rightarrow> arena_world" where
  "on_team i f w = (case GetArenaTeamById i w of None \<Rightarrow> w | Some t \<Rightarrow> put_team i (f t w))"

datatype arena_call =
    ArenaInvite u64 u32 string
  | ArenaAccept u64
  | ArenaDecline u64
  | ArenaLeave u64 u32
  | ArenaDisband u64 u32
  | ArenaRemove u64 u32 string
  | ArenaLeader u64 u32 string
  | ArenaPetition u64 u64 u32 u32 u32 u32 u32
  | ArenaInspectTeams u64 u64
  | ArenaQueryTeam u64 u32
  | ArenaRoster u64 u32
  | ArenaRename u32 string
  | ArenaWon u32 u32 u32
  | ArenaLost u32 u32 u32
  | ArenaMemberWon u32 u64 u32 int
  | ArenaMemberLost u32 u64 u32 int
  | ArenaOfflineLost u32 u64 u32 int
  | ArenaDrawn u32 int
  | ArenaSave u32
  | ArenaLogin u64
  | ArenaCharDeleted u64
  | ArenaWeekEnds
  | ArenaCommandCreate u64 string u8
  | ArenaCommandDisband u32
  | ArenaCommandCaptain u32 u64

fun run_arena :: "arena_env \<Rightarrow> arena_call \<Rightarrow> arena_world \<Rightarrow> arena_world" where
  "run_arena e (ArenaInvite p i name) w = HandleArenaTeamInvite e p i name w"
| "run_arena e (ArenaAccept p) w = HandleArenaTeamAccept e p w"
| "run_arena e (ArenaDecline p) w = HandleArenaTeamDecline p w"
| "run_arena e (ArenaLeave p i) w = HandleArenaTeamLeave e p i w"
| "run_arena e (ArenaDisband p i) w = HandleArenaTeamDisband e p i w"
| "run_arena e (ArenaRemove p i name) w = HandleArenaTeamRemove e p i name w"
| "run_arena e (ArenaLeader p i name) w = HandleArenaTeamLeader e p i name w"
| "run_arena e (ArenaPetition p petition bg ic icc bo boc) w = HandleTurnInPetition e p petition bg ic icc bo boc w"
| "run_arena e (ArenaInspectTeams p g) w = HandleInspectArenaTeams e p g w"
| "run_arena e (ArenaQueryTeam p i) w = HandleArenaTeamQuery p i w"
| "run_arena e (ArenaRoster p i) w = HandleArenaTeamRoster e p i w"
| "run_arena e (ArenaRename i name) w = on_team i (\<lambda>t w. snd (arena_set_name e name t w)) w"
| "run_arena e (ArenaWon i own opp) w = on_team i (\<lambda>t w. snd (snd (WonAgainst e own opp t w))) w"
| "run_arena e (ArenaLost i own opp) w = on_team i (\<lambda>t w. snd (snd (LostAgainst e own opp t w))) w"
| "run_arena e (ArenaMemberWon i p against change) w = on_team i (MemberWon e p against change) w"
| "run_arena e (ArenaMemberLost i p against change) w = on_team i (MemberLost e p against change) w"
| "run_arena e (ArenaOfflineLost i g against change) w = on_team i (OfflineMemberLost e g against change) w"
| "run_arena e (ArenaDrawn i change) w = on_team i (FinishGame e change) w"
| "run_arena e (ArenaSave i) w = on_team i (\<lambda>t w. (t, arena_SaveToDB e t w)) w"
| "run_arena e (ArenaLogin p) w = arena_login p w"
| "run_arena e (ArenaCharDeleted g) w = LeaveAllArenaTeams e g w"
| "run_arena e ArenaWeekEnds w = DistributeArenaPoints e w"
| "run_arena e (ArenaCommandCreate p name type) w = HandleArenaCreateCommand e p name type w"
| "run_arena e (ArenaCommandDisband i) w = HandleArenaDisbandCommand e i w"
| "run_arena e (ArenaCommandCaptain i p) w = HandleArenaCaptainCommand e i p w"

text \<open>The players who act are players.\<close>

fun call_player :: "arena_call \<Rightarrow> u64 option" where
  "call_player (ArenaAccept p) = Some p"
| "call_player (ArenaLeave p i) = Some p"
| "call_player (ArenaPetition p petition bg ic icc bo boc) = Some p"
| "call_player (ArenaCharDeleted g) = Some g"
| "call_player (ArenaCommandCreate p name type) = Some p"
| "call_player c = None"

definition no_arena :: arena_world where
  "no_arena = \<lparr>aw_store = [], aw_next = 1, aw_info = (\<lambda>p s f. 0), aw_invited = (\<lambda>p. 0), aw_points = (\<lambda>p. 0),
     aw_db = \<lparr>db_teams = [], db_members = [], db_mmr = []\<rparr>, aw_out = []\<rparr>"

text \<open>The server runs as long as it has ids for new teams.\<close>

inductive arena_reach :: "arena_world \<Rightarrow> bool" where
  ArenaStart: "arena_reach no_arena"
| ArenaCall: "arena_reach w \<Longrightarrow> (\<And>p. call_player c = Some p \<Longrightarrow> player_guid p) \<Longrightarrow> aw_next w < 0xFFFFFFFE
    \<Longrightarrow> arena_reach (run_arena e c w)"

section \<open>Every call keeps the rosters\<close>

lemma upd_member_parts:
  assumes "\<And>m w. am_guid (fst (f m w)) = am_guid m \<and> still w (snd (f m w))"
  shows "map am_guid (fst (upd_member g f ms w)) = map am_guid ms \<and> still w (snd (upd_member g f ms w))"
proof (induction ms)
  case (Cons m ms)
  with assms [of m w] show ?case by (auto simp: split_beta Let_def)
qed simp

lemma on_member_parts:
  assumes "\<And>m w. am_guid (fst (f m w)) = am_guid m \<and> still w (snd (f m w))"
  shows "roll_of (fst (on_member g f t w)) = roll_of t \<and> still w (snd (on_member g f t w))"
  using upd_member_parts [of f g "at_members t" w] assms by (simp add: on_member_def split_beta Let_def roll_of_def)

lemma Modify_parts:
  "am_guid (fst (ModifyPersonalRating p m ty mem w)) = am_guid mem" "still w (snd (ModifyPersonalRating p m ty mem w))"
  "am_guid (ModifyMatchmakerRating m mem) = am_guid mem"
  by (auto simp: ModifyPersonalRating_def ModifyMatchmakerRating_def Let_def split: option.split intro: still_trans [OF _ send_still(1)])

lemma info_after: "still w w' \<Longrightarrow> still w (SetArenaTeamInfoField p s f v w')"
  by (rule still_trans [OF _ send_still(3)])

lemma match_parts:
  "roll_of (fst (MemberWon e p a c t w)) = roll_of t \<and> still w (snd (MemberWon e p a c t w))"
  "roll_of (fst (MemberLost e p a c t w)) = roll_of t \<and> still w (snd (MemberLost e p a c t w))"
  "roll_of (fst (OfflineMemberLost e p a c t w)) = roll_of t \<and> still w (snd (OfflineMemberLost e p a c t w))"
  unfolding MemberWon_def MemberLost_def OfflineMemberLost_def
  by (rule on_member_parts, simp add: Let_def split_beta Modify_parts info_after)+

lemma FinishGame_parts: "roll_of (fst (FinishGame e m t w)) = roll_of t \<and> still w (snd (FinishGame e m t w))"
  by (auto simp: FinishGame_def Let_def roll_of_def intro!: still_fold)

lemma against_parts:
  "roll_of (fst (snd (snd (WonAgainst e own opp t w)))) = roll_of t \<and> still w (snd (snd (snd (WonAgainst e own opp t w))))"
  "roll_of (fst (snd (snd (LostAgainst e own opp t w)))) = roll_of t \<and> still w (snd (snd (snd (LostAgainst e own opp t w))))"
  using FinishGame_parts by (auto simp: WonAgainst_def LostAgainst_def Let_def split_beta roll_of_def)

lemma on_team_ok:
  assumes "arena_ok w" and f: "\<And>t. roll_of (fst (f t w)) = roll_of t \<and> still w (snd (f t w))"
  shows "arena_ok (on_team i f w)"
proof (cases "GetArenaTeamById i w")
  case (Some t)
  obtain t1 w1 where "f t w = (t1, w1)" by fastforce
  with f [of t] Some restore_ok [OF assms(1) Some, of t1 w1] show ?thesis by (simp add: on_team_def still_def)
qed (use assms in \<open>simp add: on_team_def\<close>)

lemma keys_save: "member_keys (fold (db_exec d) (concat (map (save_member_stmts t) ms)) db) = member_keys db
    \<and> team_keys (fold (db_exec d) (concat (map (save_member_stmts t) ms)) db) = team_keys db"
  by (induction ms arbitrary: db) (simp_all add: save_member_stmts_def)

lemma SaveToDB_parts: "aw_store (arena_SaveToDB e t w) = aw_store w" "aw_next (arena_SaveToDB e t w) = aw_next w"
  "member_keys (aw_db (arena_SaveToDB e t w)) = member_keys (aw_db w)" "team_keys (aw_db (arena_SaveToDB e t w)) = team_keys (aw_db w)"
  by (simp_all add: arena_SaveToDB_def keys_save)

lemma SaveToDB_keyed: "db_keyed (aw_db w) \<Longrightarrow> db_keyed (aw_db (arena_SaveToDB e t w))"
  by (simp add: arena_SaveToDB_def db_keyed_exec db_keyed_fold)

lemma on_team_restore:
  assumes "arena_ok w" and f: "\<And>t. roll_of (fst (f t w)) = roll_of t \<and> aw_store (snd (f t w)) = aw_store w \<and> aw_next (snd (f t w)) = aw_next w
    \<and> member_keys (aw_db (snd (f t w))) = member_keys (aw_db w) \<and> team_keys (aw_db (snd (f t w))) = team_keys (aw_db w)
    \<and> (db_keyed (aw_db w) \<longrightarrow> db_keyed (aw_db (snd (f t w))))"
  shows "arena_ok (on_team i f w)"
proof (cases "GetArenaTeamById i w")
  case (Some t)
  obtain t1 w1 where "f t w = (t1, w1)" by fastforce
  with f [of t] Some restore_ok [OF assms(1) Some, of t1 w1] show ?thesis by (simp add: on_team_def)
qed (use assms in \<open>simp add: on_team_def\<close>)

lemma after_still: "arena_ok w \<Longrightarrow> still w w' \<Longrightarrow> arena_ok w'"
  using still_ok(1) by blast

lemma stored_member:
  assumes "arena_ok w" "GetArenaTeamById i w = Some t" "m \<in> set (at_members t)"
  shows "player_guid (am_guid m)"
  using assms(2,3) rostersD(2) [OF arena_ok_rosters [OF assms(1)], of i "at_id t" "at_type t" "guids t"]
  by (auto simp: team_roll_def GetArenaTeamById_def roll_of_def)

text \<open>The handlers.\<close>

lemma leave_ok:
  assumes ok: "arena_ok w" and t: "GetArenaTeamById i w = Some t" and g: "player_guid g"
  shows "arena_ok (put_team i (DelMember e g True t w))"
proof -
  obtain t1 w1 where d: "DelMember e g True t w = (t1, w1)" by fastforce
  from ok_with_stored [OF ok t] have "at_id t = i" "ok_with t w" by simp_all
  with DelMember_ok [OF _ g d] put_team_ok [of t1 w1] d show ?thesis by simp
qed

lemma Accept_ok:
  assumes ok: "arena_ok w" and p: "player_guid p"
  shows "arena_ok (HandleArenaTeamAccept e p w)"
proof (cases "GetArenaTeamById (aw_invited w p) w")
  case (Some t)
  obtain b t1 w1 where a: "arena_AddMember e p t w = (b, t1, w1)" by (metis prod_cases3)
  from ok_with_stored [OF ok Some] have i: "at_id t = aw_invited w p" "ok_with t w" by simp_all
  from arena_AddMember_ok [OF i(2) p, of e] a have t1: "ok_with t1 w1" "at_id t1 = at_id t" by simp_all
  then have stored: "arena_ok (put_team (aw_invited w p) (t1, w1))" using put_team_ok [of t1 w1] i(1) by simp
  have refused: "\<not> b \<Longrightarrow> w1 = w" using a by (cases rule: arena_AddMember_cases [of e p t w]) auto
  show ?thesis
    using Some a stored refused ok
    by (auto simp: HandleArenaTeamAccept_def Let_def intro: after_still)
qed (simp add: HandleArenaTeamAccept_def ok)

lemma Leave_ok:
  assumes ok: "arena_ok w" and p: "player_guid p"
  shows "arena_ok (HandleArenaTeamLeave e p i w)"
proof (cases "GetArenaTeamById i w")
  case (Some t)
  obtain t1 w1 where d: "DelMember e p True t w = (t1, w1)" by fastforce
  from leave_ok [OF ok Some p, of e] d have "arena_ok (put_team i (t1, w1))" by simp
  moreover have "arena_ok (arena_Disband e (Some p) t w)" using Disband_ok ok_with_stored [OF ok Some] by blast
  ultimately show ?thesis
    using Some d ok by (auto simp: HandleArenaTeamLeave_def Let_def intro: after_still still_trans [OF broadcast_still(2) command_still])
qed (simp add: HandleArenaTeamLeave_def ok)

lemma Disband_handler_ok: "arena_ok w \<Longrightarrow> arena_ok (HandleArenaTeamDisband e p i w)"
  using ok_with_stored [of w i] Disband_ok by (auto simp: HandleArenaTeamDisband_def split: option.split)

lemma Remove_ok:
  assumes ok: "arena_ok w"
  shows "arena_ok (HandleArenaTeamRemove e p i name w)"
proof (cases "GetArenaTeamById i w")
  case (Some t)
  have "arena_ok (put_team i (DelMember e (am_guid m) True t w))" if "member_by_name t n = Some m" for n m
    using leave_ok [OF ok Some stored_member [OF ok Some]] that by (auto simp: member_by_name_def find_Some_iff)
  with Some ok show ?thesis
    by (auto simp: HandleArenaTeamRemove_def Let_def split_beta split: option.split intro!: after_still [OF _ broadcast_still(2)] after_still [OF _ command_still])
qed (simp add: HandleArenaTeamRemove_def ok)

lemma SetCaptain_parts:
  "roll_of (fst (SetCaptain e g t w)) = roll_of t" "aw_store (snd (SetCaptain e g t w)) = aw_store w" "aw_next (snd (SetCaptain e g t w)) = aw_next w"
  "member_keys (aw_db (snd (SetCaptain e g t w))) = member_keys (aw_db w)" "team_keys (aw_db (snd (SetCaptain e g t w))) = team_keys (aw_db w)"
proof -
  have info: "aw_store (SetArenaTeamInfoField p s f v w) = aw_store w" "aw_next (SetArenaTeamInfoField p s f v w) = aw_next w"
    "aw_db (SetArenaTeamInfoField p s f v w) = aw_db w" for p s f v w
    using send_still(3) [of w p s f v] by (simp_all add: still_def)
  show "roll_of (fst (SetCaptain e g t w)) = roll_of t" "aw_store (snd (SetCaptain e g t w)) = aw_store w" "aw_next (snd (SetCaptain e g t w)) = aw_next w"
    "member_keys (aw_db (snd (SetCaptain e g t w))) = member_keys (aw_db w)" "team_keys (aw_db (snd (SetCaptain e g t w))) = team_keys (aw_db w)"
    by (simp_all add: SetCaptain_def Let_def roll_of_def info)
qed

lemma SetCaptain_keyed: "db_keyed (aw_db w) \<Longrightarrow> db_keyed (aw_db (snd (SetCaptain e g t w)))"
  using send_still(3) by (auto simp: SetCaptain_def Let_def still_def db_keyed_exec)

lemma Leader_ok:
  assumes ok: "arena_ok w"
  shows "arena_ok (HandleArenaTeamLeader e p i name w)"
proof (cases "GetArenaTeamById i w")
  case (Some t)
  have "arena_ok (put_team i (SetCaptain e g t w))" for g
    using restore_ok [OF ok Some, of "fst (SetCaptain e g t w)" "snd (SetCaptain e g t w)"] SetCaptain_parts [of e g t w] SetCaptain_keyed [of w e g t] by simp
  with Some ok show ?thesis
    by (auto simp: HandleArenaTeamLeader_def Let_def split_beta split: option.split intro!: after_still [OF _ broadcast_still(2)] after_still [OF _ command_still])
qed (simp add: HandleArenaTeamLeader_def ok)

text \<open>A team is founded.\<close>

lemma new_team_ok:
  assumes ok: "arena_ok w" and n: "aw_next w < 0xFFFFFFFE" and ty: "ty \<in> {2, 3, 5}"
    and t: "at_id t = aw_next w" "at_type t = ty" "at_members t = []"
  shows "ok_with t (arena_Execute e (INS_ARENA_TEAM (aw_next w) name c ty r bg es ec bs bc) (w\<lparr>aw_next := aw_next w + 1\<rparr>))"
proof -
  note new = rosters_new [OF arena_ok_rosters [OF ok] n ty]
  have "(aw_next w, uy) \<notin> team_keys (aw_db w)" for uy
    using rostersD(3) [OF arena_ok_rosters [OF ok], of "aw_next w" uy] new(1) by simp
  from new_team_keys [OF this, of "ae_defaults e" name c ty r bg es ec bs bc] new(2) t show ?thesis
    using ok by (simp add: ok_with_def arena_ok_def roll_of_def team_roll_def [abs_def] db_keyed_exec)
qed

lemma add_signers_ok:
  "ok_with t w \<Longrightarrow> (\<And>g. g \<in> set gs \<Longrightarrow> True) \<Longrightarrow> case add_signers e gs t w of (t1, w1) \<Rightarrow> ok_with t1 w1 \<and> at_id t1 = at_id t"
proof (induction gs arbitrary: t w)
  case (Cons g gs)
  obtain b t1 w1 where a: "arena_AddMember e (MAKE_NEW_GUID g 0 HIGHGUID_PLAYER) t w = (b, t1, w1)" by (metis prod_cases3)
  from arena_AddMember_ok [OF Cons.prems(1) make_player, of e g] a have "ok_with t1 w1" "at_id t1 = at_id t" by simp_all
  with Cons.IH [of t1 w1] a show ?case by (simp add: split_beta)
qed simp

lemma ok_with_added: "ok_with t (AddArenaTeam t w) = ok_with t w"
  by (simp add: ok_with_def AddArenaTeam_def team_roll_put)

lemma found_team_ok:
  assumes ok: "arena_ok w" and n: "aw_next w < 0xFFFFFFFE" and ty: "ty \<in> {2, 3, 5}" and p: "player_guid p"
  shows "arena_ok (snd (found_team e p ty name bg ic icc bo boc signers w))"
proof (cases "\<not> ae_online e p \<or> GetArenaTeamByName [] w \<noteq> None")
  case True
  then have "arena_Create e p ty name bg (ucast ic) icc (ucast bo) boc (new_arena_team e) w = (False, new_arena_team e, w)"
    by (auto simp: arena_Create_def new_arena_team_def)
  then show ?thesis using ok by (simp add: found_team_def)
next
  case False
  define t0 where "t0 = (new_arena_team e)\<lparr>at_id := aw_next w, at_captain := p, at_type := ty, at_name := name, at_background := bg,
    at_emblemStyle := ucast ic, at_emblemColor := icc, at_borderStyle := ucast bo, at_borderColor := boc\<rparr>"
  define w0 where "w0 = arena_Execute e (INS_ARENA_TEAM (aw_next w) name (GUID_LOPART p) ty (as_rating (at_stats (new_arena_team e))) bg (ucast ic) icc (ucast bo) boc)
    (w\<lparr>aw_next := aw_next w + 1\<rparr>)"
  have gen: "GenerateArenaTeamId w = (aw_next w, w\<lparr>aw_next := aw_next w + 1\<rparr>)" using n by (simp add: GenerateArenaTeamId_def Let_def not_le)
  have t0: "ok_with t0 w0" unfolding w0_def by (rule new_team_ok [OF ok n ty]) (simp_all add: t0_def new_arena_team_def)
  obtain b t1 w1 where a: "arena_AddMember e p t0 w0 = (b, t1, w1)" by (metis prod_cases3)
  have c: "arena_Create e p ty name bg (ucast ic) icc (ucast bo) boc (new_arena_team e) w = (True, t1, w1)"
    using False a by (simp add: arena_Create_def Let_def gen t0_def w0_def) (simp add: new_arena_team_def)
  from arena_AddMember_ok [OF t0 p, of e] a have "ok_with t1 (AddArenaTeam t1 w1)" by (simp add: ok_with_added)
  from add_signers_ok [OF this, of signers e] obtain t2 w2 where
    s: "add_signers e signers t1 (AddArenaTeam t1 w1) = (t2, w2)" "ok_with t2 w2" "at_id t2 = at_id t1" by auto
  with c put_team_ok [of t2 w2] show ?thesis by (simp add: found_team_def)
qed

lemma slot_type: "GetSlotByType ty < MAX_ARENA_SLOT \<Longrightarrow> ty \<in> {2, 3, 5}"
  by (auto simp: GetSlotByType_def MAX_ARENA_SLOT_def ARENA_TEAM_2v2_def ARENA_TEAM_3v3_def ARENA_TEAM_5v5_def split: if_splits)

lemma Petition_ok:
  assumes ok: "arena_ok w" and n: "aw_next w < 0xFFFFFFFE" and p: "player_guid p"
  shows "arena_ok (HandleTurnInPetition e p petition bg ic icc bo boc w)"
proof (cases "ae_petition e (GUID_LOPART petition)")
  case (Some pet)
  obtain owner name ty where pet: "pet = (owner, name, ty)" by (metis prod_cases3)
  have founded: "arena_ok (arena_send p opcode fs (CommitTransaction e [DEL_PETITION_BY_GUID i, DEL_PETITION_SIGNATURE_BY_GUID i] w1))" "arena_ok w1"
    if "found_team e p ty name bg ic icc bo boc signers (arena_emit (DestroyCharter p petition) w) = (b, w1)" "GetSlotByType ty < MAX_ARENA_SLOT"
    for b w1 signers opcode fs i
  proof -
    have "arena_ok (arena_emit (DestroyCharter p petition) w)" by (rule after_still [OF ok send_still(1)])
    from found_team_ok [OF this _ slot_type [OF that(2)] p, of e name bg ic icc bo boc signers] n that(1) show "arena_ok w1" by simp
    from after_still [OF this] show "arena_ok (arena_send p opcode fs (CommitTransaction e [DEL_PETITION_BY_GUID i, DEL_PETITION_SIGNATURE_BY_GUID i] w1))"
      by (auto intro!: after_still [OF _ send_still(2)] simp: still_def)
  qed
  show ?thesis
    using ok by (auto simp: HandleTurnInPetition_def Some pet Let_def not_le founded split: prod.split
      intro!: after_still [OF _ send_still(1)] after_still [OF _ send_still(2)] after_still [OF _ command_still])
qed (simp add: HandleTurnInPetition_def ok)

lemma CreateCommand_ok:
  "arena_ok w \<Longrightarrow> aw_next w < 0xFFFFFFFE \<Longrightarrow> player_guid p \<Longrightarrow> arena_ok (HandleArenaCreateCommand e p name ty w)"
  by (auto simp: HandleArenaCreateCommand_def intro!: found_team_ok)

lemma DisbandCommand_ok: "arena_ok w \<Longrightarrow> arena_ok (HandleArenaDisbandCommand e i w)"
  using ok_with_stored [of w i] Disband_ok by (auto simp: HandleArenaDisbandCommand_def split: option.split)

lemma CaptainCommand_ok:
  assumes ok: "arena_ok w"
  shows "arena_ok (HandleArenaCaptainCommand e i p w)"
proof (cases "GetArenaTeamById i w")
  case (Some t)
  have "arena_ok (put_team i (SetCaptain e p t w))"
    using restore_ok [OF ok Some, of "fst (SetCaptain e p t w)" "snd (SetCaptain e p t w)"] SetCaptain_parts [of e p t w] SetCaptain_keyed [of w e p t] by simp
  with Some ok show ?thesis by (simp add: HandleArenaCaptainCommand_def)
qed (simp add: HandleArenaCaptainCommand_def ok)

text \<open>A character is deleted, the week ends, a player logs in.\<close>

lemma fold_ok: "(\<And>x w. x \<in> set xs \<Longrightarrow> arena_ok w \<Longrightarrow> arena_ok (f x w)) \<Longrightarrow> arena_ok w \<Longrightarrow> arena_ok (fold f xs w)"
  by (induction xs arbitrary: w) auto

lemma LeaveAll_ok: "arena_ok w \<Longrightarrow> player_guid g \<Longrightarrow> arena_ok (LeaveAllArenaTeams e g w)"
  unfolding LeaveAllArenaTeams_def
proof (rule fold_ok)
  fix r w assume ok: "arena_ok w" and g: "player_guid g"
  show "arena_ok (if tr_id r = 0 then w else case GetArenaTeamById (tr_id r) w of None \<Rightarrow> w
      | Some t \<Rightarrow> let (t1, w1) = DelMember e g True t w in w1\<lparr>aw_store := sm_put (tr_id r) t1 (aw_store w1)\<rparr>)"
    using leave_ok [OF ok _ g, of "tr_id r" _ e] ok by (auto simp: put_team_def split_beta split: option.split)
qed

lemma SetArenaPoints_still: "still w (SetArenaPoints e p v w)"
  by (simp add: SetArenaPoints_def still_def Let_def)

lemma give_points_one: "still w (snd (give_points e x (sts, w)))"
  by (cases x) (simp add: give_points_def ModifyArenaPoints_def SetArenaPoints_still Let_def)

lemma give_points_still: "still w (snd (fold (give_points e) ps (sts, w)))"
proof (induction ps arbitrary: sts w)
  case (Cons x ps)
  obtain sts1 w1 where x: "give_points e x (sts, w) = (sts1, w1)" by fastforce
  with give_points_one [of w e x sts] Cons.IH [of w1 sts1] show ?case by (auto intro: still_trans)
qed simp

definition points_stmt :: "arena_stmt \<Rightarrow> bool" where
  "points_stmt st \<longleftrightarrow> (\<exists>pts g. st = UPD_ADD_CHAR_ARENA_POINTS pts g \<or> st = UPD_CHAR_ARENA_POINTS pts g)"

lemma give_points_stmts: "(\<forall>st\<in>set sts. points_stmt st) \<Longrightarrow> \<forall>st\<in>set (fst (fold (give_points e) ps (sts, w))). points_stmt st"
proof (induction ps arbitrary: sts w)
  case (Cons x ps)
  obtain sts1 w1 where x: "give_points e x (sts, w) = (sts1, w1)" by fastforce
  then have "\<forall>st\<in>set sts1. points_stmt st"
    using Cons.prems by (cases x) (auto simp: give_points_def ModifyArenaPoints_def Let_def points_stmt_def split: if_splits)
  from Cons.IH [OF this, of w1] x show ?case by simp
qed simp

lemma points_nothing: "\<forall>st\<in>set sts. points_stmt st \<Longrightarrow> fold (db_exec d) sts db = db"
  by (induction sts) (auto simp: points_stmt_def)

lemma Notify_still: "still w (NotifyStatsChanged e t w)"
  by (auto simp: NotifyStatsChanged_def SendStats_def Let_def intro: still_fold)

lemma roll_FinishWeek: "roll_of (FinishWeek t) = roll_of t"
  by (simp add: roll_of_def FinishWeek_def)

lemma end_week_ok:
  assumes ok: "arena_ok w"
  shows "arena_ok (end_week e i w)"
proof (cases "GetArenaTeamById i w")
  case (Some t)
  have "arena_ok (arena_SaveToDB e (FinishWeek t) (put_team i (FinishWeek t, w)))"
    using restore_ok [OF ok Some roll_FinishWeek, of w] SaveToDB_parts [of e "FinishWeek t" "put_team i (FinishWeek t, w)"] SaveToDB_keyed [of "put_team i (FinishWeek t, w)" e "FinishWeek t"]
    by (simp add: arena_ok_def team_roll_def [abs_def])
  with Some Notify_still show ?thesis by (auto simp: end_week_def Let_def put_team_def intro: after_still)
qed (simp add: end_week_def ok)

lemma Distribute_ok: "arena_ok w \<Longrightarrow> arena_ok (DistributeArenaPoints e w)"
proof -
  assume ok: "arena_ok w"
  define w1 where "w1 = arena_emit (ArenaText 742) (arena_emit (ArenaText 741) w)"
  obtain sts w2 where g: "fold (give_points e) (week_points e w1) ([], w1) = (sts, w2)" by fastforce
  have "still w1 w2" "\<forall>st\<in>set sts. points_stmt st"
    using give_points_still [of w1 e "week_points e w1" "[]"] give_points_stmts [of "[]" e "week_points e w1" w1] g by simp_all
  then have "still w1 (CommitTransaction e sts w2)" by (simp add: still_def points_nothing)
  moreover have "still w w1" by (simp add: w1_def still_def)
  ultimately have s: "still w (arena_emit (ArenaText 744) (arena_emit (ArenaText 743) (CommitTransaction e sts w2)))"
    by (simp add: still_def)
  have "arena_ok (fold (end_week e) is w')" if "arena_ok w'" for "is" w' by (rule fold_ok [OF end_week_ok that])
  with after_still [OF ok s] g show ?thesis
    by (simp add: DistributeArenaPoints_def Let_def flip: w1_def) (rule after_still [OF _ still_trans [OF send_still(1) send_still(1)]], simp)
qed

lemma load_info_still: "still w (snd (load_info_row p r (ratings, w)))"
  by (auto simp: load_info_row_def Let_def split: option.split intro!: info_after)

lemma load_infos_still: "still w (snd (fold (load_info_row p) rows (ratings, w)))"
proof (induction rows arbitrary: ratings w)
  case (Cons r rows)
  obtain ratings1 w1 where "load_info_row p r (ratings, w) = (ratings1, w1)" by fastforce
  with Cons.IH [of w1 ratings1] load_info_still [of w p r ratings] show ?case by (auto intro: still_trans)
qed simp

lemma login_still: "still w (arena_login p w)"
proof -
  have "still w (LoadArenaTeamInfo p rows w)" for rows w
  proof -
    define w1 where "w1 = w\<lparr>aw_info := (aw_info w)(p := (\<lambda>s f. if s < MAX_ARENA_SLOT then 0 else aw_info w p s f))\<rparr>"
    obtain ratings w2 where l: "fold (load_info_row p) rows ((\<lambda>s. 0), w1) = (ratings, w2)" by fastforce
    then have "still w1 w2" using load_infos_still [of w1 p rows "\<lambda>s. 0"] by simp
    then have "still w w2" by (simp add: still_def w1_def)
    with l show ?thesis
      by (simp add: LoadArenaTeamInfo_def Let_def flip: w1_def) (auto intro!: info_after)
  qed
  moreover have "still w (check_arena_teams p w)" for w
    unfolding check_arena_teams_def by (rule still_fold) (auto simp: Let_def intro!: still_fold)
  ultimately show ?thesis unfolding arena_login_def by (meson send_still(4) still_trans)
qed

lemma Invite_still: "still w (HandleArenaTeamInvite e p i name w)"
proof -
  have "still w (invite_player e p i q w)" for q
    unfolding invite_player_def
    by (cases "GetArenaTeamById i w") (simp_all add: still_trans [OF send_still(4) send_still(2)])
  then show ?thesis by (simp add: HandleArenaTeamInvite_def split: option.split prod.split)
qed

lemma Inspect_still: "still w (arena_Inspect p g t w)"
  by (simp add: arena_Inspect_def split: option.split)

lemma query_still: "still w (HandleInspectArenaTeams e p g w)" "still w (HandleArenaTeamQuery p i w)" "still w (HandleArenaTeamRoster e p i w)"
proof -
  have one: "still w (let i = GetArenaTeamId w g s in if i = 0 then w else
      (case GetArenaTeamById i w of None \<Rightarrow> w | Some t \<Rightarrow> arena_Inspect p g t w))" for s w
    by (simp add: Let_def Inspect_still split: option.split)
  then show "still w (HandleInspectArenaTeams e p g w)" unfolding HandleInspectArenaTeams_def
    by (cases "\<not> ae_online e g \<or> \<not> ae_inspects e p g") (simp_all only: if_True if_False still_refl still_fold [OF one])
  show "still w (HandleArenaTeamQuery p i w)"
    by (simp add: HandleArenaTeamQuery_def SendStats_def arena_Query_def Let_def still_trans [OF send_still(2) send_still(2)] split: option.split)
  show "still w (HandleArenaTeamRoster e p i w)" by (simp add: HandleArenaTeamRoster_def Roster_def split: option.split)
qed

lemma run_arena_ok:
  assumes ok: "arena_ok w" and p: "\<And>p. call_player c = Some p \<Longrightarrow> player_guid p" and n: "aw_next w < 0xFFFFFFFE"
  shows "arena_ok (run_arena e c w)"
proof (cases c)
  case (ArenaRename i name)
  with on_team_restore [OF ok] show ?thesis by (auto simp: arena_set_name_def roll_of_def db_keyed_exec)
next
  case (ArenaSave i)
  with on_team_restore [OF ok] SaveToDB_parts SaveToDB_keyed show ?thesis by auto
next
  case (ArenaDecline p)
  then show ?thesis using after_still [OF ok send_still(4)] by (simp add: HandleArenaTeamDecline_def)
qed (use ok p n in \<open>auto simp: CreateCommand_ok DisbandCommand_ok CaptainCommand_ok Accept_ok Leave_ok Disband_handler_ok Remove_ok Leader_ok Petition_ok LeaveAll_ok Distribute_ok
    intro: after_still Invite_still query_still login_still intro!: on_team_ok match_parts against_parts FinishGame_parts\<close>)

lemma no_arena_ok: "arena_ok no_arena"
  by (simp add: arena_ok_def rosters_def team_roll_def no_arena_def member_keys_def team_keys_def db_keyed_def)

lemma arena_reach_ok: "arena_reach w \<Longrightarrow> arena_ok w"
  by (induction rule: arena_reach.induct) (auto intro: no_arena_ok run_arena_ok)

end
