(* ===== verification/Arena_Points.thy ===== *)
theory Arena_Points
  imports Arena_Calls
begin

text \<open>
  The games a member needs for the points of a week. \<open>ceil(WeekGames * 0.3f)\<close> multiplies two
  floats; this theory follows the product through its rounding, for every number of games.
\<close>

section \<open>Packing a significand\<close>

lemma int_le_div: "0 < (d::int) \<Longrightarrow> a \<le> n div d \<longleftrightarrow> a * d \<le> n"
proof
  assume d: "0 < d" and "a \<le> n div d"
  then have "a * d \<le> n div d * d" by simp
  also have "\<dots> \<le> n" using d pos_mod_sign [of d n] div_mult_mod_eq [of n d] by linarith
  finally show "a * d \<le> n" .
next
  assume d: "0 < d" and "a * d \<le> n"
  from zdiv_mono1 [OF this(2) d] d show "a \<le> n div d" by simp
qed

lemma int_div_less: "0 < (d::int) \<Longrightarrow> n div d < a \<longleftrightarrow> n < a * d"
  using int_le_div [of d a n] by (simp add: not_le [symmetric])

lemma bit_length_eq: "2 ^ k \<le> n \<Longrightarrow> n < 2 ^ Suc k \<Longrightarrow> bit_length n = Suc k"
proof (induction k arbitrary: n)
  case 0
  then have "n = 1" by simp
  then show ?case by (simp add: bit_length.simps [of 1] bit_length.simps [of 0])
next
  case (Suc k)
  have "2 ^ k \<le> n div 2" "n div 2 < 2 ^ Suc k" using Suc.prems by simp_all
  from Suc.IH [OF this] have "bit_length (n div 2) = Suc k" .
  moreover have "0 < n" using Suc.prems(1) by (rule less_le_trans [rotated]) simp
  ultimately show ?case by (simp add: bit_length.simps [of n])
qed

lemma bit_length_bounds: "0 < n \<Longrightarrow> \<exists>k. bit_length n = Suc k \<and> 2 ^ k \<le> n \<and> n < 2 ^ Suc k"
proof (induction n rule: bit_length.induct)
  case (1 n)
  show ?case
  proof (cases "n = 1")
    case True
    have "bit_length n = Suc 0 \<and> 2 ^ 0 \<le> n \<and> n < 2 ^ Suc 0"
      using True by (simp add: bit_length.simps [of 1] bit_length.simps [of 0])
    then show ?thesis by blast
  next
    case False
    with 1(2) have n: "\<not> n \<le> 0" "0 < n div 2" by auto
    from 1(1) [OF n] obtain k where k: "bit_length (n div 2) = Suc k" "2 ^ k \<le> n div 2" "n div 2 < 2 ^ Suc k" by blast
    have "bit_length n = Suc (Suc k)" using 1(2) k(1) by (simp add: bit_length.simps [of n])
    moreover have "2 * z \<le> n \<and> n < 4 * z" if "z \<le> n div 2" "n div 2 < 2 * z" for z :: int using that by linarith
    from this [OF k(2)] k(3) have "2 ^ Suc k \<le> n \<and> n < 2 ^ Suc (Suc k)" by simp
    ultimately show ?thesis by blast
  qed
qed

text \<open>A positive float by its significand \<open>m\<close> and its exponent \<open>p\<close>.\<close>

definition is_float :: "f32 \<Rightarrow> int \<Rightarrow> int \<Rightarrow> bool" where
  "is_float x m p \<longleftrightarrow> \<not> f32_neg x \<and> f32_sig x = m \<and> f32_exp x = p \<and> 0 < f32_mag x \<and> f32_biased x < 255"

lemma make_parts:
  assumes "0 \<le> b" "b < 2 ^ 31"
  shows "\<not> f32_neg (f32_make False b)" "f32_mag (f32_make False b) = b"
proof -
  have u: "uint (f32_make False b) = b" using assms by (simp add: f32_make_def uint_word_of_int_eq take_bit_int_eq_self)
  then show "f32_mag (f32_make False b) = b" using assms by (simp add: f32_mag_def)
  have "bit (f32_make False b) 31 \<longleftrightarrow> bit (uint (f32_make False b)) 31" by (simp add: bit_uint_iff)
  then have "bit (f32_make False b) 31 \<longleftrightarrow> odd (uint (f32_make False b) div 2 ^ 31)" by (simp add: bit_iff_odd)
  then show "\<not> f32_neg (f32_make False b)" using assms u by (simp add: f32_neg_def)
qed

lemma make_float:
  assumes "2 ^ 23 \<le> m" "m < 2 ^ 24" "- 149 \<le> p" "p < 100"
  shows "is_float (f32_make False ((p + 149) * 2 ^ 23 + m)) m p"
proof -
  let ?b = "(p + 149) * 2 ^ 23 + m"
  have b: "0 \<le> ?b" "?b < 2 ^ 31" using assms by simp_all
  have m: "m div 2 ^ 23 = 1" using assms(1,2) div_pos_geq [of "2 ^ 23" m] by simp
  then have "m mod 2 ^ 23 = m - 2 ^ 23" using minus_mult_div_eq_mod [of m "2 ^ 23"] by simp
  then have "?b mod 2 ^ 23 = m - 2 ^ 23" by (simp only: mod_mult_self3)
  moreover have "?b div 2 ^ 23 = p + 150" using m by simp
  ultimately show ?thesis
    using assms b by (simp add: is_float_def make_parts f32_sig_def f32_exp_def f32_biased_def)
qed

section \<open>Products and their ceilings\<close>

lemma mul_floats:
  assumes "is_float x m p" "is_float y n q"
  shows "f32_mul x y = f32_pack False (m * n) (p + q) False"
proof -
  have "\<not> f32_nan z \<and> \<not> f32_inf z" if "f32_biased z < 255" for z
  proof -
    have "f32_mag z < 255 * 2 ^ 23" using that int_div_less [of "2 ^ 23" "f32_mag z" 255] by (simp add: f32_biased_def)
    then show ?thesis by (simp add: f32_nan_def f32_inf_def)
  qed
  with assms show ?thesis by (simp add: is_float_def f32_mul_def Let_def)
qed

lemma ceil_float:
  assumes "is_float x m p" "p < 0" "0 < m" "m \<le> 2 ^ 24"
  shows "f32_ceil_to_int x = - (- m div 2 ^ nat (- p))"
proof -
  have "- m * 2 ^ nat (- p) \<le> - m" using assms(3) by simp
  then have "- m \<le> - m div 2 ^ nat (- p)" using int_le_div [of "2 ^ nat (- p)" "- m" "- m"] by simp
  moreover have "- m div 2 ^ nat (- p) \<le> 0" using assms(3) by (simp add: div_nonpos_pos_le0)
  ultimately show ?thesis
    using assms by (simp add: is_float_def f32_ceil_to_int_def f32_signed_def Let_def)
qed

lemma round_even_bounds:
  assumes "0 \<le> n" "A * 2 ^ s \<le> n" "n < B * 2 ^ s"
  shows "A \<le> round_even n s False" "round_even n s False \<le> B"
proof -
  have "A \<le> n div 2 ^ s" "n div 2 ^ s < B"
    using assms(2,3) int_le_div [of "2 ^ s" A n] int_div_less [of "2 ^ s" n B] by auto
  then show "A \<le> round_even n s False" "round_even n s False \<le> B" by (simp_all add: round_even_def Let_def)
qed

text \<open>
  A product of two significands has 47 or 48 bits; rounding it may carry into the next power of
  two, which does not change the value.
\<close>

lemma ceil_pack:
  assumes n: "2 ^ 23 * 2 ^ s \<le> n" "n < 2 ^ 24 * 2 ^ s" and e: "- 149 \<le> e + int s" "e + int s < - 1" and s: "0 < s"
  shows "f32_ceil_to_int (f32_pack False n e False) = - (- round_even n s False div 2 ^ nat (- (e + int s)))"
proof -
  let ?q = "round_even n s False" and ?p = "e + int s"
  have "2 ^ (23 + s) \<le> n" "n < 2 ^ Suc (23 + s)" using n by (simp_all add: power_add)
  from bit_length_eq [OF this] have b: "bit_length n = 24 + s" by simp
  have pos: "0 < n" using n(1) by (rule less_le_trans [rotated]) simp
  have q: "2 ^ 23 \<le> ?q" "?q \<le> 2 ^ 24" using round_even_bounds [of n "2 ^ 23" s "2 ^ 24"] n pos by simp_all
  have "f32_pack False n e False = f32_make False (min ((?p + 149) * 2 ^ 23 + ?q) 0x7F800000)"
    using b e s q(1) by (simp add: f32_pack_def Let_def)
  also have "\<dots> = f32_make False ((?p + 149) * 2 ^ 23 + ?q)" using e q(2) by (simp add: min_def)
  finally have x: "f32_pack False n e False = f32_make False ((?p + 149) * 2 ^ 23 + ?q)" .
  show ?thesis
  proof (cases "?q = 2 ^ 24")
    case True
    have "f32_pack False n e False = f32_make False (((?p + 1) + 149) * 2 ^ 23 + 2 ^ 23)" using x True by (simp add: algebra_simps)
    with make_float [of "2 ^ 23" "?p + 1"] e have "is_float (f32_pack False n e False) (2 ^ 23) (?p + 1)" by simp
    from ceil_float [OF this] e have c: "f32_ceil_to_int (f32_pack False n e False) = - (- (2 ^ 23) div 2 ^ nat (- (?p + 1)))" by simp
    have "nat (- ?p) = Suc (nat (- (?p + 1)))" using e by simp
    then have "- (2 ^ 24) div (2::int) ^ nat (- ?p) = (2 * - (2 ^ 23)) div (2 * 2 ^ nat (- (?p + 1)))" by simp
    also have "\<dots> = - (2 ^ 23) div 2 ^ nat (- (?p + 1))" by (rule div_mult_mult1) simp
    finally show ?thesis using c True by simp
  next
    case False
    with q make_float [of ?q ?p] e x have "is_float (f32_pack False n e False) ?q ?p" by simp
    from ceil_float [OF this] e q show ?thesis by simp
  qed
qed

section \<open>Three tenths of a number of games\<close>

lemma three_tenths: "is_float fl_0_3 10066330 (- 25)"
  unfolding is_float_def by code_simp

lemma float_of_games:
  assumes "2 ^ k \<le> g" "g < 2 ^ Suc k" "k < 23"
  shows "is_float (f32_of_int g) (g * 2 ^ (23 - k)) (int k - 23)"
proof -
  let ?m = "g * 2 ^ (23 - k)"
  have "(2::int) ^ k * 2 ^ (23 - k) = 2 ^ 23" "(2::int) ^ Suc k * 2 ^ (23 - k) = 2 ^ 24"
    using assms(3) by (simp_all add: power_add [symmetric])
  moreover have "2 ^ k * 2 ^ (23 - k) \<le> ?m" "?m < 2 ^ Suc k * 2 ^ (23 - k)"
    using assms(1,2) by (intro mult_right_mono mult_strict_right_mono; simp)+
  ultimately have m: "2 ^ 23 \<le> ?m" "?m < 2 ^ 24" by (simp_all only:)
  have b: "bit_length g = Suc k" by (rule bit_length_eq [OF assms(1,2)])
  have g: "0 < g" using assms(1) by (rule less_le_trans [rotated]) simp
  have "nat (23 - int k) = 23 - k" using assms(3) by simp
  then have "f32_of_int g = f32_make False ((int k - 23 + 149) * 2 ^ 23 + ?m)"
    using g b m assms(3) by (simp add: f32_of_int_def f32_pack_def Let_def min_def)
  with make_float [OF m, of "int k - 23"] assms(3) show ?thesis by simp
qed

text \<open>The constant is \<open>0.3\<close> and \<open>4 / 10\<close> in the last place of 25 bits: ten times the product in integers.\<close>

lemma round_even_near: "2 * (round_even n s False * 2 ^ s) \<le> 2 * n + 2 ^ s" "2 * n \<le> 2 * (round_even n s False * 2 ^ s) + 2 ^ s"
proof -
  define D q r where d: "D = (2::int) ^ s" "q = n div D" "r = n mod D"
  have r: "n = q * D + r" "0 \<le> r" "r < D" unfolding d by (simp_all only: div_mult_mod_eq) simp_all
  have "round_even n s False = (if 2 * r > D \<or> (2 * r = D \<and> odd q) then q + 1 else q)"
    by (simp add: round_even_def d Let_def)
  then have "round_even n s False * D = q * D + D \<and> D \<le> 2 * r \<or> round_even n s False * D = q * D \<and> 2 * r \<le> D"
    by (auto simp: distrib_right)
  with r show "2 * (round_even n s False * 2 ^ s) \<le> 2 * n + 2 ^ s" "2 * n \<le> 2 * (round_even n s False * 2 ^ s) + 2 ^ s"
    unfolding d(1) [symmetric] by linarith+
qed

lemma ceil_eq: "0 < (T::int) \<Longrightarrow> (K - 1) * T < q \<Longrightarrow> q \<le> K * T \<Longrightarrow> - (- q div T) = K"
  using int_le_div [of T "- K" "- q"] int_div_less [of T "- q" "1 - K"] by (simp add: algebra_simps)

lemma ceil_uneven:
  fixes g P K :: int
  assumes n: "n = g * P * 10066330" and ST: "2 ^ s * T = P * 2 ^ 25" and small: "g * P < 2 ^ 24" "0 \<le> g * P"
    and s: "23 \<le> s" and T: "2 ^ 9 \<le> T" and K: "10 * K - 9 \<le> 3 * g" "3 * g \<le> 10 * K - 1"
  shows "- (- round_even n s False div T) = K"
proof (rule ceil_eq)
  let ?S = "(2::int) ^ s" and ?q = "round_even n s False"
  have S: "2 ^ 23 \<le> ?S" "0 < ?S" using power_increasing [OF s, of "2::int"] by simp_all
  have Z: "2 ^ 9 * ?S \<le> ?S * T" using mult_left_mono [OF T, of ?S] by (simp add: mult.commute)
  have "10 * n = 3 * g * (?S * T) + 4 * (g * P)" unfolding ST n by simp
  moreover have "(10 * K - 9) * (?S * T) \<le> 3 * g * (?S * T)" "3 * g * (?S * T) \<le> (10 * K - 1) * (?S * T)"
    using K T by (intro mult_right_mono; simp)+
  ultimately have N: "10 * n \<le> 10 * (K * (?S * T)) - ?S * T + 4 * (g * P)" "10 * (K * (?S * T)) - 9 * (?S * T) \<le> 10 * n"
    using small(2) by (simp_all add: algebra_simps)
  note near = round_even_near [of n s]
  have "b \<le> a" if "10 * n \<le> 10 * a - z + 4 * (g * P)" "2 * b \<le> 2 * n + y" "512 * y \<le> z" "2 ^ 23 \<le> y" for a b y z :: int
    using that small by simp
  from this [OF N(1) near(1)] Z S(1) have "?q * ?S \<le> K * (?S * T)" by simp
  moreover have "a - z < b" if "10 * a - 9 * z \<le> 10 * n" "2 * n \<le> 2 * b + y" "512 * y \<le> z" "0 < y" for a b y z :: int
    using that by simp
  from this [OF N(2) near(2)] Z S(2) have "K * (?S * T) - ?S * T < ?q * ?S" by simp
  ultimately have "?q * ?S \<le> K * T * ?S" "(K - 1) * T * ?S < ?q * ?S" by (simp_all add: algebra_simps)
  then show "?q \<le> K * T" "(K - 1) * T < ?q" using S(2) by simp_all
  show "0 < T" using T by simp
qed

lemma ceil_even:
  fixes j P :: int
  assumes n: "n = 10 * j * P * 10066330" and ST: "2 ^ s * 2 ^ t = P * 2 ^ 25" and small: "10 * j * P < 2 ^ 24" "0 < j" "0 < P"
    and s: "23 \<le> s" and t: "9 \<le> t" and N: "2 ^ 23 * 2 ^ s \<le> n" "n < 2 ^ 24 * 2 ^ s"
  shows "- (- round_even n s False div 2 ^ t) = 3 * j + of_bool (3 * 2 ^ bit_length (3 * j) < 4 * (3 * j))"
proof -
  let ?S = "(2::int) ^ s" and ?T = "(2::int) ^ t" and ?K = "3 * j"
  have S: "2 ^ 23 \<le> ?S" "0 < ?S" using power_increasing [OF s, of "2::int"] by simp_all
  have T: "2 ^ 9 \<le> ?T" "0 < ?T" using power_increasing [OF t, of "2::int"] by simp_all
  have eq: "n = 4 * j * P + ?K * ?T * ?S"
    using arg_cong [OF ST [symmetric], of "\<lambda>z. 3 * j * z"] by (simp add: n algebra_simps)
  have "10 * (j * P) < 2 ^ 24" "0 \<le> j * P" using small by (simp_all add: mult.assoc)
  moreover have "4 * y < ?S" if "10 * y < 2 ^ 24" "0 \<le> y" for y using that S(1) by simp
  ultimately have "4 * (j * P) < ?S" by blast
  with \<open>0 \<le> j * P\<close> have r: "0 \<le> 4 * j * P" "4 * j * P < ?S" by (simp_all add: mult.assoc)
  have "n div ?S = ?K * ?T" "n mod ?S = 4 * j * P" unfolding eq using r S by (simp_all add: div_pos_pos_trivial mod_pos_pos_trivial)
  moreover have "even (?K * ?T)" using t by simp
  ultimately have q: "round_even n s False = ?K * ?T + of_bool (?S < 8 * j * P)"
    by (simp add: round_even_def Let_def)
  have "2 ^ 23 \<le> n div ?S" "n div ?S < 2 ^ 24" using N int_le_div [OF S(2)] int_div_less [OF S(2)] by simp_all
  then have KT: "2 ^ 23 \<le> ?K * ?T" "?K * ?T < 2 ^ 24" using \<open>n div ?S = ?K * ?T\<close> by simp_all
  have t23: "t \<le> 23"
  proof (rule ccontr)
    assume "\<not> t \<le> 23"
    then have "(2::int) ^ 24 \<le> ?T" by (intro power_increasing) simp_all
    moreover have "1 * ?T \<le> ?K * ?T" using small(2) T(2) by (intro mult_right_mono) simp_all
    ultimately show False using KT(2) by linarith
  qed
  have "2 ^ (23 - t) * ?T = 2 ^ 23" "2 ^ Suc (23 - t) * ?T = (2::int) ^ 24" using t23 by (simp_all add: power_add [symmetric])
  then have "2 ^ (23 - t) * ?T \<le> ?K * ?T" "?K * ?T < 2 ^ Suc (23 - t) * ?T" and P24: "2 ^ Suc (23 - t) * ?T = (2::int) ^ 24"
    using KT by (simp_all only:)
  then have "2 ^ (23 - t) \<le> ?K" "?K < 2 ^ Suc (23 - t)" using T(2) by simp_all
  from bit_length_eq [OF this] have bl: "bit_length ?K = Suc (23 - t)" .
  have "3 * 2 ^ bit_length ?K < 4 * ?K \<longleftrightarrow> 3 * 2 ^ bit_length ?K * ?T < 4 * ?K * ?T" using T(2) by simp
  also have "\<dots> \<longleftrightarrow> 3 * 2 ^ 24 < 4 * ?K * ?T" unfolding bl mult.assoc P24 ..
  also have "\<dots> \<longleftrightarrow> 2 ^ 25 * ?S < 8 * j * ?T * ?S" using S(2) by simp
  also have "8 * j * ?T * ?S = 2 ^ 25 * (8 * j * P)"
    using arg_cong [OF ST, of "\<lambda>z. 8 * j * z"] by (simp add: algebra_simps)
  finally have up: "?S < 8 * j * P \<longleftrightarrow> 3 * 2 ^ bit_length ?K < 4 * ?K" by (simp add: ac_simps)
  have "- (- (?K * ?T + of_bool b) div ?T) = ?K + of_bool b" for b
    using T by (intro ceil_eq) (simp_all add: algebra_simps)
  then show ?thesis unfolding q up .
qed

text \<open>
  The number of games that is required: three tenths, rounded up, and one more when they are a whole
  number whose float has so coarse a last place that the product is rounded up.
\<close>

definition tenths :: "int \<Rightarrow> int" where
  "tenths g = - (- (3 * g) div 10)
     + of_bool (10 dvd g \<and> 3 * 2 ^ bit_length (3 * g div 10) < 4 * (3 * g div 10))"

lemma required_games_tenths: "uint (required_games n) = tenths (uint n)"
proof (cases "uint n = 0")
  case True
  then have n: "n = 0" by (simp add: uint_0_iff)
  show ?thesis unfolding n by code_simp
next
  case False
  define g where "g = uint n"
  have g: "0 < g" "g < 2 ^ 16" using False unsigned_less [of n, where 'a = int] by (simp_all add: g_def order_less_le)
  obtain k where k: "2 ^ k \<le> g" "g < 2 ^ Suc k" using bit_length_bounds [OF g(1)] by blast
  have k15: "k \<le> 15"
  proof (rule ccontr)
    assume "\<not> k \<le> 15"
    then have "(2::int) ^ 16 \<le> 2 ^ k" by (intro power_increasing) simp_all
    with k(1) g(2) show False by simp
  qed
  define P where "P = (2::int) ^ (23 - k)"
  define N where "N = g * P * 10066330"
  have e: "2 ^ k * P = 2 ^ 23" "2 ^ Suc k * P = 2 ^ 24" using k15 by (simp_all add: P_def power_add [symmetric])
  have P: "0 < P" by (simp add: P_def)
  have "2 ^ k * P \<le> g * P" "g * P < 2 ^ Suc k * P" using k P by simp_all
  then have gP: "2 ^ 23 \<le> g * P" "g * P < 2 ^ 24" unfolding e by simp_all
  define s where "s = (if N < 2 ^ 47 then 23 else 24 :: nat)"
  have "2 ^ 46 \<le> y * 10066330 \<and> y * 10066330 < 2 ^ 48" if "2 ^ 23 \<le> y" "y < 2 ^ 24" for y :: int using that by simp
  from this [OF gP] have "2 ^ 46 \<le> N" "N < 2 ^ 48" by (simp_all only: N_def)
  then have N: "2 ^ 23 * 2 ^ s \<le> N" "N < 2 ^ 24 * 2 ^ s" by (simp_all add: s_def)
  have s: "23 \<le> s" "s \<le> 24" by (simp_all add: s_def)
  define t where "t = 48 - k - s"
  have t: "9 \<le> t" "- (int k - 48 + int s) = int t" using s k15 by (simp_all add: t_def)
  have "s + t = 23 - k + 25" using s k15 by (simp add: t_def)
  then have ST: "2 ^ s * 2 ^ t = P * 2 ^ 25" unfolding P_def by (simp only: power_add [symmetric])
  have "is_float (f32_of_int g) (g * P) (int k - 23)" using float_of_games [OF k] k15 by (simp add: P_def)
  from mul_floats [OF this three_tenths] have "f32_mul (f32_of_int g) fl_0_3 = f32_pack False N (int k - 48) False" by (simp add: N_def)
  with ceil_pack [OF N, of "int k - 48"] s k15 t(2)
  have c: "f32_ceil_to_int (f32_mul (f32_of_int g) fl_0_3) = - (- round_even N s False div 2 ^ t)" by simp
  have T: "(2::int) ^ 9 \<le> 2 ^ t" by (rule power_increasing [OF t(1)]) simp
  have "- (- round_even N s False div 2 ^ t) = tenths g"
  proof (cases "10 dvd g")
    case True
    then obtain j where j: "g = 10 * j" by blast
    have "N = 10 * j * P * 10066330" "10 * j * P < 2 ^ 24" "0 < j" using gP(2) g(1) by (simp_all add: N_def j)
    from ceil_even [OF this(1) ST this(2,3) P s(1) t(1) N] show ?thesis by (simp add: tenths_def j)
  next
    case False
    then have "10 * - (- (3 * g) div 10) - 9 \<le> 3 * g" "3 * g \<le> 10 * - (- (3 * g) div 10) - 1" by presburger+
    from ceil_uneven [OF N_def ST gP(2) _ s(1) T this] gP(1) False show ?thesis by (simp add: tenths_def)
  qed
  moreover have "0 \<le> tenths g \<and> tenths g < 2 ^ 32" using g by (auto simp: tenths_def)
  ultimately show ?thesis using c by (simp add: required_games_def g_def [symmetric] uint_word_of_int_eq take_bit_int_eq_self)
qed

end
