(* ===== verification/Arena_Props.thy ===== *)
theory Arena_Props
  imports Arena_Points
begin

text \<open>
  The properties of arena teams: the rosters agree in every reachable world; what a player loses
  who leaves a team he is not in; what the members hear of a team that is disbanded; and who gets
  how many points at the end of a week.
\<close>

section \<open>Fields and packets of a member who leaves\<close>

lemma info_set: "s < MAX_ARENA_SLOT \<Longrightarrow> SetArenaTeamInfoField p s f v w = w\<lparr>aw_info := (aw_info w)(p := (aw_info w p)(s := (aw_info w p s)(f := v)))\<rparr>"
  by (simp add: SetArenaTeamInfoField_def)

lemma info_cleared:
  assumes "s < MAX_ARENA_SLOT"
  shows "fold (\<lambda>f. SetArenaTeamInfoField p s f 0) info_fields w = w\<lparr>aw_info := (aw_info w)(p := (aw_info w p)(s := (\<lambda>f. 0)))\<rparr>"
proof -
  have "(\<lambda>f. 0) = ((aw_info w p s)(ARENA_TEAM_ID := 0, INFO_TYPE := 0, INFO_MEMBER := 0, INFO_GAMES_WEEK := 0, INFO_GAMES_SEASON := 0,
      INFO_WINS_SEASON := 0, INFO_RATING := (0::u32)))"
    by (rule ext) (rename_tac f, case_tac f, simp_all)
  then show ?thesis using assms by (simp add: info_fields_def info_set)
qed

definition quit_result :: "arena_team \<Rightarrow> arena_member \<Rightarrow> arena_event" where
  "quit_result t m = ArenaSend (am_guid m) \<lparr>pk_opcode = SMSG_ARENA_TEAM_COMMAND_RESULT,
     pk_fields = [F32 ERR_ARENA_TEAM_QUIT_S, FStr (at_name t), FStr [], F32 0]\<rparr>"

lemma command_eq: "SendArenaTeamCommandResult p a team player err w = w\<lparr>aw_out := aw_out w @ [ArenaSend p
    \<lparr>pk_opcode = SMSG_ARENA_TEAM_COMMAND_RESULT, pk_fields = [F32 a, FStr team, FStr player, F32 err]\<rparr>]\<rparr>"
  by (simp add: SendArenaTeamCommandResult_def arena_send_def arena_emit_def)

lemma DelMember_eq:
  assumes "at_slot t < MAX_ARENA_SLOT" "ae_online e g"
  shows "DelMember e g b t w = (t\<lparr>at_members := erase_member g (at_members t)\<rparr>,
    (if b then arena_Execute e (DEL_ARENA_TEAM_MEMBER (at_id t) (GUID_LOPART g)) else (\<lambda>w. w))
      (w\<lparr>aw_out := aw_out w @ [ArenaSend g
        \<lparr>pk_opcode = SMSG_ARENA_TEAM_COMMAND_RESULT, pk_fields = [F32 ERR_ARENA_TEAM_QUIT_S, FStr (at_name t), FStr [], F32 0]\<rparr>],
        aw_info := (aw_info w)(g := (aw_info w g)(at_slot t := (\<lambda>f. 0)))\<rparr>))"
  using assms by (simp add: DelMember_def info_cleared command_eq)

lemma send_keeps [simp]: "aw_info (arena_send p opcode fs w) = aw_info w" "aw_info (arena_emit ev w) = aw_info w"
  by (simp_all add: arena_send_def arena_emit_def)

lemma broadcast_keeps [simp]: "aw_info (BroadcastEvent e ev g strs t w) = aw_info w"
proof -
  have "aw_info (fold (\<lambda>m w. if ae_online e (am_guid m) then arena_send (am_guid m) opcode fs w else w) ms w) = aw_info w" for ms :: "arena_member list" and opcode fs w
    by (induction ms arbitrary: w) auto
  then show ?thesis by (simp add: BroadcastEvent_def arena_BroadcastPacket_def)
qed

lemma broadcast_out: "aw_out (BroadcastEvent e ev g strs t w) = aw_out w @ drop (length (aw_out w)) (aw_out (BroadcastEvent e ev g strs t w))"
proof -
  have "\<exists>xs. aw_out (fold (\<lambda>m w. if ae_online e (am_guid m) then arena_send (am_guid m) opcode fs w else w) ms w) = aw_out w @ xs" for ms :: "arena_member list" and opcode fs w
  proof (induction ms arbitrary: w)
    case (Cons m ms)
    from Cons.IH [of "arena_send (am_guid m) opcode fs w"] Cons.IH [of w] show ?case
      by (auto simp: arena_send_def arena_emit_def)
  qed simp
  then have "\<exists>xs. aw_out (BroadcastEvent e ev g strs t w) = aw_out w @ xs" by (simp add: BroadcastEvent_def arena_BroadcastPacket_def)
  then show ?thesis by auto
qed

lemma erase_stranger: "\<not> (\<exists>m\<in>set ms. am_guid m = g) \<Longrightarrow> erase_member g ms = ms"
  by (induction ms) auto

section \<open>Rosters\<close>

lemma ok_stored:
  assumes "arena_ok w" "GetArenaTeamById i w = Some t"
  shows "at_id t = i" "at_type t \<in> {2, 3, 5}" "distinct (guids t)" "length (at_members t) \<le> unat (at_type t) * 2" "at_slot t < MAX_ARENA_SLOT"
    "g \<in> set (guids t) \<Longrightarrow> player_guid g"
proof -
  from assms(2) have "team_roll w i = Some (at_id t, at_type t, guids t)" by (simp add: team_roll_def GetArenaTeamById_def roll_of_def)
  from rostersD(2) [OF arena_ok_rosters [OF assms(1)] this]
  show "at_id t = i" "at_type t \<in> {2, 3, 5}" "distinct (guids t)" "length (at_members t) \<le> unat (at_type t) * 2"
    "g \<in> set (guids t) \<Longrightarrow> player_guid g" by auto
  then show "at_slot t < MAX_ARENA_SLOT"
    by (auto simp: GetSlotByType_def MAX_ARENA_SLOT_def ARENA_TEAM_2v2_def ARENA_TEAM_3v3_def ARENA_TEAM_5v5_def)
qed

lemma is_member_guids: "is_arena_member t g \<longleftrightarrow> g \<in> set (guids t)"
  by (force simp: is_arena_member_def)

lemma stored_roll:
  "team_roll w i = Some (k, ty, gs) \<longleftrightarrow> (\<exists>t. GetArenaTeamById i w = Some t \<and> k = at_id t \<and> ty = at_type t \<and> gs = guids t)"
  by (auto simp: team_roll_def GetArenaTeamById_def roll_of_def)

lemma arena_rosters_members:
  assumes "arena_ok w"
  shows "(\<exists>r\<in>set (db_members (aw_db w)). mr_team r = i \<and> mr_guid r = l)
    = (\<exists>t g. GetArenaTeamById i w = Some t \<and> is_arena_member t g \<and> GUID_LOPART g = l)"
proof -
  have "(\<exists>r\<in>set (db_members (aw_db w)). mr_team r = i \<and> mr_guid r = l) = ((i, l) \<in> member_keys (aw_db w))"
    by (auto simp: member_keys_def)
  also have "\<dots> = (\<exists>t g. GetArenaTeamById i w = Some t \<and> is_arena_member t g \<and> GUID_LOPART g = l)"
    unfolding rostersD(4) [OF arena_ok_rosters [OF assms]] stored_roll is_member_guids by blast
  finally show ?thesis .
qed

section \<open>Examples\<close>

text \<open>Everybody is online and may do everything.\<close>

definition arena_env0 :: arena_env where
  "arena_env0 = \<lparr>ae_defaults = \<lparr>
      df_stats = (\<lambda>r. \<lparr>as_rating = r, as_weekGames = 0, as_weekWins = 0, as_seasonGames = 0, as_seasonWins = 0, as_rank = 0\<rparr>),
      df_member = (\<lambda>i g. \<lparr>mr_team = i, mr_guid = g, mr_weekGames = 0, mr_weekWins = 0, mr_seasonGames = 0, mr_seasonWins = 0, mr_rating = 0\<rparr>)\<rparr>,
     ae_online = (\<lambda>g. True), ae_connected = (\<lambda>g. True), ae_max_points = 10000, ae_name = (\<lambda>g. ''Someone''), ae_class = (\<lambda>g. 1), ae_level = (\<lambda>g. 80), ae_character = (\<lambda>l. None),
     ae_start_rating = 0, ae_start_personal = 1000, ae_start_mmr = 1500, ae_season = 8, ae_max_level = 80, ae_two_side = False,
     ae_faction = (\<lambda>g. 469), ae_ignores = (\<lambda>g l. False), ae_find_name = (\<lambda>n. None), ae_normalize = Some, ae_name_allowed = (\<lambda>n. True),
     ae_in_arena = (\<lambda>g. False), ae_arena_map = (\<lambda>g. False),
     ae_charter = (\<lambda>p i. True), ae_petition = (\<lambda>i. if i = 101 then Some (1, ''Alpha'', 2) else if i = 102 then Some (3, ''Beta'', 2)
       else if i = 103 then Some (2, ''Gamma'', 2) else None),
     ae_signers = (\<lambda>i. if i = 101 then [2] else if i = 102 then [4] else [5]), ae_inspects = (\<lambda>p g. True), ae_chance = (\<lambda>a b. 0), ae_curve = (\<lambda>r. 0)\<rparr>"

text \<open>Two teams, each of its founder and one signer.\<close>

definition two_teams :: arena_world where
  "two_teams = run_arena arena_env0 (ArenaPetition 3 102 0 0 0 0 0) (run_arena arena_env0 (ArenaPetition 1 101 0 0 0 0 0) no_arena)"

text \<open>A member of the first team leaves the second one and founds a third.\<close>

definition three_teams :: arena_world where
  "three_teams = run_arena arena_env0 (ArenaPetition 2 103 0 0 0 0 0) (run_arena arena_env0 (ArenaLeave 2 2) two_teams)"

lemma small_players: "player_guid 1" "player_guid 2" "player_guid 3"
proof -
  have "MAKE_NEW_GUID 1 0 HIGHGUID_PLAYER = 1" "MAKE_NEW_GUID 2 0 HIGHGUID_PLAYER = 2" "MAKE_NEW_GUID 3 0 HIGHGUID_PLAYER = 3"
    by (simp_all add: MAKE_NEW_GUID_def HIGHGUID_PLAYER_def)
  then show "player_guid 1" "player_guid 2" "player_guid 3" using make_player [of 1] make_player [of 2] make_player [of 3] by simp_all
qed

lemma two_teams_run: "aw_next (run_arena arena_env0 (ArenaPetition 1 101 0 0 0 0 0) no_arena) = 2 \<and> aw_next two_teams = 3
    \<and> map (\<lambda>(i, t). (i, at_captain t, guids t)) (aw_store two_teams) = [(1, 1, [1, 2]), (2, 3, [3, 4])]
    \<and> GetArenaTeamId two_teams 2 0 = 1"
  by code_simp

lemma three_teams_run: "aw_next (run_arena arena_env0 (ArenaLeave 2 2) two_teams) = 3
    \<and> map (\<lambda>(i, t). (i, at_captain t, guids t)) (aw_store three_teams) = [(1, 1, [1, 2]), (2, 3, [3, 4]), (3, 2, [5])]
    \<and> GetArenaTeamId three_teams 2 0 = 0"
  by code_simp

lemma two_teams_reached: "arena_reach two_teams"
  unfolding two_teams_def
  by (intro arena_reach.intros) (use two_teams_run small_players in \<open>auto simp: no_arena_def\<close>)

lemma three_teams_reached: "arena_reach three_teams"
  unfolding three_teams_def
  by (intro ArenaCall two_teams_reached) (use two_teams_run three_teams_run small_players in auto)

lemma two_teams_store: "\<exists>t u. aw_store two_teams = [(1, t), (2, u)] \<and> guids t = [1, 2] \<and> guids u = [3, 4] \<and> at_captain u = 3"
proof -
  have "length (aw_store two_teams) = 2" using arg_cong [OF two_teams_run [THEN conjunct2, THEN conjunct2, THEN conjunct1], of length] by simp
  then obtain x y where s: "aw_store two_teams = [x, y]" by (auto simp: numeral_2_eq_2 length_Suc_conv)
  show ?thesis using two_teams_run by (cases x; cases y) (simp add: s)
qed

section \<open>Rosters of the reachable worlds\<close>

text \<open>
  C36: in every world that the calls of the server reach from an empty start, as long as there are
  ids for new teams: a stored team is stored under its id and of one of the three types, nobody is
  in it twice, and it has at most twice as many members as it sends into a match; nobody is in two
  teams of one type; and the tables of the database have exactly the stored teams and their members.
\<close>

theorem arena_rosters:
  assumes "arena_reach w"
  shows "(\<forall>i t. GetArenaTeamById i w = Some t \<longrightarrow> at_id t = i \<and> at_type t \<in> {2, 3, 5} \<and> distinct (map am_guid (at_members t))
      \<and> length (at_members t) \<le> unat (at_type t) * 2)
    \<and> (\<forall>i j t u g. GetArenaTeamById i w = Some t \<and> GetArenaTeamById j w = Some u \<and> at_type t = at_type u
        \<and> is_arena_member t g \<and> is_arena_member u g \<longrightarrow> i = j)
    \<and> (\<forall>i ty. (\<exists>r\<in>set (db_teams (aw_db w)). tr_id r = i \<and> tr_type r = ty) = (\<exists>t. GetArenaTeamById i w = Some t \<and> at_type t = ty))
    \<and> (\<forall>i l. (\<exists>r\<in>set (db_members (aw_db w)). mr_team r = i \<and> mr_guid r = l)
        = (\<exists>t g. GetArenaTeamById i w = Some t \<and> is_arena_member t g \<and> GUID_LOPART g = l))"
proof (intro conjI allI impI)
  note ok = arena_reach_ok [OF assms]
  note R = arena_ok_rosters [OF ok]
  show "at_id t = i" "at_type t \<in> {2, 3, 5}" "distinct (map am_guid (at_members t))" "length (at_members t) \<le> unat (at_type t) * 2"
    if "GetArenaTeamById i w = Some t" for i t
    using ok_stored [OF ok that] by simp_all
  show "i = j" if a: "GetArenaTeamById i w = Some t \<and> GetArenaTeamById j w = Some u \<and> at_type t = at_type u
        \<and> is_arena_member t g \<and> is_arena_member u g" for i j t u g
  proof (rule rostersD(5) [OF R, of i "at_id t" "at_type t" "guids t" j "at_id u" "guids u" g])
    show "team_roll w i = Some (at_id t, at_type t, guids t)" "team_roll w j = Some (at_id u, at_type t, guids u)" using a by (auto simp: stored_roll)
    show "g \<in> set (guids t)" "g \<in> set (guids u)" using a by (simp_all only: is_member_guids)
  qed
  show "(\<exists>r\<in>set (db_teams (aw_db w)). tr_id r = i \<and> tr_type r = ty) = (\<exists>t. GetArenaTeamById i w = Some t \<and> at_type t = ty)" for i ty
    using rostersD(3) [OF R, of i ty] by (auto simp: team_keys_def stored_roll)
  show "(\<exists>r\<in>set (db_members (aw_db w)). mr_team r = i \<and> mr_guid r = l)
        = (\<exists>t g. GetArenaTeamById i w = Some t \<and> is_arena_member t g \<and> GUID_LOPART g = l)" for i l
    by (rule arena_rosters_members [OF ok])
qed

theorem arena_rosters_witness: "\<exists>t. GetArenaTeamById 2 two_teams = Some t \<and> map am_guid (at_members t) = [3, 4]
    \<and> at_id t = 2 \<and> distinct (map am_guid (at_members t)) \<and> length (at_members t) \<le> unat (at_type t) * 2"
proof -
  obtain t where t: "GetArenaTeamById 2 two_teams = Some t" "guids t = [3, 4]"
    using two_teams_store by (auto simp: GetArenaTeamById_def sm_find_def)
  from arena_rosters [OF two_teams_reached, THEN conjunct1, rule_format, OF t(1)] t show ?thesis by simp
qed

section \<open>Leaving a team one is not in\<close>

text \<open>
  C38: \<open>HandleArenaTeamLeave\<close> does not ask whether the player is in the team. A player who names
  a team he is not in is told that he has left it, and the team hears of it; no team, no row of a
  member changes, but every field of the player for teams of that type is cleared: a player who is
  in a team of that type is a member still and has no team.
\<close>

theorem stranger_leaves:
  assumes "arena_reach w" "GetArenaTeamById i w = Some t" "player_guid p" "ae_online e p" "\<not> ae_in_arena e p"
    "\<not> is_arena_member t p" "p \<noteq> at_captain t"
  shows "(\<forall>f. aw_info (HandleArenaTeamLeave e p i w) p (at_slot t) f = 0)
    \<and> (\<forall>j. GetArenaTeamById j (HandleArenaTeamLeave e p i w) = GetArenaTeamById j w)
    \<and> db_members (aw_db (HandleArenaTeamLeave e p i w)) = db_members (aw_db w)
    \<and> last (aw_out (HandleArenaTeamLeave e p i w)) = ArenaSend p \<lparr>pk_opcode = SMSG_ARENA_TEAM_COMMAND_RESULT,
        pk_fields = [F32 ERR_ARENA_TEAM_QUIT_S, FStr (at_name t), FStr [], F32 0]\<rparr>"
proof -
  note ok = arena_reach_ok [OF assms(1)]
  note st = ok_stored [OF ok assms(2)]
  have id: "t\<lparr>at_members := erase_member p (at_members t)\<rparr> = t" using assms(6) by (simp add: is_arena_member_def erase_stranger)
  have "\<not> (mr_team r = i \<and> mr_guid r = GUID_LOPART p)" if "r \<in> set (db_members (aw_db w))" for r
  proof
    assume "mr_team r = i \<and> mr_guid r = GUID_LOPART p"
    with that have "\<exists>r\<in>set (db_members (aw_db w)). mr_team r = i \<and> mr_guid r = GUID_LOPART p" by blast
    then obtain u g where u: "GetArenaTeamById i w = Some u" "is_arena_member u g" "GUID_LOPART g = GUID_LOPART p"
      using arena_rosters_members [OF ok, of i "GUID_LOPART p"] by blast
    have "u = t" using u(1) assms(2) by simp
    with u(2) have "g \<in> set (guids t)" by (simp only: is_member_guids)
    with st(6) u(3) assms(3) have "g = p" using low_inject by blast
    with u(1,2) assms(2,6) show False by simp
  qed
  then have db: "filter (\<lambda>r. \<not> (mr_team r = i \<and> mr_guid r = GUID_LOPART p)) (db_members (aw_db w)) = db_members (aw_db w)"
    by (rule filter_True [rule_format])
  have leave: "HandleArenaTeamLeave e p i w = SendArenaTeamCommandResult p ERR_ARENA_TEAM_QUIT_S (at_name t) [] 0
      (BroadcastEvent e ERR_ARENA_TEAM_LEAVE_SS p [ae_name e p, at_name t] t (put_team i (DelMember e p True t w)))"
    using assms DelMember_eq [OF st(5) assms(4), of True w] id by (simp add: HandleArenaTeamLeave_def)
  have put: "aw_info (put_team i (DelMember e p True t w)) p (at_slot t) = (\<lambda>f. 0)"
    "aw_store (put_team i (DelMember e p True t w)) = sm_put i t (aw_store w)"
    "db_members (aw_db (put_team i (DelMember e p True t w))) = db_members (aw_db w)"
    using db by (simp_all add: DelMember_eq [OF st(5) assms(4)] id put_team_def arena_Execute_def arena_emit_def db_exec.simps st(1))
  note s = broadcast_still(2) [of "put_team i (DelMember e p True t w)" e ERR_ARENA_TEAM_LEAVE_SS p "[ae_name e p, at_name t]" t, unfolded still_def]
  have "GetArenaTeamById j (HandleArenaTeamLeave e p i w) = GetArenaTeamById j w" for j
    using assms(2) s put(2) by (auto simp: leave command_eq GetArenaTeamById_def smap_simps)
  then show ?thesis using s put by (simp add: leave command_eq)
qed

theorem stranger_leaves_witness: "\<exists>t u. GetArenaTeamById 2 two_teams = Some t \<and> GetArenaTeamById 1 two_teams = Some u
    \<and> (\<forall>f. aw_info (HandleArenaTeamLeave arena_env0 2 2 two_teams) 2 (at_slot t) f = 0)
    \<and> GetArenaTeamById 1 (HandleArenaTeamLeave arena_env0 2 2 two_teams) = Some u \<and> is_arena_member u 2
    \<and> map (\<lambda>(i, t). (at_captain t, map am_guid (at_members t))) (aw_store three_teams) = [(1, [1, 2]), (3, [3, 4]), (2, [5])]"
proof -
  obtain u t where s: "aw_store two_teams = [(1, u), (2, t)]" "guids u = [1, 2]" "guids t = [3, 4]" "at_captain t = 3"
    using two_teams_store by metis
  then have f: "GetArenaTeamById 2 two_teams = Some t" "GetArenaTeamById 1 two_teams = Some u" "\<not> is_arena_member t 2" "is_arena_member u 2"
    by (simp_all add: GetArenaTeamById_def sm_find_def is_member_guids)
  have "ae_online arena_env0 2" "\<not> ae_in_arena arena_env0 2" by (simp_all add: arena_env0_def)
  note left = stranger_leaves [OF two_teams_reached f(1) small_players(2) this f(3)]
  have "map snd (map (\<lambda>(i, t). (i, at_captain t, guids t)) (aw_store three_teams)) = [(1, [1, 2]), (3, [3, 4]), (2, [5])]"
    by (simp only: three_teams_run [THEN conjunct2, THEN conjunct1]) simp
  then have g: "map (\<lambda>(i, t). (at_captain t, map am_guid (at_members t))) (aw_store three_teams) = [(1, [1, 2]), (3, [3, 4]), (2, [5])]"
    by (simp add: comp_def case_prod_unfold)
  have "2 \<noteq> at_captain t" using s(4) by simp
  from left [OF this] f(2) have "\<forall>f. aw_info (HandleArenaTeamLeave arena_env0 2 2 two_teams) 2 (at_slot t) f = 0"
    "GetArenaTeamById 1 (HandleArenaTeamLeave arena_env0 2 2 two_teams) = Some u" by simp_all
  with f(1,2,4) g show ?thesis by (intro exI [of _ t] exI [of _ u] conjI)
qed

section \<open>Disbanding\<close>

lemma del_members_eq:
  assumes "at_members t = ms" "at_slot t < MAX_ARENA_SLOT"
  shows "\<exists>w1. del_members e ms t w = (t\<lparr>at_members := []\<rparr>, w1) \<and> aw_out w1 = aw_out w @ map (quit_result t) (filter (\<lambda>m. ae_online e (am_guid m)) ms)
    \<and> aw_db w1 = aw_db w \<and> aw_store w1 = aw_store w
    \<and> aw_info w1 = (\<lambda>g s. if s = at_slot t \<and> g \<in> am_guid ` set ms \<and> ae_online e g then (\<lambda>f. 0) else aw_info w g s)"
  using assms
proof (induction ms arbitrary: t w)
  case (Cons m ms)
  let ?t = "t\<lparr>at_members := ms\<rparr>"
  obtain w1 where d: "DelMember e (am_guid m) False t w = (?t, w1)"
    and w1: "aw_out w1 = aw_out w @ map (quit_result t) (filter (\<lambda>m. ae_online e (am_guid m)) [m])" "aw_db w1 = aw_db w" "aw_store w1 = aw_store w"
      "aw_info w1 = (\<lambda>g s. if s = at_slot t \<and> g = am_guid m \<and> ae_online e g then (\<lambda>f. 0) else aw_info w g s)"
  proof (cases "ae_online e (am_guid m)")
    case True
    note d = DelMember_eq [OF Cons.prems(2) True, of False w, unfolded if_False]
    show ?thesis by (rule that [of "snd (DelMember e (am_guid m) False t w)"])
      (use Cons.prems(1) True in \<open>simp_all add: d quit_result_def fun_eq_iff\<close>)
  next
    case False
    show ?thesis by (rule that [of w]) (use Cons.prems(1) False in \<open>simp_all add: DelMember_def fun_eq_iff\<close>)
  qed
  from Cons.IH [of ?t w1] Cons.prems(2) obtain w2 where "del_members e ms ?t w1 = (?t\<lparr>at_members := []\<rparr>, w2)"
    "aw_out w2 = aw_out w1 @ map (quit_result ?t) (filter (\<lambda>m. ae_online e (am_guid m)) ms)" "aw_db w2 = aw_db w1" "aw_store w2 = aw_store w1"
    "aw_info w2 = (\<lambda>g s. if s = at_slot t \<and> g \<in> am_guid ` set ms \<and> ae_online e g then (\<lambda>f. 0) else aw_info w1 g s)"
    by auto
  with d w1 show ?case by (auto simp: fun_eq_iff quit_result_def)
qed simp

text \<open>
  C39: when a team is disbanded by its captain it is gone from the manager and from both tables, and
  every online member has all his fields for it cleared. All that is sent is one result packet for each
  online member, in their order: the event \<open>ERR_ARENA_TEAM_DISBANDED_S\<close> is broadcast when the list of the
  members is empty, and reaches nobody.
\<close>

theorem disband_is_not_heard:
  assumes "at_slot t < MAX_ARENA_SLOT"
  shows "GetArenaTeamById (at_id t) (arena_Disband e (Some p) t w) = None
    \<and> (\<forall>r\<in>set (db_teams (aw_db (arena_Disband e (Some p) t w))). tr_id r \<noteq> at_id t)
    \<and> (\<forall>r\<in>set (db_members (aw_db (arena_Disband e (Some p) t w))). mr_team r \<noteq> at_id t)
    \<and> (\<forall>m\<in>set (at_members t). ae_online e (am_guid m) \<longrightarrow> (\<forall>f. aw_info (arena_Disband e (Some p) t w) (am_guid m) (at_slot t) f = 0))
    \<and> aw_out (arena_Disband e (Some p) t w) = aw_out w @ map (quit_result t) (filter (\<lambda>m. ae_online e (am_guid m)) (at_members t))
        @ [ArenaTrans [DEL_ARENA_TEAM (at_id t), DEL_ARENA_TEAM_MEMBERS (at_id t)]]"
proof -
  obtain w1 where w1: "del_members e (at_members t) t w = (t\<lparr>at_members := []\<rparr>, w1)"
    "aw_out w1 = aw_out w @ map (quit_result t) (filter (\<lambda>m. ae_online e (am_guid m)) (at_members t))"
    "aw_info w1 = (\<lambda>g s. if s = at_slot t \<and> g \<in> am_guid ` set (at_members t) \<and> ae_online e g then (\<lambda>f. 0) else aw_info w g s)"
    using del_members_eq [OF refl assms, of e w] by blast
  have "arena_Disband e (Some p) t w = RemoveArenaTeam (at_id t) (CommitTransaction e [DEL_ARENA_TEAM (at_id t), DEL_ARENA_TEAM_MEMBERS (at_id t)] w1)"
    by (simp add: arena_Disband_def w1(1) BroadcastEvent_def arena_BroadcastPacket_def)
  with w1 show ?thesis
    by (simp add: RemoveArenaTeam_def CommitTransaction_def arena_emit_def GetArenaTeamById_def smap_simps db_exec.simps)
qed

theorem disband_is_not_heard_witness: "\<exists>t. GetArenaTeamById 1 two_teams = Some t \<and> map am_guid (at_members t) = [1, 2]
    \<and> GetArenaTeamById 1 (arena_Disband arena_env0 (Some 1) t two_teams) = None
    \<and> aw_out (arena_Disband arena_env0 (Some 1) t two_teams) = aw_out two_teams @ map (quit_result t) (at_members t)
        @ [ArenaTrans [DEL_ARENA_TEAM 1, DEL_ARENA_TEAM_MEMBERS 1]]"
proof -
  obtain t where t: "GetArenaTeamById 1 two_teams = Some t" "guids t = [1, 2]"
    using two_teams_store by (auto simp: GetArenaTeamById_def sm_find_def)
  note st = ok_stored [OF arena_reach_ok [OF two_teams_reached] t(1)]
  from disband_is_not_heard [OF st(5), of arena_env0 1 two_teams] st(1) t show ?thesis
    by (simp add: arena_env0_def)
qed

section \<open>Points of a week\<close>

text \<open>What a member earns: nothing with fewer games than \<open>tenths\<close> of the games of the team.\<close>

definition member_points :: "arena_env \<Rightarrow> arena_team \<Rightarrow> arena_member \<Rightarrow> u32" where
  "member_points e t m = (if tenths (uint (as_weekGames (at_stats t))) \<le> uint (am_weekGames m) then GetPoints e (am_rating m) t else 0)"

lemma member_points_code:
  "(if (ucast (am_weekGames m) :: u32) \<ge> required_games (as_weekGames (at_stats t)) then GetPoints e (am_rating m) t else 0)
     = member_points e t m"
  by (simp add: member_points_def word_le_def required_games_tenths uint_up_ucast is_up)

text \<open>What each team that played ten games has for a player.\<close>

definition points_for :: "arena_env \<Rightarrow> arena_team \<Rightarrow> u32 \<Rightarrow> u32 list" where
  "points_for e t g = (if as_weekGames (at_stats t) < 10 then []
     else map (member_points e t) (filter (\<lambda>m. GUID_LOPART (am_guid m) = g) (at_members t)))"

definition best :: "u32 list \<Rightarrow> u32 option" where
  "best xs = (if xs = [] then None else Some (Max (set xs)))"

lemma best_snoc: "best (xs @ [x]) = (case best xs of None \<Rightarrow> Some x | Some p \<Rightarrow> Some (max p x))"
proof (cases "xs = []")
  case False
  then have "Max (set (xs @ [x])) = max (Max (set xs)) x" by (simp add: max.commute)
  with False show ?thesis by (simp add: best_def)
qed (simp add: best_def)

lemma points_step:
  assumes "\<And>g. sm_find points g = best (prior g)"
  shows "sm_find (fold (\<lambda>m points.
        (let g = GUID_LOPART (am_guid m); add = member_points e t m
         in case sm_find points g of Some p \<Rightarrow> if p < add then sm_put g add points else points
            | None \<Rightarrow> sm_put g add points)) ms points) g
    = best (prior g @ map (member_points e t) (filter (\<lambda>m. GUID_LOPART (am_guid m) = g) ms))"
  using assms
proof (induction ms arbitrary: points prior)
  case (Cons m ms)
  let ?h = "GUID_LOPART (am_guid m)" and ?add = "member_points e t m"
  let ?new = "case sm_find points ?h of Some p \<Rightarrow> if p < ?add then sm_put ?h ?add points else points | None \<Rightarrow> sm_put ?h ?add points"
  have "sm_find ?new g = best (prior g @ (if ?h = g then [?add] else []))" for g
    using Cons.prems [of ?h] Cons.prems [of g]
    by (auto simp: best_snoc smap_simps max_def not_less split: option.split)
  from Cons.IH [OF this] show ?case by (simp add: Let_def)
qed simp

lemma helper_points:
  assumes "\<And>g. sm_find points g = best (prior g)"
  shows "sm_find (UpdateArenaPointsHelper e t points) g = best (prior g @ points_for e t g)"
  using points_step [OF assms, of e t "at_members t" g] assms
  by (simp add: UpdateArenaPointsHelper_def points_for_def member_points_code Let_def)

lemma week_points_teams:
  assumes "\<And>g. sm_find points g = best (prior g)"
  shows "sm_find (fold (UpdateArenaPointsHelper e) ts points) g = best (prior g @ concat (map (\<lambda>t. points_for e t g) ts))"
  using assms
proof (induction ts arbitrary: points prior)
  case (Cons t ts)
  from Cons.IH [OF helper_points [OF Cons.prems]] show ?case by simp
qed simp

text \<open>
  C40: at the end of a week each player of a team that played at least ten games gets the most that
  one of his teams has for him, and no other player is in the map of points. A team has nothing for
  a member with fewer games than a number that depends on the games of the team: three tenths of
  them, rounded up, and one more when that is a whole number \<open>k\<close> above three quarters of the next
  power of two (50, 90 and 100 games are the first three), since the constant \<open>0.3f\<close> is above three
  tenths and the product is rounded to 24 bits. This holds for every number of games.
\<close>

theorem points_of_the_week:
  "sm_find (week_points e w) g = best (concat (map (\<lambda>(i, t). points_for e t g) (aw_store w)))
    \<and> (\<forall>games. uint (required_games games) = - (- (3 * uint games) div 10)
        + of_bool (10 dvd uint games \<and> 3 * 2 ^ bit_length (3 * uint games div 10) < 4 * (3 * uint games div 10)))"
proof (intro conjI allI)
  have "sm_find [] g = best []" for g :: u32 by (simp add: best_def)
  from week_points_teams [of "[]" "\<lambda>g. []", OF this, of e "map snd (aw_store w)" g]
  show "sm_find (week_points e w) g = best (concat (map (\<lambda>(i, t). points_for e t g) (aw_store w)))"
    by (simp add: week_points_def comp_def case_prod_unfold)
  show "uint (required_games games) = - (- (3 * uint games) div 10)
      + of_bool (10 dvd uint games \<and> 3 * 2 ^ bit_length (3 * uint games div 10) < 4 * (3 * uint games div 10))" for games
    using required_games_tenths [of games] by (simp only: tenths_def)
qed

end
