(* ===== verification/Arena_Load.thy ===== *)
theory Arena_Load
  imports Arena_Props
begin

text \<open>
  What a start of the server makes of the tables of arena teams: the loop over the teams and the
  one over their members share one result, and yield each team with the members of its rows.
\<close>

section \<open>One team\<close>

abbreviation row_team :: "loaded_member \<Rightarrow> u32" where "row_team l \<equiv> mr_team (lm_row l)"

lemma load_members_eq:
  "\<forall>l\<in>set ls. lm_name l \<noteq> [] \<Longrightarrow> load_members e ls present t w =
    (present \<or> (\<exists>l\<in>set (takeWhile (\<lambda>l. row_team l \<le> at_id t) ls). am_guid (member_of_row e l) = at_captain t),
     dropWhile (\<lambda>l. row_team l \<le> at_id t) ls,
     t\<lparr>at_members := at_members t @ map (member_of_row e) (takeWhile (\<lambda>l. row_team l \<le> at_id t) ls)\<rparr>, w)"
proof (induction ls arbitrary: present t)
  case (Cons l ls)
  show ?case
  proof (cases "row_team l \<le> at_id t")
    case True
    then have "\<not> row_team l > at_id t" by simp
    moreover have "am_name (member_of_row e l) \<noteq> []" using Cons.prems by (simp add: member_of_row_def Let_def)
    ultimately show ?thesis using Cons.IH [of "present \<or> am_guid (member_of_row e l) = at_captain t" "t\<lparr>at_members := at_members t @ [member_of_row e l]\<rparr>"]
        Cons.prems True by (simp add: Let_def disj_assoc)
  next
    case False
    then have "row_team l > at_id t" by simp
    with False show ?thesis by simp
  qed
qed simp

lemma sorted_split:
  "sorted (map f ls) \<Longrightarrow> takeWhile (\<lambda>l. f l \<le> i) ls = filter (\<lambda>l. f l \<le> i) ls \<and> dropWhile (\<lambda>l. f l \<le> i) ls = filter (\<lambda>l. \<not> f l \<le> i) ls"
  for i :: "'a::linorder"
proof (induction ls)
  case (Cons l ls)
  have "\<not> f l \<le> i \<Longrightarrow> x \<in> set ls \<Longrightarrow> \<not> f x \<le> i" for x using Cons.prems by (auto dest: order_trans)
  with Cons show ?case by (auto simp: filter_empty_conv intro!: filter_True [symmetric])
qed simp

definition team_loaded :: "arena_env \<Rightarrow> loaded_member list \<Rightarrow> team_row \<Rightarrow> arena_team" where
  "team_loaded e ls r = (team_of_row e r)\<lparr>at_members := map (member_of_row e) (filter (\<lambda>l. row_team l = tr_id r) ls)\<rparr>"

lemma guid_of_row: "am_guid (member_of_row e l) = MAKE_NEW_GUID (mr_guid (lm_row l)) 0 HIGHGUID_PLAYER"
  by (simp add: member_of_row_def Let_def)

lemma load_one:
  assumes ls: "sorted (map row_team ls)" "\<forall>l\<in>set ls. lm_name l \<noteq> []" "\<forall>l\<in>set ls. tr_id r \<le> row_team l"
    and captain: "\<exists>l\<in>set ls. row_team l = tr_id r \<and> mr_guid (lm_row l) = tr_captain r"
  shows "LoadMembersFromDB e (Some ls) (team_of_row e r) w = (True, Some (filter (\<lambda>l. row_team l \<noteq> tr_id r) ls), team_loaded e ls r, w)"
proof -
  have t: "at_id (team_of_row e r) = tr_id r" "at_members (team_of_row e r) = []"
    "at_captain (team_of_row e r) = MAKE_NEW_GUID (tr_captain r) 0 HIGHGUID_PLAYER"
    by (simp_all add: team_of_row_def new_arena_team_def)
  have mine: "filter (\<lambda>l. row_team l \<le> tr_id r) ls = filter (\<lambda>l. row_team l = tr_id r) ls"
    "filter (\<lambda>l. \<not> row_team l \<le> tr_id r) ls = filter (\<lambda>l. row_team l \<noteq> tr_id r) ls"
    using ls(3) by (auto intro!: filter_cong)
  from captain obtain l where l: "l \<in> set ls" "row_team l = tr_id r" "mr_guid (lm_row l) = tr_captain r" by blast
  then have "l \<in> set (filter (\<lambda>l. row_team l = tr_id r) ls)" by simp
  moreover from this have "filter (\<lambda>l. row_team l = tr_id r) ls \<noteq> []" using l(1,2) by (auto simp: filter_empty_conv)
  ultimately show ?thesis
    using sorted_split [OF ls(1), of "tr_id r"] l(3)
    by (auto simp: LoadMembersFromDB_def load_members_eq [OF ls(2)] t mine team_loaded_def guid_of_row)
qed

section \<open>All teams\<close>

lemma load_teams_eq:
  assumes "sorted_wrt (<) (map tr_id rs)" "sorted (map row_team ls)" "\<forall>l\<in>set ls. lm_name l \<noteq> []"
    "\<forall>l\<in>set ls. row_team l \<in> tr_id ` set rs" "\<forall>r\<in>set rs. \<exists>l\<in>set ls. row_team l = tr_id r \<and> mr_guid (lm_row l) = tr_captain r"
  shows "load_teams e rs (Some ls) w = w\<lparr>aw_store := fold (\<lambda>r. sm_put (tr_id r) (team_loaded e ls r)) rs (aw_store w)\<rparr>"
  using assms
proof (induction rs arbitrary: ls w)
  case (Cons r rs)
  let ?rest = "filter (\<lambda>l. row_team l \<noteq> tr_id r) ls"
  have later: "tr_id r < tr_id s" if "s \<in> set rs" for s using Cons.prems(1) that by simp
  have first: "\<forall>l\<in>set ls. tr_id r \<le> row_team l" using Cons.prems(4) later by fastforce
  have one: "LoadMembersFromDB e (Some ls) (team_of_row e r) w = (True, Some ?rest, team_loaded e ls r, w)"
    by (rule load_one [OF Cons.prems(2,3) first]) (use Cons.prems(5) in simp)
  have "load_teams e rs (Some ?rest) (AddArenaTeam (team_loaded e ls r) w)
      = (AddArenaTeam (team_loaded e ls r) w)\<lparr>aw_store := fold (\<lambda>s. sm_put (tr_id s) (team_loaded e ?rest s)) rs (aw_store (AddArenaTeam (team_loaded e ls r) w))\<rparr>"
  proof (rule Cons.IH)
    show "sorted_wrt (<) (map tr_id rs)" using Cons.prems(1) by simp
    show "sorted (map row_team ?rest)" by (rule sorted_filter [OF Cons.prems(2)])
    show "\<forall>l\<in>set ?rest. lm_name l \<noteq> []" "\<forall>l\<in>set ?rest. row_team l \<in> tr_id ` set rs" using Cons.prems(3,4) by auto
    show "\<forall>s\<in>set rs. \<exists>l\<in>set ?rest. row_team l = tr_id s \<and> mr_guid (lm_row l) = tr_captain s"
    proof
      fix s assume s: "s \<in> set rs"
      with Cons.prems(5) obtain l where "l \<in> set ls" "row_team l = tr_id s" "mr_guid (lm_row l) = tr_captain s" by auto
      with later [OF s] show "\<exists>l\<in>set ?rest. row_team l = tr_id s \<and> mr_guid (lm_row l) = tr_captain s" by (intro bexI [of _ l]) auto
    qed
  qed
  moreover have "team_loaded e ?rest s = team_loaded e ls s" if "s \<in> set rs" for s
  proof -
    have "(\<lambda>l. row_team l \<noteq> tr_id r \<and> row_team l = tr_id s) = (\<lambda>l. row_team l = tr_id s)" using later [OF that] by auto
    then show ?thesis by (simp add: team_loaded_def)
  qed
  moreover have "at_id (team_loaded e ls r) = tr_id r" by (simp add: team_loaded_def team_of_row_def)
  ultimately show ?case by (simp add: one AddArenaTeam_def cong: fold_cong)
qed simp

lemma find_puts:
  "i \<notin> tr_id ` set rs \<Longrightarrow> sm_find (fold (\<lambda>r. sm_put (tr_id r) (f r)) rs s) i = sm_find s i"
  "distinct (map tr_id rs) \<Longrightarrow> r \<in> set rs \<Longrightarrow> sm_find (fold (\<lambda>r. sm_put (tr_id r) (f r)) rs s) (tr_id r) = Some (f r)"
proof -
  show out: "i \<notin> tr_id ` set rs \<Longrightarrow> sm_find (fold (\<lambda>r. sm_put (tr_id r) (f r)) rs s) i = sm_find s i" for i s rs
    by (induction rs arbitrary: s) (auto simp: smap_simps)
  show "distinct (map tr_id rs) \<Longrightarrow> r \<in> set rs \<Longrightarrow> sm_find (fold (\<lambda>r. sm_put (tr_id r) (f r)) rs s) (tr_id r) = Some (f r)"
  proof (induction rs arbitrary: s)
    case (Cons x rs)
    then show ?case by (cases "r = x") (simp_all add: out smap_simps)
  qed simp
qed

section \<open>A start of the server\<close>

lemma one_team: "distinct (map tr_id ts) \<Longrightarrow> t \<in> set ts \<Longrightarrow> filter (\<lambda>u. tr_id u = tr_id t) ts = [t]"
proof (induction ts)
  case (Cons u ts)
  then show ?case by (cases "u = t") (auto simp: filter_empty_conv image_iff)
qed simp

lemma member_query_rows:
  assumes "db_keyed db" "\<forall>r\<in>set (db_members db). mr_team r \<in> tr_id ` set (db_teams db)"
  shows "map lm_row (member_query e db) = sort_key mr_team (db_members db)"
proof -
  have row: "lm_row (loaded_row e db r t) = r" for r t by (simp add: loaded_row_def split: option.split prod.split)
  have one: "map lm_row (map (loaded_row e db r) (filter (\<lambda>t. tr_id t = mr_team r) (db_teams db))) = [r]" if "r \<in> set (db_members db)" for r
  proof -
    from assms(2) that obtain t where t: "t \<in> set (db_teams db)" "mr_team r = tr_id t" by auto
    with one_team [of "db_teams db" t] assms(1) show ?thesis by (simp add: db_keyed_def row)
  qed
  have "map lm_row (concat (map (\<lambda>r. map (loaded_row e db r) (filter (\<lambda>t. tr_id t = mr_team r) (db_teams db))) rs)) = rs"
    if "set rs \<subseteq> set (db_members db)" for rs
    using that by (induction rs) (use one in \<open>auto simp del: map_map\<close>)
  from this [of "sort_key mr_team (db_members db)"] show ?thesis by (simp add: member_query_def)
qed

lemma member_query_names:
  assumes "\<forall>r\<in>set (db_members db). \<exists>n c. ae_character e (mr_guid r) = Some (n, c) \<and> n \<noteq> []"
  shows "\<forall>l\<in>set (member_query e db). lm_name l \<noteq> []"
  using assms by (fastforce simp: member_query_def loaded_row_def)

lemma LoadArenaTeams_eq:
  assumes k: "db_keyed (aw_db w)" and all: "\<forall>r\<in>set (db_members (aw_db w)). mr_team r \<in> tr_id ` set (db_teams (aw_db w))"
    and chars: "\<forall>r\<in>set (db_members (aw_db w)). \<exists>n c. ae_character e (mr_guid r) = Some (n, c) \<and> n \<noteq> []"
    and captain: "\<forall>r\<in>set (db_teams (aw_db w)). \<exists>m\<in>set (db_members (aw_db w)). mr_team m = tr_id r \<and> mr_guid m = tr_captain r"
  shows "aw_db (LoadArenaTeams e w) = aw_db w"
    "aw_store (LoadArenaTeams e w) = fold (\<lambda>r. sm_put (tr_id r) (team_loaded e (member_query e (aw_db w)) r)) (sort_key tr_id (db_teams (aw_db w))) (aw_store w)"
proof -
  let ?db = "aw_db w" and ?ls = "member_query e (aw_db w)" and ?rs = "sort_key tr_id (db_teams (aw_db w))"
  have db: "db_exec d DEL_ORPHANED_MEMBERS ?db = ?db" for d
    using all by (simp add: db_exec.simps)
  have rows: "map lm_row ?ls = sort_key mr_team (db_members ?db)" by (rule member_query_rows [OF k all])
  have mem: "lm_row ` set ?ls = set (db_members ?db)" using arg_cong [OF rows, of set] by simp
  have srt: "sorted (map row_team ?ls)" using arg_cong [OF rows, of "map mr_team"] by (simp add: comp_def)
  have ids: "sorted_wrt (<) (map tr_id ?rs)"
    using k by (simp add: db_keyed_def strict_sorted_iff distinct_map)
  have own: "\<forall>l\<in>set ?ls. row_team l \<in> tr_id ` set ?rs" using mem all by auto
  have cap: "\<forall>r\<in>set ?rs. \<exists>l\<in>set ?ls. row_team l = tr_id r \<and> mr_guid (lm_row l) = tr_captain r"
  proof
    fix r assume "r \<in> set ?rs"
    with captain obtain m where m: "m \<in> set (db_members ?db)" "mr_team m = tr_id r" "mr_guid m = tr_captain r" by auto
    then have "m \<in> lm_row ` set ?ls" by (simp only: mem)
    then obtain l where "l \<in> set ?ls" "lm_row l = m" by blast
    with m(2,3) show "\<exists>l\<in>set ?ls. row_team l = tr_id r \<and> mr_guid (lm_row l) = tr_captain r" by (intro bexI [of _ l]) simp_all
  qed
  let ?w1 = "arena_Execute e DEL_ORPHANED_MEMBERS w"
  have w1: "aw_db ?w1 = ?db" "aw_store ?w1 = aw_store w" by (simp_all add: db)
  have load: "LoadArenaTeams e w = (if ?rs = [] then ?w1 else load_teams e ?rs (if ?ls = [] then None else Some ?ls) ?w1)"
    by (simp only: LoadArenaTeams_def Let_def w1(1))
  have "LoadArenaTeams e w = ?w1\<lparr>aw_store := fold (\<lambda>r. sm_put (tr_id r) (team_loaded e ?ls r)) ?rs (aw_store ?w1)\<rparr>"
  proof (cases "?rs = []")
    case False
    then obtain r where "r \<in> set ?rs" using hd_in_set by blast
    with cap have "?ls \<noteq> []" by fastforce
    with load False load_teams_eq [OF ids srt member_query_names [OF chars] own cap, where w = ?w1] show ?thesis by simp
  qed (simp add: load)
  then show "aw_db (LoadArenaTeams e w) = aw_db w"
    "aw_store (LoadArenaTeams e w) = fold (\<lambda>r. sm_put (tr_id r) (team_loaded e ?ls r)) ?rs (aw_store w)" by (simp_all add: db)
qed

lemma rows_have_teams:
  assumes "arena_ok w"
  shows "\<forall>r\<in>set (db_members (aw_db w)). mr_team r \<in> tr_id ` set (db_teams (aw_db w))"
proof
  note R = arena_ok_rosters [OF assms]
  fix r assume "r \<in> set (db_members (aw_db w))"
  then have "(mr_team r, mr_guid r) \<in> member_keys (aw_db w)" by (auto simp: member_keys_def)
  then obtain j ty gs where "team_roll w (mr_team r) = Some (j, ty, gs)" unfolding rostersD(4) [OF R] by blast
  then have "(mr_team r, ty) \<in> team_keys (aw_db w)" unfolding rostersD(3) [OF R] by blast
  then show "mr_team r \<in> tr_id ` set (db_teams (aw_db w))" by (auto simp: team_keys_def)
qed

lemma stored_rows: "arena_ok w \<Longrightarrow> map lm_row (member_query e (aw_db w)) = sort_key mr_team (db_members (aw_db w))"
  using member_query_rows rows_have_teams by (simp add: arena_ok_def)

lemma loaded_guids:
  assumes ok: "arena_ok w" and t: "GetArenaTeamById (tr_id r) w = Some t"
  shows "set (guids (team_loaded e (member_query e (aw_db w)) r)) = set (guids t)"
proof -
  let ?ls = "member_query e (aw_db w)" and ?guid = "\<lambda>l. MAKE_NEW_GUID l 0 HIGHGUID_PLAYER"
  have "set (guids (team_loaded e ?ls r)) = (\<lambda>m. ?guid (mr_guid m)) ` {m \<in> lm_row ` set ?ls. mr_team m = tr_id r}"
    by (auto simp: team_loaded_def guid_of_row)
  moreover have "lm_row ` set ?ls = set (db_members (aw_db w))" using arg_cong [OF stored_rows [OF ok, of e], of set] by simp
  moreover have "{l. (tr_id r, l) \<in> member_keys (aw_db w)} = mr_guid ` {m \<in> set (db_members (aw_db w)). mr_team m = tr_id r}"
    by (force simp: member_keys_def)
  ultimately have "set (guids (team_loaded e ?ls r)) = ?guid ` {l. (tr_id r, l) \<in> member_keys (aw_db w)}" by (simp only: image_image)
  moreover have "{l. (tr_id r, l) \<in> member_keys (aw_db w)} = GUID_LOPART ` set (guids t)"
    unfolding rostersD(4) [OF arena_ok_rosters [OF ok]] stored_roll using t by auto
  moreover have "?guid (GUID_LOPART g) = g" if "g \<in> set (guids t)" for g
    using ok_stored(6) [OF ok t that] by (simp add: player_guid_def)
  ultimately show ?thesis by force
qed

lemma loaded_distinct:
  assumes ok: "arena_ok w"
  shows "distinct (guids (team_loaded e (member_query e (aw_db w)) r))"
proof -
  let ?ls = "member_query e (aw_db w)"
  have "distinct (map (\<lambda>m. (mr_team m, mr_guid m)) (map lm_row ?ls))"
    unfolding stored_rows [OF ok] using ok by (simp add: arena_ok_def db_keyed_def distinct_map)
  then have "distinct (map (\<lambda>l. (row_team l, mr_guid (lm_row l))) (filter (\<lambda>l. row_team l = tr_id r) ?ls))"
    by (simp add: comp_def distinct_map_filter)
  then show ?thesis unfolding team_loaded_def
    by (auto simp: distinct_map inj_on_def guid_of_row) (metis player_guid_lopart)
qed

lemma loaded_fields [simp]:
  "at_id (team_loaded e ls r) = tr_id r" "at_type (team_loaded e ls r) = tr_type r" "at_name (team_loaded e ls r) = tr_name r"
  "at_captain (team_loaded e ls r) = MAKE_NEW_GUID (tr_captain r) 0 HIGHGUID_PLAYER" "at_stats (team_loaded e ls r) = tr_stats r"
  by (simp_all add: team_loaded_def team_of_row_def)

text \<open>
  C37: if every member in the tables has a character with a name, and every team has a row for its
  captain, then a server that starts on the tables of a reachable world keeps the tables and has the
  same teams, of the same types and with the same members, nobody twice, and each with the name, the
  captain and the numbers of its row.
\<close>

theorem teams_survive_restart:
  assumes "arena_reach w" "aw_store w0 = []" "aw_db w0 = aw_db w"
    "\<forall>r\<in>set (db_members (aw_db w)). \<exists>n c. ae_character e (mr_guid r) = Some (n, c) \<and> n \<noteq> []"
    "\<forall>r\<in>set (db_teams (aw_db w)). \<exists>m\<in>set (db_members (aw_db w)). mr_team m = tr_id r \<and> mr_guid m = tr_captain r"
  shows "aw_db (LoadArenaTeams e w0) = aw_db w
    \<and> (\<forall>i. map_option (\<lambda>t. (at_id t, at_type t, set (map am_guid (at_members t)))) (GetArenaTeamById i (LoadArenaTeams e w0))
        = map_option (\<lambda>t. (at_id t, at_type t, set (map am_guid (at_members t)))) (GetArenaTeamById i w))
    \<and> (\<forall>r\<in>set (db_teams (aw_db w)). \<exists>t. GetArenaTeamById (tr_id r) (LoadArenaTeams e w0) = Some t \<and> distinct (map am_guid (at_members t))
        \<and> at_name t = tr_name r \<and> at_captain t = MAKE_NEW_GUID (tr_captain r) 0 HIGHGUID_PLAYER \<and> at_stats t = tr_stats r)"
proof -
  let ?ls = "member_query e (aw_db w)" and ?rs = "sort_key tr_id (db_teams (aw_db w))"
  note ok = arena_reach_ok [OF assms(1)]
  note R = arena_ok_rosters [OF ok]
  from ok have k: "db_keyed (aw_db w0)" by (simp add: arena_ok_def assms(3))
  note load = LoadArenaTeams_eq [OF k, unfolded assms(2,3), OF rows_have_teams [OF ok] assms(4,5)]
  have "distinct (map tr_id ?rs)" using k by (simp add: db_keyed_def assms(3) distinct_map)
  then have found: "GetArenaTeamById (tr_id r) (LoadArenaTeams e w0) = Some (team_loaded e ?ls r)" if "r \<in> set (db_teams (aw_db w))" for r
    using find_puts(2) [of ?rs r] that by (simp add: GetArenaTeamById_def load(2))
  have "map_option (\<lambda>t. (at_id t, at_type t, set (guids t))) (GetArenaTeamById i (LoadArenaTeams e w0))
      = map_option (\<lambda>t. (at_id t, at_type t, set (guids t))) (GetArenaTeamById i w)" for i
  proof (cases "GetArenaTeamById i w")
    case None
    then have "i \<notin> tr_id ` set (db_teams (aw_db w))"
      using rostersD(3) [OF R] by (force simp: team_keys_def team_roll_def GetArenaTeamById_def)
    with None show ?thesis by (simp add: GetArenaTeamById_def load(2) find_puts(1))
  next
    case (Some t)
    then have "team_roll w i = Some (at_id t, at_type t, guids t)" by (simp add: stored_roll)
    then have "(i, at_type t) \<in> team_keys (aw_db w)" unfolding rostersD(3) [OF R] by blast
    then obtain r where r: "r \<in> set (db_teams (aw_db w))" "i = tr_id r" "at_type t = tr_type r" by (auto simp: team_keys_def)
    with found [OF r(1)] loaded_guids [OF ok, of r t e] Some ok_stored(1) [OF ok Some] show ?thesis by simp
  qed
  with load(1) found loaded_distinct [OF ok] show ?thesis by auto
qed

text \<open>The characters of everybody are there.\<close>

definition arena_env1 :: arena_env where
  "arena_env1 = arena_env0\<lparr>ae_character := (\<lambda>g. Some (''Someone'', 1))\<rparr>"

lemma two_teams_rows: "map (\<lambda>r. (tr_id r, tr_captain r)) (db_teams (aw_db two_teams)) = [(1, 1), (2, 3)]
    \<and> map (\<lambda>r. (mr_team r, mr_guid r)) (db_members (aw_db two_teams)) = [(1, 1), (1, 2), (2, 3), (2, 4)]"
  by code_simp

theorem teams_survive_restart_witness:
  "\<exists>t. GetArenaTeamById 2 (LoadArenaTeams arena_env1 (no_arena\<lparr>aw_db := aw_db two_teams\<rparr>)) = Some t \<and> set (map am_guid (at_members t)) = {3, 4}"
proof -
  let ?w = "no_arena\<lparr>aw_db := aw_db two_teams\<rparr>"
  have "aw_store ?w = []" "aw_db ?w = aw_db two_teams" by (simp_all add: no_arena_def)
  moreover have "\<forall>r\<in>set (db_members (aw_db two_teams)). \<exists>n c. ae_character arena_env1 (mr_guid r) = Some (n, c) \<and> n \<noteq> []"
    by (simp add: arena_env1_def)
  moreover have "\<forall>r\<in>set (db_teams (aw_db two_teams)). \<exists>m\<in>set (db_members (aw_db two_teams)). mr_team m = tr_id r \<and> mr_guid m = tr_captain r"
  proof
    fix r assume "r \<in> set (db_teams (aw_db two_teams))"
    then have "(tr_id r, tr_captain r) \<in> set (map (\<lambda>r. (tr_id r, tr_captain r)) (db_teams (aw_db two_teams)))" by auto
    then have "(tr_id r, tr_captain r) \<in> set (map (\<lambda>r. (mr_team r, mr_guid r)) (db_members (aw_db two_teams)))"
      unfolding two_teams_rows [THEN conjunct1] two_teams_rows [THEN conjunct2] by auto
    then show "\<exists>m\<in>set (db_members (aw_db two_teams)). mr_team m = tr_id r \<and> mr_guid m = tr_captain r" by auto
  qed
  moreover obtain t where "GetArenaTeamById 2 two_teams = Some t" "guids t = [3, 4]"
    using two_teams_store by (auto simp: GetArenaTeamById_def sm_find_def)
  ultimately show ?thesis using teams_survive_restart [OF two_teams_reached, of ?w arena_env1]
    by (auto dest!: spec [of _ 2])
qed

end
