(* ===== verification/Spec2Isabelle.thy ===== *)
theory Spec2Isabelle
  imports Channel_Props Channel_Mgr Group_Loot_Props Group_Props Group_Mgr Social_Props Timers Event_Processor
    Motion_Props Motion_Memory Reputation_Props Linked_List Threat_Props Arena_Load
begin

text \<open>
  A verification of the core of a TrinityCore 3.3.5 world server, the C++ code under
  \<open>src/src/server\<close>. The server keeps players, creatures and the structures they share in memory,
  answers the packets of the clients by handlers, advances the world in ticks, and writes what
  must survive to a database. This development models the parts whose behaviour rests on their
  own state and logic: the packet codec, chat channels, friend lists, groups with their loot
  rolls, arena teams, reputation, the timers and event queue, the motion master of a unit, and the
  threat between creatures and those they fight.

  \<^bold>\<open>How the parts map to theories.\<close>

  \<^item> \<open>Base\<close>, \<open>Std_Map\<close>, \<open>Text_Util\<close>: widths (\<open>u8\<close> to \<open>u64\<close>, \<open>s32\<close>, \<open>s64\<close>), the monad
    \<open>sbind\<close> of results \<open>error + 'a\<close>, \<open>std::map\<close> as a sorted association list with the locale
    \<open>ordered_map\<close> and its interpretation, the text helpers of \<open>shared/Utilities/Util.cpp\<close>.
  \<^item> \<open>Byte_Buffer\<close>, \<open>World_Packet\<close>, \<open>Wire_Codec\<close>: \<open>shared/Packets/ByteBuffer.h\<close>,
    \<open>WorldPacket.h\<close>, \<open>shared/Utilities/ByteConverter.h\<close>. A buffer is its storage and the two
    positions; a read out of range is the exception of the code as \<open>Inl\<close>. The locales
    \<open>stream_writer\<close>, \<open>codec\<close> and \<open>map_codec\<close> state what one \<open><<\<close> and \<open>>>\<close> promise, are interpreted
    on the element types, and give the round trips of vectors, lists and maps. Packets other
    components send are lists of typed fields; \<open>put_field\<close> gives their bytes.
  \<^item> \<open>Guid_Types\<close>: the 64-bit guids of \<open>Entities/Object/ObjectDefines.h\<close> and the account levels
    of \<open>AccountMgr.cpp\<close>.
  \<^item> \<open>Channel\<close>, \<open>Channel_Inv\<close>, \<open>Channel_Props\<close>, \<open>Channel_Mgr\<close>: \<open>Chat/Channels/Channel.cpp\<close>,
    \<open>ChannelMgr.cpp\<close>, \<open>Handlers/ChannelHandler.cpp\<close>. A channel is a record, its packets and
    statements a trace. What survives depends on two events that the code allows, an owner who kicks
    or bans himself and an administrator who switches the ownership on, and the invariant is stated
    for each set of them. The managers and the lists of the players are one world, moved by packets,
    changes of the zone, logouts and the ownership command, in which no list points to a deleted
    channel.
  \<^item> \<open>Social\<close>, \<open>Social_Props\<close>: \<open>Entities/Player/SocialMgr.cpp\<close> and its handlers in
    \<open>MiscHandler.cpp\<close>. Two refinements: of the list to two bounded sets, and of the lists in
    memory to the table in the database, across logins (whose query is filtered and limited),
    deletions and restorations of characters and changes of the faction.
  \<^item> \<open>Timers\<close>, \<open>Event_Processor\<close>: \<open>shared/Utilities/Timer.h\<close>, \<open>EventProcessor.cpp\<close>.
    \<open>Update\<close> is a \<open>partial_function\<close>, since an event may add itself again at once; that it
    returns is proved for events that add only later ones.
  \<^item> \<open>Motion_Master\<close>, \<open>Motion_Inv\<close>, \<open>Motion_Memory\<close>, \<open>Motion_Props\<close>: \<open>Movement/MotionMaster.cpp\<close>.
    The three slots hold generators named by allocation numbers; the virtual methods of the
    generators are a parameter that may call back into the motion master. The locale \<open>hooks_ok\<close> is the contract under which the slots stay safe;
    \<open>Motion_Memory\<close> accounts for every allocation. The safety results are for virtual methods that
    call only the functions that move; what happens when \<open>Finalize\<close> clears or pushes is shown by
    runs that lose or delete a generator.
  \<^item> \<open>Group_Loot\<close>, \<open>Group_Loot_Props\<close>: the rolls of \<open>Groups/Group.cpp\<close>, from \<open>GroupLoot\<close> and
    \<open>NeedBeforeGreed\<close> over the votes to \<open>CountTheRoll\<close>. Dice are a sequence in the state. The steps of
    \<open>loot_step\<close> take any vote of any player; they are labelled with the items on which a player votes again.
  \<^item> \<open>Group_Mgr\<close>, \<open>Group\<close>, \<open>Group_Handlers\<close>, \<open>Group_Inv\<close>, \<open>Group_Props\<close>: \<open>Groups/GroupMgr.cpp\<close>,
    the rest of \<open>Group.cpp\<close> with the group references of \<open>Player.cpp\<close>, and
    \<open>Handlers/GroupHandler.cpp\<close>. Groups are objects in a heap \<open>gw_groups\<close>; a deleted one is
    \<open>None\<close>, and reading it is the error \<open>DeadGroup\<close>. A player's two references and the list of
    references of a group are kept as the code keeps them, intrusive list included.
  \<^item> \<open>Reputation\<close>, \<open>Reputation_Props\<close>: \<open>Reputation/ReputationMgr.cpp\<close> and its handlers in
    \<open>CharacterHandler.cpp\<close>. The ranks are a linear order. The factions of the data files are a parameter, with
    no law but a well-formed table; \<open>float\<close> is the binary32 of \<open>Float32\<close>. A life of a character (login, play, save) relates the states in memory to the rows of
    \<open>character_reputation\<close>.
  \<^item> \<open>Float32\<close>: the \<open>float\<close> of the code, IEEE 754 binary32 on bit patterns with every rounding.
  \<^item> \<open>Linked_List\<close>: \<open>shared/Dynamic/LinkedList.h\<close> and the loop of \<open>RefManager.h\<close>, on a heap of
    elements with their two pointers, and the proof that they implement lists. The references of
    groups and of threat are kept in such lists; their models have the lists.
  \<^item> \<open>Threat\<close>, \<open>Threat_Inv\<close>, \<open>Threat_Props\<close>: \<open>Combat/ThreatManager.cpp\<close>, \<open>HostileRefManager.cpp\<close>
    and what \<open>Unit.cpp\<close> does over them. References are objects in a heap \<open>tw_refs\<close>; a freed one is
    \<open>None\<close>, and reading it is the error \<open>DeadRef\<close>. \<open>threat_ok\<close> is the invariant; \<open>run_call\<close> lists the
    calls from other files, the taunt effect of \<open>SpellEffects.cpp\<close> and the additions of scripts included;
    \<open>threat_reach\<close> is what any sequence of them in any environments leads to. Two scripts that take a
    reference out of its lists without deleting it, and loops that scripts write themselves, are not calls.

  \<^item> \<open>Arena_Team\<close>, \<open>Arena_Inv\<close>, \<open>Arena_Calls\<close>, \<open>Arena_Points\<close>, \<open>Arena_Props\<close>, \<open>Arena_Load\<close>:
    \<open>Battlegrounds/ArenaTeam.cpp\<close>, \<open>ArenaTeamMgr.cpp\<close>, \<open>Handlers/ArenaTeamHandler.cpp\<close>, the end of an arena
    petition in \<open>PetitionsHandler.cpp\<close>, the commands of \<open>cs_arena.cpp\<close> and the functions of \<open>Player.cpp\<close> on teams. The stored teams, the
    fields of the players and three tables are one world; a statement changes the tables at once (the
    server queues it) and is recorded. \<open>arena_ok\<close> says that all of them agree on the rosters, \<open>run_arena\<close> lists the calls,
    \<open>arena_reach\<close> is what they lead to; \<open>Arena_Points\<close> follows \<open>0.3f\<close> through its rounding;
    \<open>Arena_Load\<close> starts a server on the tables.

  \<^bold>\<open>Conventions.\<close> A definition carries the name of the function it models. Calls that leave the
  modelled state (packets, statements, script hooks, updates of units) are events of a trace, in
  order. What an operation asks of the rest of the server (who is online, distances, names,
  configuration, item templates) is a field of an environment record, the same during one
  operation and arbitrary in the next. Errors, failed assertions and reads of freed memory are
  values. Integers keep their width.

  \<^bold>\<open>Bounds and fuel.\<close> The loops of the motion master that empty the stack carry fuel, since a
  method of a deleted generator may push another; \<open>motion_life_safe\<close> holds for every fuel, and
  \<open>generators_accounted\<close> proves that two more than the generators that can be allocated is
  enough. \<open>EndRoll\<close> restarts its loop after each roll it ends; \<open>end_roll_resolves_all\<close> proves that
  the square of the number of rolls plus one is enough. \<open>leave_rolls\<close> takes the number of rolls
  of the group, which the loop cannot exceed. Threat for a pet is followed by threat for its owner;
  \<open>ref_addThreat\<close> bounds that recursion, and \<open>threat_calls_return\<close> proves that the length of the longest
  chain of owners is enough. The two loops that reset threat go over a list that may grow at its end
  and have a bound of their own, for which nothing is claimed but that they are safe. The other loops are structural, have a measure, or
  are a \<open>partial_function\<close>.

  \<^bold>\<open>What the properties show.\<close> C1 to C3: what one host writes another reads back,
  whatever their byte orders, a packed guid included, and no sequence of reads leaves the buffer. C4 to C11: channels. C12 and C13: friend lists. C14: events
  (timers and the rest of the event queue have theorems beside the properties). C15 to C19: the
  motion master, among them ways in which it loses or prematurely deletes a generator. C20 to C24:
  rolls, with counters that are the votes until a player votes twice, and what goes wrong then. C25 to C28: groups: exact sub-group counters,
  fresh storage ids, a fair round robin, and the dangling invitation after inviting oneself. C29 and
  C30: the reputation counters, and what a logout preserves. C31: intrusive lists are lists. C32 to
  C35: threat: the references and their lists agree and no freed one is read, the dead are forgotten,
  the choice of the victim, and that adding threat ends. C36 to C40: arena teams: the rosters agree
  everywhere, a restart brings them back, what leaving a foreign team and disbanding really do, and
  who gets points.

  \<^bold>\<open>Not modelled.\<close> The bodies of the movement generators and the splines (geometry over floating
  point), maps and grids, spells, auras and damage (thousands of cases over data files), the
  scripts, the database layer and the network loop (threads and libraries), guilds,
  battlegrounds with their queues, the dungeon finder, auctions, mail, quests and items. The manifest lists them.
\<close>

end
